(* ===== verification/Agent_Prelude.thy ===== *)
theory Agent_Prelude
  imports Main "HOL-Library.Char_ord" "HOL-Library.List_Lexorder"
begin

text \<open>
  Shared vocabulary of the development.  Timestamps and identifiers that the code keeps as text
  are strings, ordered as SQLite's BINARY collation orders them (lexicographically); instants the
  code compares as \<open>datetime\<close> values are integers (microseconds).  A database table is the list of
  its rows in insertion (rowid) order.  The exceptions of the agent are values of \<open>py_error\<close>, and
  an operation returns the exception or its result together with the committed database.
\<close>

section \<open>Errors and results\<close>

type_synonym stamp = string
type_synonym uuid = string
type_synonym instant = int

datatype py_error =
    Value_Error string
  | State_Conflict_Error string
  | Duplicate_Conflict_Error string
  | Integrity_Error
  | Runtime_Error string
  | Key_Error string
  | Permission_Error string
  | Identity_Not_Enrolled_Error string
  | Secure_Store_Unavailable_Error string
  | Mutation_Commit_Indeterminate_Error
  | Transport_Error
  | Agent_Authentication_Failed
  | Contract_Validation_Error
  | Cancelled_Error
  | Plugin_Unavailable_Error
  | Attribute_Error

type_synonym ('a, 'db) outcome = "(py_error + 'a) \<times> 'db"

section \<open>Rows of a table\<close>

definition upd_where :: "('r \<Rightarrow> bool) \<Rightarrow> ('r \<Rightarrow> 'r) \<Rightarrow> 'r list \<Rightarrow> 'r list" where
  "upd_where P f rows = map (\<lambda>r. if P r then f r else r) rows"

definition row_count :: "('r \<Rightarrow> bool) \<Rightarrow> 'r list \<Rightarrow> nat" where
  "row_count P rows = length (filter P rows)"

definition limit_rows :: "int \<Rightarrow> 'r list \<Rightarrow> 'r list" where
  "limit_rows n rows = (if n < 0 then rows else take (nat n) rows)"

named_theorems table_simps

lemma upd_where_simps [simp]:
  "upd_where P f [] = []"
  "upd_where P f (r # rs) = (if P r then f r else r) # upd_where P f rs"
  by (simp_all add: upd_where_def)

lemma upd_where_append [simp]: "upd_where P f (xs @ ys) = upd_where P f xs @ upd_where P f ys"
  by (simp add: upd_where_def)

lemma length_upd_where [simp]: "length (upd_where P f rows) = length rows"
  by (simp add: upd_where_def)

lemma set_upd_where:
  "set (upd_where P f rows) = (\<lambda>r. if P r then f r else r) ` set rows"
  by (simp add: upd_where_def)

lemma upd_where_mem: "r \<in> set rows \<Longrightarrow> (if P r then f r else r) \<in> set (upd_where P f rows)"
  by (simp add: set_upd_where)

lemma map_key_upd_where [simp]:
  "(\<And>r. key (f r) = key r) \<Longrightarrow> map key (upd_where P f rows) = map key rows"
  by (induction rows) auto

lemma image_key_upd_where [simp]:
  "(\<And>r. key (f r) = key r) \<Longrightarrow> key ` set (upd_where P f rows) = key ` set rows"
  by (simp flip: set_map)

lemma upd_where_none: "\<forall>r \<in> set rows. \<not> P r \<Longrightarrow> upd_where P f rows = rows"
  by (induction rows) auto

lemma find_key_upd_where [table_simps]:
  "(\<And>r. key (f r) = key r) \<Longrightarrow>
   find (\<lambda>r. key r = k) (upd_where P f rows)
     = map_option (\<lambda>r. if P r then f r else r) (find (\<lambda>r. key r = k) rows)"
  by (induction rows) auto

lemma find_append [table_simps]:
  "find P (xs @ ys) = (case find P xs of None \<Rightarrow> find P ys | Some r \<Rightarrow> Some r)"
  by (induction xs) auto

lemma find_key_None [table_simps]:
  "find (\<lambda>r. key r = k) rows = None \<longleftrightarrow> k \<notin> key ` set rows"
  by (auto simp: find_None_iff)

lemma find_SomeD: "find P rows = Some r \<Longrightarrow> r \<in> set rows \<and> P r"
  by (auto simp: find_Some_iff)

lemma find_key_iff:
  "distinct (map key rows) \<Longrightarrow>
   find (\<lambda>r. key r = k) rows = Some r \<longleftrightarrow> r \<in> set rows \<and> key r = k"
  by (induction rows) (auto simp: rev_image_eqI)

lemma distinct_key_inj:
  "distinct (map key rows) \<Longrightarrow> r \<in> set rows \<Longrightarrow> s \<in> set rows \<Longrightarrow> key r = key s \<Longrightarrow> r = s"
  by (auto simp: distinct_map inj_on_def)

lemma row_count_key:
  "distinct (map key rows) \<Longrightarrow>
   row_count (\<lambda>r. key r = k \<and> P r) rows
     = (case find (\<lambda>r. key r = k) rows of None \<Rightarrow> 0 | Some r \<Rightarrow> if P r then 1 else 0)"
proof (induction rows)
  case Nil
  then show ?case by (simp add: row_count_def)
next
  case (Cons r rs)
  show ?case
  proof (cases "key r = k")
    case True
    with Cons.prems have "\<forall>s \<in> set rs. key s \<noteq> k" by (auto simp: image_iff)
    then have "filter (\<lambda>r. key r = k \<and> P r) rs = []" by (auto simp: filter_empty_conv)
    with True show ?thesis by (simp add: row_count_def)
  next
    case False
    with Cons show ?thesis by (simp add: row_count_def)
  qed
qed

lemma row_count_zero: "row_count P rows = 0 \<longleftrightarrow> (\<forall>r \<in> set rows. \<not> P r)"
  by (auto simp: row_count_def filter_empty_conv)

lemma filter_key_none: "k \<notin> key ` set rows \<Longrightarrow> filter (\<lambda>r. key r = k) rows = []"
  by (induction rows) auto

lemma set_limit_rows: "set (limit_rows n rows) \<subseteq> set rows"
  by (auto simp: limit_rows_def dest: in_set_takeD)

lemma distinct_limit_rows: "distinct rows \<Longrightarrow> distinct (limit_rows n rows)"
  by (simp add: limit_rows_def)

text \<open>The row that \<open>ORDER BY\<close> puts first.\<close>

lemma sort_key_first:
  fixes f :: "'a \<Rightarrow> 'b :: linorder"
  assumes "x \<in> set xs" and "\<And>y. y \<in> set xs \<Longrightarrow> y \<noteq> x \<Longrightarrow> f x < f y"
  obtains ys where "sort_key f xs = x # ys"
proof (cases "sort_key f xs")
  case Nil
  then have "set (sort_key f xs) = {}" by simp
  with assms(1) show ?thesis unfolding set_sort by simp
next
  case (Cons h ys)
  have set: "set (h # ys) = set xs" using set_sort [of f xs] unfolding Cons .
  have "sorted (map f (h # ys))" using sorted_sort_key [of f xs] unfolding Cons .
  then have "f h \<le> f x" using assms(1) unfolding set [symmetric] by auto
  moreover have "h \<in> set xs" using set by auto
  ultimately have "h = x" using assms(2) [of h] by fastforce
  with Cons that show ?thesis by blast
qed

section \<open>Optional columns\<close>

text \<open>SQL's \<open>COALESCE(a, b)\<close> and Python's \<open>a or b\<close> on optional values.\<close>

definition coalesce :: "'a option \<Rightarrow> 'a option \<Rightarrow> 'a option" where
  "coalesce a b = (case a of None \<Rightarrow> b | Some _ \<Rightarrow> a)"

lemma coalesce_simps [simp]:
  "coalesce None b = b" "coalesce (Some x) b = Some x"
  by (simp_all add: coalesce_def)

lemma coalesce_eq_None [simp]: "coalesce a b = None \<longleftrightarrow> a = None \<and> b = None"
  by (cases a) simp_all

section \<open>Results\<close>

definition is_ok :: "('a, 'db) outcome \<Rightarrow> bool" where
  "is_ok r = (case fst r of Inl _ \<Rightarrow> False | Inr _ \<Rightarrow> True)"

lemma is_ok_simps [simp]: "\<not> is_ok (Inl e, db)" "is_ok (Inr x, db)"
  by (simp_all add: is_ok_def)

end
