(* ===== verification/Canonical_Json.thy ===== *)
theory Canonical_Json
  imports Agent_Prelude
begin

text \<open>
  JSON documents and the canonical rendering of \<open>infrastructure/contracts.py\<close>
  (\<open>json.dumps\<close> with \<open>ensure_ascii=False\<close>, \<open>sort_keys=True\<close> and the separators ``,'' and ``:'').
  Strings are their UTF-8 bytes, whose lexicographic order is the order of the code points.  A
  finite float is kept as the text \<open>repr\<close> gives it.  The digest of a document is a parameter: the
  hash of the rendered bytes.
\<close>

datatype json =
    JNull
  | JBool bool
  | JInt int
  | JFloat string
  | JStr string
  | JArr "json list"
  | JObj "(string \<times> json) list"

section \<open>Rendering\<close>

fun digits_text :: "nat \<Rightarrow> string" where
  "digits_text n =
     (if n < 10 then [char_of (48 + n)] else digits_text (n div 10) @ [char_of (48 + n mod 10)])"

declare digits_text.simps [simp del]

definition int_text :: "int \<Rightarrow> string" where
  "int_text i = (if i < 0 then CHR ''-'' # digits_text (nat (- i)) else digits_text (nat i))"

definition hex_digit :: "nat \<Rightarrow> char" where
  "hex_digit n = (if n < 10 then char_of (48 + n) else char_of (87 + n))"

definition escape_char :: "char \<Rightarrow> string" where
  "escape_char c =
     (if c = CHR 0x22 then [CHR 0x5C, CHR 0x22]
      else if c = CHR 0x5C then [CHR 0x5C, CHR 0x5C]
      else if c = CHR 0x0A then [CHR 0x5C, CHR ''n'']
      else if c = CHR 0x0D then [CHR 0x5C, CHR ''r'']
      else if c = CHR 0x09 then [CHR 0x5C, CHR ''t'']
      else if c = CHR 0x0C then [CHR 0x5C, CHR ''f'']
      else if c = CHR 0x08 then [CHR 0x5C, CHR ''b'']
      else if of_char c < (32 :: nat)
        then [CHR 0x5C, CHR ''u'', CHR ''0'', CHR ''0'',
              hex_digit (of_char c div 16), hex_digit (of_char c mod 16)]
      else [c])"

definition string_text :: "string \<Rightarrow> string" where
  "string_text s = CHR 0x22 # concat (map escape_char s) @ [CHR 0x22]"

fun join_text :: "string \<Rightarrow> string list \<Rightarrow> string" where
  "join_text sep [] = []"
| "join_text sep [x] = x"
| "join_text sep (x # y # xs) = x @ sep @ join_text sep (y # xs)"

definition object_text :: "(string \<times> string) list \<Rightarrow> string" where
  "object_text members =
     ''{'' @ join_text '','' (map (\<lambda>(k, v). string_text k @ '':'' @ v) members) @ ''}''"

primrec canonical_json :: "json \<Rightarrow> string" where
  "canonical_json JNull = ''null''"
| "canonical_json (JBool b) = (if b then ''true'' else ''false'')"
| "canonical_json (JInt i) = int_text i"
| "canonical_json (JFloat t) = t"
| "canonical_json (JStr s) = string_text s"
| "canonical_json (JArr vs) = ''['' @ join_text '','' (map canonical_json vs) @ '']''"
| "canonical_json (JObj kvs) =
     object_text (sort_key fst (map (map_prod id canonical_json) kvs))"

definition digest :: "(string \<Rightarrow> 'h) \<Rightarrow> json \<Rightarrow> 'h" where
  "digest sha256_hex payload = sha256_hex (canonical_json payload)"

text \<open>Member access as \<open>payload.get(k)\<close> does it: the last member of a name wins when a text is
  loaded, and a document built by the code never repeats a name.\<close>

fun json_get :: "json \<Rightarrow> string \<Rightarrow> json option" where
  "json_get (JObj kvs) k = map_of kvs k"
| "json_get _ k = None"

section \<open>Key order does not matter\<close>

lemma fst_map_values: "map fst (map (map_prod id f) kvs) = map fst kvs"
  by (induction kvs) auto

lemma sort_key_fst_unique:
  assumes "distinct (map fst xs)" and "distinct (map fst ys)" and "set xs = set ys"
  shows "sort_key fst xs = sort_key fst ys"
proof (rule map_sorted_distinct_set_unique)
  show "inj_on fst (set (sort_key fst xs) \<union> set (sort_key fst ys))"
    using assms by (simp add: distinct_map)
qed (use assms in \<open>simp_all add: distinct_map\<close>)

lemma canonical_json_member_order:
  assumes "distinct (map fst kvs)" and "distinct (map fst kvs')" and "set kvs = set kvs'"
  shows "canonical_json (JObj kvs) = canonical_json (JObj kvs')"
proof -
  let ?m = "map (map_prod id canonical_json)"
  have "sort_key fst (?m kvs) = sort_key fst (?m kvs')"
    using assms by (intro sort_key_fst_unique) (simp_all only: fst_map_values set_map)
  then show ?thesis by simp
qed

lemma digest_member_order:
  "distinct (map fst kvs) \<Longrightarrow> distinct (map fst kvs') \<Longrightarrow> set kvs = set kvs' \<Longrightarrow>
   digest h (JObj kvs) = digest h (JObj kvs')"
  unfolding digest_def by (simp only: canonical_json_member_order [of kvs kvs'])

lemma hd_canonical_object: "hd (canonical_json (JObj kvs)) = CHR ''{''"
  by (simp add: object_text_def)

end
