(* ===== verification/Task_States.thy ===== *)
theory Task_States
  imports Agent_Prelude
begin

text \<open>
  The task state machine of \<open>domain/states.py\<close>: the fourteen states, the terminal sets, the table of
  allowed transitions and \<open>ensure_transition\<close>.  The rank shows that the table has no cycle and
  bounds the number of transitions of any task.
\<close>

datatype task_state =
    Received | Duplicate | Skipped | Blocked | Rejected | Queued | Preparing | Running
  | Cancel_Requested | Cleaning_Up | Completed | Failed | Cancelled | Interrupted

fun state_value :: "task_state \<Rightarrow> string" where
  "state_value Received = ''received''"
| "state_value Duplicate = ''duplicate''"
| "state_value Skipped = ''skipped''"
| "state_value Blocked = ''blocked''"
| "state_value Rejected = ''rejected''"
| "state_value Queued = ''queued''"
| "state_value Preparing = ''preparing''"
| "state_value Running = ''running''"
| "state_value Cancel_Requested = ''cancel_requested''"
| "state_value Cleaning_Up = ''cleaning_up''"
| "state_value Completed = ''completed''"
| "state_value Failed = ''failed''"
| "state_value Cancelled = ''cancelled''"
| "state_value Interrupted = ''interrupted''"

definition PRE_EXECUTION_TERMINAL :: "task_state set" where
  "PRE_EXECUTION_TERMINAL = {Duplicate, Skipped, Blocked, Rejected}"

definition EXECUTION_TERMINAL :: "task_state set" where
  "EXECUTION_TERMINAL = {Completed, Failed, Cancelled, Interrupted}"

definition TERMINAL_STATES :: "task_state set" where
  "TERMINAL_STATES = PRE_EXECUTION_TERMINAL \<union> EXECUTION_TERMINAL"

fun ALLOWED_TRANSITIONS :: "task_state \<Rightarrow> task_state set" where
  "ALLOWED_TRANSITIONS Received = {Duplicate, Skipped, Blocked, Rejected, Queued}"
| "ALLOWED_TRANSITIONS Queued = {Preparing, Cancel_Requested, Skipped, Blocked, Rejected}"
| "ALLOWED_TRANSITIONS Preparing = {Running, Cancel_Requested, Failed, Interrupted}"
| "ALLOWED_TRANSITIONS Running = {Cancel_Requested, Cleaning_Up, Interrupted}"
| "ALLOWED_TRANSITIONS Cancel_Requested = {Cleaning_Up}"
| "ALLOWED_TRANSITIONS Cleaning_Up = {Completed, Failed, Cancelled, Interrupted}"
| "ALLOWED_TRANSITIONS _ = {}"

definition ensure_transition :: "task_state \<Rightarrow> task_state \<Rightarrow> py_error + unit" where
  "ensure_transition current target =
     (if target \<in> ALLOWED_TRANSITIONS current then Inr ()
      else Inl (Value_Error (''invalid task transition: '' @ state_value current @ '' -> ''
             @ state_value target)))"

definition allowed_transition :: "task_state \<Rightarrow> task_state \<Rightarrow> bool" where
  "allowed_transition a b \<longleftrightarrow> b \<in> ALLOWED_TRANSITIONS a"

section \<open>The table has no cycle\<close>

fun task_rank :: "task_state \<Rightarrow> nat" where
  "task_rank Received = 0"
| "task_rank Queued = 1"
| "task_rank Preparing = 2"
| "task_rank Running = 3"
| "task_rank Cancel_Requested = 4"
| "task_rank Cleaning_Up = 5"
| "task_rank _ = 6"

instantiation task_state :: linorder
begin

text \<open>
  Progress order: by rank, terminal states (all of rank 6) by their name, so that the library's
  order lemmas apply to states.
\<close>

definition less_eq_task_state :: "task_state \<Rightarrow> task_state \<Rightarrow> bool" where
  "less_eq_task_state a b \<longleftrightarrow>
     task_rank a < task_rank b \<or> task_rank a = task_rank b \<and> state_value a \<le> state_value b"

definition less_task_state :: "task_state \<Rightarrow> task_state \<Rightarrow> bool" where
  "less_task_state a b \<longleftrightarrow> a \<le> b \<and> \<not> b \<le> (a :: task_state)"

lemma state_value_inject: "state_value a = state_value b \<longleftrightarrow> a = b"
  by (cases a; cases b) simp_all

instance
proof
  fix a b c :: task_state
  show "(a < b) = (a \<le> b \<and> \<not> b \<le> a)" by (rule less_task_state_def)
  show "a \<le> a" by (simp add: less_eq_task_state_def)
  show "a \<le> b \<Longrightarrow> b \<le> c \<Longrightarrow> a \<le> c" by (auto simp: less_eq_task_state_def)
  show "a \<le> b \<Longrightarrow> b \<le> a \<Longrightarrow> a = b"
    by (auto simp: less_eq_task_state_def state_value_inject)
  show "a \<le> b \<or> b \<le> a" by (auto simp: less_eq_task_state_def)
qed

end

lemma allowed_transition_rank: "allowed_transition a b \<Longrightarrow> task_rank a < task_rank b"
  by (cases a) (auto simp: allowed_transition_def)

lemma allowed_transition_less: "allowed_transition a b \<Longrightarrow> a < b"
  by (auto dest!: allowed_transition_rank simp: less_task_state_def less_eq_task_state_def)

lemma task_rank_le: "task_rank s \<le> 6"
  by (cases s) simp_all

lemma terminal_iff: "s \<in> TERMINAL_STATES \<longleftrightarrow> ALLOWED_TRANSITIONS s = {}"
  by (cases s) (simp_all add: TERMINAL_STATES_def PRE_EXECUTION_TERMINAL_def EXECUTION_TERMINAL_def)

lemma terminal_no_transition: "s \<in> TERMINAL_STATES \<Longrightarrow> \<not> allowed_transition s t"
  by (simp add: terminal_iff allowed_transition_def)

lemma ensure_transition_Inr [simp]: "ensure_transition a b = Inr u \<longleftrightarrow> allowed_transition a b"
  by (simp add: ensure_transition_def allowed_transition_def)

lemma ensure_transition_Inl: "ensure_transition a b = Inl e \<Longrightarrow> \<not> allowed_transition a b"
  by (auto simp: ensure_transition_def allowed_transition_def split: if_splits)

lemma allowed_path_rank: "allowed_transition\<^sup>*\<^sup>* a b \<Longrightarrow> a \<noteq> b \<Longrightarrow> task_rank a < task_rank b"
  by (induction rule: rtranclp_induct) (force dest: allowed_transition_rank)+

end
