(* ===== verification/Store_Schema.thy ===== *)
theory Store_Schema
  imports Canonical_Json Task_States
begin

text \<open>
  The agent's SQLite schema (\<open>infrastructure/sqlite/versions/0001_initial.sql\<close> and \<open>0002\<close>): a
  record for the rows of each table of the agent's operation, the database as the record of these tables, and the inserts with the PRIMARY
  KEY, UNIQUE and FOREIGN KEY constraints that SQLite enforces (\<open>PRAGMA foreign_keys=ON\<close>).  An
  insert that violates a constraint is \<open>None\<close>, the \<open>IntegrityError\<close> of the driver; the transaction
  it was part of is then not committed.  The length CHECKs on digests hold by construction of the
  digests and are not repeated.  Two tables have no record here: \<open>sync_state\<close>, which the code never
  writes and reads only for a diagnostic dump, and \<open>schema_migrations\<close>, which only the migration
  runner uses.
\<close>

section \<open>Task tables\<close>

record inbox_task =
  it_task_id :: uuid
  it_execution_id :: uuid
  it_key :: uuid
  it_task_type :: string
  it_task_type_version :: string
  it_payload :: string
  it_payload_hash :: string
  it_effect_hash :: string
  it_canonical :: "uuid option"
  it_state :: task_state
  it_reason :: "string option"
  it_received_at :: stamp
  it_expires_at :: stamp
  it_updated_at :: stamp

record idempotency_effect =
  ie_key :: uuid
  ie_effect_hash :: string
  ie_canonical :: uuid
  ie_claimed_at :: "stamp option"
  ie_terminal_state :: "string option"
  ie_result_id :: "uuid option"
  ie_created_at :: stamp
  ie_updated_at :: stamp

record task_attempt =
  ta_attempt_id :: uuid
  ta_task_id :: uuid
  ta_claimed_at :: stamp
  ta_invoked_at :: "stamp option"
  ta_finished_at :: "stamp option"
  ta_cleanup_requested_at :: "stamp option"
  ta_cleanup_completed_at :: "stamp option"
  ta_cleanup_attempts :: nat
  ta_last_cleanup_error :: "string option"

datatype outbox_state = Pending | In_Flight | Confirmed | Upload_Failed

text \<open>The columns the three outboxes share; \<open>ob_id\<close> is \<open>event_id\<close>, \<open>result_id\<close> or \<open>upload_id\<close>.\<close>

record outbox_row =
  ob_id :: uuid
  ob_task_id :: uuid
  ob_payload :: string
  ob_payload_hash :: string
  ob_state :: outbox_state
  ob_attempts :: nat
  ob_next_attempt_at :: stamp
  ob_confirmed_at :: "stamp option"
  ob_last_error :: "string option"

record progress_row = outbox_row +
  pr_sequence :: int

record result_row = outbox_row +
  rr_key :: uuid

record upload_row = outbox_row +
  up_artifact_id :: string
  up_relative_path :: string
  up_media_type :: string
  up_size_bytes :: int
  up_sha256 :: string

record quarantine_row =
  qr_id :: uuid
  qr_source_table :: string
  qr_source_key :: string
  qr_reason :: string
  qr_raw_payload :: "string option"
  qr_observed_hash :: "string option"
  qr_quarantined_at :: stamp

section \<open>Identity, runtime, manifests and Windows operations\<close>

datatype rotation_state =
  Rot_None | Rot_Requested | Rot_Pending_Stored | Rot_Activation_Uncertain | Rot_Activated | Rot_Revoked

record agent_identity =
  ai_installation_id :: uuid
  ai_display_name :: string
  ai_platform :: string
  ai_platform_version :: string
  ai_agent_version :: string
  ai_device_id :: "uuid option"
  ai_agent_id :: "uuid option"
  ai_protocol_version :: "string option"
  ai_enrolled_at :: "stamp option"
  ai_revoked_at :: "stamp option"
  ai_enrollment_key :: uuid
  ai_enrollment_reported_at :: stamp
  ai_active_id :: "uuid option"
  ai_active_version :: "int option"
  ai_active_fingerprint :: "string option"
  ai_active_ref :: "string option"
  ai_active_expires_at :: "stamp option"
  ai_previous_id :: "uuid option"
  ai_previous_ref :: "string option"
  ai_pending_id :: "uuid option"
  ai_pending_version :: "int option"
  ai_pending_fingerprint :: "string option"
  ai_pending_ref :: "string option"
  ai_pending_expires_at :: "stamp option"
  ai_rotation_id :: "uuid option"
  ai_rotation_key :: "uuid option"
  ai_activation_key :: "uuid option"
  ai_rotation_state :: rotation_state
  ai_updated_at :: stamp

record runtime_state =
  rs_boot_id :: uuid
  rs_heartbeat_acked :: int
  rs_heartbeat_pending :: "int option"
  rs_heartbeat_payload :: "string option"
  rs_heartbeat_hash :: "string option"
  rs_manifest_acked :: int
  rs_clean_shutdown :: bool
  rs_started_at :: "stamp option"
  rs_stopped_at :: "stamp option"
  rs_updated_at :: stamp

record manifest_row =
  mr_manifest_id :: uuid
  mr_sequence :: int
  mr_payload :: string
  mr_payload_hash :: string
  mr_server_digest :: "string option"
  mr_confirmed :: bool
  mr_created_at :: stamp
  mr_confirmed_at :: "stamp option"

datatype winop_state =
  Intent_Recorded | Op_Running | Op_Completed | Op_Failed | Op_Cancelled | Op_Reconciling | Op_Rolled_Back

record windows_operation =
  wo_operation_id :: uuid
  wo_key :: uuid
  wo_intent_hash :: string
  wo_action :: string
  wo_interface_guid :: uuid
  wo_target_profile :: "string option"
  wo_previous_profile :: "string option"
  wo_state :: winop_state
  wo_started_at :: stamp
  wo_updated_at :: stamp
  wo_completed_at :: "stamp option"
  wo_reconciliation :: "string option"
  wo_last_error :: "string option"

section \<open>The database\<close>

record store =
  t_inbox :: "inbox_task list"
  t_effects :: "idempotency_effect list"
  t_attempts :: "task_attempt list"
  t_progress :: "progress_row list"
  t_results :: "result_row list"
  t_uploads :: "upload_row list"
  t_quarantine :: "quarantine_row list"
  t_identity :: "agent_identity option"
  t_runtime :: "runtime_state option"
  t_manifests :: "manifest_row list"
  t_winops :: "windows_operation list"

definition empty_store :: store where
  "empty_store =
     \<lparr>t_inbox = [], t_effects = [], t_attempts = [], t_progress = [], t_results = [],
      t_uploads = [], t_quarantine = [], t_identity = None, t_runtime = None, t_manifests = [],
      t_winops = []\<rparr>"

section \<open>Inserts with their constraints\<close>

definition task_exists :: "store \<Rightarrow> uuid \<Rightarrow> bool" where
  "task_exists db t \<longleftrightarrow> t \<in> it_task_id ` set (t_inbox db)"

definition insert_inbox :: "inbox_task \<Rightarrow> store \<Rightarrow> store option" where
  "insert_inbox r db =
     (if task_exists db (it_task_id r)
         \<or> (case it_canonical r of None \<Rightarrow> False | Some c \<Rightarrow> c \<noteq> it_task_id r \<and> \<not> task_exists db c)
      then None
      else Some (db\<lparr>t_inbox := t_inbox db @ [r]\<rparr>))"

definition insert_effect :: "idempotency_effect \<Rightarrow> store \<Rightarrow> store option" where
  "insert_effect e db =
     (if ie_key e \<in> ie_key ` set (t_effects db)
         \<or> ie_canonical e \<in> ie_canonical ` set (t_effects db)
         \<or> \<not> task_exists db (ie_canonical e)
      then None
      else Some (db\<lparr>t_effects := t_effects db @ [e]\<rparr>))"

definition insert_attempt :: "task_attempt \<Rightarrow> store \<Rightarrow> store option" where
  "insert_attempt a db =
     (if ta_attempt_id a \<in> ta_attempt_id ` set (t_attempts db)
         \<or> ta_task_id a \<in> ta_task_id ` set (t_attempts db)
         \<or> \<not> task_exists db (ta_task_id a)
      then None
      else Some (db\<lparr>t_attempts := t_attempts db @ [a]\<rparr>))"

definition insert_progress :: "progress_row \<Rightarrow> store \<Rightarrow> store option" where
  "insert_progress r db =
     (if ob_id r \<in> ob_id ` set (t_progress db)
         \<or> (ob_task_id r, pr_sequence r) \<in> (\<lambda>r. (ob_task_id r, pr_sequence r)) ` set (t_progress db)
         \<or> \<not> task_exists db (ob_task_id r)
      then None
      else Some (db\<lparr>t_progress := t_progress db @ [r]\<rparr>))"

definition insert_result :: "result_row \<Rightarrow> store \<Rightarrow> store option" where
  "insert_result r db =
     (if ob_id r \<in> ob_id ` set (t_results db)
         \<or> ob_task_id r \<in> ob_task_id ` set (t_results db)
         \<or> rr_key r \<in> rr_key ` set (t_results db)
         \<or> \<not> task_exists db (ob_task_id r)
      then None
      else Some (db\<lparr>t_results := t_results db @ [r]\<rparr>))"

definition insert_manifest :: "manifest_row \<Rightarrow> store \<Rightarrow> store option" where
  "insert_manifest r db =
     (if mr_manifest_id r \<in> mr_manifest_id ` set (t_manifests db)
         \<or> mr_sequence r \<in> mr_sequence ` set (t_manifests db)
      then None
      else Some (db\<lparr>t_manifests := t_manifests db @ [r]\<rparr>))"

definition insert_winop :: "windows_operation \<Rightarrow> store \<Rightarrow> store option" where
  "insert_winop r db =
     (if wo_operation_id r \<in> wo_operation_id ` set (t_winops db)
         \<or> wo_key r \<in> wo_key ` set (t_winops db)
      then None
      else Some (db\<lparr>t_winops := t_winops db @ [r]\<rparr>))"

named_theorems insert_defs
declare insert_inbox_def [insert_defs] insert_effect_def [insert_defs] insert_attempt_def [insert_defs]
  insert_progress_def [insert_defs] insert_result_def [insert_defs] insert_manifest_def [insert_defs]
  insert_winop_def [insert_defs]

lemma task_exists_iff: "task_exists db t \<longleftrightarrow> find (\<lambda>r. it_task_id r = t) (t_inbox db) \<noteq> None"
  by (simp add: task_exists_def find_key_None)

end
