(* ===== verification/Cas_Machine.thy ===== *)
theory Cas_Machine
  imports Agent_Prelude
begin

text \<open>
  The interface of a durable state machine: keyed rows whose state column changes only by a
  compare-and-set guarded by a table of allowed transitions.  The agent's inbox of tasks is such a
  machine: it provides the laws below for its own model and takes the consequences (paths,
  absorbing states, a bound on the number of transitions) from here.
\<close>

section \<open>Runs of compare-and-set requests\<close>

fun cas_all :: "('k \<Rightarrow> 's \<Rightarrow> 's \<Rightarrow> 'db \<Rightarrow> 'db option) \<Rightarrow> ('k \<times> 's \<times> 's) list \<Rightarrow> 'db \<Rightarrow> 'db option" where
  "cas_all cas [] db = Some db"
| "cas_all cas ((k, a, b) # reqs) db =
     (case cas k a b db of None \<Rightarrow> None | Some db' \<Rightarrow> cas_all cas reqs db')"

definition requests_for :: "'k \<Rightarrow> ('k \<times> 's \<times> 's) list \<Rightarrow> ('k \<times> 's \<times> 's) list" where
  "requests_for k reqs = filter (\<lambda>(k', a, b). k' = k) reqs"

lemma requests_for_simps [simp]:
  "requests_for k [] = []"
  "requests_for k ((k', a, b) # reqs)
     = (if k' = k then (k', a, b) # requests_for k reqs else requests_for k reqs)"
  by (simp_all add: requests_for_def)

section \<open>The contract\<close>

locale cas_machine =
  fixes allowed :: "'s \<Rightarrow> 's \<Rightarrow> bool"
    and state_of :: "'db \<Rightarrow> 'k \<Rightarrow> 's option"
    and cas :: "'k \<Rightarrow> 's \<Rightarrow> 's \<Rightarrow> 'db \<Rightarrow> 'db option"
    and wf :: "'db \<Rightarrow> bool"
  assumes cas_dom: "wf db \<Longrightarrow> (cas k a b db \<noteq> None) = (allowed a b \<and> state_of db k = Some a)"
    and cas_here: "wf db \<Longrightarrow> cas k a b db = Some db' \<Longrightarrow> state_of db' k = Some b"
    and cas_frame: "wf db \<Longrightarrow> cas k a b db = Some db' \<Longrightarrow> k' \<noteq> k \<Longrightarrow> state_of db' k' = state_of db k'"
    and cas_wf: "wf db \<Longrightarrow> cas k a b db = Some db' \<Longrightarrow> wf db'"
begin

lemma cas_SomeD:
  assumes "wf db" and "cas k a b db = Some db'"
  shows "allowed a b" and "state_of db k = Some a"
  using cas_dom [OF assms(1), of k a b] assms(2) by simp_all

lemma cas_all_wf: "wf db \<Longrightarrow> cas_all cas reqs db = Some db' \<Longrightarrow> wf db'"
proof (induction reqs arbitrary: db)
  case Nil
  then show ?case by simp
next
  case (Cons req reqs)
  obtain k a b where [simp]: "req = (k, a, b)" by (cases req)
  from Cons.prems obtain db1 where "cas k a b db = Some db1" and "cas_all cas reqs db1 = Some db'"
    by (auto split: option.splits)
  with Cons.IH Cons.prems(1) show ?case by (blast intro: cas_wf)
qed

lemma cas_all_path:
  assumes "wf db" and "cas_all cas reqs db = Some db'" and "state_of db k = Some a"
  shows "\<exists>b. state_of db' k = Some b \<and> allowed\<^sup>*\<^sup>* a b"
  using assms
proof (induction reqs arbitrary: db a)
  case Nil
  then show ?case by auto
next
  case (Cons req reqs)
  obtain l u v where [simp]: "req = (l, u, v)" by (cases req)
  from Cons.prems obtain db1 where step: "cas l u v db = Some db1"
    and rest: "cas_all cas reqs db1 = Some db'"
    by (auto split: option.splits)
  have wf1: "wf db1" using Cons.prems(1) step by (rule cas_wf)
  show ?case
  proof (cases "l = k")
    case True
    then have "u = a" and uv: "allowed u v" using cas_SomeD [OF Cons.prems(1) step] Cons.prems(3) by auto
    moreover have "state_of db1 k = Some v" using cas_here [OF Cons.prems(1) step] True by simp
    ultimately show ?thesis
      using Cons.IH [OF wf1 rest] by (meson converse_rtranclp_into_rtranclp)
  next
    case False
    then have "state_of db1 k = Some a" using cas_frame [OF Cons.prems(1) step] Cons.prems(3) by simp
    then show ?thesis using Cons.IH [OF wf1 rest] by blast
  qed
qed

lemma final_absorbing:
  assumes "wf db" and "cas_all cas reqs db = Some db'" and "state_of db k = Some a"
    and "\<And>b. \<not> allowed a b"
  shows "state_of db' k = Some a"
proof -
  obtain b where b: "state_of db' k = Some b" and "allowed\<^sup>*\<^sup>* a b"
    using cas_all_path [OF assms(1-3)] by blast
  from this(2) assms(4) have "b = a" by (auto elim: converse_rtranclpE)
  with b show ?thesis by simp
qed

end

text \<open>A machine whose transitions climb a rank: every key makes boundedly many transitions.\<close>

locale ranked_cas_machine = cas_machine +
  fixes rank :: "'a \<Rightarrow> nat"
  assumes allowed_climbs: "allowed a b \<Longrightarrow> rank a < rank b"
begin

lemma requests_bounded:
  assumes "wf db" and "cas_all cas reqs db = Some db'" and "state_of db k = Some a"
  shows "\<exists>b. state_of db' k = Some b \<and> length (requests_for k reqs) + rank a \<le> rank b"
  using assms
proof (induction reqs arbitrary: db a)
  case Nil
  then show ?case by auto
next
  case (Cons req reqs)
  obtain l u v where [simp]: "req = (l, u, v)" by (cases req)
  from Cons.prems obtain db1 where step: "cas l u v db = Some db1"
    and rest: "cas_all cas reqs db1 = Some db'"
    by (auto split: option.splits)
  have wf1: "wf db1" using Cons.prems(1) step by (rule cas_wf)
  show ?case
  proof (cases "l = k")
    case True
    then have "u = a" and uv: "rank u < rank v"
      using cas_SomeD [OF Cons.prems(1) step] Cons.prems(3) allowed_climbs by auto
    moreover have "state_of db1 k = Some v" using cas_here [OF Cons.prems(1) step] True by simp
    ultimately show ?thesis using Cons.IH [OF wf1 rest] True by fastforce
  next
    case False
    then have "state_of db1 k = Some a" using cas_frame [OF Cons.prems(1) step] Cons.prems(3) by simp
    then show ?thesis using Cons.IH [OF wf1 rest] False by simp
  qed
qed

end

end
