(* ===== verification/Task_Store.thy ===== *)
theory Task_Store
  imports Store_Schema Cas_Machine
begin

text \<open>
  The task part of \<open>SQLiteStore\<close> (\<open>infrastructure/sqlite/store.py\<close>) and the envelope of
  \<open>domain/models.py\<close>: ingestion with its two levels of idempotency (task id, idempotency key), the
  atomic claim, the compare-and-set transitions, the bookkeeping of attempts, results and outboxes,
  and the recovery at start-up.  Every operation takes the clock reading and the fresh identifiers
  it uses as arguments and returns the committed database, also when it raises.
\<close>

section \<open>The local task envelope\<close>

datatype foreground_requirement = Fg_Not_Required | Fg_Required | Fg_Required_On_Mobile
datatype interaction_requirement = Ui_None | Ui_Possible | Ui_Required

fun foreground_text :: "foreground_requirement \<Rightarrow> string" where
  "foreground_text Fg_Not_Required = ''not_required''"
| "foreground_text Fg_Required = ''required''"
| "foreground_text Fg_Required_On_Mobile = ''required_on_mobile''"

fun interaction_text :: "interaction_requirement \<Rightarrow> string" where
  "interaction_text Ui_None = ''none''"
| "interaction_text Ui_Possible = ''possible''"
| "interaction_text Ui_Required = ''required''"

record local_task =
  lt_task_id :: uuid
  lt_execution_id :: uuid
  lt_task_type :: string
  lt_task_type_version :: string
  lt_issued_at :: instant
  lt_not_before :: instant
  lt_expires_at :: instant
  lt_idempotency_key :: uuid
  lt_required_capabilities :: "string list"
  lt_foreground :: foreground_requirement
  lt_interaction :: interaction_requirement
  lt_parameters :: "(string \<times> json) list"

text \<open>
  What the store uses of libraries outside the repository: the hash, the JSON loader, pydantic's
  validation and the renderings of a \<open>datetime\<close>.
\<close>

record codec =
  sha256_hex :: "string \<Rightarrow> string"
  json_loads :: "string \<Rightarrow> json option"
  validate_task :: "json \<Rightarrow> local_task option"
  dump_datetime :: "instant \<Rightarrow> string"
  iso_format :: "instant \<Rightarrow> string"

definition envelope_json :: "codec \<Rightarrow> local_task \<Rightarrow> json" where
  "envelope_json c t = JObj
     [(''schema_version'', JStr ''1.0.0''),
      (''protocol_version'', JStr ''1.0.0''),
      (''task_id'', JStr (lt_task_id t)),
      (''execution_id'', JStr (lt_execution_id t)),
      (''task_type'', JStr (lt_task_type t)),
      (''task_type_version'', JStr (lt_task_type_version t)),
      (''issued_at'', JStr (dump_datetime c (lt_issued_at t))),
      (''not_before'', JStr (dump_datetime c (lt_not_before t))),
      (''expires_at'', JStr (dump_datetime c (lt_expires_at t))),
      (''idempotency_key'', JStr (lt_idempotency_key t)),
      (''required_capabilities'', JArr (map JStr (lt_required_capabilities t))),
      (''foreground_requirement'', JStr (foreground_text (lt_foreground t))),
      (''user_interaction_requirement'', JStr (interaction_text (lt_interaction t))),
      (''parameters'', JObj (lt_parameters t))]"

definition logical_effect :: "local_task \<Rightarrow> json" where
  "logical_effect t = JObj
     [(''execution_id'', JStr (lt_execution_id t)),
      (''task_type'', JStr (lt_task_type t)),
      (''task_type_version'', JStr (lt_task_type_version t)),
      (''required_capabilities'', JArr (map JStr (lt_required_capabilities t))),
      (''foreground_requirement'', JStr (foreground_text (lt_foreground t))),
      (''user_interaction_requirement'', JStr (interaction_text (lt_interaction t))),
      (''parameters'', JObj (lt_parameters t))]"

text \<open>\<open>json.dumps({"code": "blocked", "detail": detail})\<close> with the default separators.\<close>

definition blocked_reason :: "string \<Rightarrow> string" where
  "blocked_reason detail = ''{\"code\": \"blocked\", \"detail\": \"'' @ detail @ ''\"}''"

section \<open>Ingestion\<close>

definition quarantine_in_transaction ::
  "codec \<Rightarrow> stamp \<Rightarrow> uuid \<Rightarrow> string \<Rightarrow> string \<Rightarrow> string \<Rightarrow> string option \<Rightarrow> store \<Rightarrow> store" where
  "quarantine_in_transaction c now qid source_table source_key reason raw db =
     db\<lparr>t_quarantine := t_quarantine db @
        [\<lparr>qr_id = qid, qr_source_table = source_table, qr_source_key = source_key,
          qr_reason = reason, qr_raw_payload = raw,
          qr_observed_hash = Some (sha256_hex c (case raw of None \<Rightarrow> [] | Some p \<Rightarrow> p)),
          qr_quarantined_at = now\<rparr>]\<rparr>"

definition inbox_row ::
  "codec \<Rightarrow> stamp \<Rightarrow> local_task \<Rightarrow> uuid option \<Rightarrow> task_state \<Rightarrow> string option \<Rightarrow> inbox_task" where
  "inbox_row c now task canonical st reason =
     \<lparr>it_task_id = lt_task_id task, it_execution_id = lt_execution_id task,
      it_key = lt_idempotency_key task, it_task_type = lt_task_type task,
      it_task_type_version = lt_task_type_version task,
      it_payload = canonical_json (envelope_json c task),
      it_payload_hash = digest (sha256_hex c) (envelope_json c task),
      it_effect_hash = digest (sha256_hex c) (logical_effect task),
      it_canonical = canonical, it_state = st, it_reason = reason, it_received_at = now,
      it_expires_at = iso_format c (lt_expires_at task), it_updated_at = now\<rparr>"

definition effect_row :: "codec \<Rightarrow> stamp \<Rightarrow> local_task \<Rightarrow> idempotency_effect" where
  "effect_row c now task =
     \<lparr>ie_key = lt_idempotency_key task,
      ie_effect_hash = digest (sha256_hex c) (logical_effect task),
      ie_canonical = lt_task_id task, ie_claimed_at = None, ie_terminal_state = None,
      ie_result_id = None, ie_created_at = now, ie_updated_at = now\<rparr>"

definition ingest_task :: "codec \<Rightarrow> stamp \<Rightarrow> uuid \<Rightarrow> local_task \<Rightarrow> store \<Rightarrow> (string, store) outcome" where
  "ingest_task c now qid task db =
     (let payload_hash = digest (sha256_hex c) (envelope_json c task);
          effect_hash = digest (sha256_hex c) (logical_effect task);
          task_id = lt_task_id task
      in case find (\<lambda>r. it_task_id r = task_id) (t_inbox db) of
           Some existing \<Rightarrow>
             if it_payload_hash existing \<noteq> payload_hash
             then (Inl (Duplicate_Conflict_Error ''task_id was reused with a different payload''),
                   quarantine_in_transaction c now qid ''inbox_tasks'' task_id
                     ''task_id_payload_conflict'' (Some (canonical_json (envelope_json c task))) db)
             else (Inr ''duplicate'', db)
         | None \<Rightarrow>
             (case find (\<lambda>e. ie_key e = lt_idempotency_key task) (t_effects db) of
                Some effect \<Rightarrow>
                  let same = ie_effect_hash effect = effect_hash;
                      st = (if same then Duplicate else Blocked);
                      reason = (if same then ''idempotency_duplicate'' else ''idempotency_conflict'')
                  in (case insert_inbox
                             (inbox_row c now task (Some (ie_canonical effect)) st
                                (Some (blocked_reason reason))) db of
                        None \<Rightarrow> (Inl Integrity_Error, db)
                      | Some db' \<Rightarrow> (Inr (state_value st), db'))
              | None \<Rightarrow>
                  (case insert_inbox (inbox_row c now task None Received None) db of
                     None \<Rightarrow> (Inl Integrity_Error, db)
                   | Some db1 \<Rightarrow>
                       (case insert_effect (effect_row c now task) db1 of
                          None \<Rightarrow> (Inl Integrity_Error, db)
                        | Some db2 \<Rightarrow>
                            (Inr (state_value Queued),
                             db2\<lparr>t_inbox := upd_where
                                   (\<lambda>r. it_task_id r = task_id \<and> it_state r = Received)
                                   (\<lambda>r. r\<lparr>it_state := Queued, it_updated_at := now\<rparr>)
                                   (t_inbox db2)\<rparr>)))))"

section \<open>Reading the queue\<close>

definition reject_corrupt :: "codec \<Rightarrow> stamp \<Rightarrow> uuid \<Rightarrow> inbox_task \<Rightarrow> store \<Rightarrow> store" where
  "reject_corrupt c now qid row db =
     (let db1 = quarantine_in_transaction c now qid ''inbox_tasks'' (it_task_id row)
                  ''corrupt_task_row'' (Some (it_payload row)) db
      in db1\<lparr>t_inbox := upd_where
             (\<lambda>r. it_task_id r = it_task_id row \<and> it_state r = Queued)
             (\<lambda>r. r\<lparr>it_state := Rejected, it_reason := Some (blocked_reason ''corrupt_row''),
                     it_updated_at := now\<rparr>)
             (t_inbox db1)\<rparr>)"

definition load_row :: "codec \<Rightarrow> inbox_task \<Rightarrow> local_task option" where
  "load_row c row =
     (case json_loads c (it_payload row) of
        None \<Rightarrow> None
      | Some payload \<Rightarrow>
          if digest (sha256_hex c) payload \<noteq> it_payload_hash row then None
          else validate_task c payload)"

fun load_rows ::
  "codec \<Rightarrow> stamp \<Rightarrow> (uuid \<Rightarrow> uuid) \<Rightarrow> inbox_task list \<Rightarrow> store \<Rightarrow> local_task list \<times> store" where
  "load_rows c now fresh [] db = ([], db)"
| "load_rows c now fresh (row # rows) db =
     (case load_row c row of
        Some task \<Rightarrow> map_prod ((#) task) id (load_rows c now fresh rows db)
      | None \<Rightarrow> load_rows c now fresh rows
                  (reject_corrupt c now (fresh (it_task_id row)) row db))"

definition queued_rows :: "int \<Rightarrow> store \<Rightarrow> inbox_task list" where
  "queued_rows limit db =
     limit_rows limit (sort_key it_received_at (filter (\<lambda>r. it_state r = Queued) (t_inbox db)))"

definition queued_tasks ::
  "codec \<Rightarrow> stamp \<Rightarrow> (uuid \<Rightarrow> uuid) \<Rightarrow> int \<Rightarrow> store \<Rightarrow> local_task list \<times> store" where
  "queued_tasks c now fresh limit db = load_rows c now fresh (queued_rows limit db) db"

section \<open>Claim, transitions and attempts\<close>

definition set_task_state :: "stamp \<Rightarrow> uuid \<Rightarrow> task_state \<Rightarrow> task_state \<Rightarrow> store \<Rightarrow> store" where
  "set_task_state now t current target db =
     db\<lparr>t_inbox := upd_where (\<lambda>r. it_task_id r = t \<and> it_state r = current)
          (\<lambda>r. r\<lparr>it_state := target, it_updated_at := now\<rparr>) (t_inbox db)\<rparr>"

definition cas_count :: "uuid \<Rightarrow> task_state \<Rightarrow> store \<Rightarrow> nat" where
  "cas_count t current db = row_count (\<lambda>r. it_task_id r = t \<and> it_state r = current) (t_inbox db)"

definition claim_task :: "stamp \<Rightarrow> uuid \<Rightarrow> uuid \<Rightarrow> store \<Rightarrow> (uuid option, store) outcome" where
  "claim_task now attempt_id t db =
     (case find (\<lambda>r. it_task_id r = t) (t_inbox db) of
        None \<Rightarrow> (Inr None, db)
      | Some row \<Rightarrow>
          if it_state row \<noteq> Queued then (Inr None, db)
          else
            (let free = (\<lambda>e. ie_key e = it_key row \<and> ie_claimed_at e = None)
             in if row_count free (t_effects db) \<noteq> 1 then (Inr None, db)
                else
                  (let db1 = db\<lparr>t_effects := upd_where free
                               (\<lambda>e. e\<lparr>ie_claimed_at := Some now, ie_updated_at := now\<rparr>)
                               (t_effects db)\<rparr>;
                       db2 = set_task_state now t Queued Preparing db1
                   in case insert_attempt
                             \<lparr>ta_attempt_id = attempt_id, ta_task_id = t, ta_claimed_at = now,
                              ta_invoked_at = None, ta_finished_at = None,
                              ta_cleanup_requested_at = None, ta_cleanup_completed_at = None,
                              ta_cleanup_attempts = 0, ta_last_cleanup_error = None\<rparr> db2 of
                        None \<Rightarrow> (Inl Integrity_Error, db)
                      | Some db3 \<Rightarrow> (Inr (Some attempt_id), db3))))"

definition transition :: "stamp \<Rightarrow> uuid \<Rightarrow> task_state \<Rightarrow> task_state \<Rightarrow> store \<Rightarrow> (unit, store) outcome" where
  "transition now t current target db =
     (case ensure_transition current target of
        Inl e \<Rightarrow> (Inl e, db)
      | Inr _ \<Rightarrow>
          if cas_count t current db \<noteq> 1
          then (Inl (State_Conflict_Error ''task transition compare-and-set failed''),
                set_task_state now t current target db)
          else (Inr (), set_task_state now t current target db))"

definition mark_invoked :: "stamp \<Rightarrow> uuid \<Rightarrow> store \<Rightarrow> (unit, store) outcome" where
  "mark_invoked now t db =
     (let fresh = (\<lambda>a. ta_task_id a = t \<and> ta_invoked_at a = None)
      in if row_count fresh (t_attempts db) \<noteq> 1
         then (Inl (State_Conflict_Error ''plugin invocation was already recorded''), db)
         else (Inr (), db\<lparr>t_attempts := upd_where fresh (\<lambda>a. a\<lparr>ta_invoked_at := Some now\<rparr>)
                            (t_attempts db)\<rparr>))"

definition request_cleanup :: "stamp \<Rightarrow> uuid \<Rightarrow> store \<Rightarrow> store" where
  "request_cleanup now t db =
     db\<lparr>t_attempts := upd_where (\<lambda>a. ta_task_id a = t)
          (\<lambda>a. a\<lparr>ta_cleanup_requested_at := coalesce (ta_cleanup_requested_at a) (Some now)\<rparr>)
          (t_attempts db)\<rparr>"

definition complete_cleanup :: "stamp \<Rightarrow> uuid \<Rightarrow> string option \<Rightarrow> store \<Rightarrow> store" where
  "complete_cleanup now t error db =
     db\<lparr>t_attempts := upd_where (\<lambda>a. ta_task_id a = t)
          (\<lambda>a. a\<lparr>ta_cleanup_attempts := Suc (ta_cleanup_attempts a),
                  ta_cleanup_completed_at :=
                    (if error = None then Some now else ta_cleanup_completed_at a),
                  ta_last_cleanup_error := error\<rparr>)
          (t_attempts db)\<rparr>"

section \<open>Results, progress and outboxes\<close>

definition payload_text :: "json \<Rightarrow> string \<Rightarrow> string option" where
  "payload_text payload k = (case json_get payload k of Some (JStr s) \<Rightarrow> Some s | _ \<Rightarrow> None)"

definition finish_with_result ::
  "codec \<Rightarrow> stamp \<Rightarrow> uuid \<Rightarrow> uuid \<Rightarrow> task_state \<Rightarrow> task_state \<Rightarrow> json \<Rightarrow> store \<Rightarrow> (unit, store) outcome" where
  "finish_with_result c now result_key t current target payload db =
     (case ensure_transition current target of
        Inl e \<Rightarrow> (Inl e, db)
      | Inr _ \<Rightarrow>
          (case payload_text payload ''result_id'' of
             None \<Rightarrow> (Inl (Key_Error ''result_id''), db)
           | Some result_id \<Rightarrow>
               if cas_count t current db \<noteq> 1
               then (Inl (State_Conflict_Error ''terminal task transition compare-and-set failed''), db)
               else
                 (let db1 = set_task_state now t current target db
                  in case insert_result
                            \<lparr>ob_id = result_id, ob_task_id = t, ob_payload = canonical_json payload,
                             ob_payload_hash = digest (sha256_hex c) payload, ob_state = Pending,
                             ob_attempts = 0, ob_next_attempt_at = now, ob_confirmed_at = None,
                             ob_last_error = None, rr_key = result_key\<rparr> db1 of
                       None \<Rightarrow> (Inl Integrity_Error, db)
                     | Some db2 \<Rightarrow>
                         (Inr (),
                          db2\<lparr>t_effects := upd_where
                                (\<lambda>e. Some (ie_key e)
                                       = map_option it_key (find (\<lambda>r. it_task_id r = t) (t_inbox db1)))
                                (\<lambda>e. e\<lparr>ie_terminal_state := Some (state_value target),
                                        ie_result_id := Some result_id, ie_updated_at := now\<rparr>)
                                (t_effects db2),
                              t_attempts := upd_where (\<lambda>a. ta_task_id a = t)
                                (\<lambda>a. a\<lparr>ta_finished_at := Some now\<rparr>) (t_attempts db2)\<rparr>))))"

definition queue_progress ::
  "codec \<Rightarrow> stamp \<Rightarrow> uuid \<Rightarrow> uuid \<Rightarrow> int \<Rightarrow> json \<Rightarrow> store \<Rightarrow> (unit, store) outcome" where
  "queue_progress c now t event_id seqno payload db =
     (case insert_progress
             \<lparr>ob_id = event_id, ob_task_id = t, ob_payload = canonical_json payload,
              ob_payload_hash = digest (sha256_hex c) payload, ob_state = Pending, ob_attempts = 0,
              ob_next_attempt_at = now, ob_confirmed_at = None, ob_last_error = None,
              pr_sequence = seqno\<rparr> db of
        None \<Rightarrow> (Inl Integrity_Error, db)
      | Some db' \<Rightarrow> (Inr (), db'))"

definition pending_rows :: "('a outbox_row_scheme) list \<Rightarrow> ('a outbox_row_scheme) list" where
  "pending_rows rows =
     sort_key ob_next_attempt_at (filter (\<lambda>r. ob_state r = Pending \<or> ob_state r = In_Flight) rows)"

definition pending_outbox :: "string \<Rightarrow> store \<Rightarrow> py_error + outbox_row list" where
  "pending_outbox table db =
     (if table = ''outbox_progress'' then Inr (map outbox_row.truncate (pending_rows (t_progress db)))
      else if table = ''outbox_results'' then Inr (map outbox_row.truncate (pending_rows (t_results db)))
      else if table = ''pending_uploads'' then Inr (map outbox_row.truncate (pending_rows (t_uploads db)))
      else Inl (Value_Error ''unknown outbox''))"

definition confirm_rows :: "stamp \<Rightarrow> uuid \<Rightarrow> ('a outbox_row_scheme) list \<Rightarrow> ('a outbox_row_scheme) list" where
  "confirm_rows now k rows =
     upd_where (\<lambda>r. ob_id r = k) (\<lambda>r. r\<lparr>ob_state := Confirmed, ob_confirmed_at := Some now\<rparr>) rows"

definition confirm_outbox ::
  "stamp \<Rightarrow> string \<Rightarrow> string \<Rightarrow> uuid \<Rightarrow> store \<Rightarrow> (unit, store) outcome" where
  "confirm_outbox now table key_name k db =
     (if table = ''outbox_progress'' \<and> key_name = ''event_id''
      then (Inr (), db\<lparr>t_progress := confirm_rows now k (t_progress db)\<rparr>)
      else if table = ''outbox_results'' \<and> key_name = ''result_id''
      then (Inr (), db\<lparr>t_results := confirm_rows now k (t_results db)\<rparr>)
      else if table = ''pending_uploads'' \<and> key_name = ''upload_id''
      then (Inr (), db\<lparr>t_uploads := confirm_rows now k (t_uploads db)\<rparr>)
      else (Inl (Value_Error ''invalid outbox key''), db))"

section \<open>Recovery at start-up\<close>

definition INTERRUPTIBLE :: "task_state set" where
  "INTERRUPTIBLE = {Preparing, Running, Cancel_Requested, Cleaning_Up}"

fun interrupt_tasks :: "stamp \<Rightarrow> uuid list \<Rightarrow> store \<Rightarrow> store" where
  "interrupt_tasks now [] db = db"
| "interrupt_tasks now (t # ts) db =
     interrupt_tasks now ts
       (db\<lparr>t_inbox := upd_where (\<lambda>r. it_task_id r = t)
             (\<lambda>r. r\<lparr>it_state := Interrupted, it_reason := Some (blocked_reason ''process_restart''),
                     it_updated_at := now\<rparr>) (t_inbox db),
           t_attempts := upd_where (\<lambda>a. ta_task_id a = t)
             (\<lambda>a. a\<lparr>ta_cleanup_requested_at := coalesce (ta_cleanup_requested_at a) (Some now),
                     ta_finished_at := coalesce (ta_finished_at a) (Some now)\<rparr>) (t_attempts db)\<rparr>)"

definition recover_interrupted :: "stamp \<Rightarrow> store \<Rightarrow> nat \<times> store" where
  "recover_interrupted now db =
     (let ts = map it_task_id (filter (\<lambda>r. it_state r \<in> INTERRUPTIBLE) (t_inbox db))
      in (length ts, interrupt_tasks now ts db))"

end
