(* ===== verification/Task_Invariant.thy ===== *)
theory Task_Invariant
  imports Task_Store
begin

text \<open>
  The invariant of the task tables, and that every task operation of the store preserves it.  It is
  what makes the claim exclusive: an effect (one per idempotency key) belongs to one canonical
  task, is claimed exactly when that task has its attempt, and a task with an attempt has left the
  queue for good.
\<close>

section \<open>The invariant\<close>

definition keys_wf :: "store \<Rightarrow> bool" where
  "keys_wf db \<longleftrightarrow>
     distinct (map it_task_id (t_inbox db)) \<and> distinct (map ie_key (t_effects db)) \<and>
     distinct (map ie_canonical (t_effects db)) \<and> distinct (map ta_task_id (t_attempts db)) \<and>
     distinct (map ob_task_id (t_results db))"

definition row_wf :: "store \<Rightarrow> inbox_task \<Rightarrow> bool" where
  "row_wf db r \<longleftrightarrow>
     it_state r \<noteq> Received \<and>
     (it_canonical r = None \<longrightarrow>
        (\<exists>e \<in> set (t_effects db). ie_key e = it_key r \<and> ie_canonical e = it_task_id r
           \<and> ie_effect_hash e = it_effect_hash r)) \<and>
     (it_canonical r \<noteq> None \<longrightarrow> it_state r \<in> PRE_EXECUTION_TERMINAL)"

definition effect_wf :: "store \<Rightarrow> idempotency_effect \<Rightarrow> bool" where
  "effect_wf db e \<longleftrightarrow>
     (\<exists>r \<in> set (t_inbox db). it_task_id r = ie_canonical e \<and> it_canonical r = None) \<and>
     (ie_claimed_at e \<noteq> None) = (ie_canonical e \<in> ta_task_id ` set (t_attempts db))"

definition attempt_wf :: "store \<Rightarrow> task_attempt \<Rightarrow> bool" where
  "attempt_wf db a \<longleftrightarrow>
     (\<exists>r \<in> set (t_inbox db). it_task_id r = ta_task_id a \<and> it_canonical r = None
        \<and> 2 \<le> task_rank (it_state r))"

definition result_wf :: "store \<Rightarrow> result_row \<Rightarrow> bool" where
  "result_wf db x \<longleftrightarrow>
     (\<exists>r \<in> set (t_inbox db). it_task_id r = ob_task_id x \<and> it_canonical r = None
        \<and> it_state r \<in> TERMINAL_STATES)"

definition task_wf :: "store \<Rightarrow> bool" where
  "task_wf db \<longleftrightarrow>
     keys_wf db \<and> (\<forall>r \<in> set (t_inbox db). row_wf db r) \<and> (\<forall>e \<in> set (t_effects db). effect_wf db e) \<and>
     (\<forall>a \<in> set (t_attempts db). attempt_wf db a) \<and> (\<forall>x \<in> set (t_results db). result_wf db x)"

lemmas task_wf_defs = task_wf_def keys_wf_def row_wf_def effect_wf_def attempt_wf_def result_wf_def

lemma task_wf_empty: "task_wf empty_store"
  by (simp add: task_wf_defs empty_store_def)

lemma task_wf_keys:
  assumes "task_wf db"
  shows "distinct (map it_task_id (t_inbox db))" "distinct (map ie_key (t_effects db))"
    "distinct (map ie_canonical (t_effects db))" "distinct (map ta_task_id (t_attempts db))"
    "distinct (map ob_task_id (t_results db))"
  using assms by (simp_all add: task_wf_def keys_wf_def)

section \<open>Updates that advance tasks\<close>

text \<open>An update of a row that keeps what identifies it and never moves its state backwards.\<close>

definition row_advances :: "inbox_task \<Rightarrow> inbox_task \<Rightarrow> bool" where
  "row_advances r s \<longleftrightarrow>
     it_task_id s = it_task_id r \<and> it_key s = it_key r \<and> it_canonical s = it_canonical r \<and>
     it_effect_hash s = it_effect_hash r \<and> it_payload s = it_payload r \<and>
     it_payload_hash s = it_payload_hash r \<and>
     (it_state s = it_state r \<or> task_rank (it_state r) < task_rank (it_state s))"

definition effect_kept :: "idempotency_effect \<Rightarrow> idempotency_effect \<Rightarrow> bool" where
  "effect_kept e f \<longleftrightarrow>
     ie_key f = ie_key e \<and> ie_canonical f = ie_canonical e \<and> ie_effect_hash f = ie_effect_hash e \<and>
     ie_claimed_at f = ie_claimed_at e"

lemma pre_terminal_rank: "s \<in> PRE_EXECUTION_TERMINAL \<Longrightarrow> task_rank s = 6"
  by (auto simp: PRE_EXECUTION_TERMINAL_def)

lemma terminal_rank: "s \<in> TERMINAL_STATES \<longleftrightarrow> task_rank s = 6"
  by (cases s) (auto simp: TERMINAL_STATES_def PRE_EXECUTION_TERMINAL_def EXECUTION_TERMINAL_def)

lemma received_rank: "task_rank s = 0 \<longleftrightarrow> s = Received"
  by (cases s) simp_all

lemma row_advances_rank: "row_advances r s \<Longrightarrow> task_rank (it_state r) \<le> task_rank (it_state s)"
  by (auto simp: row_advances_def)

lemma row_advances_received: "row_advances r s \<Longrightarrow> it_state r \<noteq> Received \<Longrightarrow> it_state s \<noteq> Received"
  using row_advances_rank [of r s] by (auto simp flip: received_rank)

lemma row_advances_terminal:
  "row_advances r s \<Longrightarrow> it_state r \<in> TERMINAL_STATES \<Longrightarrow> it_state s = it_state r"
  using task_rank_le [of "it_state s"] by (auto simp: row_advances_def terminal_rank)

lemma task_wf_map:
  assumes wf: "task_wf db"
    and inbox: "t_inbox db' = map f (t_inbox db)" and f: "\<And>r. r \<in> set (t_inbox db) \<Longrightarrow> row_advances r (f r)"
    and effects: "t_effects db' = map g (t_effects db)" and g: "\<And>e. e \<in> set (t_effects db) \<Longrightarrow> effect_kept e (g e)"
    and attempts: "t_attempts db' = map h (t_attempts db)" and h: "\<And>a. ta_task_id (h a) = ta_task_id a"
    and results: "map ob_task_id (t_results db') = map ob_task_id (t_results db)"
  shows "task_wf db'"
proof -
  have ids: "map it_task_id (t_inbox db') = map it_task_id (t_inbox db)"
    using f by (simp add: inbox row_advances_def)
  have eff: "map ie_key (t_effects db') = map ie_key (t_effects db)"
    "map ie_canonical (t_effects db') = map ie_canonical (t_effects db)"
    using g by (simp_all add: effects effect_kept_def)
  have att: "map ta_task_id (t_attempts db') = map ta_task_id (t_attempts db)"
    by (simp add: attempts h)
  then have att_set: "ta_task_id ` set (t_attempts db') = ta_task_id ` set (t_attempts db)"
    by (metis set_map)
  have keys: "keys_wf db'"
    using wf unfolding task_wf_def keys_wf_def ids eff att results by simp
  have rows: "row_wf db' r'" if "r' \<in> set (t_inbox db')" for r'
  proof -
    from that obtain r where r: "r \<in> set (t_inbox db)" and r': "r' = f r" by (auto simp: inbox)
    have adv: "row_advances r r'" using f [OF r] r' by simp
    have old: "row_wf db r" using wf r by (simp add: task_wf_def)
    show ?thesis
    proof (cases "it_canonical r")
      case None
      with old obtain e where e: "e \<in> set (t_effects db)" "ie_key e = it_key r"
        "ie_canonical e = it_task_id r" "ie_effect_hash e = it_effect_hash r"
        by (auto simp: row_wf_def)
      moreover have "g e \<in> set (t_effects db')" using e(1) by (simp add: effects)
      ultimately show ?thesis using adv old g [OF e(1)] None row_advances_received [OF adv]
        by (auto simp: row_wf_def row_advances_def effect_kept_def)
    next
      case (Some c)
      with old have "it_state r \<in> PRE_EXECUTION_TERMINAL" by (simp add: row_wf_def)
      then show ?thesis using row_advances_terminal [OF adv] adv Some old
        by (auto simp: row_wf_def TERMINAL_STATES_def row_advances_def)
    qed
  qed
  have to_row: "\<exists>r' \<in> set (t_inbox db'). row_advances r r'" if "r \<in> set (t_inbox db)" for r
    using that f [OF that] by (auto simp: inbox)
  have effs: "effect_wf db' e'" if "e' \<in> set (t_effects db')" for e'
  proof -
    from that obtain e where e: "e \<in> set (t_effects db)" and e': "e' = g e" by (auto simp: effects)
    have old: "effect_wf db e" using wf e by (simp add: task_wf_def)
    then show ?thesis using g [OF e] to_row att_set
      unfolding effect_wf_def e' effect_kept_def row_advances_def by metis
  qed
  have atts: "attempt_wf db' a'" if "a' \<in> set (t_attempts db')" for a'
  proof -
    from that obtain a where a: "a \<in> set (t_attempts db)" and a': "a' = h a" by (auto simp: attempts)
    have "attempt_wf db a" using wf a by (simp add: task_wf_def)
    then obtain r where r: "r \<in> set (t_inbox db)" "it_task_id r = ta_task_id a"
      "it_canonical r = None" "2 \<le> task_rank (it_state r)" by (auto simp: attempt_wf_def)
    obtain r' where r': "r' \<in> set (t_inbox db')" "row_advances r r'" using to_row [OF r(1)] ..
    have "2 \<le> task_rank (it_state r')" using r(4) row_advances_rank [OF r'(2)] by simp
    moreover have "it_task_id r' = ta_task_id a'" "it_canonical r' = None"
      using r r'(2) by (simp_all add: row_advances_def a' h)
    ultimately show ?thesis using r'(1) unfolding attempt_wf_def by blast
  qed
  have ress: "result_wf db' x'" if x': "x' \<in> set (t_results db')" for x'
  proof -
    have "ob_task_id x' \<in> ob_task_id ` set (t_results db)"
      using x' results by (metis image_eqI set_map)
    then obtain x where x: "x \<in> set (t_results db)" "ob_task_id x' = ob_task_id x" by auto
    have "result_wf db x" using wf x by (simp add: task_wf_def)
    then obtain r where r: "r \<in> set (t_inbox db)" "it_task_id r = ob_task_id x"
      "it_state r \<in> TERMINAL_STATES" "it_canonical r = None" by (auto simp: result_wf_def)
    obtain r' where r': "r' \<in> set (t_inbox db')" "row_advances r r'" using to_row [OF r(1)] ..
    have "it_state r' \<in> TERMINAL_STATES" using row_advances_terminal [OF r'(2) r(3)] r(3) by simp
    moreover have "it_task_id r' = ob_task_id x'" "it_canonical r' = None"
      using r(2,4) r'(2) x(2) by (simp_all add: row_advances_def)
    ultimately show ?thesis using r'(1) unfolding result_wf_def by blast
  qed
  show ?thesis unfolding task_wf_def using keys rows effs atts ress by blast
qed

section \<open>Every operation keeps the invariant\<close>

lemma row_advances_refl [simp]: "row_advances r r"
  by (simp add: row_advances_def)

lemma effect_kept_refl [simp]: "effect_kept e e"
  by (simp add: effect_kept_def)

lemma task_wf_cong:
  "task_wf db \<Longrightarrow> t_inbox db' = t_inbox db \<Longrightarrow> t_effects db' = t_effects db \<Longrightarrow>
   t_attempts db' = t_attempts db \<Longrightarrow> t_results db' = t_results db \<Longrightarrow> task_wf db'"
  by (rule task_wf_map [where f = id and g = id and h = id]) simp_all

lemma task_wf_inbox_upd:
  assumes "task_wf db" and "\<And>r. r \<in> set (t_inbox db) \<Longrightarrow> P r \<Longrightarrow> row_advances r (f r)"
  shows "task_wf (db\<lparr>t_inbox := upd_where P f (t_inbox db)\<rparr>)"
  by (rule task_wf_map [OF assms(1), where g = id and h = id and f = "\<lambda>r. if P r then f r else r"])
    (use assms(2) in \<open>auto simp: upd_where_def\<close>)

lemma task_wf_attempts_upd:
  assumes "task_wf db" and "\<And>a. ta_task_id (h a) = ta_task_id a"
  shows "task_wf (db\<lparr>t_attempts := upd_where P h (t_attempts db)\<rparr>)"
  by (rule task_wf_map [OF assms(1), where f = id and g = id and h = "\<lambda>a. if P a then h a else a"])
    (use assms(2) in \<open>auto simp: upd_where_def\<close>)

lemma task_wf_effects_upd:
  assumes "task_wf db" and "\<And>e. effect_kept e (g e)"
  shows "task_wf (db\<lparr>t_effects := upd_where P g (t_effects db)\<rparr>)"
  by (rule task_wf_map [OF assms(1), where f = id and h = id and g = "\<lambda>e. if P e then g e else e"])
    (use assms(2) in \<open>auto simp: upd_where_def\<close>)

lemma set_task_state_wf:
  "task_wf db \<Longrightarrow> allowed_transition a b \<Longrightarrow> task_wf (set_task_state now t a b db)"
  unfolding set_task_state_def
  by (rule task_wf_inbox_upd) (auto simp: row_advances_def dest: allowed_transition_rank)

lemma transition_wf: "task_wf db \<Longrightarrow> task_wf (snd (transition now t a b db))"
  by (auto simp: transition_def split: sum.splits if_splits dest: set_task_state_wf ensure_transition_Inl)

lemma mark_invoked_wf: "task_wf db \<Longrightarrow> task_wf (snd (mark_invoked now t db))"
  by (auto simp: mark_invoked_def Let_def intro: task_wf_attempts_upd)

lemma request_cleanup_wf: "task_wf db \<Longrightarrow> task_wf (request_cleanup now t db)"
  by (auto simp: request_cleanup_def intro: task_wf_attempts_upd)

lemma complete_cleanup_wf: "task_wf db \<Longrightarrow> task_wf (complete_cleanup now t error db)"
  by (auto simp: complete_cleanup_def intro: task_wf_attempts_upd)

lemma queue_progress_wf: "task_wf db \<Longrightarrow> task_wf (snd (queue_progress c now t ev n p db))"
  by (auto simp: queue_progress_def insert_progress_def split: option.splits if_splits
           intro: task_wf_cong)

lemma confirm_rows_task_id [simp]: "map ob_task_id (confirm_rows now k rows) = map ob_task_id rows"
  by (simp add: confirm_rows_def)

lemma confirm_outbox_wf: "task_wf db \<Longrightarrow> task_wf (snd (confirm_outbox now table kn k db))"
  by (erule task_wf_map [where f = id and g = id and h = id]) (simp_all add: confirm_outbox_def)

lemma quarantine_wf:
  "task_wf db \<Longrightarrow> task_wf (quarantine_in_transaction c now qid tab k reason raw db)"
  by (auto simp: quarantine_in_transaction_def intro: task_wf_cong)

lemma quarantine_tables [simp]:
  "t_inbox (quarantine_in_transaction c now qid tab k reason raw db) = t_inbox db"
  "t_effects (quarantine_in_transaction c now qid tab k reason raw db) = t_effects db"
  "t_attempts (quarantine_in_transaction c now qid tab k reason raw db) = t_attempts db"
  "t_results (quarantine_in_transaction c now qid tab k reason raw db) = t_results db"
  by (simp_all add: quarantine_in_transaction_def)

lemma reject_corrupt_wf: "task_wf db \<Longrightarrow> task_wf (reject_corrupt c now qid row db)"
  unfolding reject_corrupt_def Let_def
  by (rule task_wf_inbox_upd [OF quarantine_wf]) (auto simp: row_advances_def)

lemma load_rows_wf: "task_wf db \<Longrightarrow> task_wf (snd (load_rows c now fresh rows db))"
  by (induction rows arbitrary: db) (auto split: option.splits intro: reject_corrupt_wf)

lemma queued_tasks_wf: "task_wf db \<Longrightarrow> task_wf (snd (queued_tasks c now fresh n db))"
  by (simp add: queued_tasks_def load_rows_wf)

section \<open>The claim\<close>

lemma task_wf_canonical_effect:
  assumes "task_wf db" and "r \<in> set (t_inbox db)" and "it_canonical r = None"
  obtains e where "e \<in> set (t_effects db)" "ie_key e = it_key r" "ie_canonical e = it_task_id r"
    "ie_effect_hash e = it_effect_hash r"
proof -
  from assms have "row_wf db r" by (simp add: task_wf_def)
  with assms(3) that show ?thesis by (auto simp: row_wf_def)
qed

lemma task_wf_active_canonical:
  "task_wf db \<Longrightarrow> r \<in> set (t_inbox db) \<Longrightarrow> it_state r \<notin> PRE_EXECUTION_TERMINAL \<Longrightarrow>
   it_canonical r = None"
  by (cases "it_canonical r") (auto simp: task_wf_def row_wf_def)

definition new_attempt :: "stamp \<Rightarrow> uuid \<Rightarrow> uuid \<Rightarrow> task_attempt" where
  "new_attempt now attempt_id t =
     \<lparr>ta_attempt_id = attempt_id, ta_task_id = t, ta_claimed_at = now, ta_invoked_at = None,
      ta_finished_at = None, ta_cleanup_requested_at = None, ta_cleanup_completed_at = None,
      ta_cleanup_attempts = 0, ta_last_cleanup_error = None\<rparr>"

definition claimed_store :: "stamp \<Rightarrow> uuid \<Rightarrow> uuid \<Rightarrow> uuid \<Rightarrow> store \<Rightarrow> store" where
  "claimed_store now attempt_id t k db =
     db\<lparr>t_inbox := upd_where (\<lambda>r. it_task_id r = t \<and> it_state r = Queued)
          (\<lambda>r. r\<lparr>it_state := Preparing, it_updated_at := now\<rparr>) (t_inbox db),
        t_effects := upd_where (\<lambda>e. ie_key e = k \<and> ie_claimed_at e = None)
          (\<lambda>e. e\<lparr>ie_claimed_at := Some now, ie_updated_at := now\<rparr>) (t_effects db),
        t_attempts := t_attempts db @ [new_attempt now attempt_id t]\<rparr>"

lemma claim_task_result:
  assumes "claim_task now aid t db = (Inr (Some x), db')"
  obtains row where "find (\<lambda>r. it_task_id r = t) (t_inbox db) = Some row" "it_state row = Queued"
    "row_count (\<lambda>e. ie_key e = it_key row \<and> ie_claimed_at e = None) (t_effects db) = 1"
    "t \<notin> ta_task_id ` set (t_attempts db)" "x = aid" "db' = claimed_store now aid t (it_key row) db"
  using assms
  by (auto simp: claim_task_def Let_def set_task_state_def insert_attempt_def claimed_store_def
      new_attempt_def split: option.splits if_splits)

lemma claim_task_cases:
  assumes "claim_task now aid t db = (res, db')"
  obtains (refused) "res = Inr None" "db' = db" | (clash) "res = Inl Integrity_Error" "db' = db"
    | (claimed) "res = Inr (Some aid)"
  using assms by (auto simp: claim_task_def Let_def split: option.splits if_splits)

lemma claimed_store_wf:
  assumes wf: "task_wf db" and row: "find (\<lambda>r. it_task_id r = t) (t_inbox db) = Some row"
    and q: "it_state row = Queued" and free: "t \<notin> ta_task_id ` set (t_attempts db)"
  shows "task_wf (claimed_store now aid t (it_key row) db)"
proof -
  let ?db = "claimed_store now aid t (it_key row) db"
  let ?f = "\<lambda>r. if it_task_id r = t \<and> it_state r = Queued then r\<lparr>it_state := Preparing, it_updated_at := now\<rparr> else r"
  let ?g = "\<lambda>e. if ie_key e = it_key row \<and> ie_claimed_at e = None
    then e\<lparr>ie_claimed_at := Some now, ie_updated_at := now\<rparr> else e"
  have rin: "row \<in> set (t_inbox db)" and rid: "it_task_id row = t" using row by (auto dest: find_SomeD)
  have can: "it_canonical row = None"
    using task_wf_active_canonical [OF wf rin] q by (simp add: PRE_EXECUTION_TERMINAL_def)
  obtain e0 where e0: "e0 \<in> set (t_effects db)" "ie_key e0 = it_key row" "ie_canonical e0 = t"
    using task_wf_canonical_effect [OF wf rin can] rid by metis
  have keyD: "e = e0" if "e \<in> set (t_effects db)" "ie_key e = it_key row" for e
    using distinct_key_inj [OF task_wf_keys(2) [OF wf] that(1) e0(1)] that(2) e0(2) by simp
  have canD: "e = e0" if "e \<in> set (t_effects db)" "ie_canonical e = t" for e
    using distinct_key_inj [OF task_wf_keys(3) [OF wf] that(1) e0(1)] that(2) e0(3) by simp
  have unclaimed: "ie_claimed_at e0 = None"
    using wf e0 free by (auto simp: task_wf_def effect_wf_def)
  have inbox: "t_inbox ?db = map ?f (t_inbox db)" by (simp add: claimed_store_def upd_where_def)
  have effects: "t_effects ?db = map ?g (t_effects db)" by (simp add: claimed_store_def upd_where_def)
  have mid: "task_wf (db\<lparr>t_inbox := t_inbox ?db\<rparr>)"
    unfolding claimed_store_def
    using task_wf_inbox_upd [OF wf, of "\<lambda>r. it_task_id r = t \<and> it_state r = Queued"
        "\<lambda>r. r\<lparr>it_state := Preparing, it_updated_at := now\<rparr>"]
    by (simp add: row_advances_def)
  have att: "ta_task_id ` set (t_attempts ?db) = insert t (ta_task_id ` set (t_attempts db))"
    by (auto simp: claimed_store_def new_attempt_def)
  have keys: "keys_wf ?db"
    using mid free unfolding task_wf_def keys_wf_def
    by (simp add: claimed_store_def new_attempt_def)
  have rows: "row_wf ?db r" if "r \<in> set (t_inbox ?db)" for r
  proof -
    have "row_wf (db\<lparr>t_inbox := t_inbox ?db\<rparr>) r" using mid that by (simp add: task_wf_def)
    then have old: "row_wf db r" by (simp add: row_wf_def)
    show ?thesis
    proof (cases "it_canonical r")
      case None
      with old obtain e where e: "e \<in> set (t_effects db)" and "ie_key e = it_key r"
        "ie_canonical e = it_task_id r" "ie_effect_hash e = it_effect_hash r" by (auto simp: row_wf_def)
      moreover have "?g e \<in> set (t_effects ?db)" unfolding effects set_map using e by (rule imageI)
      ultimately show ?thesis using old None unfolding row_wf_def by (auto intro!: bexI [of _ "?g e"])
    next
      case (Some c)
      with old show ?thesis by (simp add: row_wf_def)
    qed
  qed
  have effs: "effect_wf ?db e'" if "e' \<in> set (t_effects ?db)" for e'
  proof -
    from that obtain e where e: "e \<in> set (t_effects db)" and e': "e' = ?g e"
      unfolding effects by auto
    have old: "effect_wf (db\<lparr>t_inbox := t_inbox ?db\<rparr>) e" using mid e by (simp add: task_wf_def)
    have same: "ie_canonical e' = ie_canonical e" by (simp add: e')
    show ?thesis
    proof (cases "e = e0")
      case True
      with old e' e0 unclaimed show ?thesis by (simp add: effect_wf_def att)
    next
      case False
      then have "e' = e" "ie_canonical e \<noteq> t" using keyD canD e e' by auto
      with old show ?thesis by (simp add: effect_wf_def att)
    qed
  qed
  have atts: "attempt_wf ?db a" if "a \<in> set (t_attempts ?db)" for a
  proof (cases "a \<in> set (t_attempts db)")
    case True
    with mid show ?thesis by (simp add: task_wf_def attempt_wf_def)
  next
    case False
    with that have "ta_task_id a = t" by (simp add: claimed_store_def new_attempt_def)
    moreover have "?f row \<in> set (t_inbox ?db)" unfolding inbox set_map using rin by (rule imageI)
    ultimately show ?thesis using rid can q unfolding attempt_wf_def by (intro bexI [of _ "?f row"]) simp_all
  qed
  have "\<forall>x \<in> set (t_results ?db). result_wf ?db x"
    using mid by (simp add: task_wf_def result_wf_def) (simp add: claimed_store_def)
  with keys rows effs atts show ?thesis unfolding task_wf_def by blast
qed

lemma claim_task_wf: "task_wf db \<Longrightarrow> task_wf (snd (claim_task now aid t db))"
proof (cases "claim_task now aid t db")
  case (Pair res db')
  assume wf: "task_wf db"
  from Pair show ?thesis
  proof (cases rule: claim_task_cases)
    case claimed
    with Pair have "claim_task now aid t db = (Inr (Some aid), db')" by simp
    then obtain row where "find (\<lambda>r. it_task_id r = t) (t_inbox db) = Some row" "it_state row = Queued"
      "t \<notin> ta_task_id ` set (t_attempts db)" "db' = claimed_store now aid t (it_key row) db"
      by (rule claim_task_result)
    with claimed_store_wf [OF wf] Pair show ?thesis by simp
  qed (use Pair wf in simp_all)
qed

section \<open>Results, ingestion and recovery\<close>

lemma cas_count_pos:
  assumes "task_wf db" and "cas_count t a db = 1"
  obtains row where "find (\<lambda>r. it_task_id r = t) (t_inbox db) = Some row" "it_state row = a"
    "row \<in> set (t_inbox db)" "it_task_id row = t"
proof -
  have "(case find (\<lambda>r. it_task_id r = t) (t_inbox db) of None \<Rightarrow> 0
         | Some r \<Rightarrow> if it_state r = a then 1 else 0) = (1::nat)"
    using assms(2) row_count_key [OF task_wf_keys(1) [OF assms(1)], of t "\<lambda>r. it_state r = a"]
    unfolding cas_count_def by simp
  then obtain row where row: "find (\<lambda>r. it_task_id r = t) (t_inbox db) = Some row" "it_state row = a"
    by (simp split: option.splits if_splits)
  with that find_SomeD [OF row(1)] show ?thesis by blast
qed

definition new_result :: "codec \<Rightarrow> stamp \<Rightarrow> uuid \<Rightarrow> uuid \<Rightarrow> uuid \<Rightarrow> json \<Rightarrow> result_row" where
  "new_result c now result_key t result_id payload =
     \<lparr>ob_id = result_id, ob_task_id = t, ob_payload = canonical_json payload,
      ob_payload_hash = digest (sha256_hex c) payload, ob_state = Pending,
      ob_attempts = 0, ob_next_attempt_at = now, ob_confirmed_at = None,
      ob_last_error = None, rr_key = result_key\<rparr>"

definition finished_store ::
  "codec \<Rightarrow> stamp \<Rightarrow> uuid \<Rightarrow> uuid \<Rightarrow> uuid \<Rightarrow> uuid \<Rightarrow> task_state \<Rightarrow> task_state \<Rightarrow> json \<Rightarrow> store \<Rightarrow> store" where
  "finished_store c now rk t k result_id current target payload db =
     db\<lparr>t_inbox := upd_where (\<lambda>r. it_task_id r = t \<and> it_state r = current)
          (\<lambda>r. r\<lparr>it_state := target, it_updated_at := now\<rparr>) (t_inbox db),
        t_results := t_results db @ [new_result c now rk t result_id payload],
        t_effects := upd_where (\<lambda>e. ie_key e = k)
          (\<lambda>e. e\<lparr>ie_terminal_state := Some (state_value target), ie_result_id := Some result_id,
                  ie_updated_at := now\<rparr>) (t_effects db),
        t_attempts := upd_where (\<lambda>a. ta_task_id a = t) (\<lambda>a. a\<lparr>ta_finished_at := Some now\<rparr>) (t_attempts db)\<rparr>"

lemma find_task_upd [simp]:
  "(\<And>r. it_task_id (f r) = it_task_id r) \<Longrightarrow>
   find (\<lambda>r. it_task_id r = t) (upd_where P f rows)
     = map_option (\<lambda>r. if P r then f r else r) (find (\<lambda>r. it_task_id r = t) rows)"
  by (rule find_key_upd_where)

lemma finish_with_result_ok:
  assumes wf: "task_wf db" and ok: "finish_with_result c now rk t current target payload db = (Inr u, db')"
  obtains row result_id where "find (\<lambda>r. it_task_id r = t) (t_inbox db) = Some row" "it_state row = current"
    "allowed_transition current target" "payload_text payload ''result_id'' = Some result_id"
    "t \<notin> ob_task_id ` set (t_results db)"
    "db' = finished_store c now rk t (it_key row) result_id current target payload db"
proof -
  from ok obtain result_id where pre: "allowed_transition current target"
    "payload_text payload ''result_id'' = Some result_id" "cas_count t current db = 1"
    by (auto simp: finish_with_result_def split: sum.splits option.splits if_splits)
  obtain row where row: "find (\<lambda>r. it_task_id r = t) (t_inbox db) = Some row" "it_state row = current"
    by (rule cas_count_pos [OF wf pre(3)])
  have "it_task_id row = t" using row(1) by (auto dest: find_SomeD)
  with ok pre row have "t \<notin> ob_task_id ` set (t_results db)"
    "db' = finished_store c now rk t (it_key row) result_id current target payload db"
    by (auto simp: finish_with_result_def set_task_state_def insert_result_def finished_store_def
        new_result_def Let_def split: sum.splits if_splits)
  with that row pre show ?thesis by blast
qed

lemma finish_with_result_error:
  "finish_with_result c now rk t current target payload db = (Inl e, db') \<Longrightarrow> db' = db"
  by (auto simp: finish_with_result_def Let_def split: sum.splits option.splits if_splits)

lemma finished_store_wf:
  assumes wf: "task_wf db" and row: "find (\<lambda>r. it_task_id r = t) (t_inbox db) = Some row"
    and st: "it_state row = current" and allowed: "allowed_transition current target"
    and fin: "target \<in> TERMINAL_STATES" and new: "t \<notin> ob_task_id ` set (t_results db)"
  shows "task_wf (finished_store c now rk t k result_id current target payload db)"
proof -
  let ?db1 = "set_task_state now t current target db"
  let ?x = "new_result c now rk t result_id payload"
  let ?db2 = "?db1\<lparr>t_results := t_results db @ [?x]\<rparr>"
  have wf1: "task_wf ?db1" using wf allowed by (rule set_task_state_wf)
  have "row \<in> set (t_inbox db)" "it_task_id row = t" using row by (auto dest: find_SomeD)
  then have "row\<lparr>it_state := target, it_updated_at := now\<rparr> \<in> set (t_inbox ?db1)"
    using st by (force simp: set_task_state_def upd_where_def)
  moreover have "it_canonical row = None"
    using task_wf_active_canonical [OF wf \<open>row \<in> set (t_inbox db)\<close>] st terminal_no_transition allowed
    by (auto simp: TERMINAL_STATES_def)
  ultimately have "result_wf ?db2 ?x" using \<open>it_task_id row = t\<close> fin
    unfolding result_wf_def new_result_def
    by (intro bexI [of _ "row\<lparr>it_state := target, it_updated_at := now\<rparr>"]) simp_all
  moreover have "distinct (map ob_task_id (t_results ?db2))"
    using wf new by (simp add: task_wf_def keys_wf_def new_result_def)
  ultimately have wf2: "task_wf ?db2"
    using wf1 by (simp add: task_wf_defs set_task_state_def)
  show ?thesis
    by (rule task_wf_map [OF wf2, where f = id
          and g = "\<lambda>e. if ie_key e = k then e\<lparr>ie_terminal_state := Some (state_value target),
                 ie_result_id := Some result_id, ie_updated_at := now\<rparr> else e"
          and h = "\<lambda>a. if ta_task_id a = t then a\<lparr>ta_finished_at := Some now\<rparr> else a"])
      (simp_all add: finished_store_def upd_where_def set_task_state_def effect_kept_def)
qed

lemma finish_with_result_wf:
  assumes wf: "task_wf db" and fin: "target \<in> TERMINAL_STATES"
  shows "task_wf (snd (finish_with_result c now rk t current target payload db))"
proof (cases "finish_with_result c now rk t current target payload db")
  case (Pair res db')
  show ?thesis
  proof (cases res)
    case (Inl e)
    with Pair have "db' = db" by (auto dest: finish_with_result_error)
    with Pair wf show ?thesis by simp
  next
    case (Inr u)
    with Pair have "finish_with_result c now rk t current target payload db = (Inr u, db')" by simp
    with wf obtain row result_id where "find (\<lambda>r. it_task_id r = t) (t_inbox db) = Some row"
      "it_state row = current" "allowed_transition current target" "t \<notin> ob_task_id ` set (t_results db)"
      "db' = finished_store c now rk t (it_key row) result_id current target payload db"
      by (rule finish_with_result_ok)
    with finished_store_wf [OF wf _ _ _ fin] Pair show ?thesis by simp
  qed
qed

lemma recover_set_wf:
  "task_wf db \<Longrightarrow> (\<And>r. r \<in> set (t_inbox db) \<Longrightarrow> it_task_id r \<in> set ts \<Longrightarrow> it_state r \<in> INTERRUPTIBLE \<union> {Interrupted}) \<Longrightarrow>
   task_wf (interrupt_tasks now ts db)"
proof (induction ts arbitrary: db)
  case Nil
  then show ?case by simp
next
  case (Cons t ts)
  let ?f = "\<lambda>r. if it_task_id r = t then r\<lparr>it_state := Interrupted, it_reason := Some (blocked_reason ''process_restart''),
                     it_updated_at := now\<rparr> else r"
  let ?h = "\<lambda>a. if ta_task_id a = t then a\<lparr>ta_cleanup_requested_at := coalesce (ta_cleanup_requested_at a) (Some now),
                     ta_finished_at := coalesce (ta_finished_at a) (Some now)\<rparr> else a"
  let ?db = "db\<lparr>t_inbox := map ?f (t_inbox db), t_attempts := map ?h (t_attempts db)\<rparr>"
  have "task_wf ?db"
  proof (rule task_wf_map [OF Cons.prems(1), where f = ?f and g = id and h = ?h])
    show "row_advances r (?f r)" if "r \<in> set (t_inbox db)" for r
      using Cons.prems(2) [OF that] by (auto simp: row_advances_def INTERRUPTIBLE_def)
  qed auto
  moreover have "it_state r \<in> INTERRUPTIBLE \<union> {Interrupted}"
    if "r \<in> set (t_inbox ?db)" "it_task_id r \<in> set ts" for r
    using that Cons.prems(2) by (fastforce split: if_splits)
  ultimately have "task_wf (interrupt_tasks now ts ?db)" by (rule Cons.IH)
  then show ?case by (simp add: upd_where_def)
qed

lemma recover_interrupted_wf: "task_wf db \<Longrightarrow> task_wf (snd (recover_interrupted now db))"
  unfolding recover_interrupted_def Let_def snd_conv
  by (rule recover_set_wf) (auto dest: distinct_key_inj [OF task_wf_keys(1)])

lemma task_wf_no_effect:
  assumes wf: "task_wf db" and "r \<in> set (t_inbox db)"
    and "find (\<lambda>e. ie_key e = it_key r) (t_effects db) = None"
  shows "it_canonical r \<noteq> None"
  using task_wf_canonical_effect [OF wf assms(2)] assms(3) by (auto simp: find_None_iff)

lemma task_wf_add_duplicate:
  assumes wf: "task_wf db" and "it_task_id r \<notin> it_task_id ` set (t_inbox db)"
    and "it_canonical r \<noteq> None" and "it_state r \<in> PRE_EXECUTION_TERMINAL"
  shows "task_wf (db\<lparr>t_inbox := t_inbox db @ [r]\<rparr>)"
  using assms by (auto simp: task_wf_defs PRE_EXECUTION_TERMINAL_def)

lemma task_wf_add_canonical:
  assumes wf: "task_wf db" and "it_task_id r \<notin> it_task_id ` set (t_inbox db)"
    and "ie_key e \<notin> ie_key ` set (t_effects db)"
    and "it_canonical r = None" and "it_state r = Queued" and "ie_key e = it_key r"
    and "ie_canonical e = it_task_id r" and "ie_effect_hash e = it_effect_hash r"
    and "ie_claimed_at e = None"
  shows "task_wf (db\<lparr>t_inbox := t_inbox db @ [r], t_effects := t_effects db @ [e]\<rparr>)"
proof -
  let ?db = "db\<lparr>t_inbox := t_inbox db @ [r], t_effects := t_effects db @ [e]\<rparr>"
  have can: "ie_canonical e \<notin> ie_canonical ` set (t_effects db)"
    and att: "it_task_id r \<notin> ta_task_id ` set (t_attempts db)"
    using wf assms(2,7) by (auto simp: task_wf_def effect_wf_def attempt_wf_def) (metis image_eqI)+
  have "keys_wf ?db" using wf assms(2,3) can by (auto simp: task_wf_def keys_wf_def)
  moreover have "\<forall>s \<in> set (t_inbox ?db). row_wf ?db s"
    using wf assms(4-8) by (auto simp: task_wf_def row_wf_def)
  moreover have "\<forall>f \<in> set (t_effects ?db). effect_wf ?db f"
    using wf assms(4,7,9) att by (auto simp: task_wf_def effect_wf_def)
  moreover have "\<forall>a \<in> set (t_attempts ?db). attempt_wf ?db a" "\<forall>x \<in> set (t_results ?db). result_wf ?db x"
    using wf by (auto simp: task_wf_def attempt_wf_def result_wf_def)
  ultimately show ?thesis unfolding task_wf_def by blast
qed

text \<open>What ingestion does to a well-formed database, branch by branch.\<close>

definition queued_row :: "codec \<Rightarrow> stamp \<Rightarrow> local_task \<Rightarrow> inbox_task" where
  "queued_row c now task = inbox_row c now task None Queued None"

definition duplicate_row :: "codec \<Rightarrow> stamp \<Rightarrow> local_task \<Rightarrow> idempotency_effect \<Rightarrow> inbox_task" where
  "duplicate_row c now task e =
     (if ie_effect_hash e = digest (sha256_hex c) (logical_effect task)
      then inbox_row c now task (Some (ie_canonical e)) Duplicate
             (Some (blocked_reason ''idempotency_duplicate''))
      else inbox_row c now task (Some (ie_canonical e)) Blocked
             (Some (blocked_reason ''idempotency_conflict'')))"

lemma ingest_known_task:
  assumes "find (\<lambda>r. it_task_id r = lt_task_id task) (t_inbox db) = Some row"
  shows "ingest_task c now qid task db =
    (if it_payload_hash row = digest (sha256_hex c) (envelope_json c task) then (Inr ''duplicate'', db)
     else (Inl (Duplicate_Conflict_Error ''task_id was reused with a different payload''),
           quarantine_in_transaction c now qid ''inbox_tasks'' (lt_task_id task)
             ''task_id_payload_conflict'' (Some (canonical_json (envelope_json c task))) db))"
  using assms by (simp add: ingest_task_def Let_def)

lemma ingest_known_effect:
  assumes wf: "task_wf db" and new: "find (\<lambda>r. it_task_id r = lt_task_id task) (t_inbox db) = None"
    and eff: "find (\<lambda>e. ie_key e = lt_idempotency_key task) (t_effects db) = Some e"
  shows "ingest_task c now qid task db =
    (Inr (state_value (it_state (duplicate_row c now task e))),
     db\<lparr>t_inbox := t_inbox db @ [duplicate_row c now task e]\<rparr>)"
proof -
  have "e \<in> set (t_effects db)" using eff by (auto dest: find_SomeD)
  then have "task_exists db (ie_canonical e)"
    using wf unfolding task_wf_def effect_wf_def task_exists_def by (metis image_eqI)
  moreover have "\<not> task_exists db (lt_task_id task)" using new by (simp add: task_exists_iff)
  ultimately show ?thesis
    using new eff by (simp add: ingest_task_def Let_def insert_inbox_def duplicate_row_def inbox_row_def)
qed

lemma ingest_new:
  assumes wf: "task_wf db" and new: "find (\<lambda>r. it_task_id r = lt_task_id task) (t_inbox db) = None"
    and eff: "find (\<lambda>e. ie_key e = lt_idempotency_key task) (t_effects db) = None"
  shows "ingest_task c now qid task db =
    (Inr ''queued'', db\<lparr>t_inbox := t_inbox db @ [queued_row c now task],
                        t_effects := t_effects db @ [effect_row c now task]\<rparr>)"
proof -
  have fresh: "lt_task_id task \<notin> it_task_id ` set (t_inbox db)" using new by (simp add: find_key_None)
  then have "lt_task_id task \<notin> ie_canonical ` set (t_effects db)"
    using wf by (auto simp: task_wf_def effect_wf_def) (metis image_eqI)
  moreover have "upd_where (\<lambda>r. it_task_id r = lt_task_id task \<and> it_state r = Received)
      (\<lambda>r. r\<lparr>it_state := Queued, it_updated_at := now\<rparr>) (t_inbox db) = t_inbox db"
    using fresh by (intro upd_where_none) (auto, metis image_eqI)
  moreover have "lt_idempotency_key task \<notin> ie_key ` set (t_effects db)"
    using eff by (simp add: find_key_None)
  ultimately show ?thesis
    using new eff fresh
    by (simp add: ingest_task_def Let_def insert_inbox_def insert_effect_def inbox_row_def
        effect_row_def queued_row_def task_exists_def)
qed

lemma ingest_task_wf:
  assumes wf: "task_wf db"
  shows "task_wf (snd (ingest_task c now qid task db))"
proof (cases "find (\<lambda>r. it_task_id r = lt_task_id task) (t_inbox db)")
  case (Some row)
  with wf show ?thesis by (simp add: ingest_known_task quarantine_wf)
next
  case None
  then have new: "lt_task_id task \<notin> it_task_id ` set (t_inbox db)" by (simp add: find_key_None)
  show ?thesis
  proof (cases "find (\<lambda>e. ie_key e = lt_idempotency_key task) (t_effects db)")
    case (Some e)
    have "task_wf (db\<lparr>t_inbox := t_inbox db @ [duplicate_row c now task e]\<rparr>)"
      by (rule task_wf_add_duplicate [OF wf])
        (use new in \<open>simp_all add: duplicate_row_def inbox_row_def PRE_EXECUTION_TERMINAL_def\<close>)
    with ingest_known_effect [OF wf None Some] show ?thesis by simp
  next
    case eff: None
    have "task_wf (db\<lparr>t_inbox := t_inbox db @ [queued_row c now task],
                      t_effects := t_effects db @ [effect_row c now task]\<rparr>)"
      by (rule task_wf_add_canonical [OF wf])
        (use new eff in \<open>simp_all add: queued_row_def inbox_row_def effect_row_def find_key_None\<close>)
    with ingest_new [OF wf None eff] show ?thesis by simp
  qed
qed

end
