(* ===== verification/Path_Names.thy ===== *)
theory Path_Names
  imports Agent_Prelude
begin

text \<open>
  Names of files: the parts of a POSIX path (\<open>pathlib\<close>) and the hexadecimal tokens in them.
\<close>

section \<open>Hexadecimal texts\<close>

definition lower_hex :: "char \<Rightarrow> bool" where
  "lower_hex c \<longleftrightarrow> (48 \<le> (of_char c :: nat) \<and> (of_char c :: nat) \<le> 57)
     \<or> (97 \<le> (of_char c :: nat) \<and> (of_char c :: nat) \<le> 102)"

definition hex_text :: "nat \<Rightarrow> string \<Rightarrow> bool" where
  "hex_text n s \<longleftrightarrow> length s = n \<and> list_all lower_hex s"

section \<open>Parts of a path\<close>

fun path_split :: "string \<Rightarrow> string \<Rightarrow> string list" where
  "path_split acc [] = [rev acc]"
| "path_split acc (c # s) = (if c = CHR ''/'' then rev acc # path_split [] s else path_split (c # acc) s)"

definition path_parts :: "string \<Rightarrow> string list" where
  "path_parts s = filter (\<lambda>p. p \<noteq> [] \<and> p \<noteq> ''.'') (path_split [] s)"

fun posix_join :: "string list \<Rightarrow> string" where
  "posix_join [] = []"
| "posix_join [p] = p"
| "posix_join (p # q # ps) = p @ CHR ''/'' # posix_join (q # ps)"

definition is_absolute :: "string \<Rightarrow> bool" where
  "is_absolute s \<longleftrightarrow> s \<noteq> [] \<and> hd s = CHR ''/''"

text \<open>\<open>Path(s).as_posix()\<close> of a relative path.\<close>

definition as_posix :: "string \<Rightarrow> string" where
  "as_posix s = (if path_parts s = [] then ''.'' else posix_join (path_parts s))"

end
