(* ===== verification/Json_Members.thy ===== *)
theory Json_Members
  imports Canonical_Json
begin

text \<open>
  Members of a loaded document as the code reads them: \<open>payload.get(k)\<close>, and a member that a check or a
  contract made an integer or a text.
\<close>

definition field :: "json \<Rightarrow> string \<Rightarrow> json" where
  "field payload k = (case json_get payload k of None \<Rightarrow> JNull | Some v \<Rightarrow> v)"

fun integer_of :: "json \<Rightarrow> int" where
  "integer_of (JInt i) = i"
| "integer_of _ = 0"

text \<open>\<open>str(...)\<close> of a member that is a text.\<close>

definition text_member :: "json \<Rightarrow> string \<Rightarrow> string" where
  "text_member payload k = (case json_get payload k of Some (JStr s) \<Rightarrow> s | _ \<Rightarrow> [])"

end
