(* ===== verification/Upload_Store.thy ===== *)
theory Upload_Store
  imports Task_Store Path_Names Json_Members
begin

text \<open>
  The uploads table of the agent (\<open>pending_uploads\<close>: the artifact operations of \<open>SQLiteStore\<close> and
  \<open>domain/artifact_paths.py\<close>): one row per artifact, queued once, listed, and
  renamed or removed after the upload is confirmed.
\<close>

section \<open>Paths\<close>

definition QUARANTINE_PREFIX :: string where
  "QUARANTINE_PREFIX = ''outbox/.artifact-prune-quarantine-''"

definition is_artifact_prune_quarantine_path :: "string \<Rightarrow> bool" where
  "is_artifact_prune_quarantine_path v \<longleftrightarrow>
     take (length QUARANTINE_PREFIX) v = QUARANTINE_PREFIX \<and> hex_text 64 (drop (length QUARANTINE_PREFIX) v)"

definition is_safe_outbox_relative :: "string \<Rightarrow> bool" where
  "is_safe_outbox_relative v \<longleftrightarrow> CHR 0x00 \<notin> set v \<and> \<not> is_absolute v \<and> length (path_parts v) = 2
     \<and> path_parts v ! 0 = ''outbox'' \<and> path_parts v ! 1 \<noteq> ''..'' \<and> as_posix v = v"

section \<open>Queueing\<close>

definition find_upload :: "store \<Rightarrow> string \<Rightarrow> upload_row option" where
  "find_upload db artifact = find (\<lambda>r. up_artifact_id r = artifact) (t_uploads db)"

fun contains_dots :: "string \<Rightarrow> bool" where
  "contains_dots (c # d # s) \<longleftrightarrow> (c = CHR ''.'' \<and> d = CHR ''.'') \<or> contains_dots (d # s)"
| "contains_dots _ \<longleftrightarrow> False"

text \<open>The constraints of the table: its keys, the checks of the path, the size and the digests, and the
  task the row belongs to.\<close>

definition insert_upload :: "upload_row \<Rightarrow> store \<Rightarrow> store option" where
  "insert_upload r db =
     (if ob_id r \<in> ob_id ` set (t_uploads db) \<or> up_artifact_id r \<in> up_artifact_id ` set (t_uploads db)
         \<or> is_absolute (up_relative_path r) \<or> contains_dots (up_relative_path r) \<or> up_size_bytes r < 0
         \<or> length (up_sha256 r) \<noteq> 64 \<or> length (ob_payload_hash r) \<noteq> 64 \<or> \<not> task_exists db (ob_task_id r)
      then None
      else Some (db\<lparr>t_uploads := t_uploads db @ [r]\<rparr>))"

text \<open>The contract makes the size an integer and the other members texts.\<close>

definition ensure_artifact_queued ::
  "(string \<Rightarrow> string) \<Rightarrow> stamp \<Rightarrow> uuid \<Rightarrow> uuid \<Rightarrow> string \<Rightarrow> string \<Rightarrow> json \<Rightarrow> store \<Rightarrow> (bool, store) outcome" where
  "ensure_artifact_queued sha now upload_id task relative media payload db =
     (if is_absolute relative \<or> path_parts relative = [] \<or> ''..'' \<in> set (path_parts relative)
      then (Inl (Value_Error ''artifact path must be a safe relative path''), db)
      else case find_upload db (text_member payload ''artifact_id'') of
        Some existing \<Rightarrow>
          if (ob_task_id existing, up_relative_path existing, up_media_type existing, up_size_bytes existing,
              up_sha256 existing, ob_payload existing)
             \<noteq> (task, as_posix relative, media, integer_of (field payload ''size_bytes''),
                text_member payload ''sha256'', canonical_json payload)
          then (Inl (Runtime_Error ''artifact idempotency conflict''), db)
          else (Inr False, db)
      | None \<Rightarrow>
          (case insert_upload
                  \<lparr>ob_id = upload_id, ob_task_id = task, ob_payload = canonical_json payload,
                   ob_payload_hash = digest sha payload, ob_state = Pending, ob_attempts = 0,
                   ob_next_attempt_at = now, ob_confirmed_at = None, ob_last_error = None,
                   up_artifact_id = text_member payload ''artifact_id'', up_relative_path = as_posix relative,
                   up_media_type = media, up_size_bytes = integer_of (field payload ''size_bytes''),
                   up_sha256 = text_member payload ''sha256''\<rparr> db of
             None \<Rightarrow> (Inl Integrity_Error, db)
           | Some db' \<Rightarrow> (Inr True, db')))"

definition queue_artifact ::
  "(string \<Rightarrow> string) \<Rightarrow> stamp \<Rightarrow> uuid \<Rightarrow> uuid \<Rightarrow> string \<Rightarrow> string \<Rightarrow> json \<Rightarrow> store \<Rightarrow> (unit, store) outcome" where
  "queue_artifact sha now upload_id task relative media payload db =
     map_prod (map_sum id (\<lambda>_. ())) id (ensure_artifact_queued sha now upload_id task relative media payload db)"

definition artifact_upload :: "string \<Rightarrow> store \<Rightarrow> upload_row option" where
  "artifact_upload artifact db = find_upload db artifact"

section \<open>Listing\<close>

definition artifact_uploads :: "outbox_state list \<Rightarrow> int \<Rightarrow> store \<Rightarrow> py_error + upload_row list" where
  "artifact_uploads states limit db =
     (if limit \<le> 0 \<or> limit > 10000
      then Inl (Value_Error ''artifact upload query limit must be between 1 and 10000'')
      else if states = [] then Inl (Value_Error ''artifact upload query states are invalid'')
      else Inr (limit_rows limit (sort_key ob_id (filter (\<lambda>r. ob_state r \<in> set states) (t_uploads db)))))"

definition artifact_upload_count :: "outbox_state list \<Rightarrow> store \<Rightarrow> py_error + nat" where
  "artifact_upload_count states db =
     (if states = [] then Inl (Value_Error ''artifact upload count states are invalid'')
      else Inr (row_count (\<lambda>r. ob_state r \<in> set states) (t_uploads db)))"

section \<open>After the confirmation\<close>

definition delete_confirmed_artifact :: "uuid \<Rightarrow> store \<Rightarrow> bool \<times> store" where
  "delete_confirmed_artifact upload_id db =
     (row_count (\<lambda>r. ob_id r = upload_id \<and> ob_state r = Confirmed) (t_uploads db) = 1,
      db\<lparr>t_uploads := filter (\<lambda>r. \<not> (ob_id r = upload_id \<and> ob_state r = Confirmed)) (t_uploads db)\<rparr>)"

definition outbox_path_ok :: "string \<Rightarrow> bool" where
  "outbox_path_ok v \<longleftrightarrow> \<not> is_absolute v \<and> length (path_parts v) = 2 \<and> path_parts v ! 0 = ''outbox''
     \<and> path_parts v ! 1 \<noteq> ''..'' \<and> as_posix v = v"

definition update_confirmed_artifact_path ::
  "uuid \<Rightarrow> string \<Rightarrow> string \<Rightarrow> store \<Rightarrow> (bool, store) outcome" where
  "update_confirmed_artifact_path upload_id expected quarantine db =
     (if \<not> outbox_path_ok expected \<or> \<not> outbox_path_ok quarantine
      then (Inl (Value_Error ''artifact quarantine path must be a safe outbox path''), db)
      else if \<not> is_artifact_prune_quarantine_path quarantine
      then (Inl (Value_Error ''artifact quarantine path has an invalid prefix''), db)
      else let hit = (\<lambda>r. ob_id r = upload_id \<and> ob_state r = Confirmed \<and> up_relative_path r = expected)
        in (Inr (row_count hit (t_uploads db) = 1),
            db\<lparr>t_uploads := upd_where hit (\<lambda>r. r\<lparr>up_relative_path := quarantine\<rparr>) (t_uploads db)\<rparr>))"

end
