(* ===== verification/Task_Reach.thy ===== *)
theory Task_Reach
  imports Task_Invariant Upload_Store
begin

text \<open>
  The task database as a state machine: one step per call the agent makes on the task tables, in
  any order and with any arguments (the result is stored from \<open>CLEANING_UP\<close>, the only state the
  runner stores it from); the uploads of artifacts are among them.  Everything the agent ever does to
  these tables is a path of these steps, so what is shown here holds across crashes, restarts and
  redeliveries.
\<close>

section \<open>Steps\<close>

inductive task_step :: "codec \<Rightarrow> store \<Rightarrow> store \<Rightarrow> bool" for c where
  ingest: "task_step c db (snd (ingest_task c now qid task db))"
| read_queue: "task_step c db (snd (queued_tasks c now fresh limit db))"
| claim: "task_step c db (snd (claim_task now aid t db))"
| move: "task_step c db (snd (transition now t a b db))"
| invoke: "task_step c db (snd (mark_invoked now t db))"
| request_clean: "task_step c db (request_cleanup now t db)"
| complete_clean: "task_step c db (complete_cleanup now t error db)"
| progress: "task_step c db (snd (queue_progress c now t ev n payload db))"
| finish: "target \<in> EXECUTION_TERMINAL \<Longrightarrow>
    task_step c db (snd (finish_with_result c now rk t Cleaning_Up target payload db))"
| confirm: "task_step c db (snd (confirm_outbox now table key_name k db))"
| recover: "task_step c db (snd (recover_interrupted now db))"
| queue_upload: "task_step c db (snd (ensure_artifact_queued (sha256_hex c) now u t relative media payload db))"
| delete_upload: "task_step c db (snd (delete_confirmed_artifact u db))"
| rename_upload: "task_step c db (snd (update_confirmed_artifact_path u expected quarantine db))"

inductive_cases task_stepE: "task_step c db db'"

definition task_reachable :: "codec \<Rightarrow> store \<Rightarrow> bool" where
  "task_reachable c db \<longleftrightarrow> (task_step c)\<^sup>*\<^sup>* empty_store db"

text \<open>The operations on the uploads write no other table.\<close>

lemma upload_tables [simp]:
  "t_inbox (snd (ensure_artifact_queued sha now u t relative media payload db)) = t_inbox db"
  "t_effects (snd (ensure_artifact_queued sha now u t relative media payload db)) = t_effects db"
  "t_attempts (snd (ensure_artifact_queued sha now u t relative media payload db)) = t_attempts db"
  "t_results (snd (ensure_artifact_queued sha now u t relative media payload db)) = t_results db"
  "t_progress (snd (ensure_artifact_queued sha now u t relative media payload db)) = t_progress db"
  "t_inbox (snd (delete_confirmed_artifact u db)) = t_inbox db"
  "t_effects (snd (delete_confirmed_artifact u db)) = t_effects db"
  "t_attempts (snd (delete_confirmed_artifact u db)) = t_attempts db"
  "t_results (snd (delete_confirmed_artifact u db)) = t_results db"
  "t_progress (snd (delete_confirmed_artifact u db)) = t_progress db"
  "t_inbox (snd (update_confirmed_artifact_path u expected quarantine db)) = t_inbox db"
  "t_effects (snd (update_confirmed_artifact_path u expected quarantine db)) = t_effects db"
  "t_attempts (snd (update_confirmed_artifact_path u expected quarantine db)) = t_attempts db"
  "t_results (snd (update_confirmed_artifact_path u expected quarantine db)) = t_results db"
  "t_progress (snd (update_confirmed_artifact_path u expected quarantine db)) = t_progress db"
  by (auto simp: ensure_artifact_queued_def insert_upload_def delete_confirmed_artifact_def
      update_confirmed_artifact_path_def Let_def split: option.split)

lemma upload_wf:
  "task_wf (snd (ensure_artifact_queued sha now u t relative media payload db)) = task_wf db"
  "task_wf (snd (delete_confirmed_artifact u db)) = task_wf db"
  "task_wf (snd (update_confirmed_artifact_path u expected quarantine db)) = task_wf db"
  by (simp_all add: task_wf_defs)

lemma task_step_wf: "task_step c db db' \<Longrightarrow> task_wf db \<Longrightarrow> task_wf db'"
  by (induction rule: task_step.induct)
    (simp_all add: ingest_task_wf queued_tasks_wf claim_task_wf transition_wf mark_invoked_wf
      request_cleanup_wf complete_cleanup_wf queue_progress_wf finish_with_result_wf
      confirm_outbox_wf recover_interrupted_wf TERMINAL_STATES_def upload_wf)

lemma task_steps_wf: "(task_step c)\<^sup>*\<^sup>* db db' \<Longrightarrow> task_wf db \<Longrightarrow> task_wf db'"
  by (induction rule: rtranclp_induct) (auto intro: task_step_wf)

lemma task_reachable_wf: "task_reachable c db \<Longrightarrow> task_wf db"
  unfolding task_reachable_def using task_steps_wf task_wf_empty by blast

section \<open>Nothing is lost and no task moves backwards\<close>

definition effect_persists :: "idempotency_effect \<Rightarrow> idempotency_effect \<Rightarrow> bool" where
  "effect_persists e f \<longleftrightarrow>
     ie_key f = ie_key e \<and> ie_canonical f = ie_canonical e \<and> ie_effect_hash f = ie_effect_hash e \<and>
     (ie_claimed_at e \<noteq> None \<longrightarrow> ie_claimed_at f = ie_claimed_at e)"

definition tasks_grow :: "store \<Rightarrow> store \<Rightarrow> bool" where
  "tasks_grow db db' \<longleftrightarrow>
     (\<forall>r \<in> set (t_inbox db). \<exists>s \<in> set (t_inbox db'). row_advances r s) \<and>
     (\<forall>e \<in> set (t_effects db). \<exists>f \<in> set (t_effects db'). effect_persists e f)"

lemma row_advances_trans: "row_advances r s \<Longrightarrow> row_advances s u \<Longrightarrow> row_advances r u"
  unfolding row_advances_def by auto

lemma effect_persists_refl [simp]: "effect_persists e e"
  by (simp add: effect_persists_def)

lemma effect_persists_trans: "effect_persists e f \<Longrightarrow> effect_persists f g \<Longrightarrow> effect_persists e g"
  by (auto simp: effect_persists_def)

lemma tasks_grow_refl [simp]: "tasks_grow db db"
  by (meson tasks_grow_def row_advances_refl effect_persists_refl)

lemma tasks_grow_trans: "tasks_grow db1 db2 \<Longrightarrow> tasks_grow db2 db3 \<Longrightarrow> tasks_grow db1 db3"
  unfolding tasks_grow_def by (meson row_advances_trans effect_persists_trans)

lemma tasks_grow_same:
  "t_inbox db' = t_inbox db \<Longrightarrow> t_effects db' = t_effects db \<Longrightarrow> tasks_grow db db'"
  unfolding tasks_grow_def by (metis row_advances_refl effect_persists_refl)

lemma tasks_grow_map:
  assumes "t_inbox db' = map f (t_inbox db) @ xs" and "t_effects db' = map g (t_effects db) @ ys"
    and "\<And>r. r \<in> set (t_inbox db) \<Longrightarrow> row_advances r (f r)"
    and "\<And>e. e \<in> set (t_effects db) \<Longrightarrow> effect_persists e (g e)"
  shows "tasks_grow db db'"
  unfolding tasks_grow_def assms(1,2) using assms(3,4) by auto

lemma tasks_grow_inbox_upd:
  assumes "\<And>r. r \<in> set (t_inbox db) \<Longrightarrow> P r \<Longrightarrow> row_advances r (f r)"
  shows "tasks_grow db (db\<lparr>t_inbox := upd_where P f (t_inbox db)\<rparr>)"
  by (rule tasks_grow_map [where f = "\<lambda>r. if P r then f r else r" and g = id and xs = "[]" and ys = "[]"])
    (use assms in \<open>auto simp: upd_where_def\<close>)

lemma set_task_state_grows:
  "allowed_transition a b \<Longrightarrow> tasks_grow db (set_task_state now t a b db)"
  unfolding set_task_state_def
  by (rule tasks_grow_inbox_upd) (auto simp: row_advances_def dest: allowed_transition_rank)

lemma transition_grows: "tasks_grow db (snd (transition now t a b db))"
  by (auto simp: transition_def split: sum.splits if_splits dest: set_task_state_grows)

lemma load_rows_grows: "tasks_grow db (snd (load_rows c now fresh rows db))"
proof (induction rows arbitrary: db)
  case Nil
  then show ?case by simp
next
  case (Cons row rows)
  let ?q = "quarantine_in_transaction c now (fresh (it_task_id row)) ''inbox_tasks'' (it_task_id row)
    ''corrupt_task_row'' (Some (it_payload row)) db"
  have "tasks_grow ?q (reject_corrupt c now (fresh (it_task_id row)) row db)"
    unfolding reject_corrupt_def Let_def
    by (rule tasks_grow_inbox_upd) (auto simp: row_advances_def)
  moreover have "tasks_grow db ?q" by (rule tasks_grow_same) simp_all
  ultimately have "tasks_grow db (reject_corrupt c now (fresh (it_task_id row)) row db)"
    by (rule tasks_grow_trans [rotated])
  then show ?case using Cons.IH by (auto split: option.splits intro: tasks_grow_trans)
qed

lemma claimed_store_grows: "tasks_grow db (claimed_store now aid t k db)"
  by (rule tasks_grow_map [where xs = "[]" and ys = "[]"
        and f = "\<lambda>r. if it_task_id r = t \<and> it_state r = Queued then r\<lparr>it_state := Preparing, it_updated_at := now\<rparr> else r"
        and g = "\<lambda>e. if ie_key e = k \<and> ie_claimed_at e = None
           then e\<lparr>ie_claimed_at := Some now, ie_updated_at := now\<rparr> else e"])
    (auto simp: claimed_store_def upd_where_def row_advances_def effect_persists_def)

lemma claim_task_grows: "tasks_grow db (snd (claim_task now aid t db))"
proof (cases "claim_task now aid t db")
  case (Pair res db')
  from Pair show ?thesis
  proof (cases rule: claim_task_cases)
    case claimed
    with Pair have "claim_task now aid t db = (Inr (Some aid), db')" by simp
    then obtain k where "db' = claimed_store now aid t k db" by (rule claim_task_result)
    with Pair show ?thesis by (simp add: claimed_store_grows)
  qed (use Pair in simp_all)
qed

lemma finish_grows: "task_wf db \<Longrightarrow> tasks_grow db (snd (finish_with_result c now rk t a b payload db))"
proof (cases "finish_with_result c now rk t a b payload db")
  case (Pair res db')
  assume wf: "task_wf db"
  show ?thesis
  proof (cases res)
    case (Inl e)
    with Pair have "db' = db" by (auto dest: finish_with_result_error)
    with Pair show ?thesis by simp
  next
    case (Inr u)
    with Pair have "finish_with_result c now rk t a b payload db = (Inr u, db')" by simp
    with wf obtain k rid where al: "allowed_transition a b"
      and db': "db' = finished_store c now rk t k rid a b payload db"
      by (rule finish_with_result_ok)
    have "tasks_grow db db'"
      by (rule tasks_grow_map [where xs = "[]" and ys = "[]"
            and f = "\<lambda>r. if it_task_id r = t \<and> it_state r = a then r\<lparr>it_state := b, it_updated_at := now\<rparr> else r"
            and g = "\<lambda>e. if ie_key e = k then e\<lparr>ie_terminal_state := Some (state_value b),
                 ie_result_id := Some rid, ie_updated_at := now\<rparr> else e"])
        (use allowed_transition_rank [OF al] in
          \<open>auto simp: db' finished_store_def upd_where_def row_advances_def effect_persists_def\<close>)
    with Pair show ?thesis by simp
  qed
qed

lemma ingest_grows: "task_wf db \<Longrightarrow> tasks_grow db (snd (ingest_task c now qid task db))"
proof -
  assume wf: "task_wf db"
  consider (known) row where "find (\<lambda>r. it_task_id r = lt_task_id task) (t_inbox db) = Some row"
    | (effect) e where "find (\<lambda>r. it_task_id r = lt_task_id task) (t_inbox db) = None"
        "find (\<lambda>e. ie_key e = lt_idempotency_key task) (t_effects db) = Some e"
    | (new) "find (\<lambda>r. it_task_id r = lt_task_id task) (t_inbox db) = None"
        "find (\<lambda>e. ie_key e = lt_idempotency_key task) (t_effects db) = None"
    by fastforce
  then show ?thesis
  proof cases
    case known
    then show ?thesis by (auto simp: ingest_known_task intro: tasks_grow_same)
  next
    case effect
    then show ?thesis
      by (auto simp: ingest_known_effect [OF wf] intro!: tasks_grow_map [where f = id and g = id])
  next
    case new
    then show ?thesis
      by (auto simp: ingest_new [OF wf] intro!: tasks_grow_map [where f = id and g = id])
  qed
qed

lemma interrupt_tasks_inbox:
  "t_inbox (interrupt_tasks now ts db)
     = map (\<lambda>r. if it_task_id r \<in> set ts
                then r\<lparr>it_state := Interrupted, it_reason := Some (blocked_reason ''process_restart''),
                       it_updated_at := now\<rparr> else r) (t_inbox db)"
  by (induction ts arbitrary: db) (auto simp: upd_where_def)

lemma interrupt_tasks_other [simp]:
  "t_effects (interrupt_tasks now ts db) = t_effects db"
  "t_results (interrupt_tasks now ts db) = t_results db"
  "t_progress (interrupt_tasks now ts db) = t_progress db"
  "t_uploads (interrupt_tasks now ts db) = t_uploads db"
  "t_quarantine (interrupt_tasks now ts db) = t_quarantine db"
  by (induction ts arbitrary: db) simp_all

lemma recover_inbox:
  assumes wf: "task_wf db"
  shows "t_inbox (snd (recover_interrupted now db))
     = map (\<lambda>r. if it_state r \<in> INTERRUPTIBLE
                then r\<lparr>it_state := Interrupted, it_reason := Some (blocked_reason ''process_restart''),
                       it_updated_at := now\<rparr> else r) (t_inbox db)"
  unfolding recover_interrupted_def Let_def snd_conv interrupt_tasks_inbox
  by (rule map_cong [OF refl]) (auto dest: distinct_key_inj [OF task_wf_keys(1) [OF wf]])

lemma recover_grows: "task_wf db \<Longrightarrow> tasks_grow db (snd (recover_interrupted now db))"
proof (rule tasks_grow_map [where xs = "[]" and ys = "[]" and g = id])
  assume "task_wf db"
  then show "t_inbox (snd (recover_interrupted now db))
     = map (\<lambda>r. if it_state r \<in> INTERRUPTIBLE
                then r\<lparr>it_state := Interrupted, it_reason := Some (blocked_reason ''process_restart''),
                       it_updated_at := now\<rparr> else r) (t_inbox db) @ []"
    by (simp only: recover_inbox append_Nil2)
qed (auto simp: recover_interrupted_def Let_def row_advances_def INTERRUPTIBLE_def)

lemma bookkeeping_tables [simp]:
  "t_inbox (snd (mark_invoked now t db)) = t_inbox db"
  "t_effects (snd (mark_invoked now t db)) = t_effects db"
  "t_inbox (request_cleanup now t db) = t_inbox db"
  "t_effects (request_cleanup now t db) = t_effects db"
  "t_inbox (complete_cleanup now t error db) = t_inbox db"
  "t_effects (complete_cleanup now t error db) = t_effects db"
  "t_inbox (snd (queue_progress c now t ev n payload db)) = t_inbox db"
  "t_effects (snd (queue_progress c now t ev n payload db)) = t_effects db"
  "t_inbox (snd (confirm_outbox now table key_name k db)) = t_inbox db"
  "t_effects (snd (confirm_outbox now table key_name k db)) = t_effects db"
  by (simp_all add: mark_invoked_def request_cleanup_def complete_cleanup_def queue_progress_def
      insert_progress_def confirm_outbox_def Let_def)

lemmas task_grow_rules = ingest_grows claim_task_grows transition_grows finish_grows recover_grows
  load_rows_grows tasks_grow_same

lemma task_step_grows: "task_step c db db' \<Longrightarrow> task_wf db \<Longrightarrow> tasks_grow db db'"
  by (induction rule: task_step.induct) (simp_all add: queued_tasks_def task_grow_rules)

lemma task_steps_grow: "(task_step c)\<^sup>*\<^sup>* db db' \<Longrightarrow> task_wf db \<Longrightarrow> tasks_grow db db'"
  by (induction rule: rtranclp_induct) (auto intro: tasks_grow_trans task_step_grows task_steps_wf)

section \<open>Looking rows up\<close>

definition task_state_of :: "store \<Rightarrow> uuid \<Rightarrow> task_state option" where
  "task_state_of db t = map_option it_state (find (\<lambda>r. it_task_id r = t) (t_inbox db))"

lemma find_task_iff:
  "task_wf db \<Longrightarrow>
   find (\<lambda>r. it_task_id r = t) (t_inbox db) = Some r \<longleftrightarrow> r \<in> set (t_inbox db) \<and> it_task_id r = t"
  by (rule find_key_iff [OF task_wf_keys(1)])

lemma find_effect_iff:
  "task_wf db \<Longrightarrow>
   find (\<lambda>e. ie_key e = k) (t_effects db) = Some e \<longleftrightarrow> e \<in> set (t_effects db) \<and> ie_key e = k"
  by (rule find_key_iff [OF task_wf_keys(2)])

lemma grow_find_task:
  assumes "tasks_grow db db'" and "task_wf db'" and "find (\<lambda>r. it_task_id r = t) (t_inbox db) = Some r"
  obtains s where "find (\<lambda>r. it_task_id r = t) (t_inbox db') = Some s" "row_advances r s"
proof -
  from assms(3) have r: "r \<in> set (t_inbox db)" "it_task_id r = t" by (auto dest: find_SomeD)
  with assms(1) obtain s where "s \<in> set (t_inbox db')" "row_advances r s"
    unfolding tasks_grow_def by blast
  moreover from this have "it_task_id s = t" using r(2) by (simp add: row_advances_def)
  ultimately show ?thesis using that find_task_iff [OF assms(2)] by simp
qed

lemma grow_effect_key:
  assumes "tasks_grow db db'" and "task_wf db'" and "e \<in> set (t_effects db)"
    and "f \<in> set (t_effects db')" and "ie_key f = ie_key e"
  shows "effect_persists e f"
proof -
  from assms(1,3) obtain g where g: "g \<in> set (t_effects db')" "effect_persists e g"
    unfolding tasks_grow_def by blast
  then have "ie_key g = ie_key f" using assms(5) by (simp add: effect_persists_def)
  then have "g = f" using distinct_key_inj [OF task_wf_keys(2) [OF assms(2)] g(1) assms(4)] by simp
  with g(2) show ?thesis by simp
qed

lemma claim_refused_when_claimed:
  assumes "task_wf db" and "e \<in> set (t_effects db)" and "ie_claimed_at e \<noteq> None"
    and "r \<in> set (t_inbox db)" and "it_key r = ie_key e"
  shows "claim_task now aid (it_task_id r) db = (Inr None, db)"
proof -
  have "find (\<lambda>s. it_task_id s = it_task_id r) (t_inbox db) = Some r"
    using assms by (simp add: find_task_iff)
  moreover have "row_count (\<lambda>f. ie_key f = it_key r \<and> ie_claimed_at f = None) (t_effects db) = 0"
    using distinct_key_inj [OF task_wf_keys(2) [OF assms(1)] _ assms(2)] assms(3,5)
    unfolding row_count_zero by metis
  ultimately show ?thesis by (simp add: claim_task_def Let_def)
qed

lemma claimed_store_effect:
  assumes "task_wf db" and "find (\<lambda>r. it_task_id r = t) (t_inbox db) = Some row"
    and "it_state row = Queued"
  obtains e where "e \<in> set (t_effects (claimed_store now aid t (it_key row) db))"
    "ie_key e = it_key row" "ie_claimed_at e \<noteq> None"
proof -
  have r: "row \<in> set (t_inbox db)" using assms(2) by (auto dest: find_SomeD)
  have "it_canonical row = None"
    using task_wf_active_canonical [OF assms(1) r] assms(3) by (simp add: PRE_EXECUTION_TERMINAL_def)
  then obtain e0 where e0: "e0 \<in> set (t_effects db)" "ie_key e0 = it_key row"
    by (rule task_wf_canonical_effect [OF assms(1) r])
  let ?g = "\<lambda>e. if ie_key e = it_key row \<and> ie_claimed_at e = None
    then e\<lparr>ie_claimed_at := Some now, ie_updated_at := now\<rparr> else e"
  have "?g e0 \<in> set (t_effects (claimed_store now aid t (it_key row) db))"
    unfolding claimed_store_def upd_where_def using e0(1) by simp
  with e0(2) that [of "?g e0"] show ?thesis by (cases "ie_claimed_at e0") auto
qed

lemma queued_unclaimed:
  assumes wf: "task_wf db" and r: "r \<in> set (t_inbox db)" and q: "it_state r = Queued"
  shows "it_task_id r \<notin> ta_task_id ` set (t_attempts db)"
    and "row_count (\<lambda>e. ie_key e = it_key r \<and> ie_claimed_at e = None) (t_effects db) = 1"
proof -
  have can: "it_canonical r = None"
    using task_wf_active_canonical [OF wf r] q by (simp add: PRE_EXECUTION_TERMINAL_def)
  show free: "it_task_id r \<notin> ta_task_id ` set (t_attempts db)"
  proof
    assume "it_task_id r \<in> ta_task_id ` set (t_attempts db)"
    then obtain s where "s \<in> set (t_inbox db)" "it_task_id s = it_task_id r" "2 \<le> task_rank (it_state s)"
      using wf by (auto simp: task_wf_def attempt_wf_def)
    moreover from this have "s = r" using distinct_key_inj [OF task_wf_keys(1) [OF wf]] r by blast
    ultimately show False using q by simp
  qed
  obtain e where e: "e \<in> set (t_effects db)" "ie_key e = it_key r" "ie_canonical e = it_task_id r"
    by (rule task_wf_canonical_effect [OF wf r can])
  have "effect_wf db e" using wf e(1) by (simp add: task_wf_def)
  then have "ie_claimed_at e = None" using free e(3) by (auto simp: effect_wf_def)
  moreover have "find (\<lambda>e. ie_key e = it_key r) (t_effects db) = Some e"
    using e by (simp add: find_effect_iff [OF wf])
  ultimately show "row_count (\<lambda>e. ie_key e = it_key r \<and> ie_claimed_at e = None) (t_effects db) = 1"
    by (simp add: row_count_key [OF task_wf_keys(2) [OF wf]])
qed

section \<open>The inbox is a compare-and-set machine\<close>

definition cas_task :: "stamp \<Rightarrow> uuid \<Rightarrow> task_state \<Rightarrow> task_state \<Rightarrow> store \<Rightarrow> store option" where
  "cas_task now t a b db =
     (case transition now t a b db of (Inl _, _) \<Rightarrow> None | (Inr _, db') \<Rightarrow> Some db')"

lemma cas_count_state:
  "task_wf db \<Longrightarrow> cas_count t a db = 1 \<longleftrightarrow> task_state_of db t = Some a"
  using row_count_key [OF task_wf_keys(1), of db t "\<lambda>r. it_state r = a"]
  by (simp add: cas_count_def task_state_of_def split: option.splits)

lemma cas_task_Some:
  assumes "task_wf db"
  shows "cas_task now t a b db
    = (if allowed_transition a b \<and> task_state_of db t = Some a
       then Some (set_task_state now t a b db) else None)"
  using cas_count_state [OF assms, of t a]
  by (auto simp: cas_task_def transition_def split: sum.splits dest: ensure_transition_Inl)

lemma set_task_state_of:
  "task_state_of (set_task_state now t a b db) u
     = (if u = t \<and> task_state_of db t = Some a then Some b else task_state_of db u)"
proof (cases "find (\<lambda>r. it_task_id r = u) (t_inbox db)")
  case None
  then show ?thesis by (auto simp: task_state_of_def set_task_state_def)
next
  case (Some r)
  then have "it_task_id r = u" by (auto dest: find_SomeD)
  with Some show ?thesis by (auto simp: task_state_of_def set_task_state_def)
qed

interpretation inbox: ranked_cas_machine allowed_transition task_state_of "cas_task now" task_wf task_rank
  for now
  by unfold_locales
    (auto simp: cas_task_Some set_task_state_of allowed_transition_rank set_task_state_wf
      split: if_splits)

section \<open>Storing the result\<close>

lemma no_result_before_terminal:
  assumes wf: "task_wf db" and "row \<in> set (t_inbox db)" and "it_state row \<notin> TERMINAL_STATES"
  shows "it_task_id row \<notin> ob_task_id ` set (t_results db)"
proof
  assume "it_task_id row \<in> ob_task_id ` set (t_results db)"
  then obtain x where x: "x \<in> set (t_results db)" "ob_task_id x = it_task_id row" by auto
  have "result_wf db x" using wf x(1) by (simp add: task_wf_def)
  then obtain s where s: "s \<in> set (t_inbox db)" "it_task_id s = it_task_id row" "it_state s \<in> TERMINAL_STATES"
    unfolding result_wf_def x(2) by blast
  have "s = row" by (rule distinct_key_inj [OF task_wf_keys(1) [OF wf] s(1) assms(2) s(2)])
  with s(3) assms(3) show False by simp
qed

lemma finish_refused_when_terminal:
  assumes wf: "task_wf db" and "(task_step c)\<^sup>*\<^sup>* db db2" and "task_state_of db t = Some s"
    and "s \<in> TERMINAL_STATES"
  shows "\<not> is_ok (finish_with_result c2 now rk t Cleaning_Up target payload db2)"
proof
  have wf2: "task_wf db2" by (rule task_steps_wf [OF assms(2) wf])
  from assms(3) obtain r where r: "find (\<lambda>r. it_task_id r = t) (t_inbox db) = Some r" "it_state r = s"
    by (auto simp: task_state_of_def)
  obtain r' where r': "find (\<lambda>r. it_task_id r = t) (t_inbox db2) = Some r'" "row_advances r r'"
    by (rule grow_find_task [OF task_steps_grow [OF assms(2) wf] wf2 r(1)])
  have "it_state r' = s" using row_advances_terminal [OF r'(2)] r(2) assms(4) by simp
  moreover assume "is_ok (finish_with_result c2 now rk t Cleaning_Up target payload db2)"
  then obtain db3 where "finish_with_result c2 now rk t Cleaning_Up target payload db2 = (Inr (), db3)"
    by (cases "finish_with_result c2 now rk t Cleaning_Up target payload db2")
      (auto simp: is_ok_def split: sum.splits)
  from finish_with_result_ok [OF wf2 this] r'(1) have "it_state r' = Cleaning_Up" by auto
  ultimately show False using assms(4) by (simp add: terminal_iff)
qed

lemma finish_from_cleaning:
  assumes wf: "task_wf db" and "task_state_of db t = Some Cleaning_Up"
    and "target \<in> EXECUTION_TERMINAL" and "payload_text payload ''result_id'' = Some rid"
    and "rid \<notin> ob_id ` set (t_results db)" and "rk \<notin> rr_key ` set (t_results db)"
  obtains row where "find (\<lambda>r. it_task_id r = t) (t_inbox db) = Some row" "it_state row = Cleaning_Up"
    "t \<notin> ob_task_id ` set (t_results db)"
    "finish_with_result c' now rk t Cleaning_Up target payload db
      = (Inr (), finished_store c' now rk t (it_key row) rid Cleaning_Up target payload db)"
proof -
  from assms(2) obtain row where row: "find (\<lambda>r. it_task_id r = t) (t_inbox db) = Some row"
    and st: "it_state row = Cleaning_Up" by (auto simp: task_state_of_def)
  have r: "row \<in> set (t_inbox db)" "it_task_id row = t" using row by (auto dest: find_SomeD)
  have allowed: "allowed_transition Cleaning_Up target"
    using assms(3) by (auto simp: allowed_transition_def EXECUTION_TERMINAL_def)
  have new: "t \<notin> ob_task_id ` set (t_results db)"
    using no_result_before_terminal [OF wf r(1)] r(2) st by (simp add: terminal_iff)
  have "t \<in> it_task_id ` set (t_inbox db)" using r by blast
  then have "finish_with_result c' now rk t Cleaning_Up target payload db
      = (Inr (), finished_store c' now rk t (it_key row) rid Cleaning_Up target payload db)"
    using assms(4-6) allowed new row st cas_count_state [OF wf, of t Cleaning_Up] assms(2) r
    by (simp add: finish_with_result_def Let_def insert_result_def set_task_state_def finished_store_def
        new_result_def task_exists_def split: sum.split) (auto dest: ensure_transition_Inl)
  with that row st new show ?thesis by blast
qed

lemma recover_state:
  assumes "task_wf db"
  shows "task_state_of (snd (recover_interrupted now db)) t
      = map_option (\<lambda>s. if s \<in> INTERRUPTIBLE then Interrupted else s) (task_state_of db t)"
proof -
  let ?f = "\<lambda>r. if it_state r \<in> INTERRUPTIBLE
                then r\<lparr>it_state := Interrupted, it_reason := Some (blocked_reason ''process_restart''),
                       it_updated_at := now\<rparr> else r"
  have "find (\<lambda>r. it_task_id r = t) (map ?f rows) = map_option ?f (find (\<lambda>r. it_task_id r = t) rows)" for rows
    by (induction rows) auto
  from this [of "t_inbox db"] show ?thesis
    unfolding task_state_of_def recover_inbox [OF assms]
    by (cases "find (\<lambda>r. it_task_id r = t) (t_inbox db)") auto
qed

lemma reclaim_refused:
  assumes "task_reachable c db" and "claim_task now aid t db = (Inr (Some a), db1)"
    and "(task_step c)\<^sup>*\<^sup>* db1 db2"
    and "r \<in> set (t_inbox db)" and "it_task_id r = t"
    and "s \<in> set (t_inbox db2)" and "it_key s = it_key r"
  shows "claim_task now' aid' (it_task_id s) db2 = (Inr None, db2)"
proof -
  have wf: "task_wf db" by (rule task_reachable_wf [OF assms(1)])
  obtain row where row: "find (\<lambda>r. it_task_id r = t) (t_inbox db) = Some row" "it_state row = Queued"
    and db1: "db1 = claimed_store now aid t (it_key row) db"
    by (rule claim_task_result [OF assms(2)])
  have "row = r" using row(1) assms(4,5) find_task_iff [OF wf] distinct_key_inj [OF task_wf_keys(1) [OF wf]]
    by metis
  with row db1 obtain e where e: "e \<in> set (t_effects db1)" "ie_key e = it_key r" "ie_claimed_at e \<noteq> None"
    using claimed_store_effect [OF wf row, of now aid] by metis
  have wf1: "task_wf db1" using claim_task_wf [OF wf, of now aid t] assms(2) by simp
  have grow: "tasks_grow db1 db2" by (rule task_steps_grow [OF assms(3) wf1])
  have wf2: "task_wf db2" by (rule task_steps_wf [OF assms(3) wf1])
  from grow e(1) obtain f where f: "f \<in> set (t_effects db2)" "effect_persists e f"
    unfolding tasks_grow_def by blast
  then have "ie_claimed_at f \<noteq> None" "it_key s = ie_key f"
    using e assms(7) by (auto simp: effect_persists_def)
  then show ?thesis by (rule claim_refused_when_claimed [OF wf2 f(1) _ assms(6)])
qed

end
