(* ===== verification/Task_Demo.thy ===== *)
theory Task_Demo
  imports Task_Reach
begin

text \<open>
  A concrete run of the task database, for the witnesses: one task, an identity hash and the decimal
  text of instants for the renderings of a \<open>datetime\<close>; the database after its ingestion and after
  its claim.
\<close>

definition demo_task :: local_task where
  "demo_task =
     \<lparr>lt_task_id = ''t1'', lt_execution_id = ''x1'', lt_task_type = ''dev.simulated'',
      lt_task_type_version = ''1.0.0'', lt_issued_at = 0, lt_not_before = 0, lt_expires_at = 100,
      lt_idempotency_key = ''k1'', lt_required_capabilities = [''wifi''],
      lt_foreground = Fg_Not_Required, lt_interaction = Ui_None, lt_parameters = []\<rparr>"

definition demo_codec :: codec where
  "demo_codec =
     (let base = \<lparr>sha256_hex = (\<lambda>s. s), json_loads = (\<lambda>s. None), validate_task = (\<lambda>j. None),
                  dump_datetime = int_text, iso_format = int_text\<rparr>;
          payload = envelope_json base demo_task
      in base\<lparr>json_loads := (\<lambda>s. if s = canonical_json payload then Some payload else None),
              validate_task := (\<lambda>j. if j = payload then Some demo_task else None)\<rparr>)"

definition demo_queued :: store where
  "demo_queued = snd (ingest_task demo_codec ''n1'' ''q1'' demo_task empty_store)"

definition demo_claimed :: store where
  "demo_claimed = snd (claim_task ''n2'' ''a1'' ''t1'' demo_queued)"

lemma demo_queued_tables:
  "ingest_task demo_codec ''n1'' ''q1'' demo_task empty_store = (Inr ''queued'', demo_queued)"
  "demo_queued = empty_store\<lparr>t_inbox := [queued_row demo_codec ''n1'' demo_task],
     t_effects := [effect_row demo_codec ''n1'' demo_task]\<rparr>"
proof -
  have "ingest_task demo_codec ''n1'' ''q1'' demo_task empty_store
    = (Inr ''queued'', empty_store\<lparr>t_inbox := t_inbox empty_store @ [queued_row demo_codec ''n1'' demo_task],
        t_effects := t_effects empty_store @ [effect_row demo_codec ''n1'' demo_task]\<rparr>)"
    by (rule ingest_new [OF task_wf_empty]) (simp_all add: empty_store_def)
  then show "ingest_task demo_codec ''n1'' ''q1'' demo_task empty_store = (Inr ''queued'', demo_queued)"
    "demo_queued = empty_store\<lparr>t_inbox := [queued_row demo_codec ''n1'' demo_task],
     t_effects := [effect_row demo_codec ''n1'' demo_task]\<rparr>"
    by (simp_all add: demo_queued_def empty_store_def)
qed

lemma demo_row [simp]:
  "it_task_id (queued_row demo_codec n demo_task) = ''t1''"
  "it_key (queued_row demo_codec n demo_task) = ''k1''"
  "it_state (queued_row demo_codec n demo_task) = Queued"
  "ie_key (effect_row demo_codec n demo_task) = ''k1''"
  "ie_canonical (effect_row demo_codec n demo_task) = ''t1''"
  "ie_claimed_at (effect_row demo_codec n demo_task) = None"
  by (simp_all add: queued_row_def inbox_row_def effect_row_def demo_task_def)

lemma demo_claimed_result:
  "claim_task ''n2'' ''a1'' ''t1'' demo_queued = (Inr (Some ''a1''), demo_claimed)"
  by (simp add: demo_claimed_def claim_task_def demo_queued_tables(2) Let_def row_count_def
      set_task_state_def insert_attempt_def empty_store_def task_exists_def)

lemma demo_claimed_tables:
  "t_inbox demo_claimed = [(queued_row demo_codec ''n1'' demo_task)\<lparr>it_state := Preparing, it_updated_at := ''n2''\<rparr>]"
  "t_attempts demo_claimed = [new_attempt ''n2'' ''a1'' ''t1'']"
  "t_results demo_claimed = []"
  by (simp_all add: demo_claimed_def claim_task_def demo_queued_tables(2) Let_def row_count_def
      set_task_state_def insert_attempt_def empty_store_def task_exists_def new_attempt_def)

lemma demo_reachable:
  "task_reachable demo_codec demo_queued" "task_reachable demo_codec demo_claimed"
proof -
  have q: "task_step demo_codec empty_store demo_queued"
    unfolding demo_queued_def by (rule task_step.ingest)
  then show "task_reachable demo_codec demo_queued" unfolding task_reachable_def by blast
  have "task_step demo_codec demo_queued demo_claimed"
    unfolding demo_claimed_def by (rule task_step.claim)
  with q show "task_reachable demo_codec demo_claimed"
    unfolding task_reachable_def by (meson converse_rtranclp_into_rtranclp rtranclp.rtrancl_refl)
qed

end
