(* ===== verification/Task_Properties.thy ===== *)
theory Task_Properties
  imports Task_Demo
begin

text \<open>
  The properties of the task database, each with a run of the model that meets its hypotheses.
\<close>

section \<open>Exclusive execution\<close>

text \<open>Once a task has been claimed, no task with its idempotency key is ever claimed again: after
  any further sequence of operations (redeliveries, transitions, results, restarts) every claim of
  a task with that key is refused and changes nothing.\<close>

theorem claimed_key_never_claimed_again:
  assumes "task_reachable c db" and "claim_task now aid t db = (Inr (Some a), db1)"
    and "(task_step c)\<^sup>*\<^sup>* db1 db2"
    and "r \<in> set (t_inbox db)" and "it_task_id r = t"
    and "s \<in> set (t_inbox db2)" and "it_key s = it_key r"
  shows "claim_task now' aid' (it_task_id s) db2 = (Inr None, db2)"
  by (rule reclaim_refused [OF assms])

lemma claimed_key_never_claimed_again_witness:
  "claim_task ''n9'' ''a9'' ''t1'' demo_claimed = (Inr None, demo_claimed)"
  using claimed_key_never_claimed_again [OF demo_reachable(1) demo_claimed_result rtranclp.rtrancl_refl,
      of "queued_row demo_codec ''n1'' demo_task"
      "(queued_row demo_codec ''n1'' demo_task)\<lparr>it_state := Preparing, it_updated_at := ''n2''\<rparr>" "''n9''" "''a9''"]
  by (simp add: demo_claimed_tables demo_queued_tables(2))

text \<open>The attempts and the results of the tasks that carry one idempotency key.\<close>

definition attempts_of_key :: "store \<Rightarrow> uuid \<Rightarrow> task_attempt list" where
  "attempts_of_key db k =
     filter (\<lambda>a. map_option it_key (find (\<lambda>r. it_task_id r = ta_task_id a) (t_inbox db)) = Some k)
       (t_attempts db)"

definition results_of_key :: "store \<Rightarrow> uuid \<Rightarrow> result_row list" where
  "results_of_key db k =
     filter (\<lambda>x. map_option it_key (find (\<lambda>r. it_task_id r = ob_task_id x) (t_inbox db)) = Some k)
       (t_results db)"

lemma filter_at_most_one:
  assumes "distinct (map key xs)" and "\<And>x y. x \<in> set xs \<Longrightarrow> y \<in> set xs \<Longrightarrow> P x \<Longrightarrow> P y \<Longrightarrow> key x = key y"
  shows "length (filter P xs) \<le> 1"
proof (rule ccontr)
  assume "\<not> length (filter P xs) \<le> 1"
  then obtain x y zs where two: "filter P xs = x # y # zs"
    by (cases "filter P xs"; cases "tl (filter P xs)") auto
  then have "x \<in> set (filter P xs)" "y \<in> set (filter P xs)" by simp_all
  then have "key x = key y" using assms(2) [of x y] by simp
  moreover have "distinct (map key (filter P xs))" using assms(1) by (rule distinct_map_filter)
  ultimately show False by (simp add: two)
qed

lemma canonical_of_key_unique:
  assumes wf: "task_wf db"
    and "r \<in> set (t_inbox db)" "it_canonical r = None" "s \<in> set (t_inbox db)" "it_canonical s = None"
    and "it_key r = it_key s"
  shows "it_task_id r = it_task_id s"
proof -
  obtain e where "e \<in> set (t_effects db)" "ie_key e = it_key r" "ie_canonical e = it_task_id r"
    by (rule task_wf_canonical_effect [OF wf assms(2,3)])
  moreover obtain f where "f \<in> set (t_effects db)" "ie_key f = it_key s" "ie_canonical f = it_task_id s"
    by (rule task_wf_canonical_effect [OF wf assms(4,5)])
  ultimately show ?thesis using distinct_key_inj [OF task_wf_keys(2) [OF wf]] assms(6) by metis
qed

lemma same_key_same_task:
  assumes wf: "task_wf db"
    and canonical: "\<And>t. t \<in> T \<Longrightarrow> \<exists>r \<in> set (t_inbox db). it_task_id r = t \<and> it_canonical r = None"
    and "t \<in> T" and "map_option it_key (find (\<lambda>r. it_task_id r = t) (t_inbox db)) = Some k"
    and "u \<in> T" and "map_option it_key (find (\<lambda>r. it_task_id r = u) (t_inbox db)) = Some k"
  shows "t = u"
proof -
  from canonical [OF assms(3)] obtain r where r: "r \<in> set (t_inbox db)" "it_task_id r = t" "it_canonical r = None" by blast
  from canonical [OF assms(5)] obtain s where s: "s \<in> set (t_inbox db)" "it_task_id s = u" "it_canonical s = None" by blast
  have "find (\<lambda>r. it_task_id r = t) (t_inbox db) = Some r" "find (\<lambda>r. it_task_id r = u) (t_inbox db) = Some s"
    using r s by (simp_all add: find_task_iff [OF wf])
  with assms(4,6) have "it_key r = it_key s" by simp
  with canonical_of_key_unique [OF wf r(1,3) s(1,3)] r(2) s(2) show ?thesis by simp
qed

text \<open>C2: in every reachable database the tasks that carry one idempotency key have at most one attempt
  and at most one result between them: an effect is executed and reported at most once.\<close>

theorem one_attempt_and_result_per_key:
  assumes "task_reachable c db"
  shows "length (attempts_of_key db k) \<le> 1 \<and> length (results_of_key db k) \<le> 1"
proof -
  have wf: "task_wf db" by (rule task_reachable_wf [OF assms])
  have att: "\<exists>r \<in> set (t_inbox db). it_task_id r = t \<and> it_canonical r = None"
    if "t \<in> ta_task_id ` set (t_attempts db)" for t
    using that wf by (fastforce simp: task_wf_def attempt_wf_def)
  have res: "\<exists>r \<in> set (t_inbox db). it_task_id r = t \<and> it_canonical r = None"
    if "t \<in> ob_task_id ` set (t_results db)" for t
    using that wf by (fastforce simp: task_wf_def result_wf_def)
  have "length (attempts_of_key db k) \<le> 1"
    unfolding attempts_of_key_def
    by (rule filter_at_most_one [OF task_wf_keys(4) [OF wf]]) (rule same_key_same_task [OF wf att], auto)
  moreover have "length (results_of_key db k) \<le> 1"
    unfolding results_of_key_def
    by (rule filter_at_most_one [OF task_wf_keys(5) [OF wf]]) (rule same_key_same_task [OF wf res], auto)
  ultimately show ?thesis ..
qed

lemma one_attempt_and_result_per_key_witness:
  "length (attempts_of_key demo_claimed ''k1'') \<le> 1 \<and> length (results_of_key demo_claimed ''k1'') \<le> 1
   \<and> attempts_of_key demo_claimed ''k1'' = [new_attempt ''n2'' ''a1'' ''t1'']"
  using one_attempt_and_result_per_key [OF demo_reachable(2), of "''k1''"]
  by (simp add: attempts_of_key_def demo_claimed_tables new_attempt_def)

section \<open>Claim and ingestion\<close>

text \<open>On a reachable database a claim with a fresh attempt id succeeds exactly for a task in
  \<open>QUEUED\<close>; it then moves that task to \<open>PREPARING\<close>, marks the effect of its key as claimed and
  records the attempt in one commit, and otherwise it changes nothing.  No constraint of the schema
  is ever violated.\<close>

theorem claim_succeeds_iff_queued:
  assumes "task_reachable c db" and "aid \<notin> ta_attempt_id ` set (t_attempts db)"
  shows "claim_task now aid t db =
    (case find (\<lambda>r. it_task_id r = t) (t_inbox db) of
       None \<Rightarrow> (Inr None, db)
     | Some row \<Rightarrow> if it_state row = Queued then (Inr (Some aid), claimed_store now aid t (it_key row) db)
                   else (Inr None, db))"
proof (cases "find (\<lambda>r. it_task_id r = t) (t_inbox db)")
  case None
  then show ?thesis by (simp add: claim_task_def)
next
  case (Some row)
  have wf: "task_wf db" by (rule task_reachable_wf [OF assms(1)])
  have r: "row \<in> set (t_inbox db)" "it_task_id row = t" using Some by (auto dest: find_SomeD)
  show ?thesis
  proof (cases "it_state row = Queued")
    case True
    have "t \<in> it_task_id ` set (t_inbox db)" using r by blast
    then show ?thesis
      using Some True queued_unclaimed [OF wf r(1) True] assms(2) r(2)
      by (simp add: claim_task_def Let_def set_task_state_def insert_attempt_def task_exists_def
          claimed_store_def new_attempt_def)
  next
    case False
    with Some show ?thesis by (simp add: claim_task_def)
  qed
qed

lemma claim_succeeds_iff_queued_witness:
  "claim_task ''n2'' ''a1'' ''t1'' demo_queued
     = (Inr (Some ''a1''), claimed_store ''n2'' ''a1'' ''t1'' ''k1'' demo_queued)"
  using claim_succeeds_iff_queued [OF demo_reachable(1), of "''a1''" "''n2''" "''t1''"]
  by (simp add: demo_queued_tables(2) empty_store_def)

text \<open>Ingestion on every branch, on a reachable database: a task id seen before with the same
  payload is a duplicate and changes nothing; with another payload it is quarantined and raised as a
  conflict; a new task id whose idempotency key is known is stored as \<open>duplicate\<close> (same logical
  effect) or \<open>blocked\<close> (another effect) with a reference to the canonical task; any other task is
  queued with a fresh, unclaimed effect.  No insert violates a constraint.\<close>

theorem ingest_task_spec:
  assumes "task_reachable c db"
  shows "ingest_task c' now qid task db =
    (case find (\<lambda>r. it_task_id r = lt_task_id task) (t_inbox db) of
       Some row \<Rightarrow>
         if it_payload_hash row = digest (sha256_hex c') (envelope_json c' task) then (Inr ''duplicate'', db)
         else (Inl (Duplicate_Conflict_Error ''task_id was reused with a different payload''),
               quarantine_in_transaction c' now qid ''inbox_tasks'' (lt_task_id task)
                 ''task_id_payload_conflict'' (Some (canonical_json (envelope_json c' task))) db)
     | None \<Rightarrow>
         (case find (\<lambda>e. ie_key e = lt_idempotency_key task) (t_effects db) of
            Some e \<Rightarrow> (Inr (state_value (it_state (duplicate_row c' now task e))),
                       db\<lparr>t_inbox := t_inbox db @ [duplicate_row c' now task e]\<rparr>)
          | None \<Rightarrow> (Inr ''queued'', db\<lparr>t_inbox := t_inbox db @ [queued_row c' now task],
                                       t_effects := t_effects db @ [effect_row c' now task]\<rparr>)))"
  using ingest_known_task ingest_known_effect [OF task_reachable_wf [OF assms]]
    ingest_new [OF task_reachable_wf [OF assms]]
  by (simp split: option.split)

lemma ingest_task_spec_witness:
  "ingest_task demo_codec ''n3'' ''q3'' (demo_task\<lparr>lt_task_id := ''t2''\<rparr>) demo_queued
     = (Inr ''duplicate'', demo_queued\<lparr>t_inbox := t_inbox demo_queued
         @ [inbox_row demo_codec ''n3'' (demo_task\<lparr>lt_task_id := ''t2''\<rparr>) (Some ''t1'') Duplicate
              (Some (blocked_reason ''idempotency_duplicate''))]\<rparr>)"
  using ingest_task_spec [OF demo_reachable(1), of demo_codec "''n3''" "''q3''" "demo_task\<lparr>lt_task_id := ''t2''\<rparr>"]
  by (simp add: demo_queued_tables(2) empty_store_def demo_task_def duplicate_row_def effect_row_def
      queued_row_def inbox_row_def logical_effect_def)

text \<open>C4: redelivery is idempotent for ever: once an envelope has been accepted, delivering the same
  envelope again after any sequence of operations reports \<open>duplicate\<close> and leaves the database as it
  is.\<close>

theorem redelivery_is_idempotent:
  assumes "task_reachable c db" and "ingest_task c now qid task db = (Inr outcome, db1)"
    and "(task_step c)\<^sup>*\<^sup>* db1 db2"
  shows "ingest_task c now' qid' task db2 = (Inr ''duplicate'', db2)"
proof -
  have wf: "task_wf db" by (rule task_reachable_wf [OF assms(1)])
  have wf1: "task_wf db1" using ingest_task_wf [OF wf, of c now qid task] assms(2) by simp
  have "\<exists>r \<in> set (t_inbox db1). it_task_id r = lt_task_id task
      \<and> it_payload_hash r = digest (sha256_hex c) (envelope_json c task)"
    using assms(2) unfolding ingest_task_spec [OF assms(1)]
    by (auto simp: queued_row_def duplicate_row_def inbox_row_def split: option.splits if_splits
        dest: find_SomeD)
  then obtain r where r: "r \<in> set (t_inbox db1)" "it_task_id r = lt_task_id task"
    "it_payload_hash r = digest (sha256_hex c) (envelope_json c task)" by blast
  have wf2: "task_wf db2" by (rule task_steps_wf [OF assms(3) wf1])
  have "find (\<lambda>r. it_task_id r = lt_task_id task) (t_inbox db1) = Some r"
    using r by (simp add: find_task_iff [OF wf1])
  then obtain s where "find (\<lambda>r. it_task_id r = lt_task_id task) (t_inbox db2) = Some s" "row_advances r s"
    by (rule grow_find_task [OF task_steps_grow [OF assms(3) wf1] wf2])
  with r(3) show ?thesis by (simp add: ingest_known_task row_advances_def)
qed

lemma redelivery_is_idempotent_witness:
  "ingest_task demo_codec ''n5'' ''q5'' demo_task demo_claimed = (Inr ''duplicate'', demo_claimed)"
proof (rule redelivery_is_idempotent [OF _ demo_queued_tables(1)])
  show "task_reachable demo_codec empty_store" by (simp add: task_reachable_def)
  have "task_step demo_codec demo_queued demo_claimed"
    unfolding demo_claimed_def by (rule task_step.claim)
  then show "(task_step demo_codec)\<^sup>*\<^sup>* demo_queued demo_claimed" by blast
qed

section \<open>Progress of a task\<close>

text \<open>C6: a terminal state is final: whatever the agent does afterwards, a task that has reached
  \<open>duplicate\<close>, \<open>skipped\<close>, \<open>blocked\<close>, \<open>rejected\<close>, \<open>completed\<close>, \<open>failed\<close>, \<open>cancelled\<close> or
  \<open>interrupted\<close> keeps that state; and no task is ever forgotten or moves backwards.\<close>

theorem terminal_state_is_final:
  assumes "task_reachable c db" and "(task_step c)\<^sup>*\<^sup>* db db'" and "task_state_of db t = Some s"
  shows "\<exists>s'. task_state_of db' t = Some s' \<and> task_rank s \<le> task_rank s'
    \<and> (s \<in> TERMINAL_STATES \<longrightarrow> s' = s)"
proof -
  have wf: "task_wf db" by (rule task_reachable_wf [OF assms(1)])
  from assms(3) obtain r where "find (\<lambda>r. it_task_id r = t) (t_inbox db) = Some r" "it_state r = s"
    by (auto simp: task_state_of_def)
  then obtain r' where "find (\<lambda>r. it_task_id r = t) (t_inbox db') = Some r'" "row_advances r r'"
    using grow_find_task [OF task_steps_grow [OF assms(2) wf] task_steps_wf [OF assms(2) wf]] by blast
  then show ?thesis
    using row_advances_rank row_advances_terminal \<open>it_state r = s\<close>
    by (auto simp: task_state_of_def)
qed

lemma terminal_state_is_final_witness:
  "\<exists>s'. task_state_of demo_claimed ''t1'' = Some s' \<and> task_rank Preparing \<le> task_rank s'
    \<and> (Preparing \<in> TERMINAL_STATES \<longrightarrow> s' = Preparing)"
  by (rule terminal_state_is_final [OF demo_reachable(2) rtranclp.rtrancl_refl])
    (simp add: task_state_of_def demo_claimed_tables)

text \<open>The compare-and-set transitions of one task form a path of the table of allowed transitions,
  and there are at most six of them: a task cannot be moved for ever.\<close>

theorem task_transitions_bounded:
  assumes "task_reachable c db" and "cas_all (cas_task now) reqs db = Some db'"
    and "task_state_of db t = Some s"
  shows "length (requests_for t reqs) \<le> 6 \<and>
    (\<exists>s'. task_state_of db' t = Some s' \<and> allowed_transition\<^sup>*\<^sup>* s s')"
proof -
  have wf: "task_wf db" by (rule task_reachable_wf [OF assms(1)])
  obtain b where "length (requests_for t reqs) + task_rank s \<le> task_rank b"
    using inbox.requests_bounded [OF wf assms(2,3)] by blast
  with task_rank_le [of b] inbox.cas_all_path [OF wf assms(2,3)] show ?thesis by simp
qed

lemma task_transitions_bounded_witness:
  "length (requests_for ''t1'' [(''t1'', Preparing, Running)]) \<le> 6 \<and>
   (\<exists>s'. task_state_of (set_task_state ''n'' ''t1'' Preparing Running demo_claimed) ''t1'' = Some s'
      \<and> allowed_transition\<^sup>*\<^sup>* Preparing s')"
proof (rule task_transitions_bounded [OF demo_reachable(2)])
  show "cas_all (cas_task ''n'') [(''t1'', Preparing, Running)] demo_claimed
    = Some (set_task_state ''n'' ''t1'' Preparing Running demo_claimed)"
    by (simp add: cas_task_Some [OF task_reachable_wf [OF demo_reachable(2)]] allowed_transition_def
        task_state_of_def demo_claimed_tables)
qed (simp add: task_state_of_def demo_claimed_tables)

section \<open>Recovery, results and the queue\<close>

lemma interrupt_tasks_attempts:
  "t_attempts (interrupt_tasks now ts db) = map (\<lambda>a. if ta_task_id a \<in> set ts
       then a\<lparr>ta_cleanup_requested_at := coalesce (ta_cleanup_requested_at a) (Some now),
              ta_finished_at := coalesce (ta_finished_at a) (Some now)\<rparr> else a) (t_attempts db)"
proof (induction ts arbitrary: db)
  case (Cons t ts)
  have once: "coalesce (coalesce x (Some now)) (Some now) = coalesce x (Some now)" for x :: "stamp option"
    by (cases x) simp_all
  show ?case
    unfolding interrupt_tasks.simps Cons.IH by (simp add: upd_where_def once)
qed simp

lemma interrupt_tasks_rest:
  "t_identity (interrupt_tasks now ts db) = t_identity db" "t_runtime (interrupt_tasks now ts db) = t_runtime db"
  "t_manifests (interrupt_tasks now ts db) = t_manifests db" "t_winops (interrupt_tasks now ts db) = t_winops db"
  by (induction ts arbitrary: db) simp_all

lemma interrupt_tasks_store:
  "interrupt_tasks now ts db = db\<lparr>t_inbox := t_inbox (interrupt_tasks now ts db),
     t_attempts := t_attempts (interrupt_tasks now ts db)\<rparr>"
  by (rule store.equality) (simp_all add: interrupt_tasks_rest)

text \<open>C5: recovery at start-up interrupts exactly the tasks in \<open>PREPARING\<close>, \<open>RUNNING\<close>,
  \<open>CANCEL_REQUESTED\<close> and \<open>CLEANING_UP\<close> and reports how many there were: their rows get the new state,
  reason and time, their attempts the request for a cleanup and an end where they had none; every other
  row of these two tables and every other table is as it was.  A second recovery does nothing.\<close>

theorem recovery_interrupts_exactly_the_active:
  assumes "task_reachable c db"
  shows "recover_interrupted now db =
      (length (filter (\<lambda>r. it_state r \<in> INTERRUPTIBLE) (t_inbox db)),
       db\<lparr>t_inbox := map (\<lambda>r. if it_state r \<in> INTERRUPTIBLE
            then r\<lparr>it_state := Interrupted, it_reason := Some (blocked_reason ''process_restart''), it_updated_at := now\<rparr>
            else r) (t_inbox db),
          t_attempts := map (\<lambda>a. if \<exists>r \<in> set (t_inbox db). it_task_id r = ta_task_id a \<and> it_state r \<in> INTERRUPTIBLE
            then a\<lparr>ta_cleanup_requested_at := coalesce (ta_cleanup_requested_at a) (Some now),
                   ta_finished_at := coalesce (ta_finished_at a) (Some now)\<rparr>
            else a) (t_attempts db)\<rparr>)
    \<and> recover_interrupted now' (snd (recover_interrupted now db)) = (0, snd (recover_interrupted now db))"
proof -
  have wf: "task_wf db" by (rule task_reachable_wf [OF assms])
  let ?f = "\<lambda>r. if it_state r \<in> INTERRUPTIBLE
                then r\<lparr>it_state := Interrupted, it_reason := Some (blocked_reason ''process_restart''),
                       it_updated_at := now\<rparr> else r"
  let ?ts = "map it_task_id (filter (\<lambda>r. it_state r \<in> INTERRUPTIBLE) (t_inbox db))"
  have inbox: "t_inbox (snd (recover_interrupted now db)) = map ?f (t_inbox db)"
    by (rule recover_inbox [OF wf])
  have ids: "ta_task_id a \<in> set ?ts
      \<longleftrightarrow> (\<exists>r \<in> set (t_inbox db). it_task_id r = ta_task_id a \<and> it_state r \<in> INTERRUPTIBLE)" for a
    by force
  have run: "recover_interrupted now db = (length ?ts, interrupt_tasks now ?ts db)"
    by (simp add: recover_interrupted_def Let_def)
  have "interrupt_tasks now ?ts db = db\<lparr>t_inbox := map ?f (t_inbox db),
     t_attempts := map (\<lambda>a. if ta_task_id a \<in> set ?ts
       then a\<lparr>ta_cleanup_requested_at := coalesce (ta_cleanup_requested_at a) (Some now),
              ta_finished_at := coalesce (ta_finished_at a) (Some now)\<rparr> else a) (t_attempts db)\<rparr>"
    by (rule trans [OF interrupt_tasks_store]) (simp only: inbox [unfolded run snd_conv] interrupt_tasks_attempts)
  then have step: "recover_interrupted now db = (length ?ts, db\<lparr>t_inbox := map ?f (t_inbox db),
     t_attempts := map (\<lambda>a. if \<exists>r \<in> set (t_inbox db). it_task_id r = ta_task_id a \<and> it_state r \<in> INTERRUPTIBLE
       then a\<lparr>ta_cleanup_requested_at := coalesce (ta_cleanup_requested_at a) (Some now),
              ta_finished_at := coalesce (ta_finished_at a) (Some now)\<rparr> else a) (t_attempts db)\<rparr>)"
    unfolding run ids by simp
  have "filter (\<lambda>r. it_state r \<in> INTERRUPTIBLE) (t_inbox (snd (recover_interrupted now db))) = []"
    unfolding inbox by (auto simp: filter_empty_conv INTERRUPTIBLE_def)
  then have "recover_interrupted now' (snd (recover_interrupted now db)) = (0, snd (recover_interrupted now db))"
    by (subst recover_interrupted_def) simp
  then show ?thesis using step by simp
qed

lemma recovery_interrupts_exactly_the_active_witness:
  "fst (recover_interrupted ''n7'' demo_claimed) = 1
   \<and> map it_state (t_inbox (snd (recover_interrupted ''n7'' demo_claimed))) = [Interrupted]
   \<and> map ta_finished_at (t_attempts (snd (recover_interrupted ''n7'' demo_claimed))) = [Some ''n7'']"
  using recovery_interrupts_exactly_the_active [OF demo_reachable(2), of "''n7''" "''n8''"]
  by (simp add: demo_claimed_tables INTERRUPTIBLE_def new_attempt_def)

text \<open>The result of a task in \<open>CLEANING_UP\<close> is stored once and for ever: with fresh identifiers
  \<open>finish_with_result\<close> succeeds, moves the task to its final state, queues exactly one pending result
  and records the outcome in the effect of its key; after any further operations every second
  attempt to store a result for it is refused.\<close>

theorem result_is_stored_once:
  assumes "task_reachable c db" and "task_state_of db t = Some Cleaning_Up"
    and "target \<in> EXECUTION_TERMINAL" and "payload_text payload ''result_id'' = Some rid"
    and "rid \<notin> ob_id ` set (t_results db)" and "rk \<notin> rr_key ` set (t_results db)"
  shows "\<exists>db' k. finish_with_result c' now rk t Cleaning_Up target payload db = (Inr (), db')
    \<and> task_state_of db' t = Some target
    \<and> filter (\<lambda>x. ob_task_id x = t) (t_results db') = [new_result c' now rk t rid payload]
    \<and> (\<exists>e \<in> set (t_effects db'). ie_key e = k \<and> ie_canonical e = t
         \<and> ie_terminal_state e = Some (state_value target) \<and> ie_result_id e = Some rid)
    \<and> (\<forall>db2. (task_step c)\<^sup>*\<^sup>* db' db2 \<longrightarrow>
         (\<forall>c2 now2 rk2 target2 payload2.
            \<not> is_ok (finish_with_result c2 now2 rk2 t Cleaning_Up target2 payload2 db2)))"
proof -
  have wf: "task_wf db" by (rule task_reachable_wf [OF assms(1)])
  obtain row where row: "find (\<lambda>r. it_task_id r = t) (t_inbox db) = Some row" "it_state row = Cleaning_Up"
    and new: "t \<notin> ob_task_id ` set (t_results db)"
    and run: "finish_with_result c' now rk t Cleaning_Up target payload db
      = (Inr (), finished_store c' now rk t (it_key row) rid Cleaning_Up target payload db)"
    by (rule finish_from_cleaning [OF wf assms(2-6), where c' = c' and now = now])
  have r: "row \<in> set (t_inbox db)" "it_task_id row = t" using row by (auto dest: find_SomeD)
  note st = row(2)
  let ?db' = "finished_store c' now rk t (it_key row) rid Cleaning_Up target payload db"
  have allowed: "allowed_transition Cleaning_Up target"
    using assms(3) by (auto simp: allowed_transition_def EXECUTION_TERMINAL_def)
  have state: "task_state_of ?db' t = Some target"
    using row r by (simp add: task_state_of_def finished_store_def)
  have result: "filter (\<lambda>x. ob_task_id x = t) (t_results ?db') = [new_result c' now rk t rid payload]"
    using new by (auto simp: finished_store_def new_result_def filter_empty_conv)
  have "it_canonical row = None"
    using task_wf_active_canonical [OF wf r(1)] st by (simp add: PRE_EXECUTION_TERMINAL_def)
  then obtain e where e: "e \<in> set (t_effects db)" "ie_key e = it_key row" "ie_canonical e = t"
    using task_wf_canonical_effect [OF wf r(1)] r(2) by metis
  let ?g = "\<lambda>e. e\<lparr>ie_terminal_state := Some (state_value target), ie_result_id := Some rid, ie_updated_at := now\<rparr>"
  have "?g e \<in> set (t_effects ?db')"
    using e by (auto simp: finished_store_def upd_where_def intro!: image_eqI [of _ _ e])
  then have effect: "\<exists>e \<in> set (t_effects ?db'). ie_key e = it_key row \<and> ie_canonical e = t
      \<and> ie_terminal_state e = Some (state_value target) \<and> ie_result_id e = Some rid"
    using e by (intro bexI [of _ "?g e"]) simp_all
  have wf': "task_wf ?db'"
    by (rule finished_store_wf [OF wf row(1) st allowed _ new]) (use assms(3) in \<open>simp add: TERMINAL_STATES_def\<close>)
  have "target \<in> TERMINAL_STATES" using assms(3) by (simp add: TERMINAL_STATES_def)
  note final = finish_refused_when_terminal [OF wf' _ state this]
  show ?thesis using run state result effect final by blast
qed

definition demo_cleaning :: store where
  "demo_cleaning =
     snd (transition ''n4'' ''t1'' Running Cleaning_Up
       (snd (transition ''n3'' ''t1'' Preparing Running demo_claimed)))"

lemma demo_cleaning_reachable: "task_reachable demo_codec demo_cleaning"
proof -
  have "task_step demo_codec demo_claimed (snd (transition ''n3'' ''t1'' Preparing Running demo_claimed))"
    by (rule task_step.move)
  moreover have "task_step demo_codec (snd (transition ''n3'' ''t1'' Preparing Running demo_claimed)) demo_cleaning"
    unfolding demo_cleaning_def by (rule task_step.move)
  ultimately show ?thesis
    using demo_reachable(2) unfolding task_reachable_def by (meson rtranclp.rtrancl_into_rtrancl)
qed

lemma demo_cleaning_tables:
  "task_state_of demo_cleaning ''t1'' = Some Cleaning_Up" "t_results demo_cleaning = []"
  by (simp_all add: demo_cleaning_def transition_def ensure_transition_def demo_claimed_tables cas_count_def
      row_count_def set_task_state_def task_state_of_def)

lemma result_is_stored_once_witness:
  "\<exists>db' k. finish_with_result demo_codec ''n6'' ''k6'' ''t1'' Cleaning_Up Completed
        (JObj [(''result_id'', JStr ''r1'')]) demo_cleaning = (Inr (), db')
    \<and> task_state_of db' ''t1'' = Some Completed
    \<and> filter (\<lambda>x. ob_task_id x = ''t1'') (t_results db')
        = [new_result demo_codec ''n6'' ''k6'' ''t1'' ''r1'' (JObj [(''result_id'', JStr ''r1'')])]
    \<and> (\<exists>e \<in> set (t_effects db'). ie_key e = k \<and> ie_canonical e = ''t1''
         \<and> ie_terminal_state e = Some (state_value Completed) \<and> ie_result_id e = Some ''r1'')
    \<and> (\<forall>db2. (task_step demo_codec)\<^sup>*\<^sup>* db' db2 \<longrightarrow>
         (\<forall>c2 now2 rk2 target2 payload2.
            \<not> is_ok (finish_with_result c2 now2 rk2 ''t1'' Cleaning_Up target2 payload2 db2)))"
  by (rule result_is_stored_once [OF demo_cleaning_reachable demo_cleaning_tables(1)])
    (simp_all add: EXECUTION_TERMINAL_def payload_text_def demo_cleaning_tables(2))

section \<open>The queue\<close>

lemma load_rows_fst: "fst (load_rows c now fresh rows db) = List.map_filter (load_row c) rows"
  by (induction rows arbitrary: db) (auto simp: map_filter_simps split: option.splits)

lemma load_rows_ok: "\<forall>r \<in> set rows. load_row c r \<noteq> None \<Longrightarrow> snd (load_rows c now fresh rows db) = db"
  by (induction rows arbitrary: db) (auto split: option.splits)

lemma load_rows_quarantine:
  "map qr_source_key (t_quarantine (snd (load_rows c now fresh rows db)))
     = map qr_source_key (t_quarantine db) @ map it_task_id (filter (\<lambda>r. load_row c r = None) rows)"
  by (induction rows arbitrary: db)
    (auto simp: reject_corrupt_def quarantine_in_transaction_def Let_def split: option.splits)

lemma reject_corrupt_state:
  "task_state_of (reject_corrupt c now qid row db) t
     = map_option (\<lambda>s. if s = Queued \<and> t = it_task_id row then Rejected else s) (task_state_of db t)"
  by (cases "find (\<lambda>r. it_task_id r = t) (t_inbox db)")
    (auto simp: task_state_of_def reject_corrupt_def Let_def dest: find_SomeD)

lemma load_rows_state:
  "task_state_of (snd (load_rows c now fresh rows db)) t
     = map_option (\<lambda>s. if s = Queued \<and> t \<in> it_task_id ` {r \<in> set rows. load_row c r = None}
                       then Rejected else s) (task_state_of db t)"
proof (induction rows arbitrary: db)
  case Nil
  then show ?case by (simp add: option.map_ident)
next
  case (Cons row rows)
  show ?case
  proof (cases "load_row c row")
    case None
    then have "load_rows c now fresh (row # rows) db
      = load_rows c now fresh rows (reject_corrupt c now (fresh (it_task_id row)) row db)" by simp
    moreover have "it_task_id ` {r \<in> set (row # rows). load_row c r = None}
      = insert (it_task_id row) (it_task_id ` {r \<in> set rows. load_row c r = None})" using None by auto
    ultimately show ?thesis
      by (simp add: Cons.IH reject_corrupt_state option.map_comp o_def) (auto intro: option.map_cong)
  next
    case (Some task)
    then have "it_task_id ` {r \<in> set (row # rows). load_row c r = None}
      = it_task_id ` {r \<in> set rows. load_row c r = None}" by auto
    with Some show ?thesis by (simp add: Cons.IH)
  qed
qed

text \<open>Reading the queue: the tasks returned are exactly the decodable ones among the first
  \<open>limit\<close> queued rows in order of reception; every undecodable one (bad JSON, checksum mismatch or
  invalid model) is quarantined once and moved to \<open>REJECTED\<close>, and no other task changes state.\<close>

theorem queued_tasks_spec:
  "fst (queued_tasks c now fresh limit db) = List.map_filter (load_row c) (queued_rows limit db)
   \<and> map qr_source_key (t_quarantine (snd (queued_tasks c now fresh limit db)))
       = map qr_source_key (t_quarantine db)
           @ map it_task_id (filter (\<lambda>r. load_row c r = None) (queued_rows limit db))
   \<and> task_state_of (snd (queued_tasks c now fresh limit db)) t
       = map_option (\<lambda>s. if s = Queued \<and> t \<in> it_task_id ` {r \<in> set (queued_rows limit db). load_row c r = None}
                         then Rejected else s) (task_state_of db t)"
  by (simp add: queued_tasks_def load_rows_fst load_rows_quarantine load_rows_state)

text \<open>What is ingested is what the scheduler reads: when the JSON loader and the validation give
  back the envelope that was encoded, a newly ingested task is returned by the next read of the queue
  that is long enough, unchanged.\<close>

theorem ingested_task_is_read_back:
  assumes "task_reachable c db"
    and "find (\<lambda>r. it_task_id r = lt_task_id task) (t_inbox db) = None"
    and "find (\<lambda>e. ie_key e = lt_idempotency_key task) (t_effects db) = None"
    and "json_loads c (canonical_json (envelope_json c task)) = Some payload"
    and "canonical_json payload = canonical_json (envelope_json c task)"
    and "validate_task c payload = Some task"
    and "length (t_inbox db) < nat limit"
  shows "task \<in> set (fst (queued_tasks c now' fresh limit (snd (ingest_task c now qid task db))))"
proof -
  have wf: "task_wf db" by (rule task_reachable_wf [OF assms(1)])
  let ?row = "queued_row c now task"
  let ?db = "snd (ingest_task c now qid task db)"
  have db: "t_inbox ?db = t_inbox db @ [?row]" by (simp add: ingest_new [OF wf assms(2,3)])
  let ?q = "filter (\<lambda>r. it_state r = Queued) (t_inbox ?db)"
  have "length ?q \<le> length (t_inbox ?db)" by (rule length_filter_le)
  then have "length ?q \<le> nat limit" using assms(7) db by simp
  then have "queued_rows limit ?db = sort_key it_received_at ?q"
    using assms(7) by (simp add: queued_rows_def limit_rows_def)
  moreover have "?row \<in> set ?q" by (simp add: db queued_row_def inbox_row_def)
  ultimately have "?row \<in> set (queued_rows limit ?db)" by (simp only: set_sort)
  moreover have "load_row c ?row = Some task"
    using assms(4-6) by (simp add: load_row_def queued_row_def inbox_row_def digest_def)
  ultimately show ?thesis
    unfolding queued_tasks_def load_rows_fst by (force simp: List.map_filter_def)
qed

lemma ingested_task_is_read_back_witness:
  "demo_task \<in> set (fst (queued_tasks demo_codec ''n2'' id 5
     (snd (ingest_task demo_codec ''n1'' ''q1'' demo_task empty_store))))"
proof (rule ingested_task_is_read_back)
  show "task_reachable demo_codec empty_store" by (simp add: task_reachable_def)
  show "json_loads demo_codec (canonical_json (envelope_json demo_codec demo_task))
      = Some (envelope_json demo_codec demo_task)"
    by (simp add: demo_codec_def Let_def envelope_json_def)
  show "validate_task demo_codec (envelope_json demo_codec demo_task) = Some demo_task"
    by (simp add: demo_codec_def Let_def envelope_json_def)
qed (simp_all add: empty_store_def)

end
