(* ===== verification/Task_Refinement.thy ===== *)
theory Task_Refinement
  imports Task_Properties
begin

text \<open>
  What the task store promises, as a specification: a ledger that knows for every idempotency key
  whether its effect is waiting, being executed or ended.  The four tables, their rows and the
  compare-and-set updates are gone; a key is accepted once, started at most once, and ends for
  good.  The store refines the ledger step by step through the abstraction \<open>ledger\<close>.
\<close>

section \<open>The ledger\<close>

datatype phase = Waiting | Executing | Ended bool task_state

definition live :: "bool \<Rightarrow> phase" where
  "live started = (if started then Executing else Waiting)"

type_synonym ledger_state = "uuid \<Rightarrow> phase option"

text \<open>A key that was never started ends as \<open>Ended False s\<close>.  A restart or a corrupt queue can end several
  keys at once; a step that ends none is a step of the store that the ledger does not see.\<close>

inductive ledger_step :: "ledger_state \<Rightarrow> ledger_state \<Rightarrow> bool" where
  accept: "L k = None \<Longrightarrow> ledger_step L (L(k \<mapsto> Waiting))"
| start: "L k = Some Waiting \<Longrightarrow> ledger_step L (L(k \<mapsto> Executing))"
| finish: "(\<And>k. L' k = L k \<or> (\<exists>started s. L k = Some (live started) \<and> s \<in> TERMINAL_STATES
      \<and> L' k = Some (Ended started s))) \<Longrightarrow> ledger_step L L'"

section \<open>The abstraction\<close>

definition phase_of :: "bool \<Rightarrow> task_state \<Rightarrow> phase" where
  "phase_of claimed s = (if s \<in> TERMINAL_STATES then Ended claimed s else live claimed)"

definition ledger :: "store \<Rightarrow> ledger_state" where
  "ledger db k =
     (case find (\<lambda>e. ie_key e = k) (t_effects db) of
        None \<Rightarrow> None
      | Some e \<Rightarrow> map_option (phase_of (ie_claimed_at e \<noteq> None)) (task_state_of db (ie_canonical e)))"

lemma step_states:
  assumes "task_step c db db'" and "task_wf db" and "task_state_of db t = Some a"
  obtains b where "task_state_of db' t = Some b" "b = a \<or> a \<notin> TERMINAL_STATES"
proof -
  obtain r where r: "find (\<lambda>r. it_task_id r = t) (t_inbox db) = Some r" "it_state r = a"
    using assms(3) by (auto simp: task_state_of_def)
  obtain s where s: "find (\<lambda>r. it_task_id r = t) (t_inbox db') = Some s" "row_advances r s"
    by (rule grow_find_task [OF task_step_grows [OF assms(1,2)] task_step_wf [OF assms(1,2)] r(1)])
  then have "it_state s = a \<or> a \<notin> TERMINAL_STATES"
    using r(2) row_advances_terminal by blast
  then show ?thesis using that s(1) by (auto simp: task_state_of_def)
qed

lemma canonical_state:
  assumes "task_wf db" and "e \<in> set (t_effects db)"
  obtains a where "task_state_of db (ie_canonical e) = Some a"
proof -
  have "effect_wf db e" using assms by (simp add: task_wf_def)
  then obtain r where "r \<in> set (t_inbox db)" "it_task_id r = ie_canonical e" by (auto simp: effect_wf_def)
  then have "find (\<lambda>r. it_task_id r = ie_canonical e) (t_inbox db) = Some r"
    using find_task_iff [OF assms(1)] by simp
  then show ?thesis using that by (simp add: task_state_of_def)
qed

lemma find_map_kept:
  assumes "\<And>e. ie_key (g e) = ie_key e"
  shows "find (\<lambda>e. ie_key e = k) (map g es) = map_option g (find (\<lambda>e. ie_key e = k) es)"
  using assms by (induction es) auto

text \<open>A step that neither accepts nor claims is a \<open>finish\<close> of the ledger.\<close>

lemma ledger_finish:
  assumes "task_step c db db'" and "task_wf db"
    and "t_effects db' = map g (t_effects db)" and "\<And>e. effect_kept e (g e)"
  shows "ledger_step (ledger db) (ledger db')"
proof (rule ledger_step.finish)
  fix k
  have found: "find (\<lambda>e. ie_key e = k) (t_effects db') = map_option g (find (\<lambda>e. ie_key e = k) (t_effects db))"
    unfolding assms(3) by (rule find_map_kept) (use assms(4) in \<open>simp add: effect_kept_def\<close>)
  show "ledger db' k = ledger db k \<or> (\<exists>started s. ledger db k = Some (live started)
      \<and> s \<in> TERMINAL_STATES \<and> ledger db' k = Some (Ended started s))"
  proof (cases "find (\<lambda>e. ie_key e = k) (t_effects db)")
    case None
    then show ?thesis using found by (simp add: ledger_def)
  next
    case (Some e)
    then have "e \<in> set (t_effects db)" by (auto dest: find_SomeD)
    then obtain a where a: "task_state_of db (ie_canonical e) = Some a" by (rule canonical_state [OF assms(2)])
    obtain b where b: "task_state_of db' (ie_canonical e) = Some b" "b = a \<or> a \<notin> TERMINAL_STATES"
      by (rule step_states [OF assms(1,2) a])
    have "ledger db k = Some (phase_of (ie_claimed_at e \<noteq> None) a)"
      "ledger db' k = Some (phase_of (ie_claimed_at e \<noteq> None) b)"
      using Some a b(1) found assms(4) [of e] by (simp_all add: ledger_def effect_kept_def)
    then show ?thesis using b(2) by (auto simp: phase_of_def)
  qed
qed

lemma ledger_unseen:
  assumes "task_step c db db'" and "task_wf db" and "t_effects db' = t_effects db"
  shows "ledger_step (ledger db) (ledger db')"
  by (rule ledger_finish [OF assms(1,2), of id]) (simp_all add: assms(3))

section \<open>The simulation\<close>

lemma load_rows_effects [simp]: "t_effects (snd (load_rows c now fresh rows db)) = t_effects db"
  by (induction rows arbitrary: db) (auto simp: reject_corrupt_def Let_def split: option.splits)

lemma set_task_state_effects [simp]: "t_effects (set_task_state now t a b db) = t_effects db"
  by (simp add: set_task_state_def)

lemma ledger_accepts:
  assumes "task_wf db"
  shows "ledger_step (ledger db) (ledger (snd (ingest_task c now qid task db)))"
proof -
  let ?new = "snd (ingest_task c now qid task db)"
  have step: "task_step c db ?new" by (rule task_step.ingest)
  show ?thesis
  proof (cases "find (\<lambda>r. it_task_id r = lt_task_id task) (t_inbox db)")
    case (Some r)
    then show ?thesis by (intro ledger_unseen [OF step assms]) (simp add: ingest_known_task)
  next
    case none: None
    show ?thesis
    proof (cases "find (\<lambda>e. ie_key e = lt_idempotency_key task) (t_effects db)")
      case (Some e)
      then show ?thesis by (intro ledger_unseen [OF step assms]) (simp add: ingest_known_effect [OF assms none])
    next
      case None
      let ?k = "lt_idempotency_key task"
      have new: "?new = db\<lparr>t_inbox := t_inbox db @ [queued_row c now task],
          t_effects := t_effects db @ [effect_row c now task]\<rparr>"
        by (simp add: ingest_new [OF assms none None])
      have "ledger ?new = (ledger db)(?k \<mapsto> Waiting)"
      proof
        fix k
        show "ledger ?new k = ((ledger db)(?k \<mapsto> Waiting)) k"
        proof (cases "find (\<lambda>e. ie_key e = k) (t_effects db)")
          case old: (Some e)
          then have "e \<in> set (t_effects db)" by (auto dest: find_SomeD)
          then obtain a where "task_state_of db (ie_canonical e) = Some a" by (rule canonical_state [OF assms])
          moreover from this have "task_state_of ?new (ie_canonical e) = Some a"
            by (auto simp: new task_state_of_def find_append)
          moreover have "k \<noteq> ?k" using old None by auto
          ultimately show ?thesis using old by (simp add: ledger_def new find_append)
        next
          case no: None
          have "task_state_of ?new (lt_task_id task) = Some Queued"
            using none by (simp add: new task_state_of_def find_append queued_row_def inbox_row_def)
          then show ?thesis
            using no by (auto simp: ledger_def new find_append effect_row_def phase_of_def live_def
              TERMINAL_STATES_def PRE_EXECUTION_TERMINAL_def EXECUTION_TERMINAL_def)
        qed
      qed
      moreover have "ledger db ?k = None" using None by (simp add: ledger_def)
      ultimately show ?thesis by (metis ledger_step.accept)
    qed
  qed
qed

lemma ledger_starts:
  assumes "task_wf db"
  shows "ledger_step (ledger db) (ledger (snd (claim_task now aid t db)))"
proof (cases "claim_task now aid t db")
  case (Pair res db')
  from Pair show ?thesis
  proof (cases rule: claim_task_cases)
    case claimed
    with Pair have "claim_task now aid t db = (Inr (Some aid), db')" by simp
    then obtain row where row: "find (\<lambda>r. it_task_id r = t) (t_inbox db) = Some row" "it_state row = Queued"
      and db': "db' = claimed_store now aid t (it_key row) db"
      by (rule claim_task_result)
    have r: "row \<in> set (t_inbox db)" "it_task_id row = t" using row(1) by (auto dest: find_SomeD)
    have canonical: "it_canonical row = None"
      using task_wf_active_canonical [OF assms r(1)] row(2) by (simp add: PRE_EXECUTION_TERMINAL_def)
    obtain e where e: "e \<in> set (t_effects db)" "ie_key e = it_key row" "ie_canonical e = t"
      using task_wf_canonical_effect [OF assms r(1) canonical] r(2) by metis
    have found: "find (\<lambda>e. ie_key e = it_key row) (t_effects db) = Some e"
      using find_effect_iff [OF assms] e(1,2) by simp
    have "effect_wf db e" using assms e(1) by (simp add: task_wf_def)
    then have free: "ie_claimed_at e = None"
      using queued_unclaimed(1) [OF assms r(1) row(2)] e(3) r(2) by (auto simp: effect_wf_def)
    let ?P = "\<lambda>e. ie_key e = it_key row \<and> ie_claimed_at e = None"
    let ?g = "\<lambda>e. if ?P e then e\<lparr>ie_claimed_at := Some now, ie_updated_at := now\<rparr> else e"
    have effects: "t_effects db' = map ?g (t_effects db)" by (simp add: db' claimed_store_def upd_where_def)
    have states: "task_state_of db' u = (if u = t then Some Preparing else task_state_of db u)" for u
      using row set_task_state_of [of now t Queued Preparing db u]
      by (simp add: db' task_state_of_def claimed_store_def set_task_state_def)
    have "ledger db' = (ledger db)(it_key row \<mapsto> Executing)"
    proof
      fix k
      have fk: "find (\<lambda>e. ie_key e = k) (t_effects db') = map_option ?g (find (\<lambda>e. ie_key e = k) (t_effects db))"
        unfolding effects by (rule find_map_kept) simp
      show "ledger db' k = ((ledger db)(it_key row \<mapsto> Executing)) k"
      proof (cases "k = it_key row")
        case True
        then show ?thesis
          using fk found e(2,3) free by (simp add: ledger_def states phase_of_def live_def
            TERMINAL_STATES_def PRE_EXECUTION_TERMINAL_def EXECUTION_TERMINAL_def)
      next
        case other: False
        show ?thesis
        proof (cases "find (\<lambda>e. ie_key e = k) (t_effects db)")
          case None
          then show ?thesis using fk other by (simp add: ledger_def)
        next
          case (Some f)
          then have f: "f \<in> set (t_effects db)" "ie_key f = k" by (auto dest: find_SomeD)
          then have "ie_canonical f \<noteq> t"
            using distinct_key_inj [OF task_wf_keys(3) [OF assms] f(1) e(1)] e(2,3) other by auto
          then show ?thesis using fk Some f(2) other by (simp add: ledger_def states)
        qed
      qed
    qed
    moreover have "ledger db (it_key row) = Some Waiting"
      using found free e(3) row by (simp add: ledger_def task_state_of_def phase_of_def live_def
        TERMINAL_STATES_def PRE_EXECUTION_TERMINAL_def EXECUTION_TERMINAL_def)
    ultimately show ?thesis using Pair by (simp add: ledger_step.start)
  qed (use Pair in \<open>auto intro: ledger_step.finish\<close>)
qed

lemma ledger_result:
  assumes "task_step c db (snd (finish_with_result c now rk t a b payload db))" and "task_wf db"
  shows "ledger_step (ledger db) (ledger (snd (finish_with_result c now rk t a b payload db)))"
proof (cases "finish_with_result c now rk t a b payload db")
  case (Pair res db')
  show ?thesis
  proof (cases res)
    case (Inl e)
    with Pair have "db' = db" by (auto dest: finish_with_result_error)
    with Pair show ?thesis by (auto intro: ledger_step.finish)
  next
    case (Inr u)
    with Pair have "finish_with_result c now rk t a b payload db = (Inr u, db')" by simp
    then obtain k rid where db': "db' = finished_store c now rk t k rid a b payload db"
      using finish_with_result_ok [OF assms(2)] by metis
    show ?thesis
      by (rule ledger_finish [OF assms, of "\<lambda>e. if ie_key e = k then e\<lparr>ie_terminal_state := Some (state_value b),
            ie_result_id := Some rid, ie_updated_at := now\<rparr> else e"])
        (simp_all add: Pair db' finished_store_def upd_where_def effect_kept_def)
  qed
qed

lemma recover_effects: "t_effects (snd (recover_interrupted now db)) = t_effects db"
  by (simp add: recover_interrupted_def Let_def)

lemma transition_effects: "t_effects (snd (transition now t a b db)) = t_effects db"
  by (simp add: transition_def split: sum.split)

lemma ledger_simulation:
  assumes "task_step c db db'" and "task_wf db"
  shows "ledger_step (ledger db) (ledger db')"
  using assms(1)
proof (cases rule: task_step.cases)
  case (ingest now qid task)
  then show ?thesis using ledger_accepts [OF assms(2)] by simp
next
  case (claim now aid t)
  then show ?thesis using ledger_starts [OF assms(2)] by simp
next
  case (finish target now rk t payload)
  then show ?thesis using ledger_result [of c db now rk t Cleaning_Up target payload] assms by simp
qed (rule ledger_unseen [OF assms], simp add: queued_tasks_def recover_effects transition_effects)+

text \<open>C33: the store refines the ledger: it starts as the empty ledger, and every operation on the task
  tables, in every reachable database, is a step of the ledger or leaves it as it is.  So the tables
  promise what the ledger shows: a key is accepted once, started at most once and only after it was
  accepted, and an ended key never changes again.\<close>

theorem store_refines_ledger:
  assumes "(task_step c)\<^sup>*\<^sup>* empty_store db"
  shows "ledger empty_store = Map.empty \<and> ledger_step\<^sup>*\<^sup>* Map.empty (ledger db)
    \<and> (\<forall>db'. task_step c db db' \<longrightarrow> ledger_step (ledger db) (ledger db'))"
proof (intro conjI allI impI)
  show empty: "ledger empty_store = Map.empty" by (simp add: ledger_def empty_store_def fun_eq_iff)
  show "ledger_step\<^sup>*\<^sup>* Map.empty (ledger db)"
    using assms
  proof (induction rule: rtranclp_induct)
    case base
    then show ?case by (simp add: empty)
  next
    case (step y z)
    then show ?case
      by (meson ledger_simulation rtranclp.rtrancl_into_rtrancl task_steps_wf task_wf_empty)
  qed
  fix db' assume "task_step c db db'"
  then show "ledger_step (ledger db) (ledger db')"
    by (rule ledger_simulation) (rule task_steps_wf [OF assms task_wf_empty])
qed

text \<open>In the ledger the promise is immediate.\<close>

lemma ledger_ended_final: "ledger_step L L' \<Longrightarrow> L k = Some (Ended st s) \<Longrightarrow> L' k = Some (Ended st s)"
proof (induction rule: ledger_step.induct)
  case (finish L' L)
  then show ?case using finish.hyps [of k] by (auto simp: live_def split: if_splits)
qed auto

lemma ledger_executing_stays:
  "ledger_step L L' \<Longrightarrow> L k = Some Executing \<Longrightarrow> L' k = Some Executing \<or> (\<exists>s. L' k = Some (Ended True s))"
proof (induction rule: ledger_step.induct)
  case (finish L' L)
  then show ?case using finish.hyps [of k] by (auto simp: live_def split: if_splits)
qed auto

lemma store_refines_ledger_witness:
  "ledger_step\<^sup>*\<^sup>* Map.empty (ledger demo_queued)
    \<and> ledger_step (ledger demo_queued) (ledger (snd (claim_task ''n2'' ''a1'' ''t1'' demo_queued)))"
proof -
  have reach: "(task_step demo_codec)\<^sup>*\<^sup>* empty_store demo_queued"
    using demo_reachable(1) by (simp add: task_reachable_def)
  show ?thesis
    using store_refines_ledger [OF reach] task_step.claim [of demo_codec demo_queued "''n2''" "''a1''" "''t1''"]
    by blast
qed

end
