(* ===== verification/Json_Loads.thy ===== *)
theory Json_Loads
  imports Canonical_Json
begin

text \<open>
  \<open>json.loads\<close> of the standard library as the code uses it: the text is UTF-8, a number with a
  fraction or an exponent is a float and \<open>norm\<close> gives its \<open>repr\<close>, a repeated member keeps its first
  place and its last value, and a text that is not one JSON document with white space around it is
  refused (\<open>JSONDecodeError\<close>, here \<open>None\<close>).  The parser is given the length of the text as fuel;
  the round trip with the canonical rendering shows that this is enough for every document the
  code stores.  The limit of the interpreter on the digits of an integer is not modelled.
\<close>

section \<open>Strings\<close>

definition hex_value :: "char \<Rightarrow> nat option" where
  "hex_value c =
     (let n = of_char c in
      if 48 \<le> n \<and> n \<le> 57 then Some (n - 48)
      else if 97 \<le> n \<and> n \<le> 102 then Some (n - 87)
      else if 65 \<le> n \<and> n \<le> 70 then Some (n - 55)
      else None)"

fun decode_u :: "string \<Rightarrow> (nat \<times> string) option" where
  "decode_u (a # b # c # d # s) =
     (case (hex_value a, hex_value b, hex_value c, hex_value d) of
        (Some w, Some x, Some y, Some z) \<Rightarrow> Some (((w * 16 + x) * 16 + y) * 16 + z, s)
      | _ \<Rightarrow> None)"
| "decode_u _ = None"

definition utf8 :: "nat \<Rightarrow> string" where
  "utf8 n =
     (if n < 128 then [char_of n]
      else if n < 2048 then [char_of (192 + n div 64), char_of (128 + n mod 64)]
      else if n < 65536 then [char_of (224 + n div 4096), char_of (128 + n div 64 mod 64), char_of (128 + n mod 64)]
      else [char_of (240 + n div 262144), char_of (128 + n div 4096 mod 64), char_of (128 + n div 64 mod 64),
            char_of (128 + n mod 64)])"

text \<open>The character after a backslash and a \<open>u\<close>, with the second half of a surrogate pair.\<close>

definition decode_unicode :: "string \<Rightarrow> (string \<times> string) option" where
  "decode_unicode s =
     (case decode_u s of
        None \<Rightarrow> None
      | Some (n, s1) \<Rightarrow>
          if 55296 \<le> n \<and> n \<le> 56319
          then (case s1 of
                  CHR 0x5C # CHR ''u'' # s2 \<Rightarrow>
                    (case decode_u s2 of
                       None \<Rightarrow> None
                     | Some (m, s3) \<Rightarrow>
                         if 56320 \<le> m \<and> m \<le> 57343
                         then Some (utf8 (65536 + (n - 55296) * 1024 + (m - 56320)), s3)
                         else Some (utf8 n, s1))
                | _ \<Rightarrow> Some (utf8 n, s1))
          else Some (utf8 n, s1))"

definition simple_escape :: "char \<Rightarrow> char option" where
  "simple_escape c =
     (if c = CHR 0x22 \<or> c = CHR 0x5C \<or> c = CHR ''/'' then Some c
      else if c = CHR ''b'' then Some (CHR 0x08)
      else if c = CHR ''f'' then Some (CHR 0x0C)
      else if c = CHR ''n'' then Some (CHR 0x0A)
      else if c = CHR ''r'' then Some (CHR 0x0D)
      else if c = CHR ''t'' then Some (CHR 0x09)
      else None)"

fun scan_string :: "nat \<Rightarrow> string \<Rightarrow> (string \<times> string) option" where
  "scan_string 0 s = None"
| "scan_string (Suc n) [] = None"
| "scan_string (Suc n) (c # s) =
     (if c = CHR 0x22 then Some ([], s)
      else if c = CHR 0x5C
      then (case s of
              [] \<Rightarrow> None
            | e # s1 \<Rightarrow>
                if e = CHR ''u''
                then (case decode_unicode s1 of
                        None \<Rightarrow> None
                      | Some (t, s2) \<Rightarrow> map_option (map_prod ((@) t) id) (scan_string n s2))
                else (case simple_escape e of
                        None \<Rightarrow> None
                      | Some d \<Rightarrow> map_option (map_prod (Cons d) id) (scan_string n s1)))
      else if of_char c < (32 :: nat) then None
      else map_option (map_prod (Cons c) id) (scan_string n s))"

section \<open>Numbers\<close>

definition is_digit :: "char \<Rightarrow> bool" where
  "is_digit c \<longleftrightarrow> 48 \<le> (of_char c :: nat) \<and> (of_char c :: nat) \<le> 57"

definition digits_value :: "string \<Rightarrow> nat" where
  "digits_value ds = foldl (\<lambda>n c. n * 10 + (of_char c - 48)) 0 ds"

definition scan_fraction :: "string \<Rightarrow> string \<times> string" where
  "scan_fraction s =
     (case s of
        CHR ''.'' # s1 \<Rightarrow>
          if takeWhile is_digit s1 = [] then ([], s) else (CHR ''.'' # takeWhile is_digit s1, dropWhile is_digit s1)
      | _ \<Rightarrow> ([], s))"

definition scan_exponent :: "string \<Rightarrow> string \<times> string" where
  "scan_exponent s =
     (case s of
        [] \<Rightarrow> ([], s)
      | e # s1 \<Rightarrow>
          if e \<noteq> CHR ''e'' \<and> e \<noteq> CHR ''E'' then ([], s)
          else (let (sign, s2) = (case s1 of
                       [] \<Rightarrow> ([], s1) | g # t \<Rightarrow> if g = CHR ''+'' \<or> g = CHR ''-'' then ([g], t) else ([], s1))
                in if takeWhile is_digit s2 = [] then ([], s)
                   else (e # sign @ takeWhile is_digit s2, dropWhile is_digit s2)))"

definition scan_number :: "(string \<Rightarrow> string) \<Rightarrow> string \<Rightarrow> (json \<times> string) option" where
  "scan_number norm s =
     (let (neg, s1) = (case s of CHR ''-'' # t \<Rightarrow> (True, t) | _ \<Rightarrow> (False, s));
          ds = (case s1 of CHR ''0'' # _ \<Rightarrow> ''0'' | _ \<Rightarrow> takeWhile is_digit s1);
          s2 = drop (length ds) s1
      in if ds = [] then None
         else (let (frac, s3) = scan_fraction s2; (ex, s4) = scan_exponent s3;
                   sign = (if neg then ''-'' else [])
               in if frac = [] \<and> ex = []
                  then Some (JInt (if neg then - int (digits_value ds) else int (digits_value ds)), s4)
                  else Some (JFloat (norm (sign @ ds @ frac @ ex)), s4)))"

section \<open>Documents\<close>

definition is_space :: "char \<Rightarrow> bool" where
  "is_space c \<longleftrightarrow> c = CHR '' '' \<or> c = CHR 0x09 \<or> c = CHR 0x0A \<or> c = CHR 0x0D"

definition skip_space :: "string \<Rightarrow> string" where
  "skip_space s = dropWhile is_space s"

definition strip_prefix :: "string \<Rightarrow> string \<Rightarrow> string option" where
  "strip_prefix p s = (if take (length p) s = p then Some (drop (length p) s) else None)"

text \<open>A Python dict: assignment to a key replaces the value in place or appends the member.\<close>

definition dict_set :: "(string \<times> json) list \<Rightarrow> string \<times> json \<Rightarrow> (string \<times> json) list" where
  "dict_set entry kv =
     (if fst kv \<in> fst ` set entry then map (\<lambda>(k, v). if k = fst kv then (k, snd kv) else (k, v)) entry
      else entry @ [kv])"

definition dict_of :: "(string \<times> json) list \<Rightarrow> (string \<times> json) list" where
  "dict_of pairs = foldl dict_set [] pairs"

fun scan_value :: "(string \<Rightarrow> string) \<Rightarrow> nat \<Rightarrow> string \<Rightarrow> (json \<times> string) option"
  and scan_items :: "(string \<Rightarrow> string) \<Rightarrow> nat \<Rightarrow> string \<Rightarrow> (json list \<times> string) option"
  and scan_members :: "(string \<Rightarrow> string) \<Rightarrow> nat \<Rightarrow> string \<Rightarrow> ((string \<times> json) list \<times> string) option" where
  "scan_value norm 0 s = None"
| "scan_value norm (Suc n) s =
     (case s of
        [] \<Rightarrow> None
      | c # s1 \<Rightarrow>
          if c = CHR 0x22 then map_option (map_prod JStr id) (scan_string (length s) s1)
          else if c = CHR ''{''
          then (case skip_space s1 of
                  [] \<Rightarrow> None
                | d # s2 \<Rightarrow> if d = CHR ''}'' then Some (JObj [], s2)
                             else map_option (map_prod (\<lambda>m. JObj (dict_of m)) id) (scan_members norm n (d # s2)))
          else if c = CHR ''[''
          then (case skip_space s1 of
                  [] \<Rightarrow> None
                | d # s2 \<Rightarrow> if d = CHR '']'' then Some (JArr [], s2)
                             else map_option (map_prod JArr id) (scan_items norm n (d # s2)))
          else (case (strip_prefix ''null'' s, strip_prefix ''true'' s, strip_prefix ''false'' s,
                      strip_prefix ''NaN'' s, strip_prefix ''Infinity'' s, strip_prefix ''-Infinity'' s) of
                  (Some r, _) \<Rightarrow> Some (JNull, r)
                | (_, Some r, _) \<Rightarrow> Some (JBool True, r)
                | (_, _, Some r, _) \<Rightarrow> Some (JBool False, r)
                | (_, _, _, Some r, _) \<Rightarrow> Some (JFloat ''NaN'', r)
                | (_, _, _, _, Some r, _) \<Rightarrow> Some (JFloat ''Infinity'', r)
                | (_, _, _, _, _, Some r) \<Rightarrow> Some (JFloat ''-Infinity'', r)
                | _ \<Rightarrow> scan_number norm s))"
| "scan_items norm 0 s = None"
| "scan_items norm (Suc n) s =
     (case scan_value norm n s of
        None \<Rightarrow> None
      | Some (v, s1) \<Rightarrow>
          (case skip_space s1 of
             [] \<Rightarrow> None
           | c # s2 \<Rightarrow>
               if c = CHR '']'' then Some ([v], s2)
               else if c = CHR '','' then map_option (map_prod (Cons v) id) (scan_items norm n (skip_space s2))
               else None))"
| "scan_members norm 0 s = None"
| "scan_members norm (Suc n) s =
     (case s of
        [] \<Rightarrow> None
      | q # s1 \<Rightarrow>
          if q \<noteq> CHR 0x22 then None
          else (case scan_string (length s) s1 of
                  None \<Rightarrow> None
                | Some (k, s2) \<Rightarrow>
                    (case skip_space s2 of
                       [] \<Rightarrow> None
                     | c # s3 \<Rightarrow>
                         if c \<noteq> CHR '':'' then None
                         else (case scan_value norm n (skip_space s3) of
                                 None \<Rightarrow> None
                               | Some (v, s4) \<Rightarrow>
                                   (case skip_space s4 of
                                      [] \<Rightarrow> None
                                    | d # s5 \<Rightarrow>
                                        if d = CHR ''}'' then Some ([(k, v)], s5)
                                        else if d = CHR '',''
                                        then map_option (map_prod (Cons (k, v)) id) (scan_members norm n (skip_space s5))
                                        else None)))))"

definition loads :: "(string \<Rightarrow> string) \<Rightarrow> string \<Rightarrow> json option" where
  "loads norm s =
     (case scan_value norm (2 * length s + 2) (skip_space s) of
        None \<Rightarrow> None
      | Some (v, rest) \<Rightarrow> if skip_space rest = [] then Some v else None)"

section \<open>Strings and integers are read back\<close>

lemma hex_value_digit: "n < 16 \<Longrightarrow> hex_value (hex_digit n) = Some n"
  by (auto simp: hex_value_def hex_digit_def Let_def)

lemma decode_control:
  assumes "of_char c < (32 :: nat)"
  shows "decode_unicode (CHR ''0'' # CHR ''0'' # hex_digit (of_char c div 16) # hex_digit (of_char c mod 16) # s)
    = Some ([c], s)"
proof -
  let ?n = "of_char c :: nat"
  have n: "?n div 16 < 16" "?n mod 16 < 16" "?n < 128" using assms by auto
  have zero: "hex_value (CHR ''0'') = Some 0" by (simp add: hex_value_def Let_def)
  have "decode_u (CHR ''0'' # CHR ''0'' # hex_digit (?n div 16) # hex_digit (?n mod 16) # s) = Some (?n, s)"
    using hex_value_digit [OF n(1)] hex_value_digit [OF n(2)] zero by simp
  with n(3) show ?thesis by (simp add: decode_unicode_def utf8_def)
qed

lemma scan_escaped:
  "length s < n \<Longrightarrow> scan_string n (concat (map escape_char s) @ CHR 0x22 # rest) = Some (s, rest)"
proof (induction s arbitrary: n)
  case Nil
  then show ?case by (cases n) auto
next
  case (Cons c s)
  then obtain m where n: "n = Suc m" and m: "length s < m" by (cases n) auto
  note ih = Cons.IH [OF m]
  show ?case
  proof (cases "of_char c < (32 :: nat) \<and> c \<notin> {CHR 0x0A, CHR 0x0D, CHR 0x09, CHR 0x0C, CHR 0x08}")
    case True
    have low: "of_char c < (32 :: nat)" using True by (rule conjunct1)
    have "c \<noteq> CHR 0x22"
    proof
      assume "c = CHR 0x22"
      with low show False by simp
    qed
    moreover have "c \<noteq> CHR 0x5C"
    proof
      assume "c = CHR 0x5C"
      with low show False by simp
    qed
    ultimately have "escape_char c = [CHR 0x5C, CHR ''u'', CHR ''0'', CHR ''0'',
              hex_digit (of_char c div 16), hex_digit (of_char c mod 16)]"
      using True by (simp add: escape_char_def)
    then show ?thesis using ih decode_control [OF low] by (simp add: n)
  next
    case False
    consider d where "escape_char c = [CHR 0x5C, d]" "simple_escape d = Some c" "d \<noteq> CHR ''u''"
      | "escape_char c = [c]" "c \<noteq> CHR 0x22" "c \<noteq> CHR 0x5C" "\<not> of_char c < (32 :: nat)"
    proof (cases "c \<in> {CHR 0x22, CHR 0x5C, CHR 0x0A, CHR 0x0D, CHR 0x09, CHR 0x0C, CHR 0x08}")
      case True
      then have "escape_char c = [CHR 0x5C, hd (tl (escape_char c))] \<and> simple_escape (hd (tl (escape_char c))) = Some c
        \<and> hd (tl (escape_char c)) \<noteq> CHR ''u''"
        by (elim insertE emptyE) (simp_all add: escape_char_def simple_escape_def)
      with that(1) show ?thesis by blast
    next
      case other: False
      with False have "\<not> of_char c < (32 :: nat)" by blast
      with other that(2) show ?thesis by (simp add: escape_char_def)
    qed
    then show ?thesis
    proof cases
      case 1
      then show ?thesis using ih by (simp add: n)
    next
      case 2
      then show ?thesis using ih by (simp add: n)
    qed
  qed
qed

lemma is_digit_char: "d < (10 :: nat) \<Longrightarrow> is_digit (char_of (48 + d))"
  by (simp add: is_digit_def)

lemma digits_text_shape: "digits_text n \<noteq> [] \<and> (\<forall>c \<in> set (digits_text n). is_digit c)
    \<and> digits_value (digits_text n) = n \<and> (hd (digits_text n) = CHR ''0'' \<longrightarrow> n = 0)"
proof (induction n rule: less_induct)
  case (less n)
  show ?case
  proof (cases "n < 10")
    case True
    have "char_of (48 + n) = CHR ''0'' \<Longrightarrow> n = 0"
    proof -
      assume "char_of (48 + n) = CHR ''0''"
      then have "of_char (char_of (48 + n) :: char) = (48 :: nat)" by simp
      with True show "n = 0" by simp
    qed
    with True show ?thesis
      using is_digit_char [OF True] by (simp add: digits_text.simps [of n] digits_value_def)
  next
    case False
    then have lt: "n div 10 < n" by simp
    have eq: "digits_text n = digits_text (n div 10) @ [char_of (48 + n mod 10)]"
      using False by (simp add: digits_text.simps [of n])
    note ih = less.IH [OF lt]
    from ih obtain h t where ht: "digits_text (n div 10) = h # t" by (cases "digits_text (n div 10)") auto
    have "digits_value (digits_text n) = digits_value (digits_text (n div 10)) * 10 + n mod 10"
      unfolding eq digits_value_def by simp
    with ih have "digits_value (digits_text n) = n" by simp
    moreover have "\<forall>c \<in> set (digits_text n). is_digit c"
      using ih is_digit_char [of "n mod 10"] unfolding eq by auto
    moreover have "hd (digits_text n) = CHR ''0'' \<longrightarrow> n = 0"
      using ih False ht unfolding eq by auto
    ultimately show ?thesis unfolding eq by simp
  qed
qed

text \<open>What may follow a value in the canonical rendering.\<close>

definition ends_value :: "string \<Rightarrow> bool" where
  "ends_value rest \<longleftrightarrow> rest = [] \<or> hd rest \<in> {CHR '','', CHR '']'', CHR ''}''}"

lemma ends_value_scans:
  assumes "ends_value rest"
  shows "scan_fraction rest = ([], rest)" "scan_exponent rest = ([], rest)" "takeWhile is_digit rest = []"
  using assms by (cases rest; auto simp: ends_value_def scan_fraction_def scan_exponent_def is_digit_def)+

lemma scan_digits:
  assumes "ends_value rest"
  shows "(case digits_text n @ rest of CHR ''0'' # _ \<Rightarrow> ''0'' | _ \<Rightarrow> takeWhile is_digit (digits_text n @ rest))
    = digits_text n"
proof -
  have sh: "digits_text n \<noteq> []" "\<forall>c \<in> set (digits_text n). is_digit c"
    "hd (digits_text n) = CHR ''0'' \<longrightarrow> n = 0" using digits_text_shape [of n] by auto
  then obtain h t where ht: "digits_text n = h # t" by (cases "digits_text n") auto
  have tw: "takeWhile is_digit (digits_text n @ rest) = digits_text n"
    using sh(2) ends_value_scans(3) [OF assms] by (simp add: takeWhile_append2)
  show ?thesis
  proof (cases "h = CHR ''0''")
    case True
    with sh ht have "n = 0" by simp
    moreover have "char_of (48 :: nat) = CHR ''0''" by code_simp
    ultimately have "digits_text n = ''0''" by (simp add: digits_text.simps)
    then show ?thesis by simp
  next
    case False
    then have "(case digits_text n @ rest of CHR ''0'' # _ \<Rightarrow> ''0'' | _ \<Rightarrow> takeWhile is_digit (digits_text n @ rest))
      = takeWhile is_digit (digits_text n @ rest)"
      unfolding ht by (simp split: char.split bool.split)
    with tw show ?thesis by simp
  qed
qed

lemma hd_digits: "\<exists>h t. digits_text n = h # t \<and> is_digit h"
  using digits_text_shape [of n] by (cases "digits_text n") auto

lemma scan_number_int:
  assumes "ends_value rest"
  shows "scan_number norm (int_text i @ rest) = Some (JInt i, rest)"
proof -
  obtain m neg where split: "int_text i = (if neg then ''-'' else []) @ digits_text m"
    and i: "i = (if neg then - int m else int m)"
    by (rule that [of "i < 0" "nat \<bar>i\<bar>"]) (auto simp: int_text_def)
  obtain h t where ht: "digits_text m = h # t" "is_digit h" using hd_digits by blast
  have "h \<noteq> CHR ''-''" using ht(2) by (auto simp: is_digit_def)
  then have sign: "(case int_text i @ rest of CHR ''-'' # t \<Rightarrow> (True, t) | _ \<Rightarrow> (False, int_text i @ rest))
    = (neg, digits_text m @ rest)"
    unfolding split ht(1) by (cases neg) (simp_all split: char.split bool.split)
  have "digits_value (digits_text m) = m" "digits_text m \<noteq> []" using digits_text_shape [of m] by auto
  then show ?thesis
    unfolding scan_number_def sign Let_def prod.case scan_digits [OF assms]
    using ends_value_scans [OF assms] i by simp
qed

section \<open>The round trip\<close>

text \<open>The document that is read back: members in the order of their names, at every level.\<close>

primrec normal_json :: "json \<Rightarrow> json" where
  "normal_json JNull = JNull"
| "normal_json (JBool b) = JBool b"
| "normal_json (JInt i) = JInt i"
| "normal_json (JFloat t) = JFloat t"
| "normal_json (JStr s) = JStr s"
| "normal_json (JArr vs) = JArr (map normal_json vs)"
| "normal_json (JObj kvs) = JObj (sort_key fst (map (map_prod id normal_json) kvs))"

text \<open>Python dicts have distinct keys; documents without floats do not depend on how floats are written.\<close>

fun json_plain :: "json \<Rightarrow> bool" where
  "json_plain (JFloat t) \<longleftrightarrow> False"
| "json_plain (JArr vs) \<longleftrightarrow> (\<forall>v \<in> set vs. json_plain v)"
| "json_plain (JObj kvs) \<longleftrightarrow> distinct (map fst kvs) \<and> (\<forall>kv \<in> set kvs. json_plain (snd kv))"
| "json_plain _ \<longleftrightarrow> True"

text \<open>
  Finite floats stand in a document as \<open>repr\<close> writes them: a literal of the grammar that reading and
  writing again does not change.
\<close>

definition float_literal :: "string \<Rightarrow> bool" where
  "float_literal t \<longleftrightarrow> scan_number id t = Some (JFloat t, [])"

fun json_doc :: "(string \<Rightarrow> string) \<Rightarrow> json \<Rightarrow> bool" where
  "json_doc norm (JFloat t) \<longleftrightarrow> float_literal t \<and> norm t = t"
| "json_doc norm (JArr vs) \<longleftrightarrow> (\<forall>v \<in> set vs. json_doc norm v)"
| "json_doc norm (JObj kvs) \<longleftrightarrow> distinct (map fst kvs) \<and> (\<forall>kv \<in> set kvs. json_doc norm (snd kv))"
| "json_doc norm _ \<longleftrightarrow> True"

lemma json_plain_doc: "json_plain j \<Longrightarrow> json_doc norm j"
  by (induction j) (auto simp: snds.simps)

lemma minus_case:
  "(case s of CHR ''-'' # t \<Rightarrow> (True, t) | _ \<Rightarrow> (False, s))
    = (if s \<noteq> [] \<and> hd s = CHR ''-'' then (True, tl s) else (False, s))"
  by (cases s) (simp_all split: char.split bool.split)

lemma zero_case:
  "(case s of CHR ''0'' # _ \<Rightarrow> ''0'' | _ \<Rightarrow> d) = (if s \<noteq> [] \<and> hd s = CHR ''0'' then ''0'' else d)"
  by (cases s) (simp_all split: char.split bool.split)

lemma fraction_case:
  "scan_fraction s =
     (if s \<noteq> [] \<and> hd s = CHR ''.'' \<and> takeWhile is_digit (tl s) \<noteq> []
      then (CHR ''.'' # takeWhile is_digit (tl s), dropWhile is_digit (tl s)) else ([], s))"
  by (cases s) (simp_all add: scan_fraction_def split: char.split bool.split)

lemma digits_append:
  assumes "ends_value rest"
  shows "takeWhile is_digit (s @ rest) = takeWhile is_digit s" "dropWhile is_digit (s @ rest) = dropWhile is_digit s @ rest"
proof -
  have "takeWhile is_digit rest = []" "dropWhile is_digit rest = rest"
    using ends_value_scans(3) [OF assms] by (cases rest; simp split: if_splits)+
  then show "takeWhile is_digit (s @ rest) = takeWhile is_digit s" "dropWhile is_digit (s @ rest) = dropWhile is_digit s @ rest"
    by (induction s) simp_all
qed

lemma scan_fraction_append:
  assumes "ends_value rest" and "scan_fraction s = (f, r)"
  shows "scan_fraction (s @ rest) = (f, r @ rest)"
proof (cases s)
  case Nil
  then show ?thesis using assms ends_value_scans(1) [OF assms(1)] by (auto simp: fraction_case [of "[]"])
next
  case (Cons c s1)
  then show ?thesis using assms(2) digits_append [OF assms(1), of s1] by (simp add: fraction_case split: if_splits)
qed

lemma exponent_case:
  "scan_exponent (e # s) =
     (if e \<noteq> CHR ''e'' \<and> e \<noteq> CHR ''E'' then ([], e # s)
      else let sign = (if s \<noteq> [] \<and> hd s \<in> {CHR ''+'', CHR ''-''} then [hd s] else []);
               s2 = drop (length sign) s
           in if takeWhile is_digit s2 = [] then ([], e # s)
              else (e # sign @ takeWhile is_digit s2, dropWhile is_digit s2))"
  by (cases s) (simp_all add: scan_exponent_def Let_def)

lemma scan_exponent_append:
  assumes "ends_value rest" and "scan_exponent s = (x, r)"
  shows "scan_exponent (s @ rest) = (x, r @ rest)"
proof (cases s)
  case Nil
  then show ?thesis using assms ends_value_scans(2) [OF assms(1)] by (simp add: scan_exponent_def)
next
  case (Cons e s1)
  show ?thesis
  proof (cases s1)
    case Nil
    have "hd rest \<notin> {CHR ''+'', CHR ''-''}" if "rest \<noteq> []" using assms(1) that by (auto simp: ends_value_def)
    then show ?thesis using assms(2) Cons Nil ends_value_scans(3) [OF assms(1)]
      by (auto simp: exponent_case Let_def split: if_splits)
  next
    case s1: (Cons g s2)
    then show ?thesis using assms(2) Cons digits_append [OF assms(1), of s2] digits_append [OF assms(1), of s1]
      by (auto simp: exponent_case Let_def split: if_splits)
  qed
qed

lemma scan_number_parts:
  assumes "neg \<longleftrightarrow> t \<noteq> [] \<and> hd t = CHR ''-''" and "s1 = (if neg then tl t else t)"
    and "ds = (if s1 \<noteq> [] \<and> hd s1 = CHR ''0'' then ''0'' else takeWhile is_digit s1)"
    and "scan_fraction (drop (length ds) s1) = (frac, s3)" and "scan_exponent s3 = (ex, s4)"
  shows "scan_number norm t =
    (if ds = [] then None
     else if frac = [] \<and> ex = [] then Some (JInt (if neg then - int (digits_value ds) else int (digits_value ds)), s4)
     else Some (JFloat (norm ((if neg then ''-'' else []) @ ds @ frac @ ex)), s4))"
proof -
  have a: "(case t of CHR ''-'' # t \<Rightarrow> (True, t) | _ \<Rightarrow> (False, t)) = (neg, s1)"
    unfolding minus_case using assms(1,2) by simp
  have b: "(case s1 of CHR ''0'' # _ \<Rightarrow> ''0'' | _ \<Rightarrow> takeWhile is_digit s1) = ds"
    unfolding zero_case using assms(3) by simp
  show ?thesis unfolding scan_number_def a Let_def prod.case b using assms(4,5) by simp
qed

text \<open>A literal is read whatever follows it, and starts with a digit or a minus sign before one.\<close>

lemma float_literal_scan:
  assumes "float_literal t"
  obtains sign h r where "t = sign @ h # r" "sign = [] \<or> sign = ''-''" "is_digit h"
    "\<And>rest norm. ends_value rest \<Longrightarrow> scan_number norm (t @ rest) = Some (JFloat (norm t), rest)"
proof -
  define neg where "neg \<longleftrightarrow> t \<noteq> [] \<and> hd t = CHR ''-''"
  define s1 where "s1 = (if neg then tl t else t)"
  define ds where "ds = (if s1 \<noteq> [] \<and> hd s1 = CHR ''0'' then ''0'' else takeWhile is_digit s1)"
  obtain frac s3 where frac: "scan_fraction (drop (length ds) s1) = (frac, s3)" by fastforce
  obtain ex s4 where ex: "scan_exponent s3 = (ex, s4)" by fastforce
  have "scan_number id t = Some (JFloat t, [])" using assms by (simp add: float_literal_def)
  then have parts: "ds \<noteq> []" "s4 = []" "\<not> (frac = [] \<and> ex = [])" "t = (if neg then ''-'' else []) @ ds @ frac @ ex"
    unfolding scan_number_parts [OF neg_def s1_def ds_def frac ex] by (auto split: if_splits)
  then have s1: "s1 \<noteq> []" by (auto simp: ds_def)
  obtain h r where h: "ds = h # r" using parts(1) by (cases ds) auto
  have dig: "is_digit h"
  proof (cases "s1 \<noteq> [] \<and> hd s1 = CHR ''0''")
    case True
    then have "h = CHR ''0''" using h by (simp add: ds_def)
    then show ?thesis by (simp add: is_digit_def)
  next
    case False
    then have "takeWhile is_digit s1 = h # r" using h ds_def by (simp split: if_splits)
    then have "h \<in> set (takeWhile is_digit s1)" by simp
    then show ?thesis by (rule set_takeWhileD [THEN conjunct2])
  qed
  show ?thesis
  proof (rule that [of "if neg then ''-'' else []" h "r @ frac @ ex"])
    show "t = (if neg then ''-'' else []) @ h # r @ frac @ ex" using parts(4) h by simp
  next
    fix rest norm assume rest: "ends_value rest"
    have t: "t \<noteq> []" using s1 by (auto simp: s1_def split: if_splits)
    have 1: "neg \<longleftrightarrow> t @ rest \<noteq> [] \<and> hd (t @ rest) = CHR ''-''" using t by (simp add: neg_def)
    have 2: "s1 @ rest = (if neg then tl (t @ rest) else t @ rest)" using t by (simp add: s1_def)
    have 3: "ds = (if s1 @ rest \<noteq> [] \<and> hd (s1 @ rest) = CHR ''0'' then ''0'' else takeWhile is_digit (s1 @ rest))"
      using s1 digits_append(1) [OF rest, of s1] by (simp add: ds_def)
    have "length ds \<le> length s1" using s1 by (auto simp: ds_def length_takeWhile_le Suc_le_eq)
    then have "scan_fraction (drop (length ds) (s1 @ rest)) = (frac, s3 @ rest)"
      using scan_fraction_append [OF rest frac] by simp
    from scan_number_parts [OF 1 2 3 this scan_exponent_append [OF rest ex], of norm] parts
    show "scan_number norm (t @ rest) = Some (JFloat (norm t), rest)" by auto
  qed (use dig in auto)
qed

lemma dict_of_distinct_aux:
  "distinct (map fst (acc @ pairs)) \<Longrightarrow> foldl dict_set acc pairs = acc @ pairs"
proof (induction pairs arbitrary: acc)
  case Nil
  then show ?case by simp
next
  case (Cons p pairs)
  then have "fst p \<notin> fst ` set acc" by auto
  then have "dict_set acc p = acc @ [p]" by (simp add: dict_set_def)
  with Cons show ?case by simp
qed

lemma dict_of_distinct: "distinct (map fst pairs) \<Longrightarrow> dict_of pairs = pairs"
  using dict_of_distinct_aux [of "[]" pairs] by (simp add: dict_of_def)

lemma map_insort_values:
  "map (map_prod id f) (insort_key fst x xs) = insort_key fst (map_prod id f x) (map (map_prod id f) xs)"
  by (induction xs) auto

lemma map_sort_values: "map (map_prod id f) (sort_key fst xs) = sort_key fst (map (map_prod id f) xs)"
  by (induction xs) (simp_all add: map_insort_values [unfolded id_def] id_def)

lemma sort_key_values_cong:
  "(\<And>kv. kv \<in> set kvs \<Longrightarrow> f (snd kv) = g (snd kv)) \<Longrightarrow>
   map (map_prod id f) (sort_key fst kvs) = map (map_prod id g) (sort_key fst kvs)"
  by (rule map_cong [OF refl]) (auto simp: map_prod_def)

lemma canonical_normal: "canonical_json (normal_json j) = canonical_json j"
proof (induction j)
  case (JArr vs)
  then show ?case by (simp cong: map_cong)
next
  case (JObj kvs)
  have "map (map_prod id (canonical_json \<circ> normal_json)) (sort_key fst kvs)
      = map (map_prod id canonical_json) (sort_key fst kvs)"
    by (rule sort_key_values_cong) (use JObj in \<open>force\<close>)
  moreover have "map (map_prod id canonical_json) (sort_key fst (map (map_prod id normal_json) kvs))
      = map (map_prod id (canonical_json \<circ> normal_json)) (sort_key fst kvs)"
    unfolding map_sort_values [symmetric] by (simp add: map_prod_def case_prod_beta)
  ultimately have "sort_key fst (map (map_prod id canonical_json) (sort_key fst (map (map_prod id normal_json) kvs)))
      = sort_key fst (map (map_prod id canonical_json) kvs)"
    by (simp add: map_sort_values sort_key_id_if_sorted)
  then show ?case by simp
qed simp_all

lemma distinct_map_sort: "distinct (map f (sort_key g xs)) \<longleftrightarrow> distinct (map f xs)"
  by (simp add: distinct_map)

lemma map_of_normal:
  assumes "distinct (map fst kvs)"
  shows "map_of (sort_key fst (map (map_prod id normal_json) kvs)) k = map_option normal_json (map_of kvs k)"
proof -
  let ?kvs = "map (map_prod id normal_json) kvs"
  have d: "distinct (map fst ?kvs)" using assms by (simp only: fst_map_values)
  then have d2: "distinct (map fst (sort_key fst ?kvs))" by (simp only: distinct_map_sort)
  have "map_of (sort_key fst ?kvs) = map_of ?kvs"
    unfolding map_of_inject_set [OF d2 d] by simp
  moreover have "map_of ?kvs k = map_option normal_json (map_of kvs k)"
    by (induction kvs) auto
  ultimately show ?thesis by simp
qed

lemma json_get_normal:
  "distinct (map fst kvs) \<Longrightarrow> json_get (normal_json (JObj kvs)) k = map_option normal_json (map_of kvs k)"
  by (simp add: map_of_normal)

lemma json_plain_normal: "json_plain j \<Longrightarrow> json_plain (normal_json j)"
proof (induction j)
  case (JObj kvs)
  have "json_plain (normal_json (snd kv))" if "kv \<in> set kvs" for kv
    using JObj that by (cases kv) auto
  moreover have "distinct (map fst (sort_key fst (map (map_prod id normal_json) kvs)))"
    using JObj.prems by (simp only: distinct_map_sort fst_map_values json_plain.simps)
  ultimately show ?case by (auto simp: distinct_map_sort)
qed simp_all

definition reads_back :: "(string \<Rightarrow> string) \<Rightarrow> json \<Rightarrow> bool" where
  "reads_back norm j \<longleftrightarrow>
     (\<forall>n rest. length (canonical_json j) \<le> n \<longrightarrow> ends_value rest \<longrightarrow>
        scan_value norm n (canonical_json j @ rest) = Some (normal_json j, rest))"

lemma digit_not_space: "is_digit c \<Longrightarrow> \<not> is_space c"
  by (auto simp: is_digit_def is_space_def)

lemma canonical_starts:
  assumes "json_doc norm j"
  obtains h t where "canonical_json j = h # t" "\<not> is_space h" "h \<noteq> CHR '']''" "h \<noteq> CHR ''}''"
proof (cases j)
  case (JInt i)
  obtain h t where ht: "digits_text (nat \<bar>i\<bar>) = h # t" "is_digit h" using hd_digits by blast
  from ht(2) have "\<not> is_space h" "h \<noteq> CHR '']''" "h \<noteq> CHR ''}''" by (auto simp: is_digit_def is_space_def)
  moreover have "\<not> is_space (CHR ''-'')" by (simp add: is_space_def)
  ultimately show ?thesis using that [of h t] that [of "CHR ''-''" "h # t"] ht(1) JInt
    by (cases "i < 0") (simp_all add: int_text_def)
next
  case (JFloat t)
  with assms have "float_literal t" by simp
  then obtain sign h r where t: "t = sign @ h # r" "sign = [] \<or> sign = ''-''" "is_digit h"
    by (rule float_literal_scan) blast
  from t(3) have "\<not> is_space h" "h \<noteq> CHR '']''" "h \<noteq> CHR ''}''" by (auto simp: is_digit_def is_space_def)
  moreover have "\<not> is_space (CHR ''-'')" by (simp add: is_space_def)
  ultimately show ?thesis using that [of h r] that [of "CHR ''-''" "h # r"] t(1,2) JFloat by auto
next
  case (JObj kvs)
  then show ?thesis using that [of "CHR ''{''"] by (simp add: object_text_def is_space_def)
next
  case (JBool b)
  then show ?thesis using that [of "CHR ''t''"] that [of "CHR ''f''"] by (cases b) (simp_all add: is_space_def)
qed (use assms that in \<open>auto simp: is_space_def string_text_def\<close>)

lemma skip_space_canonical: "json_doc norm j \<Longrightarrow> skip_space (canonical_json j @ rest) = canonical_json j @ rest"
  by (elim canonical_starts) (simp add: skip_space_def)

lemma skip_space_end: "ends_value rest \<Longrightarrow> skip_space rest = rest"
  by (cases rest) (auto simp: ends_value_def skip_space_def is_space_def)

lemma skip_space_punct [simp]:
  "skip_space (CHR '','' # s) = CHR '','' # s" "skip_space (CHR '']'' # s) = CHR '']'' # s"
  "skip_space (CHR ''}'' # s) = CHR ''}'' # s" "skip_space (CHR '':'' # s) = CHR '':'' # s"
  "skip_space (CHR 0x22 # s) = CHR 0x22 # s"
  by (simp_all add: skip_space_def is_space_def)

lemma ends_value_punct [simp]:
  "ends_value []" "ends_value (CHR '','' # s)" "ends_value (CHR '']'' # s)" "ends_value (CHR ''}'' # s)"
  by (simp_all add: ends_value_def)

lemma scan_items_text:
  assumes "vs \<noteq> []" and "\<forall>v \<in> set vs. reads_back norm v \<and> json_doc norm v"
    and "length (join_text '','' (map canonical_json vs)) < n"
  shows "scan_items norm n (join_text '','' (map canonical_json vs) @ CHR '']'' # rest) = Some (map normal_json vs, rest)"
  using assms
proof (induction vs arbitrary: n rule: induct_list012)
  case (2 v)
  then obtain m where "n = Suc m" "length (canonical_json v) \<le> m" by (cases n) auto
  with 2 show ?case by (simp add: reads_back_def)
next
  case (3 v w vs)
  let ?tail = "join_text '','' (map canonical_json (w # vs))"
  from 3(5) obtain m where n: "n = Suc m" and m: "length (canonical_json v) \<le> m" "length ?tail < m"
    by (cases n) auto
  have v: "scan_value norm m (canonical_json v @ CHR '','' # ?tail @ CHR '']'' # rest)
      = Some (normal_json v, CHR '','' # ?tail @ CHR '']'' # rest)"
    using 3(4) m(1) by (simp add: reads_back_def)
  have tl: "scan_items norm m (?tail @ CHR '']'' # rest) = Some (map normal_json (w # vs), rest)"
    by (rule 3(2)) (use 3(4) m(2) in auto)
  have "?tail @ CHR '']'' # rest = canonical_json w @ (case vs of [] \<Rightarrow> CHR '']'' # rest
      | _ \<Rightarrow> CHR '','' # join_text '','' (map canonical_json vs) @ CHR '']'' # rest)"
    by (cases vs) simp_all
  moreover have "json_doc norm w" using 3(4) by simp
  ultimately have "skip_space (?tail @ CHR '']'' # rest) = ?tail @ CHR '']'' # rest"
    by (simp only: skip_space_canonical)
  with v tl show ?case by (simp add: n)
qed simp

definition member_text :: "string \<times> json \<Rightarrow> string" where
  "member_text kv = string_text (fst kv) @ '':'' @ canonical_json (snd kv)"

lemma length_le_escaped: "length s \<le> length (concat (map escape_char s))"
proof (induction s)
  case Nil
  then show ?case by simp
next
  case (Cons c s)
  have "1 \<le> length (escape_char c)" by (simp add: escape_char_def)
  with Cons show ?case by simp
qed

lemma scan_string_text:
  "scan_string (Suc (length (concat (map escape_char s)) + length rest)) (concat (map escape_char s) @ CHR 0x22 # rest)
     = Some (s, rest)"
  "scan_string (Suc (Suc (length (concat (map escape_char s)) + length rest))) (concat (map escape_char s) @ CHR 0x22 # rest)
     = Some (s, rest)"
  by (rule scan_escaped; use length_le_escaped [of s] in linarith)+

lemma scan_member:
  assumes "reads_back norm (snd kv)" "json_doc norm (snd kv)" "length (member_text kv) \<le> n" "ends_value rest"
    "rest = d # s5"
  shows "scan_members norm (Suc n) (member_text kv @ rest) =
    (if d = CHR ''}'' then Some ([(fst kv, normal_json (snd kv))], s5)
     else if d = CHR '','' then map_option (map_prod (Cons (fst kv, normal_json (snd kv))) id)
       (scan_members norm n (skip_space s5)) else None)"
proof -
  let ?v = "canonical_json (snd kv) @ rest"
  have shape: "member_text kv @ rest = CHR 0x22 # concat (map escape_char (fst kv)) @ CHR 0x22 # CHR '':'' # ?v"
    by (simp add: member_text_def string_text_def)
  have k: "scan_string (length (member_text kv @ rest)) (concat (map escape_char (fst kv)) @ CHR 0x22 # CHR '':'' # ?v)
      = Some (fst kv, CHR '':'' # ?v)"
    by (rule scan_escaped) (use length_le_escaped [of "fst kv"] in \<open>simp add: shape\<close>)
  have v: "scan_value norm n ?v = Some (normal_json (snd kv), rest)"
    using assms by (simp add: reads_back_def member_text_def)
  have "skip_space ?v = ?v" by (rule skip_space_canonical [OF assms(2)])
  moreover have "skip_space rest = d # s5" using skip_space_end [OF assms(4)] assms(5) by simp
  ultimately show ?thesis
    using k v unfolding shape by simp
qed

lemma scan_members_text:
  assumes "kvs \<noteq> []" and "\<forall>kv \<in> set kvs. reads_back norm (snd kv) \<and> json_doc norm (snd kv)"
    and "length (join_text '','' (map member_text kvs)) < n"
  shows "scan_members norm n (join_text '','' (map member_text kvs) @ CHR ''}'' # rest)
    = Some (map (map_prod id normal_json) kvs, rest)"
  using assms
proof (induction kvs arbitrary: n rule: induct_list012)
  case (2 kv)
  then obtain m where "n = Suc m" "length (member_text kv) \<le> m" by (cases n) auto
  with 2 show ?case
    using scan_member [of norm kv m "CHR ''}'' # rest" "CHR ''}''" rest] by (simp add: map_prod_def case_prod_beta)
next
  case (3 kv w kvs)
  let ?tail = "join_text '','' (map member_text (w # kvs)) @ CHR ''}'' # rest"
  from 3(5) obtain m where n: "n = Suc m" and m: "length (member_text kv) \<le> m"
      "length (join_text '','' (map member_text (w # kvs))) < m"
    by (cases n) auto
  have tl: "scan_members norm m ?tail = Some (map (map_prod id normal_json) (w # kvs), rest)"
    by (rule 3(2)) (use 3(4) m(2) in auto)
  have "?tail = CHR 0x22 # tl ?tail" by (cases kvs) (simp_all add: member_text_def string_text_def)
  then have "skip_space ?tail = ?tail" by (metis skip_space_punct(5))
  with tl show ?case
    using scan_member [of norm kv m "CHR '','' # ?tail" "CHR '',''" ?tail] 3(4) m(1)
    by (simp add: n map_prod_def case_prod_beta)
qed simp

lemma canonical_object:
  "canonical_json (JObj kvs) = CHR ''{'' # join_text '','' (map member_text (sort_key fst kvs)) @ ''}''"
proof -
  have "sort_key fst (map (map_prod id canonical_json) kvs) = map (map_prod id canonical_json) (sort_key fst kvs)"
    by (rule map_sort_values [symmetric])
  then show ?thesis
    by (simp add: object_text_def member_text_def [abs_def] map_prod_def case_prod_beta comp_def)
qed

lemma reads_back_object:
  assumes plain: "json_doc norm (JObj kvs)" and sub: "\<forall>kv \<in> set kvs. reads_back norm (snd kv)"
  shows "reads_back norm (JObj kvs)"
  unfolding reads_back_def
proof (intro allI impI)
  fix n :: nat and rest
  assume n: "length (canonical_json (JObj kvs)) \<le> n" and "ends_value rest"
  let ?kvs = "sort_key fst kvs"
  from n obtain m where m: "n = Suc m" "length (join_text '','' (map member_text ?kvs)) < m"
    by (cases n) (simp_all add: canonical_object del: canonical_json.simps)
  have normal: "map (map_prod id normal_json) ?kvs = sort_key fst (map (map_prod id normal_json) kvs)"
    by (rule map_sort_values)
  show "scan_value norm n (canonical_json (JObj kvs) @ rest) = Some (normal_json (JObj kvs), rest)"
  proof (cases "?kvs = []")
    case True
    then have "kvs = []" by (metis set_empty set_sort)
    then show ?thesis by (simp add: m(1) object_text_def)
  next
    case False
    then obtain q where q: "join_text '','' (map member_text ?kvs) = CHR 0x22 # q"
      by (cases ?kvs rule: list.exhaust; cases "tl ?kvs") (auto simp: member_text_def string_text_def)
    have "scan_members norm m (join_text '','' (map member_text ?kvs) @ CHR ''}'' # rest)
        = Some (map (map_prod id normal_json) ?kvs, rest)"
      by (rule scan_members_text [OF False _ m(2)]) (use plain sub in simp)
    moreover have "distinct (map fst (map (map_prod id normal_json) ?kvs))"
      using plain unfolding fst_map_values by (simp add: distinct_map)
    ultimately show ?thesis
      unfolding canonical_object by (simp add: m(1) q dict_of_distinct normal)
  qed
qed

lemma reads_back_array:
  assumes "json_doc norm (JArr vs)" and sub: "\<forall>v \<in> set vs. reads_back norm v"
  shows "reads_back norm (JArr vs)"
  unfolding reads_back_def
proof (intro allI impI)
  fix n :: nat and rest
  assume n: "length (canonical_json (JArr vs)) \<le> n" and "ends_value rest"
  let ?t = "join_text '','' (map canonical_json vs)"
  from n obtain m where m: "n = Suc m" "length ?t < m" by (cases n) auto
  show "scan_value norm n (canonical_json (JArr vs) @ rest) = Some (normal_json (JArr vs), rest)"
  proof (cases vs)
    case Nil
    then show ?thesis by (simp add: m(1))
  next
    case (Cons v ws)
    then have "json_doc norm v" using assms(1) by simp
    then obtain h t where ht: "canonical_json v = h # t" "\<not> is_space h" "h \<noteq> CHR '']''" by (rule canonical_starts)
    then obtain q where q: "?t = h # q" by (cases ws) (auto simp: Cons)
    have "scan_items norm m (?t @ CHR '']'' # rest) = Some (map normal_json vs, rest)"
      by (rule scan_items_text) (use assms m(2) Cons in auto)
    with ht(2,3) show ?thesis by (simp add: m(1) q skip_space_def)
  qed
qed

text \<open>A text that starts as a number is scanned as one.\<close>

lemma scan_value_number:
  assumes "s = sign @ h # r" and "sign = [] \<or> sign = ''-''" and "is_digit h"
  shows "scan_value norm (Suc m) s = scan_number norm s"
proof -
  from assms(3) have h: "h \<notin> {CHR ''-'', CHR 0x22, CHR ''{'', CHR ''['', CHR ''n'', CHR ''t'', CHR ''f'', CHR ''N'', CHR ''I''}"
    by (auto simp: is_digit_def)
  have pre: "strip_prefix p s = None"
    if "p \<in> {''null'', ''true'', ''false'', ''NaN'', ''Infinity'', ''-Infinity''}" for p
    using that h assms(1,2) by (auto simp: strip_prefix_def)
  obtain c0 s0 where cs: "s = c0 # s0" "c0 \<noteq> CHR 0x22" "c0 \<noteq> CHR ''{''" "c0 \<noteq> CHR ''[''"
    using assms(1,2) h by (cases sign) auto
  then show ?thesis using pre unfolding cs(1) by simp
qed

lemma reads_back_int: "reads_back norm (JInt i)"
  unfolding reads_back_def
proof (intro allI impI)
  fix n :: nat and rest
  assume n: "length (canonical_json (JInt i)) \<le> n" and rest: "ends_value rest"
  obtain h t where ht: "digits_text (nat \<bar>i\<bar>) = h # t" "is_digit h" using hd_digits by blast
  have shape: "int_text i @ rest = (if i < 0 then ''-'' else []) @ h # (t @ rest)"
    using ht(1) by (simp add: int_text_def abs_if split: if_splits)
  from n obtain m where m: "n = Suc m" using ht(1) by (cases n) (auto simp: int_text_def abs_if split: if_splits)
  have "scan_value norm (Suc m) (int_text i @ rest) = scan_number norm (int_text i @ rest)"
    by (rule scan_value_number [OF shape]) (use ht(2) in auto)
  then show "scan_value norm n (canonical_json (JInt i) @ rest) = Some (normal_json (JInt i), rest)"
    using scan_number_int [OF rest] by (simp add: m del: scan_value.simps)
qed

lemma reads_back_float:
  assumes "float_literal t" and "norm t = t"
  shows "reads_back norm (JFloat t)"
  unfolding reads_back_def
proof (intro allI impI)
  fix n :: nat and rest
  assume n: "length (canonical_json (JFloat t)) \<le> n" and rest: "ends_value rest"
  obtain sign h r where t: "t = sign @ h # r" "sign = [] \<or> sign = ''-''" "is_digit h"
    and scan: "\<And>rest norm. ends_value rest \<Longrightarrow> scan_number norm (t @ rest) = Some (JFloat (norm t), rest)"
    by (rule float_literal_scan [OF assms(1)]) blast
  from n obtain m where m: "n = Suc m" using t(1) by (cases n) auto
  have "scan_value norm (Suc m) (t @ rest) = scan_number norm (t @ rest)"
    by (rule scan_value_number [of _ sign h "r @ rest"]) (use t in auto)
  then show "scan_value norm n (canonical_json (JFloat t) @ rest) = Some (normal_json (JFloat t), rest)"
    using scan [OF rest, of norm] assms(2) by (simp add: m del: scan_value.simps)
qed

lemma reads_back_doc: "json_doc norm j \<Longrightarrow> reads_back norm j"
proof (induction j)
  case JNull
  have "scan_value norm (Suc m) (''null'' @ rest) = Some (JNull, rest)" for m rest by (simp add: strip_prefix_def)
  then show ?case unfolding reads_back_def by (auto dest!: Suc_le_D simp del: scan_value.simps)
next
  case (JBool b)
  have "scan_value norm (Suc m) (''true'' @ rest) = Some (JBool True, rest)"
    "scan_value norm (Suc m) (''false'' @ rest) = Some (JBool False, rest)" for m rest
    by (simp_all add: strip_prefix_def)
  then show ?case unfolding reads_back_def by (cases b) (auto dest!: Suc_le_D simp del: scan_value.simps)
next
  case (JInt i)
  show ?case by (rule reads_back_int)
next
  case (JFloat t)
  then show ?case by (intro reads_back_float) simp_all
next
  case (JStr s)
  show ?case
    unfolding reads_back_def
  proof (intro allI impI)
    fix n :: nat and rest
    assume "length (canonical_json (JStr s)) \<le> n"
    then obtain m where m: "n = Suc m" by (cases n) (auto simp: string_text_def)
    show "scan_value norm n (canonical_json (JStr s) @ rest) = Some (normal_json (JStr s), rest)"
      using scan_string_text(2) [of s rest] by (simp add: m string_text_def)
  qed
next
  case (JArr vs)
  then show ?case by (intro reads_back_array) auto
next
  case (JObj kvs)
  have "reads_back norm (snd kv)" if "kv \<in> set kvs" for kv
    using JObj that by (cases kv) auto
  with JObj.prems show ?case by (intro reads_back_object) auto
qed

lemma loads_canonical_json_doc:
  assumes "json_doc norm j"
  shows "loads norm (canonical_json j) = Some (normal_json j)"
proof -
  have "scan_value norm (2 * length (canonical_json j) + 2) (canonical_json j @ []) = Some (normal_json j, [])"
    by (rule reads_back_doc [OF assms, unfolded reads_back_def, rule_format]) simp_all
  then show ?thesis
    using skip_space_canonical [OF assms, of "[]"] unfolding loads_def by (simp add: skip_space_def del: scan_value.simps)
qed

lemma loads_canonical_json_plain:
  assumes "json_plain j"
  shows "loads norm (canonical_json j) = Some (normal_json j)"
  by (rule loads_canonical_json_doc [OF json_plain_doc [OF assms]])

lemma canonical_plain_inject:
  "json_plain i \<Longrightarrow> json_plain j \<Longrightarrow> canonical_json i = canonical_json j \<Longrightarrow> normal_json i = normal_json j"
  using loads_canonical_json_plain [of i id] loads_canonical_json_plain [of j id] by simp

lemma json_distinct_members: "json_doc norm (JObj kvs) \<Longrightarrow> distinct (map fst kvs)"
  by simp

text \<open>C24: what the agent stores can be read back: loading the canonical rendering of a document, whose
  dicts have distinct keys and whose floats are finite and written as \<open>repr\<close> writes them, gives the
  document itself with the members of every object in the order of their names, and rendering that
  document again gives the same text, so digests over stored documents are stable.\<close>

theorem loads_canonical_json:
  assumes "json_doc norm j"
  shows "\<exists>k. loads norm (canonical_json j) = Some k \<and> k = normal_json j \<and> canonical_json k = canonical_json j
    \<and> (\<forall>kvs. j = JObj kvs \<longrightarrow> (\<forall>m. json_get k m = map_option normal_json (json_get j m)))"
proof (intro exI conjI)
  show "loads norm (canonical_json j) = Some (normal_json j)" by (rule loads_canonical_json_doc [OF assms])
  show "canonical_json (normal_json j) = canonical_json j" by (rule canonical_normal)
  show "\<forall>kvs. j = JObj kvs \<longrightarrow> (\<forall>m. json_get (normal_json j) m = map_option normal_json (json_get j m))"
    using assms json_distinct_members json_get_normal by (auto simp del: normal_json.simps json_doc.simps)
qed (rule refl)

text \<open>A progress payload with a fractional percentage.\<close>

lemma loads_canonical_json_witness:
  "loads (\<lambda>t. t) (canonical_json (JObj [(''percent'', JFloat ''12.5''), (''items'', JArr [JInt (-12), JNull])]))
    = Some (JObj [(''items'', JArr [JInt (-12), JNull]), (''percent'', JFloat ''12.5'')])"
proof -
  have "float_literal ''12.5''" unfolding float_literal_def by code_simp
  then have "json_doc (\<lambda>t. t) (JObj [(''percent'', JFloat ''12.5''), (''items'', JArr [JInt (-12), JNull])])" by simp
  from loads_canonical_json [OF this] show ?thesis by auto
qed

end
