(* ===== verification/Task_Typing.thy ===== *)
theory Task_Typing
  imports Task_Properties Json_Loads
begin

text \<open>
  The typing of the stored tasks: every row of the inbox is the image of one envelope, so its columns,
  its payload and its two digests agree, whatever operations ran in between.  A row is read back with
  the members of its objects in the order of their names, so the task that is read is the envelope
  with its parameters in that order; it has the same image.
\<close>

definition row_of :: "codec \<Rightarrow> local_task \<Rightarrow> inbox_task \<Rightarrow> bool" where
  "row_of c t r \<longleftrightarrow>
     it_task_id r = lt_task_id t \<and> it_execution_id r = lt_execution_id t \<and>
     it_key r = lt_idempotency_key t \<and> it_task_type r = lt_task_type t \<and>
     it_task_type_version r = lt_task_type_version t \<and>
     it_payload r = canonical_json (envelope_json c t) \<and>
     it_payload_hash r = digest (sha256_hex c) (envelope_json c t) \<and>
     it_effect_hash r = digest (sha256_hex c) (logical_effect t) \<and>
     it_expires_at r = iso_format c (lt_expires_at t)"

definition row_typed :: "codec \<Rightarrow> inbox_task \<Rightarrow> bool" where
  "row_typed c r \<longleftrightarrow> (\<exists>t. row_of c t r)"

definition typed_inbox :: "codec \<Rightarrow> store \<Rightarrow> bool" where
  "typed_inbox c db \<longleftrightarrow> (\<forall>r \<in> set (t_inbox db). row_typed c r)"

lemma row_typed_state [simp]:
  "row_typed c (r\<lparr>it_state := s, it_updated_at := now\<rparr>) = row_typed c r"
  "row_typed c (r\<lparr>it_state := s, it_reason := why, it_updated_at := now\<rparr>) = row_typed c r"
  by (simp_all add: row_typed_def row_of_def)

lemma row_of_new: "row_of c t (inbox_row c now t canonical st why)"
  by (simp add: row_of_def inbox_row_def)

lemma row_typed_new [simp]: "row_typed c (inbox_row c now t canonical st why)"
  unfolding row_typed_def using row_of_new by blast

lemma typed_same: "t_inbox db' = t_inbox db \<Longrightarrow> typed_inbox c db \<Longrightarrow> typed_inbox c db'"
  by (simp add: typed_inbox_def)

lemma typed_upd_where [simp]:
  "(\<And>r. row_typed c (f r) = row_typed c r) \<Longrightarrow>
   (\<forall>r \<in> set (upd_where P f rows). row_typed c r) = (\<forall>r \<in> set rows. row_typed c r)"
  by (induction rows) auto

lemma set_task_state_typed: "typed_inbox c db \<Longrightarrow> typed_inbox c (set_task_state now t a b db)"
  by (simp add: typed_inbox_def set_task_state_def)

lemma reject_corrupt_typed: "typed_inbox c db \<Longrightarrow> typed_inbox c (reject_corrupt c now qid row db)"
  by (simp add: typed_inbox_def reject_corrupt_def Let_def)

lemma load_rows_typed: "typed_inbox c db \<Longrightarrow> typed_inbox c (snd (load_rows c now fresh rows db))"
  by (induction rows arbitrary: db) (simp_all add: reject_corrupt_typed split: option.split)

lemma recover_typed: "typed_inbox c db \<Longrightarrow> typed_inbox c (snd (recover_interrupted now db))"
  by (auto simp: typed_inbox_def recover_interrupted_def Let_def interrupt_tasks_inbox)

lemma ingest_typed:
  assumes "typed_inbox c db" and "task_wf db"
  shows "typed_inbox c (snd (ingest_task c now qid task db))"
proof (cases "find (\<lambda>r. it_task_id r = lt_task_id task) (t_inbox db)")
  case (Some r)
  show ?thesis by (rule typed_same [OF _ assms(1)]) (simp add: ingest_known_task [OF Some])
next
  case none: None
  show ?thesis
  proof (cases "find (\<lambda>e. ie_key e = lt_idempotency_key task) (t_effects db)")
    case (Some e)
    then show ?thesis
      using assms(1) by (simp add: ingest_known_effect [OF assms(2) none] typed_inbox_def duplicate_row_def)
  next
    case None
    then show ?thesis
      using assms(1) by (simp add: ingest_new [OF assms(2) none] typed_inbox_def queued_row_def)
  qed
qed

lemma claim_typed:
  assumes "typed_inbox c db"
  shows "typed_inbox c (snd (claim_task now aid t db))"
proof (cases "claim_task now aid t db")
  case (Pair res db')
  from Pair show ?thesis
  proof (cases rule: claim_task_cases)
    case claimed
    with Pair have "claim_task now aid t db = (Inr (Some aid), db')" by simp
    then obtain k where "db' = claimed_store now aid t k db" by (rule claim_task_result)
    then have "typed_inbox c db'"
      using assms by (simp add: typed_inbox_def claimed_store_def)
    then show ?thesis using Pair by simp
  qed (use Pair assms in simp_all)
qed

lemma finish_typed:
  assumes "typed_inbox c db" and "task_wf db"
  shows "typed_inbox c (snd (finish_with_result c' now rk t a b payload db))"
proof (cases "finish_with_result c' now rk t a b payload db")
  case (Pair res db')
  show ?thesis
  proof (cases res)
    case (Inl e)
    with Pair have "db' = db" by (auto dest: finish_with_result_error)
    with Pair assms(1) show ?thesis by simp
  next
    case (Inr u)
    with Pair have "finish_with_result c' now rk t a b payload db = (Inr u, db')" by simp
    then obtain k rid where "db' = finished_store c' now rk t k rid a b payload db"
      using finish_with_result_ok [OF assms(2)] by metis
    then have "typed_inbox c db'"
      using assms(1) by (simp add: typed_inbox_def finished_store_def)
    then show ?thesis using Pair by simp
  qed
qed

lemma task_step_typed: "task_step c db db' \<Longrightarrow> task_wf db \<Longrightarrow> typed_inbox c db \<Longrightarrow> typed_inbox c db'"
proof (induction rule: task_step.induct)
  case (move db now t a b)
  then show ?case by (simp add: transition_def set_task_state_typed split: sum.split)
qed (simp_all add: ingest_typed claim_typed finish_typed recover_typed queued_tasks_def load_rows_typed
      typed_same)

lemma task_reachable_typed: "task_reachable c db \<Longrightarrow> typed_inbox c db"
  unfolding task_reachable_def
proof (induction rule: rtranclp_induct)
  case base
  then show ?case by (simp add: typed_inbox_def empty_store_def)
next
  case (step y z)
  then show ?case by (blast intro: task_step_typed task_steps_wf [OF _ task_wf_empty])
qed

section \<open>Reading a row back\<close>

definition normal_task :: "local_task \<Rightarrow> local_task" where
  "normal_task t = t\<lparr>lt_parameters := (case normal_json (JObj (lt_parameters t)) of JObj m \<Rightarrow> m | _ \<Rightarrow> [])\<rparr>"

lemma normal_parameters: "JObj (lt_parameters (normal_task t)) = normal_json (JObj (lt_parameters t))"
  by (simp add: normal_task_def)

lemma envelope_doc: "json_doc norm (JObj (lt_parameters t)) \<Longrightarrow> json_doc norm (envelope_json c t)"
  by (simp add: envelope_json_def)

lemma canonical_parameters:
  "canonical_json (JObj (lt_parameters (normal_task t))) = canonical_json (JObj (lt_parameters t))"
  by (simp only: normal_parameters canonical_normal)

lemma normal_task_images:
  "canonical_json (envelope_json c (normal_task t)) = canonical_json (envelope_json c t)"
  "canonical_json (logical_effect (normal_task t)) = canonical_json (logical_effect t)"
proof -
  have same: "lt_task_id (normal_task t) = lt_task_id t" "lt_execution_id (normal_task t) = lt_execution_id t"
    "lt_task_type (normal_task t) = lt_task_type t" "lt_task_type_version (normal_task t) = lt_task_type_version t"
    "lt_issued_at (normal_task t) = lt_issued_at t" "lt_not_before (normal_task t) = lt_not_before t"
    "lt_expires_at (normal_task t) = lt_expires_at t" "lt_idempotency_key (normal_task t) = lt_idempotency_key t"
    "lt_required_capabilities (normal_task t) = lt_required_capabilities t"
    "lt_foreground (normal_task t) = lt_foreground t" "lt_interaction (normal_task t) = lt_interaction t"
    by (simp_all add: normal_task_def)
  show "canonical_json (envelope_json c (normal_task t)) = canonical_json (envelope_json c t)"
    "canonical_json (logical_effect (normal_task t)) = canonical_json (logical_effect t)"
    unfolding envelope_json_def logical_effect_def same canonical_json.simps(7) list.map map_prod_simp id_apply
      canonical_parameters [unfolded canonical_json.simps(7)] by (rule refl)+
qed

lemma row_of_normal: "row_of c t r \<Longrightarrow> row_of c (normal_task t) r"
  by (simp add: row_of_def digest_def normal_task_images del: canonical_json.simps) (simp add: normal_task_def)

lemma load_row_of:
  assumes "row_of c t r" and "json_loads c = loads norm" and "json_doc norm (JObj (lt_parameters t))"
  shows "load_row c r = validate_task c (normal_json (envelope_json c t))"
  using assms loads_canonical_json_doc [OF envelope_doc [OF assms(3)]]
  by (simp add: load_row_def row_of_def digest_def canonical_normal del: canonical_json.simps normal_json.simps)

text \<open>C34: the stored tasks are well typed and stay readable.  In every reachable database each row of the
  inbox is the image of an envelope: identity, type, payload, checksum and effect digest belong to the
  same task.  And for every envelope that the row is an image of (with distinct keys and finite floats in
  its parameters): the queue loads the row, with the checksum verified although the members come back
  sorted, to what the validation makes of the sorted envelope; where that is the task with its
  parameters sorted, the row is never taken for corrupt and the task read has again this row as its
  image, so every digest of it is the stored one.\<close>

theorem stored_tasks_are_typed:
  assumes "task_reachable c db" and "r \<in> set (t_inbox db)" and "json_loads c = loads norm"
  shows "(\<exists>t. row_of c t r) \<and>
    (\<forall>t. row_of c t r \<and> json_doc norm (JObj (lt_parameters t)) \<longrightarrow>
       load_row c r = validate_task c (normal_json (envelope_json c t)) \<and>
       (validate_task c (normal_json (envelope_json c t)) = Some (normal_task t) \<longrightarrow>
          load_row c r = Some (normal_task t) \<and> row_of c (normal_task t) r \<and>
          (\<forall>now fresh rows db'. load_rows c now fresh (r # rows) db'
             = map_prod ((#) (normal_task t)) id (load_rows c now fresh rows db'))))"
proof -
  have "\<exists>t. row_of c t r" using task_reachable_typed [OF assms(1)] assms(2) by (auto simp: typed_inbox_def row_typed_def)
  with load_row_of [OF _ assms(3)] row_of_normal show ?thesis by auto
qed

text \<open>A task whose parameters are out of order, with a float among them.\<close>

definition demo_sorted_task :: local_task where
  "demo_sorted_task = demo_task\<lparr>lt_parameters := [(''seconds'', JFloat ''1.5''), (''mode'', JStr ''fast'')]\<rparr>"

definition demo_loads_codec :: codec where
  "demo_loads_codec =
     (let base = \<lparr>sha256_hex = (\<lambda>s. s), json_loads = loads (\<lambda>t. t), validate_task = (\<lambda>j. None),
                  dump_datetime = int_text, iso_format = int_text\<rparr>
      in base\<lparr>validate_task := (\<lambda>j. if j = normal_json (envelope_json base demo_sorted_task)
                                     then Some (normal_task demo_sorted_task) else None)\<rparr>)"

lemma stored_tasks_are_typed_witness:
  "load_row demo_loads_codec (queued_row demo_loads_codec ''n1'' demo_sorted_task)
     = Some (demo_sorted_task\<lparr>lt_parameters := [(''mode'', JStr ''fast''), (''seconds'', JFloat ''1.5'')]\<rparr>)"
proof -
  let ?db = "snd (ingest_task demo_loads_codec ''n1'' ''q1'' demo_sorted_task empty_store)"
  let ?r = "queued_row demo_loads_codec ''n1'' demo_sorted_task"
  have reach: "task_reachable demo_loads_codec ?db"
    unfolding task_reachable_def by (rule r_into_rtranclp) (rule task_step.ingest)
  have row: "?r \<in> set (t_inbox ?db)"
    by (subst ingest_new [OF task_wf_empty]) (simp_all add: empty_store_def)
  have loader: "json_loads demo_loads_codec = loads (\<lambda>t. t)" by (simp add: demo_loads_codec_def Let_def)
  have image: "row_of demo_loads_codec demo_sorted_task ?r"
    by (simp add: row_of_def queued_row_def inbox_row_def)
  have "float_literal ''1.5''" unfolding float_literal_def by code_simp
  then have doc: "json_doc (\<lambda>t. t) (JObj (lt_parameters demo_sorted_task))" by (simp add: demo_sorted_task_def)
  have "validate_task demo_loads_codec (normal_json (envelope_json demo_loads_codec demo_sorted_task))
      = Some (normal_task demo_sorted_task)"
    by (simp add: demo_loads_codec_def Let_def envelope_json_def)
  with stored_tasks_are_typed [OF reach row loader] image doc
  have "load_row demo_loads_codec ?r = Some (normal_task demo_sorted_task)" by blast
  then show ?thesis by (simp add: normal_task_def demo_sorted_task_def)
qed

end
