(* ===== verification/Windows_Operations.thy ===== *)
theory Windows_Operations
  imports Store_Schema
begin

text \<open>
  The journal of local Wi-Fi operations on Windows (\<open>begin_windows_operation\<close>, \<open>windows_operation\<close>,
  \<open>transition_windows_operation\<close> and \<open>incomplete_windows_operations\<close> of
  \<open>infrastructure/sqlite/store.py\<close>): an operation is recorded under its idempotency key before the
  radio is touched, and its state moves by compare-and-set from a set of expected states.  The states
  are the constructors of \<open>winop_state\<close>, so the test that the expected states are known ones leaves the
  test that the set is not empty.
\<close>

section \<open>Operations\<close>

definition WINOP_TERMINAL :: "winop_state set" where
  "WINOP_TERMINAL = {Op_Completed, Op_Failed, Op_Cancelled, Op_Rolled_Back}"

definition WINOP_INCOMPLETE :: "winop_state set" where
  "WINOP_INCOMPLETE = {Intent_Recorded, Op_Running, Op_Reconciling}"

definition optional_text :: "string option \<Rightarrow> json" where
  "optional_text v = (case v of None \<Rightarrow> JNull | Some s \<Rightarrow> JStr s)"

definition winop_intent_hash :: "(string \<Rightarrow> string) \<Rightarrow> string \<Rightarrow> uuid \<Rightarrow> string option \<Rightarrow> string" where
  "winop_intent_hash sha action guid target = digest sha (JObj
     [(''action'', JStr action), (''interface_guid'', JStr guid), (''target_profile'', optional_text target)])"

definition new_winop ::
  "(string \<Rightarrow> string) \<Rightarrow> stamp \<Rightarrow> uuid \<Rightarrow> uuid \<Rightarrow> string \<Rightarrow> uuid \<Rightarrow> string option \<Rightarrow> string option
    \<Rightarrow> windows_operation" where
  "new_winop sha now oid key action guid target previous =
     \<lparr>wo_operation_id = oid, wo_key = key, wo_intent_hash = winop_intent_hash sha action guid target,
      wo_action = action, wo_interface_guid = guid, wo_target_profile = target,
      wo_previous_profile = previous, wo_state = Intent_Recorded, wo_started_at = now,
      wo_updated_at = now, wo_completed_at = None, wo_reconciliation = None, wo_last_error = None\<rparr>"

definition windows_operation_of :: "uuid \<Rightarrow> store \<Rightarrow> (windows_operation, store) outcome" where
  "windows_operation_of key db =
     (case find (\<lambda>r. wo_key r = key) (t_winops db) of
        None \<Rightarrow> (Inl (Key_Error ''Windows network operation is unavailable''), db)
      | Some r \<Rightarrow> (Inr r, db))"

definition begin_windows_operation ::
  "(string \<Rightarrow> string) \<Rightarrow> stamp \<Rightarrow> uuid \<Rightarrow> uuid \<Rightarrow> string \<Rightarrow> uuid \<Rightarrow> string option \<Rightarrow> string option \<Rightarrow> store
    \<Rightarrow> (windows_operation, store) outcome" where
  "begin_windows_operation sha now oid key action guid target previous db =
     (case find (\<lambda>r. wo_key r = key) (t_winops db) of
        Some existing \<Rightarrow>
          if wo_intent_hash existing \<noteq> winop_intent_hash sha action guid target
          then (Inl (Duplicate_Conflict_Error
                  ''Windows network idempotency key was reused for another intent''), db)
          else (Inr existing, db)
      | None \<Rightarrow>
          (case insert_winop (new_winop sha now oid key action guid target previous) db of
             None \<Rightarrow> (Inl Integrity_Error, db)
           | Some db' \<Rightarrow> windows_operation_of key db'))"

definition set_winop_state ::
  "stamp \<Rightarrow> uuid \<Rightarrow> winop_state set \<Rightarrow> winop_state \<Rightarrow> string option \<Rightarrow> string option \<Rightarrow> store \<Rightarrow> store" where
  "set_winop_state now key current target reconciliation error db =
     db\<lparr>t_winops := upd_where (\<lambda>r. wo_key r = key \<and> wo_state r \<in> current)
          (\<lambda>r. r\<lparr>wo_state := target, wo_updated_at := now,
                  wo_completed_at := coalesce (if target \<in> WINOP_TERMINAL then Some now else None) (wo_completed_at r),
                  wo_reconciliation := coalesce reconciliation (wo_reconciliation r),
                  wo_last_error := coalesce error (wo_last_error r)\<rparr>) (t_winops db)\<rparr>"

definition transition_windows_operation ::
  "stamp \<Rightarrow> uuid \<Rightarrow> winop_state set \<Rightarrow> winop_state \<Rightarrow> string option \<Rightarrow> string option \<Rightarrow> store
    \<Rightarrow> (windows_operation, store) outcome" where
  "transition_windows_operation now key current target reconciliation error db =
     (if current = {} then (Inl (Value_Error ''invalid Windows network current state set''), db)
      else if row_count (\<lambda>r. wo_key r = key \<and> wo_state r \<in> current) (t_winops db) \<noteq> 1
      then (Inl (State_Conflict_Error ''Windows network operation transition conflict''), db)
      else windows_operation_of key (set_winop_state now key current target reconciliation error db))"

definition incomplete_windows_operations :: "store \<Rightarrow> windows_operation list" where
  "incomplete_windows_operations db =
     sort_key wo_started_at (filter (\<lambda>r. wo_state r \<in> WINOP_INCOMPLETE) (t_winops db))"

section \<open>The invariant of the journal\<close>

text \<open>
  Operation ids and keys are unique, and exactly the ended operations carry the time of their end.
\<close>

definition winops_wf :: "store \<Rightarrow> bool" where
  "winops_wf db \<longleftrightarrow> distinct (map wo_operation_id (t_winops db)) \<and> distinct (map wo_key (t_winops db))
     \<and> (\<forall>r \<in> set (t_winops db). wo_completed_at r \<noteq> None \<longleftrightarrow> wo_state r \<in> WINOP_TERMINAL)"

definition winop_of :: "store \<Rightarrow> uuid \<Rightarrow> windows_operation option" where
  "winop_of db key = find (\<lambda>r. wo_key r = key) (t_winops db)"

definition moved_winop ::
  "stamp \<Rightarrow> winop_state \<Rightarrow> string option \<Rightarrow> string option \<Rightarrow> windows_operation \<Rightarrow> windows_operation" where
  "moved_winop now target reconciliation error r =
     r\<lparr>wo_state := target, wo_updated_at := now,
       wo_completed_at := coalesce (if target \<in> WINOP_TERMINAL then Some now else None) (wo_completed_at r),
       wo_reconciliation := coalesce reconciliation (wo_reconciliation r),
       wo_last_error := coalesce error (wo_last_error r)\<rparr>"

lemma moved_winop_simps [simp]:
  "wo_operation_id (moved_winop now s rec e r) = wo_operation_id r"
  "wo_key (moved_winop now s rec e r) = wo_key r"
  "wo_intent_hash (moved_winop now s rec e r) = wo_intent_hash r"
  "wo_action (moved_winop now s rec e r) = wo_action r"
  "wo_interface_guid (moved_winop now s rec e r) = wo_interface_guid r"
  "wo_target_profile (moved_winop now s rec e r) = wo_target_profile r"
  "wo_previous_profile (moved_winop now s rec e r) = wo_previous_profile r"
  "wo_state (moved_winop now s rec e r) = s"
  "wo_started_at (moved_winop now s rec e r) = wo_started_at r"
  by (simp_all add: moved_winop_def)

lemma winop_states: "s \<in> WINOP_TERMINAL \<longleftrightarrow> s \<notin> WINOP_INCOMPLETE"
  by (cases s) (simp_all add: WINOP_TERMINAL_def WINOP_INCOMPLETE_def)

lemma set_winop_state_rows:
  "t_winops (set_winop_state now key current s rec e db)
     = upd_where (\<lambda>r. wo_key r = key \<and> wo_state r \<in> current) (moved_winop now s rec e) (t_winops db)"
  by (simp add: set_winop_state_def moved_winop_def [abs_def])

lemma winop_of_set_state:
  "winop_of (set_winop_state now key current s rec e db) k =
     map_option (\<lambda>r. if wo_key r = key \<and> wo_state r \<in> current then moved_winop now s rec e r else r)
       (winop_of db k)"
  unfolding winop_of_def set_winop_state_rows by (rule find_key_upd_where) simp

lemma winop_of_key: "winop_of db key = Some r \<Longrightarrow> wo_key r = key \<and> r \<in> set (t_winops db)"
  unfolding winop_of_def by (auto dest: find_SomeD)

lemma winop_of_iff: "winops_wf db \<Longrightarrow> winop_of db key = Some r \<longleftrightarrow> r \<in> set (t_winops db) \<and> wo_key r = key"
  unfolding winop_of_def winops_wf_def by (simp add: find_key_iff)

text \<open>What a compare-and-set does on a well-formed journal: it succeeds exactly when the recorded state
  is an expected one, and then moves this row alone.\<close>

lemma transition_winop:
  assumes "winops_wf db"
  shows "transition_windows_operation now key current target rec e db =
    (case winop_of db key of
       Some r \<Rightarrow> if wo_state r \<in> current
         then (Inr (moved_winop now target rec e r), set_winop_state now key current target rec e db)
         else (Inl (if current = {} then Value_Error ''invalid Windows network current state set''
                    else State_Conflict_Error ''Windows network operation transition conflict''), db)
     | None \<Rightarrow> (Inl (if current = {} then Value_Error ''invalid Windows network current state set''
                    else State_Conflict_Error ''Windows network operation transition conflict''), db))"
proof -
  have count: "row_count (\<lambda>r. wo_key r = key \<and> wo_state r \<in> current) (t_winops db)
      = (case winop_of db key of None \<Rightarrow> 0 | Some r \<Rightarrow> if wo_state r \<in> current then 1 else 0)"
    using assms unfolding winop_of_def winops_wf_def by (simp add: row_count_key)
  have same: "windows_operation_of key (set_winop_state now key current target rec e db)
      = (Inr (moved_winop now target rec e r), set_winop_state now key current target rec e db)"
    if "winop_of db key = Some r" "wo_state r \<in> current" for r
  proof -
    have "wo_key r = key" using winop_of_key [OF that(1)] by simp
    then have "winop_of (set_winop_state now key current target rec e db) key
        = Some (moved_winop now target rec e r)"
      using that by (simp add: winop_of_set_state)
    then show ?thesis by (simp add: windows_operation_of_def winop_of_def)
  qed
  show ?thesis
    by (cases "winop_of db key") (auto simp: transition_windows_operation_def count same)
qed

lemma transition_winop_SomeD:
  assumes "winops_wf db" and "transition_windows_operation now key current target rec e db = (Inr op, db')"
  obtains r where "winop_of db key = Some r" "wo_state r \<in> current" "op = moved_winop now target rec e r"
    "db' = set_winop_state now key current target rec e db"
  using assms(2) unfolding transition_winop [OF assms(1)] by (auto split: option.splits if_splits)

lemma transition_winop_InlD:
  "transition_windows_operation now key current target rec e db = (Inl x, db') \<Longrightarrow> winops_wf db \<Longrightarrow> db' = db"
  by (auto simp: transition_winop split: option.splits if_splits)

text \<open>A move is legitimate when it leaves an operation that has not ended.\<close>

lemma set_winop_state_wf:
  assumes "winops_wf db" and "current \<subseteq> WINOP_INCOMPLETE"
  shows "winops_wf (set_winop_state now key current s rec e db)"
proof -
  let ?P = "\<lambda>r. wo_key r = key \<and> wo_state r \<in> current"
  have "wo_completed_at (if ?P r then moved_winop now s rec e r else r) \<noteq> None
      \<longleftrightarrow> wo_state (if ?P r then moved_winop now s rec e r else r) \<in> WINOP_TERMINAL"
    if "r \<in> set (t_winops db)" for r
    using that assms by (auto simp: winops_wf_def moved_winop_def winop_states)
  then have "\<forall>r \<in> set (upd_where ?P (moved_winop now s rec e) (t_winops db)).
      wo_completed_at r \<noteq> None \<longleftrightarrow> wo_state r \<in> WINOP_TERMINAL"
    unfolding set_upd_where by blast
  then show ?thesis
    using assms(1) unfolding winops_wf_def set_winop_state_rows by simp
qed

lemma transition_winop_wf:
  assumes "winops_wf db" and "current \<subseteq> WINOP_INCOMPLETE"
  shows "winops_wf (snd (transition_windows_operation now key current s rec e db))"
  using assms set_winop_state_wf [OF assms] by (auto simp: transition_winop split: option.splits)

lemma windows_operation_of_store [simp]: "snd (windows_operation_of key db) = db"
  by (simp add: windows_operation_of_def split: option.split)

lemma begin_winop_cases:
  obtains (existing) r where "winop_of db key = Some r" "wo_intent_hash r = winop_intent_hash sha action guid target"
      "begin_windows_operation sha now oid key action guid target previous db = (Inr r, db)"
  | (reused) r where "winop_of db key = Some r" "wo_intent_hash r \<noteq> winop_intent_hash sha action guid target"
      "begin_windows_operation sha now oid key action guid target previous db =
         (Inl (Duplicate_Conflict_Error ''Windows network idempotency key was reused for another intent''), db)"
  | (clash) "winop_of db key = None" "oid \<in> wo_operation_id ` set (t_winops db)"
      "begin_windows_operation sha now oid key action guid target previous db = (Inl Integrity_Error, db)"
  | (new) "winop_of db key = None" "oid \<notin> wo_operation_id ` set (t_winops db)"
      "begin_windows_operation sha now oid key action guid target previous db =
         (Inr (new_winop sha now oid key action guid target previous),
          db\<lparr>t_winops := t_winops db @ [new_winop sha now oid key action guid target previous]\<rparr>)"
proof (cases "winop_of db key")
  case None
  then have "key \<notin> wo_key ` set (t_winops db)" unfolding winop_of_def by (simp add: find_key_None)
  then show ?thesis
    using None that(3,4) unfolding begin_windows_operation_def winop_of_def windows_operation_of_def
    by (auto simp: insert_winop_def new_winop_def find_append)
next
  case (Some r)
  then show ?thesis
    using that(1,2) unfolding begin_windows_operation_def winop_of_def by auto
qed

lemma begin_winop_wf:
  assumes "winops_wf db"
  shows "winops_wf (snd (begin_windows_operation sha now oid key action guid target previous db))"
proof (cases rule: begin_winop_cases [of db key sha action guid target now oid previous])
  case new
  have "key \<notin> wo_key ` set (t_winops db)" using new(1) unfolding winop_of_def by (simp add: find_key_None)
  then show ?thesis
    using new assms by (auto simp: winops_wf_def new_winop_def WINOP_TERMINAL_def)
qed (use assms in simp_all)

section \<open>The journal as a step relation\<close>

text \<open>
  One step per call of the controller on the journal.  No call expects an ended state, so the end
  of an operation is final.
\<close>

inductive winop_step :: "store \<Rightarrow> store \<Rightarrow> bool" where
  begin_op: "winop_step db (snd (begin_windows_operation sha now oid key action guid target previous db))"
| already: "winop_step db (snd (transition_windows_operation now key
      {Intent_Recorded, Op_Running, Op_Reconciling} Op_Completed rec e db))"
| start: "winop_step db (snd (transition_windows_operation now key
      {Intent_Recorded, Op_Reconciling} Op_Running rec e db))"
| finish: "s \<in> WINOP_TERMINAL \<Longrightarrow>
    winop_step db (snd (transition_windows_operation now key {Op_Running} s rec e db))"
| reconcile: "winop_step db (snd (transition_windows_operation now key
      {Intent_Recorded, Op_Running, Op_Reconciling} Op_Reconciling rec e db))"
| resolve: "s \<in> WINOP_TERMINAL \<Longrightarrow>
    winop_step db (snd (transition_windows_operation now key {Op_Reconciling} s rec e db))"

lemma winop_step_wf: "winop_step db db' \<Longrightarrow> winops_wf db \<Longrightarrow> winops_wf db'"
  by (induction rule: winop_step.induct)
    (auto intro!: begin_winop_wf transition_winop_wf simp: WINOP_INCOMPLETE_def)

lemma winop_steps_wf: "winop_step\<^sup>*\<^sup>* db db' \<Longrightarrow> winops_wf db \<Longrightarrow> winops_wf db'"
  by (induction rule: rtranclp_induct) (auto intro: winop_step_wf)

lemma ended_survives_transition:
  assumes "winops_wf db" and "winop_of db k = Some r" and "wo_state r \<in> WINOP_TERMINAL"
    and "current \<subseteq> WINOP_INCOMPLETE"
  shows "winop_of (snd (transition_windows_operation now key current s rec e db)) k = Some r"
proof -
  have "wo_state r \<notin> current" using assms(3,4) by (auto simp: winop_states)
  then show ?thesis
    using assms(1,2) by (auto simp: transition_winop winop_of_set_state split: option.splits)
qed

lemma ended_survives_begin:
  assumes "winop_of db k = Some r"
  shows "winop_of (snd (begin_windows_operation sha now oid key action guid target previous db)) k = Some r"
proof (cases rule: begin_winop_cases [of db key sha action guid target now oid previous])
  case new
  then show ?thesis using assms by (simp add: winop_of_def find_append)
qed (use assms in simp_all)

lemma ended_survives_step:
  assumes "winop_step db db'" and "winops_wf db" and "winop_of db k = Some r" and "wo_state r \<in> WINOP_TERMINAL"
  shows "winop_of db' k = Some r"
  using assms
  by (cases rule: winop_step.cases)
    (auto intro!: ended_survives_begin ended_survives_transition simp: WINOP_INCOMPLETE_def)

lemma ended_survives_steps:
  assumes "winop_step\<^sup>*\<^sup>* db db'" and "winops_wf db" and "winop_of db k = Some r" and "wo_state r \<in> WINOP_TERMINAL"
  shows "winop_of db' k = Some r"
  using assms(1)
proof (induction rule: rtranclp_induct)
  case base
  show ?case by (rule assms(3))
next
  case (step y z)
  then show ?case by (blast intro: ended_survives_step winop_steps_wf [OF step.hyps(1) assms(2)] assms(4))
qed

end
