(* ===== verification/Windows_Network.thy ===== *)
theory Windows_Network
  imports Windows_Operations
begin

text \<open>
  \<open>WindowsNetworkController\<close> (\<open>platforms/windows/network_controller.py\<close>): local Wi-Fi control under an
  allowlist, journalled by \<open>Windows_Operations\<close>, with a rollback to the previous profile.  The radio
  (\<open>native_wifi\<close> and the scan collector) is a parameter: functions on an unknown world that return an
  error or a value and the world afterwards; a query also tells how many milliseconds it took.  The
  awaits of the controller are where time passes, where the task can be cancelled (the radio then
  answers \<open>Wifi_Cancelled\<close>) and where other tasks use the store.
\<close>

section \<open>Errors and the radio\<close>

datatype wifi_error =
    Wifi_Error string
  | Wifi_Timeout
  | Wifi_Cancelled
  | Wifi_Other string

datatype control_error = Raised py_error | Radio wifi_error

fun py_error_name :: "py_error \<Rightarrow> string" where
  "py_error_name (Value_Error _) = ''ValueError''"
| "py_error_name (State_Conflict_Error _) = ''StateConflictError''"
| "py_error_name (Duplicate_Conflict_Error _) = ''DuplicateConflictError''"
| "py_error_name Integrity_Error = ''IntegrityError''"
| "py_error_name (Runtime_Error _) = ''RuntimeError''"
| "py_error_name (Key_Error _) = ''KeyError''"
| "py_error_name (Permission_Error _) = ''PermissionError''"
| "py_error_name (Identity_Not_Enrolled_Error _) = ''IdentityNotEnrolledError''"
| "py_error_name (Secure_Store_Unavailable_Error _) = ''SecureStoreUnavailableError''"
| "py_error_name Transport_Error = ''TransportError''"
| "py_error_name Agent_Authentication_Failed = ''AgentAuthenticationFailed''"
| "py_error_name Contract_Validation_Error = ''ContractValidationError''"
| "py_error_name Cancelled_Error = ''CancelledError''"
| "py_error_name Plugin_Unavailable_Error = ''PluginUnavailableError''"
| "py_error_name Attribute_Error = ''AttributeError''"

fun error_name :: "control_error \<Rightarrow> string" where
  "error_name (Raised e) = py_error_name e"
| "error_name (Radio (Wifi_Error _)) = ''NativeWifiError''"
| "error_name (Radio Wifi_Timeout) = ''TimeoutError''"
| "error_name (Radio Wifi_Cancelled) = ''CancelledError''"
| "error_name (Radio (Wifi_Other name)) = name"

record 'w radio =
  rd_profiles :: "uuid \<Rightarrow> 'w \<Rightarrow> (wifi_error + string list) \<times> 'w"
  rd_connection :: "uuid \<Rightarrow> 'w \<Rightarrow> (wifi_error + string option) \<times> nat \<times> 'w"
  rd_connect :: "uuid \<Rightarrow> string \<Rightarrow> 'w \<Rightarrow> (wifi_error + unit) \<times> 'w"
  rd_disconnect :: "uuid \<Rightarrow> 'w \<Rightarrow> (wifi_error + unit) \<times> 'w"
  rd_scan :: "uuid \<Rightarrow> 'w \<Rightarrow> (wifi_error + string option) \<times> 'w"
  rd_sleep :: "'w \<Rightarrow> (wifi_error + unit) \<times> 'w"
  rd_cancelled :: "'w \<Rightarrow> bool"

record wifi_policy =
  wp_enabled :: bool
  wp_admin :: bool
  wp_guids :: "uuid set"
  wp_profiles :: "string set"
  wp_uuid :: "string \<Rightarrow> uuid option"

text \<open>Clock readings, the fresh operation id, and what other tasks do to the store while an operation
  waits for the radio.\<close>

record wifi_env =
  we_sha :: "string \<Rightarrow> string"
  we_operation_id :: uuid
  we_begun :: stamp
  we_started :: stamp
  we_ended :: stamp
  we_during :: "store \<Rightarrow> store"

section \<open>Guards and observations\<close>

definition authorize :: "wifi_policy \<Rightarrow> string \<Rightarrow> bool \<Rightarrow> py_error + uuid" where
  "authorize p guid confirmed =
     (if \<not> wp_enabled p then Inl (Permission_Error ''local Wi-Fi control is disabled by policy'')
      else if \<not> confirmed then Inl (Permission_Error ''explicit administrative confirmation is required'')
      else if \<not> wp_admin p
      then Inl (Permission_Error ''local Wi-Fi control requires an elevated administrator'')
      else case wp_uuid p guid of
             None \<Rightarrow> Inl (Value_Error ''badly formed hexadecimal UUID string'')
           | Some g \<Rightarrow>
               if g \<notin> wp_guids p
               then Inl (Permission_Error ''interface GUID is not locally allowlisted'')
               else Inr g)"

definition available_profiles :: "wifi_policy \<Rightarrow> 'w radio \<Rightarrow> uuid \<Rightarrow> 'w \<Rightarrow> (wifi_error + string list) \<times> 'w" where
  "available_profiles p r g w =
     (case rd_profiles r g w of
        (Inl e, w') \<Rightarrow> (Inl e, w')
      | (Inr names, w') \<Rightarrow> (Inr (filter (\<lambda>n. n \<in> wp_profiles p) names), w'))"

definition list_profiles ::
  "wifi_policy \<Rightarrow> 'w radio \<Rightarrow> string \<Rightarrow> bool \<Rightarrow> 'w \<Rightarrow> (control_error + string list) \<times> 'w" where
  "list_profiles p r guid confirmed w =
     (case authorize p guid confirmed of
        Inl e \<Rightarrow> (Inl (Raised e), w)
      | Inr g \<Rightarrow>
          (case available_profiles p r g w of
             (Inl e, w') \<Rightarrow> (Inl (Radio e), w')
           | (Inr names, w') \<Rightarrow> (Inr names, w')))"

definition current_profile :: "'w radio \<Rightarrow> uuid \<Rightarrow> 'w \<Rightarrow> (wifi_error + string option) \<times> nat \<times> 'w" where
  "current_profile r g w =
     (case rd_connection r g w of
        (Inr name, d, w') \<Rightarrow> (Inr (if name = Some [] then None else name), d, w')
      | (Inl e, d, w') \<Rightarrow> if e = Wifi_Error ''invalid_state'' then (Inr None, d, w') else (Inl e, d, w'))"

section \<open>Waiting for a profile and rolling back\<close>

text \<open>
  The loop of \<open>_wait_for_profile\<close> under \<open>asyncio.timeout\<close>: \<open>t\<close> is the time since the start in
  milliseconds, and an await that is not over at the deadline raises \<open>TimeoutError\<close>.  Every round sleeps
  for 200 ms, so the time left is a measure.
\<close>

function wait_for_profile ::
  "'w radio \<Rightarrow> uuid \<Rightarrow> string option \<Rightarrow> ('w \<Rightarrow> bool) \<Rightarrow> nat \<Rightarrow> nat \<Rightarrow> 'w \<Rightarrow> (wifi_error + unit) \<times> 'w" where
  "wait_for_profile r g expected cancelled deadline t w =
     (if cancelled w then (Inl Wifi_Cancelled, w)
      else case current_profile r g w of
        (res, d, w1) \<Rightarrow>
          if deadline \<le> t + d then (Inl Wifi_Timeout, w1)
          else (case res of
              Inl e \<Rightarrow> (Inl e, w1)
            | Inr current \<Rightarrow>
                if current = expected then (Inr (), w1)
                else (case rd_sleep r w1 of
                    (Inl e, w2) \<Rightarrow> (Inl e, w2)
                  | (Inr _, w2) \<Rightarrow>
                      if deadline \<le> t + d + 200 then (Inl Wifi_Timeout, w2)
                      else wait_for_profile r g expected cancelled deadline (t + d + 200) w2)))"
  by pat_completeness auto
termination by (relation "measure (\<lambda>(r, g, expected, cancelled, deadline, t, w). deadline - t)") auto

declare wait_for_profile.simps [simp del]

definition rollback ::
  "wifi_policy \<Rightarrow> 'w radio \<Rightarrow> uuid \<Rightarrow> string option \<Rightarrow> nat \<Rightarrow> 'w \<Rightarrow> (wifi_error + bool) \<times> 'w" where
  "rollback p r g previous timeout w =
     (case previous of
        None \<Rightarrow> (Inr False, w)
      | Some name \<Rightarrow>
          if name \<notin> wp_profiles p then (Inr False, w)
          else (case rd_connect r g name w of
              (Inl e, w1) \<Rightarrow> (if e = Wifi_Cancelled then Inl e else Inr False, w1)
            | (Inr _, w1) \<Rightarrow>
                (case wait_for_profile r g (Some name) (\<lambda>_. False) timeout 0 w1 of
                   (Inl e, w2) \<Rightarrow> (if e = Wifi_Cancelled then Inl e else Inr False, w2)
                 | (Inr _, w2) \<Rightarrow> (Inr True, w2))))"

section \<open>Connect and disconnect\<close>

text \<open>The part both share: the intent is recorded, an ended operation is returned as it is, an operation
  whose goal already holds is completed, and otherwise the operation is started.\<close>

definition journaled ::
  "wifi_env \<Rightarrow> uuid \<Rightarrow> uuid \<Rightarrow> string \<Rightarrow> string option \<Rightarrow> string option \<Rightarrow> string \<Rightarrow> bool
    \<Rightarrow> ('w \<Rightarrow> store \<Rightarrow> (control_error + windows_operation) \<times> 'w \<times> store)
    \<Rightarrow> 'w \<Rightarrow> store \<Rightarrow> (control_error + windows_operation) \<times> 'w \<times> store" where
  "journaled env g key action target previous why holds body w db =
     (case begin_windows_operation (we_sha env) (we_begun env) (we_operation_id env) key action g
             target previous db of
        (Inl e, db1) \<Rightarrow> (Inl (Raised e), w, db1)
      | (Inr op, db1) \<Rightarrow>
          if wo_state op \<in> WINOP_TERMINAL then (Inr op, w, db1)
          else if holds then
            (case transition_windows_operation (we_started env) key
                    {Intent_Recorded, Op_Running, Op_Reconciling} Op_Completed (Some why) None db1 of
               (Inl e, db2) \<Rightarrow> (Inl (Raised e), w, db2)
             | (Inr op', db2) \<Rightarrow> (Inr op', w, db2))
          else
            (case transition_windows_operation (we_started env) key
                    {Intent_Recorded, Op_Reconciling} Op_Running None None db1 of
               (Inl e, db2) \<Rightarrow> (Inl (Raised e), w, db2)
             | (Inr _, db2) \<Rightarrow> body w (we_during env db2)))"

text \<open>The two exception handlers: the rollback, then the transition that ends the operation.  They also
  catch a failure of the transition to \<open>completed\<close>, which stands inside the \<open>try\<close>.\<close>

definition connect_verdict :: "control_error \<Rightarrow> bool \<Rightarrow> winop_state \<times> string option \<times> string option" where
  "connect_verdict err back =
     (if err = Radio Wifi_Cancelled then (Op_Cancelled, Some ''rollback_attempted'', None)
      else (if back then Op_Rolled_Back else Op_Failed,
            if back then Some ''previous_profile_restored'' else None, Some (error_name err)))"

definition disconnect_verdict :: "control_error \<Rightarrow> bool \<Rightarrow> winop_state \<times> string option \<times> string option" where
  "disconnect_verdict err back =
     (if back then Op_Rolled_Back else if err = Radio Wifi_Cancelled then Op_Cancelled else Op_Failed,
      if back then Some ''previous_profile_restored'' else None,
      if err = Radio Wifi_Cancelled then None else Some (error_name err))"

definition abort_operation ::
  "wifi_policy \<Rightarrow> 'w radio \<Rightarrow> wifi_env \<Rightarrow> (control_error \<Rightarrow> bool \<Rightarrow> winop_state \<times> string option \<times> string option)
    \<Rightarrow> uuid \<Rightarrow> uuid \<Rightarrow> string option \<Rightarrow> nat \<Rightarrow> control_error \<Rightarrow> 'w \<Rightarrow> store
    \<Rightarrow> (control_error + windows_operation) \<times> 'w \<times> store" where
  "abort_operation p r env verdict g key previous timeout err w db =
     (case rollback p r g previous timeout w of
        (Inl e, w1) \<Rightarrow> (Inl (Radio e), w1, db)
      | (Inr back, w1) \<Rightarrow>
          (case verdict err back of
             (target, result, name) \<Rightarrow>
               (case transition_windows_operation (we_ended env) key {Op_Running} target result name db of
                  (Inl e, db') \<Rightarrow> (Inl (Raised e), w1, db')
                | (Inr op, db') \<Rightarrow> (Inr op, w1, db'))))"

definition attempt ::
  "wifi_policy \<Rightarrow> 'w radio \<Rightarrow> wifi_env \<Rightarrow> (control_error \<Rightarrow> bool \<Rightarrow> winop_state \<times> string option \<times> string option)
    \<Rightarrow> ('w \<Rightarrow> (wifi_error + unit) \<times> 'w) \<Rightarrow> uuid \<Rightarrow> uuid \<Rightarrow> string option \<Rightarrow> string option \<Rightarrow> nat \<Rightarrow> 'w \<Rightarrow> store
    \<Rightarrow> (control_error + windows_operation) \<times> 'w \<times> store" where
  "attempt p r env verdict action g key expected previous timeout w db =
     (case (if rd_cancelled r w then (Inl Wifi_Cancelled, w)
            else case action w of
                   (Inl e, w1) \<Rightarrow> (Inl e, w1)
                 | (Inr _, w1) \<Rightarrow> wait_for_profile r g expected (rd_cancelled r) timeout 0 w1) of
        (Inl e, w2) \<Rightarrow> abort_operation p r env verdict g key previous timeout (Radio e) w2 db
      | (Inr _, w2) \<Rightarrow>
          (case transition_windows_operation (we_ended env) key {Op_Running} Op_Completed None None db of
             (Inr op, db') \<Rightarrow> (Inr op, w2, db')
           | (Inl e, db') \<Rightarrow> abort_operation p r env verdict g key previous timeout (Raised e) w2 db'))"

definition wifi_connect ::
  "wifi_policy \<Rightarrow> 'w radio \<Rightarrow> wifi_env \<Rightarrow> string \<Rightarrow> string \<Rightarrow> string \<Rightarrow> bool \<Rightarrow> nat \<Rightarrow> 'w \<Rightarrow> store
    \<Rightarrow> (control_error + windows_operation) \<times> 'w \<times> store" where
  "wifi_connect p r env guid profile key confirmed timeout w db =
     (case authorize p guid confirmed of
        Inl e \<Rightarrow> (Inl (Raised e), w, db)
      | Inr g \<Rightarrow>
          if wp_uuid p key = None
          then (Inl (Raised (Value_Error ''badly formed hexadecimal UUID string'')), w, db)
          else if profile \<notin> wp_profiles p
          then (Inl (Raised (Permission_Error ''profile is not locally allowlisted'')), w, db)
          else (case available_profiles p r g w of
              (Inl e, w1) \<Rightarrow> (Inl (Radio e), w1, db)
            | (Inr names, w1) \<Rightarrow>
                if profile \<notin> set names
                then (Inl (Raised (Permission_Error ''allowlisted profile does not exist on interface'')), w1, db)
                else (case current_profile r g w1 of
                    (Inl e, d, w2) \<Rightarrow> (Inl (Radio e), w2, db)
                  | (Inr previous, d, w2) \<Rightarrow>
                      journaled env g key ''connect'' (Some profile) previous ''target_already_connected''
                        (previous = Some profile)
                        (attempt p r env connect_verdict (rd_connect r g profile) g key (Some profile)
                           previous timeout) w2 db)))"

definition wifi_disconnect ::
  "wifi_policy \<Rightarrow> 'w radio \<Rightarrow> wifi_env \<Rightarrow> string \<Rightarrow> string \<Rightarrow> bool \<Rightarrow> nat \<Rightarrow> 'w \<Rightarrow> store
    \<Rightarrow> (control_error + windows_operation) \<times> 'w \<times> store" where
  "wifi_disconnect p r env guid key confirmed timeout w db =
     (case authorize p guid confirmed of
        Inl e \<Rightarrow> (Inl (Raised e), w, db)
      | Inr g \<Rightarrow>
          if wp_uuid p key = None
          then (Inl (Raised (Value_Error ''badly formed hexadecimal UUID string'')), w, db)
          else (case current_profile r g w of
              (Inl e, d, w1) \<Rightarrow> (Inl (Radio e), w1, db)
            | (Inr previous, d, w1) \<Rightarrow>
                journaled env g key ''disconnect'' None previous ''interface_already_disconnected''
                  (previous = None)
                  (attempt p r env disconnect_verdict (rd_disconnect r g) g key None previous timeout)
                  w1 db))"

section \<open>Reconciliation after a restart, and scans\<close>

definition reconcile_one ::
  "wifi_policy \<Rightarrow> 'w radio \<Rightarrow> wifi_env \<Rightarrow> nat \<Rightarrow> windows_operation \<Rightarrow> 'w \<Rightarrow> store
    \<Rightarrow> (control_error + unit) \<times> 'w \<times> store" where
  "reconcile_one p r env timeout op w db =
     (case transition_windows_operation (we_started env) (wo_key op)
             {Intent_Recorded, Op_Running, Op_Reconciling} Op_Reconciling None None db of
        (Inl e, db1) \<Rightarrow> (Inl (Raised e), w, db1)
      | (Inr _, db1) \<Rightarrow>
          (case current_profile r (wo_interface_guid op) w of
             (Inl e, d, w1) \<Rightarrow> (Inl (Radio e), w1, db1)
           | (Inr current, d, w1) \<Rightarrow>
               (case (if wo_action op = ''connect'' \<and> current = wo_target_profile op
                      then (Inr (Op_Completed, ''target_connected_after_restart''), w1)
                      else if wo_action op = ''disconnect'' \<and> current = None
                      then (Inr (Op_Completed, ''interface_disconnected_after_restart''), w1)
                      else case rollback p r (wo_interface_guid op) (wo_previous_profile op) timeout w1 of
                             (Inl e, w2) \<Rightarrow> (Inl e, w2)
                           | (Inr back, w2) \<Rightarrow>
                               (Inr (if back then (Op_Rolled_Back, ''previous_profile_restored'')
                                     else (Op_Failed, ''state_ambiguous'')), w2)) of
                  (Inl e, w2) \<Rightarrow> (Inl (Radio e), w2, db1)
                | (Inr (state, result), w2) \<Rightarrow>
                    (case transition_windows_operation (we_ended env) (wo_key op) {Op_Reconciling} state
                            (Some result) None (we_during env db1) of
                       (Inl e, db2) \<Rightarrow> (Inl (Raised e), w2, db2)
                     | (Inr _, db2) \<Rightarrow> (Inr (), w2, db2)))))"

fun reconcile_rows ::
  "wifi_policy \<Rightarrow> 'w radio \<Rightarrow> wifi_env \<Rightarrow> nat \<Rightarrow> windows_operation list \<Rightarrow> nat \<Rightarrow> 'w \<Rightarrow> store
    \<Rightarrow> (control_error + nat) \<times> 'w \<times> store" where
  "reconcile_rows p r env timeout [] n w db = (Inr n, w, db)"
| "reconcile_rows p r env timeout (op # ops) n w db =
     (case reconcile_one p r env timeout op w db of
        (Inl e, w', db') \<Rightarrow> (Inl e, w', db')
      | (Inr _, w', db') \<Rightarrow> reconcile_rows p r env timeout ops (Suc n) w' db')"

definition reconcile_incomplete ::
  "wifi_policy \<Rightarrow> 'w radio \<Rightarrow> wifi_env \<Rightarrow> nat \<Rightarrow> 'w \<Rightarrow> store \<Rightarrow> (control_error + nat) \<times> 'w \<times> store" where
  "reconcile_incomplete p r env timeout w db =
     reconcile_rows p r env timeout (incomplete_windows_operations db) 0 w db"

text \<open>The value of a scan is the code of its reason, \<open>None\<close> when the snapshot is complete.\<close>

definition request_scan ::
  "wifi_policy \<Rightarrow> 'w radio \<Rightarrow> wifi_env \<Rightarrow> string \<Rightarrow> string \<Rightarrow> bool \<Rightarrow> 'w \<Rightarrow> store
    \<Rightarrow> (control_error + string option) \<times> 'w \<times> store" where
  "request_scan p r env guid key confirmed w db =
     (case authorize p guid confirmed of
        Inl e \<Rightarrow> (Inl (Raised e), w, db)
      | Inr g \<Rightarrow>
          if wp_uuid p key = None
          then (Inl (Raised (Value_Error ''badly formed hexadecimal UUID string'')), w, db)
          else (case begin_windows_operation (we_sha env) (we_begun env) (we_operation_id env) key ''scan'' g
                       None None db of
              (Inl e, db1) \<Rightarrow> (Inl (Raised e), w, db1)
            | (Inr op, db1) \<Rightarrow>
                if wo_state op \<in> WINOP_TERMINAL then (Inr (Some ''skipped''), w, db1)
                else (case transition_windows_operation (we_started env) key
                             {Intent_Recorded, Op_Reconciling} Op_Running None None db1 of
                    (Inl e, db2) \<Rightarrow> (Inl (Raised e), w, db2)
                  | (Inr _, db2) \<Rightarrow>
                      (case rd_scan r g w of
                         (Inr reason, w1) \<Rightarrow>
                           (case transition_windows_operation (we_ended env) key {Op_Running}
                                   (if reason = None then Op_Completed else Op_Failed) None reason
                                   (we_during env db2) of
                              (Inl e, db3) \<Rightarrow> (Inl (Raised e), w1, db3)
                            | (Inr _, db3) \<Rightarrow> (Inr reason, w1, db3))
                       | (Inl e, w1) \<Rightarrow>
                           if e = Wifi_Cancelled
                           then (case transition_windows_operation (we_ended env) key {Op_Running}
                                         Op_Cancelled None None (we_during env db2) of
                                   (Inl e', db3) \<Rightarrow> (Inl (Raised e'), w1, db3)
                                 | (Inr _, db3) \<Rightarrow> (Inl (Radio Wifi_Cancelled), w1, db3))
                           else (Inl (Radio e), w1, we_during env db2)))))"

end
