(* ===== verification/Windows_Properties.thy ===== *)
theory Windows_Properties
  imports Windows_Network
begin

text \<open>
  What the Windows controller guarantees: the wait for a profile ends within its deadline, an
  operation that was started ends in a terminal state that is in the journal, an operation reported
  as completed or rolled back stands on an observation of the interface made after it, and the
  reconciliation leaves no incomplete operation.
\<close>

section \<open>The wait\<close>

text \<open>The world before the poll number \<open>n\<close>, when every earlier one saw another profile.\<close>

fun poll_world :: "'w radio \<Rightarrow> uuid \<Rightarrow> nat \<Rightarrow> 'w \<Rightarrow> 'w" where
  "poll_world r g 0 w = w"
| "poll_world r g (Suc n) w = poll_world r g n (snd (rd_sleep r (snd (snd (current_profile r g w)))))"

definition wait_end ::
  "'w radio \<Rightarrow> uuid \<Rightarrow> string option \<Rightarrow> ('w \<Rightarrow> bool) \<Rightarrow> 'w \<Rightarrow> (wifi_error + unit) \<Rightarrow> 'w \<Rightarrow> bool" where
  "wait_end r g expected cancelled w0 res w' \<longleftrightarrow>
     (case res of
        Inr _ \<Rightarrow> (\<exists>d. current_profile r g w0 = (Inr expected, d, w'))
      | Inl e \<Rightarrow> e = Wifi_Timeout \<or> (e = Wifi_Cancelled \<and> cancelled w0 \<and> w' = w0)
          \<or> (\<exists>d. current_profile r g w0 = (Inl e, d, w'))
          \<or> rd_sleep r (snd (snd (current_profile r g w0))) = (Inl e, w'))"

lemma wait_ends:
  assumes "wait_for_profile r g expected cancelled deadline t w = (res, w')"
  shows "\<exists>n. (n = 0 \<or> t + 200 * n < deadline) \<and> wait_end r g expected cancelled (poll_world r g n w) res w'"
  using assms
proof (induction r g expected cancelled deadline t w rule: wait_for_profile.induct)
  case (1 r g expected cancelled deadline t w)
  obtain cur d w1 where q: "current_profile r g w = (cur, d, w1)" by (cases "current_profile r g w")
  obtain s w2 where sl: "rd_sleep r w1 = (s, w2)" by (cases "rd_sleep r w1")
  show ?case
  proof (cases "\<not> cancelled w \<and> t + d + 200 < deadline \<and> (\<exists>c. cur = Inr c \<and> c \<noteq> expected) \<and> s = Inr ()")
    case True
    then obtain c where c: "cur = Inr c" "c \<noteq> expected" by blast
    have "wait_for_profile r g expected cancelled deadline (t + d + 200) w2 = (res, w')"
      using "1.prems" True c q sl by (subst (asm) wait_for_profile.simps) simp
    with True c q sl obtain n where n: "n = 0 \<or> t + d + 200 + 200 * n < deadline"
      "wait_end r g expected cancelled (poll_world r g n w2) res w'"
      using "1.IH" [of cur "(d, w1)" d w1 c s w2 "()"] by auto
    have "t + 200 * Suc n < deadline" using n(1) True by auto
    moreover have "poll_world r g (Suc n) w = poll_world r g n w2" using q sl by simp
    ultimately show ?thesis using n(2) by metis
  next
    case False
    then have "wait_end r g expected cancelled w res w'"
      using "1.prems" q sl
      by (subst (asm) wait_for_profile.simps)
        (auto simp: wait_end_def split: if_splits sum.splits)
    then show ?thesis by (intro exI [of _ 0]) simp
  qed
qed

lemma wait_observes:
  "wait_for_profile r g expected cancelled deadline t w = (Inr u, w')
    \<Longrightarrow> \<exists>w0 d. current_profile r g w0 = (Inr expected, d, w')"
  by (drule wait_ends) (auto simp: wait_end_def)

text \<open>A radio that never reports the cancellation of the task itself.\<close>

definition uninterrupted :: "'w radio \<Rightarrow> bool" where
  "uninterrupted r \<longleftrightarrow> (\<forall>g w. fst (rd_connection r g w) \<noteq> Inl Wifi_Cancelled)
     \<and> (\<forall>g name w. fst (rd_connect r g name w) \<noteq> Inl Wifi_Cancelled)
     \<and> (\<forall>w. fst (rd_sleep r w) \<noteq> Inl Wifi_Cancelled)"

lemma current_profile_uninterrupted: "uninterrupted r \<Longrightarrow> current_profile r g w \<noteq> (Inl Wifi_Cancelled, d, w')"
  unfolding uninterrupted_def current_profile_def by (auto split: prod.splits sum.splits if_splits; metis fst_conv)

lemma wait_uninterrupted:
  assumes "uninterrupted r"
  shows "wait_for_profile r g expected (\<lambda>_. False) deadline t w \<noteq> (Inl Wifi_Cancelled, w')"
proof
  assume "wait_for_profile r g expected (\<lambda>_. False) deadline t w = (Inl Wifi_Cancelled, w')"
  from wait_ends [OF this] obtain n
    where end_n: "wait_end r g expected (\<lambda>_. False) (poll_world r g n w) (Inl Wifi_Cancelled) w'" by blast
  have "rd_sleep r v \<noteq> (Inl Wifi_Cancelled, w')" for v
    using assms unfolding uninterrupted_def by (metis fst_conv)
  with end_n show False
    using current_profile_uninterrupted [OF assms] unfolding wait_end_def by auto
qed

lemma rollback_uninterrupted:
  assumes "uninterrupted r"
  obtains b w' where "rollback p r g previous timeout w = (Inr b, w')"
proof -
  have no: "rd_connect r g name v \<noteq> (Inl Wifi_Cancelled, w')" for name v w'
    using assms unfolding uninterrupted_def by (metis fst_conv)
  have "\<exists>b w'. rollback p r g previous timeout w = (Inr b, w')"
  proof (cases "\<exists>name. previous = Some name \<and> name \<in> wp_profiles p")
    case False
    then show ?thesis unfolding rollback_def by (auto split: option.split)
  next
    case True
    then obtain name where name: "previous = Some name" "name \<in> wp_profiles p" by blast
    obtain c w1 where c: "rd_connect r g name w = (c, w1)" by fastforce
    obtain v w2 where v: "wait_for_profile r g (Some name) (\<lambda>_. False) timeout 0 w1 = (v, w2)" by fastforce
    show ?thesis
      using no [of name w w1] wait_uninterrupted [OF assms, of g "Some name" timeout 0 w1 w2] name c v
      unfolding rollback_def by (cases c; cases v) auto
  qed
  then show ?thesis using that by blast
qed

lemma rollback_restores:
  assumes "rollback p r g previous timeout w = (Inr True, w')"
  obtains name w0 d where "previous = Some name" "name \<in> wp_profiles p"
    "current_profile r g w0 = (Inr (Some name), d, w')"
  using assms that unfolding rollback_def
  by (auto split: option.splits prod.splits sum.splits if_splits dest!: wait_observes)

section \<open>A started operation\<close>

definition keeps_winop :: "uuid \<Rightarrow> (store \<Rightarrow> store) \<Rightarrow> bool" where
  "keeps_winop key f \<longleftrightarrow>
     (\<forall>db. winops_wf db \<longrightarrow> winops_wf (f db) \<and> winop_of (f db) key = winop_of db key)"

definition settles :: "(control_error \<Rightarrow> bool \<Rightarrow> winop_state \<times> string option \<times> string option) \<Rightarrow> bool" where
  "settles verdict \<longleftrightarrow>
     (\<forall>err b. fst (verdict err b) \<in> {Op_Failed, Op_Cancelled, Op_Rolled_Back}
        \<and> (fst (verdict err b) = Op_Rolled_Back \<longrightarrow> b))"

lemma verdicts_settle: "settles connect_verdict" "settles disconnect_verdict"
  by (simp_all add: settles_def connect_verdict_def disconnect_verdict_def)

lemma running_transition:
  assumes "winops_wf db" and "winop_of db key = Some row" and "wo_state row \<in> current"
  shows "transition_windows_operation now key current target result name db
    = (Inr (moved_winop now target result name row), set_winop_state now key current target result name db)"
  using assms by (simp add: transition_winop)

lemma stored_after:
  assumes "winop_of db key = Some row" and "wo_state row \<in> current"
  shows "winop_of (set_winop_state now key current target result name db) key
    = Some (moved_winop now target result name row)"
  using assms winop_of_key [OF assms(1)] by (simp add: winop_of_set_state)

lemma attempt_cases:
  assumes "winops_wf db" and "winop_of db key = Some row" and "wo_state row = Op_Running"
  obtains (reached) w0 d w' where "current_profile r g w0 = (Inr expected, d, w')"
      "attempt p r env verdict action g key expected previous timeout w db =
         (Inr (moved_winop (we_ended env) Op_Completed None None row), w',
          set_winop_state (we_ended env) key {Op_Running} Op_Completed None None db)"
  | (interrupted) e w1 w' where "rollback p r g previous timeout w1 = (Inl e, w')"
      "attempt p r env verdict action g key expected previous timeout w db = (Inl (Radio e), w', db)"
  | (aborted) err b w1 w' where "rollback p r g previous timeout w1 = (Inr b, w')"
      "attempt p r env verdict action g key expected previous timeout w db =
         (case verdict err b of (target, result, name) \<Rightarrow>
            (Inr (moved_winop (we_ended env) target result name row), w',
             set_winop_state (we_ended env) key {Op_Running} target result name db))"
proof -
  let ?out = "if rd_cancelled r w then (Inl Wifi_Cancelled, w)
            else case action w of
                   (Inl e, w1) \<Rightarrow> (Inl e, w1)
                 | (Inr _, w1) \<Rightarrow> wait_for_profile r g expected (rd_cancelled r) timeout 0 w1"
  have end_row: "transition_windows_operation now key {Op_Running} target result name db
    = (Inr (moved_winop now target result name row), set_winop_state now key {Op_Running} target result name db)"
    for now target result name
    using assms by (simp add: running_transition)
  obtain out w1 where out: "?out = (out, w1)" by fastforce
  show ?thesis
  proof (cases out)
    case (Inr u)
    with out have "\<exists>v. wait_for_profile r g expected (rd_cancelled r) timeout 0 v = (Inr u, w1)"
      by (auto split: if_splits prod.splits sum.splits)
    then obtain v where "wait_for_profile r g expected (rd_cancelled r) timeout 0 v = (Inr u, w1)" by blast
    from wait_observes [OF this] obtain w0 d where "current_profile r g w0 = (Inr expected, d, w1)" by blast
    then show ?thesis
      by (rule that(1)) (simp only: attempt_def out Inr prod.case sum.case end_row)
  next
    case (Inl e)
    have at: "attempt p r env verdict action g key expected previous timeout w db
      = abort_operation p r env verdict g key previous timeout (Radio e) w1 db"
      by (simp only: attempt_def out Inl prod.case sum.case)
    obtain b w' where b: "rollback p r g previous timeout w1 = (b, w')" by fastforce
    show ?thesis
    proof (cases b)
      case (Inl e')
      with b have "rollback p r g previous timeout w1 = (Inl e', w')" by simp
      then show ?thesis
        by (rule that(2)) (simp only: at abort_operation_def b Inl prod.case sum.case)
    next
      case (Inr v)
      with b have "rollback p r g previous timeout w1 = (Inr v, w')" by simp
      then show ?thesis
        by (rule that(3) [of _ _ _ "Radio e"])
          (simp only: at abort_operation_def b Inr prod.case sum.case end_row)
    qed
  qed
qed

definition recorded :: "uuid \<Rightarrow> windows_operation \<Rightarrow> store \<Rightarrow> bool" where
  "recorded key op db \<longleftrightarrow> winops_wf db \<and> winop_of db key = Some op \<and> wo_state op \<in> WINOP_TERMINAL"

lemma recorded_after:
  assumes "winops_wf db" and "winop_of db key = Some row" and "wo_state row \<in> current"
    and "current \<subseteq> WINOP_INCOMPLETE" and "target \<in> WINOP_TERMINAL"
  shows "recorded key (moved_winop now target result name row)
    (set_winop_state now key current target result name db)"
  using assms by (simp add: recorded_def stored_after set_winop_state_wf)

lemma attempt_ends:
  assumes "winops_wf db" and "winop_of db key = Some row" and "wo_state row = Op_Running"
    and "uninterrupted r" and "settles verdict"
  shows "\<exists>op w' db'. attempt p r env verdict action g key expected previous timeout w db = (Inr op, w', db')
    \<and> recorded key op db'"
  using assms(1-3)
proof (cases rule: attempt_cases [where p = p and r = r and env = env and verdict = verdict
      and action = action and g = g and expected = expected and previous = previous and timeout = timeout and w = w])
  case (reached w0 d w')
  then show ?thesis
    using recorded_after [OF assms(1,2), of "{Op_Running}" Op_Completed] assms(3)
    by (simp add: WINOP_INCOMPLETE_def WINOP_TERMINAL_def)
next
  case (interrupted e w1 w')
  then show ?thesis by (metis rollback_uninterrupted [OF assms(4)] Pair_inject Inl_Inr_False)
next
  case (aborted err b w1 w')
  obtain target result name where v: "verdict err b = (target, result, name)" by (cases "verdict err b")
  have "target \<in> WINOP_TERMINAL"
    using assms(5) unfolding settles_def by (metis v fst_conv WINOP_TERMINAL_def insertE insertI1 insertI2 emptyE)
  then show ?thesis
    using aborted(2) recorded_after [OF assms(1,2), of "{Op_Running}" target] assms(3)
    by (simp add: v WINOP_INCOMPLETE_def)
qed

lemma attempt_truthful:
  assumes "winops_wf db" and "winop_of db key = Some row" and "wo_state row = Op_Running" and "settles verdict"
    and "attempt p r env verdict action g key expected previous timeout w db = (Inr op, w', db')"
  shows "wo_state op = Op_Completed \<Longrightarrow> \<exists>w0 d. current_profile r g w0 = (Inr expected, d, w')"
    and "wo_state op = Op_Rolled_Back
      \<Longrightarrow> \<exists>name w0 d. previous = Some name \<and> current_profile r g w0 = (Inr (Some name), d, w')"
    and "wo_previous_profile op = wo_previous_profile row"
proof -
  have "(wo_state op = Op_Completed \<longrightarrow> (\<exists>w0 d. current_profile r g w0 = (Inr expected, d, w')))
    \<and> (wo_state op = Op_Rolled_Back
      \<longrightarrow> (\<exists>name w0 d. previous = Some name \<and> current_profile r g w0 = (Inr (Some name), d, w')))
    \<and> wo_previous_profile op = wo_previous_profile row"
  using assms(1-3)
  proof (cases rule: attempt_cases [where p = p and r = r and env = env and verdict = verdict
        and action = action and g = g and expected = expected and previous = previous and timeout = timeout and w = w])
    case (reached w0 d w'')
    then show ?thesis using assms(5) by auto
  next
    case (interrupted e w1 w'')
    then show ?thesis using assms(5) by simp
  next
    case (aborted err b w1 w'')
    obtain target result name where v: "verdict err b = (target, result, name)" by (cases "verdict err b")
    have s: "target \<noteq> Op_Completed" "target = Op_Rolled_Back \<Longrightarrow> b"
      using assms(4) unfolding settles_def by (metis v fst_conv insertE emptyE winop_state.distinct)+
    have op: "op = moved_winop (we_ended env) target result name row" "w'' = w'"
      using aborted(2) assms(5) by (simp_all add: v)
    have "\<exists>name w0 d. previous = Some name \<and> current_profile r g w0 = (Inr (Some name), d, w')" if b
    proof -
      have "rollback p r g previous timeout w1 = (Inr True, w')" using aborted(1) that op(2) by simp
      then show ?thesis by (rule rollback_restores) blast
    qed
    then show ?thesis using s unfolding op(1) by auto
  qed
  then show "wo_state op = Op_Completed \<Longrightarrow> \<exists>w0 d. current_profile r g w0 = (Inr expected, d, w')"
    and "wo_state op = Op_Rolled_Back
      \<Longrightarrow> \<exists>name w0 d. previous = Some name \<and> current_profile r g w0 = (Inr (Some name), d, w')"
    and "wo_previous_profile op = wo_previous_profile row" by blast+
qed

section \<open>Operations from their call\<close>

text \<open>The intent is new, or the same intent is recorded and not being worked on.\<close>

definition startable :: "wifi_env \<Rightarrow> uuid \<Rightarrow> string \<Rightarrow> uuid \<Rightarrow> string option \<Rightarrow> store \<Rightarrow> bool" where
  "startable env key action g target db \<longleftrightarrow>
     (case winop_of db key of
        None \<Rightarrow> we_operation_id env \<notin> wo_operation_id ` set (t_winops db)
      | Some row \<Rightarrow> wo_intent_hash row = winop_intent_hash (we_sha env) action g target
                    \<and> wo_state row \<noteq> Op_Running)"

lemma begin_startable:
  assumes "winops_wf db" and "startable env key action g target db"
  obtains row db1 where "begin_windows_operation (we_sha env) (we_begun env) (we_operation_id env) key action g
      target previous db = (Inr row, db1)"
    "winops_wf db1" "winop_of db1 key = Some row" "wo_state row \<noteq> Op_Running"
    "winop_of db key = None \<Longrightarrow> wo_previous_profile row = previous \<and> wo_state row = Intent_Recorded"
proof (cases rule: begin_winop_cases [of db key "we_sha env" action g target "we_begun env" "we_operation_id env" previous])
  case (existing r)
  show ?thesis
    by (rule that [OF existing(3) assms(1) existing(1)])
      (use assms(2) existing(1) in \<open>simp_all add: startable_def\<close>)
next
  case new
  let ?row = "new_winop (we_sha env) (we_begun env) (we_operation_id env) key action g target previous"
  have wf: "winops_wf (db\<lparr>t_winops := t_winops db @ [?row]\<rparr>)"
    using begin_winop_wf [OF assms(1), of "we_sha env" "we_begun env" "we_operation_id env" key action g target previous]
    unfolding new(3) by simp
  show ?thesis
    by (rule that [OF new(3) wf])
      (use new(1) in \<open>simp_all add: winop_of_def find_append new_winop_def\<close>)
qed (use assms(2) in \<open>auto simp: startable_def\<close>)

lemma journaled_cases:
  assumes "winops_wf db" and "startable env key action g target db" and "keeps_winop key (we_during env)"
  obtains (final) op db1 where "winop_of db key \<noteq> None" "recorded key op db1"
      "journaled env g key action target previous why holds body w db = (Inr op, w, db1)"
  | (already) op db1 where holds "recorded key op db1" "wo_state op = Op_Completed"
      "winop_of db key = None \<Longrightarrow> wo_previous_profile op = previous"
      "journaled env g key action target previous why holds body w db = (Inr op, w, db1)"
  | (begun) row db1 where "\<not> holds" "winops_wf db1" "winop_of db1 key = Some row" "wo_state row = Op_Running"
      "winop_of db key = None \<Longrightarrow> wo_previous_profile row = previous"
      "journaled env g key action target previous why holds body w db = body w db1"
proof -
  obtain row db1 where b: "begin_windows_operation (we_sha env) (we_begun env) (we_operation_id env) key action g
      target previous db = (Inr row, db1)"
    and row: "winops_wf db1" "winop_of db1 key = Some row" "wo_state row \<noteq> Op_Running"
    "winop_of db key = None \<Longrightarrow> wo_previous_profile row = previous \<and> wo_state row = Intent_Recorded"
    using begin_startable [OF assms(1,2)] by metis
  show ?thesis
  proof (cases "wo_state row \<in> WINOP_TERMINAL")
    case True
    then have "winop_of db key \<noteq> None" using row(4) by (cases "winop_of db key") (auto simp: WINOP_TERMINAL_def)
    moreover have "recorded key row db1" using True row(1,2) by (simp add: recorded_def)
    moreover have "journaled env g key action target previous why holds body w db = (Inr row, w, db1)"
      using True by (simp add: journaled_def b)
    ultimately show ?thesis by (rule that(1))
  next
    case False
    then have s: "wo_state row \<in> {Intent_Recorded, Op_Reconciling}"
      using row(3) by (auto simp: winop_states WINOP_INCOMPLETE_def)
    show ?thesis
    proof (cases holds)
      case True
      let ?op = "moved_winop (we_started env) Op_Completed (Some why) None row"
      have "journaled env g key action target previous why holds body w db = (Inr ?op, w,
          set_winop_state (we_started env) key {Intent_Recorded, Op_Running, Op_Reconciling} Op_Completed
            (Some why) None db1)"
        using True False s
          running_transition [OF row(1,2), of "{Intent_Recorded, Op_Running, Op_Reconciling}"]
        by (auto simp: journaled_def b)
      moreover have "recorded key ?op (set_winop_state (we_started env) key
          {Intent_Recorded, Op_Running, Op_Reconciling} Op_Completed (Some why) None db1)"
        using s by (intro recorded_after [OF row(1,2)]) (auto simp: WINOP_INCOMPLETE_def WINOP_TERMINAL_def)
      ultimately show ?thesis using that(2) [OF True] row(4) by simp
    next
      case nh: False
      let ?row = "moved_winop (we_started env) Op_Running None None row"
      let ?db = "set_winop_state (we_started env) key {Intent_Recorded, Op_Reconciling} Op_Running None None db1"
      have "winops_wf ?db" "winop_of ?db key = Some ?row"
        using row(1,2) s by (auto intro!: set_winop_state_wf stored_after simp: WINOP_INCOMPLETE_def)
      then have "winops_wf (we_during env ?db)" "winop_of (we_during env ?db) key = Some ?row"
        using assms(3) unfolding keeps_winop_def by auto
      moreover have "journaled env g key action target previous why holds body w db = body w (we_during env ?db)"
        using nh False s by (simp add: journaled_def b running_transition [OF row(1,2)])
      ultimately show ?thesis using that(3) [OF nh] row(4) by simp
    qed
  qed
qed

text \<open>C30: a connection that passes the guards and whose interface can be read always ends: whatever the
  radio answers and however long it takes, the call returns an operation in a terminal state, and this
  is what the journal holds.  The task itself is not cancelled meanwhile; a request to cancel the
  operation, errors and the timeout are all covered.\<close>

theorem connection_always_ends:
  assumes "winops_wf db" and "keeps_winop key (we_during env)" and "uninterrupted r"
    and "authorize p guid confirmed = Inr g" and "wp_uuid p key \<noteq> None" and "profile \<in> wp_profiles p"
    and "rd_profiles r g w = (Inr names, w1)" and "profile \<in> set names"
    and "current_profile r g w1 = (Inr previous, d, w2)"
    and "startable env key ''connect'' g (Some profile) db"
  shows "\<exists>op w' db'. wifi_connect p r env guid profile key confirmed timeout w db = (Inr op, w', db')
    \<and> wo_state op \<in> WINOP_TERMINAL \<and> winop_of db' key = Some op \<and> winops_wf db'"
proof -
  let ?body = "attempt p r env connect_verdict (rd_connect r g profile) g key (Some profile) previous timeout"
  have "wifi_connect p r env guid profile key confirmed timeout w db
      = journaled env g key ''connect'' (Some profile) previous ''target_already_connected''
          (previous = Some profile) ?body w2 db"
    using assms(4-9) by (auto simp: wifi_connect_def available_profiles_def)
  moreover have "\<exists>op w' db'. journaled env g key ''connect'' (Some profile) previous ''target_already_connected''
      (previous = Some profile) ?body w2 db = (Inr op, w', db') \<and> recorded key op db'"
  proof (cases rule: journaled_cases [OF assms(1,10,2), where previous = previous and w = w2
        and why = "''target_already_connected''" and holds = "previous = Some profile" and body = ?body])
    case (3 row db1)
    then show ?thesis using attempt_ends [OF 3(2-4) assms(3) verdicts_settle(1)] by metis
  qed blast+
  ultimately show ?thesis unfolding recorded_def by metis
qed

text \<open>C31: what a disconnection or a connection reports was observed.  A new operation that ends as
  \<open>completed\<close> saw its goal (the target profile, or no profile) in the last query of the interface, one
  that ends as \<open>rolled_back\<close> saw the profile that was connected before the call, and in neither case did
  anything happen to the radio after that query.\<close>

theorem reported_outcome_was_observed:
  assumes "winops_wf db" and "keeps_winop key (we_during env)" and "winop_of db key = None"
    and "we_operation_id env \<notin> wo_operation_id ` set (t_winops db)"
    and "authorize p guid confirmed = Inr g"
    and "(goal = Some profile \<and> wifi_connect p r env guid profile key confirmed timeout w db = (Inr op, w', db'))
       \<or> (goal = None \<and> wifi_disconnect p r env guid key confirmed timeout w db = (Inr op, w', db'))"
  shows "(wo_state op = Op_Completed \<longrightarrow> (\<exists>w0 d. current_profile r g w0 = (Inr goal, d, w')))
    \<and> (wo_state op = Op_Rolled_Back \<longrightarrow>
         (\<exists>name w0 d. wo_previous_profile op = Some name \<and> current_profile r g w0 = (Inr (Some name), d, w')))"
proof -
  have "\<exists>action previous why v verdict act d v0. current_profile r g v0 = (Inr previous, d, v) \<and> settles verdict
      \<and> journaled env g key action goal previous why (previous = goal)
          (attempt p r env verdict act g key goal previous timeout) v db = (Inr op, w', db')"
    using assms(5,6) verdicts_settle unfolding wifi_connect_def wifi_disconnect_def
    by (fastforce split: if_splits prod.splits sum.splits)
  then obtain action previous why v verdict act d v0
    where now: "current_profile r g v0 = (Inr previous, d, v)" and settles: "settles verdict"
      and run: "journaled env g key action goal previous why (previous = goal)
          (attempt p r env verdict act g key goal previous timeout) v db = (Inr op, w', db')"
    by blast
  have start: "startable env key action g goal db" using assms(3,4) by (simp add: startable_def)
  show ?thesis
  proof (cases rule: journaled_cases [OF assms(1) start assms(2), where previous = previous and w = v
        and why = why and holds = "previous = goal" and body = "attempt p r env verdict act g key goal previous timeout"])
    case (1 op' db1)
    then show ?thesis using assms(3) by simp
  next
    case (2 op' db1)
    then have "op' = op" "v = w'" using run by simp_all
    then show ?thesis using 2(1,3) now by auto
  next
    case (3 row db1)
    have at: "attempt p r env verdict act g key goal previous timeout v db1 = (Inr op, w', db')"
      using 3(6) run by simp
    show ?thesis
      using attempt_truthful [OF 3(2-4) settles at] 3(5) [OF assms(3)] by simp
  qed
qed

section \<open>Reconciliation\<close>

definition quiet :: "wifi_env \<Rightarrow> bool" where
  "quiet env \<longleftrightarrow> (\<forall>db. t_winops (we_during env db) = t_winops db)"

lemma same_journal:
  assumes "t_winops db' = t_winops db"
  shows "winops_wf db' = winops_wf db" "winop_of db' = winop_of db"
    "incomplete_windows_operations db' = incomplete_windows_operations db"
  using assms by (simp_all add: winops_wf_def winop_of_def fun_eq_iff incomplete_windows_operations_def)

text \<open>Reconciling an incomplete operation of a readable interface ends it and leaves the others alone.\<close>

lemma reconcile_one_settles:
  assumes "winops_wf db" and "winop_of db (wo_key op) = Some row" and "wo_state row \<in> WINOP_INCOMPLETE"
    and "quiet env" and "uninterrupted r" and "current_profile r (wo_interface_guid op) w = (Inr v, d, w1)"
  obtains w' db' new where "reconcile_one p r env timeout op w db = (Inr (), w', db')"
    "winops_wf db'" "winop_of db' (wo_key op) = Some new" "wo_state new \<in> WINOP_TERMINAL"
    "\<And>k. k \<noteq> wo_key op \<Longrightarrow> winop_of db' k = winop_of db k"
    "wo_key ` set (t_winops db') = wo_key ` set (t_winops db)"
proof -
  let ?all = "{Intent_Recorded, Op_Running, Op_Reconciling}"
  let ?db1 = "set_winop_state (we_started env) (wo_key op) ?all Op_Reconciling None None db"
  let ?row = "moved_winop (we_started env) Op_Reconciling None None row"
  let ?decide = "if wo_action op = ''connect'' \<and> v = wo_target_profile op
                      then (Inr (Op_Completed, ''target_connected_after_restart''), w1)
                      else if wo_action op = ''disconnect'' \<and> v = None
                      then (Inr (Op_Completed, ''interface_disconnected_after_restart''), w1)
                      else case rollback p r (wo_interface_guid op) (wo_previous_profile op) timeout w1 of
                             (Inl e, w2) \<Rightarrow> (Inl e, w2)
                           | (Inr restored, w2) \<Rightarrow>
                               (Inr (if restored then (Op_Rolled_Back, ''previous_profile_restored'')
                                     else (Op_Failed, ''state_ambiguous'')), w2)"
  have first: "transition_windows_operation (we_started env) (wo_key op) ?all Op_Reconciling None None db = (Inr ?row, ?db1)"
    using assms(3) by (intro running_transition [OF assms(1,2)]) (auto simp: WINOP_INCOMPLETE_def)
  have wf1: "winops_wf ?db1" "winop_of ?db1 (wo_key op) = Some ?row"
    using assms(1-3) by (auto intro!: set_winop_state_wf stored_after simp: WINOP_INCOMPLETE_def)
  obtain b w2' where "rollback p r (wo_interface_guid op) (wo_previous_profile op) timeout w1 = (Inr b, w2')"
    using rollback_uninterrupted [OF assms(5)] .
  then have "\<exists>s res w2. ?decide = (Inr (s, res), w2) \<and> s \<in> WINOP_TERMINAL"
    by (simp add: WINOP_TERMINAL_def)
  then obtain s res w2 where decide: "?decide = (Inr (s, res), w2)" and s: "s \<in> WINOP_TERMINAL" by blast
  have journal: "t_winops (we_during env ?db1) = t_winops ?db1" using assms(4) by (simp add: quiet_def)
  let ?db2 = "set_winop_state (we_ended env) (wo_key op) {Op_Reconciling} s (Some res) None (we_during env ?db1)"
  let ?new = "moved_winop (we_ended env) s (Some res) None ?row"
  have wf2: "winops_wf (we_during env ?db1)" "winop_of (we_during env ?db1) (wo_key op) = Some ?row"
    using wf1 same_journal(1,2) [OF journal] by simp_all
  have "transition_windows_operation (we_ended env) (wo_key op) {Op_Reconciling} s (Some res) None (we_during env ?db1)
      = (Inr ?new, ?db2)"
    by (rule running_transition [OF wf2]) simp
  then have "reconcile_one p r env timeout op w db = (Inr (), w2, ?db2)"
    unfolding reconcile_one_def by (simp only: first assms(6) prod.case sum.case decide)
  moreover have "winops_wf ?db2" by (rule set_winop_state_wf [OF wf2(1)]) (simp add: WINOP_INCOMPLETE_def)
  moreover have "winop_of ?db2 (wo_key op) = Some ?new" by (rule stored_after [OF wf2(2)]) simp
  moreover have "winop_of ?db2 k = winop_of db k" if "k \<noteq> wo_key op" for k
    using that same_journal(2) [OF journal] winop_of_key [of db k]
    by (auto simp: winop_of_set_state option.map_comp intro!: option.map_ident_strong)
  moreover have "wo_key ` set (t_winops ?db2) = wo_key ` set (t_winops db)"
    by (simp add: set_winop_state_rows journal)
  ultimately show ?thesis using that [of w2 ?db2 ?new] s by simp
qed

lemma reconcile_rows_settles:
  assumes "quiet env" and "uninterrupted r"
    and "\<And>op w. op \<in> set ops \<Longrightarrow> \<exists>v d w1. current_profile r (wo_interface_guid op) w = (Inr v, d, w1)"
    and "winops_wf db" and "distinct (map wo_key ops)"
    and "\<And>op. op \<in> set ops \<Longrightarrow> \<exists>row. winop_of db (wo_key op) = Some row \<and> wo_state row \<in> WINOP_INCOMPLETE"
  shows "\<exists>w' db'. reconcile_rows p r env timeout ops n w db = (Inr (n + length ops), w', db')
    \<and> winops_wf db' \<and> wo_key ` set (t_winops db') = wo_key ` set (t_winops db)
    \<and> (\<forall>op \<in> set ops. \<exists>new. winop_of db' (wo_key op) = Some new \<and> wo_state new \<in> WINOP_TERMINAL)
    \<and> (\<forall>k. k \<notin> wo_key ` set ops \<longrightarrow> winop_of db' k = winop_of db k)"
  using assms(3-6)
proof (induction ops arbitrary: n w db)
  case Nil
  then show ?case by simp
next
  case (Cons op ops)
  obtain v d w1 where read: "current_profile r (wo_interface_guid op) w = (Inr v, d, w1)"
    using Cons.prems(1) [of op w] by auto
  obtain row where row: "winop_of db (wo_key op) = Some row" "wo_state row \<in> WINOP_INCOMPLETE"
    using Cons.prems(4) [of op] by auto
  obtain w2 db2 new where one: "reconcile_one p r env timeout op w db = (Inr (), w2, db2)"
    "winops_wf db2" "winop_of db2 (wo_key op) = Some new" "wo_state new \<in> WINOP_TERMINAL"
    "\<And>k. k \<noteq> wo_key op \<Longrightarrow> winop_of db2 k = winop_of db k"
    "wo_key ` set (t_winops db2) = wo_key ` set (t_winops db)"
    using reconcile_one_settles [OF Cons.prems(2) row assms(1,2) read] by metis
  have other: "wo_key o' \<noteq> wo_key op" if "o' \<in> set ops" for o'
    using Cons.prems(3) imageI [OF that, of wo_key] by auto
  have "\<exists>row. winop_of db2 (wo_key o') = Some row \<and> wo_state row \<in> WINOP_INCOMPLETE" if "o' \<in> set ops" for o'
    using Cons.prems(4) [of o'] one(5) [OF other [OF that]] that by simp
  then obtain w' db' where rest: "reconcile_rows p r env timeout ops (Suc n) w2 db2 = (Inr (Suc n + length ops), w', db')"
    "winops_wf db'" "wo_key ` set (t_winops db') = wo_key ` set (t_winops db2)"
    "\<forall>op \<in> set ops. \<exists>new. winop_of db' (wo_key op) = Some new \<and> wo_state new \<in> WINOP_TERMINAL"
    "\<forall>k. k \<notin> wo_key ` set ops \<longrightarrow> winop_of db' k = winop_of db2 k"
    using Cons.IH [of db2 "Suc n" w2] Cons.prems(1,3) one(2) by auto
  have "winop_of db' (wo_key op) = Some new" using rest(5) other one(3) by (metis imageE)
  moreover have "reconcile_rows p r env timeout (op # ops) n w db = (Inr (n + length (op # ops)), w', db')"
    using one(1) rest(1) by simp
  ultimately show ?case using rest(2-5) one(4-6) by auto
qed

lemma incomplete_iff:
  "op \<in> set (incomplete_windows_operations db) \<longleftrightarrow> op \<in> set (t_winops db) \<and> wo_state op \<in> WINOP_INCOMPLETE"
  by (auto simp: incomplete_windows_operations_def)

lemma incomplete_distinct: "winops_wf db \<Longrightarrow> distinct (map wo_key (incomplete_windows_operations db))"
  unfolding incomplete_windows_operations_def winops_wf_def
  by (auto simp: distinct_map inj_on_def intro: distinct_filter)

text \<open>C32: when the interfaces can be read, the reconciliation at start-up ends every operation that a
  stopped agent left behind: it returns their number, afterwards no operation is incomplete, and what
  had ended before is as it was.\<close>

theorem reconciliation_is_complete:
  assumes "winops_wf db" and "quiet env" and "uninterrupted r"
    and "\<And>op w. op \<in> set (incomplete_windows_operations db)
      \<Longrightarrow> \<exists>v d w1. current_profile r (wo_interface_guid op) w = (Inr v, d, w1)"
  shows "\<exists>w' db'. reconcile_incomplete p r env timeout w db
        = (Inr (length (incomplete_windows_operations db)), w', db')
    \<and> incomplete_windows_operations db' = []
    \<and> (\<forall>k op. winop_of db k = Some op \<and> wo_state op \<in> WINOP_TERMINAL \<longrightarrow> winop_of db' k = Some op)"
proof -
  let ?ops = "incomplete_windows_operations db"
  have "\<exists>row. winop_of db (wo_key op) = Some row \<and> wo_state row \<in> WINOP_INCOMPLETE" if "op \<in> set ?ops" for op
    using that winop_of_iff [OF assms(1), of "wo_key op" op] by (auto simp: incomplete_iff)
  then obtain w' db' where run: "reconcile_rows p r env timeout ?ops 0 w db = (Inr (length ?ops), w', db')"
    "winops_wf db'" "wo_key ` set (t_winops db') = wo_key ` set (t_winops db)"
    "\<forall>op \<in> set ?ops. \<exists>new. winop_of db' (wo_key op) = Some new \<and> wo_state new \<in> WINOP_TERMINAL"
    "\<forall>k. k \<notin> wo_key ` set ?ops \<longrightarrow> winop_of db' k = winop_of db k"
    using reconcile_rows_settles [OF assms(2,3) assms(4) assms(1) incomplete_distinct [OF assms(1)], of p timeout 0 w]
    by auto
  have ended: "k \<notin> wo_key ` set ?ops" if "winop_of db k = Some op" "wo_state op \<in> WINOP_TERMINAL" for k op
  proof
    assume "k \<in> wo_key ` set ?ops"
    then obtain x where "x \<in> set ?ops" "wo_key x = k" by blast
    then have "winop_of db k = Some x" "wo_state x \<in> WINOP_INCOMPLETE"
      using winop_of_iff [OF assms(1)] by (simp_all add: incomplete_iff)
    then show False using that by (simp add: winop_states)
  qed
  have "False" if "op \<in> set (incomplete_windows_operations db')" for op
  proof -
    have op: "op \<in> set (t_winops db')" "wo_state op \<in> WINOP_INCOMPLETE" using that by (simp_all add: incomplete_iff)
    then have now: "winop_of db' (wo_key op) = Some op" using winop_of_iff [OF run(2)] by simp
    show False
    proof (cases "wo_key op \<in> wo_key ` set ?ops")
      case True
      then obtain new where "winop_of db' (wo_key op) = Some new" "wo_state new \<in> WINOP_TERMINAL"
        using run(4) by (metis imageE)
      then show False using now op(2) by (simp add: winop_states)
    next
      case False
      then have "winop_of db (wo_key op) = Some op" using run(5) now by simp
      then have "op \<in> set ?ops" using op(2) winop_of_iff [OF assms(1)] by (simp add: incomplete_iff)
      then show False using False by simp
    qed
  qed
  then have "incomplete_windows_operations db' = []" by (cases "incomplete_windows_operations db'") auto
  moreover have "winop_of db' k = Some op" if "winop_of db k = Some op \<and> wo_state op \<in> WINOP_TERMINAL" for k op
    using run(5) ended [of k op] that by simp
  ultimately show ?thesis using run(1) unfolding reconcile_incomplete_def by metis
qed

lemma insort_key_map: "insort_key f (g x) (map g xs) = map g (insort_key (\<lambda>y. f (g y)) x xs)"
  by (induction xs) simp_all

lemma sort_key_map: "sort_key f (map g xs) = map g (sort_key (\<lambda>y. f (g y)) xs)"
  by (induction xs) (simp_all add: insort_key_map)

lemma incomplete_reconciling:
  "incomplete_windows_operations (set_winop_state now key WINOP_INCOMPLETE Op_Reconciling None None db)
     = map (\<lambda>r. if wo_key r = key then moved_winop now Op_Reconciling None None r else r)
         (incomplete_windows_operations db)"
proof -
  let ?P = "\<lambda>r. wo_key r = key \<and> wo_state r \<in> WINOP_INCOMPLETE"
  let ?g = "\<lambda>r. if ?P r then moved_winop now Op_Reconciling None None r else r"
  have "(\<lambda>r. wo_state r \<in> WINOP_INCOMPLETE) \<circ> ?g = (\<lambda>r. wo_state r \<in> WINOP_INCOMPLETE)"
    by (auto simp: fun_eq_iff WINOP_INCOMPLETE_def)
  moreover have "(\<lambda>r. wo_started_at (?g r)) = wo_started_at" by (auto simp: fun_eq_iff)
  ultimately have "incomplete_windows_operations (set_winop_state now key WINOP_INCOMPLETE Op_Reconciling None None db)
      = map ?g (incomplete_windows_operations db)"
    unfolding incomplete_windows_operations_def set_winop_state_rows upd_where_def filter_map sort_key_map by simp
  also have "\<dots> = map (\<lambda>r. if wo_key r = key then moved_winop now Op_Reconciling None None r else r)
      (incomplete_windows_operations db)"
    by (rule map_cong [OF refl]) (simp add: incomplete_iff)
  finally show ?thesis .
qed

lemma reconcile_stops:
  assumes "winops_wf db" and "incomplete_windows_operations db = op # ops"
    and "current_profile r (wo_interface_guid op) w = (Inl e, d, w1)"
  shows "reconcile_incomplete p r env timeout w db = (Inl (Radio e), w1,
    set_winop_state (we_started env) (wo_key op) WINOP_INCOMPLETE Op_Reconciling None None db)"
    and "winop_of db (wo_key op) = Some op" and "wo_state op \<in> WINOP_INCOMPLETE"
proof -
  have "op \<in> set (incomplete_windows_operations db)" using assms(2) by simp
  then show op: "winop_of db (wo_key op) = Some op" "wo_state op \<in> WINOP_INCOMPLETE"
    using winop_of_iff [OF assms(1)] by (simp_all add: incomplete_iff)
  show "reconcile_incomplete p r env timeout w db = (Inl (Radio e), w1,
    set_winop_state (we_started env) (wo_key op) WINOP_INCOMPLETE Op_Reconciling None None db)"
    using running_transition [OF assms(1) op]
    by (simp add: reconcile_incomplete_def assms(2,3) reconcile_one_def flip: WINOP_INCOMPLETE_def)
qed

text \<open>One unreadable interface stops the start-up.  If the query of the interface of the first
  incomplete operation raises an error other than \<open>invalid_state\<close>, the reconciliation raises it, the
  operation is left in \<open>reconciling\<close>, no operation is ended, and while the error lasts so does every
  further attempt: the operations of the other interfaces are never reconciled.\<close>

theorem unreadable_interface_stops_reconciliation:
  assumes "winops_wf db" and "incomplete_windows_operations db = op # ops"
    and "\<And>v. \<exists>d v'. current_profile r (wo_interface_guid op) v = (Inl e, d, v')"
  shows "\<exists>w' db'. reconcile_incomplete p r env timeout w db = (Inl (Radio e), w', db')
    \<and> map wo_key (incomplete_windows_operations db') = map wo_key (op # ops)
    \<and> winop_of db' (wo_key op) = Some (moved_winop (we_started env) Op_Reconciling None None op)
    \<and> (\<exists>w'' db''. reconcile_incomplete p' r env' timeout' w' db' = (Inl (Radio e), w'', db''))"
proof -
  obtain d w1 where read: "current_profile r (wo_interface_guid op) w = (Inl e, d, w1)" using assms(3) by blast
  note stop = reconcile_stops [OF assms(1,2) read]
  let ?db1 = "set_winop_state (we_started env) (wo_key op) WINOP_INCOMPLETE Op_Reconciling None None db"
  let ?f = "\<lambda>r. if wo_key r = wo_key op then moved_winop (we_started env) Op_Reconciling None None r else r"
  have rest: "incomplete_windows_operations ?db1 = ?f op # map ?f ops"
    by (simp add: incomplete_reconciling assms(2))
  have wf: "winops_wf ?db1" by (rule set_winop_state_wf [OF assms(1)]) simp
  have keys: "map wo_key (incomplete_windows_operations ?db1) = map wo_key (op # ops)" by (simp add: rest)
  have now: "winop_of ?db1 (wo_key op) = Some (moved_winop (we_started env) Op_Reconciling None None op)"
    by (rule stored_after [OF stop(2,3)])
  obtain d' w2 where read2: "current_profile r (wo_interface_guid (?f op)) w1 = (Inl e, d', w2)"
    using assms(3) [of w1] by auto
  note again = reconcile_stops(1) [OF wf rest read2, of p' env' timeout']
  show ?thesis using stop(1) [of p env timeout] keys now again by blast
qed

section \<open>Scans\<close>

text \<open>A scan ends its operation when the collector answers or is cancelled.  Any other exception of the
  collector leaves the operation in \<open>running\<close>, and a retry under the same key is then refused.\<close>

lemma scan_error_leaves_running:
  assumes "winops_wf db" and "keeps_winop key (we_during env)" and "authorize p guid True = Inr g"
    and "wp_uuid p key \<noteq> None" and "startable env key ''scan'' g None db"
    and "winop_of db key = None" and "rd_scan r g w = (Inl (Wifi_Other name), w1)"
  shows "\<exists>db' row. request_scan p r env guid key True w db = (Inl (Radio (Wifi_Other name)), w1, db')
    \<and> winop_of db' key = Some row \<and> wo_state row = Op_Running
    \<and> request_scan p r env guid key True w1 db'
        = (Inl (Raised (State_Conflict_Error ''Windows network operation transition conflict'')), w1, db')"
proof -
  let ?row = "new_winop (we_sha env) (we_begun env) (we_operation_id env) key ''scan'' g None None"
  let ?db1 = "db\<lparr>t_winops := t_winops db @ [?row]\<rparr>"
  let ?run = "moved_winop (we_started env) Op_Running None None ?row"
  let ?db2 = "set_winop_state (we_started env) key {Intent_Recorded, Op_Reconciling} Op_Running None None ?db1"
  have b: "begin_windows_operation (we_sha env) (we_begun env) (we_operation_id env) key ''scan'' g None None db
      = (Inr ?row, ?db1)"
    using assms(5,6) by (cases rule: begin_winop_cases [of db key "we_sha env" "''scan''" g None "we_begun env" "we_operation_id env" None])
      (auto simp: startable_def)
  have wf1: "winops_wf ?db1"
    using begin_winop_wf [OF assms(1), of "we_sha env" "we_begun env" "we_operation_id env" key "''scan''" g None None] b
    by simp
  have row1: "winop_of ?db1 key = Some ?row" "wo_state ?row = Intent_Recorded"
    using assms(6) by (simp_all add: winop_of_def find_append new_winop_def)
  have t: "transition_windows_operation (we_started env) key {Intent_Recorded, Op_Reconciling} Op_Running None None ?db1
      = (Inr ?run, ?db2)"
    using row1(2) by (intro running_transition [OF wf1 row1(1)]) simp
  have "winops_wf ?db2" "winop_of ?db2 key = Some ?run"
    using row1 by (auto intro!: set_winop_state_wf stored_after wf1 simp: WINOP_INCOMPLETE_def)
  then have after: "winops_wf (we_during env ?db2)" "winop_of (we_during env ?db2) key = Some ?run"
    using assms(2) by (simp_all add: keeps_winop_def)
  have "request_scan p r env guid key True w db = (Inl (Radio (Wifi_Other name)), w1, we_during env ?db2)"
    using assms(4) row1(2) by (auto simp: request_scan_def assms(3,7) b t WINOP_TERMINAL_def)
  moreover have "begin_windows_operation (we_sha env) (we_begun env) (we_operation_id env) key ''scan'' g None None
      (we_during env ?db2) = (Inr ?run, we_during env ?db2)"
    using after(2) by (simp add: begin_windows_operation_def winop_of_def [symmetric]) (simp add: new_winop_def)
  then have "request_scan p r env guid key True w1 (we_during env ?db2)
      = (Inl (Raised (State_Conflict_Error ''Windows network operation transition conflict'')), w1, we_during env ?db2)"
    using assms(4) after by (auto simp: request_scan_def assms(3) transition_winop WINOP_TERMINAL_def)
  ultimately show ?thesis using after(2) by auto
qed

section \<open>A demonstration\<close>

text \<open>A radio with one adapter, whose world is the connected profile.\<close>

definition demo_radio :: "string option radio" where
  "demo_radio =
     \<lparr>rd_profiles = (\<lambda>g w. (Inr [''home'', ''lab''], w)), rd_connection = (\<lambda>g w. (Inr w, 10, w)),
      rd_connect = (\<lambda>g name w. (Inr (), Some name)), rd_disconnect = (\<lambda>g w. (Inr (), None)),
      rd_scan = (\<lambda>g w. (Inr None, w)), rd_sleep = (\<lambda>w. (Inr (), w)), rd_cancelled = (\<lambda>w. False)\<rparr>"

definition demo_policy :: wifi_policy where
  "demo_policy = \<lparr>wp_enabled = True, wp_admin = True, wp_guids = {''g1''}, wp_profiles = {''home'', ''lab''},
     wp_uuid = Some\<rparr>"

definition demo_wifi_env :: wifi_env where
  "demo_wifi_env = \<lparr>we_sha = (\<lambda>s. s), we_operation_id = ''o1'', we_begun = ''t1'', we_started = ''t2'',
     we_ended = ''t3'', we_during = (\<lambda>db. db)\<rparr>"

definition demo_left :: store where
  "demo_left = empty_store\<lparr>t_winops :=
     [moved_winop ''t2'' Op_Running None None
        (new_winop (\<lambda>s. s) ''t1'' ''o0'' ''k0'' ''connect'' ''g1'' (Some ''lab'') (Some ''home''))]\<rparr>"

lemma demo_facts:
  "uninterrupted demo_radio" "keeps_winop k (we_during demo_wifi_env)" "quiet demo_wifi_env"
  "winops_wf empty_store" "winops_wf demo_left" "winop_of empty_store k = None"
  "authorize demo_policy ''g1'' True = Inr ''g1''"
  by (simp_all add: uninterrupted_def demo_radio_def keeps_winop_def demo_wifi_env_def quiet_def winops_wf_def
      empty_store_def winop_of_def authorize_def demo_policy_def demo_left_def moved_winop_def new_winop_def
      WINOP_TERMINAL_def)

lemma connection_always_ends_witness:
  "\<exists>op w' db'. wifi_connect demo_policy demo_radio demo_wifi_env ''g1'' ''lab'' ''k1'' True 1000 (Some ''home'') empty_store
      = (Inr op, w', db') \<and> wo_state op \<in> WINOP_TERMINAL \<and> winop_of db' ''k1'' = Some op"
proof -
  have "startable demo_wifi_env ''k1'' ''connect'' ''g1'' (Some ''lab'') empty_store"
    by (simp add: startable_def demo_facts(6)) (simp add: empty_store_def)
  moreover have "wp_uuid demo_policy ''k1'' \<noteq> None" "''lab'' \<in> wp_profiles demo_policy"
    "rd_profiles demo_radio ''g1'' w = (Inr [''home'', ''lab''], w)" "''lab'' \<in> set [''home'', ''lab'']"
    "current_profile demo_radio ''g1'' (Some ''home'') = (Inr (Some ''home''), 10, Some ''home'')" for w
    by (simp_all add: demo_policy_def demo_radio_def current_profile_def)
  ultimately show ?thesis
    using connection_always_ends [OF demo_facts(4,2,1,7)] by blast
qed

definition demo_run :: "(control_error + windows_operation) \<times> string option \<times> store" where
  "demo_run = wifi_connect demo_policy demo_radio demo_wifi_env ''g1'' ''lab'' ''k1'' True 1000 (Some ''home'') empty_store"

lemma demo_run_completes:
  "case demo_run of (Inr op, w', db') \<Rightarrow> wo_state op = Op_Completed \<and> w' = Some ''lab'' | _ \<Rightarrow> False"
  by code_simp

lemma reported_outcome_was_observed_witness:
  "case demo_run of (Inr op, w', db') \<Rightarrow> wo_state op = Op_Completed
      \<and> (\<exists>w0 d. current_profile demo_radio ''g1'' w0 = (Inr (Some ''lab''), d, w')) | _ \<Rightarrow> False"
proof -
  obtain op w' db' where run: "demo_run = (Inr op, w', db')" "wo_state op = Op_Completed"
    using demo_run_completes by (auto split: prod.splits sum.splits)
  have "we_operation_id demo_wifi_env \<notin> wo_operation_id ` set (t_winops empty_store)"
    by (simp add: empty_store_def)
  from reported_outcome_was_observed [OF demo_facts(4,2,6) this demo_facts(7), of "Some ''lab''" "''lab''"]
  show ?thesis using run unfolding demo_run_def by fastforce
qed

lemma reconciliation_is_complete_witness:
  "\<exists>w' db'. reconcile_incomplete demo_policy demo_radio demo_wifi_env 10000 (Some ''home'') demo_left = (Inr 1, w', db')
    \<and> incomplete_windows_operations db' = []"
proof -
  have "length (incomplete_windows_operations demo_left) = 1"
    by (simp add: incomplete_windows_operations_def demo_left_def moved_winop_def WINOP_INCOMPLETE_def)
  then show ?thesis
    using reconciliation_is_complete [OF demo_facts(5,3,1), of demo_policy 10000 "Some ''home''"]
    by (auto simp: demo_radio_def current_profile_def)
qed

lemma unreadable_interface_stops_reconciliation_witness:
  "\<exists>w' db'. reconcile_incomplete demo_policy
        (demo_radio\<lparr>rd_connection := (\<lambda>g w. (Inl (Wifi_Error ''not_found''), 5, w))\<rparr>) demo_wifi_env 10000 None demo_left
      = (Inl (Radio (Wifi_Error ''not_found'')), w', db')
    \<and> map wo_key (incomplete_windows_operations db') = [''k0'']"
proof -
  let ?r = "demo_radio\<lparr>rd_connection := (\<lambda>g w. (Inl (Wifi_Error ''not_found''), 5, w))\<rparr>"
  let ?op = "moved_winop ''t2'' Op_Running None None
        (new_winop (\<lambda>s. s) ''t1'' ''o0'' ''k0'' ''connect'' ''g1'' (Some ''lab'') (Some ''home''))"
  have "incomplete_windows_operations demo_left = ?op # []"
    by (simp add: incomplete_windows_operations_def demo_left_def WINOP_INCOMPLETE_def)
  moreover have "wo_key ?op = ''k0''" by (simp add: new_winop_def)
  ultimately show ?thesis
    using unreadable_interface_stops_reconciliation [OF demo_facts(5), of ?op "[]" ?r "Wifi_Error ''not_found''"
        demo_policy demo_wifi_env 10000 None]
    by (fastforce simp: current_profile_def)
qed

end
