(* ===== verification/Channel_Geometry.thy ===== *)
theory Channel_Geometry
  imports Agent_Prelude
begin

text \<open>
  The channel arithmetic of the two platforms: \<open>platforms/linux/frequency.py\<close> (the channel of a
  frequency, the closed 20/80/160 MHz geometries and the validation of a complete definition),
  \<open>platforms/windows/frequency.py\<close> (the channel of a frequency) and \<open>platforms/windows/phy.py\<close> (the
  standard of a PHY type).  Frequencies and channels are unbounded integers, as in Python, whose
  \<open>//\<close> and \<open>%\<close> are \<open>div\<close> and \<open>mod\<close> on \<open>int\<close>.
\<close>

section \<open>Bands and tables\<close>

datatype band = Band_2_4 | Band_5 | Band_6 | Band_60

definition SUPPORTED_CAPTURE_WIDTHS_MHZ :: "int list" where
  "SUPPORTED_CAPTURE_WIDTHS_MHZ = [20, 80, 160]"

fun supported_widths :: "band \<Rightarrow> int list" where
  "supported_widths Band_2_4 = [20]"
| "supported_widths Band_5 = SUPPORTED_CAPTURE_WIDTHS_MHZ"
| "supported_widths Band_6 = SUPPORTED_CAPTURE_WIDTHS_MHZ"
| "supported_widths Band_60 = []"

text \<open>Python's \<open>range(start, stop, step)\<close> for a positive step.\<close>

definition py_range :: "int \<Rightarrow> int \<Rightarrow> int \<Rightarrow> int list" where
  "py_range start stop step = map (\<lambda>i. start + step * int i) [0..<nat ((stop - start + step - 1) div step)]"

definition FIVE_GHZ_PRIMARY_CHANNELS :: "int list" where
  "FIVE_GHZ_PRIMARY_CHANNELS =
     [36, 40, 44, 48, 52, 56, 60, 64] @ py_range 100 145 4 @ [149, 153, 157, 161, 165, 169, 173, 177]"

definition SIX_GHZ_PRIMARY_CHANNELS :: "int list" where
  "SIX_GHZ_PRIMARY_CHANNELS = 2 # py_range 1 234 4"

definition wide_centers :: "band \<Rightarrow> int \<Rightarrow> int list option" where
  "wide_centers b width =
     (if b = Band_5 \<and> width = 80 then Some [42, 58, 106, 122, 138, 155, 171]
      else if b = Band_5 \<and> width = 160 then Some [50, 114, 163]
      else if b = Band_6 \<and> width = 80 then Some (py_range 7 216 16)
      else if b = Band_6 \<and> width = 160 then Some (py_range 15 208 32)
      else None)"

definition primary_offsets :: "int \<Rightarrow> int list option" where
  "primary_offsets width =
     (if width = 80 then Some [-6, -2, 2, 6]
      else if width = 160 then Some [-14, -10, -6, -2, 2, 6, 10, 14] else None)"

definition primary_channels :: "band \<Rightarrow> int list" where
  "primary_channels b =
     (case b of Band_2_4 \<Rightarrow> py_range 1 15 1 | Band_5 \<Rightarrow> FIVE_GHZ_PRIMARY_CHANNELS
      | Band_6 \<Rightarrow> SIX_GHZ_PRIMARY_CHANNELS | Band_60 \<Rightarrow> [])"

definition iw_width_token :: "int \<Rightarrow> py_error + string" where
  "iw_width_token width =
     (if width = 20 then Inr ''HT20'' else if width = 80 then Inr ''80'' else if width = 160 then Inr ''160''
      else Inl (Value_Error ''capture width is not supported by the iw command policy''))"

section \<open>The channel of a frequency\<close>

text \<open>\<open>LinuxChannelInfo\<close> is a channel and its band; the Windows \<open>ChannelInfo\<close> also repeats the frequency.\<close>

definition linux_frequency_to_channel :: "int \<Rightarrow> (int \<times> band) option" where
  "linux_frequency_to_channel f =
     (if f = 2484 then Some (14, Band_2_4)
      else if 2412 \<le> f \<and> f \<le> 2472 \<and> (f - 2407) mod 5 = 0 then Some ((f - 2407) div 5, Band_2_4)
      else if 5000 \<le> f \<and> f \<le> 5895 \<and> (f - 5000) mod 5 = 0
              \<and> 1 \<le> (f - 5000) div 5 \<and> (f - 5000) div 5 \<le> 179 then Some ((f - 5000) div 5, Band_5)
      else if f = 5935 then Some (2, Band_6)
      else if 5955 \<le> f \<and> f \<le> 7115 \<and> (f - 5950) mod 5 = 0 then Some ((f - 5950) div 5, Band_6)
      else if 58320 \<le> f \<and> f \<le> 69120 \<and> (f - 56160) mod 2160 = 0 then Some ((f - 56160) div 2160, Band_60)
      else None)"

definition windows_frequency_to_channel :: "int \<Rightarrow> (int \<times> int \<times> band) option" where
  "windows_frequency_to_channel f =
     (if f = 2484 then Some (f, 14, Band_2_4)
      else if 2412 \<le> f \<and> f \<le> 2472 \<and> (f - 2407) mod 5 = 0
              \<and> 1 \<le> (f - 2407) div 5 \<and> (f - 2407) div 5 \<le> 13 then Some (f, (f - 2407) div 5, Band_2_4)
      else if f = 5935 then Some (f, 2, Band_6)
      else if 5955 \<le> f \<and> f \<le> 7115 \<and> (f - 5950) mod 5 = 0
              \<and> 1 \<le> (f - 5950) div 5 \<and> (f - 5950) div 5 \<le> 233 then Some (f, (f - 5950) div 5, Band_6)
      else if 5000 \<le> f \<and> f \<le> 5895 \<and> (f - 5000) mod 5 = 0
              \<and> 1 \<le> (f - 5000) div 5 \<and> (f - 5000) div 5 \<le> 179 then Some (f, (f - 5000) div 5, Band_5)
      else None)"

definition phy_type_to_standard :: "int \<Rightarrow> string option" where
  "phy_type_to_standard t = map_of
     [(1, ''802.11-fhss''), (2, ''802.11-dsss''), (3, ''802.11-ir''), (4, ''802.11a''), (5, ''802.11b''),
      (6, ''802.11g''), (7, ''802.11n''), (8, ''802.11ac''), (9, ''802.11ad''), (10, ''802.11ax''),
      (11, ''802.11be'')] t"

section \<open>Capture geometries\<close>

record channel_definition =
  cd_band :: band
  cd_primary_channel :: int
  cd_control_frequency :: int
  cd_width :: int
  cd_center_1 :: int
  cd_center_2 :: "int option"

definition channel_frequency_mhz :: "band \<Rightarrow> int \<Rightarrow> py_error + int" where
  "channel_frequency_mhz b channel =
     (case b of
        Band_5 \<Rightarrow> Inr (5000 + 5 * channel)
      | Band_6 \<Rightarrow> Inr (if channel = 2 then 5935 else 5950 + 5 * channel)
      | _ \<Rightarrow> Inl (Value_Error ''wide channel centers are supported only in 5 and 6 GHz''))"

definition capture_channel_definition :: "int \<Rightarrow> int \<Rightarrow> int \<Rightarrow> py_error + channel_definition" where
  "capture_channel_definition frequency channel width =
     (case linux_frequency_to_channel frequency of
        None \<Rightarrow> Inl (Value_Error ''channel and frequency are not a known matching pair'')
      | Some (known, b) \<Rightarrow>
          if known \<noteq> channel then Inl (Value_Error ''channel and frequency are not a known matching pair'')
          else if width \<notin> set (supported_widths b)
          then Inl (Value_Error ''capture width is not supported for the selected frequency band'')
          else if channel \<notin> set (primary_channels b)
          then Inl (Value_Error ''capture control channel is not an aligned primary channel'')
          else if frequency = 5935 \<and> width \<noteq> 20
          then Inl (Value_Error ''5935 MHz channel 2 capture is supported only at 20 MHz'')
          else if width = 20
          then Inr \<lparr>cd_band = b, cd_primary_channel = channel, cd_control_frequency = frequency,
                    cd_width = width, cd_center_1 = frequency, cd_center_2 = None\<rparr>
          else (case (primary_offsets width, wide_centers b width) of
              (Some offsets, Some centers) \<Rightarrow>
                let matching = filter (\<lambda>center. channel \<in> set (map (\<lambda>offset. center + offset) offsets)) centers
                in if length matching \<noteq> 1
                   then Inl (Value_Error ''capture control channel does not belong to one wide-channel block'')
                   else (case channel_frequency_mhz b (hd matching) of
                       Inl e \<Rightarrow> Inl e
                     | Inr center \<Rightarrow>
                         Inr \<lparr>cd_band = b, cd_primary_channel = channel, cd_control_frequency = frequency,
                              cd_width = width, cd_center_1 = center, cd_center_2 = None\<rparr>)
            | _ \<Rightarrow> Inl (Value_Error ''capture channel width has no closed geometry table'')))"

definition validate_complete_channel_definition ::
  "int \<Rightarrow> int \<Rightarrow> int \<Rightarrow> int option \<Rightarrow> int option \<Rightarrow> py_error + channel_definition" where
  "validate_complete_channel_definition frequency channel width center_1 center_2 =
     (case capture_channel_definition frequency channel width of
        Inl e \<Rightarrow> Inl e
      | Inr expected \<Rightarrow>
          if center_1 = None then Inl (Value_Error ''channel definition lacks center_frequency_1'')
          else if center_2 \<noteq> None
          then Inl (Value_Error ''80+80 MHz channel definitions are not supported'')
          else if center_1 \<noteq> Some (cd_center_1 expected)
          then Inl (Value_Error ''channel definition center_frequency_1 is inconsistent'')
          else Inr expected)"

definition validate_frequency_channel_width :: "int \<Rightarrow> int \<Rightarrow> int \<Rightarrow> py_error + int \<times> band" where
  "validate_frequency_channel_width frequency channel width =
     (case capture_channel_definition frequency channel width of
        Inl e \<Rightarrow> Inl e
      | Inr d \<Rightarrow> Inr (cd_primary_channel d, cd_band d))"

section \<open>The two platforms agree\<close>

text \<open>The two platforms name the same channel: below 58 GHz the mappings of Linux and Windows agree
  on every frequency, and Windows knows no channel in the 60 GHz band.\<close>

theorem platforms_agree_on_channels:
  "windows_frequency_to_channel f =
     (case linux_frequency_to_channel f of
        None \<Rightarrow> None
      | Some (c, b) \<Rightarrow> if b = Band_60 then None else Some (f, c, b))"
proof -
  have low: "1 \<le> (f - 2407) div 5 \<and> (f - 2407) div 5 \<le> 13" if "2412 \<le> f" "f \<le> 2472"
    using that by presburger
  have high: "1 \<le> (f - 5950) div 5 \<and> (f - 5950) div 5 \<le> 233" if "5955 \<le> f" "f \<le> 7115"
    using that by presburger
  consider "f \<le> 2484" | "2484 < f" "f \<le> 5895" | "5895 < f" "f \<le> 7115" | "7115 < f" by linarith
  then show ?thesis
    unfolding windows_frequency_to_channel_def linux_frequency_to_channel_def
    by cases (use low high in \<open>simp_all\<close>)
qed

section \<open>Frequencies of channels\<close>

text \<open>The standard's formula for the centre of a channel, the reference for the mapping.\<close>

fun nominal_frequency :: "band \<Rightarrow> int \<Rightarrow> int" where
  "nominal_frequency Band_2_4 c = (if c = 14 then 2484 else 2407 + 5 * c)"
| "nominal_frequency Band_5 c = 5000 + 5 * c"
| "nominal_frequency Band_6 c = (if c = 2 then 5935 else 5950 + 5 * c)"
| "nominal_frequency Band_60 c = 56160 + 2160 * c"

fun channel_bounds :: "band \<Rightarrow> int \<Rightarrow> bool" where
  "channel_bounds Band_2_4 c \<longleftrightarrow> 1 \<le> c \<and> c \<le> 14"
| "channel_bounds Band_5 c \<longleftrightarrow> 1 \<le> c \<and> c \<le> 179"
| "channel_bounds Band_6 c \<longleftrightarrow> 1 \<le> c \<and> c \<le> 233"
| "channel_bounds Band_60 c \<longleftrightarrow> 1 \<le> c \<and> c \<le> 6"

text \<open>Channel 2 of the 6 GHz band is at 5935 MHz, yet the formula of its other channels gives the channel
  number 2 at 5960 MHz too: the mapping of the code has one frequency too many.\<close>

lemma channel_cases:
  assumes "linux_frequency_to_channel f = Some (c, b)"
  obtains "f = 2484" "c = 14" "b = Band_2_4"
  | "2407 + 5 * c = f" "2412 \<le> f" "f \<le> 2472" "b = Band_2_4"
  | "5000 + 5 * c = f" "1 \<le> c" "c \<le> 179" "b = Band_5"
  | "f = 5935" "c = 2" "b = Band_6"
  | "5950 + 5 * c = f" "5955 \<le> f" "f \<le> 7115" "b = Band_6"
  | "56160 + 2160 * c = f" "58320 \<le> f" "f \<le> 69120" "b = Band_60"
proof -
  have exact: "5 * (x div 5) = x" if "x mod 5 = 0" for x :: int using that by presburger
  have exact_60: "2160 * (x div 2160) = x" if "x mod 2160 = 0" for x :: int
    using that mult_div_mod_eq [of 2160 x] by simp
  show thesis
  proof (cases "f = 2484")
    case True
    then show thesis using that(1) assms by (simp add: linux_frequency_to_channel_def)
  next
    case c1: False
    show thesis
    proof (cases "2412 \<le> f \<and> f \<le> 2472 \<and> (f - 2407) mod 5 = 0")
      case True
      then have "c = (f - 2407) div 5" "b = Band_2_4"
        using assms unfolding linux_frequency_to_channel_def
        by (simp_all only: c1 True if_False if_True simp_thms option.inject prod.inject)
      then show thesis using True exact [of "f - 2407"] by (intro that(2)) simp_all
    next
      case c2: False
      show thesis
      proof (cases "5000 \<le> f \<and> f \<le> 5895 \<and> (f - 5000) mod 5 = 0 \<and> 1 \<le> (f - 5000) div 5 \<and> (f - 5000) div 5 \<le> 179")
        case True
        then have "c = (f - 5000) div 5" "b = Band_5"
          using assms unfolding linux_frequency_to_channel_def
          by (simp_all only: c1 c2 True if_False if_True simp_thms option.inject prod.inject)
        then show thesis using True exact [of "f - 5000"] by (intro that(3)) simp_all
      next
        case c3: False
        have rest: "(if f = 5935 then Some (2, Band_6)
          else if 5955 \<le> f \<and> f \<le> 7115 \<and> (f - 5950) mod 5 = 0 then Some ((f - 5950) div 5, Band_6)
          else if 58320 \<le> f \<and> f \<le> 69120 \<and> (f - 56160) mod 2160 = 0 then Some ((f - 56160) div 2160, Band_60)
          else None) = Some (c, b)"
          using assms unfolding linux_frequency_to_channel_def by (simp only: c1 c2 c3 if_False)
        show thesis
        proof (cases "f = 5935")
          case True
          then show thesis using rest by (intro that(4)) simp_all
        next
          case c4: False
          show thesis
          proof (cases "5955 \<le> f \<and> f \<le> 7115 \<and> (f - 5950) mod 5 = 0")
            case True
            then have "c = (f - 5950) div 5" "b = Band_6"
              using rest by (simp_all only: c4 True if_False if_True simp_thms option.inject prod.inject)
            then show thesis using True exact [of "f - 5950"] by (intro that(5)) simp_all
          next
            case c5: False
            then have "58320 \<le> f" "f \<le> 69120" "(f - 56160) mod 2160 = 0" "c = (f - 56160) div 2160" "b = Band_60"
              using rest by (simp_all only: c4 c5 if_False) (simp_all only: option.simps prod.inject simp_thms split: if_splits)
            then show thesis using exact_60 [of "f - 56160"] by (intro that(6)) simp_all
          qed
        qed
      qed
    qed
  qed
qed

lemma channel_of_frequency:
  assumes "linux_frequency_to_channel f = Some (c, b)"
  shows "channel_bounds b c" and "nominal_frequency b c = f \<or> (f = 5960 \<and> b = Band_6 \<and> c = 2)"
  using assms by (atomize(full), cases rule: channel_cases) auto

section \<open>Capture blocks\<close>

text \<open>What a successful resolution consists of.\<close>

lemma capture_cases:
  assumes "capture_channel_definition f c w = Inr d"
  obtains (narrow) b where "linux_frequency_to_channel f = Some (c, b)" "c \<in> set (primary_channels b)" "w = 20"
      "d = \<lparr>cd_band = b, cd_primary_channel = c, cd_control_frequency = f, cd_width = 20, cd_center_1 = f,
            cd_center_2 = None\<rparr>"
  | (wide) b offsets centers center mhz where "linux_frequency_to_channel f = Some (c, b)"
      "c \<in> set (primary_channels b)" "w \<noteq> 20" "f \<noteq> 5935"
      "primary_offsets w = Some offsets" "wide_centers b w = Some centers" "center \<in> set centers"
      "c \<in> set (map (\<lambda>offset. center + offset) offsets)" "channel_frequency_mhz b center = Inr mhz"
      "d = \<lparr>cd_band = b, cd_primary_channel = c, cd_control_frequency = f, cd_width = w, cd_center_1 = mhz,
            cd_center_2 = None\<rparr>"
proof -
  obtain b where b: "linux_frequency_to_channel f = Some (c, b)"
    using assms by (auto simp: capture_channel_definition_def split: option.splits if_splits)
  have g: "w \<in> set (supported_widths b)" "c \<in> set (primary_channels b)" "\<not> (f = 5935 \<and> w \<noteq> 20)"
    using assms by (auto simp: capture_channel_definition_def b split: if_splits)
  show thesis
  proof (cases "w = 20")
    case True
    with assms b g that(1) show thesis by (simp add: capture_channel_definition_def)
  next
    case False
    then obtain offsets centers where o: "primary_offsets w = Some offsets" "wide_centers b w = Some centers"
      using assms g by (auto simp: capture_channel_definition_def b split: option.splits if_splits)
    let ?matching = "filter (\<lambda>center. c \<in> set (map (\<lambda>offset. center + offset) offsets)) centers"
    have "(if length ?matching \<noteq> 1
           then Inl (Value_Error ''capture control channel does not belong to one wide-channel block'')
           else (case channel_frequency_mhz b (hd ?matching) of
               Inl e \<Rightarrow> Inl e
             | Inr center \<Rightarrow> Inr \<lparr>cd_band = b, cd_primary_channel = c, cd_control_frequency = f,
                 cd_width = w, cd_center_1 = center, cd_center_2 = None\<rparr>)) = Inr d"
      using assms g False by (simp add: capture_channel_definition_def b o Let_def del: set_map)
    moreover have "hd ?matching \<in> set ?matching" if "length ?matching = 1"
      using that by (cases ?matching) auto
    ultimately show thesis
      using that(2) [OF b g(2) False _ o, of "hd ?matching"] g(3) False
      by (auto split: if_splits sum.splits simp del: set_map)
  qed
qed

definition wide_bands :: "(band \<times> int) list" where
  "wide_bands = [(Band_5, 80), (Band_5, 160), (Band_6, 80), (Band_6, 160)]"

lemma wide_centers_bands: "wide_centers b w = Some centers \<Longrightarrow> (b, w) \<in> set wide_bands"
  by (auto simp: wide_centers_def wide_bands_def split: if_splits)

lemma wide_centers_spread:
  "list_all (\<lambda>(b, w). case wide_centers b w of None \<Rightarrow> False
     | Some cs \<Rightarrow> list_all (\<lambda>x. 2 < x \<and> list_all (\<lambda>y. x = y \<or> w \<le> \<bar>5 * x - 5 * y\<bar>) cs) cs) wide_bands"
  by code_simp

lemma wide_offsets_fit:
  "list_all (\<lambda>w. case primary_offsets w of None \<Rightarrow> False
     | Some os \<Rightarrow> list_all (\<lambda>o'. \<bar>5 * o'\<bar> + 10 \<le> w div 2) os) [80, 160]"
  by code_simp

lemma center_frequency:
  assumes "wide_centers b w = Some centers" and "center \<in> set centers" and "channel_frequency_mhz b center = Inr mhz"
  shows "mhz = (if b = Band_5 then 5000 else 5950) + 5 * center" "b = Band_5 \<or> b = Band_6" "2 < center"
proof -
  have "2 < center"
    using wide_centers_spread wide_centers_bands [OF assms(1)] assms(1,2)
    by (fastforce simp: list_all_iff)
  then show "mhz = (if b = Band_5 then 5000 else 5950) + 5 * center" "b = Band_5 \<or> b = Band_6" "2 < center"
    using assms(3) by (auto simp: channel_frequency_mhz_def split: band.splits)
qed

text \<open>C35: a resolved capture definition is a real channel block: the control channel lies inside the block
  around the centre frequency, a 20 MHz block is centred on it, and two wide blocks of the same band and
  width are the same block or do not overlap.\<close>

theorem capture_blocks_are_disjoint:
  assumes "capture_channel_definition f c w = Inr d" and "capture_channel_definition f' c' w = Inr d'"
    and "cd_band d = cd_band d'"
  shows "cd_width d = w \<and> w \<in> {20, 80, 160} \<and> cd_control_frequency d = f \<and> cd_center_2 d = None
    \<and> cd_center_1 d - w div 2 \<le> f - 10 \<and> f + 10 \<le> cd_center_1 d + w div 2
    \<and> (w \<noteq> 20 \<longrightarrow> cd_center_1 d = cd_center_1 d' \<or> w \<le> \<bar>cd_center_1 d - cd_center_1 d'\<bar>)"
  using assms(1)
proof (cases rule: capture_cases)
  case (narrow b)
  then show ?thesis by simp
next
  case (wide b offsets centers center mhz)
  have w: "w \<in> {80, 160}" using wide_centers_bands [OF wide(6)] by (auto simp: wide_bands_def)
  note mhz = center_frequency [OF wide(6,7,9)]
  obtain off where off: "off \<in> set offsets" "c = center + off" using wide(8) by auto
  have "\<bar>5 * off\<bar> + 10 \<le> w div 2"
    using wide_offsets_fit w off(1) wide(5) by (auto simp: list_all_iff)
  moreover have "f = (if b = Band_5 then 5000 else 5950) + 5 * c"
    using channel_of_frequency [OF wide(1)] mhz(2) wide(4) by (auto split: if_splits)
  ultimately have "mhz - w div 2 \<le> f - 10 \<and> f + 10 \<le> mhz + w div 2"
    unfolding mhz(1) off(2) by auto
  moreover have "cd_center_1 d = cd_center_1 d' \<or> w \<le> \<bar>cd_center_1 d - cd_center_1 d'\<bar>"
    using assms(2)
  proof (cases rule: capture_cases)
    case (narrow b')
    then show ?thesis using wide(3) by simp
  next
    case w2: (wide b' offsets' centers' center' mhz')
    have same: "b' = b" using assms(3) wide(10) w2(10) by simp
    then have "centers' = centers" using wide(6) w2(6) by simp
    then have "center = center' \<or> w \<le> \<bar>5 * center - 5 * center'\<bar>"
      using wide_centers_spread wide_centers_bands [OF wide(6)] wide(6,7) w2(7)
      by (fastforce simp: list_all_iff)
    then show ?thesis
      using mhz(1) center_frequency(1) [OF w2(6,7,9)] wide(10) w2(10) same by auto
  qed
  ultimately show ?thesis using wide(10) w by auto
qed

lemma capture_blocks_are_disjoint_witness:
  "\<exists>d d'. capture_channel_definition 5180 36 80 = Inr d \<and> capture_channel_definition 5260 52 80 = Inr d'
    \<and> 80 \<le> \<bar>cd_center_1 d - cd_center_1 d'\<bar>"
proof -
  have d: "capture_channel_definition 5180 36 80 = Inr \<lparr>cd_band = Band_5, cd_primary_channel = 36,
      cd_control_frequency = 5180, cd_width = 80, cd_center_1 = 5210, cd_center_2 = None\<rparr>"
    and d': "capture_channel_definition 5260 52 80 = Inr \<lparr>cd_band = Band_5, cd_primary_channel = 52,
      cd_control_frequency = 5260, cd_width = 80, cd_center_1 = 5290, cd_center_2 = None\<rparr>"
    by code_simp+
  show ?thesis using capture_blocks_are_disjoint [OF d d'] d d' by simp
qed

text \<open>The extra frequency is accepted as a control channel: 5960 MHz resolves to a 20 MHz capture of channel
  2, which is at 5935 MHz, although its block overlaps that of channel 1.\<close>

lemma misaligned_channel_is_accepted:
  "capture_channel_definition 5960 2 20 = Inr \<lparr>cd_band = Band_6, cd_primary_channel = 2,
     cd_control_frequency = 5960, cd_width = 20, cd_center_1 = 5960, cd_center_2 = None\<rparr>"
  "nominal_frequency Band_6 2 = 5935" "linux_frequency_to_channel 5955 = Some (1, Band_6)"
  by code_simp+

section \<open>Completeness\<close>

text \<open>Every channel of every wide block resolves, and to that block.\<close>

lemma block_channels_resolve:
  "list_all (\<lambda>(b, w). case (primary_offsets w, wide_centers b w) of
      (Some offsets, Some centers) \<Rightarrow>
        list_all (\<lambda>m. list_all (\<lambda>off.
          capture_channel_definition (nominal_frequency b (m + off)) (m + off) w
            = Inr \<lparr>cd_band = b, cd_primary_channel = m + off,
                   cd_control_frequency = nominal_frequency b (m + off), cd_width = w,
                   cd_center_1 = nominal_frequency b m, cd_center_2 = None\<rparr>) offsets) centers
    | _ \<Rightarrow> False) wide_bands"
  by code_simp

lemma validate_complete_iff:
  "validate_complete_channel_definition f c w c1 c2 = Inr d
     \<longleftrightarrow> capture_channel_definition f c w = Inr d \<and> c1 = Some (cd_center_1 d) \<and> c2 = None"
  by (auto simp: validate_complete_channel_definition_def split: sum.splits if_splits)

end
