(* ===== verification/Seq_Channel.thy ===== *)
theory Seq_Channel
  imports Agent_Prelude
begin

text \<open>
  The interface of a durable numbered channel: the last acknowledged number, at most one message
  that has been stored but not acknowledged, and the two operations that store the next message and
  acknowledge the stored one.  The heartbeats and the capability manifests of the agent are such
  channels.  A client that sends in rounds (resend the stored message if there is one, otherwise
  store and send the next) numbers its messages without gaps and resends a message unchanged
  until it is acknowledged; this is shown once, here.
\<close>

section \<open>Rounds of a client\<close>

text \<open>One round: the message that is sent and the state afterwards, when the round is delivered or not.\<close>

definition channel_round ::
  "('s \<Rightarrow> int) \<Rightarrow> ('s \<Rightarrow> (int \<times> 'p) option) \<Rightarrow> (int \<Rightarrow> 'p \<Rightarrow> 's \<Rightarrow> 's option) \<Rightarrow> (int \<Rightarrow> 's \<Rightarrow> 's option) \<Rightarrow>
   (int \<Rightarrow> 'p) \<times> bool \<Rightarrow> 's \<Rightarrow> ((int \<times> 'p) \<times> 's) option" where
  "channel_round acked pending persist confirm rnd s =
     (case rnd of (make, delivered) \<Rightarrow>
        (case (case pending s of
                 Some (n, p) \<Rightarrow> Some (n, p, s)
               | None \<Rightarrow> (let n = acked s + 1 in map_option (\<lambda>s1. (n, make n, s1)) (persist n (make n) s))) of
           None \<Rightarrow> None
         | Some (n, p, s1) \<Rightarrow>
             if delivered then map_option (\<lambda>s2. ((n, p), s2)) (confirm n s1) else Some ((n, p), s1)))"

fun channel_run ::
  "('s \<Rightarrow> int) \<Rightarrow> ('s \<Rightarrow> (int \<times> 'p) option) \<Rightarrow> (int \<Rightarrow> 'p \<Rightarrow> 's \<Rightarrow> 's option) \<Rightarrow> (int \<Rightarrow> 's \<Rightarrow> 's option) \<Rightarrow>
   ((int \<Rightarrow> 'p) \<times> bool) list \<Rightarrow> 's \<Rightarrow> ((int \<times> 'p) list \<times> 's) option" where
  "channel_run acked pending persist confirm [] s = Some ([], s)"
| "channel_run acked pending persist confirm (rnd # rnds) s =
     (case channel_round acked pending persist confirm rnd s of
        None \<Rightarrow> None
      | Some (msg, s1) \<Rightarrow>
          map_option (\<lambda>(msgs, s2). (msg # msgs, s2)) (channel_run acked pending persist confirm rnds s1))"

section \<open>The contract\<close>

locale seq_channel =
  fixes acked :: "'s \<Rightarrow> int"
    and pending :: "'s \<Rightarrow> (int \<times> 'p) option"
    and persist :: "int \<Rightarrow> 'p \<Rightarrow> 's \<Rightarrow> 's option"
    and confirm :: "int \<Rightarrow> 's \<Rightarrow> 's option"
    and wf :: "'s \<Rightarrow> bool"
    and usable :: "'p \<Rightarrow> 's \<Rightarrow> bool"
  assumes persist_total: "wf s \<Longrightarrow> pending s = None \<Longrightarrow> usable p s \<Longrightarrow> persist (acked s + 1) p s \<noteq> None"
    and persist_next: "wf s \<Longrightarrow> pending s = None \<Longrightarrow> persist (acked s + 1) p s = Some s' \<Longrightarrow>
      wf s' \<and> pending s' = Some (acked s + 1, p) \<and> acked s' = acked s"
    and confirm_ok: "wf s \<Longrightarrow> pending s = Some (n, p) \<Longrightarrow>
      \<exists>s'. confirm n s = Some s' \<and> wf s' \<and> pending s' = None \<and> acked s' = n"
    and pending_next: "wf s \<Longrightarrow> pending s = Some (n, p) \<Longrightarrow> n = acked s + 1"
begin

lemma round_total:
  assumes "wf s" and "pending s = None \<Longrightarrow> usable (make (acked s + 1)) s"
  shows "channel_round acked pending persist confirm (make, d) s \<noteq> None"
proof (cases "pending s")
  case None
  with assms obtain s1 where "persist (acked s + 1) (make (acked s + 1)) s = Some s1"
    using persist_total by blast
  with persist_next [OF assms(1) None this] confirm_ok None show ?thesis
    by (fastforce simp: channel_round_def Let_def)
next
  case (Some m)
  with assms(1) confirm_ok show ?thesis by (cases m) (fastforce simp: channel_round_def)
qed

lemma round_next:
  assumes "wf s" and "channel_round acked pending persist confirm (make, d) s = Some (msg, s')"
  shows "wf s' \<and> fst msg = acked s + 1 \<and> acked s' = (if d then acked s + 1 else acked s)
    \<and> pending s' = (if d then None else Some msg) \<and> (\<forall>m. pending s = Some m \<longrightarrow> msg = m)"
proof (cases "pending s")
  case None
  with assms(2) obtain s1 where s1: "persist (acked s + 1) (make (acked s + 1)) s = Some s1"
    by (auto simp: channel_round_def Let_def split: option.splits)
  have n1: "wf s1" "pending s1 = Some (acked s + 1, make (acked s + 1))" "acked s1 = acked s"
    using persist_next [OF assms(1) None s1] by blast+
  obtain s2 where "confirm (acked s + 1) s1 = Some s2" "wf s2" "pending s2 = None" "acked s2 = acked s + 1"
    using confirm_ok [OF n1(1,2)] by blast
  with s1 n1 None assms(2) show ?thesis by (auto simp: channel_round_def Let_def split: if_splits)
next
  case (Some m)
  then obtain q where q: "pending s = Some (acked s + 1, q)" using pending_next [OF assms(1)] by (cases m) auto
  obtain s2 where "confirm (acked s + 1) s = Some s2" "wf s2" "pending s2 = None" "acked s2 = acked s + 1"
    using confirm_ok [OF assms(1) q] by blast
  with q assms show ?thesis by (auto simp: channel_round_def split: if_splits)
qed

text \<open>
  The messages of a run: the numbers start right after the last acknowledged one and grow by one
  exactly after a delivered round; what is sent after an undelivered round is the same message.
\<close>

lemma run_messages:
  assumes "wf s" and "channel_run acked pending persist confirm rnds s = Some (msgs, s')"
  shows "wf s' \<and> length msgs = length rnds
    \<and> (\<forall>i < length rnds. fst (msgs ! i) = acked s + 1 + int (length (filter snd (take i rnds))))
    \<and> (\<forall>i. Suc i < length rnds \<longrightarrow> \<not> snd (rnds ! i) \<longrightarrow> msgs ! Suc i = msgs ! i)
    \<and> acked s' = acked s + int (length (filter snd rnds))
    \<and> (rnds \<noteq> [] \<longrightarrow> (\<forall>m. pending s = Some m \<longrightarrow> hd msgs = m))"
  using assms
proof (induction rnds arbitrary: s msgs)
  case Nil
  then show ?case by simp
next
  case (Cons rnd rnds)
  obtain make d where rnd: "rnd = (make, d)" by (cases rnd)
  from Cons.prems(2) obtain msg s1 rest where
    first: "channel_round acked pending persist confirm (make, d) s = Some (msg, s1)"
    and rest: "channel_run acked pending persist confirm rnds s1 = Some (rest, s')" and msgs: "msgs = msg # rest"
    unfolding rnd by (auto split: option.splits prod.splits)
  have s1: "wf s1" "fst msg = acked s + 1" "acked s1 = (if d then acked s + 1 else acked s)"
    "pending s1 = (if d then None else Some msg)" "\<forall>m. pending s = Some m \<longrightarrow> msg = m"
    using round_next [OF Cons.prems(1) first] by blast+
  have ih: "wf s' \<and> length rest = length rnds
    \<and> (\<forall>i < length rnds. fst (rest ! i) = acked s1 + 1 + int (length (filter snd (take i rnds))))
    \<and> (\<forall>i. Suc i < length rnds \<longrightarrow> \<not> snd (rnds ! i) \<longrightarrow> rest ! Suc i = rest ! i)
    \<and> acked s' = acked s1 + int (length (filter snd rnds))
    \<and> (rnds \<noteq> [] \<longrightarrow> (\<forall>m. pending s1 = Some m \<longrightarrow> hd rest = m))"
    by (rule Cons.IH [OF s1(1) rest])
  have numbers: "fst (msgs ! i) = acked s + 1 + int (length (filter snd (take i (rnd # rnds))))"
    if "i < length (rnd # rnds)" for i
    using that ih s1(2,3) unfolding msgs rnd by (cases i) auto
  have same: "msgs ! Suc i = msgs ! i" if "Suc i < length (rnd # rnds)" "\<not> snd ((rnd # rnds) ! i)" for i
  proof (cases i)
    case 0
    with that ih s1(4) show ?thesis unfolding msgs rnd by (cases rest) auto
  next
    case (Suc j)
    with that ih show ?thesis unfolding msgs by auto
  qed
  have "\<forall>m. pending s = Some m \<longrightarrow> hd msgs = m"
    using s1(5) unfolding msgs by simp
  moreover have "acked s' = acked s + int (length (filter snd (rnd # rnds)))"
    using ih s1(3) rnd by auto
  ultimately show ?case using ih numbers same msgs by auto
qed

end

end
