(* ===== verification/Runtime_Store.thy ===== *)
theory Runtime_Store
  imports Store_Schema Seq_Channel
begin

text \<open>
  The runtime part of \<open>SQLiteStore\<close> (\<open>infrastructure/sqlite/store.py\<close>): start and stop of the
  process, the pending and acknowledged heartbeat, the capability manifests.  Heartbeats and
  manifests are the two numbered channels of the agent, and the contract of such a channel is
  interpreted on their operations.
\<close>

section \<open>Start and stop\<close>

definition start_runtime :: "stamp \<Rightarrow> uuid \<Rightarrow> store \<Rightarrow> store" where
  "start_runtime now boot_id db =
     db\<lparr>t_runtime := Some (case t_runtime db of
          None \<Rightarrow> \<lparr>rs_boot_id = boot_id, rs_heartbeat_acked = -1, rs_heartbeat_pending = None,
                   rs_heartbeat_payload = None, rs_heartbeat_hash = None, rs_manifest_acked = -1,
                   rs_clean_shutdown = False, rs_started_at = Some now, rs_stopped_at = None,
                   rs_updated_at = now\<rparr>
        | Some r \<Rightarrow> r\<lparr>rs_boot_id := boot_id, rs_clean_shutdown := False, rs_started_at := Some now,
                      rs_stopped_at := None, rs_updated_at := now\<rparr>)\<rparr>"

definition stop_runtime :: "stamp \<Rightarrow> store \<Rightarrow> store" where
  "stop_runtime now db =
     db\<lparr>t_runtime := map_option (\<lambda>r. r\<lparr>rs_clean_shutdown := True, rs_stopped_at := Some now,
                                      rs_updated_at := now\<rparr>) (t_runtime db)\<rparr>"

section \<open>Heartbeats\<close>

text \<open>The stored text is loaded by the caller; here it is the text and its hash.\<close>

definition pending_heartbeat_text :: "store \<Rightarrow> string option" where
  "pending_heartbeat_text db = (case t_runtime db of None \<Rightarrow> None | Some r \<Rightarrow> rs_heartbeat_payload r)"

definition persist_heartbeat_text :: "stamp \<Rightarrow> int \<Rightarrow> string \<times> string \<Rightarrow> store \<Rightarrow> (unit, store) outcome" where
  "persist_heartbeat_text now seqno enc db =
     (case t_runtime db of
        Some r \<Rightarrow>
          if rs_heartbeat_pending r \<noteq> None
          then (Inl (State_Conflict_Error ''heartbeat already pending or runtime not started''), db)
          else (Inr (), db\<lparr>t_runtime := Some (r\<lparr>rs_heartbeat_pending := Some seqno,
                             rs_heartbeat_payload := Some (fst enc), rs_heartbeat_hash := Some (snd enc),
                             rs_updated_at := now\<rparr>)\<rparr>)
      | None \<Rightarrow> (Inl (State_Conflict_Error ''heartbeat already pending or runtime not started''), db))"

definition persist_heartbeat :: "(string \<Rightarrow> string) \<Rightarrow> stamp \<Rightarrow> int \<Rightarrow> json \<Rightarrow> store \<Rightarrow> (unit, store) outcome" where
  "persist_heartbeat sha now seqno payload db =
     persist_heartbeat_text now seqno (canonical_json payload, digest sha payload) db"

definition confirm_heartbeat :: "stamp \<Rightarrow> int \<Rightarrow> store \<Rightarrow> (unit, store) outcome" where
  "confirm_heartbeat now seqno db =
     (case t_runtime db of
        Some r \<Rightarrow>
          if rs_heartbeat_pending r = Some seqno
          then (Inr (), db\<lparr>t_runtime := Some (r\<lparr>rs_heartbeat_acked := seqno, rs_heartbeat_pending := None,
                             rs_heartbeat_payload := None, rs_heartbeat_hash := None,
                             rs_updated_at := now\<rparr>)\<rparr>)
          else (Inl (State_Conflict_Error ''heartbeat confirmation conflict''), db)
      | None \<Rightarrow> (Inl (State_Conflict_Error ''heartbeat confirmation conflict''), db))"

section \<open>Capability manifests\<close>

definition pending_manifest :: "store \<Rightarrow> manifest_row option" where
  "pending_manifest db =
     (case sort_key mr_sequence (filter (\<lambda>m. \<not> mr_confirmed m) (t_manifests db)) of
        [] \<Rightarrow> None | m # _ \<Rightarrow> Some m)"

definition confirmed_manifest :: "store \<Rightarrow> manifest_row option" where
  "confirmed_manifest db =
     (case sort_key (\<lambda>m. - mr_sequence m) (filter mr_confirmed (t_manifests db)) of
        [] \<Rightarrow> None | m # _ \<Rightarrow> Some m)"

definition persist_manifest_text ::
  "stamp \<Rightarrow> int \<Rightarrow> uuid \<times> string \<times> string \<Rightarrow> store \<Rightarrow> (unit, store) outcome" where
  "persist_manifest_text now seqno enc db =
     (case insert_manifest
             \<lparr>mr_manifest_id = fst enc, mr_sequence = seqno, mr_payload = fst (snd enc),
              mr_payload_hash = snd (snd enc), mr_server_digest = None, mr_confirmed = False,
              mr_created_at = now, mr_confirmed_at = None\<rparr> db of
        None \<Rightarrow> (Inl Integrity_Error, db)
      | Some db' \<Rightarrow> (Inr (), db'))"

definition persist_manifest ::
  "(string \<Rightarrow> string) \<Rightarrow> stamp \<Rightarrow> uuid \<Rightarrow> int \<Rightarrow> json \<Rightarrow> store \<Rightarrow> (unit, store) outcome" where
  "persist_manifest sha now manifest_id seqno payload db =
     persist_manifest_text now seqno (manifest_id, canonical_json payload, digest sha payload) db"

definition confirm_manifest :: "stamp \<Rightarrow> uuid \<Rightarrow> int \<Rightarrow> string \<Rightarrow> store \<Rightarrow> (unit, store) outcome" where
  "confirm_manifest now manifest_id seqno server_digest db =
     (let P = (\<lambda>m. mr_manifest_id m = manifest_id \<and> mr_sequence m = seqno \<and> \<not> mr_confirmed m)
      in if row_count P (t_manifests db) \<noteq> 1
         then (Inl (State_Conflict_Error ''manifest confirmation conflict''), db)
         else (Inr (), db\<lparr>t_manifests := upd_where P
                  (\<lambda>m. m\<lparr>mr_confirmed := True, mr_server_digest := Some server_digest,
                          mr_confirmed_at := Some now\<rparr>) (t_manifests db),
                t_runtime := map_option (\<lambda>r. r\<lparr>rs_manifest_acked := seqno, rs_updated_at := now\<rparr>)
                  (t_runtime db)\<rparr>))"

definition purge_identity :: "store \<Rightarrow> store" where
  "purge_identity db = db\<lparr>t_manifests := [], t_runtime := None, t_identity := None\<rparr>"

section \<open>The heartbeats are a numbered channel\<close>

definition ok_state :: "('a, 's) outcome \<Rightarrow> 's option" where
  "ok_state r = (case r of (Inl _, _) \<Rightarrow> None | (Inr _, s) \<Rightarrow> Some s)"

lemma ok_state_simps [simp]: "ok_state (Inl e, s) = None" "ok_state (Inr x, s) = Some s"
  by (simp_all add: ok_state_def)

definition heartbeat_acked :: "store \<Rightarrow> int" where
  "heartbeat_acked db = (case t_runtime db of None \<Rightarrow> -1 | Some r \<Rightarrow> rs_heartbeat_acked r)"

definition heartbeat_pending :: "store \<Rightarrow> (int \<times> string \<times> string) option" where
  "heartbeat_pending db =
     (case t_runtime db of
        Some r \<Rightarrow> (case (rs_heartbeat_pending r, rs_heartbeat_payload r, rs_heartbeat_hash r) of
                     (Some n, Some p, Some h) \<Rightarrow> Some (n, p, h) | _ \<Rightarrow> None)
      | None \<Rightarrow> None)"

definition heartbeat_wf :: "store \<Rightarrow> bool" where
  "heartbeat_wf db \<longleftrightarrow>
     (case t_runtime db of
        None \<Rightarrow> False
      | Some r \<Rightarrow> (case rs_heartbeat_pending r of
            None \<Rightarrow> rs_heartbeat_payload r = None \<and> rs_heartbeat_hash r = None
          | Some n \<Rightarrow> n = rs_heartbeat_acked r + 1 \<and> rs_heartbeat_payload r \<noteq> None \<and> rs_heartbeat_hash r \<noteq> None))"

lemmas heartbeat_defs = heartbeat_acked_def heartbeat_pending_def heartbeat_wf_def
  persist_heartbeat_text_def confirm_heartbeat_def

interpretation heartbeats: seq_channel heartbeat_acked heartbeat_pending
    "\<lambda>n p db. ok_state (persist_heartbeat_text now n p db)" "\<lambda>n db. ok_state (confirm_heartbeat now n db)"
    heartbeat_wf "\<lambda>p db. True"
  for now
  by unfold_locales (auto simp: heartbeat_defs split: option.splits)

lemma start_runtime_heartbeats:
  "heartbeat_acked (start_runtime now boot db) = heartbeat_acked db"
  "heartbeat_pending (start_runtime now boot db) = heartbeat_pending db"
  "(t_runtime db = None \<or> heartbeat_wf db) \<Longrightarrow> heartbeat_wf (start_runtime now boot db)"
  by (auto simp: heartbeat_defs start_runtime_def split: option.splits)

section \<open>The manifests are a numbered channel\<close>

definition manifest_acked :: "store \<Rightarrow> int" where
  "manifest_acked db = (case t_runtime db of None \<Rightarrow> -1 | Some r \<Rightarrow> rs_manifest_acked r)"

definition manifest_pending :: "store \<Rightarrow> (int \<times> uuid \<times> string \<times> string) option" where
  "manifest_pending db =
     map_option (\<lambda>m. (mr_sequence m, mr_manifest_id m, mr_payload m, mr_payload_hash m)) (pending_manifest db)"

definition confirm_pending_manifest :: "stamp \<Rightarrow> string \<Rightarrow> int \<Rightarrow> store \<Rightarrow> store option" where
  "confirm_pending_manifest now server_digest n db =
     (case pending_manifest db of
        None \<Rightarrow> None
      | Some m \<Rightarrow> ok_state (confirm_manifest now (mr_manifest_id m) n server_digest db))"

definition manifest_wf :: "store \<Rightarrow> bool" where
  "manifest_wf db \<longleftrightarrow>
     t_runtime db \<noteq> None \<and> distinct (map mr_manifest_id (t_manifests db)) \<and>
     (\<forall>m \<in> set (t_manifests db). mr_confirmed m \<longrightarrow> mr_sequence m \<le> manifest_acked db) \<and>
     (\<forall>m \<in> set (t_manifests db). \<not> mr_confirmed m \<longrightarrow> mr_sequence m = manifest_acked db + 1) \<and>
     length (filter (\<lambda>m. \<not> mr_confirmed m) (t_manifests db)) \<le> 1"

lemma pending_manifest_None: "pending_manifest db = None \<longleftrightarrow> (\<forall>m \<in> set (t_manifests db). mr_confirmed m)"
proof -
  have "pending_manifest db = None \<longleftrightarrow> sort_key mr_sequence (filter (\<lambda>m. \<not> mr_confirmed m) (t_manifests db)) = []"
    by (simp add: pending_manifest_def split: list.split)
  also have "\<dots> \<longleftrightarrow> set (sort_key mr_sequence (filter (\<lambda>m. \<not> mr_confirmed m) (t_manifests db))) = {}"
    by (rule set_empty [symmetric])
  also have "\<dots> \<longleftrightarrow> (\<forall>m \<in> set (t_manifests db). mr_confirmed m)" unfolding set_sort by auto
  finally show ?thesis .
qed

lemma pending_manifest_SomeD:
  assumes "pending_manifest db = Some m"
  shows "m \<in> set (t_manifests db)" and "\<not> mr_confirmed m"
proof -
  from assms obtain ms where "sort_key mr_sequence (filter (\<lambda>m. \<not> mr_confirmed m) (t_manifests db)) = m # ms"
    by (auto simp: pending_manifest_def split: list.splits)
  then have "set (sort_key mr_sequence (filter (\<lambda>m. \<not> mr_confirmed m) (t_manifests db))) = set (m # ms)" by simp
  then have "m \<in> set (filter (\<lambda>m. \<not> mr_confirmed m) (t_manifests db))" unfolding set_sort by simp
  then show "m \<in> set (t_manifests db)" "\<not> mr_confirmed m" by auto
qed

lemma manifest_wf_pending:
  assumes "manifest_wf db" and "pending_manifest db = Some m"
  shows "filter (\<lambda>m. \<not> mr_confirmed m) (t_manifests db) = [m]"
proof -
  have "m \<in> set (filter (\<lambda>m. \<not> mr_confirmed m) (t_manifests db))"
    using pending_manifest_SomeD [OF assms(2)] by simp
  moreover have "length (filter (\<lambda>m. \<not> mr_confirmed m) (t_manifests db)) \<le> 1"
    using assms(1) by (simp add: manifest_wf_def)
  ultimately show ?thesis by (cases "filter (\<lambda>m. \<not> mr_confirmed m) (t_manifests db)") auto
qed

lemma manifest_wf_confirm:
  assumes wf: "manifest_wf db" and m: "pending_manifest db = Some m"
  obtains db' where "confirm_manifest now (mr_manifest_id m) (mr_sequence m) d db = (Inr (), db')"
    "manifest_wf db'" "pending_manifest db' = None" "manifest_acked db' = mr_sequence m"
    "confirmed_manifest db' = Some (m\<lparr>mr_confirmed := True, mr_server_digest := Some d, mr_confirmed_at := Some now\<rparr>)"
proof -
  let ?P = "\<lambda>x. mr_manifest_id x = mr_manifest_id m \<and> mr_sequence x = mr_sequence m \<and> \<not> mr_confirmed x"
  let ?c = "\<lambda>x. x\<lparr>mr_confirmed := True, mr_server_digest := Some d, mr_confirmed_at := Some now\<rparr>"
  have only: "filter (\<lambda>x. \<not> mr_confirmed x) (t_manifests db) = [m]" by (rule manifest_wf_pending [OF wf m])
  have uniq: "x = m" if "x \<in> set (t_manifests db)" "\<not> mr_confirmed x" for x
  proof -
    have "x \<in> set (filter (\<lambda>x. \<not> mr_confirmed x) (t_manifests db))" using that by simp
    then show "x = m" unfolding only by simp
  qed
  have P: "?P x \<longleftrightarrow> x = m" "?P x \<longleftrightarrow> \<not> mr_confirmed x" if "x \<in> set (t_manifests db)" for x
    using uniq [OF that] pending_manifest_SomeD(2) [OF m] by auto
  have "filter ?P (t_manifests db) = filter (\<lambda>x. \<not> mr_confirmed x) (t_manifests db)"
    by (rule filter_cong [OF refl P(2)])
  then have count: "row_count ?P (t_manifests db) = 1" using only by (simp add: row_count_def)
  let ?db = "db\<lparr>t_manifests := upd_where ?P ?c (t_manifests db),
    t_runtime := map_option (\<lambda>r. r\<lparr>rs_manifest_acked := mr_sequence m, rs_updated_at := now\<rparr>) (t_runtime db)\<rparr>"
  obtain r where r: "t_runtime db = Some r" using wf by (auto simp: manifest_wf_def)
  have seqno: "mr_sequence m = manifest_acked db + 1"
    using wf pending_manifest_SomeD [OF m] by (simp add: manifest_wf_def)
  have all: "\<forall>x \<in> set (t_manifests ?db). mr_confirmed x \<and> mr_sequence x \<le> mr_sequence m"
    using wf P seqno by (auto simp: set_upd_where manifest_wf_def)
  show ?thesis
  proof (rule that)
    show "confirm_manifest now (mr_manifest_id m) (mr_sequence m) d db = (Inr (), ?db)"
      using count by (simp add: confirm_manifest_def Let_def)
    show acked: "manifest_acked ?db = mr_sequence m" using r by (simp add: manifest_acked_def)
    have "distinct (map mr_manifest_id (t_manifests ?db))" using wf by (simp add: manifest_wf_def)
    moreover have "filter (\<lambda>x. \<not> mr_confirmed x) (t_manifests ?db) = []" using all by (simp only: filter_empty_conv) blast
    ultimately show "manifest_wf ?db" unfolding manifest_wf_def acked using all r by simp
    show "pending_manifest ?db = None" unfolding pending_manifest_None using all by blast
    have cm: "?c m \<in> set (filter mr_confirmed (t_manifests ?db))"
      using pending_manifest_SomeD [OF m] by (auto simp: set_upd_where intro!: image_eqI [of _ _ m])
    have "- mr_sequence (?c m) < - mr_sequence y" if "y \<in> set (filter mr_confirmed (t_manifests ?db))" "y \<noteq> ?c m" for y
      using that wf P seqno by (auto simp: set_upd_where manifest_wf_def split: if_splits)
    with cm obtain ys where "sort_key (\<lambda>m. - mr_sequence m) (filter mr_confirmed (t_manifests ?db)) = ?c m # ys"
      by (rule sort_key_first) blast
    then show "confirmed_manifest ?db = Some (?c m)" by (simp add: confirmed_manifest_def)
  qed
qed

lemma manifest_wf_persist:
  assumes wf: "manifest_wf db" and none: "pending_manifest db = None"
    and ok: "persist_manifest_text now (manifest_acked db + 1) enc db = (Inr (), db')"
  shows "manifest_wf db'" and "manifest_pending db' = Some (manifest_acked db + 1, enc)"
    and "manifest_acked db' = manifest_acked db"
proof -
  let ?m = "\<lparr>mr_manifest_id = fst enc, mr_sequence = manifest_acked db + 1, mr_payload = fst (snd enc),
    mr_payload_hash = snd (snd enc), mr_server_digest = None, mr_confirmed = False,
    mr_created_at = now, mr_confirmed_at = None\<rparr>"
  from ok have new: "fst enc \<notin> mr_manifest_id ` set (t_manifests db)"
    and db': "db' = db\<lparr>t_manifests := t_manifests db @ [?m]\<rparr>"
    by (auto simp: persist_manifest_text_def insert_manifest_def split: if_splits)
  have conf: "\<forall>m \<in> set (t_manifests db). mr_confirmed m" using none by (simp add: pending_manifest_None)
  have empty: "filter (\<lambda>m. \<not> mr_confirmed m) (t_manifests db) = []" using conf by (simp add: filter_empty_conv)
  show acked: "manifest_acked db' = manifest_acked db" by (simp add: db' manifest_acked_def)
  show "manifest_wf db'"
    using wf new conf empty unfolding manifest_wf_def acked by (auto simp: db')
  show "manifest_pending db' = Some (manifest_acked db + 1, enc)"
    by (simp add: manifest_pending_def pending_manifest_def db' empty)
qed

lemma persist_manifest_total:
  assumes "manifest_wf db" and "pending_manifest db = None" and "fst enc \<notin> mr_manifest_id ` set (t_manifests db)"
  shows "\<exists>db'. persist_manifest_text now (manifest_acked db + 1) enc db = (Inr (), db')"
proof -
  have "manifest_acked db + 1 \<notin> mr_sequence ` set (t_manifests db)"
    using assms(1,2) by (auto simp: manifest_wf_def pending_manifest_None)
  with assms(3) show ?thesis by (simp add: persist_manifest_text_def insert_manifest_def)
qed

interpretation manifests: seq_channel manifest_acked manifest_pending
    "\<lambda>n p db. ok_state (persist_manifest_text now n p db)" "confirm_pending_manifest now d"
    manifest_wf "\<lambda>p db. fst p \<notin> mr_manifest_id ` set (t_manifests db)"
  for now d
proof unfold_locales
  fix s and p :: "uuid \<times> string \<times> string"
  assume "manifest_wf s" "manifest_pending s = None" "fst p \<notin> mr_manifest_id ` set (t_manifests s)"
  then show "ok_state (persist_manifest_text now (manifest_acked s + 1) p s) \<noteq> None"
    using persist_manifest_total [of s p now] by (auto simp: manifest_pending_def)
next
  fix s s' and p :: "uuid \<times> string \<times> string"
  assume a: "manifest_wf s" "manifest_pending s = None"
    and ok: "ok_state (persist_manifest_text now (manifest_acked s + 1) p s) = Some s'"
  from ok have "persist_manifest_text now (manifest_acked s + 1) p s = (Inr (), s')"
    by (auto simp: ok_state_def split: prod.splits sum.splits)
  with a show "manifest_wf s' \<and> manifest_pending s' = Some (manifest_acked s + 1, p) \<and> manifest_acked s' = manifest_acked s"
    using manifest_wf_persist [of s now p s'] by (simp add: manifest_pending_def)
next
  fix s n and p :: "uuid \<times> string \<times> string"
  assume wf: "manifest_wf s" and "manifest_pending s = Some (n, p)"
  then obtain m where m: "pending_manifest s = Some m" and n: "n = mr_sequence m"
    by (auto simp: manifest_pending_def)
  obtain s' where "confirm_manifest now (mr_manifest_id m) (mr_sequence m) d s = (Inr (), s')"
    "manifest_wf s'" "pending_manifest s' = None" "manifest_acked s' = mr_sequence m"
    "confirmed_manifest s' = Some (m\<lparr>mr_confirmed := True, mr_server_digest := Some d, mr_confirmed_at := Some now\<rparr>)"
    by (rule manifest_wf_confirm [OF wf m])
  with m n show "\<exists>s'. confirm_pending_manifest now d n s = Some s' \<and> manifest_wf s' \<and> manifest_pending s' = None \<and> manifest_acked s' = n"
    by (simp add: confirm_pending_manifest_def manifest_pending_def)
  show "n = manifest_acked s + 1"
    using wf pending_manifest_SomeD [OF m] n by (simp add: manifest_wf_def)
qed

end
