(* ===== verification/Agent_Session.thy ===== *)
theory Agent_Session
  imports Runtime_Store Task_Store Json_Loads
begin

text \<open>
  \<open>application/capabilities.py\<close> and \<open>application/heartbeat.py\<close>: the capability entries of the
  manifest, the manifest service and the heartbeat service.  The server is an argument: a function
  from the payload and its own state to an exception or its acknowledgement, with its new state;
  the schema validation of the contracts is a predicate.
\<close>

section \<open>Capability entries\<close>

definition reason :: "string \<Rightarrow> json" where
  "reason code = JObj [(''code'', JStr code)]"

text \<open>The seven dimensions of a capability: a status and its reason.\<close>

record capability_dims =
  cd_technical :: "string \<times> json"
  cd_implementation :: "string \<times> json"
  cd_permission :: "string \<times> json"
  cd_user :: "string \<times> json"
  cd_background :: "string \<times> json"
  cd_provider :: "string \<times> json"
  cd_limitation :: "string \<times> json"

definition capability_dimensions :: "string \<Rightarrow> string \<Rightarrow> capability_dims" where
  "capability_dimensions platform_id capability_id =
     (let base = \<lparr>cd_technical = (''unknown'', reason ''unknown''),
                  cd_implementation = (''not_implemented'', reason ''not_implemented''),
                  cd_permission = (''unknown'', reason ''unknown''),
                  cd_user = (''none'', JNull),
                  cd_background = (''unknown'', reason ''unknown''),
                  cd_provider = (''unavailable'', reason ''provider_unavailable''),
                  cd_limitation = (''unknown'', reason ''unknown'')\<rparr>;
          na = (''not_applicable'', reason ''not_applicable'')
      in if capability_id = ''capture.ieee80211.monitor'' \<and> platform_id = ''windows''
         then \<lparr>cd_technical = (''unsupported'', reason ''not_exposed_by_platform''),
               cd_implementation = (''excluded'', reason ''not_applicable''),
               cd_permission = na, cd_user = na, cd_background = na, cd_provider = na, cd_limitation = na\<rparr>
         else if capability_id = ''traffic.pcap.replay''
         then \<lparr>cd_technical = na, cd_implementation = (''excluded'', reason ''not_applicable''),
               cd_permission = na, cd_user = na, cd_background = na, cd_provider = na, cd_limitation = na\<rparr>
         else if capability_id = ''execution.background.continuous''
         then base\<lparr>cd_technical := (''supported'', JNull),
                   cd_implementation := (''planned'', reason ''not_implemented''),
                   cd_permission := (''required'', reason ''permission_missing''),
                   cd_user := (''conditional'', JNull),
                   cd_background := (''continuous'', JNull)\<rparr>
         else base)"

definition DIMENSION_NAMES :: "string list" where
  "DIMENSION_NAMES = [''technical_support'', ''implementation_status'', ''permission_requirement'',
     ''user_interaction'', ''background_execution'', ''provider'', ''limitations'']"

definition base_entry :: "string \<Rightarrow> string \<Rightarrow> (string \<times> json) list" where
  "base_entry platform_id capability_id =
     (let d = capability_dimensions platform_id capability_id;
          st = (\<lambda>p. JObj [(''status'', JStr (fst p)), (''reason'', snd p)])
      in [(''id'', JStr capability_id), (''version'', JStr ''1.0.0''),
          (''technical_support'', st (cd_technical d)),
          (''implementation_status'', st (cd_implementation d)),
          (''permission_requirement'',
             JObj [(''status'', JStr (fst (cd_permission d))),
                   (''permissions'', JArr (if capability_id = ''execution.background.continuous''
                                           then [JStr ''service.install''] else [])),
                   (''reason'', snd (cd_permission d))]),
          (''user_interaction'', st (cd_user d)),
          (''background_execution'', st (cd_background d)),
          (''provider'', JObj [(''status'', JStr (fst (cd_provider d))), (''implementations'', JArr []),
                               (''reason'', snd (cd_provider d))]),
          (''limitations'', st (cd_limitation d))])"

text \<open>\<open>entry.update(override)\<close> sets the members of the override one after the other.\<close>

definition capability_entry ::
  "string \<Rightarrow> (string \<Rightarrow> (string \<times> json) list option) \<Rightarrow> string \<Rightarrow> py_error + json" where
  "capability_entry platform_id overrides capability_id =
     (case overrides capability_id of
        None \<Rightarrow> Inr (JObj (base_entry platform_id capability_id))
      | Some override \<Rightarrow>
          if \<exists>k \<in> fst ` set override. k \<notin> set DIMENSION_NAMES
          then Inl (Runtime_Error ''unknown capability override dimensions'')
          else Inr (JObj (foldl dict_set (base_entry platform_id capability_id) override)))"

fun capability_entries ::
  "string \<Rightarrow> (string \<Rightarrow> (string \<times> json) list option) \<Rightarrow> string list \<Rightarrow> py_error + json list" where
  "capability_entries platform_id overrides [] = Inr []"
| "capability_entries platform_id overrides (i # ids) =
     (case capability_entry platform_id overrides i of
        Inl e \<Rightarrow> Inl e
      | Inr entry \<Rightarrow>
          (case capability_entries platform_id overrides ids of
             Inl e \<Rightarrow> Inl e | Inr entries \<Rightarrow> Inr (entry # entries)))"

section \<open>The services' surroundings\<close>

text \<open>
  What a call of the services meets: the version and platform of the agent, its capability entries,
  the schema validation, the clock (as the text in a payload and as the store's stamp) and the fresh
  manifest id.
\<close>

record session_env =
  se_version :: string
  se_platform_id :: string
  se_platform_version :: string
  se_capabilities :: "py_error + json list"
  se_contract_ok :: "string \<Rightarrow> json \<Rightarrow> bool"
  se_clock_text :: string
  se_now :: stamp
  se_manifest_id :: uuid

definition py_str :: "string option \<Rightarrow> string" where
  "py_str v = (case v of None \<Rightarrow> ''None'' | Some s \<Rightarrow> s)"

definition falsy :: "string option \<Rightarrow> bool" where
  "falsy v \<longleftrightarrow> v = None \<or> v = Some []"

definition payload_int :: "json \<Rightarrow> string \<Rightarrow> int option" where
  "payload_int payload k = (case json_get payload k of Some (JInt i) \<Rightarrow> Some i | _ \<Rightarrow> None)"

section \<open>The manifest service\<close>

definition validated_manifest_payload ::
  "codec \<Rightarrow> session_env \<Rightarrow> manifest_row \<Rightarrow> bool \<Rightarrow> py_error + json" where
  "validated_manifest_payload c env row expect_confirmed =
     (case json_loads c (mr_payload row) of
        None \<Rightarrow> Inl (Runtime_Error ''durable capability manifest row is invalid'')
      | Some payload \<Rightarrow>
          if mr_confirmed row \<noteq> expect_confirmed \<or> digest (sha256_hex c) payload \<noteq> mr_payload_hash row
             \<or> json_get payload ''manifest_id'' \<noteq> Some (JStr (mr_manifest_id row))
             \<or> json_get payload ''manifest_sequence'' \<noteq> Some (JInt (mr_sequence row))
          then Inl (Runtime_Error ''durable capability manifest identity is invalid'')
          else if expect_confirmed \<and> (falsy (mr_server_digest row) \<or> falsy (mr_confirmed_at row))
          then Inl (Runtime_Error ''confirmed capability manifest lacks server evidence'')
          else if \<not> se_contract_ok env ''capability-manifest.schema.json'' payload
          then Inl Contract_Validation_Error
          else Inr payload)"

definition static_manifest_is_compatible ::
  "session_env \<Rightarrow> json \<Rightarrow> agent_identity \<Rightarrow> py_error + bool" where
  "static_manifest_is_compatible env payload identity =
     (if \<not> se_contract_ok env ''capability-manifest.schema.json'' payload then Inl Contract_Validation_Error
      else Inr (json_get payload ''schema_version'' = Some (JStr ''1.0.0'')
        \<and> json_get payload ''agent_id'' = Some (JStr (py_str (ai_agent_id identity)))
        \<and> json_get payload ''agent_version'' = Some (JStr (se_version env))
        \<and> json_get payload ''platform'' = Some (JStr (se_platform_id env))
        \<and> json_get payload ''platform_version'' = Some (JStr (se_platform_version env))
        \<and> json_get payload ''protocol_version'' = Some (JStr ''1.0.0'')
        \<and> json_get payload ''capability_catalog_version'' = Some (JStr ''1.0.0'')))"

definition manifest_json :: "session_env \<Rightarrow> agent_identity \<Rightarrow> int \<Rightarrow> json list \<Rightarrow> json" where
  "manifest_json env identity seqno capabilities =
     JObj [(''schema_version'', JStr ''1.0.0''), (''manifest_id'', JStr (se_manifest_id env)),
           (''manifest_sequence'', JInt seqno), (''agent_id'', JStr (py_str (ai_agent_id identity))),
           (''agent_version'', JStr (se_version env)), (''platform'', JStr (se_platform_id env)),
           (''platform_version'', JStr (se_platform_version env)), (''protocol_version'', JStr ''1.0.0''),
           (''capability_catalog_version'', JStr ''1.0.0''), (''generated_at'', JStr (se_clock_text env)),
           (''capabilities'', JArr capabilities)]"

text \<open>What to publish: the pending manifest, nothing because the confirmed one is current, or a new one.\<close>

datatype to_publish = Already_Published json | To_Publish json

text \<open>
  Python's \<open>==\<close> on loaded documents: dicts are equal when they have the same keys with equal values,
  in any order, and numbers compare by value across \<open>bool\<close>, \<open>int\<close> and \<open>float\<close> (an integer equals the
  float whose text is the integer followed by \<open>.0\<close>, as \<open>repr\<close> gives it below ten to the power 16).
\<close>

fun number_text :: "json \<Rightarrow> string option" where
  "number_text (JBool b) = Some (if b then ''1'' else ''0'')"
| "number_text (JInt i) = Some (int_text i)"
| "number_text (JFloat t) =
     Some (if drop (length t - 2) t = ''.0'' then take (length t - 2) t else t)"
| "number_text _ = None"

fun py_equal :: "json \<Rightarrow> json \<Rightarrow> bool" where
  "py_equal (JArr vs) (JArr ws) \<longleftrightarrow> list_all2 py_equal vs ws"
| "py_equal (JObj kvs) (JObj kws) \<longleftrightarrow>
     fst ` set kvs = fst ` set kws \<and>
     (\<forall>kv \<in> set kvs. case map_of kws (fst kv) of None \<Rightarrow> False | Some w \<Rightarrow> py_equal (snd kv) w)"
| "py_equal v w \<longleftrightarrow> v = w \<or> number_text v \<noteq> None \<and> number_text v = number_text w"

definition current_manifest ::
  "codec \<Rightarrow> session_env \<Rightarrow> agent_identity \<Rightarrow> runtime_state \<Rightarrow> json list \<Rightarrow> store \<Rightarrow> py_error + json option" where
  "current_manifest c env identity runtime capabilities db =
     (case confirmed_manifest db of
        None \<Rightarrow> Inr None
      | Some row \<Rightarrow>
          (case validated_manifest_payload c env row True of
             Inl e \<Rightarrow> Inl e
           | Inr payload \<Rightarrow>
               if mr_sequence row \<noteq> rs_manifest_acked runtime then Inr None
               else (case static_manifest_is_compatible env payload identity of
                       Inl e \<Rightarrow> Inl e
                     | Inr ok \<Rightarrow>
                         if ok \<and> (case json_get payload ''capabilities'' of
                                  None \<Rightarrow> False | Some v \<Rightarrow> py_equal v (JArr capabilities))
                         then Inr (Some payload) else Inr None)))"

definition prepare_manifest :: "codec \<Rightarrow> session_env \<Rightarrow> store \<Rightarrow> (to_publish, store) outcome" where
  "prepare_manifest c env db =
     (case pending_manifest db of
        Some row \<Rightarrow>
          (case validated_manifest_payload c env row False of
             Inl e \<Rightarrow> (Inl e, db) | Inr payload \<Rightarrow> (Inr (To_Publish payload), db))
      | None \<Rightarrow>
          (case (t_identity db, t_runtime db) of
             (Some identity, Some runtime) \<Rightarrow>
               if falsy (ai_agent_id identity)
               then (Inl (Runtime_Error ''identity and runtime are required before manifest publication''), db)
               else
                 (case se_capabilities env of
                    Inl e \<Rightarrow> (Inl e, db)
                  | Inr capabilities \<Rightarrow>
                      (case current_manifest c env identity runtime capabilities db of
                         Inl e \<Rightarrow> (Inl e, db)
                       | Inr (Some payload) \<Rightarrow> (Inr (Already_Published payload), db)
                       | Inr None \<Rightarrow>
                           (let seqno = rs_manifest_acked runtime + 1;
                                payload = manifest_json env identity seqno capabilities
                            in if \<not> se_contract_ok env ''capability-manifest.schema.json'' payload
                               then (Inl Contract_Validation_Error, db)
                               else (case persist_manifest (sha256_hex c) (se_now env) (se_manifest_id env) seqno payload db of
                                       (Inl e, db') \<Rightarrow> (Inl e, db')
                                     | (Inr _, db') \<Rightarrow> (Inr (To_Publish payload), db')))))
           | _ \<Rightarrow> (Inl (Runtime_Error ''identity and runtime are required before manifest publication''), db)))"

definition ensure_published ::
  "codec \<Rightarrow> session_env \<Rightarrow> (json \<Rightarrow> 'w \<Rightarrow> (string, 'w) outcome) \<Rightarrow> store \<times> 'w \<Rightarrow> (json, store \<times> 'w) outcome" where
  "ensure_published c env server w =
     (case prepare_manifest c env (fst w) of
        (Inl e, db) \<Rightarrow> (Inl e, (db, snd w))
      | (Inr (Already_Published payload), db) \<Rightarrow> (Inr payload, (db, snd w))
      | (Inr (To_Publish payload), db) \<Rightarrow>
          (case server payload (snd w) of
             (Inl e, s) \<Rightarrow> (Inl e, (db, s))
           | (Inr manifest_digest, s) \<Rightarrow>
               (case (payload_text payload ''manifest_id'', payload_int payload ''manifest_sequence'') of
                  (Some mid, Some seqno) \<Rightarrow>
                    (case confirm_manifest (se_now env) mid seqno manifest_digest db of
                       (Inl e, db') \<Rightarrow> (Inl e, (db', s))
                     | (Inr _, db') \<Rightarrow> (Inr payload, (db', s)))
                | _ \<Rightarrow> (Inl (Key_Error ''manifest_id''), (db, s)))))"

definition ensure_fast_start_published ::
  "codec \<Rightarrow> session_env \<Rightarrow> (json \<Rightarrow> 'w \<Rightarrow> (string, 'w) outcome) \<Rightarrow> store \<times> 'w \<Rightarrow> (bool, store \<times> 'w) outcome" where
  "ensure_fast_start_published c env server w =
     (case (if pending_manifest (fst w) \<noteq> None
            then (case ensure_published c env server w of (Inl e, w1) \<Rightarrow> (Inl e, w1) | (Inr _, w1) \<Rightarrow> (Inr (), w1))
            else (Inr (), w)) of
        (Inl e, w1) \<Rightarrow> (Inl e, w1)
      | (Inr _, w1) \<Rightarrow>
          (case (case (confirmed_manifest (fst w1), t_identity (fst w1), t_runtime (fst w1)) of
                   (Some row, Some identity, Some runtime) \<Rightarrow>
                     if falsy (ai_agent_id identity) then Inr False
                     else (case validated_manifest_payload c env row True of
                             Inl e \<Rightarrow> Inl e
                           | Inr payload \<Rightarrow>
                               if mr_sequence row \<noteq> rs_manifest_acked runtime then Inr False
                               else static_manifest_is_compatible env payload identity)
                 | _ \<Rightarrow> Inr False) of
             Inl e \<Rightarrow> (Inl e, w1)
           | Inr True \<Rightarrow> (Inr True, w1)
           | Inr False \<Rightarrow>
               (case ensure_published c env server w1 of
                  (Inl e, w2) \<Rightarrow> (Inl e, w2) | (Inr _, w2) \<Rightarrow> (Inr False, w2))))"

section \<open>The heartbeat service\<close>

definition heartbeat_json :: "session_env \<Rightarrow> string \<Rightarrow> string \<Rightarrow> int \<Rightarrow> string \<Rightarrow> string \<Rightarrow> json" where
  "heartbeat_json env agent_id boot_id seqno manifest_id manifest_digest =
     JObj [(''schema_version'', JStr ''1.0.0''), (''agent_id'', JStr agent_id), (''boot_id'', JStr boot_id),
           (''sequence'', JInt seqno), (''agent_version'', JStr (se_version env)),
           (''protocol_version'', JStr ''1.0.0''), (''agent_reported_at'', JStr (se_clock_text env)),
           (''readiness'', JStr ''ready''), (''reason'', JNull), (''manifest_id'', JStr manifest_id),
           (''manifest_digest'', JStr manifest_digest)]"

definition prepare_heartbeat :: "codec \<Rightarrow> session_env \<Rightarrow> store \<Rightarrow> (json, store) outcome" where
  "prepare_heartbeat c env db =
     (case pending_heartbeat_text db of
        Some text \<Rightarrow>
          (case json_loads c text of
             None \<Rightarrow> (Inl (Value_Error ''Expecting value''), db) | Some payload \<Rightarrow> (Inr payload, db))
      | None \<Rightarrow>
          (case (t_identity db, t_runtime db, confirmed_manifest db) of
             (Some identity, Some runtime, Some manifest) \<Rightarrow>
               (let seqno = rs_heartbeat_acked runtime + 1;
                    payload = heartbeat_json env (py_str (ai_agent_id identity)) (rs_boot_id runtime) seqno
                                (mr_manifest_id manifest) (py_str (mr_server_digest manifest))
                in if \<not> se_contract_ok env ''desktop-heartbeat.schema.json'' payload
                   then (Inl Contract_Validation_Error, db)
                   else (case persist_heartbeat (sha256_hex c) (se_now env) seqno payload db of
                           (Inl e, db') \<Rightarrow> (Inl e, db') | (Inr _, db') \<Rightarrow> (Inr payload, db')))
           | _ \<Rightarrow> (Inl (Runtime_Error ''identity, runtime and confirmed manifest are required''), db)))"

definition send_heartbeat ::
  "codec \<Rightarrow> session_env \<Rightarrow> (json \<Rightarrow> 'w \<Rightarrow> (int, 'w) outcome) \<Rightarrow> store \<times> 'w \<Rightarrow> (json, store \<times> 'w) outcome" where
  "send_heartbeat c env server w =
     (case prepare_heartbeat c env (fst w) of
        (Inl e, db) \<Rightarrow> (Inl e, (db, snd w))
      | (Inr payload, db) \<Rightarrow>
          (case server payload (snd w) of
             (Inl e, s) \<Rightarrow> (Inl e, (db, s))
           | (Inr accepted, s) \<Rightarrow>
               (case payload_int payload ''sequence'' of
                  None \<Rightarrow> (Inl (Key_Error ''sequence''), (db, s))
                | Some seqno \<Rightarrow>
                    if accepted \<noteq> seqno
                    then (Inl (Runtime_Error ''server acknowledged a different heartbeat sequence''), (db, s))
                    else (case confirm_heartbeat (se_now env) seqno db of
                            (Inl e, db') \<Rightarrow> (Inl e, (db', s))
                          | (Inr _, db') \<Rightarrow> (Inr payload, (db', s))))))"

end
