(* ===== verification/Identity.thy ===== *)
theory Identity
  imports Agent_Session
begin

text \<open>
  \<open>application/identity.py\<close> and the identity part of \<open>SQLiteStore\<close>: enrolment, the active credential,
  credential rotation and revocation.  The secret store is an interface (\<open>ports/platform.py\<close>): its
  operations are arguments and may raise, its laws the locale \<open>secret_store\<close>, interpreted on the
  development store of \<open>platforms/common.py\<close> and on the unavailable store of
  \<open>platforms/linux/adapter.py\<close>.  The server is a function from its state to an exception or a
  response.  An operation returns the exception or its result together with the database and the
  secrets as they are at that point, so every early exit shows the state a crash there would leave.
\<close>

section \<open>The secret store\<close>

record 's secret_ops =
  so_get :: "string \<Rightarrow> 's \<Rightarrow> (string option, 's) outcome"
  so_put :: "string \<Rightarrow> string \<Rightarrow> 's \<Rightarrow> (unit, 's) outcome"
  so_delete :: "string \<Rightarrow> 's \<Rightarrow> (unit, 's) outcome"
  so_secure :: bool

text \<open>
  What is durably stored is a view of the state of the store.  Reading never changes it; a mutation
  that returns is done; one that raises may have been committed or not
  (\<open>MutationCommitIndeterminateError\<close>), and touches no other key.
\<close>

locale secret_store =
  fixes get :: "string \<Rightarrow> 's \<Rightarrow> (string option, 's) outcome"
    and put :: "string \<Rightarrow> string \<Rightarrow> 's \<Rightarrow> (unit, 's) outcome"
    and delete :: "string \<Rightarrow> 's \<Rightarrow> (unit, 's) outcome"
    and view :: "'s \<Rightarrow> string \<Rightarrow> string option"
  assumes get_view: "get k s = (r, s') \<Longrightarrow> view s' = view s"
    and get_value: "get k s = (Inr x, s') \<Longrightarrow> x = view s k"
    and put_view: "put k v s = (Inr u, s') \<Longrightarrow> view s' = (view s)(k \<mapsto> v)"
    and put_raises: "put k v s = (Inl e, s') \<Longrightarrow> view s' = view s \<or> view s' = (view s)(k \<mapsto> v)"
    and delete_view: "delete k s = (Inr u, s') \<Longrightarrow> view s' = (view s)(k := None)"
    and delete_raises: "delete k s = (Inl e, s') \<Longrightarrow> view s' = view s \<or> view s' = (view s)(k := None)"
begin

text \<open>What a client that puts a value only where none is stored, and deletes only what is stored, relies on.\<close>

lemma put_absent_keeps: "put k v s = (r, s') \<Longrightarrow> view s k = None \<Longrightarrow> view s j = Some u \<Longrightarrow> view s' j = Some u"
  using put_view [of k v s _ s'] put_raises [of k v s _ s'] by (cases r) auto

lemma delete_others_keep: "delete k s = (r, s') \<Longrightarrow> j \<noteq> k \<Longrightarrow> view s' j = view s j"
  using delete_view [of k s _ s'] delete_raises [of k s _ s'] by (cases r) auto

lemma delete_never_writes: "delete k s = (r, s') \<Longrightarrow> view s' j = None \<or> view s' j = view s j"
  using delete_view [of k s _ s'] delete_raises [of k s _ s'] by (cases r) auto

end

type_synonym memory_secrets = "string \<rightharpoonup> string"

definition in_memory_secret_store :: "memory_secrets secret_ops" where
  "in_memory_secret_store =
     \<lparr>so_get = (\<lambda>k s. (Inr (s k), s)), so_put = (\<lambda>k v s. (Inr (), s(k \<mapsto> v))),
      so_delete = (\<lambda>k s. (Inr (), s(k := None))), so_secure = False\<rparr>"

interpretation in_memory: secret_store "so_get in_memory_secret_store" "so_put in_memory_secret_store"
    "so_delete in_memory_secret_store" "\<lambda>s. s"
  by unfold_locales (auto simp: in_memory_secret_store_def)

text \<open>The store of a Linux host without usable secure storage: every operation raises.\<close>

definition raise_unavailable :: "string option \<Rightarrow> 's \<Rightarrow> ('a, 's) outcome" where
  "raise_unavailable cause s =
     (Inl (case cause of None \<Rightarrow> Mutation_Commit_Indeterminate_Error
           | Some text \<Rightarrow> Secure_Store_Unavailable_Error text), s)"

definition unavailable_linux_secret_store :: "string option \<Rightarrow> memory_secrets secret_ops" where
  "unavailable_linux_secret_store cause =
     \<lparr>so_get = (\<lambda>k. raise_unavailable cause), so_put = (\<lambda>k v. raise_unavailable cause),
      so_delete = (\<lambda>k. raise_unavailable cause), so_secure = (cause = None)\<rparr>"

interpretation unavailable: secret_store "so_get (unavailable_linux_secret_store cause)"
    "so_put (unavailable_linux_secret_store cause)" "so_delete (unavailable_linux_secret_store cause)" "\<lambda>s. s"
  by unfold_locales (auto simp: unavailable_linux_secret_store_def raise_unavailable_def)

abbreviation secret_laws :: "'s secret_ops \<Rightarrow> ('s \<Rightarrow> string \<Rightarrow> string option) \<Rightarrow> bool" where
  "secret_laws ops view \<equiv> secret_store (so_get ops) (so_put ops) (so_delete ops) view"

section \<open>The identity row\<close>

definition ensure_identity ::
  "stamp \<Rightarrow> uuid \<Rightarrow> string \<Rightarrow> string \<Rightarrow> string \<Rightarrow> string \<Rightarrow> uuid \<Rightarrow> stamp \<Rightarrow> store \<Rightarrow> agent_identity \<times> store" where
  "ensure_identity now installation_id display_name platform platform_version agent_version key reported_at db =
     (case t_identity db of
        Some i \<Rightarrow> (i, db)
      | None \<Rightarrow>
          (let i = \<lparr>ai_installation_id = installation_id, ai_display_name = display_name, ai_platform = platform,
                    ai_platform_version = platform_version, ai_agent_version = agent_version,
                    ai_device_id = None, ai_agent_id = None, ai_protocol_version = None,
                    ai_enrolled_at = None, ai_revoked_at = None, ai_enrollment_key = key,
                    ai_enrollment_reported_at = reported_at, ai_active_id = None, ai_active_version = None,
                    ai_active_fingerprint = None, ai_active_ref = None, ai_active_expires_at = None,
                    ai_previous_id = None, ai_previous_ref = None, ai_pending_id = None,
                    ai_pending_version = None, ai_pending_fingerprint = None, ai_pending_ref = None,
                    ai_pending_expires_at = None, ai_rotation_id = None, ai_rotation_key = None,
                    ai_activation_key = None, ai_rotation_state = Rot_None, ai_updated_at = now\<rparr>
           in (i, db\<lparr>t_identity := Some i\<rparr>)))"

definition update_identity :: "stamp \<Rightarrow> (agent_identity \<Rightarrow> agent_identity) \<Rightarrow> store \<Rightarrow> store" where
  "update_identity now f db =
     db\<lparr>t_identity := map_option (\<lambda>i. (f i)\<lparr>ai_updated_at := now\<rparr>) (t_identity db)\<rparr>"

section \<open>The identity manager\<close>

record credential_response =
  cr_id :: uuid
  cr_version :: int
  cr_value :: string
  cr_expires_at :: string

record enroll_response =
  er_device_id :: uuid
  er_agent_id :: uuid
  er_protocol_version :: string
  er_received_at :: string
  er_credential :: credential_response

record rotation_response =
  rr_rotation_id :: uuid
  rr_pending :: credential_response

text \<open>The request of an enrolment, without the constant members.\<close>

record enroll_request =
  eq_key :: uuid
  eq_token :: string
  eq_installation_id :: uuid
  eq_display_name :: string
  eq_platform :: string
  eq_platform_version :: string
  eq_agent_version :: string
  eq_reported_at :: stamp

record 'w agent_server =
  sv_enroll :: "enroll_request \<Rightarrow> 'w \<Rightarrow> (enroll_response, 'w) outcome"
  sv_create_rotation :: "string \<Rightarrow> uuid \<Rightarrow> 'w \<Rightarrow> (rotation_response, 'w) outcome"
  sv_activate_rotation :: "string \<Rightarrow> uuid \<Rightarrow> uuid \<Rightarrow> 'w \<Rightarrow> (unit, 'w) outcome"

record id_env =
  ie_now :: stamp
  ie_clock_text :: stamp
  ie_version :: string
  ie_platform :: string
  ie_platform_version :: string
  ie_fresh1 :: uuid
  ie_fresh2 :: uuid
  ie_sha :: "string \<Rightarrow> string"
  ie_allow_insecure :: bool

text \<open>The database, the secrets and the server.\<close>

type_synonym ('s, 'w) id_world = "store \<times> 's \<times> 'w"

definition require_secure_store :: "id_env \<Rightarrow> 's secret_ops \<Rightarrow> bool" where
  "require_secure_store env ops \<longleftrightarrow> so_secure ops \<or> ie_allow_insecure env"

definition insecure :: py_error where
  "insecure = Secure_Store_Unavailable_Error ''a persistent secure credential store is required''"

definition ensure_secret_value :: "id_env \<Rightarrow> 's secret_ops \<Rightarrow> string \<Rightarrow> string \<Rightarrow> 's \<Rightarrow> (unit, 's) outcome" where
  "ensure_secret_value env ops k v s =
     (case so_get ops k s of
        (Inl e, s1) \<Rightarrow> (Inl e, s1)
      | (Inr None, s1) \<Rightarrow> so_put ops k v s1
      | (Inr (Some current), s1) \<Rightarrow>
          if ie_sha env current = ie_sha env v then (Inr (), s1)
          else (Inl (State_Conflict_Error ''credential reference contains a different value''), s1))"

definition ensure_secret_absent :: "'s secret_ops \<Rightarrow> string \<Rightarrow> 's \<Rightarrow> (unit, 's) outcome" where
  "ensure_secret_absent ops k s =
     (case so_get ops k s of
        (Inl e, s1) \<Rightarrow> (Inl e, s1)
      | (Inr None, s1) \<Rightarrow> (Inr (), s1)
      | (Inr (Some _), s1) \<Rightarrow> so_delete ops k s1)"

text \<open>The loops over the references of an identity: the first exception ends them.\<close>

fun erase_secrets :: "'s secret_ops \<Rightarrow> string list \<Rightarrow> 's \<Rightarrow> (unit, 's) outcome" where
  "erase_secrets ops [] s = (Inr (), s)"
| "erase_secrets ops (k # ks) s =
     (case ensure_secret_absent ops k s of
        (Inl e, s1) \<Rightarrow> (Inl e, s1)
      | (Inr _, s1) \<Rightarrow> erase_secrets ops ks s1)"

definition enroll ::
  "id_env \<Rightarrow> 's secret_ops \<Rightarrow> 'w agent_server \<Rightarrow> string \<Rightarrow> string \<Rightarrow> ('s, 'w) id_world \<Rightarrow>
   (agent_identity, ('s, 'w) id_world) outcome" where
  "enroll env ops server token display_name world =
     (case world of (db, s, w) \<Rightarrow>
      if \<not> require_secure_store env ops then (Inl insecure, world)
      else if (case t_identity db of Some i \<Rightarrow> \<not> falsy (ai_agent_id i) | None \<Rightarrow> False)
      then (Inl (Identity_Not_Enrolled_Error ''agent is already enrolled''), world)
      else
        (case ensure_identity (ie_now env) (ie_fresh1 env) display_name (ie_platform env)
                (ie_platform_version env) (ie_version env) (ie_fresh2 env) (ie_clock_text env) db of
           (i, db1) \<Rightarrow>
             (case sv_enroll server
                     \<lparr>eq_key = ai_enrollment_key i, eq_token = token, eq_installation_id = ai_installation_id i,
                      eq_display_name = ai_display_name i, eq_platform = ai_platform i,
                      eq_platform_version = ai_platform_version i, eq_agent_version = ai_agent_version i,
                      eq_reported_at = ai_enrollment_reported_at i\<rparr> w of
                (Inl e, w1) \<Rightarrow> (Inl e, (db1, s, w1))
              | (Inr resp, w1) \<Rightarrow>
                  (let cred = er_credential resp;
                       reference = ''credential.active.'' @ cr_id cred
                   in case ensure_secret_value env ops reference (cr_value cred) s of
                        (Inl e, s1) \<Rightarrow> (Inl e, (db1, s1, w1))
                      | (Inr _, s1) \<Rightarrow>
                          (let db2 = update_identity (ie_now env) (\<lambda>i. i
                                \<lparr>ai_device_id := Some (er_device_id resp), ai_agent_id := Some (er_agent_id resp),
                                 ai_protocol_version := Some (er_protocol_version resp),
                                 ai_enrolled_at := Some (er_received_at resp),
                                 ai_active_id := Some (cr_id cred), ai_active_version := Some (cr_version cred),
                                 ai_active_fingerprint := Some (ie_sha env (cr_value cred)),
                                 ai_active_ref := Some reference,
                                 ai_active_expires_at := Some (cr_expires_at cred),
                                 ai_rotation_state := Rot_None\<rparr>) db1
                           in case t_identity db2 of
                                Some enrolled \<Rightarrow> (Inr enrolled, (db2, s1, w1))
                              | None \<Rightarrow> (Inl (Runtime_Error ''identity''), (db2, s1, w1)))))))"

definition active_credential :: "id_env \<Rightarrow> 's secret_ops \<Rightarrow> store \<Rightarrow> 's \<Rightarrow> (string, 's) outcome" where
  "active_credential env ops db s =
     (case t_identity db of
        None \<Rightarrow> (Inl (Identity_Not_Enrolled_Error ''agent has no active identity''), s)
      | Some i \<Rightarrow>
          if falsy (ai_agent_id i) \<or> \<not> falsy (ai_revoked_at i)
          then (Inl (Identity_Not_Enrolled_Error ''agent has no active identity''), s)
          else if falsy (ai_active_ref i)
          then (Inl (Identity_Not_Enrolled_Error ''agent has no active credential metadata''), s)
          else
            (case so_get ops (py_str (ai_active_ref i)) s of
               (Inl e, s1) \<Rightarrow> (Inl e, s1)
             | (Inr None, s1) \<Rightarrow> (Inl (Identity_Not_Enrolled_Error ''active credential is unavailable''), s1)
             | (Inr (Some credential), s1) \<Rightarrow>
                 if Some (ie_sha env credential) \<noteq> ai_active_fingerprint i
                 then (Inl (Identity_Not_Enrolled_Error ''active credential fingerprint mismatch''), s1)
                 else (Inr credential, s1)))"

text \<open>\<open>UUID(str(identity[...]))\<close> of a missing value raises \<open>ValueError\<close>.\<close>

definition uuid_of :: "uuid option \<Rightarrow> py_error + uuid" where
  "uuid_of v = (case v of None \<Rightarrow> Inl (Value_Error ''badly formed hexadecimal UUID string'') | Some u \<Rightarrow> Inr u)"

text \<open>The previous secret is deleted first; only then does the row forget it.\<close>

definition finalize_activated ::
  "id_env \<Rightarrow> 's secret_ops \<Rightarrow> agent_identity \<Rightarrow> store \<times> 's \<Rightarrow> (unit, store \<times> 's) outcome" where
  "finalize_activated env ops i world =
     (case world of (db, s) \<Rightarrow>
        (case (if \<not> falsy (ai_previous_ref i) \<and> ai_previous_ref i \<noteq> ai_active_ref i
               then ensure_secret_absent ops (py_str (ai_previous_ref i)) s else (Inr (), s)) of
           (Inl e, s1) \<Rightarrow> (Inl e, (db, s1))
         | (Inr _, s1) \<Rightarrow>
             (Inr (), (update_identity (ie_now env) (\<lambda>i. i
                \<lparr>ai_previous_id := None, ai_previous_ref := None, ai_pending_id := None, ai_pending_version := None,
                 ai_pending_fingerprint := None, ai_pending_ref := None, ai_pending_expires_at := None,
                 ai_rotation_id := None, ai_rotation_key := None, ai_activation_key := None,
                 ai_rotation_state := Rot_None\<rparr>) db, s1))))"

text \<open>The three stages of a rotation: request, store the pending credential, activate it.\<close>

definition rotate_request :: "id_env \<Rightarrow> store \<Rightarrow> store" where
  "rotate_request env db =
     update_identity (ie_now env) (\<lambda>i. i\<lparr>ai_rotation_key := Some (ie_fresh1 env),
        ai_activation_key := Some (ie_fresh2 env), ai_rotation_state := Rot_Requested\<rparr>) db"

definition rotate_store ::
  "id_env \<Rightarrow> 's secret_ops \<Rightarrow> 'w agent_server \<Rightarrow> agent_identity \<Rightarrow> ('s, 'w) id_world \<Rightarrow>
   (unit, ('s, 'w) id_world) outcome" where
  "rotate_store env ops server i world =
     (case world of (db, s0, w) \<Rightarrow>
        (case active_credential env ops db s0 of
           (Inl e, s) \<Rightarrow> (Inl e, (db, s, w))
         | (Inr active, s) \<Rightarrow>
             (case uuid_of (ai_rotation_key i) of
                Inl e \<Rightarrow> (Inl e, (db, s, w))
              | Inr key \<Rightarrow>
                  (case sv_create_rotation server active key w of
                     (Inl e, w1) \<Rightarrow> (Inl e, (db, s, w1))
                   | (Inr resp, w1) \<Rightarrow>
                       (let p = rr_pending resp; reference = ''credential.pending.'' @ cr_id p
                        in case ensure_secret_value env ops reference (cr_value p) s of
                             (Inl e, s1) \<Rightarrow> (Inl e, (db, s1, w1))
                           | (Inr _, s1) \<Rightarrow>
                               (Inr (), (update_identity (ie_now env) (\<lambda>i. i
                                  \<lparr>ai_pending_id := Some (cr_id p), ai_pending_version := Some (cr_version p),
                                   ai_pending_fingerprint := Some (ie_sha env (cr_value p)),
                                   ai_pending_ref := Some reference,
                                   ai_pending_expires_at := Some (cr_expires_at p),
                                   ai_rotation_id := Some (rr_rotation_id resp),
                                   ai_rotation_state := Rot_Pending_Stored\<rparr>) db, s1, w1)))))))"

definition rotate_activate ::
  "id_env \<Rightarrow> 's secret_ops \<Rightarrow> 'w agent_server \<Rightarrow> agent_identity \<Rightarrow> ('s, 'w) id_world \<Rightarrow>
   (unit, ('s, 'w) id_world) outcome" where
  "rotate_activate env ops server i world =
     (case world of (db, s0, w) \<Rightarrow>
        (let pending_ref = py_str (ai_pending_ref i)
         in case so_get ops pending_ref s0 of
              (Inl e, s) \<Rightarrow> (Inl e, (db, s, w))
            | (Inr None, s) \<Rightarrow> (Inl (Identity_Not_Enrolled_Error ''pending credential is unavailable''), (db, s, w))
            | (Inr (Some value), s) \<Rightarrow>
                if Some (ie_sha env value) \<noteq> ai_pending_fingerprint i
                then (Inl (Identity_Not_Enrolled_Error ''pending credential is unavailable''), (db, s, w))
                else
                  (case (uuid_of (ai_activation_key i), uuid_of (ai_rotation_id i)) of
                     (Inr key, Inr rotation_id) \<Rightarrow>
                       (let db1 = update_identity (ie_now env) (\<lambda>i. i\<lparr>ai_rotation_state := Rot_Activation_Uncertain\<rparr>) db
                        in case sv_activate_rotation server value rotation_id key w of
                             (Inl e, w1) \<Rightarrow> (Inl e, (db1, s, w1))
                           | (Inr _, w1) \<Rightarrow>
                               (let db2 = update_identity (ie_now env) (\<lambda>row. row
                                    \<lparr>ai_previous_id := ai_active_id i, ai_previous_ref := Some (py_str (ai_active_ref i)),
                                     ai_active_id := ai_pending_id i, ai_active_version := ai_pending_version i,
                                     ai_active_fingerprint := ai_pending_fingerprint i,
                                     ai_active_ref := Some pending_ref,
                                     ai_active_expires_at := ai_pending_expires_at i,
                                     ai_rotation_state := Rot_Activated\<rparr>) db1
                                in case t_identity db2 of
                                     None \<Rightarrow> (Inl (Runtime_Error ''identity''), (db2, s, w1))
                                   | Some i2 \<Rightarrow>
                                       (case finalize_activated env ops i2 (db2, s) of
                                          (r, (db3, s3)) \<Rightarrow> (r, (db3, s3, w1)))))
                   | _ \<Rightarrow> (Inl (Value_Error ''badly formed hexadecimal UUID string''), (db, s, w)))))"

definition rotate_credential ::
  "id_env \<Rightarrow> 's secret_ops \<Rightarrow> 'w agent_server \<Rightarrow> ('s, 'w) id_world \<Rightarrow> (unit, ('s, 'w) id_world) outcome" where
  "rotate_credential env ops server world =
     (case world of (db, s, w) \<Rightarrow>
      if \<not> require_secure_store env ops then (Inl insecure, world)
      else
        (case t_identity db of
           None \<Rightarrow> (Inl (Identity_Not_Enrolled_Error ''agent is not enrolled''), world)
         | Some i \<Rightarrow>
             if falsy (ai_agent_id i) then (Inl (Identity_Not_Enrolled_Error ''agent is not enrolled''), world)
             else if ai_rotation_state i = Rot_Activated
             then (case finalize_activated env ops i (db, s) of (r, (db1, s1)) \<Rightarrow> (r, (db1, s1, w)))
             else
               (let db1 = (if ai_rotation_state i = Rot_None then rotate_request env db else db)
                in case t_identity db1 of
                     None \<Rightarrow> (Inl (Runtime_Error ''identity''), (db1, s, w))
                   | Some i1 \<Rightarrow>
                       (case (if ai_rotation_state i1 = Rot_Requested then rotate_store env ops server i1 (db1, s, w)
                              else (Inr (), (db1, s, w))) of
                          (Inl e, world2) \<Rightarrow> (Inl e, world2)
                        | (Inr _, (db2, s2, w2)) \<Rightarrow>
                            (case t_identity db2 of
                               None \<Rightarrow> (Inl (Runtime_Error ''identity''), (db2, s2, w2))
                             | Some i2 \<Rightarrow>
                                 if ai_rotation_state i2 \<in> {Rot_Pending_Stored, Rot_Activation_Uncertain}
                                 then rotate_activate env ops server i2 (db2, s2, w2)
                                 else (Inr (), (db2, s2, w2)))))))"

definition credential_refs :: "agent_identity \<Rightarrow> string list" where
  "credential_refs i =
     map py_str (filter (\<lambda>v. \<not> falsy v) [ai_active_ref i, ai_pending_ref i, ai_previous_ref i])"

text \<open>
  The revocation is recorded first, then the secrets are erased, then the row forgets their
  references; an exception of the secret store leaves the references for the next start.
\<close>

definition mark_revoked :: "id_env \<Rightarrow> 's secret_ops \<Rightarrow> store \<times> 's \<Rightarrow> (unit, store \<times> 's) outcome" where
  "mark_revoked env ops world =
     (case world of (db, s) \<Rightarrow>
        (case t_identity db of
           None \<Rightarrow> (Inr (), (db, s))
         | Some i \<Rightarrow>
             (let db1 = update_identity (ie_now env) (\<lambda>row. row
                    \<lparr>ai_revoked_at := (if falsy (ai_revoked_at i) then Some (ie_clock_text env) else ai_revoked_at i),
                     ai_rotation_state := Rot_Revoked\<rparr>) db
              in case erase_secrets ops (credential_refs i) s of
                   (Inl e, s1) \<Rightarrow> (Inl e, (db1, s1))
                 | (Inr _, s1) \<Rightarrow>
                     (Inr (), (update_identity (ie_now env) (\<lambda>row. row\<lparr>ai_active_ref := None, ai_pending_ref := None,
                        ai_previous_ref := None, ai_rotation_state := Rot_Revoked\<rparr>) db1, s1)))))"

definition purge_local_identity :: "'s secret_ops \<Rightarrow> store \<times> 's \<Rightarrow> (unit, store \<times> 's) outcome" where
  "purge_local_identity ops world =
     (case world of (db, s) \<Rightarrow>
        (case (case t_identity db of None \<Rightarrow> (Inr (), s) | Some i \<Rightarrow> erase_secrets ops (credential_refs i) s) of
           (Inl e, s1) \<Rightarrow> (Inl e, (db, s1))
         | (Inr _, s1) \<Rightarrow> (Inr (), (purge_identity db, s1))))"

section \<open>What a rotation may rely on\<close>

text \<open>
  The consistent states of an enrolled agent: the active credential is stored, and the members that
  the current stage of a rotation needs are present.
\<close>

definition holds_credential :: "id_env \<Rightarrow> ('s \<Rightarrow> string \<Rightarrow> string option) \<Rightarrow> store \<Rightarrow> 's \<Rightarrow> string \<Rightarrow> bool" where
  "holds_credential env view db s v \<longleftrightarrow>
     (case t_identity db of
        None \<Rightarrow> False
      | Some i \<Rightarrow> \<not> falsy (ai_agent_id i) \<and> falsy (ai_revoked_at i) \<and> \<not> falsy (ai_active_ref i)
          \<and> view s (py_str (ai_active_ref i)) = Some v \<and> ai_active_fingerprint i = Some (ie_sha env v))"

definition rotation_wf :: "id_env \<Rightarrow> ('s \<Rightarrow> string \<Rightarrow> string option) \<Rightarrow> store \<Rightarrow> 's \<Rightarrow> string \<Rightarrow> bool" where
  "rotation_wf env view db s v \<longleftrightarrow>
     holds_credential env view db s v \<and>
     (case t_identity db of
        None \<Rightarrow> False
      | Some i \<Rightarrow>
          (case ai_rotation_state i of
             Rot_None \<Rightarrow> True
           | Rot_Requested \<Rightarrow> ai_rotation_key i \<noteq> None \<and> ai_activation_key i \<noteq> None
           | Rot_Activated \<Rightarrow> True
           | Rot_Revoked \<Rightarrow> False
           | _ \<Rightarrow> ai_activation_key i \<noteq> None \<and> ai_rotation_id i \<noteq> None \<and> ai_pending_ref i \<noteq> None \<and>
                  ai_pending_ref i \<noteq> Some [] \<and>
                  (case view s (py_str (ai_pending_ref i)) of
                     None \<Rightarrow> False | Some p \<Rightarrow> Some (ie_sha env p) = ai_pending_fingerprint i)))"

text \<open>While \<open>up\<close> holds of the state of the store, its operations return.\<close>

definition secrets_answer :: "'s secret_ops \<Rightarrow> ('s \<Rightarrow> bool) \<Rightarrow> bool" where
  "secrets_answer ops up \<longleftrightarrow>
     (\<forall>k v s. up s \<longrightarrow>
        (\<exists>x s'. so_get ops k s = (Inr x, s') \<and> up s')
        \<and> (\<exists>s'. so_put ops k v s = (Inr (), s') \<and> up s')
        \<and> (\<exists>s'. so_delete ops k s = (Inr (), s') \<and> up s'))"

lemma falsy_simps [simp]: "falsy None" "falsy (Some v) \<longleftrightarrow> v = []"
  by (auto simp: falsy_def)

lemma py_str_Some [simp]: "py_str (Some v) = v"
  by (simp add: py_str_def)

lemma update_identity_identity [simp]:
  "t_identity (update_identity now f db) = map_option (\<lambda>i. (f i)\<lparr>ai_updated_at := now\<rparr>) (t_identity db)"
  by (simp add: update_identity_def)

lemma rotation_wf_identity:
  assumes "rotation_wf env view db s v"
  obtains i where "t_identity db = Some i"
  using assms by (auto simp: rotation_wf_def split: option.splits)

lemma rotation_wf_holds: "rotation_wf env view db s v \<Longrightarrow> holds_credential env view db s v"
  by (simp add: rotation_wf_def)

text \<open>A consistent state stays one as long as no stored secret is lost or changed.\<close>

lemma holds_credential_mono:
  assumes "holds_credential env view db s v" and "\<And>j u. view s j = Some u \<Longrightarrow> view s' j = Some u"
  shows "holds_credential env view db s' v"
  using assms by (auto simp: holds_credential_def split: option.splits)

lemma rotation_wf_mono:
  assumes "rotation_wf env view db s v" and "\<And>j u. view s j = Some u \<Longrightarrow> view s' j = Some u"
  shows "rotation_wf env view db s' v"
  using assms holds_credential_mono [of env view db s v s']
  by (fastforce simp: rotation_wf_def split: option.splits rotation_state.splits)

section \<open>The clients of the secret store\<close>

lemma active_credential_view:
  assumes "secret_laws ops view" and "active_credential env ops db s = (r, s')"
  shows "view s' = view s"
  using assms(2) secret_store.get_view [OF assms(1)]
  by (auto simp: active_credential_def split: option.splits if_splits sum.splits prod.splits)

lemma active_credential_reads:
  assumes "secret_laws ops view" and "holds_credential env view db s v" and "t_identity db = Some i"
    and "so_get ops (py_str (ai_active_ref i)) s = (Inr x, s')"
  shows "active_credential env ops db s = (Inr v, s')"
  using assms(2-4) secret_store.get_value [OF assms(1,4)]
  by (simp add: active_credential_def holds_credential_def)

lemma active_credential_Inr:
  assumes "secret_laws ops view" and "holds_credential env view db s v"
    and "active_credential env ops db s = (Inr x, s')"
  shows "x = v"
proof -
  obtain i where i: "t_identity db = Some i" using assms(2) by (auto simp: holds_credential_def split: option.splits)
  from assms(2,3) i obtain y where "so_get ops (py_str (ai_active_ref i)) s = (Inr y, s')"
    by (auto simp: active_credential_def holds_credential_def split: option.splits if_splits sum.splits prod.splits)
  from active_credential_reads [OF assms(1,2) i this] assms(3) show ?thesis by simp
qed

lemma ensure_secret_value_view:
  assumes "secret_laws ops view" and "ensure_secret_value env ops k v s = (r, s')"
  shows "view s j = Some u \<Longrightarrow> view s' j = Some u"
    and "r = Inr () \<Longrightarrow> \<exists>p. view s' k = Some p \<and> ie_sha env p = ie_sha env v"
proof -
  obtain g s1 where g: "so_get ops k s = (g, s1)" by fastforce
  have s1: "view s1 = view s" by (rule secret_store.get_view [OF assms(1) g])
  have x: "x = view s k" if "g = Inr x" for x using secret_store.get_value [OF assms(1)] g that by blast
  show "view s j = Some u \<Longrightarrow> view s' j = Some u"
    using assms(2) g s1 x secret_store.put_absent_keeps [OF assms(1), where k = k and s = s1 and j = j]
    by (auto simp: ensure_secret_value_def split: sum.splits option.splits if_splits)
  show "r = Inr () \<Longrightarrow> \<exists>p. view s' k = Some p \<and> ie_sha env p = ie_sha env v"
    using assms(2) g s1 x secret_store.put_view [OF assms(1), where k = k and s = s1]
    by (auto simp: ensure_secret_value_def split: sum.splits option.splits if_splits)
qed

lemma ensure_secret_absent_view:
  assumes "secret_laws ops view" and "ensure_secret_absent ops k s = (r, s')"
  shows "j \<noteq> k \<Longrightarrow> view s' j = view s j" and "view s' j = None \<or> view s' j = view s j"
    and "r = Inr () \<Longrightarrow> view s' k = None"
proof -
  obtain g s1 where g: "so_get ops k s = (g, s1)" by fastforce
  have s1: "view s1 = view s" by (rule secret_store.get_view [OF assms(1) g])
  have x: "x = view s k" if "g = Inr x" for x using secret_store.get_value [OF assms(1)] g that by blast
  show "j \<noteq> k \<Longrightarrow> view s' j = view s j"
    using assms(2) g s1 secret_store.delete_others_keep [OF assms(1), where k = k and s = s1 and j = j]
    by (auto simp: ensure_secret_absent_def split: sum.splits option.splits)
  show "view s' j = None \<or> view s' j = view s j"
    using assms(2) g s1 secret_store.delete_never_writes [OF assms(1), where k = k and s = s1 and j = j]
    by (auto simp: ensure_secret_absent_def split: sum.splits option.splits)
  show "r = Inr () \<Longrightarrow> view s' k = None"
    using assms(2) g s1 x secret_store.delete_view [OF assms(1), where k = k and s = s1]
    by (auto simp: ensure_secret_absent_def split: sum.splits option.splits)
qed

lemma erase_secrets_view:
  assumes "secret_laws ops view" and "erase_secrets ops ks s = (r, s')"
  shows "(j \<notin> set ks \<longrightarrow> view s' j = view s j) \<and> (view s' j = None \<or> view s' j = view s j)
    \<and> (r = Inr () \<longrightarrow> j \<in> set ks \<longrightarrow> view s' j = None)"
  using assms(2)
proof (induction ks arbitrary: s)
  case Nil
  then show ?case by simp
next
  case (Cons k ks)
  obtain r1 s1 where one: "ensure_secret_absent ops k s = (r1, s1)" by fastforce
  note step = ensure_secret_absent_view [OF assms(1) one]
  show ?case
  proof (cases r1)
    case (Inl e)
    then show ?thesis using Cons.prems one step by auto
  next
    case (Inr u)
    then have rest: "erase_secrets ops ks s1 = (r, s')" using Cons.prems one by simp
    from Cons.IH [OF rest] step(1) [of j] step(2) [of j] step(3) Inr show ?thesis by (cases "j = k") auto
  qed
qed

text \<open>While the store answers, the same operations return, and their effect is exact.\<close>

lemma answering_get:
  assumes "secret_laws ops view" and "secrets_answer ops up" and "up s"
  obtains s' where "so_get ops k s = (Inr (view s k), s')" "up s'" "view s' = view s"
proof -
  obtain x s' where g: "so_get ops k s = (Inr x, s')" "up s'" using assms(2,3) unfolding secrets_answer_def by blast
  from that [of s'] g secret_store.get_value [OF assms(1) g(1)] secret_store.get_view [OF assms(1) g(1)] show ?thesis
    by simp
qed


lemma answering_absent:
  assumes "secret_laws ops view" and "secrets_answer ops up" and "up s"
  shows "\<exists>s'. ensure_secret_absent ops k s = (Inr (), s') \<and> up s' \<and> view s' = (view s)(k := None)"
proof -
  obtain s1 where g: "so_get ops k s = (Inr (view s k), s1)" "up s1" "view s1 = view s"
    by (rule answering_get [OF assms(1-3)])
  obtain s2 where d: "so_delete ops k s1 = (Inr (), s2)" "up s2" using assms(2) g(2) unfolding secrets_answer_def by blast
  have "view s2 = (view s)(k := None)" using secret_store.delete_view [OF assms(1) d(1)] g(3) by simp
  then show ?thesis using g d by (cases "view s k") (auto simp: ensure_secret_absent_def fun_upd_idem)
qed

lemma answering_erase:
  assumes "secret_laws ops view" and "secrets_answer ops up" and "up s"
  shows "\<exists>s'. erase_secrets ops ks s = (Inr (), s') \<and> up s'"
  using assms(3)
proof (induction ks arbitrary: s)
  case Nil
  then show ?case by simp
next
  case (Cons k ks)
  from answering_absent [OF assms(1,2) Cons.prems, of k] Cons.IH show ?case by auto
qed


section \<open>The stages of a rotation\<close>

lemma rotate_request_wf:
  assumes "rotation_wf env view db s v" and "t_identity db = Some i" and "ai_rotation_state i = Rot_None"
  shows "rotation_wf env view (rotate_request env' db) s v"
  using assms by (auto simp: rotation_wf_def rotate_request_def holds_credential_def)

lemma rotate_store_wf:
  assumes ss: "secret_laws ops view"
    and wf: "rotation_wf env view db s v" and i: "t_identity db = Some i" and st: "ai_rotation_state i = Rot_Requested"
    and run: "rotate_store env ops server i (db, s, w) = (res, (db', s', w'))"
  shows "rotation_wf env view db' s' v
    \<and> (res = Inr () \<longrightarrow> (\<exists>i'. t_identity db' = Some i' \<and> ai_rotation_state i' = Rot_Pending_Stored))"
proof -
  obtain a s1 where act: "active_credential env ops db s = (a, s1)" by fastforce
  have s1: "view s1 = view s" by (rule active_credential_view [OF ss act])
  have wf1: "rotation_wf env view db s1 v" using rotation_wf_mono [OF wf] s1 by simp
  obtain key akey where key: "ai_rotation_key i = Some key" "ai_activation_key i = Some akey"
    using wf i st by (auto simp: rotation_wf_def)
  show ?thesis
  proof (cases a)
    case (Inl e)
    then show ?thesis using run act wf1 by (auto simp: rotate_store_def)
  next
    case (Inr c)
    obtain r1 w1 where sv: "sv_create_rotation server c key w = (r1, w1)" by fastforce
    show ?thesis
    proof (cases r1)
      case (Inl e)
      then show ?thesis using run act Inr key sv wf1 by (auto simp: rotate_store_def uuid_of_def)
    next
      case resp: (Inr resp)
      let ?p = "rr_pending resp"
      let ?ref = "''credential.pending.'' @ cr_id ?p"
      obtain r2 s2 where en: "ensure_secret_value env ops ?ref (cr_value ?p) s1 = (r2, s2)" by fastforce
      note stored = ensure_secret_value_view [OF ss en]
      have wf2: "rotation_wf env view db s2 v" by (rule rotation_wf_mono [OF wf1 stored(1)])
      show ?thesis
      proof (cases r2)
        case (Inl e)
        then show ?thesis using run act Inr key sv resp en wf2 by (auto simp: rotate_store_def uuid_of_def Let_def)
      next
        case ok: (Inr u)
        obtain p where p: "view s2 ?ref = Some p" "ie_sha env p = ie_sha env (cr_value ?p)" using stored(2) ok by auto
        have "s' = s2" "res = Inr ()" and db': "db' = update_identity (ie_now env) (\<lambda>i. i
              \<lparr>ai_pending_id := Some (cr_id ?p), ai_pending_version := Some (cr_version ?p),
               ai_pending_fingerprint := Some (ie_sha env (cr_value ?p)),
               ai_pending_ref := Some ?ref, ai_pending_expires_at := Some (cr_expires_at ?p),
               ai_rotation_id := Some (rr_rotation_id resp), ai_rotation_state := Rot_Pending_Stored\<rparr>) db"
          using run act Inr key sv resp en ok by (auto simp: rotate_store_def uuid_of_def Let_def)
        then show ?thesis using wf2 i p key by (auto simp: rotation_wf_def holds_credential_def)
      qed
    qed
  qed
qed

text \<open>
  The end of a rotation: the previous secret goes, the active one stays, and a failure leaves the row
  as it was.
\<close>

definition finalized :: "id_env \<Rightarrow> agent_identity \<Rightarrow> agent_identity" where
  "finalized env i = i
     \<lparr>ai_previous_id := None, ai_previous_ref := None, ai_pending_id := None, ai_pending_version := None,
      ai_pending_fingerprint := None, ai_pending_ref := None, ai_pending_expires_at := None,
      ai_rotation_id := None, ai_rotation_key := None, ai_activation_key := None,
      ai_rotation_state := Rot_None, ai_updated_at := ie_now env\<rparr>"


lemma finalize_activated_wf:
  assumes ss: "secret_laws ops view" and hold: "holds_credential env view db s v" and i: "t_identity db = Some i"
    and st: "ai_rotation_state i = Rot_Activated"
    and run: "finalize_activated env ops i (db, s) = (r, (db', s'))"
  shows "rotation_wf env view db' s' v \<and> (\<forall>e. r = Inl e \<longrightarrow> db' = db)"
proof -
  let ?erase = "if \<not> falsy (ai_previous_ref i) \<and> ai_previous_ref i \<noteq> ai_active_ref i
    then ensure_secret_absent ops (py_str (ai_previous_ref i)) s else (Inr (), s)"
  obtain r1 where e: "?erase = (r1, s')" using run by (auto simp: finalize_activated_def split: prod.splits sum.splits)
  obtain ar where ar: "ai_active_ref i = Some ar" "ar \<noteq> []"
    using hold i by (cases "ai_active_ref i") (auto simp: holds_credential_def)
  have keep: "view s' ar = view s ar"
  proof (cases "\<not> falsy (ai_previous_ref i) \<and> ai_previous_ref i \<noteq> ai_active_ref i")
    case True
    then have "ensure_secret_absent ops (py_str (ai_previous_ref i)) s = (r1, s')" "ar \<noteq> py_str (ai_previous_ref i)"
      using e ar by (auto simp: py_str_def split: option.splits)
    then show ?thesis using ensure_secret_absent_view(1) [OF ss] by blast
  next
    case False
    then show ?thesis using e by (simp split: if_splits)
  qed
  then have "holds_credential env view db s' v" using hold i ar by (simp add: holds_credential_def)
  then show ?thesis using run e i st by (auto simp: finalize_activated_def rotation_wf_def holds_credential_def split: sum.splits)
qed


text \<open>What the row is between the server's answer and the end.\<close>

definition activated :: "id_env \<Rightarrow> agent_identity \<Rightarrow> agent_identity" where
  "activated env i = i
     \<lparr>ai_previous_id := ai_active_id i, ai_previous_ref := Some (py_str (ai_active_ref i)),
      ai_active_id := ai_pending_id i, ai_active_version := ai_pending_version i,
      ai_active_fingerprint := ai_pending_fingerprint i, ai_active_ref := Some (py_str (ai_pending_ref i)),
      ai_active_expires_at := ai_pending_expires_at i, ai_rotation_state := Rot_Activated,
      ai_updated_at := ie_now env\<rparr>"

lemma activated_holds:
  assumes "rotation_wf env view db s v" and "t_identity db = Some i"
    and "ai_rotation_state i \<in> {Rot_Pending_Stored, Rot_Activation_Uncertain}"
    and "view s (py_str (ai_pending_ref i)) = Some p"
  shows "holds_credential env view (db'\<lparr>t_identity := Some (activated env i)\<rparr>) s p"
  using assms by (auto simp: rotation_wf_def holds_credential_def activated_def)

lemma rotate_activate_unfold:
  assumes "rotation_wf env view db s v" and "t_identity db = Some i"
    and "ai_rotation_state i \<in> {Rot_Pending_Stored, Rot_Activation_Uncertain}"
    and "view s (py_str (ai_pending_ref i)) = Some p"
    and "so_get ops (py_str (ai_pending_ref i)) s = (Inr (Some p), s1)"
    and "ai_activation_key i = Some key" and "ai_rotation_id i = Some rid"
  shows "rotate_activate env ops server i (db, s, w) =
     (let db1 = update_identity (ie_now env) (\<lambda>i. i\<lparr>ai_rotation_state := Rot_Activation_Uncertain\<rparr>) db
      in case sv_activate_rotation server p rid key w of
           (Inl e, w1) \<Rightarrow> (Inl e, (db1, s1, w1))
         | (Inr _, w1) \<Rightarrow>
             (case finalize_activated env ops (activated env i) (db\<lparr>t_identity := Some (activated env i)\<rparr>, s1) of
                (r, (db3, s3)) \<Rightarrow> (r, (db3, s3, w1))))"
proof -
  have fp: "ai_pending_fingerprint i = Some (ie_sha env p)"
    using assms(1-4) by (auto simp: rotation_wf_def)
  have upd: "update_identity (ie_now env) (\<lambda>row. row
      \<lparr>ai_previous_id := ai_active_id i, ai_previous_ref := Some (py_str (ai_active_ref i)),
       ai_active_id := ai_pending_id i, ai_active_version := ai_pending_version i,
       ai_active_fingerprint := ai_pending_fingerprint i, ai_active_ref := Some (py_str (ai_pending_ref i)),
       ai_active_expires_at := ai_pending_expires_at i, ai_rotation_state := Rot_Activated\<rparr>)
      (update_identity (ie_now env) (\<lambda>i. i\<lparr>ai_rotation_state := Rot_Activation_Uncertain\<rparr>) db)
    = db\<lparr>t_identity := Some (activated env i)\<rparr>"
    using assms(2) by (simp add: update_identity_def activated_def)
  show ?thesis
    using assms(5-7) fp upd by (simp add: rotate_activate_def Let_def uuid_of_def split: sum.split prod.split)
qed

text \<open>
  Whatever comes of an activation, a credential is stored: the one used before, or the pending one
  when the server has accepted its activation.
\<close>

definition accepted_by :: "'w agent_server \<Rightarrow> string \<Rightarrow> bool" where
  "accepted_by server p \<longleftrightarrow> (\<exists>rid key w w1. sv_activate_rotation server p rid key w = (Inr (), w1))"

lemma rotate_activate_keeps:
  assumes ss: "secret_laws ops view" and wf: "rotation_wf env view db s v" and i: "t_identity db = Some i"
    and st: "ai_rotation_state i \<in> {Rot_Pending_Stored, Rot_Activation_Uncertain}"
    and run: "rotate_activate env ops server i (db, s, w) = (Inl e, (db', s', w'))"
  shows "rotation_wf env view db' s' v \<or>
    (\<exists>p i'. rotation_wf env view db' s' p \<and> t_identity db' = Some i' \<and> ai_rotation_state i' = Rot_Activated
       \<and> accepted_by server p)"
proof -
  obtain p key rid where p: "view s (py_str (ai_pending_ref i)) = Some p" and key: "ai_activation_key i = Some key"
    and rid: "ai_rotation_id i = Some rid"
    using wf i st by (auto simp: rotation_wf_def split: option.splits)
  obtain g s1 where g: "so_get ops (py_str (ai_pending_ref i)) s = (g, s1)" by fastforce
  have s1: "view s1 = view s" by (rule secret_store.get_view [OF ss g])
  have wf1: "rotation_wf env view db s1 v" using rotation_wf_mono [OF wf] s1 by simp
  show ?thesis
  proof (cases g)
    case (Inl e1)
    then show ?thesis using run g wf1 by (simp add: rotate_activate_def)
  next
    case (Inr x)
    then have g': "so_get ops (py_str (ai_pending_ref i)) s = (Inr (Some p), s1)"
      using g p secret_store.get_value [OF ss] by (metis g Inr p)
    note unf = rotate_activate_unfold [OF wf i st p g' key rid, of server w]
    obtain r w1 where sv: "sv_activate_rotation server p rid key w = (r, w1)" by fastforce
    show ?thesis
    proof (cases r)
      case (Inl e1)
      then have "s' = s1" "db' = update_identity (ie_now env) (\<lambda>i. i\<lparr>ai_rotation_state := Rot_Activation_Uncertain\<rparr>) db"
        using run unf sv by (simp_all add: Let_def)
      then show ?thesis using wf1 i st by (auto simp: rotation_wf_def holds_credential_def split: option.splits)
    next
      case (Inr u)
      let ?db = "db\<lparr>t_identity := Some (activated env i)\<rparr>"
      have fin: "finalize_activated env ops (activated env i) (?db, s1) = (Inl e, (db', s'))"
        using run unf sv Inr by (auto simp: Let_def split: prod.splits)
      have hold: "holds_credential env view ?db s1 p"
        by (rule activated_holds [OF wf1 i st]) (simp add: s1 p)
      have active: "ai_rotation_state (activated env i) = Rot_Activated" by (simp add: activated_def)
      have "rotation_wf env view db' s' p" "db' = ?db"
        using finalize_activated_wf [OF ss hold _ active fin] by auto
      then have "rotation_wf env view db' s' p" "t_identity db' = Some (activated env i)" by simp_all
      moreover have "accepted_by server p" using sv Inr unfolding accepted_by_def by (metis (full_types) old.unit.exhaust)
      ultimately show ?thesis using active by blast
    qed
  qed
qed

text \<open>A rotation as its stages, from a consistent state that is not yet activated.\<close>

lemma rotate_stages:
  assumes wf: "rotation_wf env view db s v" and sec: "require_secure_store env ops"
    and i: "t_identity db = Some i" and st: "ai_rotation_state i \<noteq> Rot_Activated"
  obtains db1 i1 where "rotation_wf env view db1 s v" "t_identity db1 = Some i1" "ai_active_ref i1 = ai_active_ref i"
    "ai_rotation_state i1 \<in> {Rot_Requested, Rot_Pending_Stored, Rot_Activation_Uncertain}"
    "rotate_credential env ops server (db, s, w) =
       (case (if ai_rotation_state i1 = Rot_Requested then rotate_store env ops server i1 (db1, s, w)
              else (Inr (), (db1, s, w))) of
          (Inl e, world2) \<Rightarrow> (Inl e, world2)
        | (Inr _, (db2, s2, w2)) \<Rightarrow>
            (case t_identity db2 of
               None \<Rightarrow> (Inl (Runtime_Error ''identity''), (db2, s2, w2))
             | Some i2 \<Rightarrow>
                 if ai_rotation_state i2 \<in> {Rot_Pending_Stored, Rot_Activation_Uncertain}
                 then rotate_activate env ops server i2 (db2, s2, w2)
                 else (Inr (), (db2, s2, w2))))"
proof -
  let ?db1 = "if ai_rotation_state i = Rot_None then rotate_request env db else db"
  have wf1: "rotation_wf env view ?db1 s v" using rotate_request_wf [OF wf i] wf by simp
  then obtain i1 where i1: "t_identity ?db1 = Some i1" by (rule rotation_wf_identity)
  have id: "\<not> falsy (ai_agent_id i)" using wf i by (auto simp: rotation_wf_def holds_credential_def)
  have "ai_rotation_state i \<noteq> Rot_Revoked" using wf i by (auto simp: rotation_wf_def)
  then have "ai_rotation_state i1 \<in> {Rot_Requested, Rot_Pending_Stored, Rot_Activation_Uncertain}"
    using i i1 st by (cases "ai_rotation_state i") (auto simp: rotate_request_def)
  moreover have "ai_active_ref i1 = ai_active_ref i" using i i1 by (auto simp: rotate_request_def split: if_splits)
  ultimately show ?thesis using that [OF wf1 i1] sec i st id i1 by (simp add: rotate_credential_def Let_def)
qed




lemma finalized_refs [simp]:
  "ai_active_ref (finalized env i) = ai_active_ref i"
  "credential_refs (finalized env i) = (if falsy (ai_active_ref i) then [] else [py_str (ai_active_ref i)])"
  "ai_rotation_state (finalized env i) = Rot_None"
  by (simp_all add: finalized_def credential_refs_def)


section \<open>Properties of the identity manager\<close>

text \<open>C12: a rotation never locks the agent out: whenever it fails, in whatever step (the server refuses or
  does not answer, the secret store raises on a read, a write or a deletion and leaves open whether a
  mutation was committed, a stored value conflicts, a member is missing, the previous secret cannot be
  deleted at the end), a usable credential is stored and can be read as soon as the store answers: the
  one used before, or the new one when the server has accepted its activation and only the end is
  missing.  What the rotation had stored is kept for the next attempt.\<close>

theorem failed_rotation_keeps_credential:
  assumes "secret_laws ops view" and "rotation_wf env view db s v"
    and "rotate_credential env ops server (db, s, w) = (Inl e, (db', s', w'))"
  shows "\<exists>u i'. rotation_wf env view db' s' u \<and> t_identity db' = Some i'
    \<and> (u = v \<or> ai_rotation_state i' = Rot_Activated \<and> accepted_by server u)
    \<and> (\<forall>x s2. so_get ops (py_str (ai_active_ref i')) s' = (Inr x, s2)
          \<longrightarrow> active_credential env ops db' s' = (Inr u, s2))"
proof -
  obtain i where i: "t_identity db = Some i" by (rule rotation_wf_identity [OF assms(2)])
  have "rotation_wf env view db' s' v \<or>
    (\<exists>p i'. rotation_wf env view db' s' p \<and> t_identity db' = Some i' \<and> ai_rotation_state i' = Rot_Activated
       \<and> accepted_by server p)"
  proof (cases "\<not> require_secure_store env ops \<or> ai_rotation_state i = Rot_Activated")
    case True
    have id: "\<not> falsy (ai_agent_id i)" using assms(2) i by (auto simp: rotation_wf_def holds_credential_def)
    from True show ?thesis
      using assms(2,3) id i finalize_activated_wf [OF assms(1) rotation_wf_holds [OF assms(2)] i]
      by (auto simp: rotate_credential_def split: prod.splits if_splits)
  next
    case False
    then have sec: "require_secure_store env ops" and st: "ai_rotation_state i \<noteq> Rot_Activated" by simp_all
    obtain db1 i1 where wf1: "rotation_wf env view db1 s v" and i1: "t_identity db1 = Some i1"
      and run: "rotate_credential env ops server (db, s, w) =
       (case (if ai_rotation_state i1 = Rot_Requested then rotate_store env ops server i1 (db1, s, w)
              else (Inr (), (db1, s, w))) of
          (Inl e, world2) \<Rightarrow> (Inl e, world2)
        | (Inr _, (db2, s2, w2)) \<Rightarrow>
            (case t_identity db2 of
               None \<Rightarrow> (Inl (Runtime_Error ''identity''), (db2, s2, w2))
             | Some i2 \<Rightarrow>
                 if ai_rotation_state i2 \<in> {Rot_Pending_Stored, Rot_Activation_Uncertain}
                 then rotate_activate env ops server i2 (db2, s2, w2)
                 else (Inr (), (db2, s2, w2))))"
      by (rule rotate_stages [OF assms(2) sec i st])
    obtain r2 db2 s2 w2 where two: "(if ai_rotation_state i1 = Rot_Requested then rotate_store env ops server i1 (db1, s, w)
        else (Inr (), (db1, s, w))) = (r2, (db2, s2, w2))" by (metis prod.exhaust)
    have wf2: "rotation_wf env view db2 s2 v"
    proof (cases "ai_rotation_state i1 = Rot_Requested")
      case True
      with two have "rotate_store env ops server i1 (db1, s, w) = (r2, (db2, s2, w2))" by simp
      from rotate_store_wf [OF assms(1) wf1 i1 True this] show ?thesis by simp
    next
      case False
      with two wf1 show ?thesis by simp
    qed
    then obtain i2 where i2: "t_identity db2 = Some i2" by (rule rotation_wf_identity)
    show ?thesis
    proof (cases r2)
      case (Inl e2)
      then show ?thesis using run two assms(3) wf2 by simp
    next
      case (Inr u)
      then have "ai_rotation_state i2 \<in> {Rot_Pending_Stored, Rot_Activation_Uncertain}"
        "rotate_activate env ops server i2 (db2, s2, w2) = (Inl e, (db', s', w'))"
        using run two assms(3) i2 by (auto split: if_splits)
      then show ?thesis by (rule rotate_activate_keeps [OF assms(1) wf2 i2])
    qed
  qed
  then obtain u i' where "rotation_wf env view db' s' u" "t_identity db' = Some i'"
    "u = v \<or> ai_rotation_state i' = Rot_Activated \<and> accepted_by server u"
    by (metis rotation_wf_identity)
  with active_credential_reads [OF assms(1) rotation_wf_holds] show ?thesis by metis
qed


text \<open>C14: once the server has revoked the agent and the secret store performs the deletions, no credential
  survives: every secret the identity refers to is deleted and no other one, the references are cleared
  and revoking again changes no secret.  If the store fails, what is not erased yet stays referred to,
  no other secret is touched, and the revocation can be repeated.  In both cases the first time of
  revocation is kept and the active credential cannot be obtained any more.\<close>

theorem revocation_erases_credentials:
  assumes "secret_laws ops view"
    and "t_identity db = Some i" and "mark_revoked env ops (db, s) = (r, (db', s'))" and "ie_clock_text env \<noteq> []"
  shows "(\<exists>i'. t_identity db' = Some i' \<and> ai_rotation_state i' = Rot_Revoked
         \<and> credential_refs i' = (if r = Inr () then [] else credential_refs i)
         \<and> (\<not> falsy (ai_revoked_at i) \<longrightarrow> ai_revoked_at i' = ai_revoked_at i))
    \<and> active_credential env' ops db' s''
        = (Inl (Identity_Not_Enrolled_Error ''agent has no active identity''), s'')
    \<and> (\<forall>k. k \<notin> set (credential_refs i) \<longrightarrow> view s' k = view s k)
    \<and> (\<forall>k \<in> set (credential_refs i). view s' k = None \<or> r \<noteq> Inr () \<and> view s' k = view s k)
    \<and> (r = Inr () \<longrightarrow> fst (mark_revoked env'' ops (db', s')) = Inr () \<and> snd (snd (mark_revoked env'' ops (db', s'))) = s')
    \<and> (\<forall>up. secrets_answer ops up \<and> up s' \<longrightarrow> fst (mark_revoked env'' ops (db', s')) = Inr ())"
proof -
  obtain r1 s1 where er: "erase_secrets ops (credential_refs i) s = (r1, s1)" by fastforce
  have out: "r = r1" "s' = s1" using assms(2,3) er by (auto simp: mark_revoked_def Let_def split: sum.splits)
  obtain i' where i': "t_identity db' = Some i'" "credential_refs i' = (if r = Inr () then [] else credential_refs i)"
    "ai_rotation_state i' = Rot_Revoked" "\<not> falsy (ai_revoked_at i')"
    "\<not> falsy (ai_revoked_at i) \<longrightarrow> ai_revoked_at i' = ai_revoked_at i"
    using assms(2-4) er by (fastforce simp: mark_revoked_def Let_def credential_refs_def split: sum.splits)
  note erased = erase_secrets_view [OF assms(1) er]
  have "fst (mark_revoked env'' ops (db', s')) = Inr () \<and> snd (snd (mark_revoked env'' ops (db', s'))) = s'" if "r = Inr ()"
    using i'(1,2) that by (simp add: mark_revoked_def Let_def)
  moreover have "fst (mark_revoked env'' ops (db', s')) = Inr ()" if "secrets_answer ops up" "up s'" for up
    using answering_erase [OF assms(1) that, of "credential_refs i'"] i'(1) by (auto simp: mark_revoked_def Let_def)
  moreover have "active_credential env' ops db' s'' = (Inl (Identity_Not_Enrolled_Error ''agent has no active identity''), s'')"
    using i' by (simp add: active_credential_def)
  moreover have "(\<forall>k. k \<notin> set (credential_refs i) \<longrightarrow> view s' k = view s k)
      \<and> (\<forall>k \<in> set (credential_refs i). view s' k = None \<or> r \<noteq> Inr () \<and> view s' k = view s k)"
    unfolding out by (metis erased)
  ultimately show ?thesis using i' by auto
qed

section \<open>Concrete runs\<close>

definition demo_id_env :: id_env where
  "demo_id_env = \<lparr>ie_now = ''n1'', ie_clock_text = ''c1'', ie_version = ''0.1.0'', ie_platform = ''linux'',
     ie_platform_version = ''6'', ie_fresh1 = ''u1'', ie_fresh2 = ''u2'', ie_sha = (\<lambda>s. s), ie_allow_insecure = True\<rparr>"

definition demo_identity :: agent_identity where
  "demo_identity = (fst (ensure_identity ''n0'' ''i1'' ''lab'' ''linux'' ''6'' ''0.1.0'' ''k0'' ''c0'' empty_store))
     \<lparr>ai_device_id := Some ''d1'', ai_agent_id := Some ''ag1'', ai_active_id := Some ''cr1'',
      ai_active_version := Some 1, ai_active_fingerprint := Some ''old'', ai_active_ref := Some ''credential.active.cr1''\<rparr>"

definition demo_server :: "nat agent_server" where
  "demo_server =
     \<lparr>sv_enroll = (\<lambda>req w. (Inl Transport_Error, w)),
      sv_create_rotation = (\<lambda>c k w. (Inr \<lparr>rr_rotation_id = ''ro1'', rr_pending = \<lparr>cr_id = ''cr2'', cr_version = 2,
         cr_value = ''new'', cr_expires_at = ''e2''\<rparr>\<rparr>, Suc w)),
      sv_activate_rotation = (\<lambda>c r k w. (Inr (), Suc w))\<rparr>"

text \<open>A store whose next deletion is not committed and raises; afterwards it works.\<close>

definition demo_stuck_store :: "(bool \<times> memory_secrets) secret_ops" where
  "demo_stuck_store =
     \<lparr>so_get = (\<lambda>k s. (Inr (snd s k), s)), so_put = (\<lambda>k v s. (Inr (), (fst s, (snd s)(k \<mapsto> v)))),
      so_delete = (\<lambda>k s. if fst s then (Inl Mutation_Commit_Indeterminate_Error, (False, snd s))
                          else (Inr (), (False, (snd s)(k := None)))),
      so_secure = False\<rparr>"

lemma demo_stuck_laws: "secret_laws demo_stuck_store snd"
  by unfold_locales (auto simp: demo_stuck_store_def split: if_splits)

definition demo_secrets :: memory_secrets where
  "demo_secrets = [''credential.active.cr1'' \<mapsto> ''old'']"

definition demo_identity_store :: store where
  "demo_identity_store = empty_store\<lparr>t_identity := Some demo_identity\<rparr>"

lemmas demo_identity_simps =
  demo_identity_store_def demo_identity_def ensure_identity_def empty_store_def demo_secrets_def demo_id_env_def Let_def

lemma demo_rotation_wf: "rotation_wf demo_id_env snd demo_identity_store (b, demo_secrets) ''old''"
  by (simp add: rotation_wf_def holds_credential_def demo_identity_simps)

text \<open>The server activates the new credential, the deletion of the old one fails: the new one is usable.\<close>

lemma failed_rotation_keeps_credential_witness:
  "\<exists>db' s' w' u. rotate_credential demo_id_env demo_stuck_store demo_server (demo_identity_store, (True, demo_secrets), 0)
        = (Inl Mutation_Commit_Indeterminate_Error, (db', s', w'))
      \<and> rotation_wf demo_id_env snd db' s' u \<and> (u = ''old'' \<or> accepted_by demo_server u)"
proof -
  obtain db' s' w' where run: "rotate_credential demo_id_env demo_stuck_store demo_server (demo_identity_store, (True, demo_secrets), 0)
      = (Inl Mutation_Commit_Indeterminate_Error, (db', s', w'))"
    by (simp add: rotate_credential_def require_secure_store_def demo_identity_simps rotate_request_def rotate_store_def
        active_credential_def uuid_of_def demo_server_def demo_stuck_store_def ensure_secret_value_def
        ensure_secret_absent_def update_identity_def rotate_activate_def finalize_activated_def)
  show ?thesis
    using failed_rotation_keeps_credential [OF demo_stuck_laws demo_rotation_wf run] run by blast
qed



lemma revocation_erases_credentials_witness:
  "snd (snd (snd (mark_revoked demo_id_env demo_stuck_store (demo_identity_store, (False, demo_secrets)))))
     ''credential.active.cr1'' = None"
proof -
  obtain r db' s' where run: "mark_revoked demo_id_env demo_stuck_store (demo_identity_store, (False, demo_secrets)) = (r, (db', s'))"
    by (metis prod.exhaust)
  have "r = Inr ()"
    using run by (auto simp: mark_revoked_def demo_identity_simps credential_refs_def ensure_secret_absent_def demo_stuck_store_def)
  with revocation_erases_credentials [OF demo_stuck_laws _ run, of demo_identity] run show ?thesis
    by (simp add: demo_identity_simps credential_refs_def)
qed

end
