(* ===== verification/Task_Runner.thy ===== *)
theory Task_Runner
  imports Task_Demo
begin

text \<open>
  \<open>application/task_runner.py\<close>, \<open>plugins/registry.py\<close> and \<open>plugins/contract_check.py\<close>: the registry
  of compiled plugins and the run of one task.  \<open>TaskRunner.run\<close> is a coroutine; between two awaits
  it is atomic, so it is modelled by its three atomic sections: \<open>run_begin\<close> (up to the call of the
  plugin), \<open>run_settle\<close> (from the end of the plugin to the call of its cleanup) and \<open>run_finish\<close>.
  What the plugin and the other tasks do to the database in between is an argument of the run.
\<close>

section \<open>Plugins\<close>

record plugin_descriptor =
  pd_task_type :: string
  pd_task_type_version :: string
  pd_provider_id :: string
  pd_provider_version :: string
  pd_method :: string
  pd_required_commands :: "string list"
  pd_max_timeout_seconds :: nat

text \<open>A plugin: its descriptor and whether its parameter model accepts the parameters.\<close>

record plugin =
  pl_descriptor :: plugin_descriptor
  pl_accepts :: "(string \<times> json) list \<Rightarrow> bool"

definition plugin_key :: "plugin \<Rightarrow> string \<times> string" where
  "plugin_key p = (pd_task_type (pl_descriptor p), pd_task_type_version (pl_descriptor p))"

type_synonym registry = "plugin list"

fun compile_plugins :: "plugin list \<Rightarrow> plugin list \<Rightarrow> py_error + plugin list" where
  "compile_plugins compiled [] = Inr compiled"
| "compile_plugins compiled (p # ps) =
     (if plugin_key p \<in> plugin_key ` set compiled
      then Inl (Value_Error ''duplicate compiled plugin'')
      else compile_plugins (compiled @ [p]) ps)"

definition plugin_registry :: "plugin list \<Rightarrow> string list \<Rightarrow> py_error + registry" where
  "plugin_registry plugins allowlist =
     (case compile_plugins [] plugins of
        Inl e \<Rightarrow> Inl e
      | Inr compiled \<Rightarrow>
          if \<exists>name \<in> set allowlist. name \<notin> (\<lambda>p. fst (plugin_key p)) ` set compiled
          then Inl (Value_Error ''configuration cannot enable a plugin absent from the compiled registry'')
          else Inr (filter (\<lambda>p. fst (plugin_key p) \<in> set allowlist) compiled))"

definition registry_get :: "registry \<Rightarrow> string \<Rightarrow> string \<Rightarrow> py_error + plugin" where
  "registry_get registry task_type version =
     (case find (\<lambda>p. plugin_key p = (task_type, version)) registry of
        None \<Rightarrow> Inl Plugin_Unavailable_Error
      | Some p \<Rightarrow> Inr p)"

definition registry_descriptors :: "registry \<Rightarrow> plugin_descriptor list" where
  "registry_descriptors registry =
     map (\<lambda>d. d\<lparr>pd_required_commands := sort (remdups (pd_required_commands d))\<rparr>)
       (sort_key pd_task_type (sort_key pd_task_type_version (map pl_descriptor registry)))"

definition contract_check_plugin :: plugin where
  "contract_check_plugin =
     \<lparr>pl_descriptor = \<lparr>pd_task_type = ''protocol.contract_check'', pd_task_type_version = ''1.0.0'',
        pd_provider_id = ''wto-agent-core'', pd_provider_version = ''0.1.0'',
        pd_method = ''contract_check'', pd_required_commands = [], pd_max_timeout_seconds = 30\<rparr>,
      pl_accepts = (\<lambda>parameters. parameters = [])\<rparr>"

section \<open>Outcomes of the plugin\<close>

datatype plugin_status = Plugin_Completed | Plugin_Failed

record plugin_result =
  pr_status :: plugin_status
  pr_outcome :: string
  pr_metrics :: "json list"
  pr_detail :: "string option"

text \<open>How \<open>plugin.execute\<close> under \<open>wait_for\<close> and \<open>plugin.cleanup\<close> can end.\<close>

datatype execution = Returned plugin_result | Timed_Out | Execution_Cancelled | Raised
datatype cleanup = Cleanup_Done | Cleanup_Raised | Cleanup_Cancelled

text \<open>The built-in plugin: the percentages it reports and how it ends.\<close>

definition contract_check_execute :: "bool \<Rightarrow> local_task \<Rightarrow> string list \<times> execution" where
  "contract_check_execute cancelled task =
     (if cancelled then ([], Execution_Cancelled)
      else if \<not> pl_accepts contract_check_plugin (lt_parameters task) then ([], Raised)
      else ([''100.0''], Returned \<lparr>pr_status = Plugin_Completed, pr_outcome = ''pass'', pr_metrics = [],
                                  pr_detail = None\<rparr>))"

section \<open>The three sections of a run\<close>

datatype begun = Settled_Early task_state | Executing plugin

definition early_exit :: "stamp \<Rightarrow> uuid \<Rightarrow> task_state \<Rightarrow> store \<Rightarrow> (begun, store) outcome" where
  "early_exit now t s db =
     (case transition now t Queued s db of
        (Inl e, db') \<Rightarrow> (Inl e, db')
      | (Inr _, db') \<Rightarrow> (Inr (Settled_Early s), db'))"

definition run_begin ::
  "registry \<Rightarrow> instant \<Rightarrow> stamp \<Rightarrow> uuid \<Rightarrow> local_task \<Rightarrow> store \<Rightarrow> (begun, store) outcome" where
  "run_begin registry clock now attempt_id task db =
     (let t = lt_task_id task in
      if lt_expires_at task \<le> clock then early_exit now t Skipped db
      else (case registry_get registry (lt_task_type task) (lt_task_type_version task) of
        Inl _ \<Rightarrow> early_exit now t Blocked db
      | Inr p \<Rightarrow>
          if \<not> pl_accepts p (lt_parameters task) then early_exit now t Rejected db
          else (case claim_task now attempt_id t db of
            (Inl e, db1) \<Rightarrow> (Inl e, db1)
          | (Inr None, db1) \<Rightarrow> (Inr (Settled_Early Interrupted), db1)
          | (Inr (Some _), db1) \<Rightarrow>
              (case transition now t Preparing Running db1 of
                (Inl e, db2) \<Rightarrow> (Inl e, db2)
              | (Inr _, db2) \<Rightarrow>
                  (case mark_invoked now t db2 of
                    (Inl e, db3) \<Rightarrow> (Inl e, db3)
                  | (Inr _, db3) \<Rightarrow> (Inr (Executing p), db3))))))"

text \<open>A progress report of the plugin, number \<open>n\<close> of the run.\<close>

definition run_progress ::
  "codec \<Rightarrow> stamp \<Rightarrow> uuid \<Rightarrow> uuid \<Rightarrow> string \<Rightarrow> local_task \<Rightarrow> nat \<Rightarrow> string \<Rightarrow> store \<Rightarrow> (unit, store) outcome" where
  "run_progress c now event_id key occurred_at task n percent db =
     queue_progress c now (lt_task_id task) event_id (int n)
       (JObj [(''schema_version'', JStr ''1.0.0''), (''event_id'', JStr event_id),
              (''task_id'', JStr (lt_task_id task)), (''execution_id'', JStr (lt_execution_id task)),
              (''sequence'', JInt (int n)), (''event_type'', JStr ''running''),
              (''occurred_at'', JStr occurred_at), (''progress_percent'', JFloat percent),
              (''reason'', JNull), (''idempotency_key'', JStr key)]) db"

text \<open>The verdict of the execution: the final state, the detail and whether the runner itself has
  cancelled the token and moved the task to \<open>CANCEL_REQUESTED\<close>.\<close>

fun verdict :: "execution \<Rightarrow> task_state \<times> string option \<times> bool" where
  "verdict (Returned r) = ((case pr_status r of Plugin_Failed \<Rightarrow> Failed | Plugin_Completed \<Rightarrow> Completed), None, False)"
| "verdict Timed_Out = (Failed, Some ''timeout'', True)"
| "verdict Execution_Cancelled = (Cancelled, Some ''cancelled'', True)"
| "verdict Raised = (Failed, Some ''plugin_failed'', False)"

definition run_settle ::
  "stamp \<Rightarrow> local_task \<Rightarrow> bool \<Rightarrow> execution \<Rightarrow> store \<Rightarrow> (task_state \<times> string option, store) outcome" where
  "run_settle now task cancelled execution db =
     (case verdict execution of (final, detail, by_runner) \<Rightarrow>
        let t = lt_task_id task in
        (case (if by_runner then transition now t Running Cancel_Requested db else (Inr (), db)) of
           (Inl e, db1) \<Rightarrow> (Inl e, db1)
         | (Inr _, db1) \<Rightarrow>
             let current = (if cancelled \<or> by_runner then Cancel_Requested else Running) in
             (case transition now t current Cleaning_Up db1 of
                (Inl e, db2) \<Rightarrow> (Inl e, db2)
              | (Inr _, db2) \<Rightarrow> (Inr (final, detail), request_cleanup now t db2))))"

definition result_payload ::
  "uuid \<Rightarrow> string \<Rightarrow> local_task \<Rightarrow> plugin \<Rightarrow> execution \<Rightarrow> task_state \<Rightarrow> string option \<Rightarrow> json" where
  "result_payload result_id finished_at task p execution final detail =
     (let d = pl_descriptor p;
          result = (case execution of Returned r \<Rightarrow> Some r | _ \<Rightarrow> None)
      in JObj
       [(''schema_version'', JStr ''1.0.0''), (''result_id'', JStr result_id),
        (''task_id'', JStr (lt_task_id task)), (''execution_id'', JStr (lt_execution_id task)),
        (''local_state'', JStr (state_value final)),
        (''outcome'', JStr (case result of Some r \<Rightarrow> pr_outcome r | None \<Rightarrow> ''not_evaluated'')),
        (''provider'', JObj [(''provider_id'', JStr (pd_provider_id d)),
                             (''provider_version'', JStr (pd_provider_version d)),
                             (''method'', JStr (pd_method d))]),
        (''metrics'', JArr (case result of Some r \<Rightarrow> pr_metrics r | None \<Rightarrow> [])),
        (''reason'', (case detail of Some s \<Rightarrow> JStr s | None \<Rightarrow> JNull)),
        (''finished_at'', JStr finished_at)])"

definition run_finish ::
  "codec \<Rightarrow> stamp \<Rightarrow> uuid \<Rightarrow> uuid \<Rightarrow> string \<Rightarrow> local_task \<Rightarrow> plugin \<Rightarrow> execution \<Rightarrow> cleanup \<Rightarrow>
   task_state \<times> string option \<Rightarrow> store \<Rightarrow> (task_state, store) outcome" where
  "run_finish c now result_id result_key finished_at task p execution cleanup settled db =
     (let t = lt_task_id task in
      case cleanup of
        Cleanup_Cancelled \<Rightarrow> (Inl Cancelled_Error, db)
      | _ \<Rightarrow>
          let failed = (cleanup = Cleanup_Raised);
              db1 = complete_cleanup now t (if failed then Some ''cleanup_failed'' else None) db;
              final = (if failed then Failed else fst settled);
              detail = (if failed then Some ''cleanup_failed'' else snd settled)
          in (case finish_with_result c now result_key t Cleaning_Up final
                     (result_payload result_id finished_at task p execution final detail) db1 of
                (Inl e, db2) \<Rightarrow> (Inl e, db2)
              | (Inr _, db2) \<Rightarrow> (Inr final, db2)))"

section \<open>The run\<close>

text \<open>
  What the run meets: clock readings and fresh identifiers, what happens to the database while the
  plugin executes and while it cleans up, how the plugin ends, and whether \<open>cancel\<close> was called on
  the runner before it ended.
\<close>

record run_env =
  re_registry :: registry
  re_clock :: instant
  re_now :: stamp
  re_attempt_id :: uuid
  re_result_id :: uuid
  re_result_key :: uuid
  re_finished_at :: string
  re_execution :: execution
  re_cancelled :: bool
  re_cleanup :: cleanup
  re_during :: "store \<Rightarrow> store"
  re_cleaning :: "store \<Rightarrow> store"

definition run_task :: "codec \<Rightarrow> run_env \<Rightarrow> local_task \<Rightarrow> store \<Rightarrow> (task_state, store) outcome" where
  "run_task c env task db =
     (case run_begin (re_registry env) (re_clock env) (re_now env) (re_attempt_id env) task db of
        (Inl e, db1) \<Rightarrow> (Inl e, db1)
      | (Inr (Settled_Early s), db1) \<Rightarrow> (Inr s, db1)
      | (Inr (Executing p), db1) \<Rightarrow>
          (case run_settle (re_now env) task (re_cancelled env) (re_execution env) (re_during env db1) of
             (Inl e, db2) \<Rightarrow> (Inl e, db2)
           | (Inr settled, db2) \<Rightarrow>
               run_finish c (re_now env) (re_result_id env) (re_result_key env) (re_finished_at env)
                 task p (re_execution env) (re_cleanup env) settled (re_cleaning env db2)))"

section \<open>What each section does to its task\<close>

definition attempt_of :: "store \<Rightarrow> uuid \<Rightarrow> task_attempt option" where
  "attempt_of db t = find (\<lambda>a. ta_task_id a = t) (t_attempts db)"

definition results_of :: "store \<Rightarrow> uuid \<Rightarrow> result_row list" where
  "results_of db t = filter (\<lambda>x. ob_task_id x = t) (t_results db)"

text \<open>What the plugin's own progress reports and the steps of other tasks leave alone.\<close>

definition keeps_task :: "uuid \<Rightarrow> store \<Rightarrow> store \<Rightarrow> bool" where
  "keeps_task t db db' \<longleftrightarrow>
     task_wf db' \<and> task_state_of db' t = task_state_of db t \<and> attempt_of db' t = attempt_of db t \<and>
     results_of db' t = results_of db t"

text \<open>
  What happens to the database while the runner awaits the plugin: any change that keeps the task
  and does not use the identifiers the run will draw for its result.
\<close>

definition unused_result :: "uuid \<Rightarrow> uuid \<Rightarrow> store \<Rightarrow> bool" where
  "unused_result rid rk db \<longleftrightarrow> rid \<notin> ob_id ` set (t_results db) \<and> rk \<notin> rr_key ` set (t_results db)"

definition interference :: "uuid \<Rightarrow> uuid \<Rightarrow> uuid \<Rightarrow> (store \<Rightarrow> store) \<Rightarrow> bool" where
  "interference t rid rk f \<longleftrightarrow>
     (\<forall>db. task_wf db \<longrightarrow> keeps_task t db (f db) \<and> (unused_result rid rk db \<longrightarrow> unused_result rid rk (f db)))"

lemma interferenceD:
  "interference t rid rk f \<Longrightarrow> task_wf db \<Longrightarrow> keeps_task t db (f db)"
  "interference t rid rk f \<Longrightarrow> task_wf db \<Longrightarrow> unused_result rid rk db \<Longrightarrow> unused_result rid rk (f db)"
  by (simp_all add: interference_def)

lemma interference_id: "interference t rid rk (\<lambda>db. db)"
  by (simp add: interference_def keeps_task_def)

lemma run_progress_keeps_task:
  "task_wf db \<Longrightarrow> keeps_task t db (snd (run_progress c now ev k at' task n percent db))"
  unfolding keeps_task_def run_progress_def
  by (auto simp: queue_progress_wf task_state_of_def attempt_of_def results_of_def)
    (simp_all add: queue_progress_def insert_progress_def)

lemma find_attempt_upd [simp]:
  "(\<And>a. ta_task_id (h a) = ta_task_id a) \<Longrightarrow>
   find (\<lambda>a. ta_task_id a = t) (upd_where P h rows)
     = map_option (\<lambda>a. if P a then h a else a) (find (\<lambda>a. ta_task_id a = t) rows)"
  by (rule find_key_upd_where)

lemma transition_run:
  assumes "task_wf db" and "allowed_transition a b"
  shows "transition now t a b db
    = (if task_state_of db t = Some a then (Inr (), set_task_state now t a b db)
       else (Inl (State_Conflict_Error ''task transition compare-and-set failed''), set_task_state now t a b db))"
  using cas_count_state [OF assms(1), of t a] assms(2)
  by (auto simp: transition_def split: sum.split dest: ensure_transition_Inl)

lemma set_task_state_other [simp]:
  "t_attempts (set_task_state now t a b db) = t_attempts db"
  "t_results (set_task_state now t a b db) = t_results db"
  "t_effects (set_task_state now t a b db) = t_effects db"
  by (simp_all add: set_task_state_def)

lemma set_task_state_conflict:
  assumes "task_wf db" and "task_state_of db t \<noteq> Some a"
  shows "set_task_state now t a b db = db"
proof -
  have "\<forall>r \<in> set (t_inbox db). \<not> (it_task_id r = t \<and> it_state r = a)"
  proof (intro ballI notI)
    fix r assume "r \<in> set (t_inbox db)" and "it_task_id r = t \<and> it_state r = a"
    then have "find (\<lambda>r. it_task_id r = t) (t_inbox db) = Some r" by (simp add: find_task_iff [OF assms(1)])
    with \<open>it_task_id r = t \<and> it_state r = a\<close> assms(2) show False by (simp add: task_state_of_def)
  qed
  then have "upd_where (\<lambda>r. it_task_id r = t \<and> it_state r = a) (\<lambda>r. r\<lparr>it_state := b, it_updated_at := now\<rparr>)
      (t_inbox db) = t_inbox db" by (rule upd_where_none)
  then show ?thesis by (simp add: set_task_state_def)
qed

lemmas run_allowed = allowed_transition_def

lemma early_exit_run:
  assumes "task_wf db" and "s \<in> {Skipped, Blocked, Rejected}"
  shows "early_exit now t s db
    = (if task_state_of db t = Some Queued then (Inr (Settled_Early s), set_task_state now t Queued s db)
       else (Inl (State_Conflict_Error ''task transition compare-and-set failed''), db))"
proof -
  have "allowed_transition Queued s" using assms(2) by (auto simp: run_allowed)
  then show ?thesis
    using set_task_state_conflict [OF assms(1)] by (auto simp: early_exit_def transition_run [OF assms(1)])
qed

text \<open>The database right after the plugin has been called.\<close>

definition invoked_store :: "stamp \<Rightarrow> uuid \<Rightarrow> uuid \<Rightarrow> uuid \<Rightarrow> store \<Rightarrow> store" where
  "invoked_store now attempt_id t k db =
     (let db2 = set_task_state now t Preparing Running (claimed_store now attempt_id t k db)
      in db2\<lparr>t_attempts := upd_where (\<lambda>a. ta_task_id a = t \<and> ta_invoked_at a = None)
           (\<lambda>a. a\<lparr>ta_invoked_at := Some now\<rparr>) (t_attempts db2)\<rparr>)"

lemma claimed_store_state:
  "find (\<lambda>r. it_task_id r = t) (t_inbox db) = Some row \<Longrightarrow> it_state row = Queued \<Longrightarrow>
   task_state_of (claimed_store now aid t k db) t = Some Preparing"
  by (auto simp: task_state_of_def claimed_store_def dest: find_SomeD)

lemma run_claim:
  assumes wf: "task_wf db" and st: "task_state_of db t = Some Queued"
    and "aid \<notin> ta_attempt_id ` set (t_attempts db)"
  obtains row where "row \<in> set (t_inbox db)" "it_task_id row = t" "it_state row = Queued"
    "claim_task now aid t db = (Inr (Some aid), claimed_store now aid t (it_key row) db)"
    "task_wf (claimed_store now aid t (it_key row) db)"
    "task_state_of (claimed_store now aid t (it_key row) db) t = Some Preparing"
    "t \<notin> ta_task_id ` set (t_attempts db)"
proof -
  from st obtain row where row: "find (\<lambda>r. it_task_id r = t) (t_inbox db) = Some row" "it_state row = Queued"
    by (auto simp: task_state_of_def)
  have r: "row \<in> set (t_inbox db)" "it_task_id row = t" using row by (auto dest: find_SomeD)
  have free: "t \<notin> ta_task_id ` set (t_attempts db)" using queued_unclaimed(1) [OF wf r(1) row(2)] r(2) by simp
  have "t \<in> it_task_id ` set (t_inbox db)" using r by blast
  then have "claim_task now aid t db = (Inr (Some aid), claimed_store now aid t (it_key row) db)"
    using row queued_unclaimed(2) [OF wf r(1) row(2)] free assms(3)
    by (simp add: claim_task_def Let_def set_task_state_def insert_attempt_def task_exists_def
        claimed_store_def new_attempt_def)
  with that r row(2) claimed_store_wf [OF wf row free] claimed_store_state [OF row] free show ?thesis
    by blast
qed

lemma run_begin_executes:
  assumes wf: "task_wf db" and st: "task_state_of db (lt_task_id task) = Some Queued"
    and aid: "aid \<notin> ta_attempt_id ` set (t_attempts db)"
    and live: "\<not> lt_expires_at task \<le> clock"
    and get: "registry_get registry (lt_task_type task) (lt_task_type_version task) = Inr p"
    and ok: "pl_accepts p (lt_parameters task)"
  obtains k where "run_begin registry clock now aid task db
        = (Inr (Executing p), invoked_store now aid (lt_task_id task) k db)"
    "task_wf (invoked_store now aid (lt_task_id task) k db)"
    "task_state_of (invoked_store now aid (lt_task_id task) k db) (lt_task_id task) = Some Running"
    "attempt_of (invoked_store now aid (lt_task_id task) k db) (lt_task_id task)
       = Some ((new_attempt now aid (lt_task_id task))\<lparr>ta_invoked_at := Some now\<rparr>)"
    "t_results (invoked_store now aid (lt_task_id task) k db) = t_results db"
proof -
  let ?t = "lt_task_id task"
  obtain row where "row \<in> set (t_inbox db)" "it_task_id row = ?t" "it_state row = Queued"
    and cl: "claim_task now aid ?t db = (Inr (Some aid), claimed_store now aid ?t (it_key row) db)"
    and wf1: "task_wf (claimed_store now aid ?t (it_key row) db)"
    and st1: "task_state_of (claimed_store now aid ?t (it_key row) db) ?t = Some Preparing"
    and free: "?t \<notin> ta_task_id ` set (t_attempts db)"
    by (rule run_claim [OF wf st aid, where now = now])
  let ?db1 = "claimed_store now aid ?t (it_key row) db"
  let ?db2 = "set_task_state now ?t Preparing Running ?db1"
  have tr: "transition now ?t Preparing Running ?db1 = (Inr (), ?db2)"
    using st1 by (simp add: transition_run [OF wf1] run_allowed)
  have none: "\<forall>a \<in> set (t_attempts db). ta_task_id a \<noteq> ?t" using free by (metis image_eqI)
  have att1: "t_attempts ?db1 = t_attempts db @ [new_attempt now aid ?t]" by (simp add: claimed_store_def)
  then have att: "t_attempts ?db2 = t_attempts db @ [new_attempt now aid ?t]" by simp
  have "filter (\<lambda>a. ta_task_id a = ?t \<and> ta_invoked_at a = None) (t_attempts db) = []"
    using none by (simp add: filter_empty_conv)
  then have "row_count (\<lambda>a. ta_task_id a = ?t \<and> ta_invoked_at a = None) (t_attempts ?db2) = 1"
    unfolding att row_count_def by (simp add: new_attempt_def)
  then have inv: "mark_invoked now ?t ?db2 = (Inr (), invoked_store now aid ?t (it_key row) db)"
    by (simp add: mark_invoked_def Let_def invoked_store_def)
  have wf2: "task_wf ?db2" by (rule set_task_state_wf [OF wf1]) (simp add: run_allowed)
  show ?thesis
  proof (rule that)
    show "run_begin registry clock now aid task db
        = (Inr (Executing p), invoked_store now aid ?t (it_key row) db)"
      using live get ok cl tr inv by (simp add: run_begin_def Let_def)
    show "task_wf (invoked_store now aid ?t (it_key row) db)"
      using mark_invoked_wf [OF wf2, of now ?t] inv by simp
    show "task_state_of (invoked_store now aid ?t (it_key row) db) ?t = Some Running"
      using set_task_state_of [of now ?t Preparing Running ?db1 ?t] st1
      by (simp add: invoked_store_def Let_def task_state_of_def)
    have "find (\<lambda>a. ta_task_id a = ?t) (t_attempts db) = None" using none by (auto simp: find_None_iff)
    then show "attempt_of (invoked_store now aid ?t (it_key row) db) ?t
       = Some ((new_attempt now aid ?t)\<lparr>ta_invoked_at := Some now\<rparr>)"
      unfolding attempt_of_def invoked_store_def Let_def
      by (simp add: att1 find_append) (simp add: new_attempt_def)
    show "t_results (invoked_store now aid ?t (it_key row) db) = t_results db"
      by (simp add: invoked_store_def Let_def claimed_store_def)
  qed
qed

lemma run_settle_ok:
  assumes wf: "task_wf db" and st: "task_state_of db (lt_task_id task) = Some Running"
    and v: "verdict execution = (final, detail, by_runner)" and "cancelled \<longrightarrow> by_runner"
  obtains db' where "run_settle now task cancelled execution db = (Inr (final, detail), db')"
    "task_wf db'" "task_state_of db' (lt_task_id task) = Some Cleaning_Up"
    "attempt_of db' (lt_task_id task) = map_option
       (\<lambda>a. a\<lparr>ta_cleanup_requested_at := coalesce (ta_cleanup_requested_at a) (Some now)\<rparr>)
       (attempt_of db (lt_task_id task))"
    "results_of db' (lt_task_id task) = results_of db (lt_task_id task)" "t_results db' = t_results db"
proof -
  let ?t = "lt_task_id task"
  let ?db1 = "if by_runner then set_task_state now ?t Running Cancel_Requested db else db"
  let ?cur = "if by_runner then Cancel_Requested else Running"
  let ?db2 = "set_task_state now ?t ?cur Cleaning_Up ?db1"
  have cur: "(if cancelled \<or> by_runner then Cancel_Requested else Running) = ?cur" using assms(4) by auto
  have wf1: "task_wf ?db1" using set_task_state_wf [OF wf, of Running Cancel_Requested] wf
    by (simp add: run_allowed)
  have st1: "task_state_of ?db1 ?t = Some ?cur" using st by (simp add: set_task_state_of)
  have wf2: "task_wf ?db2" by (rule set_task_state_wf [OF wf1]) (simp add: run_allowed)
  have first: "(if by_runner then transition now ?t Running Cancel_Requested db else (Inr (), db)) = (Inr (), ?db1)"
    using st by (simp add: transition_run [OF wf] run_allowed)
  have second: "transition now ?t ?cur Cleaning_Up ?db1 = (Inr (), ?db2)"
    using st1 by (subst transition_run [OF wf1]) (simp_all add: run_allowed)
  show ?thesis
  proof (rule that)
    show "run_settle now task cancelled execution db = (Inr (final, detail), request_cleanup now ?t ?db2)"
      unfolding run_settle_def v prod.case Let_def first sum.case cur second ..
    show "task_wf (request_cleanup now ?t ?db2)" by (rule request_cleanup_wf [OF wf2])
    show "task_state_of (request_cleanup now ?t ?db2) ?t = Some Cleaning_Up"
      using set_task_state_of [of now ?t ?cur Cleaning_Up ?db1 ?t] st1 by (simp add: task_state_of_def)
  qed (auto simp: attempt_of_def request_cleanup_def results_of_def option.map_comp o_def
        intro!: option.map_cong dest: find_SomeD)
qed

definition final_verdict :: "cleanup \<Rightarrow> task_state \<times> string option \<Rightarrow> task_state \<times> string option" where
  "final_verdict cleanup settled =
     (if cleanup = Cleanup_Raised then (Failed, Some ''cleanup_failed'') else settled)"

lemma run_finish_ok:
  assumes wf: "task_wf db" and st: "task_state_of db (lt_task_id task) = Some Cleaning_Up"
    and "cleanup \<noteq> Cleanup_Cancelled" and v: "final_verdict cleanup settled = (final, detail)"
    and "final \<in> EXECUTION_TERMINAL"
    and "rid \<notin> ob_id ` set (t_results db)" and "rk \<notin> rr_key ` set (t_results db)"
  obtains db' where "run_finish c now rid rk fin task p execution cleanup settled db = (Inr final, db')"
    "task_wf db'" "task_state_of db' (lt_task_id task) = Some final"
    "results_of db' (lt_task_id task)
       = [new_result c now rk (lt_task_id task) rid (result_payload rid fin task p execution final detail)]"
    "attempt_of db' (lt_task_id task) = map_option
       (\<lambda>a. a\<lparr>ta_cleanup_attempts := Suc (ta_cleanup_attempts a),
               ta_cleanup_completed_at := (if cleanup = Cleanup_Raised then ta_cleanup_completed_at a else Some now),
               ta_last_cleanup_error := (if cleanup = Cleanup_Raised then Some ''cleanup_failed'' else None),
               ta_finished_at := Some now\<rparr>)
       (attempt_of db (lt_task_id task))"
proof -
  let ?t = "lt_task_id task"
  let ?e = "if cleanup = Cleanup_Raised then Some ''cleanup_failed'' else None"
  let ?db1 = "complete_cleanup now ?t ?e db"
  let ?p = "result_payload rid fin task p execution final detail"
  have wf1: "task_wf ?db1" by (rule complete_cleanup_wf [OF wf])
  have st1: "task_state_of ?db1 ?t = Some Cleaning_Up" using st by (simp add: task_state_of_def)
  have res1: "t_results ?db1 = t_results db" by (simp add: complete_cleanup_def)
  have pid: "payload_text ?p ''result_id'' = Some rid" by (simp add: payload_text_def result_payload_def Let_def)
  obtain row where row: "find (\<lambda>r. it_task_id r = ?t) (t_inbox ?db1) = Some row" "it_state row = Cleaning_Up"
    and new: "?t \<notin> ob_task_id ` set (t_results ?db1)"
    and run: "finish_with_result c now rk ?t Cleaning_Up final ?p ?db1
      = (Inr (), finished_store c now rk ?t (it_key row) rid Cleaning_Up final ?p ?db1)"
    by (rule finish_from_cleaning [OF wf1 st1 assms(5) pid, where rk = rk and c' = c and now = now])
      (use assms(6,7) res1 in simp_all)
  let ?db' = "finished_store c now rk ?t (it_key row) rid Cleaning_Up final ?p ?db1"
  have ter: "final \<in> TERMINAL_STATES" using assms(5) by (simp add: TERMINAL_STATES_def)
  have allowed: "allowed_transition Cleaning_Up final"
    using assms(5) by (auto simp: run_allowed EXECUTION_TERMINAL_def)
  show ?thesis
  proof (rule that)
    show "run_finish c now rid rk fin task p execution cleanup settled db = (Inr final, ?db')"
      using assms(3) v run by (cases cleanup) (simp_all add: run_finish_def Let_def final_verdict_def)
    show "task_wf ?db'" by (rule finished_store_wf [OF wf1 row allowed ter new])
    show "task_state_of ?db' ?t = Some final"
      using row by (auto simp: task_state_of_def finished_store_def dest: find_SomeD)
    show "results_of ?db' ?t = [new_result c now rk ?t rid ?p]"
      using filter_key_none [OF new] by (simp add: results_of_def finished_store_def new_result_def)
    show "attempt_of ?db' ?t = map_option
       (\<lambda>a. a\<lparr>ta_cleanup_attempts := Suc (ta_cleanup_attempts a),
               ta_cleanup_completed_at := (if cleanup = Cleanup_Raised then ta_cleanup_completed_at a else Some now),
               ta_last_cleanup_error := (if cleanup = Cleanup_Raised then Some ''cleanup_failed'' else None),
               ta_finished_at := Some now\<rparr>)
       (attempt_of db ?t)"
      by (cases "find (\<lambda>a. ta_task_id a = ?t) (t_attempts db)")
        (auto simp: attempt_of_def finished_store_def complete_cleanup_def dest: find_SomeD)
  qed
qed

lemma final_verdict_terminal:
  "verdict execution = (settled, why, by_runner) \<Longrightarrow> final_verdict cleanup (settled, why) = (final, detail) \<Longrightarrow>
   final \<in> EXECUTION_TERMINAL"
  by (cases execution)
    (auto simp: final_verdict_def EXECUTION_TERMINAL_def split: if_splits plugin_status.splits)

section \<open>Properties of the runner\<close>

text \<open>C3: a task that is queued, alive, known and valid is executed, cleaned up and reported: provided
  the runner's \<open>cancel\<close> was not called for a plugin that then ends by itself and the cleanup is not
  itself cancelled, the run ends in the state the plugin's outcome and the cleanup determine, with
  exactly one pending result of that state and an attempt that records invocation, cleanup and end.\<close>

theorem run_executes_and_reports:
  assumes "task_reachable c db" and "task_state_of db (lt_task_id task) = Some Queued"
    and "re_attempt_id env \<notin> ta_attempt_id ` set (t_attempts db)"
    and "re_clock env < lt_expires_at task"
    and "registry_get (re_registry env) (lt_task_type task) (lt_task_type_version task) = Inr p"
    and "pl_accepts p (lt_parameters task)"
    and "interference (lt_task_id task) (re_result_id env) (re_result_key env) (re_during env)"
    and "interference (lt_task_id task) (re_result_id env) (re_result_key env) (re_cleaning env)"
    and "unused_result (re_result_id env) (re_result_key env) db"
    and "verdict (re_execution env) = (settled, why, by_runner)" and "re_cancelled env \<longrightarrow> by_runner"
    and "re_cleanup env \<noteq> Cleanup_Cancelled"
    and "final_verdict (re_cleanup env) (settled, why) = (final, detail)"
  shows "\<exists>db' a. run_task c env task db = (Inr final, db')
    \<and> task_state_of db' (lt_task_id task) = Some final
    \<and> results_of db' (lt_task_id task)
        = [new_result c (re_now env) (re_result_key env) (lt_task_id task) (re_result_id env)
            (result_payload (re_result_id env) (re_finished_at env) task p (re_execution env) final detail)]
    \<and> attempt_of db' (lt_task_id task) = Some a \<and> ta_attempt_id a = re_attempt_id env
    \<and> ta_invoked_at a \<noteq> None \<and> ta_cleanup_requested_at a \<noteq> None \<and> ta_cleanup_attempts a = 1
    \<and> ta_finished_at a \<noteq> None"
proof -
  let ?t = "lt_task_id task"
  have wf: "task_wf db" by (rule task_reachable_wf [OF assms(1)])
  have live: "\<not> lt_expires_at task \<le> re_clock env" using assms(4) by simp
  obtain k where begin': "run_begin (re_registry env) (re_clock env) (re_now env) (re_attempt_id env) task db
        = (Inr (Executing p), invoked_store (re_now env) (re_attempt_id env) ?t k db)"
    and b: "task_wf (invoked_store (re_now env) (re_attempt_id env) ?t k db)"
    "task_state_of (invoked_store (re_now env) (re_attempt_id env) ?t k db) ?t = Some Running"
    "attempt_of (invoked_store (re_now env) (re_attempt_id env) ?t k db) ?t
       = Some ((new_attempt (re_now env) (re_attempt_id env) ?t)\<lparr>ta_invoked_at := Some (re_now env)\<rparr>)"
    and r1: "t_results (invoked_store (re_now env) (re_attempt_id env) ?t k db) = t_results db"
    by (rule run_begin_executes [OF wf assms(2,3) live assms(5,6), where now = "re_now env"])
  let ?db1 = "invoked_store (re_now env) (re_attempt_id env) ?t k db"
  let ?db2 = "re_during env ?db1"
  have k1: "task_wf ?db2" "task_state_of ?db2 ?t = Some Running" "attempt_of ?db2 ?t = attempt_of ?db1 ?t"
    using interferenceD(1) [OF assms(7) b(1)] b(2) by (simp_all add: keeps_task_def)
  have u1: "unused_result (re_result_id env) (re_result_key env) ?db2"
    by (rule interferenceD(2) [OF assms(7) b(1)]) (use assms(9) r1 in \<open>simp add: unused_result_def\<close>)
  obtain db3 where settle: "run_settle (re_now env) task (re_cancelled env) (re_execution env) ?db2 = (Inr (settled, why), db3)"
    and s: "task_wf db3" "task_state_of db3 ?t = Some Cleaning_Up"
    "attempt_of db3 ?t = map_option (\<lambda>a. a\<lparr>ta_cleanup_requested_at :=
        coalesce (ta_cleanup_requested_at a) (Some (re_now env))\<rparr>) (attempt_of ?db2 ?t)"
    and r3: "results_of db3 ?t = results_of ?db2 ?t" "t_results db3 = t_results ?db2"
    by (rule run_settle_ok [OF k1(1,2) assms(10,11), where now = "re_now env"])
  let ?db4 = "re_cleaning env db3"
  have k2: "task_wf ?db4" "task_state_of ?db4 ?t = Some Cleaning_Up" "attempt_of ?db4 ?t = attempt_of db3 ?t"
    using interferenceD(1) [OF assms(8) s(1)] s(2) by (simp_all add: keeps_task_def)
  have u2: "unused_result (re_result_id env) (re_result_key env) ?db4"
    by (rule interferenceD(2) [OF assms(8) s(1)]) (use u1 r3 in \<open>simp add: unused_result_def\<close>)
  have fin: "final \<in> EXECUTION_TERMINAL"
    by (rule final_verdict_terminal [OF assms(10,13)])
  obtain db5 where f: "run_finish c (re_now env) (re_result_id env) (re_result_key env) (re_finished_at env)
       task p (re_execution env) (re_cleanup env) (settled, why) ?db4 = (Inr final, db5)"
    "task_state_of db5 ?t = Some final"
    "results_of db5 ?t = [new_result c (re_now env) (re_result_key env) ?t (re_result_id env)
            (result_payload (re_result_id env) (re_finished_at env) task p (re_execution env) final detail)]"
    and a: "attempt_of db5 ?t = map_option
       (\<lambda>a. a\<lparr>ta_cleanup_attempts := Suc (ta_cleanup_attempts a),
               ta_cleanup_completed_at := (if re_cleanup env = Cleanup_Raised then ta_cleanup_completed_at a
                                           else Some (re_now env)),
               ta_last_cleanup_error := (if re_cleanup env = Cleanup_Raised then Some ''cleanup_failed'' else None),
               ta_finished_at := Some (re_now env)\<rparr>) (attempt_of ?db4 ?t)"
    using run_finish_ok [OF k2(1,2) assms(12,13) fin, of "re_result_id env" "re_result_key env" c "re_now env"
        "re_finished_at env" p "re_execution env"] u2 unfolding unused_result_def by blast
  have "run_task c env task db = (Inr final, db5)"
    unfolding run_task_def begin' prod.case sum.case begun.case settle f(1) ..
  with f(2,3) a show ?thesis
    unfolding k2(3) s(3) k1(3) b(3) by (simp add: new_attempt_def)
qed

definition demo_plugin :: plugin where
  "demo_plugin =
     contract_check_plugin\<lparr>pl_descriptor := (pl_descriptor contract_check_plugin)\<lparr>pd_task_type := ''dev.simulated''\<rparr>\<rparr>"

definition demo_env :: run_env where
  "demo_env =
     \<lparr>re_registry = [demo_plugin], re_clock = 5, re_now = ''n2'', re_attempt_id = ''a1'',
      re_result_id = ''r1'', re_result_key = ''rk1'', re_finished_at = ''f1'',
      re_execution = Returned \<lparr>pr_status = Plugin_Completed, pr_outcome = ''pass'', pr_metrics = [], pr_detail = None\<rparr>,
      re_cancelled = False, re_cleanup = Cleanup_Done,
      re_during = (\<lambda>db. snd (run_progress demo_codec ''n3'' ''e1'' ''pk1'' ''o1'' demo_task 1 ''100.0'' db)),
      re_cleaning = (\<lambda>db. db)\<rparr>"

lemma interference_progress:
  "interference t rid rk (\<lambda>db. snd (run_progress c now ev k at' task n percent db))"
  unfolding interference_def
  by (auto simp: run_progress_keeps_task unused_result_def)
    (simp_all add: run_progress_def queue_progress_def insert_progress_def split: if_splits)

lemma demo_env_facts:
  "task_state_of demo_queued (lt_task_id demo_task) = Some Queued"
  "t_attempts demo_queued = []" "t_results demo_queued = []"
  "registry_get [demo_plugin] (lt_task_type demo_task) (lt_task_type_version demo_task) = Inr demo_plugin"
  "pl_accepts demo_plugin (lt_parameters demo_task)"
  by (simp_all add: demo_queued_tables(2) empty_store_def task_state_of_def queued_row_def inbox_row_def
      demo_task_def registry_get_def demo_plugin_def contract_check_plugin_def plugin_key_def)

lemma run_executes_and_reports_witness:
  "\<exists>db' a. run_task demo_codec demo_env demo_task demo_queued = (Inr Completed, db')
    \<and> task_state_of db' ''t1'' = Some Completed \<and> length (results_of db' ''t1'') = 1
    \<and> attempt_of db' ''t1'' = Some a \<and> ta_cleanup_attempts a = 1"
proof -
  have "lt_task_id demo_task = ''t1''" by (simp add: demo_task_def)
  have "\<exists>db' a. run_task demo_codec demo_env demo_task demo_queued = (Inr Completed, db')
    \<and> task_state_of db' (lt_task_id demo_task) = Some Completed
    \<and> results_of db' (lt_task_id demo_task)
        = [new_result demo_codec (re_now demo_env) (re_result_key demo_env) (lt_task_id demo_task) (re_result_id demo_env)
            (result_payload (re_result_id demo_env) (re_finished_at demo_env) demo_task demo_plugin (re_execution demo_env) Completed None)]
    \<and> attempt_of db' (lt_task_id demo_task) = Some a \<and> ta_attempt_id a = re_attempt_id demo_env
    \<and> ta_invoked_at a \<noteq> None \<and> ta_cleanup_requested_at a \<noteq> None \<and> ta_cleanup_attempts a = 1
    \<and> ta_finished_at a \<noteq> None"
    by (rule run_executes_and_reports [OF demo_reachable(1) demo_env_facts(1),
          where settled = Completed and why = None and by_runner = False])
      (simp_all add: demo_env_facts demo_env_def demo_task_def interference_progress interference_id
        unused_result_def final_verdict_def, simp_all add: demo_env_facts [unfolded demo_task_def, simplified])
  then show ?thesis unfolding \<open>lt_task_id demo_task = ''t1''\<close> by fastforce
qed

text \<open>C7: a cancellation through the runner is not honoured when the plugin ends by itself: if \<open>cancel\<close>
  was called and the plugin then returns or raises an ordinary exception, the run stops with a state
  conflict; the plugin's cleanup is neither requested nor run, no result is stored and the task is left
  in \<open>RUNNING\<close>, where only the recovery at the next start-up ends it, as \<open>INTERRUPTED\<close>.\<close>

theorem cancelled_run_is_stuck:
  assumes "task_reachable c db" and "task_state_of db (lt_task_id task) = Some Queued"
    and "re_attempt_id env \<notin> ta_attempt_id ` set (t_attempts db)"
    and "re_clock env < lt_expires_at task"
    and "registry_get (re_registry env) (lt_task_type task) (lt_task_type_version task) = Inr p"
    and "pl_accepts p (lt_parameters task)"
    and "interference (lt_task_id task) (re_result_id env) (re_result_key env) (re_during env)"
    and "re_cancelled env" and "re_execution env = Returned r \<or> re_execution env = Raised"
  shows "\<exists>db' a. run_task c env task db
        = (Inl (State_Conflict_Error ''task transition compare-and-set failed''), db')
    \<and> task_state_of db' (lt_task_id task) = Some Running
    \<and> results_of db' (lt_task_id task) = results_of db (lt_task_id task)
    \<and> attempt_of db' (lt_task_id task) = Some a \<and> ta_invoked_at a \<noteq> None
    \<and> ta_cleanup_requested_at a = None \<and> ta_cleanup_attempts a = 0 \<and> ta_finished_at a = None
    \<and> task_state_of (snd (recover_interrupted now db')) (lt_task_id task) = Some Interrupted"
proof -
  let ?t = "lt_task_id task"
  have wf: "task_wf db" by (rule task_reachable_wf [OF assms(1)])
  have live: "\<not> lt_expires_at task \<le> re_clock env" using assms(4) by simp
  obtain k where begin': "run_begin (re_registry env) (re_clock env) (re_now env) (re_attempt_id env) task db
        = (Inr (Executing p), invoked_store (re_now env) (re_attempt_id env) ?t k db)"
    and b: "task_wf (invoked_store (re_now env) (re_attempt_id env) ?t k db)"
    "task_state_of (invoked_store (re_now env) (re_attempt_id env) ?t k db) ?t = Some Running"
    "attempt_of (invoked_store (re_now env) (re_attempt_id env) ?t k db) ?t
       = Some ((new_attempt (re_now env) (re_attempt_id env) ?t)\<lparr>ta_invoked_at := Some (re_now env)\<rparr>)"
    and r1: "t_results (invoked_store (re_now env) (re_attempt_id env) ?t k db) = t_results db"
    by (rule run_begin_executes [OF wf assms(2,3) live assms(5,6), where now = "re_now env"])
  let ?db2 = "re_during env (invoked_store (re_now env) (re_attempt_id env) ?t k db)"
  have k1: "task_wf ?db2" "task_state_of ?db2 ?t = Some Running"
    "attempt_of ?db2 ?t = Some ((new_attempt (re_now env) (re_attempt_id env) ?t)\<lparr>ta_invoked_at := Some (re_now env)\<rparr>)"
    "results_of ?db2 ?t = results_of db ?t"
    using interferenceD(1) [OF assms(7) b(1)] b(2,3) r1 by (simp_all add: keeps_task_def results_of_def)
  obtain final detail where v: "verdict (re_execution env) = (final, detail, False)"
    using assms(9) by auto
  have "task_state_of ?db2 ?t \<noteq> Some Cancel_Requested" using k1(2) by simp
  then have "transition (re_now env) ?t Cancel_Requested Cleaning_Up ?db2
      = (Inl (State_Conflict_Error ''task transition compare-and-set failed''), ?db2)"
    using set_task_state_conflict [OF k1(1)] by (simp add: transition_run [OF k1(1)] run_allowed)
  then have "run_settle (re_now env) task (re_cancelled env) (re_execution env) ?db2
      = (Inl (State_Conflict_Error ''task transition compare-and-set failed''), ?db2)"
    using v assms(8) by (simp add: run_settle_def Let_def)
  then have "run_task c env task db
      = (Inl (State_Conflict_Error ''task transition compare-and-set failed''), ?db2)"
    by (simp add: run_task_def begin')
  moreover have "task_state_of (snd (recover_interrupted now ?db2)) ?t = Some Interrupted"
    by (simp add: recover_state [OF k1(1)] k1(2) INTERRUPTIBLE_def)
  ultimately show ?thesis using k1(2-4) by (simp add: new_attempt_def)
qed

lemma cancelled_run_is_stuck_witness:
  "\<exists>db'. run_task demo_codec (demo_env\<lparr>re_cancelled := True\<rparr>) demo_task demo_queued
        = (Inl (State_Conflict_Error ''task transition compare-and-set failed''), db')
    \<and> task_state_of db' (lt_task_id demo_task) = Some Running
    \<and> task_state_of (snd (recover_interrupted ''n9'' db')) (lt_task_id demo_task) = Some Interrupted"
proof -
  let ?env = "demo_env\<lparr>re_cancelled := True\<rparr>"
  have pre: "re_attempt_id ?env \<notin> ta_attempt_id ` set (t_attempts demo_queued)"
    "re_clock ?env < lt_expires_at demo_task"
    "registry_get (re_registry ?env) (lt_task_type demo_task) (lt_task_type_version demo_task) = Inr demo_plugin"
    "interference (lt_task_id demo_task) (re_result_id ?env) (re_result_key ?env) (re_during ?env)"
    "re_cancelled ?env"
    "re_execution ?env = Returned \<lparr>pr_status = Plugin_Completed, pr_outcome = ''pass'', pr_metrics = [], pr_detail = None\<rparr>
       \<or> re_execution ?env = Raised"
    using demo_env_facts by (simp_all add: demo_env_def interference_progress, simp add: demo_task_def)
  show ?thesis
    using cancelled_run_is_stuck [OF demo_reachable(1) demo_env_facts(1) pre(1-3) demo_env_facts(5) pre(4-6),
        of "''n9''"] by blast
qed

text \<open>A queued task that must not run does not: an expired task becomes \<open>SKIPPED\<close>, a task without a
  compiled and allowed plugin \<open>BLOCKED\<close> and one whose parameters the plugin rejects \<open>REJECTED\<close>, in this
  order of precedence, and nothing else in the database changes: no claim, no attempt, no result.\<close>

theorem run_refuses_without_effect:
  assumes "task_reachable c db" and "task_state_of db (lt_task_id task) = Some Queued"
    and "lt_expires_at task \<le> re_clock env
       \<or> (\<forall>p. registry_get (re_registry env) (lt_task_type task) (lt_task_type_version task) = Inr p
            \<longrightarrow> \<not> pl_accepts p (lt_parameters task))"
  shows "run_task c env task db =
    (let s = (if lt_expires_at task \<le> re_clock env then Skipped
              else case registry_get (re_registry env) (lt_task_type task) (lt_task_type_version task) of
                     Inl _ \<Rightarrow> Blocked | Inr _ \<Rightarrow> Rejected)
     in (Inr s, set_task_state (re_now env) (lt_task_id task) Queued s db))"
proof -
  have wf: "task_wf db" by (rule task_reachable_wf [OF assms(1)])
  show ?thesis
    using assms(2,3)
    by (auto simp: run_task_def run_begin_def Let_def early_exit_run [OF wf] split: sum.split)
qed

lemma run_refuses_without_effect_witness:
  "run_task demo_codec (demo_env\<lparr>re_registry := []\<rparr>) demo_task demo_queued
     = (Inr Blocked, set_task_state ''n2'' ''t1'' Queued Blocked demo_queued)"
  using run_refuses_without_effect [OF demo_reachable(1) demo_env_facts(1), of "demo_env\<lparr>re_registry := []\<rparr>"]
  by (simp add: demo_env_def registry_get_def demo_task_def Let_def)

lemma run_begin_executing:
  assumes "run_begin registry clock now aid task db = (Inr (Executing p), db3)"
  obtains db1 db2 a where "claim_task now aid (lt_task_id task) db = (Inr (Some a), db1)"
    "transition now (lt_task_id task) Preparing Running db1 = (Inr (), db2)"
    "mark_invoked now (lt_task_id task) db2 = (Inr (), db3)"
  using assms
  by (auto simp: run_begin_def early_exit_def Let_def split: if_splits sum.splits prod.splits option.splits)

text \<open>C1: the plugin of a task is called at most once: once a run has reached the execution, no later run
  of any task with the same idempotency key reaches it again, whatever happened in between, crashes
  and restarts included.\<close>

theorem plugin_is_called_at_most_once:
  assumes "task_reachable c db" and "run_begin registry clock now aid task db = (Inr (Executing p), db1)"
    and "r \<in> set (t_inbox db)" and "it_task_id r = lt_task_id task"
    and "(task_step c)\<^sup>*\<^sup>* db1 db2"
    and "s \<in> set (t_inbox db2)" and "it_task_id s = lt_task_id task'" and "it_key s = it_key r"
  shows "fst (run_begin registry' clock' now' aid' task' db2) \<noteq> Inr (Executing p')"
proof
  assume "fst (run_begin registry' clock' now' aid' task' db2) = Inr (Executing p')"
  then obtain db3 where "run_begin registry' clock' now' aid' task' db2 = (Inr (Executing p'), db3)"
    by (metis prod.collapse)
  then obtain db4 a' where again: "claim_task now' aid' (lt_task_id task') db2 = (Inr (Some a'), db4)"
    by (rule run_begin_executing)
  obtain dba dbb a where steps: "claim_task now aid (lt_task_id task) db = (Inr (Some a), dba)"
    "transition now (lt_task_id task) Preparing Running dba = (Inr (), dbb)"
    "mark_invoked now (lt_task_id task) dbb = (Inr (), db1)"
    by (rule run_begin_executing [OF assms(2)])
  have "task_step c dba dbb" using task_step.move [of c dba now "lt_task_id task" Preparing Running] steps(2) by simp
  moreover have "task_step c dbb db1" using task_step.invoke [of c dbb now "lt_task_id task"] steps(3) by simp
  ultimately have "(task_step c)\<^sup>*\<^sup>* dba db2"
    using assms(5) by (meson converse_rtranclp_into_rtranclp)
  with reclaim_refused [OF assms(1) steps(1) _ assms(3,4,6,8), of now' aid'] again assms(7)
  show False by simp
qed

lemma plugin_is_called_at_most_once_witness:
  "fst (run_begin [demo_plugin] 6 ''n8'' ''a8'' demo_task
     (snd (run_begin [demo_plugin] 5 ''n2'' ''a1'' demo_task demo_queued))) \<noteq> Inr (Executing demo_plugin)"
proof -
  have wf: "task_wf demo_queued" by (rule task_reachable_wf [OF demo_reachable(1)])
  obtain k where run: "run_begin [demo_plugin] 5 ''n2'' ''a1'' demo_task demo_queued
      = (Inr (Executing demo_plugin), invoked_store ''n2'' ''a1'' (lt_task_id demo_task) k demo_queued)"
    by (rule run_begin_executes [OF wf demo_env_facts(1) _ _ demo_env_facts(4,5),
          where aid = "''a1''" and clock = 5 and now = "''n2''"])
      (simp_all add: demo_env_facts, simp add: demo_task_def)
  let ?db = "invoked_store ''n2'' ''a1'' (lt_task_id demo_task) k demo_queued"
  let ?r = "queued_row demo_codec ''n1'' demo_task"
  let ?s = "?r\<lparr>it_state := Running, it_updated_at := ''n2''\<rparr>"
  have id: "lt_task_id demo_task = ''t1''" by (simp add: demo_task_def)
  have "?r \<in> set (t_inbox demo_queued)" "it_task_id ?r = lt_task_id demo_task"
    by (simp_all add: demo_queued_tables(2) id)
  moreover have "?s \<in> set (t_inbox ?db)"
    by (simp add: invoked_store_def claimed_store_def set_task_state_def demo_queued_tables(2) Let_def id)
  moreover have "it_task_id ?s = lt_task_id demo_task" "it_key ?s = it_key ?r" by (simp_all add: id)
  ultimately show ?thesis
    using plugin_is_called_at_most_once [OF demo_reachable(1) run _ _ rtranclp.rtrancl_refl]
    by (simp add: run)
qed

end
