(* ===== verification/Scheduler.thy ===== *)
theory Scheduler
  imports Task_Runner
begin

text \<open>
  \<open>application/scheduler.py\<close>: one polling cycle.  The transport is the queue of payloads it still has
  to deliver and the log of what has been published to it; whether it accepts a publication is an
  argument.  \<open>gather(..., return_exceptions=True)\<close> waits for every run and drops their exceptions, so
  the cycle starts with no run in progress and the runs contribute only their effect on the
  database.
\<close>

record scheduler_world =
  sw_db :: store
  sw_tasks :: "json list"
  sw_published :: "(string \<times> json) list"

type_synonym 'a cycle = "(py_error + 'a) \<times> scheduler_world"

section \<open>Receiving tasks\<close>

fun receive_tasks ::
  "codec \<Rightarrow> stamp \<Rightarrow> (uuid \<Rightarrow> uuid) \<Rightarrow> json list \<Rightarrow> scheduler_world \<Rightarrow> unit cycle" where
  "receive_tasks c now fresh [] w = (Inr (), w\<lparr>sw_tasks := []\<rparr>)"
| "receive_tasks c now fresh (payload # rest) w =
     (case validate_task c payload of
        None \<Rightarrow> (Inl Contract_Validation_Error, w\<lparr>sw_tasks := rest\<rparr>)
      | Some task \<Rightarrow>
          (case ingest_task c now (fresh (lt_task_id task)) task (sw_db w) of
             (Inl e, db) \<Rightarrow> (Inl e, w\<lparr>sw_db := db, sw_tasks := rest\<rparr>)
           | (Inr _, db) \<Rightarrow> receive_tasks c now fresh rest (w\<lparr>sw_db := db\<rparr>)))"

section \<open>Running the queue\<close>

fun run_all :: "codec \<Rightarrow> (local_task \<Rightarrow> run_env) \<Rightarrow> local_task list \<Rightarrow> store \<Rightarrow> store" where
  "run_all c env [] db = db"
| "run_all c env (task # tasks) db = run_all c env tasks (snd (run_task c (env task) task db))"

section \<open>Synchronising the outboxes\<close>

text \<open>Publish and confirm the rows of one outbox, in order; a failure stops at once.\<close>

fun sync_rows ::
  "codec \<Rightarrow> (string \<Rightarrow> json \<Rightarrow> bool) \<Rightarrow> stamp \<Rightarrow> string \<Rightarrow> string \<Rightarrow> outbox_row list \<Rightarrow> scheduler_world \<Rightarrow> unit cycle" where
  "sync_rows c accepts now table key_name [] w = (Inr (), w)"
| "sync_rows c accepts now table key_name (row # rows) w =
     (case json_loads c (ob_payload row) of
        None \<Rightarrow> (Inl (Value_Error ''Expecting value''), w)
      | Some payload \<Rightarrow>
          if \<not> accepts table payload then (Inl Transport_Error, w)
          else
            (let w1 = w\<lparr>sw_published := sw_published w @ [(table, payload)]\<rparr>
             in case confirm_outbox now table key_name (ob_id row) (sw_db w1) of
                  (Inl e, db) \<Rightarrow> (Inl e, w1\<lparr>sw_db := db\<rparr>)
                | (Inr _, db) \<Rightarrow> sync_rows c accepts now table key_name rows (w1\<lparr>sw_db := db\<rparr>)))"

definition sync_table ::
  "codec \<Rightarrow> (string \<Rightarrow> json \<Rightarrow> bool) \<Rightarrow> stamp \<Rightarrow> string \<Rightarrow> string \<Rightarrow> scheduler_world \<Rightarrow> unit cycle" where
  "sync_table c accepts now table key_name w =
     (case pending_outbox table (sw_db w) of
        Inl e \<Rightarrow> (Inl e, w)
      | Inr rows \<Rightarrow> sync_rows c accepts now table key_name rows w)"

definition sync_outboxes ::
  "codec \<Rightarrow> (string \<Rightarrow> json \<Rightarrow> bool) \<Rightarrow> stamp \<Rightarrow> scheduler_world \<Rightarrow> unit cycle" where
  "sync_outboxes c accepts now w =
     (case sync_table c accepts now ''outbox_progress'' ''event_id'' w of
        (Inl e, w1) \<Rightarrow> (Inl e, w1)
      | (Inr _, w1) \<Rightarrow>
          (case sync_table c accepts now ''outbox_results'' ''result_id'' w1 of
             (Inl e, w2) \<Rightarrow> (Inl e, w2)
           | (Inr _, w2) \<Rightarrow> sync_table c accepts now ''pending_uploads'' ''upload_id'' w2))"

section \<open>The cycle\<close>

definition run_once ::
  "codec \<Rightarrow> (string \<Rightarrow> json \<Rightarrow> bool) \<Rightarrow> stamp \<Rightarrow> (uuid \<Rightarrow> uuid) \<Rightarrow> (local_task \<Rightarrow> run_env) \<Rightarrow> int \<Rightarrow>
   scheduler_world \<Rightarrow> unit cycle" where
  "run_once c accepts now fresh env max_concurrency w =
     (case receive_tasks c now fresh (sw_tasks w) w of
        (Inl e, w1) \<Rightarrow> (Inl e, w1)
      | (Inr _, w1) \<Rightarrow>
          (case queued_tasks c now fresh (max 0 max_concurrency) (sw_db w1) of
             (tasks, db) \<Rightarrow>
               sync_outboxes c accepts now (w1\<lparr>sw_db := run_all c env tasks db\<rparr>)))"

section \<open>Publication comes before confirmation\<close>

text \<open>The rows of an outbox, whatever its extra columns.\<close>

definition outbox_of :: "string \<Rightarrow> store \<Rightarrow> outbox_row list" where
  "outbox_of table db =
     (if table = ''outbox_progress'' then map outbox_row.truncate (t_progress db)
      else if table = ''outbox_results'' then map outbox_row.truncate (t_results db)
      else if table = ''pending_uploads'' then map outbox_row.truncate (t_uploads db) else [])"

definition outbox_tables :: "(string \<times> string) list" where
  "outbox_tables = [(''outbox_progress'', ''event_id''), (''outbox_results'', ''result_id''),
                    (''pending_uploads'', ''upload_id'')]"

lemma truncate_simps [simp]:
  "ob_id (outbox_row.truncate r) = ob_id r" "ob_payload (outbox_row.truncate r) = ob_payload r"
  "ob_state (outbox_row.truncate r) = ob_state r"
  "ob_next_attempt_at (outbox_row.truncate r) = ob_next_attempt_at r"
  by (simp_all add: outbox_row.truncate_def)

lemma truncate_confirm:
  "map outbox_row.truncate (confirm_rows now k rows) = confirm_rows now k (map outbox_row.truncate rows)"
  by (simp add: confirm_rows_def upd_where_def outbox_row.truncate_def)

lemma confirm_outbox_run:
  assumes "(table, key_name) \<in> set outbox_tables"
  obtains db' where "confirm_outbox now table key_name k db = (Inr (), db')"
    "outbox_of table db' = confirm_rows now k (outbox_of table db)"
    "\<And>table'. table' \<noteq> table \<Longrightarrow> outbox_of table' db' = outbox_of table' db"
  using assms
  by (auto simp: outbox_tables_def confirm_outbox_def outbox_of_def truncate_confirm)

lemma map_truncate_insort:
  "map outbox_row.truncate (insort_key ob_next_attempt_at r rows)
     = insort_key ob_next_attempt_at (outbox_row.truncate r) (map outbox_row.truncate rows)"
  by (induction rows) simp_all

lemma map_truncate_pending:
  "map outbox_row.truncate (pending_rows rows) = pending_rows (map outbox_row.truncate rows)"
  unfolding pending_rows_def by (induction rows) (simp_all add: map_truncate_insort)

lemma pending_outbox_run:
  "(table, key_name) \<in> set outbox_tables \<Longrightarrow> pending_outbox table db = Inr (pending_rows (outbox_of table db))"
  by (auto simp: outbox_tables_def pending_outbox_def outbox_of_def map_truncate_pending)

definition confirmed :: "stamp \<Rightarrow> uuid set \<Rightarrow> outbox_row list \<Rightarrow> outbox_row list" where
  "confirmed now ks rows =
     upd_where (\<lambda>r. ob_id r \<in> ks) (\<lambda>r. r\<lparr>ob_state := Confirmed, ob_confirmed_at := Some now\<rparr>) rows"

lemma confirmed_empty [simp]: "confirmed now {} rows = rows"
  by (simp add: confirmed_def upd_where_def)

lemma confirm_rows_confirmed: "confirmed now ks (confirm_rows now k rows) = confirmed now (insert k ks) rows"
  by (simp add: confirmed_def confirm_rows_def upd_where_def)

text \<open>A run over one outbox handles a prefix of its rows: these are published and confirmed.\<close>

definition synced ::
  "codec \<Rightarrow> (string \<Rightarrow> json \<Rightarrow> bool) \<Rightarrow> stamp \<Rightarrow> string \<Rightarrow> outbox_row list \<Rightarrow> scheduler_world \<Rightarrow> scheduler_world \<Rightarrow> bool" where
  "synced c accepts now table sent w w' \<longleftrightarrow>
     (\<forall>r \<in> set sent. \<exists>p. json_loads c (ob_payload r) = Some p \<and> accepts table p) \<and>
     sw_published w' = sw_published w @ map (\<lambda>r. (table, the (json_loads c (ob_payload r)))) sent \<and>
     outbox_of table (sw_db w') = confirmed now (ob_id ` set sent) (outbox_of table (sw_db w)) \<and>
     (\<forall>table'. table' \<noteq> table \<longrightarrow> outbox_of table' (sw_db w') = outbox_of table' (sw_db w)) \<and>
     sw_tasks w' = sw_tasks w"

lemma sync_rows_prefix:
  assumes tab: "(table, key_name) \<in> set outbox_tables"
    and "sync_rows c accepts now table key_name rows w = (res, w')"
  shows "\<exists>sent rest. rows = sent @ rest \<and> (is_ok (res, w') \<longrightarrow> rest = []) \<and> synced c accepts now table sent w w'"
  using assms(2)
proof (induction rows arbitrary: w)
  case Nil
  then show ?case by (simp add: synced_def)
next
  case (Cons row rows)
  show ?case
  proof (cases "\<exists>p. json_loads c (ob_payload row) = Some p \<and> accepts table p")
    case False
    with Cons.prems have "w' = w \<and> \<not> is_ok (res, w')" by (auto split: option.splits)
    then have "row # rows = [] @ (row # rows) \<and> (is_ok (res, w') \<longrightarrow> row # rows = []) \<and> synced c accepts now table [] w w'"
      by (auto simp: synced_def)
    then show ?thesis by blast
  next
    case True
    then obtain p where p: "json_loads c (ob_payload row) = Some p" "accepts table p" by blast
    obtain db' where con: "confirm_outbox now table key_name (ob_id row) (sw_db w) = (Inr (), db')"
      "outbox_of table db' = confirm_rows now (ob_id row) (outbox_of table (sw_db w))"
      and other: "\<And>table'. table' \<noteq> table \<Longrightarrow> outbox_of table' db' = outbox_of table' (sw_db w)"
      by (rule confirm_outbox_run [OF tab]) blast
    let ?w1 = "w\<lparr>sw_published := sw_published w @ [(table, p)], sw_db := db'\<rparr>"
    have "sync_rows c accepts now table key_name rows ?w1 = (res, w')"
      using Cons.prems p con by simp
    then obtain sent rest where ih: "rows = sent @ rest" "is_ok (res, w') \<longrightarrow> rest = []"
      "synced c accepts now table sent ?w1 w'"
      using Cons.IH by blast
    then have "synced c accepts now table (row # sent) w w'"
      using p con other by (simp add: synced_def confirm_rows_confirmed)
    with ih(1,2) show ?thesis by (metis append_Cons)
  qed
qed

lemma sync_table_prefix:
  assumes "(table, key_name) \<in> set outbox_tables" and "sync_table c accepts now table key_name w = (res, w')"
  shows "\<exists>sent rest. pending_rows (outbox_of table (sw_db w)) = sent @ rest
    \<and> (is_ok (res, w') \<longrightarrow> rest = []) \<and> synced c accepts now table sent w w'"
  using sync_rows_prefix [OF assms(1)] assms(2)
  by (simp add: sync_table_def pending_outbox_run [OF assms(1)])

lemma synced_sent:
  assumes "synced c accepts now table sent w w'" and "r \<in> set sent"
  shows "\<exists>p. json_loads c (ob_payload r) = Some p \<and> accepts table p \<and> (table, p) \<in> set (sw_published w')"
proof -
  from assms obtain p where p: "json_loads c (ob_payload r) = Some p" "accepts table p"
    unfolding synced_def by blast
  have "sw_published w' = sw_published w @ map (\<lambda>r. (table, the (json_loads c (ob_payload r)))) sent"
    using assms(1) by (simp add: synced_def)
  moreover have "(table, p) \<in> (\<lambda>r. (table, the (json_loads c (ob_payload r)))) ` set sent"
    using assms(2) p(1) by force
  ultimately show ?thesis using p by simp
qed

lemma synced_keeps_published: "synced c accepts now table sent w w' \<Longrightarrow> set (sw_published w) \<subseteq> set (sw_published w')"
  by (auto simp: synced_def)

text \<open>The three outboxes in sequence: what was sent of each.\<close>

lemma sync_outboxes_sent:
  assumes "sync_outboxes c accepts now w = (res, w')"
  obtains sent where
    "\<And>table. table \<in> fst ` set outbox_tables \<Longrightarrow>
       \<exists>rest. pending_rows (outbox_of table (sw_db w)) = sent table @ rest \<and> (is_ok (res, w') \<longrightarrow> rest = [])"
    "\<And>table. table \<in> fst ` set outbox_tables \<Longrightarrow>
       outbox_of table (sw_db w') = confirmed now (ob_id ` set (sent table)) (outbox_of table (sw_db w))"
    "\<And>table r. table \<in> fst ` set outbox_tables \<Longrightarrow> r \<in> set (sent table) \<Longrightarrow>
       \<exists>p. json_loads c (ob_payload r) = Some p \<and> accepts table p \<and> (table, p) \<in> set (sw_published w')"
    "sw_published w' = sw_published w @
       concat (map (\<lambda>table. map (\<lambda>r. (table, the (json_loads c (ob_payload r)))) (sent table))
         [''outbox_progress'', ''outbox_results'', ''pending_uploads''])"
proof -
  let ?P = "''outbox_progress''" and ?R = "''outbox_results''" and ?U = "''pending_uploads''"
  have tabs: "(?P, ''event_id'') \<in> set outbox_tables" "(?R, ''result_id'') \<in> set outbox_tables"
    "(?U, ''upload_id'') \<in> set outbox_tables" by (simp_all add: outbox_tables_def)
  obtain r1 w1 where s1: "sync_table c accepts now ?P ''event_id'' w = (r1, w1)" by fastforce
  obtain r2 w2 where s2: "sync_table c accepts now ?R ''result_id'' w1 = (r2, w2)" by fastforce
  obtain r3 w3 where s3: "sync_table c accepts now ?U ''upload_id'' w2 = (r3, w3)" by fastforce
  obtain a ra where a: "pending_rows (outbox_of ?P (sw_db w)) = a @ ra" "is_ok (r1, w1) \<longrightarrow> ra = []"
    "synced c accepts now ?P a w w1" using sync_table_prefix [OF tabs(1) s1] by blast
  obtain b rb where b: "pending_rows (outbox_of ?R (sw_db w)) = b @ rb" "is_ok (r2, w2) \<longrightarrow> rb = []"
    "synced c accepts now ?R b w1 w2" using sync_table_prefix [OF tabs(2) s2] a(3)
    by (auto simp: synced_def)
  obtain d rd where d: "pending_rows (outbox_of ?U (sw_db w)) = d @ rd" "is_ok (r3, w3) \<longrightarrow> rd = []"
    "synced c accepts now ?U d w2 w3" using sync_table_prefix [OF tabs(3) s3] a(3) b(3)
    by (auto simp: synced_def)
  let ?ok1 = "is_ok (r1, w1)" and ?ok2 = "is_ok (r1, w1) \<and> is_ok (r2, w2)"
  let ?sent = "\<lambda>table. if table = ?P then a else if table = ?R then (if ?ok1 then b else [])
    else (if ?ok2 then d else [])"
  have last: "w' = (if \<not> ?ok1 then w1 else if \<not> ?ok2 then w2 else w3)"
    "is_ok (res, w') \<longleftrightarrow> ?ok2 \<and> is_ok (r3, w3)"
    using assms s1 s2 s3 by (auto simp: sync_outboxes_def is_ok_def split: sum.splits)
  show ?thesis
  proof (rule that [of ?sent])
    fix table assume t: "table \<in> fst ` set outbox_tables"
    show "\<exists>rest. pending_rows (outbox_of table (sw_db w)) = ?sent table @ rest \<and> (is_ok (res, w') \<longrightarrow> rest = [])"
    proof -
      consider "table = ?P" | "table = ?R" | "table = ?U" using t by (auto simp: outbox_tables_def)
      then show ?thesis
      proof cases
        case 1
        then show ?thesis using a(1,2) last(2) by (intro exI [of _ ra]) simp
      next
        case 2
        then show ?thesis using b(1,2) last(2) by (intro exI [of _ "if ?ok1 then rb else b @ rb"]) simp
      next
        case 3
        then show ?thesis using d(1,2) last(2) by (intro exI [of _ "if ?ok2 then rd else d @ rd"]) simp
      qed
    qed
    show "outbox_of table (sw_db w') = confirmed now (ob_id ` set (?sent table)) (outbox_of table (sw_db w))"
      using t a(3) b(3) d(3) last(1) by (auto simp: outbox_tables_def synced_def)
    show "\<exists>p. json_loads c (ob_payload r) = Some p \<and> accepts table p \<and> (table, p) \<in> set (sw_published w')"
      if r: "r \<in> set (?sent table)" for r
    proof -
      have mono: "set (sw_published w1) \<subseteq> set (sw_published w2)" "set (sw_published w2) \<subseteq> set (sw_published w3)"
        using synced_keeps_published b(3) d(3) by blast+
      consider "table = ?P" "r \<in> set a" | "table = ?R" "?ok1" "r \<in> set b" | "table = ?U" "?ok2" "r \<in> set d"
        using t r by (auto simp: outbox_tables_def split: if_splits)
      then obtain p and w0 :: scheduler_world where p: "json_loads c (ob_payload r) = Some p" "accepts table p"
        "(table, p) \<in> set (sw_published w0)" "set (sw_published w0) \<subseteq> set (sw_published w')"
      proof cases
        case 1
        moreover have "set (sw_published w1) \<subseteq> set (sw_published w')" using last(1) mono by auto
        ultimately show ?thesis using that [of _ w1] synced_sent [OF a(3) 1(2)] by auto
      next
        case 2
        moreover have "set (sw_published w2) \<subseteq> set (sw_published w')" using last(1) mono 2(2) by auto
        ultimately show ?thesis using that [of _ w2] synced_sent [OF b(3) 2(3)] by auto
      next
        case 3
        moreover have "w' = w3" using last(1) 3(2) by simp
        ultimately show ?thesis using that [of _ w3] synced_sent [OF d(3) 3(3)] by auto
      qed
      then show ?thesis by blast
    qed
  next
    show "sw_published w' = sw_published w @
       concat (map (\<lambda>table. map (\<lambda>r. (table, the (json_loads c (ob_payload r)))) (?sent table)) [?P, ?R, ?U])"
      using a(3) b(3) d(3) last(1) by (auto simp: synced_def)
  qed
qed

section \<open>The identifiers of the outboxes\<close>

definition outbox_wf :: "store \<Rightarrow> bool" where
  "outbox_wf db \<longleftrightarrow>
     distinct (map ob_id (t_progress db)) \<and> distinct (map ob_id (t_results db)) \<and>
     distinct (map ob_id (t_uploads db))"

definition outbox_ids :: "store \<Rightarrow> uuid list \<times> uuid list \<times> uuid list" where
  "outbox_ids db = (map ob_id (t_progress db), map ob_id (t_results db), map ob_id (t_uploads db))"

lemma outbox_wf_cong: "outbox_ids db' = outbox_ids db \<Longrightarrow> outbox_wf db \<Longrightarrow> outbox_wf db'"
  by (simp add: outbox_wf_def outbox_ids_def)

lemma confirm_rows_ids [simp]: "map ob_id (confirm_rows now k rows) = map ob_id rows"
  by (simp add: confirm_rows_def)

lemma load_rows_ids: "outbox_ids (snd (load_rows c now fresh rows db)) = outbox_ids db"
  by (induction rows arbitrary: db)
    (auto simp: outbox_ids_def reject_corrupt_def quarantine_in_transaction_def Let_def split: option.splits)

lemma finish_outbox_wf: "outbox_wf db \<Longrightarrow> outbox_wf (snd (finish_with_result c now rk t a b payload db))"
  by (auto simp: finish_with_result_def Let_def insert_result_def set_task_state_def outbox_wf_def
      split: sum.splits option.splits if_splits)

lemma task_step_outbox_wf: "task_step c db db' \<Longrightarrow> outbox_wf db \<Longrightarrow> outbox_wf db'"
proof (induction rule: task_step.induct)
  case (ingest db now qid task)
  then show ?case
    by (auto simp: outbox_wf_def ingest_task_def Let_def quarantine_in_transaction_def insert_inbox_def
        insert_effect_def split: option.split)
next
  case (read_queue db now fresh limit)
  then show ?case by (rule outbox_wf_cong [rotated]) (simp add: queued_tasks_def load_rows_ids)
next
  case (claim db now aid t)
  then show ?case
    by (auto simp: outbox_wf_def claim_task_def Let_def insert_attempt_def set_task_state_def split: option.split)
next
  case (move db now t a b)
  then show ?case
    by (auto simp: outbox_wf_def transition_def set_task_state_def split: sum.split)
next
  case (progress db now t ev n payload)
  then show ?case
    by (auto simp: outbox_wf_def queue_progress_def insert_progress_def split: option.split)
next
  case (finish target db now rk t payload)
  then show ?case by (simp add: finish_outbox_wf)
next
  case (confirm db now table key_name k)
  then show ?case by (rule outbox_wf_cong [rotated]) (simp add: outbox_ids_def confirm_outbox_def)
next
  case (recover db now)
  then show ?case by (auto simp: outbox_wf_def recover_interrupted_def Let_def)
next
  case (queue_upload db now u t relative media payload)
  then show ?case
    by (auto simp: outbox_wf_def ensure_artifact_queued_def insert_upload_def split: option.split)
next
  case (delete_upload db u)
  then show ?case by (simp add: outbox_wf_def delete_confirmed_artifact_def distinct_map_filter)
next
  case (rename_upload db u expected quarantine)
  then show ?case
    by (rule outbox_wf_cong [rotated]) (simp add: outbox_ids_def update_confirmed_artifact_path_def Let_def)
qed (auto simp: outbox_wf_def mark_invoked_def request_cleanup_def complete_cleanup_def Let_def)

lemma reachable_outbox_wf: "task_reachable c db \<Longrightarrow> outbox_wf db"
  unfolding task_reachable_def
proof (induction rule: rtranclp_induct)
  case base
  then show ?case by (simp add: outbox_wf_def empty_store_def)
next
  case (step y z)
  then show ?case by (blast intro: task_step_outbox_wf)
qed

lemma outbox_wf_distinct: "outbox_wf db \<Longrightarrow> distinct (map ob_id (outbox_of table db))"
  by (simp add: outbox_wf_def outbox_of_def o_def)

section \<open>A concrete synchronisation\<close>

definition demo_loader :: codec where
  "demo_loader = demo_codec\<lparr>json_loads := (\<lambda>s. Some (JStr s)), sha256_hex := (\<lambda>s. replicate 64 CHR ''a'')\<rparr>"

definition demo_progress :: progress_row where
  "demo_progress =
     \<lparr>ob_id = ''e1'', ob_task_id = ''t1'', ob_payload = ''null'', ob_payload_hash = replicate 64 CHR ''a'',
      ob_state = Pending, ob_attempts = 0, ob_next_attempt_at = ''n3'', ob_confirmed_at = None, ob_last_error = None,
      pr_sequence = 1\<rparr>"

definition demo_evidence :: json where
  "demo_evidence = JObj [(''artifact_id'', JStr ''k''), (''size_bytes'', JInt 3), (''sha256'', JStr (replicate 64 CHR ''b''))]"

definition demo_evidence_row :: upload_row where
  "demo_evidence_row =
     \<lparr>ob_id = ''u1'', ob_task_id = ''t1'', ob_payload = canonical_json demo_evidence, ob_payload_hash = replicate 64 CHR ''a'',
      ob_state = Pending, ob_attempts = 0, ob_next_attempt_at = ''n3'', ob_confirmed_at = None, ob_last_error = None,
      up_artifact_id = ''k'', up_relative_path = ''outbox/a'', up_media_type = ''m'', up_size_bytes = 3,
      up_sha256 = replicate 64 CHR ''b''\<rparr>"

definition demo_started :: store where
  "demo_started = snd (queue_progress demo_loader ''n3'' ''t1'' ''e1'' 1 JNull
     (snd (ingest_task demo_loader ''n1'' ''q1'' demo_task empty_store)))"

definition demo_outbox :: store where
  "demo_outbox = snd (ensure_artifact_queued (sha256_hex demo_loader) ''n3'' ''u1'' ''t1'' ''outbox/a'' ''m'' demo_evidence demo_started)"

lemma demo_outbox_tables:
  "t_progress demo_outbox = [demo_progress]" "t_results demo_outbox = []" "t_uploads demo_outbox = [demo_evidence_row]"
proof -
  have ingest: "ingest_task demo_loader ''n1'' ''q1'' demo_task empty_store
    = (Inr ''queued'', empty_store\<lparr>t_inbox := t_inbox empty_store @ [queued_row demo_loader ''n1'' demo_task],
        t_effects := t_effects empty_store @ [effect_row demo_loader ''n1'' demo_task]\<rparr>)"
    by (rule ingest_new [OF task_wf_empty]) (simp_all add: empty_store_def)
  have id: "it_task_id (queued_row demo_loader ''n1'' demo_task) = ''t1''"
    by (simp add: queued_row_def inbox_row_def demo_task_def)
  have start: "t_progress demo_started = [demo_progress]" "t_results demo_started = []" "t_uploads demo_started = []"
    "task_exists demo_started ''t1''"
    unfolding demo_started_def ingest
    by (simp_all add: queue_progress_def insert_progress_def task_exists_def id demo_progress_def digest_def)
      (simp_all add: empty_store_def demo_loader_def)
  have path: "path_parts ''outbox/a'' = [''outbox'', ''a'']" by (simp add: path_parts_def)
  have "ensure_artifact_queued (sha256_hex demo_loader) ''n3'' ''u1'' ''t1'' ''outbox/a'' ''m'' demo_evidence demo_started
      = (Inr True, demo_started\<lparr>t_uploads := [demo_evidence_row]\<rparr>)"
    using start(3,4)
    by (simp add: ensure_artifact_queued_def find_upload_def insert_upload_def path as_posix_def is_absolute_def
        demo_evidence_row_def digest_def demo_loader_def text_member_def field_def) (simp add: demo_evidence_def)
  then show "t_progress demo_outbox = [demo_progress]" "t_results demo_outbox = []"
    "t_uploads demo_outbox = [demo_evidence_row]"
    using start(1,2) by (simp_all add: demo_outbox_def)
qed

lemma demo_outbox_reachable: "task_reachable demo_loader demo_outbox"
proof -
  have "(task_step demo_loader)\<^sup>*\<^sup>* empty_store (snd (ingest_task demo_loader ''n1'' ''q1'' demo_task empty_store))"
    using task_step.ingest by (rule r_into_rtranclp)
  then have "(task_step demo_loader)\<^sup>*\<^sup>* empty_store demo_started"
    unfolding demo_started_def by (rule rtranclp.rtrancl_into_rtrancl) (rule task_step.progress)
  then show ?thesis
    unfolding task_reachable_def demo_outbox_def
    by (rule rtranclp.rtrancl_into_rtrancl) (rule task_step.queue_upload)
qed

definition demo_world :: scheduler_world where
  "demo_world = \<lparr>sw_db = demo_outbox, sw_tasks = [], sw_published = []\<rparr>"

definition demo_synced :: scheduler_world where
  "demo_synced = \<lparr>sw_db = demo_outbox\<lparr>t_progress := confirm_rows ''n4'' ''e1'' [demo_progress],
       t_uploads := confirm_rows ''n4'' ''u1'' [demo_evidence_row]\<rparr>, sw_tasks = [],
     sw_published = [(''outbox_progress'', JStr ''null''), (''pending_uploads'', JStr (canonical_json demo_evidence))]\<rparr>"

lemma demo_sync: "sync_outboxes demo_loader (\<lambda>table p. True) ''n4'' demo_world = (Inr (), demo_synced)"
  by (simp add: sync_outboxes_def sync_table_def pending_outbox_def demo_world_def demo_outbox_tables demo_synced_def
      pending_rows_def demo_progress_def demo_evidence_row_def demo_loader_def confirm_outbox_def outbox_row.truncate_def)

section \<open>Properties of the scheduler\<close>

text \<open>C8: at-least-once delivery of the progress events, results and artifacts: whether or not the
  synchronisation fails on the way, every outbox keeps its rows with their payloads, and a row is
  confirmed only if it was confirmed before or its payload has been accepted by the transport.\<close>

theorem confirmed_only_after_publication:
  assumes "task_reachable c db" and "sw_db w = db" and "sync_outboxes c accepts now w = (res, w')"
    and "table \<in> fst ` set outbox_tables"
  shows "map (\<lambda>r. (ob_id r, ob_payload r)) (outbox_of table (sw_db w')) = map (\<lambda>r. (ob_id r, ob_payload r)) (outbox_of table db)
    \<and> (\<forall>row \<in> set (outbox_of table (sw_db w')). ob_state row = Confirmed \<longrightarrow>
        (\<exists>old \<in> set (outbox_of table db). ob_id old = ob_id row \<and> ob_payload old = ob_payload row
          \<and> (ob_state old = Confirmed
             \<or> (\<exists>p. json_loads c (ob_payload old) = Some p \<and> accepts table p \<and> (table, p) \<in> set (sw_published w')))))"
proof -
  obtain sent where "\<And>table. table \<in> fst ` set outbox_tables \<Longrightarrow>
      \<exists>rest. pending_rows (outbox_of table (sw_db w)) = sent table @ rest \<and> (is_ok (res, w') \<longrightarrow> rest = [])"
    and "\<And>table. table \<in> fst ` set outbox_tables \<Longrightarrow>
      outbox_of table (sw_db w') = confirmed now (ob_id ` set (sent table)) (outbox_of table (sw_db w))"
    and "\<And>table r. table \<in> fst ` set outbox_tables \<Longrightarrow> r \<in> set (sent table) \<Longrightarrow>
      \<exists>p. json_loads c (ob_payload r) = Some p \<and> accepts table p \<and> (table, p) \<in> set (sw_published w')"
    by (rule sync_outboxes_sent [OF assms(3)]) blast
  note sent = this(1) [OF assms(4)] and out = this(2) [OF assms(4)] and pub = this(3) [OF assms(4)]
  have kept: "map (\<lambda>r. (ob_id r, ob_payload r)) (outbox_of table (sw_db w')) = map (\<lambda>r. (ob_id r, ob_payload r)) (outbox_of table db)"
    unfolding out assms(2) by (simp add: confirmed_def upd_where_def)
  have "\<exists>old \<in> set (outbox_of table db). ob_id old = ob_id row \<and> ob_payload old = ob_payload row
      \<and> (ob_state old = Confirmed
         \<or> (\<exists>p. json_loads c (ob_payload old) = Some p \<and> accepts table p \<and> (table, p) \<in> set (sw_published w')))"
    if row': "row \<in> set (outbox_of table (sw_db w'))" "ob_state row = Confirmed" for row
  proof -
    from row'(1) obtain old where old: "old \<in> set (outbox_of table db)"
      and row: "row = (if ob_id old \<in> ob_id ` set (sent table)
                       then old\<lparr>ob_state := Confirmed, ob_confirmed_at := Some now\<rparr> else old)"
      unfolding out assms(2) confirmed_def set_upd_where by blast
    show ?thesis
    proof (cases "ob_id old \<in> ob_id ` set (sent table)")
      case True
      then obtain r where r: "r \<in> set (sent table)" "ob_id r = ob_id old" by auto
      have "set (sent table) \<subseteq> set (pending_rows (outbox_of table db))" using sent assms(2) by auto
      then have "r \<in> set (outbox_of table db)" using r(1) by (auto simp: pending_rows_def)
      then have "r = old"
        using distinct_key_inj [OF outbox_wf_distinct [OF reachable_outbox_wf [OF assms(1)]] _ old] r(2) by blast
      with pub [OF r(1)] True row old show ?thesis by (intro bexI [of _ old]) simp_all
    next
      case False
      with row old row'(2) show ?thesis by (intro bexI [of _ old]) simp_all
    qed
  qed
  with kept show ?thesis by blast
qed

lemma confirmed_only_after_publication_witness:
  "\<exists>old \<in> set (outbox_of ''pending_uploads'' demo_outbox). ob_id old = ''u1'' \<and> ob_payload old = canonical_json demo_evidence
    \<and> (ob_state old = Confirmed
       \<or> (\<exists>p. json_loads demo_loader (ob_payload old) = Some p \<and> True
            \<and> (''pending_uploads'', p) \<in> set (sw_published demo_synced)))"
proof -
  let ?row = "outbox_row.truncate (demo_evidence_row\<lparr>ob_state := Confirmed, ob_confirmed_at := Some ''n4''\<rparr>)"
  have "?row \<in> set (outbox_of ''pending_uploads'' (sw_db demo_synced))"
    by (simp add: demo_synced_def outbox_of_def confirm_rows_def demo_evidence_row_def)
  moreover have "ob_state ?row = Confirmed" "ob_id ?row = ''u1''" "ob_payload ?row = canonical_json demo_evidence"
    by (simp_all add: demo_evidence_row_def)
  moreover have "sw_db demo_world = demo_outbox" "''pending_uploads'' \<in> fst ` set outbox_tables"
    by (simp_all add: demo_world_def outbox_tables_def)
  ultimately show ?thesis
    using confirmed_only_after_publication [OF demo_outbox_reachable _ demo_sync, of "''pending_uploads''"] by fastforce
qed

text \<open>C9: a synchronisation that ends without an error drains the outboxes: nothing is left pending, and
  what was pending has been published, once each and in order of its next attempt, the progress events
  before the results and the results before the artifacts.\<close>

theorem successful_sync_drains_outboxes:
  assumes "sync_outboxes c accepts now w = (Inr (), w')" and "table \<in> fst ` set outbox_tables"
  shows "pending_outbox table (sw_db w') = Inr []
    \<and> sw_published w' = sw_published w @
        concat (map (\<lambda>table. map (\<lambda>r. (table, the (json_loads c (ob_payload r))))
                              (pending_rows (outbox_of table (sw_db w))))
          [''outbox_progress'', ''outbox_results'', ''pending_uploads''])"
proof -
  obtain sent where all: "\<And>table. table \<in> fst ` set outbox_tables \<Longrightarrow>
      \<exists>rest. pending_rows (outbox_of table (sw_db w)) = sent table @ rest \<and> (is_ok (Inr (), w') \<longrightarrow> rest = [])"
    and out: "\<And>table. table \<in> fst ` set outbox_tables \<Longrightarrow>
      outbox_of table (sw_db w') = confirmed now (ob_id ` set (sent table)) (outbox_of table (sw_db w))"
    and pub: "sw_published w' = sw_published w @
       concat (map (\<lambda>table. map (\<lambda>r. (table, the (json_loads c (ob_payload r)))) (sent table))
         [''outbox_progress'', ''outbox_results'', ''pending_uploads''])"
    by (rule sync_outboxes_sent [OF assms(1)]) blast
  have sent: "pending_rows (outbox_of table (sw_db w)) = sent table" if "table \<in> fst ` set outbox_tables" for table
    using all [OF that] by auto
  have "filter (\<lambda>r. ob_state r = Pending \<or> ob_state r = In_Flight) (outbox_of table (sw_db w')) = []"
    unfolding out [OF assms(2)] sent [OF assms(2), symmetric]
    by (auto simp: filter_empty_conv confirmed_def set_upd_where pending_rows_def)
  then have "pending_outbox table (sw_db w') = Inr []"
    using assms(2) pending_outbox_run [of table _ "sw_db w'"] by (auto simp: pending_rows_def)
  moreover have "sent table = pending_rows (outbox_of table (sw_db w))"
    if "table \<in> {''outbox_progress'', ''outbox_results'', ''pending_uploads''}" for table
    using sent [of table] that by (auto simp: outbox_tables_def)
  ultimately show ?thesis unfolding pub by simp
qed

lemma successful_sync_drains_outboxes_witness:
  "pending_outbox ''pending_uploads'' (sw_db demo_synced) = Inr []
   \<and> sw_published demo_synced
     = [(''outbox_progress'', JStr ''null''), (''pending_uploads'', JStr (canonical_json demo_evidence))]"
  using successful_sync_drains_outboxes [OF demo_sync, of "''pending_uploads''"]
  by (simp add: outbox_tables_def) (simp add: demo_synced_def)

text \<open>A delivered task whose id was used before for another payload ends the whole cycle: the payload
  is quarantined and the exception leaves \<open>run_once\<close> before the other deliveries, the queue and the
  outboxes are looked at.\<close>

theorem conflicting_delivery_ends_cycle:
  assumes "sw_tasks w = payload # rest" and "validate_task c payload = Some task"
    and "find (\<lambda>r. it_task_id r = lt_task_id task) (t_inbox (sw_db w)) = Some row"
    and "it_payload_hash row \<noteq> digest (sha256_hex c) (envelope_json c task)"
  shows "run_once c accepts now fresh env n w
    = (Inl (Duplicate_Conflict_Error ''task_id was reused with a different payload''),
       w\<lparr>sw_db := quarantine_in_transaction c now (fresh (lt_task_id task)) ''inbox_tasks'' (lt_task_id task)
            ''task_id_payload_conflict'' (Some (canonical_json (envelope_json c task))) (sw_db w),
         sw_tasks := rest\<rparr>)"
  using assms by (simp add: run_once_def ingest_known_task)

lemma conflicting_delivery_ends_cycle_witness:
  "fst (run_once (demo_codec\<lparr>validate_task := (\<lambda>j. Some demo_task)\<rparr>) (\<lambda>table p. True) ''n9'' id (\<lambda>t. demo_env) 4
      \<lparr>sw_db = demo_queued\<lparr>t_inbox := [(queued_row demo_codec ''n1'' demo_task)\<lparr>it_payload_hash := ''other''\<rparr>]\<rparr>,
       sw_tasks = [JNull], sw_published = []\<rparr>)
   = Inl (Duplicate_Conflict_Error ''task_id was reused with a different payload'')"
proof -
  let ?c = "demo_codec\<lparr>validate_task := (\<lambda>j. Some demo_task)\<rparr>"
  let ?row = "(queued_row demo_codec ''n1'' demo_task)\<lparr>it_payload_hash := ''other''\<rparr>"
  let ?w = "\<lparr>sw_db = demo_queued\<lparr>t_inbox := [?row]\<rparr>, sw_tasks = [JNull], sw_published = []\<rparr>"
  have "hd (canonical_json (envelope_json ?c demo_task)) = CHR ''{''"
    unfolding envelope_json_def by (rule hd_canonical_object)
  then have "digest (sha256_hex ?c) (envelope_json ?c demo_task) \<noteq> ''other''"
    by (auto simp: digest_def demo_codec_def Let_def)
  moreover have "lt_task_id demo_task = ''t1''" by (simp add: demo_task_def)
  ultimately show ?thesis
    using conflicting_delivery_ends_cycle [of ?w JNull "[]" ?c demo_task ?row "\<lambda>table p. True" "''n9''" id "\<lambda>t. demo_env" 4]
    by simp
qed

end
