(* ===== verification/Agent_Runtime.thy ===== *)
theory Agent_Runtime
  imports Identity Scheduler Complex_Main
begin

text \<open>
  \<open>application/runtime.py\<close> and \<open>infrastructure/backoff.py\<close>: the start of the agent, one cycle
  (credential, manifest, heartbeat, scheduler) and the loop that repeats cycles with a backoff after
  transport errors.  The world of the agent is its database, its secrets, the server and what the
  task transport delivers and receives.
\<close>

section \<open>Backoff\<close>

text \<open>
  Floats are rationals here: rounding is not modelled, overflow is.  \<open>multiplier**attempt\<close> raises
  \<open>OverflowError\<close> when the power leaves the range of a double, which it does from two to the power
  1024 on; multiplication and addition saturate instead and stay below the bound by the \<open>min\<close>.
\<close>

record backoff_policy =
  bp_initial :: rat
  bp_maximum :: rat
  bp_multiplier :: rat
  bp_jitter :: rat

definition float_pow :: "rat \<Rightarrow> nat \<Rightarrow> rat option" where
  "float_pow b n = (if 2 ^ 1024 \<le> b ^ n then None else Some (b ^ n))"

definition backoff_delay :: "backoff_policy \<Rightarrow> (rat \<Rightarrow> rat \<Rightarrow> rat) \<Rightarrow> nat \<Rightarrow> rat option" where
  "backoff_delay p uniform attempt =
     (case float_pow (bp_multiplier p) attempt of
        None \<Rightarrow> None
      | Some f \<Rightarrow>
          (let base = min (bp_maximum p) (bp_initial p * f);
               jitter = base * bp_jitter p
           in Some (max 0 (uniform (base - jitter) (base + jitter)))))"

section \<open>The world of the agent\<close>

record ('s, 'w) agent_world =
  aw_db :: store
  aw_secrets :: 's
  aw_server :: 'w
  aw_tasks :: "json list"
  aw_published :: "(string \<times> json) list"

text \<open>The calls of the server that use the credential.\<close>

record 'w session_server =
  ss_manifest :: "string \<Rightarrow> json \<Rightarrow> 'w \<Rightarrow> (string, 'w) outcome"
  ss_heartbeat :: "string \<Rightarrow> json \<Rightarrow> 'w \<Rightarrow> (int, 'w) outcome"

record ('s, 'w) runtime_env =
  ru_codec :: codec
  ru_session :: session_env
  ru_identity :: id_env
  ru_secret_ops :: "'s secret_ops"
  ru_agent_server :: "'w agent_server"
  ru_server :: "'w session_server"
  ru_accepts :: "string \<Rightarrow> json \<Rightarrow> bool"
  ru_fresh :: "uuid \<Rightarrow> uuid"
  ru_run_env :: "local_task \<Rightarrow> run_env"
  ru_scheduler :: "int option"
  ru_boot_id :: uuid

definition with_session ::
  "(store \<times> 'w \<Rightarrow> ('a, store \<times> 'w) outcome) \<Rightarrow> ('s, 'w) agent_world \<Rightarrow> ('a, ('s, 'w) agent_world) outcome" where
  "with_session f aw =
     (case f (aw_db aw, aw_server aw) of (r, (db, w)) \<Rightarrow> (r, aw\<lparr>aw_db := db, aw_server := w\<rparr>))"

definition revoke_world ::
  "('s, 'w) runtime_env \<Rightarrow> ('s, 'w) agent_world \<Rightarrow> (unit, ('s, 'w) agent_world) outcome" where
  "revoke_world env aw =
     (case mark_revoked (ru_identity env) (ru_secret_ops env) (aw_db aw, aw_secrets aw) of
        (r, (db, s)) \<Rightarrow> (r, aw\<lparr>aw_db := db, aw_secrets := s\<rparr>))"

section \<open>Start\<close>

definition runtime_start :: "('s, 'w) runtime_env \<Rightarrow> ('s, 'w) agent_world \<Rightarrow> (unit, ('s, 'w) agent_world) outcome" where
  "runtime_start env aw =
     (let now = se_now (ru_session env);
          db = start_runtime now (ru_boot_id env) (snd (recover_interrupted now (aw_db aw)));
          aw1 = aw\<lparr>aw_db := db\<rparr>
      in case t_identity db of
           None \<Rightarrow> (Inr (), aw1)
         | Some i \<Rightarrow>
             if ai_rotation_state i = Rot_Revoked \<and> credential_refs i \<noteq> [] then revoke_world env aw1
             else if ai_rotation_state i \<notin> {Rot_None, Rot_Revoked}
             then (case rotate_credential (ru_identity env) (ru_secret_ops env) (ru_agent_server env)
                          (db, aw_secrets aw, aw_server aw) of
                     (r, (db1, s1, w1)) \<Rightarrow> (r, aw1\<lparr>aw_db := db1, aw_secrets := s1, aw_server := w1\<rparr>))
             else (Inr (), aw1))"

section \<open>Cycle\<close>

definition scheduler_run :: "('s, 'w) runtime_env \<Rightarrow> int \<Rightarrow> ('s, 'w) agent_world \<Rightarrow> (unit, ('s, 'w) agent_world) outcome" where
  "scheduler_run env n aw =
     (case run_once (ru_codec env) (ru_accepts env) (se_now (ru_session env)) (ru_fresh env) (ru_run_env env) n
             \<lparr>sw_db = aw_db aw, sw_tasks = aw_tasks aw, sw_published = aw_published aw\<rparr> of
        (r, sw) \<Rightarrow> (r, aw\<lparr>aw_db := sw_db sw, aw_tasks := sw_tasks sw, aw_published := sw_published sw\<rparr>))"

definition cycle_body :: "('s, 'w) runtime_env \<Rightarrow> string \<Rightarrow> ('s, 'w) agent_world \<Rightarrow> (unit, ('s, 'w) agent_world) outcome" where
  "cycle_body env credential aw =
     (let c = ru_codec env; senv = ru_session env;
          manifest = ss_manifest (ru_server env) credential
      in case (case ru_scheduler env of
                 Some _ \<Rightarrow> with_session (ensure_fast_start_published c senv manifest) aw
               | None \<Rightarrow>
                   (case with_session (ensure_published c senv manifest) aw of
                      (Inl e, aw1) \<Rightarrow> (Inl e, aw1) | (Inr _, aw1) \<Rightarrow> (Inr False, aw1))) of
           (Inl e, aw1) \<Rightarrow> (Inl e, aw1)
         | (Inr refresh, aw1) \<Rightarrow>
             (case with_session (send_heartbeat c senv (ss_heartbeat (ru_server env) credential)) aw1 of
                (Inl e, aw2) \<Rightarrow> (Inl e, aw2)
              | (Inr _, aw2) \<Rightarrow>
                  (case ru_scheduler env of
                     None \<Rightarrow> (Inr (), aw2)
                   | Some n \<Rightarrow>
                       (case scheduler_run env n aw2 of
                          (Inl e, aw3) \<Rightarrow> (Inl e, aw3)
                        | (Inr _, aw3) \<Rightarrow>
                            if refresh
                            then (case with_session (ensure_published c senv manifest) aw3 of
                                    (Inl e, aw4) \<Rightarrow> (Inl e, aw4) | (Inr _, aw4) \<Rightarrow> (Inr (), aw4))
                            else (Inr (), aw3)))))"

text \<open>An exception raised while the revocation is recorded takes the place of the first one.\<close>

definition runtime_cycle :: "('s, 'w) runtime_env \<Rightarrow> ('s, 'w) agent_world \<Rightarrow> (unit, ('s, 'w) agent_world) outcome" where
  "runtime_cycle env aw =
     (case active_credential (ru_identity env) (ru_secret_ops env) (aw_db aw) (aw_secrets aw) of
        (Inl e, s) \<Rightarrow> (Inl e, aw\<lparr>aw_secrets := s\<rparr>)
      | (Inr credential, s) \<Rightarrow>
          (case cycle_body env credential (aw\<lparr>aw_secrets := s\<rparr>) of
             (Inl Agent_Authentication_Failed, aw1) \<Rightarrow>
               (case revoke_world env aw1 of
                  (Inl e, aw2) \<Rightarrow> (Inl e, aw2)
                | (Inr _, aw2) \<Rightarrow> (Inl Agent_Authentication_Failed, aw2))
           | r \<Rightarrow> r))"

section \<open>The loop\<close>

datatype run_end = Still_Running nat | Ended py_error | Overflow_Error

text \<open>
  The loop over the outcomes of its cycles (\<open>None\<close> for a cycle without an exception): the seconds it
  sleeps after each, and how it ends.
\<close>

fun run_loop ::
  "backoff_policy \<Rightarrow> (rat \<Rightarrow> rat \<Rightarrow> rat) \<Rightarrow> rat \<Rightarrow> nat \<Rightarrow> py_error option list \<Rightarrow> rat list \<times> run_end" where
  "run_loop p uniform interval failures [] = ([], Still_Running failures)"
| "run_loop p uniform interval failures (None # rest) =
     map_prod ((#) interval) id (run_loop p uniform interval 0 rest)"
| "run_loop p uniform interval failures (Some e # rest) =
     (if e = Transport_Error
      then (case backoff_delay p uniform failures of
              None \<Rightarrow> ([], Overflow_Error)
            | Some d \<Rightarrow> map_prod ((#) d) id (run_loop p uniform interval (Suc failures) rest))
      else ([], Ended e))"

section \<open>Properties\<close>

text \<open>As long as the power of the multiplier does not overflow, every backoff delay is between zero
  and the maximum enlarged by the jitter, for any random source that stays within the bounds it is
  given.\<close>

theorem backoff_delay_bounds:
  assumes "0 \<le> bp_initial p" and "0 \<le> bp_maximum p" and "1 \<le> bp_multiplier p" and "0 \<le> bp_jitter p"
    and "\<And>a b. a \<le> b \<Longrightarrow> a \<le> uniform a b \<and> uniform a b \<le> b"
    and "backoff_delay p uniform attempt = Some d"
  shows "0 \<le> d \<and> d \<le> bp_maximum p * (1 + bp_jitter p)"
proof -
  let ?base = "min (bp_maximum p) (bp_initial p * bp_multiplier p ^ attempt)"
  have d: "d = max 0 (uniform (?base - ?base * bp_jitter p) (?base + ?base * bp_jitter p))"
    using assms(6) by (simp add: backoff_delay_def float_pow_def Let_def split: if_splits)
  have base: "0 \<le> ?base" "?base \<le> bp_maximum p" using assms(1-3) by simp_all
  have jit: "0 \<le> ?base * bp_jitter p" using base(1) assms(4) by simp
  then have "uniform (?base - ?base * bp_jitter p) (?base + ?base * bp_jitter p) \<le> ?base + ?base * bp_jitter p"
    using assms(5) [of "?base - ?base * bp_jitter p" "?base + ?base * bp_jitter p"] by simp
  also have "\<dots> = ?base * (1 + bp_jitter p)" by (simp add: algebra_simps)
  also have "\<dots> \<le> bp_maximum p * (1 + bp_jitter p)" using base(2) assms(4) by (intro mult_right_mono) simp_all
  finally have "uniform (?base - ?base * bp_jitter p) (?base + ?base * bp_jitter p) \<le> bp_maximum p * (1 + bp_jitter p)" .
  moreover have "0 \<le> bp_maximum p * (1 + bp_jitter p)" using assms(2,4) by simp
  ultimately show ?thesis unfolding d by simp
qed

definition default_backoff :: backoff_policy where
  "default_backoff = \<lparr>bp_initial = 1, bp_maximum = 60, bp_multiplier = 2, bp_jitter = 1 / 5\<rparr>"

lemma backoff_delay_bounds_witness: "(0::rat) \<le> 32 \<and> (32::rat) \<le> bp_maximum default_backoff * (1 + bp_jitter default_backoff)"
proof (rule backoff_delay_bounds [where uniform = "\<lambda>a b. (a + b) / 2" and attempt = 5])
  show "backoff_delay default_backoff (\<lambda>a b. (a + b) / 2) 5 = Some 32"
    by (simp add: backoff_delay_def float_pow_def default_backoff_def Let_def)
qed (simp_all add: default_backoff_def)

lemma run_loop_failures:
  assumes "2 \<le> bp_multiplier p" and "failures + n \<ge> 1025" and "failures \<le> 1024"
  shows "snd (run_loop p uniform interval failures (replicate n (Some Transport_Error) @ rest)) = Overflow_Error"
  using assms(2,3)
proof (induction n arbitrary: failures)
  case 0
  then show ?case by simp
next
  case (Suc n)
  show ?case
  proof (cases "backoff_delay p uniform failures")
    case None
    then show ?thesis by simp
  next
    case (Some d)
    have "failures < 1024"
    proof (rule ccontr)
      assume "\<not> failures < 1024"
      with Suc.prems(2) have "failures = 1024" by simp
      moreover have "(2 :: rat) ^ 1024 \<le> bp_multiplier p ^ 1024" using assms(1) by (intro power_mono) simp_all
      ultimately show False using Some by (simp add: backoff_delay_def float_pow_def)
    qed
    with Suc.IH [of "Suc failures"] Suc.prems(1) Some show ?thesis by simp
  qed
qed

text \<open>C15: the loop does not survive a long outage: with a multiplier of at least two (the default) the
  power overflows after 1024 transport errors in a row, the exception is not a transport error, and
  the agent stops instead of retrying.\<close>

theorem long_outage_stops_agent:
  assumes "2 \<le> bp_multiplier p"
  shows "snd (run_loop p uniform interval 0 (replicate 1025 (Some Transport_Error) @ rest)) = Overflow_Error"
  using run_loop_failures [OF assms, of 0 1025] by simp

lemma long_outage_stops_agent_witness:
  "snd (run_loop default_backoff (\<lambda>a b. a) 30 0 (replicate 1025 (Some Transport_Error) @ [None])) = Overflow_Error"
  by (rule long_outage_stops_agent) (simp add: default_backoff_def)

end
