(* ===== verification/Heartbeat_Order.thy ===== *)
theory Heartbeat_Order
  imports Agent_Session
begin

text \<open>
  The heartbeats of an agent over its whole life: sends with any answers of the server, crashes and
  restarts in between.  One send is a round of the numbered channel of \<open>Seq_Channel\<close>, whose laws
  then give the order of all heartbeats.
\<close>

section \<open>Documents of the channel\<close>

definition heartbeat_doc :: "int \<Rightarrow> json \<Rightarrow> bool" where
  "heartbeat_doc n doc \<longleftrightarrow> json_plain doc \<and> payload_int doc ''sequence'' = Some n"

definition heartbeat_sound :: "store \<Rightarrow> bool" where
  "heartbeat_sound db \<longleftrightarrow>
     t_runtime db = None \<or>
     heartbeat_wf db \<and>
     (\<forall>n t h. heartbeat_pending db = Some (n, t, h) \<longrightarrow> (\<exists>doc. heartbeat_doc n doc \<and> t = canonical_json doc))"

lemma heartbeat_json_doc: "heartbeat_doc n (heartbeat_json env a b n m d)"
  by (simp add: heartbeat_doc_def heartbeat_json_def payload_int_def)

lemma payload_int_normal: "json_plain doc \<Longrightarrow> payload_int (normal_json doc) k = payload_int doc k"
proof (cases doc)
  case (JObj kvs)
  assume "json_plain doc"
  then have "json_get (normal_json doc) k = map_option normal_json (json_get doc k)"
    unfolding JObj by (simp add: json_get_normal del: normal_json.simps)
  then show ?thesis
    by (cases "json_get doc k") (auto simp: payload_int_def split: json.splits)
qed (simp_all add: payload_int_def)

lemma normal_heartbeat_doc: "heartbeat_doc n doc \<Longrightarrow> payload_int (normal_json doc) ''sequence'' = Some n"
  by (simp add: heartbeat_doc_def payload_int_normal)

lemma sound_pending_text:
  assumes "heartbeat_sound db"
  shows "pending_heartbeat_text db = map_option (\<lambda>m. fst (snd m)) (heartbeat_pending db)"
  using assms
  by (auto simp: heartbeat_sound_def heartbeat_wf_def pending_heartbeat_text_def heartbeat_pending_def split: option.splits)

section \<open>A send is a round of the channel\<close>

definition logged :: "(json \<Rightarrow> py_error + int) \<Rightarrow> json \<Rightarrow> json list \<Rightarrow> (int, json list) outcome" where
  "logged answer payload log = (answer payload, log @ [payload])"

lemma prepare_heartbeat_round:
  assumes sound: "heartbeat_sound db" and c: "json_loads c = loads norm"
    and ok: "prepare_heartbeat c env db = (Inr p, db1)"
  obtains n h where "payload_int p ''sequence'' = Some n" "heartbeat_wf db"
    "heartbeat_wf db1 \<and> heartbeat_pending db1 = Some (n, canonical_json p, h)"
    "n = heartbeat_acked db + 1" "heartbeat_acked db1 = heartbeat_acked db" "heartbeat_sound db1"
    "pending_heartbeat_text db \<noteq> None \<longrightarrow> pending_heartbeat_text db = Some (canonical_json p)" "json_plain p"
proof (cases "heartbeat_pending db")
  case (Some m)
  obtain n t h where m: "m = (n, t, h)" by (cases m)
  with Some have wf: "heartbeat_wf db" using sound by (auto simp: heartbeat_sound_def heartbeat_pending_def)
  have t: "pending_heartbeat_text db = Some t" using sound_pending_text [OF sound] Some m by simp
  obtain doc where doc: "heartbeat_doc n doc" "t = canonical_json doc"
    using sound Some m by (auto simp: heartbeat_sound_def heartbeat_pending_def)
  then have "json_loads c t = Some (normal_json doc)"
    unfolding c by (simp add: loads_canonical_json_plain heartbeat_doc_def)
  with ok t have p: "p = normal_json doc" "db1 = db" by (simp_all add: prepare_heartbeat_def)
  show ?thesis
  proof (rule that)
    show "payload_int p ''sequence'' = Some n" unfolding p by (rule normal_heartbeat_doc [OF doc(1)])
    show "heartbeat_wf db1 \<and> heartbeat_pending db1 = Some (n, canonical_json p, h)"
      using wf Some m doc(2) unfolding p by (simp only: canonical_normal)
    show "n = heartbeat_acked db + 1" by (rule heartbeats.pending_next [OF wf Some [unfolded m]])
    show "pending_heartbeat_text db \<noteq> None \<longrightarrow> pending_heartbeat_text db = Some (canonical_json p)"
      using t doc(2) unfolding p by (simp add: canonical_normal)
    show "json_plain p" unfolding p using doc(1) by (simp add: heartbeat_doc_def json_plain_normal)
  qed (use sound p wf in simp_all)
next
  case None
  then have t: "pending_heartbeat_text db = None" using sound_pending_text [OF sound] by simp
  with ok obtain i r m where rt: "t_runtime db = Some r" and tabs: "t_identity db = Some i" "confirmed_manifest db = Some m"
    by (auto simp: prepare_heartbeat_def split: option.splits)
  define p0 where "p0 = heartbeat_json env (py_str (ai_agent_id i)) (rs_boot_id r) (rs_heartbeat_acked r + 1)
              (mr_manifest_id m) (py_str (mr_server_digest m))"
  have p: "p = p0" and st: "persist_heartbeat (sha256_hex c) (se_now env) (rs_heartbeat_acked r + 1) p db = (Inr (), db1)"
    using ok t rt tabs unfolding prepare_heartbeat_def
    by (simp_all add: Let_def flip: p0_def split: if_splits prod.splits sum.splits)
  let ?h = "digest (sha256_hex c) p"
  have wf: "heartbeat_wf db" using sound rt by (simp add: heartbeat_sound_def)
  have acked: "heartbeat_acked db = rs_heartbeat_acked r" using rt by (simp add: heartbeat_acked_def)
  have "ok_state (persist_heartbeat_text (se_now env) (heartbeat_acked db + 1) (canonical_json p, ?h) db) = Some db1"
    using st unfolding persist_heartbeat_def acked by simp
  from heartbeats.persist_next [OF wf None this]
  have n: "heartbeat_wf db1" "heartbeat_pending db1 = Some (heartbeat_acked db + 1, canonical_json p, ?h)"
    "heartbeat_acked db1 = heartbeat_acked db" by blast+
  have doc: "heartbeat_doc (heartbeat_acked db + 1) p" unfolding p p0_def acked by (rule heartbeat_json_doc)
  show ?thesis
  proof (rule that)
    show "payload_int p ''sequence'' = Some (heartbeat_acked db + 1)" using doc by (simp add: heartbeat_doc_def)
    show "heartbeat_wf db1 \<and> heartbeat_pending db1 = Some (heartbeat_acked db + 1, canonical_json p, ?h)" using n by blast
    show "heartbeat_sound db1" using n doc unfolding heartbeat_sound_def by auto
    show "json_plain p" using doc by (simp add: heartbeat_doc_def)
  qed (use wf n t in simp_all)
qed

lemma prepare_heartbeat_fails: "prepare_heartbeat c env db = (Inl e, db1) \<Longrightarrow> db1 = db"
  by (auto simp: prepare_heartbeat_def persist_heartbeat_def persist_heartbeat_text_def Let_def
      split: option.splits if_splits prod.splits sum.splits)

lemma send_cases:
  assumes sound: "heartbeat_sound db" and c: "json_loads c = loads norm"
    and send: "send_heartbeat c env server (db, w) = (r, (db', w'))"
  shows "heartbeat_sound db' \<and>
    (w' = w \<and> db' = db \<and> \<not> is_ok (r, db') \<and> (\<exists>e. prepare_heartbeat c env db = (Inl e, db)) \<or>
     (\<exists>p. json_plain p \<and> payload_int p ''sequence'' = Some (heartbeat_acked db + 1) \<and> w' = snd (server p w) \<and>
        (pending_heartbeat_text db \<noteq> None \<longrightarrow> pending_heartbeat_text db = Some (canonical_json p)) \<and>
        (is_ok (r, db') \<longleftrightarrow> fst (server p w) = Inr (heartbeat_acked db + 1)) \<and>
        (\<forall>e. fst (server p w) = Inl e \<longrightarrow> r = Inl e) \<and>
        (if is_ok (r, db') then heartbeat_acked db' = heartbeat_acked db + 1 \<and> pending_heartbeat_text db' = None
         else heartbeat_acked db' = heartbeat_acked db \<and> pending_heartbeat_text db' = Some (canonical_json p))))"
proof (cases "prepare_heartbeat c env db")
  case (Pair res db1)
  show ?thesis
  proof (cases res)
    case (Inl e)
    with Pair send show ?thesis
      using prepare_heartbeat_fails [of c env db e db1] sound by (auto simp: send_heartbeat_def)
  next
    case (Inr p)
    with Pair have prep: "prepare_heartbeat c env db = (Inr p, db1)" by simp
    obtain n h where p: "payload_int p ''sequence'' = Some n" "n = heartbeat_acked db + 1" "json_plain p"
      and p1: "heartbeat_wf db1" "heartbeat_pending db1 = Some (n, canonical_json p, h)"
        "heartbeat_acked db1 = heartbeat_acked db" "heartbeat_sound db1"
      and tx: "pending_heartbeat_text db \<noteq> None \<longrightarrow> pending_heartbeat_text db = Some (canonical_json p)"
      by (rule prepare_heartbeat_round [OF sound c prep]) blast
    have t1: "pending_heartbeat_text db1 = Some (canonical_json p)"
      using sound_pending_text [OF p1(4)] p1(2) by simp
    obtain db2 where d2: "ok_state (confirm_heartbeat (se_now env) n db1) = Some db2" "heartbeat_wf db2"
      "heartbeat_pending db2 = None" "heartbeat_acked db2 = n"
      using heartbeats.confirm_ok [OF p1(1,2), of "se_now env"] by blast
    from d2(1) have conf: "confirm_heartbeat (se_now env) n db1 = (Inr (), db2)"
      by (auto simp: ok_state_def split: prod.splits sum.splits)
    have s2: "heartbeat_sound db2" using d2 by (simp add: heartbeat_sound_def)
    have t2: "pending_heartbeat_text db2 = None" using sound_pending_text [OF s2] d2(3) by simp
    obtain a w1 where srv: "server p w = (a, w1)" by (cases "server p w")
    show ?thesis
    proof (cases "a = Inr n")
      case True
      with send prep p(1) conf srv have "r = Inr p" "db' = db2" "w' = w1"
        by (simp_all add: send_heartbeat_def)
      with s2 t2 d2 p tx srv True show ?thesis by auto
    next
      case False
      with send prep p(1) srv have "\<not> is_ok (r, db')" "db' = db1" "w' = w1" "\<forall>e. a = Inl e \<longrightarrow> r = Inl e"
        by (auto simp: send_heartbeat_def split: sum.splits if_splits)
      with p1 t1 p tx srv False show ?thesis by auto
    qed
  qed
qed

lemma send_round:
  assumes sound: "heartbeat_sound db" and c: "json_loads c = loads norm"
    and send: "send_heartbeat c env (logged answer) (db, []) = (r, (db', sent))"
  shows "heartbeat_sound db' \<and>
    (sent = [] \<and> db' = db \<and> \<not> is_ok (r, db') \<or>
     (\<exists>p. sent = [p] \<and> payload_int p ''sequence'' = Some (heartbeat_acked db + 1) \<and>
        (pending_heartbeat_text db \<noteq> None \<longrightarrow> pending_heartbeat_text db = Some (canonical_json p)) \<and>
        (if is_ok (r, db') then heartbeat_acked db' = heartbeat_acked db + 1 \<and> pending_heartbeat_text db' = None
         else heartbeat_acked db' = heartbeat_acked db \<and> pending_heartbeat_text db' = Some (canonical_json p))))"
  using send_cases [OF assms] unfolding logged_def fst_conv snd_conv append_Nil by blast

section \<open>The life of an agent\<close>

datatype heartbeat_event =
    Restart stamp uuid
  | Send session_env "json \<Rightarrow> py_error + int"

text \<open>The payloads that were sent, each with whether it was accepted, and the final database.\<close>

fun heartbeat_life :: "codec \<Rightarrow> heartbeat_event list \<Rightarrow> store \<Rightarrow> (json \<times> bool) list \<times> store" where
  "heartbeat_life c [] db = ([], db)"
| "heartbeat_life c (Restart now boot # es) db = heartbeat_life c es (start_runtime now boot db)"
| "heartbeat_life c (Send env answer # es) db =
     (case send_heartbeat c env (logged answer) (db, []) of
        (r, (db1, sent)) \<Rightarrow>
          (case heartbeat_life c es db1 of
             (log, db2) \<Rightarrow> (map (\<lambda>p. (p, is_ok (r, db1))) sent @ log, db2)))"

lemma sound_restart:
  assumes "heartbeat_sound db"
  shows "heartbeat_sound (start_runtime now boot db)"
  using assms start_runtime_heartbeats(3) [of db now boot] start_runtime_heartbeats(2) [of now boot db]
  by (auto simp: heartbeat_sound_def heartbeat_pending_def)

lemma pending_text_restart: "pending_heartbeat_text (start_runtime now boot db) = pending_heartbeat_text db"
  by (simp add: pending_heartbeat_text_def start_runtime_def split: option.split)

definition in_order :: "int \<Rightarrow> (json \<times> bool) list \<Rightarrow> bool" where
  "in_order acked log \<longleftrightarrow>
     (\<forall>i < length log. payload_int (fst (log ! i)) ''sequence'' = Some (acked + 1 + int (length (filter snd (take i log)))))
     \<and> (\<forall>i. Suc i < length log \<longrightarrow> \<not> snd (log ! i) \<longrightarrow>
          canonical_json (fst (log ! Suc i)) = canonical_json (fst (log ! i)))"

lemma in_order_Nil [simp]: "in_order a []"
  by (simp add: in_order_def)

lemma in_order_Cons:
  assumes "in_order (if ok then a + 1 else a) log" and "payload_int p ''sequence'' = Some (a + 1)"
    and "log \<noteq> [] \<Longrightarrow> \<not> ok \<Longrightarrow> canonical_json (fst (hd log)) = canonical_json p"
  shows "in_order a ((p, ok) # log)"
proof -
  have "payload_int (fst (((p, ok) # log) ! i)) ''sequence''
      = Some (a + 1 + int (length (filter snd (take i ((p, ok) # log)))))" if "i < length ((p, ok) # log)" for i
    using that assms(1,2) by (cases i) (auto simp: in_order_def)
  moreover have "canonical_json (fst (((p, ok) # log) ! Suc i)) = canonical_json (fst (((p, ok) # log) ! i))"
    if "Suc i < length ((p, ok) # log)" "\<not> snd (((p, ok) # log) ! i)" for i
    using that assms(1,3) by (cases i; cases log) (auto simp: in_order_def)
  ultimately show ?thesis unfolding in_order_def by blast
qed

lemma life_in_order:
  assumes c: "json_loads c = loads norm" and "heartbeat_sound db" and "heartbeat_life c events db = (log, db')"
  shows "in_order (heartbeat_acked db) log \<and> heartbeat_sound db'
    \<and> heartbeat_acked db' = heartbeat_acked db + int (length (filter snd log))
    \<and> (log \<noteq> [] \<longrightarrow> pending_heartbeat_text db \<noteq> None \<longrightarrow>
         pending_heartbeat_text db = Some (canonical_json (fst (hd log))))"
  using assms
proof (induction c events db arbitrary: log db' rule: heartbeat_life.induct)
  case (1 c db)
  then show ?case by simp
next
  case (2 c now boot es db)
  show ?case
    using 2(1) [OF 2(2) sound_restart [OF 2(3)]] 2(4)
    by (simp add: start_runtime_heartbeats(1) pending_text_restart)
next
  case (3 c env answer es db)
  obtain r db1 sent where send: "send_heartbeat c env (logged answer) (db, []) = (r, (db1, sent))"
    by (cases "send_heartbeat c env (logged answer) (db, [])") auto
  obtain rest where rest: "heartbeat_life c es db1 = (rest, db')"
    and log: "log = map (\<lambda>p. (p, is_ok (r, db1))) sent @ rest"
    using 3(4) send by (auto split: prod.splits)
  note round = send_round [OF 3(3) 3(2) send]
  have ih: "in_order (heartbeat_acked db1) rest \<and> heartbeat_sound db'
    \<and> heartbeat_acked db' = heartbeat_acked db1 + int (length (filter snd rest))
    \<and> (rest \<noteq> [] \<longrightarrow> pending_heartbeat_text db1 \<noteq> None \<longrightarrow>
         pending_heartbeat_text db1 = Some (canonical_json (fst (hd rest))))"
    using 3(1) [OF send [symmetric] refl 3(2) _ rest] round by blast
  from round consider "sent = []" "db1 = db" | p where "sent = [p]"
      "payload_int p ''sequence'' = Some (heartbeat_acked db + 1)"
      "pending_heartbeat_text db \<noteq> None \<longrightarrow> pending_heartbeat_text db = Some (canonical_json p)"
      "heartbeat_acked db1 = (if is_ok (r, db1) then heartbeat_acked db + 1 else heartbeat_acked db)"
      "\<not> is_ok (r, db1) \<Longrightarrow> pending_heartbeat_text db1 = Some (canonical_json p)"
    by (auto split: if_splits)
  then show ?case
  proof cases
    case 1
    with ih log show ?thesis by simp
  next
    case (2 p)
    have "in_order (heartbeat_acked db) ((p, is_ok (r, db1)) # rest)"
      by (rule in_order_Cons) (use ih 2 in auto)
    with ih 2 log show ?thesis by auto
  qed
qed

text \<open>C18: over the whole life of an agent, with any answers of the server, lost replies, crashes and
  restarts, the heartbeats are numbered without a gap: each carries the number after the last one
  that was accepted before it, and after a heartbeat that was not accepted exactly the same heartbeat
  is sent again.  The number the database has acknowledged is the number of the last accepted one.\<close>

theorem heartbeats_in_order:
  assumes "json_loads c = loads norm" and "heartbeat_sound db" and "heartbeat_life c events db = (log, db')"
  shows "(\<forall>i < length log. payload_int (fst (log ! i)) ''sequence''
      = Some (heartbeat_acked db + 1 + int (length (filter snd (take i log)))))
    \<and> (\<forall>i. Suc i < length log \<longrightarrow> \<not> snd (log ! i) \<longrightarrow>
      canonical_json (fst (log ! Suc i)) = canonical_json (fst (log ! i)))
    \<and> heartbeat_acked db' = heartbeat_acked db + int (length (filter snd log))"
  using life_in_order [OF assms] unfolding in_order_def by blast

definition demo_session :: session_env where
  "demo_session = \<lparr>se_version = ''0.1.0'', se_platform_id = ''linux'', se_platform_version = ''6'',
     se_capabilities = Inr [], se_contract_ok = (\<lambda>n j. True), se_clock_text = ''now'', se_now = ''n'',
     se_manifest_id = ''m1''\<rparr>"

definition demo_json_codec :: codec where
  "demo_json_codec = \<lparr>sha256_hex = (\<lambda>s. s), json_loads = loads id, validate_task = (\<lambda>j. None),
     dump_datetime = int_text, iso_format = int_text\<rparr>"

definition demo_runtime :: runtime_state where
  "demo_runtime = \<lparr>rs_boot_id = ''b1'', rs_heartbeat_acked = 6, rs_heartbeat_pending = None,
     rs_heartbeat_payload = None, rs_heartbeat_hash = None, rs_manifest_acked = 0, rs_clean_shutdown = False,
     rs_started_at = Some ''n'', rs_stopped_at = None, rs_updated_at = ''n''\<rparr>"

definition demo_manifest :: manifest_row where
  "demo_manifest = \<lparr>mr_manifest_id = ''m1'', mr_sequence = 0, mr_payload = ''{}'', mr_payload_hash = ''h'',
     mr_server_digest = Some (replicate 64 CHR ''0''), mr_confirmed = True, mr_created_at = ''n'', mr_confirmed_at = Some ''n''\<rparr>"

definition demo_agent :: agent_identity where
  "demo_agent = \<lparr>ai_installation_id = ''i1'', ai_display_name = ''d'', ai_platform = ''linux'',
     ai_platform_version = ''6'', ai_agent_version = ''0.1.0'', ai_device_id = Some ''d1'',
     ai_agent_id = Some ''a1'', ai_protocol_version = Some ''1.0.0'', ai_enrolled_at = Some ''n'',
     ai_revoked_at = None, ai_enrollment_key = ''k'', ai_enrollment_reported_at = ''n'',
     ai_active_id = Some ''c1'', ai_active_version = Some 1, ai_active_fingerprint = Some ''f'',
     ai_active_ref = Some ''r'', ai_active_expires_at = Some ''z'', ai_previous_id = None,
     ai_previous_ref = None, ai_pending_id = None, ai_pending_version = None, ai_pending_fingerprint = None,
     ai_pending_ref = None, ai_pending_expires_at = None, ai_rotation_id = None, ai_rotation_key = None,
     ai_activation_key = None, ai_rotation_state = Rot_None, ai_updated_at = ''n''\<rparr>"

definition demo_connected :: store where
  "demo_connected = empty_store\<lparr>t_identity := Some demo_agent, t_runtime := Some demo_runtime,
     t_manifests := [demo_manifest]\<rparr>"

lemma demo_connected_sound: "heartbeat_sound demo_connected"
  by (simp add: heartbeat_sound_def heartbeat_wf_def heartbeat_pending_def demo_connected_def demo_runtime_def)

lemma heartbeats_in_order_witness:
  "map (\<lambda>(p, ok). (payload_int p ''sequence'', ok))
     (fst (heartbeat_life demo_json_codec
        [Send demo_session (\<lambda>p. Inl Transport_Error), Restart ''n'' ''b2'', Send demo_session (\<lambda>p. Inr 7),
         Send demo_session (\<lambda>p. Inr 8)] demo_connected))
   = [(Some 7, False), (Some 7, True), (Some 8, True)] \<and>
   heartbeat_acked (snd (heartbeat_life demo_json_codec
        [Send demo_session (\<lambda>p. Inl Transport_Error), Restart ''n'' ''b2'', Send demo_session (\<lambda>p. Inr 7),
         Send demo_session (\<lambda>p. Inr 8)] demo_connected)) = 6 + 2"
proof -
  let ?life = "heartbeat_life demo_json_codec
        [Send demo_session (\<lambda>p. Inl Transport_Error), Restart ''n'' ''b2'', Send demo_session (\<lambda>p. Inr 7),
         Send demo_session (\<lambda>p. Inr 8)] demo_connected"
  have run: "map (\<lambda>(p, ok). (payload_int p ''sequence'', ok)) (fst ?life) = [(Some 7, False), (Some 7, True), (Some 8, True)]"
    by code_simp
  have codec: "json_loads demo_json_codec = loads id" by (simp add: demo_json_codec_def)
  have "heartbeat_acked (snd ?life) = heartbeat_acked demo_connected + int (length (filter snd (fst ?life)))"
    using heartbeats_in_order [OF codec demo_connected_sound prod.collapse [symmetric]] by blast
  moreover have "length (filter snd (fst ?life)) = 2"
  proof -
    have "map snd (map (\<lambda>(p, ok). (payload_int p ''sequence'', ok)) (fst ?life)) = [False, True, True]" unfolding run by simp
    then have "map snd (fst ?life) = [False, True, True]" by (simp add: case_prod_beta comp_def)
    then have "length (filter id (map snd (fst ?life))) = 2" by simp
    then show ?thesis by (simp add: filter_map comp_def)
  qed
  moreover have "heartbeat_acked demo_connected = 6" by (simp add: heartbeat_acked_def demo_connected_def demo_runtime_def)
  ultimately show ?thesis using run by simp
qed

end
