(* ===== verification/Ascii_Text.thy ===== *)
theory Ascii_Text
  imports Canonical_Json
begin

text \<open>
  What the programs use of Python's text: strict UTF-8, slices and lengths that count characters, and
  \<open>json.dumps\<close> with the default \<open>ensure_ascii=True\<close> (other characters become \<open>\u\<close> escapes, in surrogate
  pairs above the basic plane).  On documents whose strings are ASCII the rendering is the canonical one.
\<close>

section \<open>UTF-8\<close>

definition continuation :: "char \<Rightarrow> bool" where
  "continuation c \<longleftrightarrow> 128 \<le> (of_char c :: nat) \<and> (of_char c :: nat) < 192"

definition utf8_step :: "string \<Rightarrow> (nat \<times> string) option" where
  "utf8_step s =
     (case s of
        [] \<Rightarrow> None
      | c # s1 \<Rightarrow>
          let n = of_char c :: nat in
          if n < 128 then Some (n, s1)
          else if 194 \<le> n \<and> n < 224
          then (case s1 of
                  a # r \<Rightarrow> if continuation a then Some ((n - 192) * 64 + (of_char a - 128), r) else None
                | _ \<Rightarrow> None)
          else if 224 \<le> n \<and> n < 240
          then (case s1 of
                  a # b # r \<Rightarrow>
                    let m = ((n - 224) * 64 + (of_char a - 128)) * 64 + (of_char b - 128) in
                    if continuation a \<and> continuation b \<and> 2048 \<le> m \<and> \<not> (55296 \<le> m \<and> m \<le> 57343)
                    then Some (m, r) else None
                | _ \<Rightarrow> None)
          else if 240 \<le> n \<and> n < 245
          then (case s1 of
                  a # b # d # r \<Rightarrow>
                    let m = (((n - 240) * 64 + (of_char a - 128)) * 64 + (of_char b - 128)) * 64 + (of_char d - 128) in
                    if continuation a \<and> continuation b \<and> continuation d \<and> 65536 \<le> m \<and> m < 1114112
                    then Some (m, r) else None
                | _ \<Rightarrow> None)
          else None)"

lemma utf8_step_shorter: "utf8_step s = Some (n, r) \<Longrightarrow> length r < length s"
  by (auto simp: utf8_step_def Let_def split: list.splits if_splits)

function utf8_points :: "string \<Rightarrow> nat list option" where
  "utf8_points s =
     (if s = [] then Some []
      else case utf8_step s of
             None \<Rightarrow> None
           | Some (n, r) \<Rightarrow> map_option (Cons n) (utf8_points r))"
  by pat_completeness auto
termination by (relation "measure length") (auto dest: utf8_step_shorter)

declare utf8_points.simps [simp del]

lemma utf8_points_ascii: "\<forall>c \<in> set s. (of_char c :: nat) < 128 \<Longrightarrow> utf8_points s = Some (map of_char s)"
  by (induction s) (simp_all add: utf8_points.simps utf8_step_def)

section \<open>Rendering in ASCII\<close>

definition u_escape :: "nat \<Rightarrow> string" where
  "u_escape n = [CHR 0x5C, CHR ''u'', hex_digit (n div 4096), hex_digit (n div 256 mod 16),
     hex_digit (n div 16 mod 16), hex_digit (n mod 16)]"

definition ascii_point :: "nat \<Rightarrow> string" where
  "ascii_point n =
     (if n < 127 then escape_char (char_of n)
      else if n < 65536 then u_escape n
      else u_escape (55296 + (n - 65536) div 1024) @ u_escape (56320 + (n - 65536) mod 1024))"

text \<open>A Python string has a UTF-8 form; for other byte sequences, which are none, the bytes are the points.\<close>

definition ascii_string :: "string \<Rightarrow> string" where
  "ascii_string s =
     CHR 0x22 # concat (map ascii_point (case utf8_points s of None \<Rightarrow> map of_char s | Some ps \<Rightarrow> ps)) @ [CHR 0x22]"

definition ascii_object :: "(string \<times> string) list \<Rightarrow> string" where
  "ascii_object members =
     ''{'' @ join_text '','' (map (\<lambda>(k, v). ascii_string k @ '':'' @ v) members) @ ''}''"

primrec ascii_json :: "json \<Rightarrow> string" where
  "ascii_json JNull = ''null''"
| "ascii_json (JBool b) = (if b then ''true'' else ''false'')"
| "ascii_json (JInt i) = int_text i"
| "ascii_json (JFloat t) = t"
| "ascii_json (JStr s) = ascii_string s"
| "ascii_json (JArr vs) = ''['' @ join_text '','' (map ascii_json vs) @ '']''"
| "ascii_json (JObj kvs) = ascii_object (sort_key fst (map (map_prod id ascii_json) kvs))"

definition ascii_text :: "string \<Rightarrow> bool" where
  "ascii_text s \<longleftrightarrow> (\<forall>c \<in> set s. (of_char c :: nat) < 127)"

fun json_ascii :: "json \<Rightarrow> bool" where
  "json_ascii (JStr s) \<longleftrightarrow> ascii_text s"
| "json_ascii (JArr vs) \<longleftrightarrow> (\<forall>v \<in> set vs. json_ascii v)"
| "json_ascii (JObj kvs) \<longleftrightarrow> (\<forall>kv \<in> set kvs. ascii_text (fst kv) \<and> json_ascii (snd kv))"
| "json_ascii _ \<longleftrightarrow> True"

lemma ascii_string_text:
  assumes "ascii_text s"
  shows "ascii_string s = string_text s"
proof -
  have "utf8_points s = Some (map of_char s)"
    using assms by (intro utf8_points_ascii) (auto simp: ascii_text_def)
  moreover have "map (ascii_point \<circ> of_char) s = map escape_char s"
    using assms by (intro map_cong [OF refl]) (auto simp: ascii_text_def ascii_point_def)
  ultimately show ?thesis unfolding ascii_string_def string_text_def by (simp only: option.case list.map_comp)
qed

lemma ascii_canonical: "json_ascii j \<Longrightarrow> ascii_json j = canonical_json j"
proof (induction j)
  case (JStr s)
  then show ?case by (simp add: ascii_string_text)
next
  case (JArr vs)
  then have "map ascii_json vs = map canonical_json vs" by (intro map_cong [OF refl]) simp
  then show ?case by (simp only: ascii_json.simps canonical_json.simps)
next
  case (JObj kvs)
  have same: "map (map_prod id ascii_json) kvs = map (map_prod id canonical_json) kvs"
  proof (rule map_cong [OF refl])
    fix kv assume "kv \<in> set kvs"
    then have "json_ascii (snd kv)" "snd kv \<in> Basic_BNFs.snds kv" using JObj.prems by (auto simp: snds.simps)
    with JObj.IH [OF \<open>kv \<in> set kvs\<close>] show "map_prod id ascii_json kv = map_prod id canonical_json kv"
      by (cases kv) auto
  qed
  have "map (\<lambda>(k, v). ascii_string k @ '':'' @ v) (sort_key fst (map (map_prod id canonical_json) kvs))
      = map (\<lambda>(k, v). string_text k @ '':'' @ v) (sort_key fst (map (map_prod id canonical_json) kvs))"
    using JObj.prems by (intro map_cong [OF refl]) (auto simp: ascii_string_text)
  then show ?case by (simp only: ascii_json.simps canonical_json.simps ascii_object_def object_text_def same)
qed simp_all

section \<open>Characters of a text\<close>

text \<open>A text is kept as its UTF-8 bytes; a byte that starts no character counts for itself.\<close>

definition char_step :: "string \<Rightarrow> nat" where
  "char_step s = (case utf8_step s of None \<Rightarrow> 1 | Some (_, r) \<Rightarrow> length s - length r)"

fun take_chars :: "nat \<Rightarrow> string \<Rightarrow> string" where
  "take_chars 0 s = []"
| "take_chars (Suc n) s =
     (if s = [] then [] else take (char_step s) s @ take_chars n (drop (char_step s) s))"

lemma char_step_pos: "s \<noteq> [] \<Longrightarrow> 0 < char_step s"
  by (auto simp: char_step_def dest: utf8_step_shorter split: option.splits)

function char_count :: "string \<Rightarrow> nat" where
  "char_count s = (if s = [] then 0 else Suc (char_count (drop (char_step s) s)))"
  by pat_completeness auto
termination by (relation "measure length") (auto simp: char_step_pos)

declare char_count.simps [simp del]

lemma char_count_Nil [simp]: "char_count [] = 0"
  by (simp add: char_count.simps)

text \<open>The bytes that a character takes are determined by its first byte.\<close>

lemma utf8_step_cases:
  assumes "utf8_step s = Some (n, r)"
  obtains c where "s = c # r" "(of_char c :: nat) < 128"
  | c a where "s = c # a # r" "194 \<le> (of_char c :: nat)" "(of_char c :: nat) < 224"
  | c a b where "s = c # a # b # r" "224 \<le> (of_char c :: nat)" "(of_char c :: nat) < 240"
  | c a b d where "s = c # a # b # d # r" "240 \<le> (of_char c :: nat)" "(of_char c :: nat) < 245"
proof -
  from assms obtain c s1 where s: "s = c # s1" by (cases s) (auto simp: utf8_step_def)
  let ?n = "of_char c :: nat"
  consider "?n < 128" | "194 \<le> ?n" "?n < 224" | "224 \<le> ?n" "?n < 240" | "240 \<le> ?n" "?n < 245"
    using assms s by (auto simp: utf8_step_def Let_def split: if_splits)
  then show ?thesis
  proof cases
    case 1
    with assms s that(1) show ?thesis by (simp add: utf8_step_def)
  next
    case 2
    with assms s that(2) show ?thesis by (simp add: utf8_step_def split: list.splits if_splits)
  next
    case 3
    with assms s that(3) show ?thesis by (simp add: utf8_step_def Let_def split: list.splits if_splits)
  next
    case 4
    with assms s that(4) show ?thesis by (simp add: utf8_step_def Let_def split: list.splits if_splits)
  qed
qed

lemma utf8_step_split:
  assumes "utf8_step s = Some (n, r)"
  obtains p where "s = p @ r" "p \<noteq> []" "\<And>t. utf8_step (p @ t) = Some (n, t)"
  using assms
proof (cases rule: utf8_step_cases)
  case (1 c)
  with assms have "utf8_step ([c] @ t) = Some (n, t)" for t by (simp add: utf8_step_def)
  with 1 that [of "[c]"] show ?thesis by simp
next
  case (2 c a)
  with assms have "utf8_step ([c, a] @ t) = Some (n, t)" for t by (simp add: utf8_step_def split: if_splits)
  with 2 that [of "[c, a]"] show ?thesis by simp
next
  case (3 c a b)
  with assms have "utf8_step ([c, a, b] @ t) = Some (n, t)" for t by (simp add: utf8_step_def Let_def split: if_splits)
  with 3 that [of "[c, a, b]"] show ?thesis by simp
next
  case (4 c a b d)
  with assms have "utf8_step ([c, a, b, d] @ t) = Some (n, t)" for t by (simp add: utf8_step_def Let_def split: if_splits)
  with 4 that [of "[c, a, b, d]"] show ?thesis by simp
qed

lemma utf8_step_append: "utf8_step s = Some (n, r) \<Longrightarrow> utf8_step (s @ t) = Some (n, r @ t)"
  by (erule utf8_step_split) (metis append.assoc)

text \<open>A slice has at most the characters it asks for, all of them if there are fewer, and is a prefix.\<close>

lemma take_chars_prefix: "\<exists>t. s = take_chars n s @ t"
proof (induction n arbitrary: s)
  case (Suc n)
  obtain t where "drop (char_step s) s = take_chars n (drop (char_step s) s) @ t" using Suc by blast
  then have "s = take (char_step s) s @ take_chars n (drop (char_step s) s) @ t"
    by (metis append_take_drop_id)
  then show ?case by (metis append.assoc append_Nil take_chars.simps(2))
qed simp

lemma char_count_take: "char_count (take_chars n s) \<le> n"
proof (induction n arbitrary: s)
  case 0
  show ?case by simp
next
  case (Suc n)
  show ?case
  proof (cases "utf8_step s")
    case None
    show ?thesis
    proof (cases s)
      case Nil
      then show ?thesis by simp
    next
      case (Cons c r)
      obtain t where "r = take_chars n r @ t" using take_chars_prefix by blast
      then have "utf8_step (c # take_chars n r) = None"
        using None Cons utf8_step_append [of "c # take_chars n r" _ _ t] by (cases "utf8_step (c # take_chars n r)") auto
      then show ?thesis using Suc [of r] None Cons by (simp add: char_step_def char_count.simps [of "c # _"])
    qed
  next
    case (Some nr)
    then obtain m r where nr: "utf8_step s = Some (m, r)" by (cases nr) auto
    obtain p where p: "s = p @ r" "p \<noteq> []" "\<And>t. utf8_step (p @ t) = Some (m, t)"
      using utf8_step_split [OF nr] by blast
    have step: "char_step (p @ t) = length p" for t by (simp add: char_step_def p(3))
    have "take_chars (Suc n) s = p @ take_chars n r" using p(1,2) step by simp
    moreover have "char_count (p @ t) = Suc (char_count t)" for t
      using p(2) by (simp add: char_count.simps [of "p @ t"] step)
    ultimately show ?thesis using Suc [of r] by simp
  qed
qed

lemma char_step_ascii: "ascii_text (c # s) \<Longrightarrow> char_step (c # s) = 1"
  by (simp add: ascii_text_def char_step_def utf8_step_def)

lemma take_chars_ascii: "ascii_text s \<Longrightarrow> take_chars n s = take n s"
proof (induction n arbitrary: s)
  case (Suc n)
  then show ?case by (cases s) (auto simp: char_step_ascii ascii_text_def)
qed simp

end
