(* ===== verification/Backend_Schema.thy ===== *)
theory Backend_Schema
  imports Ascii_Text "HOL-Library.Sublist"
begin

text \<open>
  The backend's agent tables (\<open>domain/models.py\<close>), its repository (\<open>repositories/agents.py\<close>) and the
  audit log (\<open>audit.py\<close>).  Instants are microseconds.  A service operation reads and changes a
  session of the database; it is modelled as a function that returns the committed database: an
  exception raised before the commit leaves the database as it was.
\<close>

section \<open>Errors\<close>

datatype be_error =
    Invalid_Credentials_Error | Invalid_Session_Error | Permission_Denied_Error | Resource_Not_Found_Error
  | Conflict_Error | Last_Administrator_Error | Rate_Limited_Error | Dependency_Unavailable_Error
  | Agent_Authentication_Error | Protocol_Version_Error | Request_Clock_Skew_Error | Nonce_Replay_Error
  | Idempotency_Conflict_Error | Idempotency_In_Progress_Error | Secret_Replay_Expired_Error
  | Sequence_Conflict_Error | Enrollment_Failed_Error | Payload_Too_Large_Error | Agent_Rate_Limited_Error
  | Contract_Error | Request_Validation_Error | Db_Integrity_Error | Be_Value_Error

text \<open>The HTTP status and the code of the answer (\<open>services/errors.py\<close>, \<open>api/errors.py\<close>).\<close>

fun error_status :: "be_error \<Rightarrow> int" where
  "error_status Invalid_Credentials_Error = 401"
| "error_status Invalid_Session_Error = 401"
| "error_status Permission_Denied_Error = 403"
| "error_status Resource_Not_Found_Error = 404"
| "error_status Conflict_Error = 409"
| "error_status Last_Administrator_Error = 409"
| "error_status Rate_Limited_Error = 429"
| "error_status Dependency_Unavailable_Error = 503"
| "error_status Agent_Authentication_Error = 401"
| "error_status Protocol_Version_Error = 426"
| "error_status Request_Clock_Skew_Error = 401"
| "error_status Nonce_Replay_Error = 401"
| "error_status Idempotency_Conflict_Error = 409"
| "error_status Idempotency_In_Progress_Error = 409"
| "error_status Secret_Replay_Expired_Error = 409"
| "error_status Sequence_Conflict_Error = 409"
| "error_status Enrollment_Failed_Error = 401"
| "error_status Payload_Too_Large_Error = 413"
| "error_status Agent_Rate_Limited_Error = 429"
| "error_status Contract_Error = 422"
| "error_status Request_Validation_Error = 422"
| "error_status Db_Integrity_Error = 500"
| "error_status Be_Value_Error = 500"

fun error_code :: "be_error \<Rightarrow> string" where
  "error_code Invalid_Credentials_Error = ''invalid_credentials''"
| "error_code Invalid_Session_Error = ''invalid_session''"
| "error_code Permission_Denied_Error = ''permission_denied''"
| "error_code Resource_Not_Found_Error = ''resource_not_found''"
| "error_code Conflict_Error = ''resource_conflict''"
| "error_code Last_Administrator_Error = ''last_administrator_required''"
| "error_code Rate_Limited_Error = ''login_rate_limited''"
| "error_code Dependency_Unavailable_Error = ''dependency_unavailable''"
| "error_code Agent_Authentication_Error = ''agent_authentication_failed''"
| "error_code Protocol_Version_Error = ''protocol_version_unsupported''"
| "error_code Request_Clock_Skew_Error = ''request_clock_skew''"
| "error_code Nonce_Replay_Error = ''agent_authentication_failed''"
| "error_code Idempotency_Conflict_Error = ''idempotency_key_reused''"
| "error_code Idempotency_In_Progress_Error = ''idempotency_in_progress''"
| "error_code Secret_Replay_Expired_Error = ''secret_replay_expired''"
| "error_code Sequence_Conflict_Error = ''sequence_conflict''"
| "error_code Enrollment_Failed_Error = ''enrollment_failed''"
| "error_code Payload_Too_Large_Error = ''payload_too_large''"
| "error_code Agent_Rate_Limited_Error = ''agent_rate_limited''"
| "error_code Contract_Error = ''contract_validation_failed''"
| "error_code Request_Validation_Error = ''request_validation_failed''"
| "error_code Db_Integrity_Error = ''internal_error''"
| "error_code Be_Value_Error = ''internal_error''"

section \<open>Tables\<close>

record agent_row =
  ag_id :: uuid
  ag_device :: "uuid option"
  ag_display_name :: string
  ag_installation :: "uuid option"
  ag_is_active :: bool
  ag_disabled_at :: "instant option"
  ag_revoked_at :: "instant option"
  ag_revoked_by :: "uuid option"
  ag_revocation_reason :: "string option"
  ag_last_seen :: "instant option"

datatype cred_state = Cred_Pending | Cred_Active | Cred_Revoked | Cred_Expired

record credential_row =
  ac_id :: uuid
  ac_agent :: uuid
  ac_version :: int
  ac_digest :: string
  ac_state :: cred_state
  ac_issued_at :: instant
  ac_activated_at :: "instant option"
  ac_expires_at :: instant
  ac_revoked_at :: "instant option"
  ac_revoked_by :: "uuid option"
  ac_reason :: "string option"

datatype rot_state = Ro_Pending | Ro_Activated | Ro_Expired | Ro_Revoked

record rotation_row =
  ro_id :: uuid
  ro_agent :: uuid
  ro_previous :: uuid
  ro_pending :: uuid
  ro_state :: rot_state
  ro_created_at :: instant
  ro_expires_at :: instant
  ro_activated_at :: "instant option"

record token_row =
  et_id :: uuid
  et_digest :: string
  et_scope :: string
  et_max_uses :: int
  et_uses_consumed :: int
  et_allowed_platforms :: "string list"
  et_bound_agent :: "uuid option"
  et_created_by :: uuid
  et_created_at :: instant
  et_expires_at :: instant
  et_consumed_at :: "instant option"
  et_revoked_at :: "instant option"
  et_revoked_by :: "uuid option"
  et_revocation_reason :: "string option"

text \<open>What the agent operations answer; the body an idempotency record keeps.\<close>

record issued_credential =
  ic_id :: uuid
  ic_version :: int
  ic_value :: string
  ic_issued_at :: instant
  ic_expires_at :: instant

datatype api_response =
    Rotation_Created uuid instant issued_credential
  | Rotation_Activated uuid uuid int instant
  | Registered uuid uuid instant issued_credential

datatype idem_state = Idem_Pending | Idem_Completed | Idem_Failed

record idem_row =
  id_id :: uuid
  id_principal_type :: string
  id_principal_id :: uuid
  id_operation :: string
  id_key :: uuid
  id_fingerprint :: string
  id_state :: idem_state
  id_status :: "int option"
  id_body :: "api_response option option"
  id_created_at :: instant
  id_updated_at :: instant
  id_expires_at :: instant

record replay_row =
  sr_record :: uuid
  sr_ciphertext :: string
  sr_expires_at :: instant

record server_manifest =
  sm_id :: uuid
  sm_agent :: uuid
  sm_sequence :: int
  sm_digest :: string
  sm_received_at :: instant
  sm_document :: json

record presence_row =
  ap_agent :: uuid
  ap_kind :: string
  ap_boot_id :: uuid
  ap_sequence :: int
  ap_digest :: string
  ap_reported_at :: instant
  ap_received_at :: instant
  ap_expires_at :: instant
  ap_manifest :: uuid

record audit_row =
  au_actor_type :: string
  au_actor_id :: "uuid option"
  au_actor_agent :: "uuid option"
  au_action :: string
  au_resource_type :: string
  au_resource_id :: "uuid option"
  au_outcome :: string
  au_occurred_at :: instant
  au_metadata :: "(string \<times> json) list"

record backend =
  b_devices :: "uuid list"
  b_agents :: "agent_row list"
  b_credentials :: "credential_row list"
  b_rotations :: "rotation_row list"
  b_tokens :: "token_row list"
  b_idempotency :: "idem_row list"
  b_replays :: "replay_row list"
  b_manifests :: "server_manifest list"
  b_presences :: "presence_row list"
  b_audit :: "audit_row list"

type_synonym 'a be_outcome = "(be_error + 'a) \<times> backend"

definition empty_backend :: backend where
  "empty_backend = \<lparr>b_devices = [], b_agents = [], b_credentials = [], b_rotations = [], b_tokens = [],
     b_idempotency = [], b_replays = [], b_manifests = [], b_presences = [], b_audit = []\<rparr>"

section \<open>The repository\<close>

definition repo_agent :: "backend \<Rightarrow> uuid \<Rightarrow> agent_row option" where
  "repo_agent b a = find (\<lambda>r. ag_id r = a) (b_agents b)"

definition repo_agent_by_installation :: "backend \<Rightarrow> uuid \<Rightarrow> agent_row option" where
  "repo_agent_by_installation b i = find (\<lambda>r. ag_installation r = Some i) (b_agents b)"

definition repo_enrollment_token :: "backend \<Rightarrow> uuid \<Rightarrow> token_row option" where
  "repo_enrollment_token b t = find (\<lambda>r. et_id r = t) (b_tokens b)"

definition repo_credential :: "backend \<Rightarrow> uuid \<Rightarrow> credential_row option" where
  "repo_credential b c = find (\<lambda>r. ac_id r = c) (b_credentials b)"

definition repo_active_credential :: "backend \<Rightarrow> uuid \<Rightarrow> credential_row option" where
  "repo_active_credential b a = find (\<lambda>r. ac_agent r = a \<and> ac_state r = Cred_Active) (b_credentials b)"

definition repo_pending_rotation :: "backend \<Rightarrow> uuid \<Rightarrow> rotation_row option" where
  "repo_pending_rotation b a = find (\<lambda>r. ro_agent r = a \<and> ro_state r = Ro_Pending) (b_rotations b)"

definition repo_rotation :: "backend \<Rightarrow> uuid \<Rightarrow> rotation_row option" where
  "repo_rotation b r = find (\<lambda>x. ro_id x = r) (b_rotations b)"

definition repo_idempotency :: "backend \<Rightarrow> string \<Rightarrow> uuid \<Rightarrow> string \<Rightarrow> uuid \<Rightarrow> idem_row option" where
  "repo_idempotency b ptype pid op k =
     find (\<lambda>r. id_principal_type r = ptype \<and> id_principal_id r = pid \<and> id_operation r = op \<and> id_key r = k)
       (b_idempotency b)"

definition repo_secret_replay :: "backend \<Rightarrow> uuid \<Rightarrow> replay_row option" where
  "repo_secret_replay b rid = find (\<lambda>r. sr_record r = rid) (b_replays b)"

definition repo_manifest :: "backend \<Rightarrow> uuid \<Rightarrow> uuid \<Rightarrow> server_manifest option" where
  "repo_manifest b a m = find (\<lambda>r. sm_agent r = a \<and> sm_id r = m) (b_manifests b)"

definition repo_presence :: "backend \<Rightarrow> uuid \<Rightarrow> presence_row option" where
  "repo_presence b a = find (\<lambda>r. ap_agent r = a) (b_presences b)"

section \<open>Audit\<close>

definition SAFE_METADATA_KEYS :: "string list" where
  "SAFE_METADATA_KEYS =
     [''identifier_fingerprint'', ''ip_fingerprint'', ''session_id'', ''role_key'', ''reason_code'',
      ''changed_fields'', ''created_count'', ''updated_count'', ''already_exists'', ''agent_id'',
      ''credential_id'', ''credential_version'', ''enrollment_token_id'', ''installation_id'',
      ''manifest_id'', ''operation_id'', ''protocol_version'', ''rotation_id'', ''scope'']"

definition FORBIDDEN_FRAGMENTS :: "string list" where
  "FORBIDDEN_FRAGMENTS =
     [''password'', ''token'', ''cookie'', ''authorization'', ''secret'', ''hash'', ''digest'', ''dsn'']"

definition lower_char :: "char \<Rightarrow> char" where
  "lower_char c = (if 65 \<le> (of_char c :: nat) \<and> (of_char c :: nat) \<le> 90 then char_of (of_char c + 32 :: nat) else c)"

definition lower :: "string \<Rightarrow> string" where
  "lower s = map lower_char s"

definition forbidden_key :: "string \<Rightarrow> bool" where
  "forbidden_key k \<longleftrightarrow> (\<exists>f \<in> set FORBIDDEN_FRAGMENTS. sublist f (lower k))"

text \<open>
  The value kept for a key, if any.  \<open>str(item)\<close> of a list element that is a string is the string; of
  a nested list or dict, which no caller passes, it is not modelled and the rendering stands for it.
\<close>

fun item_text :: "json \<Rightarrow> string" where
  "item_text (JStr s) = s"
| "item_text (JBool b) = (if b then ''True'' else ''False'')"
| "item_text JNull = ''None''"
| "item_text j = canonical_json j"

definition safe_value :: "string \<Rightarrow> json \<Rightarrow> json option" where
  "safe_value k v =
     (case v of
        JStr s \<Rightarrow> Some (JStr (take_chars 256 s))
      | JInt i \<Rightarrow> Some (JInt i)
      | JBool x \<Rightarrow> Some (JBool x)
      | JNull \<Rightarrow> Some JNull
      | JArr items \<Rightarrow>
          if k = ''changed_fields'' then Some (JArr (map (\<lambda>i. JStr (take_chars 64 (item_text i))) (take 20 items)))
          else None
      | _ \<Rightarrow> None)"

text \<open>\<open>json.dumps(safe, separators=(",", ":"))\<close>: ASCII, the members in the order of the dict.\<close>

definition metadata_text :: "(string \<times> json) list \<Rightarrow> string" where
  "metadata_text safe = ascii_object (map (map_prod id ascii_json) safe)"

definition sanitize_metadata :: "(string \<times> json) list \<Rightarrow> (string \<times> json) list" where
  "sanitize_metadata metadata =
     (let safe = List.map_filter
            (\<lambda>(k, v). if k \<notin> set SAFE_METADATA_KEYS \<or> forbidden_key k \<and> k \<noteq> ''enrollment_token_id'' then None
                      else map_option (\<lambda>x. (k, x)) (safe_value k v)) metadata
      in if 12000 < length (metadata_text safe) then [] else safe)"

definition write_audit ::
  "instant \<Rightarrow> string \<Rightarrow> uuid option \<Rightarrow> uuid option \<Rightarrow> string \<Rightarrow> string \<Rightarrow> uuid option \<Rightarrow> string \<Rightarrow>
   (string \<times> json) list \<Rightarrow> backend \<Rightarrow> backend" where
  "write_audit now actor_type actor_id actor_agent action resource_type resource_id outcome metadata b =
     b\<lparr>b_audit := b_audit b @ [\<lparr>au_actor_type = actor_type, au_actor_id = actor_id, au_actor_agent = actor_agent,
         au_action = action, au_resource_type = resource_type, au_resource_id = resource_id,
         au_outcome = outcome, au_occurred_at = now, au_metadata = sanitize_metadata metadata\<rparr>]\<rparr>"

lemma write_audit_tables [simp]:
  "b_devices (write_audit n t i g a rt ri out m b) = b_devices b"
  "b_agents (write_audit n t i g a rt ri out m b) = b_agents b"
  "b_credentials (write_audit n t i g a rt ri out m b) = b_credentials b"
  "b_rotations (write_audit n t i g a rt ri out m b) = b_rotations b"
  "b_tokens (write_audit n t i g a rt ri out m b) = b_tokens b"
  "b_idempotency (write_audit n t i g a rt ri out m b) = b_idempotency b"
  "b_replays (write_audit n t i g a rt ri out m b) = b_replays b"
  "b_manifests (write_audit n t i g a rt ri out m b) = b_manifests b"
  "b_presences (write_audit n t i g a rt ri out m b) = b_presences b"
  by (simp_all add: write_audit_def)

text \<open>C16: the metadata of an audit record is confined: every key is on the fixed list, and the only key with
  a forbidden fragment is the identifier of an enrolment token; a text has at most 256 characters; a list
  stands under \<open>changed_fields\<close> only, has at most 20 elements, all of them texts of at most 64 characters;
  objects and floats are dropped; and the whole, rendered in ASCII, has at most 12000 bytes.\<close>

theorem audit_metadata_is_safe:
  "length (metadata_text (sanitize_metadata metadata)) \<le> 12000
   \<and> (\<forall>k v. (k, v) \<in> set (sanitize_metadata metadata) \<longrightarrow>
        k \<in> set SAFE_METADATA_KEYS \<and> (forbidden_key k \<longrightarrow> k = ''enrollment_token_id'')
        \<and> (case v of
              JStr s \<Rightarrow> char_count s \<le> 256
            | JArr items \<Rightarrow> k = ''changed_fields'' \<and> length items \<le> 20
                \<and> (\<forall>item \<in> set items. \<exists>s. item = JStr s \<and> char_count s \<le> 64)
            | JObj _ \<Rightarrow> False | JFloat _ \<Rightarrow> False | _ \<Rightarrow> True))"
proof (intro conjI allI impI)
  have "metadata_text [] = ''{}''" by (simp add: metadata_text_def ascii_object_def)
  then show "length (metadata_text (sanitize_metadata metadata)) \<le> 12000"
    by (auto simp: sanitize_metadata_def Let_def)
next
  fix k v assume "(k, v) \<in> set (sanitize_metadata metadata)"
  then obtain v0 where k: "k \<in> set SAFE_METADATA_KEYS" "forbidden_key k \<longrightarrow> k = ''enrollment_token_id''"
    and v: "safe_value k v0 = Some v"
    by (auto simp: sanitize_metadata_def Let_def List.map_filter_def split: if_splits option.splits)
  show "k \<in> set SAFE_METADATA_KEYS" by (rule k(1))
  show "k = ''enrollment_token_id''" if "forbidden_key k" using k(2) that by blast
  show "case v of
              JStr s \<Rightarrow> char_count s \<le> 256
            | JArr items \<Rightarrow> k = ''changed_fields'' \<and> length items \<le> 20
                \<and> (\<forall>item \<in> set items. \<exists>s. item = JStr s \<and> char_count s \<le> 64)
            | JObj _ \<Rightarrow> False | JFloat _ \<Rightarrow> False | _ \<Rightarrow> True"
    using v char_count_take by (cases v0) (auto simp: safe_value_def simp del: take_chars.simps split: if_splits)
qed

lemma audit_metadata_is_safe_witness:
  "\<exists>v. (''agent_id'', v) \<in> set (sanitize_metadata [(''agent_id'', JStr ''a1''), (''password'', JStr ''p'')])
    \<and> ''agent_id'' \<in> set SAFE_METADATA_KEYS
    \<and> length (metadata_text (sanitize_metadata [(''agent_id'', JStr ''a1''), (''password'', JStr ''p'')])) \<le> 12000"
proof -
  have "(''agent_id'', JStr ''a1'') \<in> set (sanitize_metadata [(''agent_id'', JStr ''a1''), (''password'', JStr ''p'')])"
    by code_simp
  with audit_metadata_is_safe [of "[(''agent_id'', JStr ''a1''), (''password'', JStr ''p'')]"] show ?thesis by blast
qed

end
