(* ===== verification/Http_Transport.thy ===== *)
theory Http_Transport
  imports Backend_Schema
begin

text \<open>
  The HTTP boundary between the agent and the backend: the answer of the backend to an exception
  (\<open>api/errors.py\<close>) and what the agent makes of an answer
  (\<open>infrastructure/http_transport.py\<close>).  The body of an answer is its JSON document, \<open>None\<close> when it
  is not JSON.
\<close>

datatype http_reply = No_Reply | Reply int "json option"

definition error_response :: "string \<Rightarrow> string \<Rightarrow> be_error \<Rightarrow> http_reply" where
  "error_response correlation_id message e =
     Reply (error_status e)
       (Some (JObj [(''schema_version'', JStr ''1.0.0''),
          (''error'', JObj [(''code'', JStr (error_code e)), (''message'', JStr message), (''details'', JNull),
                            (''correlation_id'', JStr correlation_id)])]))"

text \<open>\<open>str(response.json().get("error", {}).get("code", ""))\<close>: only an unreadable body is caught.\<close>

definition reply_code :: "json option \<Rightarrow> py_error + string" where
  "reply_code body =
     (case body of
        None \<Rightarrow> Inr []
      | Some (JObj members) \<Rightarrow>
          (case map_of members ''error'' of
             None \<Rightarrow> Inr []
           | Some (JObj err) \<Rightarrow>
               (case map_of err ''code'' of None \<Rightarrow> Inr [] | Some (JStr s) \<Rightarrow> Inr s | Some v \<Rightarrow> Inr (canonical_json v))
           | Some _ \<Rightarrow> Inl Attribute_Error)
      | Some _ \<Rightarrow> Inl Attribute_Error)"

definition reply_body :: "int \<Rightarrow> json option \<Rightarrow> py_error + json" where
  "reply_body status body =
     (if 400 \<le> status \<and> status \<le> 599 then Inl Transport_Error
      else if status = 204 then Inr (JObj [])
      else (case body of Some (JObj members) \<Rightarrow> Inr (JObj members) | _ \<Rightarrow> Inl Transport_Error))"

definition transport_request :: "http_reply \<Rightarrow> py_error + json" where
  "transport_request reply =
     (case reply of
        No_Reply \<Rightarrow> Inl Transport_Error
      | Reply status body \<Rightarrow>
          if status = 401
          then (case reply_code body of
                  Inl e \<Rightarrow> Inl e
                | Inr code \<Rightarrow> if code = ''agent_authentication_failed'' then Inl Agent_Authentication_Failed
                              else reply_body status body)
          else reply_body status body)"

lemma error_status_is_error: "400 \<le> error_status e \<and> error_status e \<le> 599"
  by (cases e) simp_all

lemma error_code_authentication:
  "error_code e = ''agent_authentication_failed'' \<longleftrightarrow> e \<in> {Agent_Authentication_Error, Nonce_Replay_Error}"
  by (cases e) simp_all

lemma error_status_authentication:
  "error_code e = ''agent_authentication_failed'' \<Longrightarrow> error_status e = 401"
  by (cases e) simp_all

lemma transport_of_error:
  "transport_request (error_response cid message e) =
     Inl (if e \<in> {Agent_Authentication_Error, Nonce_Replay_Error} then Agent_Authentication_Failed else Transport_Error)"
  using error_status_is_error [of e] error_code_authentication [of e] error_status_authentication [of e]
  by (auto simp: transport_request_def error_response_def reply_code_def reply_body_def)

end
