(* ===== verification/Backend_Protocol.thy ===== *)
theory Backend_Protocol
  imports Http_Transport
begin

text \<open>
  \<open>services/agent_protocol.py\<close> of the backend: the publication of a capability manifest and the
  presence of an agent.  The clock, the hash, the contract validation and the settings are the
  surroundings \<open>be_env\<close>; a digest is kept as its hexadecimal text.  Identifiers are their canonical
  text.  Every operation commits once, at its end.
\<close>

section \<open>Surroundings\<close>

record be_env =
  be_now :: instant
  be_sha :: "string \<Rightarrow> string"
  be_contract_ok :: "string \<Rightarrow> json \<Rightarrow> bool"
  be_clock_skew_seconds :: int
  be_credential_days :: int
  be_fresh :: "string \<Rightarrow> uuid"
  be_correlation :: string

definition seconds :: "int \<Rightarrow> int" where
  "seconds n = n * 1000000"

definition minutes :: "int \<Rightarrow> int" where
  "minutes n = seconds (60 * n)"

definition days :: "int \<Rightarrow> int" where
  "days n = seconds (86400 * n)"

definition clock_skewed :: "be_env \<Rightarrow> instant \<Rightarrow> bool" where
  "clock_skewed env reported \<longleftrightarrow> seconds (be_clock_skew_seconds env) < \<bar>be_now env - reported\<bar>"

section \<open>The capability manifest\<close>

record manifest_response =
  mp_manifest_id :: uuid
  mp_manifest_digest :: string
  mp_received_at :: instant

definition audit_incompatibility :: "be_env \<Rightarrow> uuid \<Rightarrow> string \<Rightarrow> backend \<Rightarrow> backend" where
  "audit_incompatibility env agent_id reason_code b =
     write_audit (be_now env) ''agent'' None (Some agent_id) ''agent_protocol.incompatible'' ''agent'' (Some agent_id)
       ''denied'' [(''agent_id'', JStr agent_id), (''reason_code'', JStr reason_code)] b"

text \<open>The primary key of a manifest is unique over all agents; the pair of agent and number is, too.\<close>

definition add_manifest :: "server_manifest \<Rightarrow> backend \<Rightarrow> backend option" where
  "add_manifest m b =
     (if sm_id m \<in> sm_id ` set (b_manifests b)
         \<or> (sm_agent m, sm_sequence m) \<in> (\<lambda>x. (sm_agent x, sm_sequence x)) ` set (b_manifests b)
      then None else Some (b\<lparr>b_manifests := b_manifests b @ [m]\<rparr>))"

definition publish_manifest :: "be_env \<Rightarrow> uuid \<Rightarrow> json \<Rightarrow> backend \<Rightarrow> manifest_response be_outcome" where
  "publish_manifest env agent_id document b =
     (if \<not> be_contract_ok env ''capability-manifest.schema.json'' document
      then (Inl Contract_Error, audit_incompatibility env agent_id ''manifest_schema_invalid'' b)
      else if json_get document ''agent_id'' \<noteq> Some (JStr agent_id) then (Inl Agent_Authentication_Error, b)
      else if json_get document ''capability_catalog_version'' \<noteq> Some (JStr ''1.0.0'')
      then (Inl Protocol_Version_Error, audit_incompatibility env agent_id ''capability_catalog_incompatible'' b)
      else
        (case (json_get document ''manifest_id'', json_get document ''manifest_sequence'') of
           (Some (JStr manifest_id), Some (JInt sequence)) \<Rightarrow>
             (let digest = digest (be_sha env) document
              in case find (\<lambda>m. sm_agent m = agent_id \<and> sm_sequence m = sequence) (b_manifests b) of
                   Some existing \<Rightarrow>
                     if sm_digest existing \<noteq> digest \<or> sm_id existing \<noteq> manifest_id
                     then (Inl Sequence_Conflict_Error, b)
                     else (Inr \<lparr>mp_manifest_id = sm_id existing, mp_manifest_digest = sm_digest existing,
                                mp_received_at = sm_received_at existing\<rparr>, b)
                 | None \<Rightarrow>
                     (case add_manifest \<lparr>sm_id = manifest_id, sm_agent = agent_id, sm_sequence = sequence,
                              sm_digest = digest, sm_received_at = be_now env, sm_document = document\<rparr> b of
                        None \<Rightarrow> (Inl Db_Integrity_Error, b)
                      | Some b' \<Rightarrow>
                          (Inr \<lparr>mp_manifest_id = manifest_id, mp_manifest_digest = digest,
                                mp_received_at = be_now env\<rparr>, b')))
         | _ \<Rightarrow> (Inl Be_Value_Error, b)))"

section \<open>Presence\<close>

text \<open>The validated request: the document \<open>model_dump\<close> gives and its typed fields.\<close>

record presence_request =
  pq_payload :: json
  pq_boot_id :: uuid
  pq_sequence :: int
  pq_reported_at :: instant
  pq_manifest_id :: uuid
  pq_manifest_digest :: string

record presence_response =
  pp_accepted_sequence :: int
  pp_received_at :: instant
  pp_expires_at :: instant
  pp_poll_after :: int

definition put_presence :: "presence_row \<Rightarrow> backend \<Rightarrow> backend" where
  "put_presence row b =
     (if repo_presence b (ap_agent row) = None then b\<lparr>b_presences := b_presences b @ [row]\<rparr>
      else b\<lparr>b_presences := upd_where (\<lambda>r. ap_agent r = ap_agent row) (\<lambda>_. row) (b_presences b)\<rparr>)"

definition touch_agent :: "uuid \<Rightarrow> instant \<Rightarrow> backend \<Rightarrow> backend" where
  "touch_agent agent_id now b =
     b\<lparr>b_agents := upd_where (\<lambda>r. ag_id r = agent_id) (\<lambda>r. r\<lparr>ag_last_seen := Some now\<rparr>) (b_agents b)\<rparr>"

definition agent_usable :: "backend \<Rightarrow> uuid \<Rightarrow> bool" where
  "agent_usable b agent_id \<longleftrightarrow>
     (case repo_agent b agent_id of None \<Rightarrow> False | Some a \<Rightarrow> ag_revoked_at a = None \<and> ag_is_active a)"

definition presence ::
  "be_env \<Rightarrow> uuid \<Rightarrow> string \<Rightarrow> presence_request \<Rightarrow> int \<Rightarrow> int \<Rightarrow> backend \<Rightarrow> presence_response be_outcome" where
  "presence env agent_id kind q ttl poll_after b =
     (if json_get (pq_payload q) ''agent_id'' \<noteq> Some (JStr agent_id) then (Inl Agent_Authentication_Error, b)
      else if clock_skewed env (pq_reported_at q) then (Inl Request_Clock_Skew_Error, b)
      else if (case repo_manifest b agent_id (pq_manifest_id q) of
                 None \<Rightarrow> True | Some m \<Rightarrow> sm_digest m \<noteq> pq_manifest_digest q)
      then (Inl Conflict_Error, b)
      else
        (let digest = digest (be_sha env) (pq_payload q); now = be_now env; expires = now + seconds ttl;
             fresh = (\<lambda>_. if \<not> agent_usable b agent_id then (Inl Agent_Authentication_Error, b)
                      else (Inr \<lparr>pp_accepted_sequence = pq_sequence q, pp_received_at = now,
                                 pp_expires_at = expires, pp_poll_after = poll_after\<rparr>,
                            touch_agent agent_id now
                              (put_presence \<lparr>ap_agent = agent_id, ap_kind = kind, ap_boot_id = pq_boot_id q,
                                 ap_sequence = pq_sequence q, ap_digest = digest, ap_reported_at = pq_reported_at q,
                                 ap_received_at = now, ap_expires_at = expires,
                                 ap_manifest = pq_manifest_id q\<rparr> b)))
         in case repo_presence b agent_id of
              None \<Rightarrow> fresh ()
            | Some p \<Rightarrow>
                if ap_boot_id p \<noteq> pq_boot_id q then fresh ()
                else if pq_sequence q < ap_sequence p then (Inl Sequence_Conflict_Error, b)
                else if pq_sequence q = ap_sequence p
                then if digest \<noteq> ap_digest p then (Inl Sequence_Conflict_Error, b)
                     else (Inr \<lparr>pp_accepted_sequence = ap_sequence p, pp_received_at = ap_received_at p,
                                pp_expires_at = ap_expires_at p, pp_poll_after = poll_after\<rparr>, b)
                else fresh ()))"

definition heartbeat :: "be_env \<Rightarrow> uuid \<Rightarrow> presence_request \<Rightarrow> backend \<Rightarrow> presence_response be_outcome" where
  "heartbeat env agent_id q b =
     (if \<not> be_contract_ok env ''desktop-heartbeat.schema.json'' (pq_payload q) then (Inl Contract_Error, b)
      else presence env agent_id ''desktop'' q 90 30 b)"

definition mobile_presence :: "be_env \<Rightarrow> uuid \<Rightarrow> presence_request \<Rightarrow> backend \<Rightarrow> presence_response be_outcome" where
  "mobile_presence env agent_id q b =
     (if \<not> be_contract_ok env ''mobile-presence.schema.json'' (pq_payload q) then (Inl Contract_Error, b)
      else presence env agent_id ''mobile'' q 120 60 b)"

section \<open>The request model\<close>

text \<open>
  \<open>DesktopHeartbeatRequest\<close> (\<open>api/agent_schemas.py\<close>): every field is required, no other is allowed;
  \<open>iso_parse\<close> and \<open>iso_dump\<close> are the reading and the rendering of a \<open>datetime\<close>, the pattern of the
  digest and the two closed sets of values are checked here, the form of identifiers is not.
\<close>

definition HEARTBEAT_FIELDS :: "string list" where
  "HEARTBEAT_FIELDS = [''schema_version'', ''agent_id'', ''boot_id'', ''sequence'', ''agent_version'',
     ''protocol_version'', ''agent_reported_at'', ''readiness'', ''reason'', ''manifest_id'', ''manifest_digest'']"

definition is_hex_digest :: "string \<Rightarrow> bool" where
  "is_hex_digest s \<longleftrightarrow> length s = 64 \<and> (\<forall>c \<in> set s. c \<in> set ''0123456789abcdef'')"

definition str_of :: "json option \<Rightarrow> string option" where
  "str_of v = (case v of Some (JStr s) \<Rightarrow> Some s | _ \<Rightarrow> None)"

definition int_of :: "json option \<Rightarrow> int option" where
  "int_of v = (case v of Some (JInt i) \<Rightarrow> Some i | _ \<Rightarrow> None)"

definition request_of ::
  "(string \<Rightarrow> instant option) \<Rightarrow> (instant \<Rightarrow> string) \<Rightarrow> (string \<Rightarrow> json option) \<Rightarrow> presence_request option" where
  "request_of iso_parse iso_dump field =
     (case (str_of (field ''schema_version''), str_of (field ''protocol_version''), str_of (field ''readiness''),
            str_of (field ''agent_id''), str_of (field ''boot_id''), int_of (field ''sequence''),
            str_of (field ''agent_version''), str_of (field ''agent_reported_at''), field ''reason'',
            str_of (field ''manifest_id''), str_of (field ''manifest_digest'')) of
        (Some schema, Some protocol, Some readiness, Some agent_id, Some boot_id, Some sequence, Some version,
         Some reported, Some why, Some manifest_id, Some dg) \<Rightarrow>
          (case iso_parse reported of
             None \<Rightarrow> None
           | Some t \<Rightarrow>
               if schema \<noteq> ''1.0.0'' \<or> protocol \<noteq> ''1.0.0'' \<or> readiness \<notin> {''ready'', ''degraded'', ''blocked''}
                  \<or> sequence < 0 \<or> \<not> is_hex_digest dg
               then None
               else Some \<lparr>pq_payload = JObj [(''schema_version'', JStr schema), (''agent_id'', JStr agent_id),
                             (''boot_id'', JStr boot_id), (''sequence'', JInt sequence),
                             (''agent_version'', JStr version), (''protocol_version'', JStr protocol),
                             (''agent_reported_at'', JStr (iso_dump t)), (''readiness'', JStr readiness),
                             (''reason'', why), (''manifest_id'', JStr manifest_id), (''manifest_digest'', JStr dg)],
                          pq_boot_id = boot_id, pq_sequence = sequence, pq_reported_at = t,
                          pq_manifest_id = manifest_id, pq_manifest_digest = dg\<rparr>)
      | _ \<Rightarrow> None)"

definition heartbeat_request :: "(string \<Rightarrow> instant option) \<Rightarrow> (instant \<Rightarrow> string) \<Rightarrow> json \<Rightarrow> presence_request option" where
  "heartbeat_request iso_parse iso_dump body =
     (case body of
        JObj members \<Rightarrow>
          if \<forall>k \<in> fst ` set members. k \<in> set HEARTBEAT_FIELDS then request_of iso_parse iso_dump (map_of members) else None
      | _ \<Rightarrow> None)"

section \<open>Presence is accepted once\<close>

lemma find_replace:
  "key row = k \<Longrightarrow> find (\<lambda>r. key r = a) (upd_where (\<lambda>r. key r = k) (\<lambda>_. row) rows)
     = (if a = k then map_option (\<lambda>_. row) (find (\<lambda>r. key r = k) rows) else find (\<lambda>r. key r = a) rows)"
  by (induction rows) auto

lemma repo_presence_put:
  "repo_presence (put_presence row b) a = (if a = ap_agent row then Some row else repo_presence b a)"
proof (cases "repo_presence b (ap_agent row)")
  case None
  then show ?thesis
    by (auto simp: put_presence_def repo_presence_def find_append split: option.splits)
next
  case (Some p)
  then show ?thesis
    using find_replace [of ap_agent row "ap_agent row" a "b_presences b"]
    by (auto simp: put_presence_def repo_presence_def)
qed

lemma put_presence_tables [simp]:
  "b_agents (put_presence row b) = b_agents b" "b_manifests (put_presence row b) = b_manifests b"
  "b_credentials (put_presence row b) = b_credentials b"
  by (simp_all add: put_presence_def)

lemma touch_agent_tables [simp]:
  "b_presences (touch_agent a now b) = b_presences b" "b_manifests (touch_agent a now b) = b_manifests b"
  "b_credentials (touch_agent a now b) = b_credentials b"
  "repo_presence (touch_agent a now b) x = repo_presence b x" "repo_manifest (touch_agent a now b) x m = repo_manifest b x m"
  by (simp_all add: touch_agent_def repo_presence_def repo_manifest_def)

lemma repo_manifest_put [simp]: "repo_manifest (put_presence row b) x m = repo_manifest b x m"
  by (simp add: repo_manifest_def)

lemma presence_rejected: "presence env a kind q ttl poll b = (Inl e, b') \<Longrightarrow> b' = b"
  by (auto simp: presence_def Let_def split: if_splits option.splits)

lemma presence_accepted:
  assumes "presence env a kind q ttl poll b = (Inr r, b')"
  shows "pp_accepted_sequence r = pq_sequence q \<and> json_get (pq_payload q) ''agent_id'' = Some (JStr a)
    \<and> \<not> clock_skewed env (pq_reported_at q)
    \<and> (\<exists>p. repo_presence b' a = Some p \<and> ap_boot_id p = pq_boot_id q \<and> ap_sequence p = pq_sequence q
          \<and> ap_digest p = digest (be_sha env) (pq_payload q))
    \<and> (\<forall>p. repo_presence b a = Some p \<longrightarrow> ap_boot_id p = pq_boot_id q \<longrightarrow> ap_sequence p \<le> pq_sequence q)
    \<and> (\<forall>x. x \<noteq> a \<longrightarrow> repo_presence b' x = repo_presence b x)
    \<and> (\<forall>x m. repo_manifest b' x m = repo_manifest b x m)"
  using assms
  by (auto simp: presence_def Let_def repo_presence_put split: if_splits option.splits)

lemma presence_repeat:
  assumes "\<not> clock_skewed env (pq_reported_at q)" and "json_get (pq_payload q) ''agent_id'' = Some (JStr a)"
    and "repo_manifest b a (pq_manifest_id q) = Some m" and "sm_digest m = pq_manifest_digest q"
    and "repo_presence b a = Some p" and "ap_boot_id p = pq_boot_id q" and "ap_sequence p = pq_sequence q"
    and "ap_digest p = digest (be_sha env) (pq_payload q)"
  shows "presence env a kind q ttl poll b
    = (Inr \<lparr>pp_accepted_sequence = pq_sequence q, pp_received_at = ap_received_at p, pp_expires_at = ap_expires_at p,
            pp_poll_after = poll\<rparr>, b)"
  using assms by (simp add: presence_def Let_def)

lemma presence_manifest:
  assumes "presence env a kind q ttl poll b = (Inr r, b')"
  obtains m where "repo_manifest b a (pq_manifest_id q) = Some m" "sm_digest m = pq_manifest_digest q"
  using assms that by (auto simp: presence_def split: if_splits option.splits)

text \<open>A heartbeat the server has accepted can be delivered any number of times: while it is recent
  enough, each repetition is answered with the same sequence and with the reception and expiry of the
  first, and changes nothing.  An older heartbeat of the same boot, or another one with the same
  number, is refused, and a refusal changes nothing.\<close>

theorem heartbeat_is_accepted_once:
  assumes accepted: "heartbeat env a q b = (Inr r, b')" and later: "be_sha env' = be_sha env"
    "be_contract_ok env' = be_contract_ok env"
  shows "(\<not> clock_skewed env' (pq_reported_at q) \<longrightarrow> (\<exists>r'. heartbeat env' a q b' = (Inr r', b')
      \<and> pp_accepted_sequence r' = pq_sequence q
      \<and> (\<forall>p. repo_presence b' a = Some p \<longrightarrow> pp_received_at r' = ap_received_at p \<and> pp_expires_at r' = ap_expires_at p)))
    \<and> (\<forall>q'. pq_boot_id q' = pq_boot_id q \<longrightarrow>
        pq_sequence q' < pq_sequence q
          \<or> pq_sequence q' = pq_sequence q \<and> digest (be_sha env) (pq_payload q') \<noteq> digest (be_sha env) (pq_payload q) \<longrightarrow>
        (\<exists>e. heartbeat env' a q' b' = (Inl e, b')))"
proof (intro conjI impI allI)
  have ok: "be_contract_ok env ''desktop-heartbeat.schema.json'' (pq_payload q)"
    and pres: "presence env a ''desktop'' q 90 30 b = (Inr r, b')"
    using accepted by (auto simp: heartbeat_def split: if_splits)
  note acc = presence_accepted [OF pres]
  obtain p where p: "repo_presence b' a = Some p" "ap_boot_id p = pq_boot_id q" "ap_sequence p = pq_sequence q"
    "ap_digest p = digest (be_sha env) (pq_payload q)" using acc by blast
  obtain m where m: "repo_manifest b' a (pq_manifest_id q) = Some m" "sm_digest m = pq_manifest_digest q"
    using presence_manifest [OF pres] acc by metis
  {
    assume "\<not> clock_skewed env' (pq_reported_at q)"
    then have "presence env' a ''desktop'' q 90 30 b'
      = (Inr \<lparr>pp_accepted_sequence = pq_sequence q, pp_received_at = ap_received_at p, pp_expires_at = ap_expires_at p,
            pp_poll_after = 30\<rparr>, b')"
      by (intro presence_repeat [OF _ _ m p(1,2,3)]) (use acc p(4) later in auto)
    then show "\<exists>r'. heartbeat env' a q b' = (Inr r', b') \<and> pp_accepted_sequence r' = pq_sequence q
      \<and> (\<forall>p. repo_presence b' a = Some p \<longrightarrow> pp_received_at r' = ap_received_at p \<and> pp_expires_at r' = ap_expires_at p)"
      using ok p(1) later by (simp add: heartbeat_def)
  next
    fix q' :: presence_request
    assume "pq_boot_id q' = pq_boot_id q"
      and "pq_sequence q' < pq_sequence q
        \<or> pq_sequence q' = pq_sequence q \<and> digest (be_sha env) (pq_payload q') \<noteq> digest (be_sha env) (pq_payload q)"
    then show "\<exists>e. heartbeat env' a q' b' = (Inl e, b')"
      using p later by (auto simp: heartbeat_def presence_def Let_def split: option.split)
  }
qed

section \<open>A manifest is published once\<close>

definition manifests_wf :: "backend \<Rightarrow> bool" where
  "manifests_wf b \<longleftrightarrow> distinct (map (\<lambda>m. (sm_agent m, sm_sequence m)) (b_manifests b)) \<and> distinct (map sm_id (b_manifests b))"

lemma audit_incompatibility_tables [simp]:
  "b_manifests (audit_incompatibility env a r b) = b_manifests b"
  "b_presences (audit_incompatibility env a r b) = b_presences b"
  by (simp_all add: audit_incompatibility_def)

lemma find_pair_iff:
  "distinct (map (\<lambda>m. (f m, g m)) ms) \<Longrightarrow>
   find (\<lambda>m. f m = x \<and> g m = y) ms = Some m \<longleftrightarrow> m \<in> set ms \<and> f m = x \<and> g m = y"
  by (induction ms) (auto simp: image_iff)

text \<open>An agent and a sequence number have at most one manifest, and it never changes: a publication
  that is accepted stores the document under its identifier with the digest it answers, publishing the
  same document again gives the same answer and changes nothing, and another document with the number
  is refused; a refused publication leaves all manifests as they are.\<close>

theorem manifest_is_published_once:
  assumes wf: "manifests_wf b" and pub: "publish_manifest env a doc b = (r, b')"
    and doc: "json_get doc ''manifest_sequence'' = Some (JInt n)"
  shows "manifests_wf b' \<and>
    (case r of
       Inl e \<Rightarrow> b_manifests b' = b_manifests b
     | Inr ans \<Rightarrow>
         (\<exists>m. m \<in> set (b_manifests b') \<and> sm_agent m = a \<and> sm_sequence m = n \<and> sm_id m = mp_manifest_id ans
            \<and> sm_digest m = mp_manifest_digest ans \<and> sm_digest m = digest (be_sha env) doc)
         \<and> set (b_manifests b) \<subseteq> set (b_manifests b')
         \<and> (\<forall>now. publish_manifest (env\<lparr>be_now := now\<rparr>) a doc b' = (Inr ans, b'))
         \<and> (\<forall>doc' now. json_get doc' ''manifest_sequence'' = Some (JInt n) \<longrightarrow>
              digest (be_sha env) doc' \<noteq> digest (be_sha env) doc \<longrightarrow>
              \<not> (\<exists>ans' b''. publish_manifest (env\<lparr>be_now := now\<rparr>) a doc' b' = (Inr ans', b''))))"
proof (cases r)
  case (Inl e)
  with pub doc have "b_manifests b' = b_manifests b"
    by (auto simp: publish_manifest_def Let_def split: if_splits option.splits json.splits)
  with Inl wf show ?thesis by (simp add: manifests_wf_def)
next
  case (Inr ans)
  from pub doc Inr obtain mid where c: "be_contract_ok env ''capability-manifest.schema.json'' doc"
      "json_get doc ''agent_id'' = Some (JStr a)" "json_get doc ''capability_catalog_version'' = Some (JStr ''1.0.0'')"
      "json_get doc ''manifest_id'' = Some (JStr mid)"
    by (auto simp: publish_manifest_def Let_def split: if_splits option.splits json.splits)
  let ?find = "\<lambda>b. find (\<lambda>m. sm_agent m = a \<and> sm_sequence m = n) (b_manifests b)"
  have stored: "\<exists>m. m \<in> set (b_manifests b') \<and> sm_agent m = a \<and> sm_sequence m = n \<and> sm_id m = mid
      \<and> sm_digest m = digest (be_sha env) doc
      \<and> ans = \<lparr>mp_manifest_id = sm_id m, mp_manifest_digest = sm_digest m, mp_received_at = sm_received_at m\<rparr>"
    and wf': "manifests_wf b'" and mono: "set (b_manifests b) \<subseteq> set (b_manifests b')"
  proof -
    show "\<exists>m. m \<in> set (b_manifests b') \<and> sm_agent m = a \<and> sm_sequence m = n \<and> sm_id m = mid
      \<and> sm_digest m = digest (be_sha env) doc
      \<and> ans = \<lparr>mp_manifest_id = sm_id m, mp_manifest_digest = sm_digest m, mp_received_at = sm_received_at m\<rparr>"
    proof (cases "?find b")
      case None
      with pub doc Inr c show ?thesis
        by (auto simp: publish_manifest_def Let_def add_manifest_def split: if_splits)
    next
      case (Some m)
      with pub doc Inr c show ?thesis
        using find_SomeD [OF Some] by (auto simp: publish_manifest_def Let_def split: if_splits)
    qed
    show "manifests_wf b'" "set (b_manifests b) \<subseteq> set (b_manifests b')"
      using wf pub doc Inr c
      by (auto simp: manifests_wf_def publish_manifest_def Let_def add_manifest_def split: if_splits option.splits)
  qed
  then obtain m where m: "m \<in> set (b_manifests b')" "sm_agent m = a" "sm_sequence m = n" "sm_id m = mid"
      "sm_digest m = digest (be_sha env) doc"
      "ans = \<lparr>mp_manifest_id = sm_id m, mp_manifest_digest = sm_digest m, mp_received_at = sm_received_at m\<rparr>" by blast
  have found: "?find b' = Some m"
    using find_pair_iff [of sm_agent sm_sequence "b_manifests b'" a n m] wf' m by (simp add: manifests_wf_def)
  have again: "publish_manifest (env\<lparr>be_now := now\<rparr>) a doc b' = (Inr ans, b')" for now
    using c doc found m by (simp add: publish_manifest_def)
  have other: "\<not> (\<exists>ans' b''. publish_manifest (env\<lparr>be_now := now\<rparr>) a doc' b' = (Inr ans', b''))"
    if "json_get doc' ''manifest_sequence'' = Some (JInt n)" "digest (be_sha env) doc' \<noteq> digest (be_sha env) doc" for doc' now
    using that found m by (auto simp: publish_manifest_def Let_def split: option.splits json.splits)
  have mine: "\<exists>m. m \<in> set (b_manifests b') \<and> sm_agent m = a \<and> sm_sequence m = n \<and> sm_id m = mp_manifest_id ans
      \<and> sm_digest m = mp_manifest_digest ans \<and> sm_digest m = digest (be_sha env) doc"
    using m by (intro exI [of _ m]) simp
  show ?thesis unfolding Inr sum.case using wf' mine mono again other by blast
qed

section \<open>A concrete server\<close>

definition demo_be_env :: be_env where
  "demo_be_env = \<lparr>be_now = seconds 1000, be_sha = (\<lambda>s. s), be_contract_ok = (\<lambda>n j. True), be_clock_skew_seconds = 300,
     be_credential_days = 90, be_fresh = (\<lambda>s. s), be_correlation = ''c''\<rparr>"

definition demo_agent_row :: agent_row where
  "demo_agent_row = \<lparr>ag_id = ''a1'', ag_device = Some ''d1'', ag_display_name = ''d'', ag_installation = Some ''i1'',
     ag_is_active = True, ag_disabled_at = None, ag_revoked_at = None, ag_revoked_by = None,
     ag_revocation_reason = None, ag_last_seen = None\<rparr>"

definition demo_manifest_doc :: json where
  "demo_manifest_doc = JObj [(''agent_id'', JStr ''a1''), (''capability_catalog_version'', JStr ''1.0.0''),
     (''manifest_id'', JStr ''m1''), (''manifest_sequence'', JInt 0)]"

definition demo_backend :: backend where
  "demo_backend = empty_backend\<lparr>b_agents := [demo_agent_row]\<rparr>"

definition demo_published :: backend where
  "demo_published = snd (publish_manifest demo_be_env ''a1'' demo_manifest_doc demo_backend)"

definition demo_presence_request :: presence_request where
  "demo_presence_request = \<lparr>pq_payload = JObj [(''agent_id'', JStr ''a1''), (''sequence'', JInt 3)], pq_boot_id = ''b1'',
     pq_sequence = 3, pq_reported_at = seconds 990, pq_manifest_id = ''m1'',
     pq_manifest_digest = canonical_json demo_manifest_doc\<rparr>"

lemma manifest_is_published_once_witness:
  "\<exists>ans. publish_manifest demo_be_env ''a1'' demo_manifest_doc demo_backend = (Inr ans, demo_published)
    \<and> publish_manifest (demo_be_env\<lparr>be_now := seconds 2000\<rparr>) ''a1'' demo_manifest_doc demo_published = (Inr ans, demo_published)"
proof -
  let ?ans = "\<lparr>mp_manifest_id = ''m1'', mp_manifest_digest = canonical_json demo_manifest_doc, mp_received_at = seconds 1000\<rparr>"
  have pub: "publish_manifest demo_be_env ''a1'' demo_manifest_doc demo_backend = (Inr ?ans, demo_published)"
    unfolding demo_published_def by code_simp
  have "json_get demo_manifest_doc ''manifest_sequence'' = Some (JInt 0)" by code_simp
  moreover have "manifests_wf demo_backend" by (simp add: manifests_wf_def demo_backend_def empty_backend_def)
  ultimately show ?thesis using manifest_is_published_once [OF _ pub] pub by fastforce
qed

lemma heartbeat_is_accepted_once_witness:
  "\<exists>r b' r'. heartbeat demo_be_env ''a1'' demo_presence_request demo_published = (Inr r, b')
    \<and> heartbeat (demo_be_env\<lparr>be_now := seconds 1100\<rparr>) ''a1'' demo_presence_request b' = (Inr r', b')
    \<and> pp_accepted_sequence r' = 3"
proof -
  obtain r b' where acc: "heartbeat demo_be_env ''a1'' demo_presence_request demo_published = (Inr r, b')"
  proof (cases "heartbeat demo_be_env ''a1'' demo_presence_request demo_published")
    case (Pair x y)
    have "(case heartbeat demo_be_env ''a1'' demo_presence_request demo_published of (Inr _, _) \<Rightarrow> True | _ \<Rightarrow> False)"
      by code_simp
    with Pair that show ?thesis by (cases x) auto
  qed
  have "\<not> clock_skewed (demo_be_env\<lparr>be_now := seconds 1100\<rparr>) (pq_reported_at demo_presence_request)" by code_simp
  moreover have "pq_sequence demo_presence_request = 3" by (simp add: demo_presence_request_def)
  ultimately show ?thesis
    using heartbeat_is_accepted_once [OF acc, of "demo_be_env\<lparr>be_now := seconds 1100\<rparr>"] acc by auto
qed

end
