(* ===== verification/Session_Link.thy ===== *)
theory Session_Link
  imports Heartbeat_Order Backend_Protocol
begin

text \<open>
  The agent's heartbeat service against the backend's presence service over an unreliable network:
  requests and replies may be lost, the agent may crash and restart at any time.  The transport
  (\<open>infrastructure/http_transport.py\<close>) and the endpoint (\<open>api/routers/agent_protocol.py\<close>) connect
  the two; the request has passed the authentication of the endpoint.
\<close>

section \<open>Endpoint, network and transport\<close>

record link_env =
  le_backend :: be_env
  le_parse :: "string \<Rightarrow> instant option"
  le_dump :: "instant \<Rightarrow> string"

definition heartbeat_endpoint :: "link_env \<Rightarrow> uuid \<Rightarrow> json \<Rightarrow> backend \<Rightarrow> presence_response be_outcome" where
  "heartbeat_endpoint env agent_id body b =
     (case heartbeat_request (le_parse env) (le_dump env) body of
        None \<Rightarrow> (Inl Request_Validation_Error, b)
      | Some q \<Rightarrow> heartbeat (le_backend env) agent_id q b)"

definition presence_reply :: "link_env \<Rightarrow> (be_error + presence_response) \<Rightarrow> http_reply" where
  "presence_reply env r =
     (case r of
        Inl e \<Rightarrow> error_response (be_correlation (le_backend env)) [] e
      | Inr p \<Rightarrow> Reply 200 (Some (JObj [(''schema_version'', JStr ''1.0.0''),
            (''accepted_sequence'', JInt (pp_accepted_sequence p)),
            (''server_received_at'', JStr (le_dump env (pp_received_at p))),
            (''presence_expires_at'', JStr (le_dump env (pp_expires_at p))),
            (''poll_after_seconds'', JInt (pp_poll_after p))])))"

text \<open>\<open>HttpAgentTransport.heartbeat\<close> after the request: the accepted sequence of a valid response.\<close>

definition accepted_sequence :: "http_reply \<Rightarrow> py_error + int" where
  "accepted_sequence reply =
     (case transport_request reply of
        Inl e \<Rightarrow> Inl e
      | Inr body \<Rightarrow>
          (case (json_get body ''accepted_sequence'', json_get body ''poll_after_seconds'') of
             (Some (JInt n), Some (JInt p)) \<Rightarrow>
               if 15 \<le> p \<and> p \<le> 900 then Inr n else Inl (Value_Error ''response'')
           | _ \<Rightarrow> Inl (Value_Error ''response'')))"

datatype fault = Delivered | Request_Lost | Reply_Lost

text \<open>The world of the server: its database and the exceptions its endpoint has raised.\<close>

definition network_heartbeat ::
  "link_env \<Rightarrow> uuid \<Rightarrow> fault \<Rightarrow> json \<Rightarrow> backend \<times> be_error list \<Rightarrow> (int, backend \<times> be_error list) outcome" where
  "network_heartbeat env agent_id fault body w =
     (case fault of
        Request_Lost \<Rightarrow> (accepted_sequence No_Reply, w)
      | _ \<Rightarrow>
          (case heartbeat_endpoint env agent_id body (fst w) of
             (r, b') \<Rightarrow>
               (let w' = (b', snd w @ (case r of Inl e \<Rightarrow> [e] | Inr _ \<Rightarrow> []))
                in (accepted_sequence (if fault = Delivered then presence_reply env r else No_Reply), w'))))"

datatype link_event =
    Link_Restart stamp uuid
  | Link_Send session_env link_env fault

definition link_step ::
  "codec \<Rightarrow> uuid \<Rightarrow> link_event \<Rightarrow> store \<times> backend \<times> be_error list \<Rightarrow> store \<times> backend \<times> be_error list" where
  "link_step c agent_id ev s =
     (case ev of
        Link_Restart now boot \<Rightarrow> (start_runtime now boot (fst s), snd s)
      | Link_Send senv env fault \<Rightarrow> snd (send_heartbeat c senv (network_heartbeat env agent_id fault) s))"

definition link_run ::
  "codec \<Rightarrow> uuid \<Rightarrow> link_event list \<Rightarrow> store \<times> backend \<times> be_error list \<Rightarrow> store \<times> backend \<times> be_error list" where
  "link_run c agent_id events s = foldl (\<lambda>s ev. link_step c agent_id ev s) s events"

section \<open>The order of members does not matter to the endpoint\<close>

definition request_view :: "presence_request \<Rightarrow> string \<times> uuid \<times> int \<times> instant \<times> uuid \<times> string" where
  "request_view q = (canonical_json (pq_payload q), pq_boot_id q, pq_sequence q, pq_reported_at q,
     pq_manifest_id q, pq_manifest_digest q)"

lemma fields_normal [simp]:
  "str_of (map_option normal_json v) = str_of v" "int_of (map_option normal_json v) = int_of v"
  by (auto simp: str_of_def int_of_def split: option.split json.split)

lemma request_of_normal:
  "map_option request_view (request_of ip dm (\<lambda>k. map_option normal_json (field k))) = map_option request_view (request_of ip dm field)"
  by (cases "field ''reason''")
    (auto simp: request_of_def request_view_def canonical_normal split: option.split)

lemma heartbeat_request_normal:
  assumes "json_plain j"
  shows "map_option request_view (heartbeat_request ip dm (normal_json j)) = map_option request_view (heartbeat_request ip dm j)"
proof (cases j)
  case (JObj kvs)
  then have d: "distinct (map fst kvs)" using assms by simp
  have "map_of (sort_key fst (map (map_prod (\<lambda>x. x) normal_json) kvs)) = (\<lambda>k. map_option normal_json (map_of kvs k))"
    using map_of_normal [OF d] by (auto simp: id_def)
  moreover have "fst ` map_prod (\<lambda>x. x) normal_json ` set kvs = fst ` set kvs" by force
  ultimately show ?thesis
    unfolding JObj heartbeat_request_def by (simp add: request_of_normal id_def)
qed (simp_all add: heartbeat_request_def)

lemma heartbeat_request_canonical:
  assumes "json_plain i" "json_plain j" "canonical_json i = canonical_json j"
  shows "map_option request_view (heartbeat_request ip dm i) = map_option request_view (heartbeat_request ip dm j)"
  using heartbeat_request_normal [OF assms(1)] heartbeat_request_normal [OF assms(2)]
    canonical_plain_inject [OF assms] by metis

section \<open>The two sides stay in step\<close>

text \<open>
  What relates the two databases: the server has seen the heartbeats up to the last acknowledged one
  or, when its reply was lost, exactly the one that is stored for the next attempt.
\<close>

definition link_inv ::
  "(string \<Rightarrow> string) \<Rightarrow> (string \<Rightarrow> instant option) \<Rightarrow> (instant \<Rightarrow> string) \<Rightarrow> uuid \<Rightarrow> store \<times> backend \<times> be_error list \<Rightarrow> bool" where
  "link_inv sha ip dm a s \<longleftrightarrow>
     (case s of (db, b, errs) \<Rightarrow>
        heartbeat_sound db \<and> Sequence_Conflict_Error \<notin> set errs \<and>
        (\<forall>p. repo_presence b a = Some p \<longrightarrow>
           ap_sequence p \<le> heartbeat_acked db \<or>
           ap_sequence p = heartbeat_acked db + 1 \<and>
           (\<exists>doc q. json_plain doc \<and> pending_heartbeat_text db = Some (canonical_json doc)
              \<and> heartbeat_request ip dm doc = Some q \<and> ap_digest p = digest sha (pq_payload q))))"

definition link_env_ok :: "(string \<Rightarrow> string) \<Rightarrow> (string \<Rightarrow> instant option) \<Rightarrow> (instant \<Rightarrow> string) \<Rightarrow> link_event \<Rightarrow> bool" where
  "link_env_ok sha ip dm ev \<longleftrightarrow>
     (case ev of
        Link_Restart now boot \<Rightarrow> True
      | Link_Send senv env fault \<Rightarrow> be_sha (le_backend env) = sha \<and> le_parse env = ip \<and> le_dump env = dm)"

lemma request_sequence:
  assumes "heartbeat_request ip dm p = Some q"
  shows "payload_int p ''sequence'' = Some (pq_sequence q)"
  using assms
  by (auto simp: heartbeat_request_def request_of_def int_of_def payload_int_def split: json.splits option.splits if_splits)

lemma heartbeat_poll: "heartbeat env a q b = (Inr r, b') \<Longrightarrow> pp_poll_after r = 30"
  by (auto simp: heartbeat_def presence_def Let_def split: if_splits option.splits)

lemma accepted_presence_reply:
  "pp_poll_after r = 30 \<Longrightarrow> accepted_sequence (presence_reply env (Inr r)) = Inr (pp_accepted_sequence r)"
  by (simp add: accepted_sequence_def presence_reply_def transport_request_def reply_body_def)

lemma accepted_error_reply: "\<exists>e'. accepted_sequence (presence_reply env (Inl e)) = Inl e'"
  by (simp add: accepted_sequence_def presence_reply_def transport_of_error)

lemma accepted_no_reply: "accepted_sequence No_Reply = Inl Transport_Error"
  by (simp add: accepted_sequence_def transport_request_def)

lemma same_text_digest:
  assumes "json_plain i" "json_plain j" "canonical_json i = canonical_json j" "heartbeat_request ip dm i = Some q"
  obtains q' where "heartbeat_request ip dm j = Some q'" "digest sha (pq_payload q') = digest sha (pq_payload q)"
proof -
  have "map_option request_view (heartbeat_request ip dm j) = Some (request_view q)"
    using heartbeat_request_canonical [OF assms(1-3), of ip dm] assms(4) by simp
  with that show ?thesis by (auto simp: request_view_def digest_def)
qed

text \<open>The endpoint on the heartbeat the agent sends.\<close>

lemma endpoint_in_step:
  assumes inv: "link_inv sha ip dm a (db, b, errs)" and env: "be_sha (le_backend env) = sha" "le_parse env = ip" "le_dump env = dm"
    and plain: "json_plain p" and num: "payload_int p ''sequence'' = Some (heartbeat_acked db + 1)"
    and pend: "pending_heartbeat_text db \<noteq> None \<longrightarrow> pending_heartbeat_text db = Some (canonical_json p)"
    and res: "heartbeat_endpoint env a p b = (r, b')"
  shows "(\<exists>e. r = Inl e \<and> e \<noteq> Sequence_Conflict_Error \<and> b' = b)
    \<or> (\<exists>ans q row. r = Inr ans \<and> pp_accepted_sequence ans = heartbeat_acked db + 1 \<and> pp_poll_after ans = 30
         \<and> heartbeat_request ip dm p = Some q \<and> repo_presence b' a = Some row
         \<and> ap_sequence row = heartbeat_acked db + 1 \<and> ap_digest row = digest sha (pq_payload q))"
proof (cases "heartbeat_request ip dm p")
  case None
  with res env show ?thesis by (auto simp: heartbeat_endpoint_def)
next
  case (Some q)
  then have hb: "heartbeat (le_backend env) a q b = (r, b')" using res env by (simp add: heartbeat_endpoint_def)
  have seqno: "pq_sequence q = heartbeat_acked db + 1" using request_sequence [OF Some] num by simp
  show ?thesis
  proof (cases r)
    case (Inr ans)
    then have "presence (le_backend env) a ''desktop'' q 90 30 b = (Inr ans, b')"
      using hb by (auto simp: heartbeat_def split: if_splits)
    from presence_accepted [OF this] show ?thesis
      using Inr Some seqno env heartbeat_poll [OF hb [unfolded Inr]] by auto
  next
    case (Inl e)
    then have b': "b' = b" using hb presence_rejected by (auto simp: heartbeat_def split: if_splits)
    have "e \<noteq> Sequence_Conflict_Error"
    proof
      assume "e = Sequence_Conflict_Error"
      with hb Inl have "presence (le_backend env) a ''desktop'' q 90 30 b = (Inl Sequence_Conflict_Error, b')"
        by (auto simp: heartbeat_def split: if_splits)
      then obtain row where row: "repo_presence b a = Some row" and
        bad: "pq_sequence q < ap_sequence row \<or> pq_sequence q = ap_sequence row \<and> digest sha (pq_payload q) \<noteq> ap_digest row"
        using env by (auto simp: presence_def Let_def split: if_splits option.splits)
      with seqno have "\<not> ap_sequence row \<le> heartbeat_acked db" by auto
      then obtain doc q0 where last: "ap_sequence row = heartbeat_acked db + 1" "json_plain doc"
          "pending_heartbeat_text db = Some (canonical_json doc)" "heartbeat_request ip dm doc = Some q0"
          "ap_digest row = digest sha (pq_payload q0)"
        using inv row by (auto simp: link_inv_def)
      then have "canonical_json doc = canonical_json p" using pend by auto
      then obtain q' where "heartbeat_request ip dm p = Some q'" "digest sha (pq_payload q') = digest sha (pq_payload q0)"
        by (rule same_text_digest [OF last(2) plain _ last(4)])
      with Some last seqno bad show False by simp
    qed
    with Inl b' show ?thesis by blast
  qed
qed

lemma link_step_inv:
  assumes c: "json_loads c = loads norm" and inv: "link_inv sha ip dm a s" and ev: "link_env_ok sha ip dm ev"
  shows "link_inv sha ip dm a (link_step c a ev s)"
proof (cases ev)
  case (Link_Restart now boot)
  obtain db b errs where s: "s = (db, b, errs)" by (cases s)
  show ?thesis
    using inv sound_restart [of db now boot] unfolding Link_Restart s link_step_def link_inv_def
    by (simp add: pending_text_restart start_runtime_heartbeats(1))
next
  case (Link_Send senv env fault)
  obtain db b errs where s: "s = (db, b, errs)" by (cases s)
  have env: "be_sha (le_backend env) = sha" "le_parse env = ip" "le_dump env = dm"
    using ev Link_Send by (simp_all add: link_env_ok_def)
  obtain r db' w' where send: "send_heartbeat c senv (network_heartbeat env a fault) (db, b, errs) = (r, (db', w'))"
    by (cases "send_heartbeat c senv (network_heartbeat env a fault) (db, b, errs)") auto
  then have step: "link_step c a ev (db, b, errs) = (db', w')" by (simp add: link_step_def Link_Send)
  have sound: "heartbeat_sound db" using inv s by (simp add: link_inv_def)
  note cases = send_cases [OF sound c send]
  show ?thesis
  proof (cases "w' = (b, errs) \<and> db' = db")
    case True
    with inv step s show ?thesis by simp
  next
    case False
    with cases obtain p where p: "json_plain p" "payload_int p ''sequence'' = Some (heartbeat_acked db + 1)"
        "w' = snd (network_heartbeat env a fault p (b, errs))"
        "pending_heartbeat_text db \<noteq> None \<longrightarrow> pending_heartbeat_text db = Some (canonical_json p)"
        "is_ok (r, db') \<longleftrightarrow> fst (network_heartbeat env a fault p (b, errs)) = Inr (heartbeat_acked db + 1)"
        "if is_ok (r, db') then heartbeat_acked db' = heartbeat_acked db + 1 \<and> pending_heartbeat_text db' = None
         else heartbeat_acked db' = heartbeat_acked db \<and> pending_heartbeat_text db' = Some (canonical_json p)"
      by blast
    have sound': "heartbeat_sound db'" using cases by blast
    obtain x b' where ep: "heartbeat_endpoint env a p b = (x, b')" by (cases "heartbeat_endpoint env a p b")
    note ends = endpoint_in_step [OF inv [unfolded s] env p(1,2,4) ep]
    consider (lost) "w' = (b, errs)" "\<not> is_ok (r, db')"
      | (refused) e where "w' = (b, errs @ [e])" "e \<noteq> Sequence_Conflict_Error" "\<not> is_ok (r, db')"
      | (taken) q row where "w' = (b', errs)" "heartbeat_request ip dm p = Some q" "repo_presence b' a = Some row"
         "ap_sequence row = heartbeat_acked db + 1" "ap_digest row = digest sha (pq_payload q)"
    proof (cases "fault = Request_Lost")
      case True
      then have "network_heartbeat env a fault p (b, errs) = (Inl Transport_Error, (b, errs))"
        by (simp add: network_heartbeat_def accepted_no_reply)
      with p(3,5) lost show ?thesis by simp
    next
      case False
      then have net: "network_heartbeat env a fault p (b, errs)
          = (accepted_sequence (if fault = Delivered then presence_reply env x else No_Reply),
             (b', errs @ (case x of Inl e \<Rightarrow> [e] | Inr _ \<Rightarrow> [])))"
        using ep by (cases fault) (simp_all add: network_heartbeat_def Let_def)
      from ends show ?thesis
      proof (elim disjE exE conjE)
        fix e
        assume "x = Inl e" "e \<noteq> Sequence_Conflict_Error" "b' = b"
        moreover obtain e' where "accepted_sequence (presence_reply env (Inl e)) = Inl e'" using accepted_error_reply by blast
        ultimately show ?thesis using net p(3,5) refused [of e] accepted_no_reply by (auto split: if_splits)
      next
        fix ans q row
        assume "x = Inr ans" "heartbeat_request ip dm p = Some q" "repo_presence b' a = Some row"
          "ap_sequence row = heartbeat_acked db + 1" "ap_digest row = digest sha (pq_payload q)"
        then show ?thesis using net p(3) taken [of q row] by simp
      qed
    qed
    then show ?thesis
    proof cases
      case lost
      then show ?thesis using inv p sound' unfolding s step link_inv_def by auto
    next
      case refused
      then show ?thesis using inv p sound' unfolding s step link_inv_def by auto
    next
      case taken
      then show ?thesis using inv p sound' unfolding s step link_inv_def by (auto split: if_splits)
    qed
  qed
qed

lemma link_run_inv:
  assumes "json_loads c = loads norm" and "link_inv sha ip dm a s" and "\<forall>ev \<in> set events. link_env_ok sha ip dm ev"
  shows "link_inv sha ip dm a (link_run c a events s)"
  using assms(2,3)
proof (induction events arbitrary: s)
  case Nil
  then show ?case by (simp add: link_run_def)
next
  case (Cons ev events)
  have "link_inv sha ip dm a (link_step c a ev s)"
    by (rule link_step_inv [OF assms(1) Cons.prems(1)]) (use Cons.prems(2) in simp)
  with Cons show ?case by (simp add: link_run_def)
qed

section \<open>A stale heartbeat\<close>

definition stale_event :: "(string \<Rightarrow> instant option) \<Rightarrow> (instant \<Rightarrow> string) \<Rightarrow> instant \<Rightarrow> link_event \<Rightarrow> bool" where
  "stale_event ip dm reported ev \<longleftrightarrow>
     (case ev of
        Link_Restart now boot \<Rightarrow> True
      | Link_Send senv env fault \<Rightarrow>
          le_parse env = ip \<and> le_dump env = dm
          \<and> reported + seconds (be_clock_skew_seconds (le_backend env)) < be_now (le_backend env))"

definition stale_inv ::
  "(string \<Rightarrow> instant option) \<Rightarrow> (instant \<Rightarrow> string) \<Rightarrow> json \<Rightarrow> presence_request \<Rightarrow> store \<Rightarrow> bool" where
  "stale_inv ip dm doc q db \<longleftrightarrow>
     heartbeat_sound db \<and> json_plain doc \<and> pending_heartbeat_text db = Some (canonical_json doc)
     \<and> heartbeat_request ip dm doc = Some q"

lemma stale_endpoint:
  assumes "json_plain doc" "json_plain p" "canonical_json doc = canonical_json p" "heartbeat_request ip dm doc = Some q"
    and "stale_event ip dm (pq_reported_at q) (Link_Send senv env fault)"
  shows "\<exists>e. heartbeat_endpoint env a p b = (Inl e, b)"
proof -
  have "map_option request_view (heartbeat_request ip dm p) = Some (request_view q)"
    using heartbeat_request_canonical [OF assms(1-3), of ip dm] assms(4) by simp
  then obtain q' where q': "heartbeat_request ip dm p = Some q'" "pq_reported_at q' = pq_reported_at q"
    by (auto simp: request_view_def)
  have "clock_skewed (le_backend env) (pq_reported_at q')"
    using assms(5) q'(2) by (auto simp: stale_event_def clock_skewed_def)
  with q'(1) assms(5) show ?thesis
    by (auto simp: stale_event_def heartbeat_endpoint_def heartbeat_def presence_def)
qed

lemma stale_step:
  assumes c: "json_loads c = loads norm" and inv: "stale_inv ip dm doc q db" and ev: "stale_event ip dm (pq_reported_at q) ev"
    and step: "link_step c a ev (db, b, errs) = (db', b', errs')"
  shows "stale_inv ip dm doc q db' \<and> b' = b \<and> heartbeat_acked db' = heartbeat_acked db"
proof (cases ev)
  case (Link_Restart now boot)
  then show ?thesis
    using inv step sound_restart [of db now boot]
    by (auto simp: link_step_def stale_inv_def pending_text_restart start_runtime_heartbeats(1))
next
  case (Link_Send senv env fault)
  have sound: "heartbeat_sound db" and doc: "json_plain doc" "pending_heartbeat_text db = Some (canonical_json doc)"
      "heartbeat_request ip dm doc = Some q"
    using inv by (simp_all add: stale_inv_def)
  obtain r where send: "send_heartbeat c senv (network_heartbeat env a fault) (db, b, errs) = (r, (db', b', errs'))"
    using step by (cases "send_heartbeat c senv (network_heartbeat env a fault) (db, b, errs)")
      (auto simp: link_step_def Link_Send)
  show ?thesis
  proof (cases "(b', errs') = (b, errs) \<and> db' = db")
    case True
    with inv show ?thesis by simp
  next
    case False
    with send_cases [OF sound c send] obtain p where p: "json_plain p"
        "(b', errs') = snd (network_heartbeat env a fault p (b, errs))"
        "pending_heartbeat_text db \<noteq> None \<longrightarrow> pending_heartbeat_text db = Some (canonical_json p)"
        "is_ok (r, db') \<longleftrightarrow> fst (network_heartbeat env a fault p (b, errs)) = Inr (heartbeat_acked db + 1)"
        "if is_ok (r, db') then heartbeat_acked db' = heartbeat_acked db + 1 \<and> pending_heartbeat_text db' = None
         else heartbeat_acked db' = heartbeat_acked db \<and> pending_heartbeat_text db' = Some (canonical_json p)"
        "heartbeat_sound db'"
      by blast
    have same: "canonical_json doc = canonical_json p" using p(3) doc(2) by simp
    obtain e where "heartbeat_endpoint env a p b = (Inl e, b)"
      using stale_endpoint [OF doc(1) p(1) same doc(3) ev [unfolded Link_Send]] by blast
    moreover obtain e' where "accepted_sequence (presence_reply env (Inl e)) = Inl e'" using accepted_error_reply by blast
    ultimately have "(\<exists>x. fst (network_heartbeat env a fault p (b, errs)) = Inl x)
        \<and> fst (snd (network_heartbeat env a fault p (b, errs))) = b"
      by (cases fault) (simp_all add: network_heartbeat_def accepted_no_reply Let_def)
    then have "\<not> is_ok (r, db')" "b' = b" using p(2,4) by (auto, metis fst_conv)
    with p doc same show ?thesis by (simp add: stale_inv_def)
  qed
qed

lemma stale_run:
  assumes c: "json_loads c = loads norm" and "stale_inv ip dm doc q db"
    and "\<forall>ev \<in> set events. stale_event ip dm (pq_reported_at q) ev" and "link_run c a events (db, b, errs) = (db', b', errs')"
  shows "stale_inv ip dm doc q db' \<and> b' = b \<and> heartbeat_acked db' = heartbeat_acked db"
  using assms(2-4)
proof (induction events arbitrary: db b errs)
  case Nil
  then show ?case by (simp add: link_run_def)
next
  case (Cons ev events)
  obtain db1 b1 errs1 where step: "link_step c a ev (db, b, errs) = (db1, b1, errs1)" by (cases "link_step c a ev (db, b, errs)")
  have one: "stale_inv ip dm doc q db1 \<and> b1 = b \<and> heartbeat_acked db1 = heartbeat_acked db"
    by (rule stale_step [OF c Cons.prems(1) _ step]) (use Cons.prems(2) in simp)
  then have "stale_inv ip dm doc q db' \<and> b' = b1 \<and> heartbeat_acked db' = heartbeat_acked db1"
    by (intro Cons.IH) (use Cons.prems step in \<open>auto simp: link_run_def\<close>)
  with one show ?case by simp
qed

section \<open>Properties of the composed system\<close>

text \<open>C17: agent and server never disagree about the order of heartbeats: whatever requests and replies
  are lost and however often the agent restarts, no heartbeat of the agent is ever refused with a
  sequence conflict, and in every state the server has seen exactly the acknowledged heartbeats or,
  besides them, the one that the agent has stored and will send again.\<close>

theorem heartbeats_never_conflict:
  assumes "json_loads c = loads norm" and "heartbeat_sound db"
    and "\<forall>p. repo_presence b a = Some p \<longrightarrow> ap_sequence p \<le> heartbeat_acked db"
    and "\<forall>ev \<in> set events. link_env_ok sha ip dm ev" and "link_run c a events (db, b, []) = (db', b', errs)"
  shows "Sequence_Conflict_Error \<notin> set errs \<and>
    (\<forall>p. repo_presence b' a = Some p \<longrightarrow>
       ap_sequence p \<le> heartbeat_acked db' \<or> ap_sequence p = heartbeat_acked db' + 1 \<and> pending_heartbeat_text db' \<noteq> None)"
proof -
  have "link_inv sha ip dm a (db, b, [])" using assms(2,3) by (simp add: link_inv_def)
  from link_run_inv [OF assms(1) this assms(4)] show ?thesis unfolding assms(5) by (auto simp: link_inv_def)
qed

text \<open>C25: a heartbeat that has become older than the accepted clock skew blocks the agent for good: the
  service resends the stored payload with its original time, the server refuses it, and no number of
  further attempts or restarts of the agent gets a heartbeat accepted or changes anything at the server.\<close>

theorem stale_heartbeat_blocks_agent:
  assumes "json_loads c = loads norm" and "heartbeat_sound db" and "json_plain doc"
    and "pending_heartbeat_text db = Some (canonical_json doc)" and "heartbeat_request ip dm doc = Some q"
    and "\<forall>ev \<in> set events. stale_event ip dm (pq_reported_at q) ev"
    and "link_run c a events (db, b, errs) = (db', b', errs')"
  shows "b' = b \<and> heartbeat_acked db' = heartbeat_acked db \<and> pending_heartbeat_text db' = Some (canonical_json doc)"
  using stale_run [OF assms(1) _ assms(6,7)] assms(2-5) unfolding stale_inv_def by blast

definition demo_link :: "instant \<Rightarrow> link_env" where
  "demo_link now = \<lparr>le_backend = demo_be_env\<lparr>be_now := now\<rparr>, le_parse = (\<lambda>s. Some (seconds 990)), le_dump = (\<lambda>t. ''t'')\<rparr>"

definition demo_link_backend :: backend where
  "demo_link_backend = demo_backend\<lparr>b_manifests := [\<lparr>sm_id = ''m1'', sm_agent = ''a1'', sm_sequence = 0,
     sm_digest = replicate 64 CHR ''0'', sm_received_at = 0, sm_document = JNull\<rparr>]\<rparr>"

lemma heartbeats_never_conflict_witness:
  "Sequence_Conflict_Error \<notin> set (snd (snd (link_run demo_json_codec ''a1''
      [Link_Send demo_session (demo_link (seconds 1000)) Reply_Lost, Link_Restart ''n'' ''b2'',
       Link_Send demo_session (demo_link (seconds 1010)) Delivered] (demo_connected, demo_link_backend, []))))
   \<and> heartbeat_acked (fst (link_run demo_json_codec ''a1''
      [Link_Send demo_session (demo_link (seconds 1000)) Reply_Lost, Link_Restart ''n'' ''b2'',
       Link_Send demo_session (demo_link (seconds 1010)) Delivered] (demo_connected, demo_link_backend, []))) = 7"
proof -
  let ?events = "[Link_Send demo_session (demo_link (seconds 1000)) Reply_Lost, Link_Restart ''n'' ''b2'',
       Link_Send demo_session (demo_link (seconds 1010)) Delivered]"
  obtain db b errs where run: "link_run demo_json_codec ''a1'' ?events (demo_connected, demo_link_backend, []) = (db, b, errs)"
    by (cases "link_run demo_json_codec ''a1'' ?events (demo_connected, demo_link_backend, [])")
  have acked: "heartbeat_acked (fst (link_run demo_json_codec ''a1'' ?events (demo_connected, demo_link_backend, []))) = 7"
    by code_simp
  have codec: "json_loads demo_json_codec = loads id" by (simp add: demo_json_codec_def)
  have none: "\<forall>p. repo_presence demo_link_backend ''a1'' = Some p \<longrightarrow> ap_sequence p \<le> heartbeat_acked demo_connected"
    by (simp add: repo_presence_def demo_link_backend_def demo_backend_def empty_backend_def)
  have envs: "\<forall>ev \<in> set ?events. link_env_ok (\<lambda>s. s) (\<lambda>s. Some (seconds 990)) (\<lambda>t. ''t'') ev"
    by (simp add: link_env_ok_def demo_link_def demo_be_env_def)
  from heartbeats_never_conflict [OF codec demo_connected_sound none envs run] acked run show ?thesis by simp
qed

lemma stale_heartbeat_blocks_agent_witness:
  "\<exists>db. pending_heartbeat_text db \<noteq> None \<and>
     fst (snd (link_run demo_json_codec ''a1''
      [Link_Restart ''n'' ''b2'', Link_Send demo_session (demo_link (seconds 2000)) Delivered] (db, demo_link_backend, [])))
     = demo_link_backend"
proof -
  let ?events = "[Link_Restart ''n'' ''b2'', Link_Send demo_session (demo_link (seconds 2000)) Delivered]"
  let ?doc = "heartbeat_json demo_session ''a1'' ''b1'' 7 ''m1'' (replicate 64 CHR ''0'')"
  define db where "db = snd (persist_heartbeat (\<lambda>s. s) ''n'' 7 ?doc demo_connected)"
  have db: "db = demo_connected\<lparr>t_runtime := Some (demo_runtime\<lparr>rs_heartbeat_pending := Some 7,
      rs_heartbeat_payload := Some (canonical_json ?doc), rs_heartbeat_hash := Some (digest (\<lambda>s. s) ?doc),
      rs_updated_at := ''n''\<rparr>)\<rparr>"
    unfolding db_def by (simp add: persist_heartbeat_def persist_heartbeat_text_def demo_connected_def demo_runtime_def)
  have doc: "heartbeat_doc 7 ?doc" by (rule heartbeat_json_doc)
  then have plain: "json_plain ?doc" by (simp add: heartbeat_doc_def)
  have "heartbeat_sound db"
    unfolding heartbeat_sound_def
    using doc by (auto simp: db heartbeat_wf_def heartbeat_pending_def demo_runtime_def demo_connected_def)
  moreover have tx: "pending_heartbeat_text db = Some (canonical_json ?doc)" by (simp add: db pending_heartbeat_text_def)
  moreover obtain q where q: "heartbeat_request (\<lambda>s. Some (seconds 990)) (\<lambda>t. ''t'') ?doc = Some q" "pq_reported_at q = seconds 990"
  proof -
    have "map_option pq_reported_at (heartbeat_request (\<lambda>s. Some (seconds 990)) (\<lambda>t. ''t'') ?doc) = Some (seconds 990)"
      by code_simp
    with that show ?thesis by auto
  qed
  moreover have "\<forall>ev \<in> set ?events. stale_event (\<lambda>s. Some (seconds 990)) (\<lambda>t. ''t'') (pq_reported_at q) ev"
    using q(2) by (simp add: stale_event_def demo_link_def demo_be_env_def seconds_def)
  moreover obtain db' b' errs' where run: "link_run demo_json_codec ''a1'' ?events (db, demo_link_backend, []) = (db', b', errs')"
    by (cases "link_run demo_json_codec ''a1'' ?events (db, demo_link_backend, [])")
  moreover have "json_loads demo_json_codec = loads id" by (simp add: demo_json_codec_def)
  ultimately have "b' = demo_link_backend" using stale_heartbeat_blocks_agent plain by metis
  with run tx show ?thesis by (intro exI [of _ db]) simp
qed

end
