(* ===== verification/Agent_Auth.thy ===== *)
theory Agent_Auth
  imports Backend_Protocol
begin

text \<open>
  The authentication of an agent's request: the format of machine secrets
  (\<open>security/agent_credentials.py\<close>), the guard against replayed requests
  (\<open>security/agent_replay.py\<close>) and \<open>_authenticate\<close> (\<open>api/agent_dependencies.py\<close>).  The characters
  of a header are Latin-1, as the server decodes them.  The keyed hash is an argument.
\<close>

section \<open>Machine secrets\<close>

fun split_on :: "char \<Rightarrow> string \<Rightarrow> string list" where
  "split_on d [] = [[]]"
| "split_on d (c # s) =
     (if c = d then [] # split_on d s
      else (case split_on d s of [] \<Rightarrow> [[c]] | p # ps \<Rightarrow> (c # p) # ps))"

text \<open>The text \<open>str\<close> gives for a UUID: 32 lower-case hexadecimal digits in groups of 8, 4, 4, 4 and 12.\<close>

definition is_uuid_text :: "string \<Rightarrow> bool" where
  "is_uuid_text s \<longleftrightarrow>
     length s = 36 \<and>
     (\<forall>i < 36. if i \<in> {8, 13, 18, 23} then s ! i = CHR ''-'' else s ! i \<in> set ''0123456789abcdef'')"

text \<open>\<open>str.isalnum\<close> on a Latin-1 character; it is true of many characters outside ASCII.\<close>

definition is_alnum :: "char \<Rightarrow> bool" where
  "is_alnum c \<longleftrightarrow>
     (let n = of_char c :: nat in
      48 \<le> n \<and> n \<le> 57 \<or> 65 \<le> n \<and> n \<le> 90 \<or> 97 \<le> n \<and> n \<le> 122 \<or> n \<in> {170, 178, 179, 181, 185, 186, 188, 189, 190}
      \<or> 192 \<le> n \<and> n \<le> 255 \<and> n \<notin> {215, 247})"

definition is_ascii :: "string \<Rightarrow> bool" where
  "is_ascii s \<longleftrightarrow> (\<forall>c \<in> set s. (of_char c :: nat) < 128)"

definition new_secret :: "string \<Rightarrow> uuid \<Rightarrow> string \<Rightarrow> string" where
  "new_secret pre locator secret = pre @ ''.'' @ locator @ ''.'' @ secret"

definition parse_machine_secret :: "string \<Rightarrow> string \<Rightarrow> (uuid \<times> string) option" where
  "parse_machine_secret val pre =
     (case split_on CHR ''.'' val of
        [p, locator, secret] \<Rightarrow>
          if p \<noteq> pre \<or> length secret \<noteq> 43 \<or> \<not> is_uuid_text locator
             \<or> \<not> (\<forall>c \<in> set secret. is_alnum c \<or> c \<in> set ''-_'')
          then None else Some (locator, secret)
      | _ \<Rightarrow> None)"

text \<open>\<open>secret_digest\<close> encodes the secret as ASCII first, which raises on any other character.\<close>

definition secret_digest :: "(string \<Rightarrow> string) \<Rightarrow> string \<Rightarrow> string option" where
  "secret_digest hmac secret = (if is_ascii secret then Some (hmac secret) else None)"

section \<open>The replay guard\<close>

text \<open>
  The keys of the guard in Redis with the instants at which they expire; a key is gone at its expiry.
  \<open>reserve\<close> is the script: \<open>SET NX EX\<close> of the nonce, \<open>INCR\<close> of the counter and \<open>EXPIRE\<close> when it is new.
\<close>

record replay_guard =
  rg_nonces :: "uuid \<times> string \<Rightarrow> instant option"
  rg_rates :: "uuid \<Rightarrow> (int \<times> instant) option"

definition empty_guard :: replay_guard where
  "empty_guard = \<lparr>rg_nonces = (\<lambda>k. None), rg_rates = (\<lambda>k. None)\<rparr>"

definition nonce_live :: "instant \<Rightarrow> uuid \<times> string \<Rightarrow> replay_guard \<Rightarrow> bool" where
  "nonce_live now k g \<longleftrightarrow> (case rg_nonces g k of None \<Rightarrow> False | Some expiry \<Rightarrow> now < expiry)"

definition count_request :: "instant \<Rightarrow> uuid \<Rightarrow> replay_guard \<Rightarrow> int \<times> replay_guard" where
  "count_request now credential_id g =
     (case rg_rates g credential_id of
        Some (n, expiry) \<Rightarrow>
          if now < expiry then (n + 1, g\<lparr>rg_rates := (rg_rates g)(credential_id := Some (n + 1, expiry))\<rparr>)
          else (1, g\<lparr>rg_rates := (rg_rates g)(credential_id := Some (1, now + seconds 60))\<rparr>)
      | None \<Rightarrow> (1, g\<lparr>rg_rates := (rg_rates g)(credential_id := Some (1, now + seconds 60))\<rparr>))"

record guard_env =
  ge_available :: bool
  ge_nonce_ttl :: int
  ge_request_limit :: int

definition reserve :: "guard_env \<Rightarrow> instant \<Rightarrow> uuid \<Rightarrow> string \<Rightarrow> replay_guard \<Rightarrow> (be_error + unit) \<times> replay_guard" where
  "reserve ge now credential_id nonce g =
     (if \<not> ge_available ge then (Inl Dependency_Unavailable_Error, g)
      else if nonce_live now (credential_id, nonce) g then (Inl Nonce_Replay_Error, g)
      else (case count_request now credential_id
                   (g\<lparr>rg_nonces := (rg_nonces g)((credential_id, nonce) := Some (now + seconds (ge_nonce_ttl ge)))\<rparr>) of
              (n, g') \<Rightarrow> if ge_request_limit ge < n then (Inl Agent_Rate_Limited_Error, g') else (Inr (), g')))"

section \<open>Authentication\<close>

text \<open>The headers of a request; \<open>hq_authorization\<close> is empty when the header is missing.\<close>

record auth_headers =
  hq_authorization :: string
  hq_timestamp :: "string option"
  hq_nonce :: "string option"
  hq_protocol :: "string option"
  hq_correlation :: "string option"

record auth_env =
  ae_backend :: be_env
  ae_hmac :: "string \<Rightarrow> string"
  ae_parse_time :: "string \<Rightarrow> instant option"
  ae_guard :: guard_env

datatype accepted_state = Accept_Active | Accept_Pending_Or_Activated

definition nonce_ok :: "string option \<Rightarrow> bool" where
  "nonce_ok nonce \<longleftrightarrow>
     (case nonce of
        None \<Rightarrow> False
      | Some s \<Rightarrow> length s = 22 \<and> (\<forall>c \<in> set s. is_alnum c \<and> (of_char c :: nat) < 128 \<or> c \<in> set ''-_''))"

text \<open>The checks on the headers, in the order of the code, up to the parsed secret and the instant.\<close>

definition check_headers :: "auth_env \<Rightarrow> auth_headers \<Rightarrow> be_error + (uuid \<times> string) \<times> string" where
  "check_headers env h =
     (if take 7 (hq_authorization h) \<noteq> ''Bearer '' then Inl Agent_Authentication_Error
      else if hq_protocol h \<noteq> Some ''1.0.0'' then Inl Protocol_Version_Error
      else if hq_correlation h = None then Inl Agent_Authentication_Error
      else
        (case hq_timestamp h of
           None \<Rightarrow> Inl Request_Clock_Skew_Error
         | Some ts \<Rightarrow>
             if ts = [] \<or> last ts \<noteq> CHR ''Z'' then Inl Request_Clock_Skew_Error
             else
               (case ae_parse_time env ts of
                  None \<Rightarrow> Inl Request_Clock_Skew_Error
                | Some t \<Rightarrow>
                    if clock_skewed (ae_backend env) t then Inl Request_Clock_Skew_Error
                    else if \<not> nonce_ok (hq_nonce h) then Inl Agent_Authentication_Error
                    else (case parse_machine_secret (drop 7 (hq_authorization h)) ''wto_ac_1'' of
                            None \<Rightarrow> Inl Agent_Authentication_Error
                          | Some parsed \<Rightarrow> Inr (parsed, the (hq_nonce h))))))"

definition credential_allowed :: "accepted_state \<Rightarrow> instant \<Rightarrow> credential_row \<Rightarrow> bool" where
  "credential_allowed accepted now c \<longleftrightarrow>
     (case accepted of
        Accept_Active \<Rightarrow> ac_state c = Cred_Active
      | Accept_Pending_Or_Activated \<Rightarrow> ac_state c \<in> {Cred_Pending, Cred_Active})
     \<and> now < ac_expires_at c"

definition authenticate ::
  "auth_env \<Rightarrow> accepted_state \<Rightarrow> auth_headers \<Rightarrow> backend \<times> replay_guard \<Rightarrow>
   (be_error + agent_row \<times> credential_row) \<times> backend \<times> replay_guard" where
  "authenticate env accepted h w =
     (case w of (b, g) \<Rightarrow>
        (case check_headers env h of
           Inl e \<Rightarrow> (Inl e, (b, g))
         | Inr ((locator, secret), nonce) \<Rightarrow>
             (case repo_credential b locator of
                None \<Rightarrow> (Inl Agent_Authentication_Error, (b, g))
              | Some credential \<Rightarrow>
                  (case secret_digest (ae_hmac env) secret of
                     None \<Rightarrow> (Inl Be_Value_Error, (b, g))
                   | Some dg \<Rightarrow>
                       if dg \<noteq> ac_digest credential then (Inl Agent_Authentication_Error, (b, g))
                       else
                         (case repo_agent b (ac_agent credential) of
                            None \<Rightarrow> (Inl Agent_Authentication_Error, (b, g))
                          | Some agent \<Rightarrow>
                              if \<not> ag_is_active agent \<or> ag_revoked_at agent \<noteq> None
                              then (Inl Agent_Authentication_Error,
                                    (write_audit (be_now (ae_backend env)) ''agent'' None (Some (ag_id agent))
                                       ''agent_auth.rejected'' ''agent'' (Some (ag_id agent)) ''denied''
                                       [(''agent_id'', JStr (ag_id agent)), (''reason_code'', JStr ''agent_revoked'')] b, g))
                              else if \<not> credential_allowed accepted (be_now (ae_backend env)) credential
                              then (Inl Agent_Authentication_Error, (b, g))
                              else
                                (case reserve (ae_guard env) (be_now (ae_backend env)) (ac_id credential) nonce g of
                                   (Inl e, g') \<Rightarrow> (Inl e, (b, g'))
                                 | (Inr _, g') \<Rightarrow> (Inr (agent, credential), (b, g'))))))))"

section \<open>Machine secrets are read back\<close>

lemma split_on_none: "CHR ''.'' \<notin> set s \<Longrightarrow> split_on CHR ''.'' s = [s]"
  by (induction s) auto

lemma split_on_dot: "CHR ''.'' \<notin> set s \<Longrightarrow> split_on CHR ''.'' (s @ CHR ''.'' # t) = s # split_on CHR ''.'' t"
  by (induction s) auto

lemma is_uuid_no_dot: "is_uuid_text s \<Longrightarrow> CHR ''.'' \<notin> set s"
  by (auto simp: is_uuid_text_def in_set_conv_nth split: if_splits)

lemma alnum_no_dot: "(\<forall>c \<in> set s. is_alnum c \<or> c \<in> set ''-_'') \<Longrightarrow> CHR ''.'' \<notin> set s"
  by (auto simp: is_alnum_def Let_def)

lemma parse_new_secret:
  assumes "CHR ''.'' \<notin> set pre" and "is_uuid_text locator" and "length secret = 43"
    and "\<forall>c \<in> set secret. is_alnum c \<or> c \<in> set ''-_''"
  shows "parse_machine_secret (new_secret pre locator secret) pre = Some (locator, secret)"
proof -
  have "split_on CHR ''.'' (new_secret pre locator secret) = [pre, locator, secret]"
    using assms(1) is_uuid_no_dot [OF assms(2)] alnum_no_dot [OF assms(4)]
    by (simp add: new_secret_def split_on_dot split_on_none)
  with assms show ?thesis by (simp add: parse_machine_secret_def)
qed

lemma split_on_join: "join_text [d] (split_on d s) = s \<and> split_on d s \<noteq> []"
proof (induction s)
  case Nil
  then show ?case by simp
next
  case (Cons c s)
  obtain p ps where ps: "split_on d s = p # ps" using Cons by (cases "split_on d s") auto
  with Cons show ?case by (cases ps) auto
qed

text \<open>The text of a machine secret determines its parts: a text is accepted for a prefix exactly if it is
  the prefix, the locator in canonical form and the secret of 43 alphanumeric characters, dashes and
  underscores, joined by dots, and the parts returned are these; so every secret the server issues is
  read back as issued.\<close>

theorem machine_secret_round_trip:
  assumes "CHR ''.'' \<notin> set pre"
  shows "parse_machine_secret val pre = Some (locator, secret) \<longleftrightarrow>
    val = new_secret pre locator secret \<and> is_uuid_text locator \<and> length secret = 43
    \<and> (\<forall>c \<in> set secret. is_alnum c \<or> c \<in> set ''-_'')"
proof
  assume "val = new_secret pre locator secret \<and> is_uuid_text locator \<and> length secret = 43
    \<and> (\<forall>c \<in> set secret. is_alnum c \<or> c \<in> set ''-_'')"
  with parse_new_secret [OF assms] show "parse_machine_secret val pre = Some (locator, secret)" by blast
next
  assume parsed: "parse_machine_secret val pre = Some (locator, secret)"
  have "split_on CHR ''.'' val = [pre, locator, secret] \<and> is_uuid_text locator \<and> length secret = 43
    \<and> (\<forall>c \<in> set secret. is_alnum c \<or> c \<in> set ''-_'')"
  proof (cases "split_on CHR ''.'' val")
    case Nil
    with parsed show ?thesis by (simp add: parse_machine_secret_def)
  next
    case (Cons a as)
    with parsed show ?thesis
      by (auto simp: parse_machine_secret_def split: list.splits if_splits)
  qed
  with split_on_join [of "CHR ''.''" val]
  show "val = new_secret pre locator secret \<and> is_uuid_text locator \<and> length secret = 43
    \<and> (\<forall>c \<in> set secret. is_alnum c \<or> c \<in> set ''-_'')"
    by (simp add: new_secret_def)
qed

definition demo_locator :: uuid where
  "demo_locator = ''00000000-0000-4000-8000-000000000001''"

definition demo_secret :: string where
  "demo_secret = replicate 42 CHR ''a'' @ ''_''"

lemma machine_secret_round_trip_witness:
  "parse_machine_secret (new_secret ''wto_ac_1'' demo_locator demo_secret) ''wto_ac_1'' = Some (demo_locator, demo_secret)"
proof -
  have "is_uuid_text demo_locator \<and> length demo_secret = 43 \<and> (\<forall>c \<in> set demo_secret. is_alnum c \<or> c \<in> set ''-_'')"
    by code_simp
  then show ?thesis using machine_secret_round_trip [of "''wto_ac_1''"] by simp
qed

section \<open>Replayed requests\<close>

text \<open>The guard after any further requests, each against whatever the database holds by then.\<close>

type_synonym auth_event = "auth_env \<times> accepted_state \<times> auth_headers \<times> backend"

definition guard_run :: "auth_event list \<Rightarrow> replay_guard \<Rightarrow> replay_guard" where
  "guard_run events g = foldl (\<lambda>g (env, accepted, h, b). snd (snd (authenticate env accepted h (b, g)))) g events"

definition reserved_until :: "uuid \<times> string \<Rightarrow> instant \<Rightarrow> replay_guard \<Rightarrow> bool" where
  "reserved_until k t g \<longleftrightarrow> (case rg_nonces g k of None \<Rightarrow> False | Some expiry \<Rightarrow> t \<le> expiry)"

lemma count_request_nonces [simp]: "rg_nonces (snd (count_request now c g)) = rg_nonces g"
  by (auto simp: count_request_def split: option.splits)

lemma reserve_nonces:
  "rg_nonces (snd (reserve ge now c nonce g)) =
     (if \<not> ge_available ge \<or> nonce_live now (c, nonce) g then rg_nonces g
      else (rg_nonces g)((c, nonce) := Some (now + seconds (ge_nonce_ttl ge))))"
proof -
  let ?g = "g\<lparr>rg_nonces := (rg_nonces g)((c, nonce) := Some (now + seconds (ge_nonce_ttl ge)))\<rparr>"
  have "rg_nonces (snd (count_request now c ?g)) = rg_nonces ?g" by (rule count_request_nonces)
  then show ?thesis by (cases "count_request now c ?g") (simp add: reserve_def)
qed

lemma reserve_keeps:
  assumes "reserved_until k t g" and "0 \<le> ge_nonce_ttl ge"
  shows "reserved_until k t (snd (reserve ge now c nonce g))"
  using assms by (auto simp: reserved_until_def reserve_nonces nonce_live_def seconds_def split: option.splits)

lemma authenticate_guard:
  "snd (snd (authenticate env accepted h (b, g))) = g
   \<or> (\<exists>c nonce. snd (snd (authenticate env accepted h (b, g)))
        = snd (reserve (ae_guard env) (be_now (ae_backend env)) c nonce g))"
proof (cases "check_headers env h")
  case (Inl e)
  then show ?thesis by (simp add: authenticate_def)
next
  case (Inr x)
  obtain l secret nonce where x: "x = ((l, secret), nonce)" by (cases x) auto
  show ?thesis
  proof (cases "repo_credential b l")
    case None
    then show ?thesis using Inr x by (simp add: authenticate_def)
  next
    case (Some c)
    obtain r g' where res: "reserve (ae_guard env) (be_now (ae_backend env)) (ac_id c) nonce g = (r, g')"
      by (cases "reserve (ae_guard env) (be_now (ae_backend env)) (ac_id c) nonce g")
    then have "snd (snd (authenticate env accepted h (b, g))) \<in> {g, g'}"
      using Inr x Some by (simp add: authenticate_def split: sum.split option.split)
    with res show ?thesis by (metis insertE singletonD snd_conv)
  qed
qed

lemma guard_run_keeps:
  assumes "reserved_until k t g" and "\<forall>(env, accepted, h, b) \<in> set events. 0 \<le> ge_nonce_ttl (ae_guard env)"
  shows "reserved_until k t (guard_run events g)"
  using assms
proof (induction events arbitrary: g)
  case Nil
  then show ?case by (simp add: guard_run_def)
next
  case (Cons ev events)
  obtain env accepted h b where ev: "ev = (env, accepted, h, b)" by (cases ev)
  have "reserved_until k t (snd (snd (authenticate env accepted h (b, g))))"
    using authenticate_guard [of env accepted h b g] reserve_keeps [OF Cons.prems(1)] Cons.prems ev by auto
  from Cons.IH [OF this] Cons.prems(2) show ?case by (simp add: guard_run_def ev)
qed

lemma repo_credential_id: "repo_credential b l = Some c \<Longrightarrow> ac_id c = l"
  using find_SomeD by (fastforce simp: repo_credential_def)

lemma authenticate_success:
  assumes "authenticate env accepted h (b, g) = (Inr (agent, c), (b', g'))"
  obtains secret nonce where "check_headers env h = Inr ((ac_id c, secret), nonce)" "repo_credential b (ac_id c) = Some c"
    "secret_digest (ae_hmac env) secret = Some (ac_digest c)" "repo_agent b (ac_agent c) = Some agent"
    "ag_is_active agent" "ag_revoked_at agent = None" "credential_allowed accepted (be_now (ae_backend env)) c"
    "reserve (ae_guard env) (be_now (ae_backend env)) (ac_id c) nonce g = (Inr (), g')" "b' = b"
proof -
  from assms obtain l secret nonce where chk: "check_headers env h = Inr ((l, secret), nonce)"
    by (auto simp: authenticate_def split: sum.splits)
  with assms obtain x where x: "repo_credential b l = Some x" by (auto simp: authenticate_def split: option.splits)
  with assms chk have dg: "secret_digest (ae_hmac env) secret = Some (ac_digest x)"
    by (auto simp: authenticate_def split: option.splits if_splits)
  with assms chk x obtain y where y: "repo_agent b (ac_agent x) = Some y"
    by (auto simp: authenticate_def split: option.splits)
  obtain r g2 where res: "reserve (ae_guard env) (be_now (ae_backend env)) (ac_id x) nonce g = (r, g2)"
    by (cases "reserve (ae_guard env) (be_now (ae_backend env)) (ac_id x) nonce g")
  have eqs: "ag_is_active y \<and> ag_revoked_at y = None \<and> credential_allowed accepted (be_now (ae_backend env)) x
      \<and> r = Inr () \<and> agent = y \<and> c = x \<and> b' = b \<and> g' = g2"
    using assms chk x dg y res by (cases r) (auto simp: authenticate_def split: if_splits)
  have "ac_id x = l" by (rule repo_credential_id [OF x])
  then show ?thesis using that [of secret nonce] chk x dg y res eqs by simp
qed

lemma check_headers_time:
  assumes "check_headers env h = Inr x"
  obtains ts t where "hq_timestamp h = Some ts" "ae_parse_time env ts = Some t" "\<not> clock_skewed (ae_backend env) t"
  using assms that by (auto simp: check_headers_def split: option.splits if_splits)

lemma live_nonce_refused:
  assumes "check_headers env h = Inr ((l, secret), nonce)" and "nonce_live (be_now (ae_backend env)) (l, nonce) g"
  shows "\<exists>e w. authenticate env accepted h (b, g) = (Inl e, w)"
proof (cases "\<exists>x w. authenticate env accepted h (b, g) = (Inr x, w)")
  case True
  then obtain agent c b' g' where "authenticate env accepted h (b, g) = (Inr (agent, c), (b', g'))" by (auto simp: split_paired_Ex)
  then show ?thesis
    by (rule authenticate_success) (use assms in \<open>auto simp: reserve_def split: if_splits\<close>)
next
  case False
  then show ?thesis by (metis sum.exhaust surj_pair)
qed

text \<open>C23: a request that was accepted cannot be replayed: the same headers are refused at every later time,
  whatever other requests came in between and whatever has happened to the database, because the nonce
  is remembered at least until the timestamp is too old.  This needs a nonce lifetime of twice the
  accepted clock skew (the configuration fixes 600 and at most 300 seconds) and a timestamp that was not
  at the very end of the accepted future.\<close>

theorem replayed_request_is_refused:
  assumes first: "authenticate env accepted h (b, g) = (Inr p, (b1, g1))"
    and ts: "hq_timestamp h = Some ts" "ae_parse_time env ts = Some t"
    and edge: "t < be_now (ae_backend env) + seconds (be_clock_skew_seconds (ae_backend env))"
    and ttl: "2 * be_clock_skew_seconds (ae_backend env) \<le> ge_nonce_ttl (ae_guard env)"
    and between: "\<forall>(env, accepted, h, b) \<in> set events. 0 \<le> ge_nonce_ttl (ae_guard env)"
    and again: "ae_parse_time env' = ae_parse_time env"
      "be_clock_skew_seconds (ae_backend env') = be_clock_skew_seconds (ae_backend env)"
      "be_now (ae_backend env) \<le> be_now (ae_backend env')"
  shows "\<exists>e w. authenticate env' accepted' h (b2, guard_run events g1) = (Inl e, w)"
proof -
  obtain agent c where p: "p = (agent, c)" by (cases p)
  obtain secret nonce where chk: "check_headers env h = Inr ((ac_id c, secret), nonce)"
    and res: "reserve (ae_guard env) (be_now (ae_backend env)) (ac_id c) nonce g = (Inr (), g1)"
    by (rule authenticate_success [OF first [unfolded p]]) blast
  let ?until = "be_now (ae_backend env) + seconds (ge_nonce_ttl (ae_guard env))"
  have "\<not> nonce_live (be_now (ae_backend env)) (ac_id c, nonce) g" "ge_available (ae_guard env)"
    using res by (auto simp: reserve_def split: if_splits)
  then have "reserved_until (ac_id c, nonce) ?until g1"
    using reserve_nonces [of "ae_guard env" "be_now (ae_backend env)" "ac_id c" nonce g] res by (simp add: reserved_until_def)
  from guard_run_keeps [OF this between]
  have kept: "reserved_until (ac_id c, nonce) ?until (guard_run events g1)" .
  show ?thesis
  proof (cases "check_headers env' h")
    case (Inl e)
    then show ?thesis by (auto simp: authenticate_def)
  next
    case (Inr x)
    obtain l s n where x: "x = ((l, s), n)" by (cases x) auto
    have same: "l = ac_id c" "n = nonce"
      using chk Inr x by (auto simp: check_headers_def split: option.splits if_splits)
    have "\<not> clock_skewed (ae_backend env') t"
      using check_headers_time [OF Inr] ts again(1) by (metis option.inject)
    then have "be_now (ae_backend env') \<le> t + seconds (be_clock_skew_seconds (ae_backend env))"
      using again(2) by (auto simp: clock_skewed_def)
    with edge have "be_now (ae_backend env') < be_now (ae_backend env) + 2 * seconds (be_clock_skew_seconds (ae_backend env))"
      by linarith
    also have "\<dots> \<le> ?until" using ttl by (simp add: seconds_def)
    finally have "nonce_live (be_now (ae_backend env')) (ac_id c, nonce) (guard_run events g1)"
      using kept by (auto simp: reserved_until_def nonce_live_def split: option.splits)
    then show ?thesis
      using live_nonce_refused [of env' h l s n] Inr x same by blast
  qed
qed

section \<open>A concrete request\<close>

definition demo_credential :: credential_row where
  "demo_credential = \<lparr>ac_id = demo_locator, ac_agent = ''a1'', ac_version = 1, ac_digest = demo_secret, ac_state = Cred_Active,
     ac_issued_at = 0, ac_activated_at = Some 0, ac_expires_at = days 90, ac_revoked_at = None, ac_revoked_by = None,
     ac_reason = None\<rparr>"

definition demo_auth_env :: "instant \<Rightarrow> auth_env" where
  "demo_auth_env now = \<lparr>ae_backend = demo_be_env\<lparr>be_now := now\<rparr>, ae_hmac = (\<lambda>s. s),
     ae_parse_time = (\<lambda>s. Some (seconds 990)),
     ae_guard = \<lparr>ge_available = True, ge_nonce_ttl = 600, ge_request_limit = 120\<rparr>\<rparr>"

definition demo_headers :: auth_headers where
  "demo_headers = \<lparr>hq_authorization = ''Bearer '' @ new_secret ''wto_ac_1'' demo_locator demo_secret,
     hq_timestamp = Some ''1970-01-01T00:16:30Z'', hq_nonce = Some (replicate 22 CHR ''n''),
     hq_protocol = Some ''1.0.0'', hq_correlation = Some ''c''\<rparr>"

definition demo_enrolled :: backend where
  "demo_enrolled = demo_backend\<lparr>b_credentials := [demo_credential]\<rparr>"

lemma replayed_request_is_refused_witness:
  "\<exists>p b1 g1. authenticate (demo_auth_env (seconds 1000)) Accept_Active demo_headers (demo_enrolled, empty_guard) = (Inr p, (b1, g1))
    \<and> (\<exists>e w. authenticate (demo_auth_env (seconds 1200)) Accept_Active demo_headers (demo_enrolled, guard_run [] g1) = (Inl e, w))"
proof -
  have "(case authenticate (demo_auth_env (seconds 1000)) Accept_Active demo_headers (demo_enrolled, empty_guard) of
      (Inr _, _) \<Rightarrow> True | _ \<Rightarrow> False)" by code_simp
  then obtain p b1 g1 where first:
    "authenticate (demo_auth_env (seconds 1000)) Accept_Active demo_headers (demo_enrolled, empty_guard) = (Inr p, (b1, g1))"
    by (auto split: prod.splits sum.splits)
  have "\<exists>e w. authenticate (demo_auth_env (seconds 1200)) Accept_Active demo_headers (demo_enrolled, guard_run [] g1) = (Inl e, w)"
    by (rule replayed_request_is_refused [OF first, where ts = "''1970-01-01T00:16:30Z''" and t = "seconds 990"])
      (simp_all add: demo_headers_def demo_auth_env_def demo_be_env_def seconds_def)
  with first show ?thesis by blast
qed

end
