(* ===== verification/Backend_Idempotency.thy ===== *)
theory Backend_Idempotency
  imports Agent_Auth
begin

text \<open>
  \<open>services/idempotency.py\<close>: the records that make the agent operations repeatable.  The cipher of the
  stored secrets (\<open>security/secret_replay.py\<close>) is an argument; what is used of it is that it decrypts
  what it encrypted for the same record.  The advisory lock serialises the operations of one scope,
  which a sequence of atomic operations already expresses.
\<close>

section \<open>Records\<close>

record crypto =
  cr_encrypt :: "string \<Rightarrow> uuid \<Rightarrow> api_response \<Rightarrow> string"
  cr_decrypt :: "uuid \<Rightarrow> string \<Rightarrow> api_response option"
  cr_credential_hmac :: "string \<Rightarrow> string"
  cr_token_hmac :: "string \<Rightarrow> string"

definition pending_window :: int where "pending_window = minutes 15"

definition terminal_retention :: int where "terminal_retention = days 7"

definition secret_window :: int where "secret_window = minutes 15"

record idem_scope =
  is_principal_type :: string
  is_principal_id :: uuid
  is_operation :: string
  is_key :: uuid

definition find_record :: "backend \<Rightarrow> idem_scope \<Rightarrow> idem_row option" where
  "find_record b sc = repo_idempotency b (is_principal_type sc) (is_principal_id sc) (is_operation sc) (is_key sc)"

text \<open>A new record, or the recorded answer with its status.\<close>

datatype idem_start = New_Record uuid | Recorded api_response "int option"

definition new_idem_row :: "be_env \<Rightarrow> idem_scope \<Rightarrow> string \<Rightarrow> idem_row" where
  "new_idem_row env sc fp =
     \<lparr>id_id = be_fresh env ''idempotency'', id_principal_type = is_principal_type sc, id_principal_id = is_principal_id sc,
      id_operation = is_operation sc, id_key = is_key sc, id_fingerprint = fp, id_state = Idem_Pending, id_status = None,
      id_body = None, id_created_at = be_now env, id_updated_at = be_now env,
      id_expires_at = be_now env + terminal_retention\<rparr>"

definition upd_record :: "uuid \<Rightarrow> (idem_row \<Rightarrow> idem_row) \<Rightarrow> backend \<Rightarrow> backend" where
  "upd_record rid f b = b\<lparr>b_idempotency := upd_where (\<lambda>r. id_id r = rid) f (b_idempotency b)\<rparr>"

text \<open>
  \<open>begin\<close>: the database returned is the session before a commit; a caller that raises loses it.
\<close>

definition idem_begin ::
  "be_env \<Rightarrow> crypto \<Rightarrow> idem_scope \<Rightarrow> string \<Rightarrow> bool \<Rightarrow> backend \<Rightarrow> idem_start be_outcome" where
  "idem_begin env cr sc fp secret_response b =
     (case find_record b sc of
        None \<Rightarrow>
          if be_fresh env ''idempotency'' \<in> id_id ` set (b_idempotency b) then (Inl Db_Integrity_Error, b)
          else (Inr (New_Record (be_fresh env ''idempotency'')),
                b\<lparr>b_idempotency := b_idempotency b @ [new_idem_row env sc fp]\<rparr>)
      | Some r \<Rightarrow>
          if id_fingerprint r \<noteq> fp then (Inl Idempotency_Conflict_Error, b)
          else if id_state r = Idem_Pending \<and> be_now env < id_updated_at r + pending_window
          then (Inl Idempotency_In_Progress_Error, b)
          else
            (let b1 = (if id_state r = Idem_Pending
                       then upd_record (id_id r) (\<lambda>r. r\<lparr>id_state := Idem_Failed, id_updated_at := be_now env\<rparr>) b else b)
             in if secret_response
                then (case repo_secret_replay b (id_id r) of
                        None \<Rightarrow> (Inl Secret_Replay_Expired_Error, b1)
                      | Some replay \<Rightarrow>
                          if sr_expires_at replay \<le> be_now env then (Inl Secret_Replay_Expired_Error, b1)
                          else (case cr_decrypt cr (id_id r) (sr_ciphertext replay) of
                                  None \<Rightarrow> (Inl Be_Value_Error, b1)
                                | Some body \<Rightarrow> (Inr (Recorded body (id_status r)), b1)))
                else (case (id_body r, id_status r) of
                        (Some (Some body), Some status) \<Rightarrow> (Inr (Recorded body (Some status)), b1)
                      | (Some None, Some status) \<Rightarrow> (Inl Be_Value_Error, b1)
                      | _ \<Rightarrow> (Inl Idempotency_In_Progress_Error, b1))))"

definition complete_public :: "be_env \<Rightarrow> uuid \<Rightarrow> api_response \<Rightarrow> int \<Rightarrow> backend \<Rightarrow> backend" where
  "complete_public env rid body status b =
     upd_record rid (\<lambda>r. r\<lparr>id_state := Idem_Completed, id_body := Some (Some body), id_status := Some status,
        id_updated_at := be_now env, id_expires_at := be_now env + terminal_retention\<rparr>) b"

definition complete_secret :: "be_env \<Rightarrow> crypto \<Rightarrow> uuid \<Rightarrow> api_response \<Rightarrow> int \<Rightarrow> backend \<Rightarrow> backend" where
  "complete_secret env cr rid body status b =
     (upd_record rid (\<lambda>r. r\<lparr>id_state := Idem_Completed, id_body := Some None, id_status := Some status,
        id_updated_at := be_now env, id_expires_at := be_now env + terminal_retention\<rparr>) b)
     \<lparr>b_replays := b_replays b @ [\<lparr>sr_record = rid, sr_ciphertext = cr_encrypt cr (be_fresh env ''nonce'') rid body,
        sr_expires_at = be_now env + secret_window\<rparr>]\<rparr>"

section \<open>The contract of a repeatable operation\<close>

text \<open>
  What a client of the agent interface relies on: an operation that has succeeded answers the same
  when it is called again with the same request in the replay window, and does nothing else.  \<open>core\<close>
  is the state without the audit log, which records every replay.
\<close>

text \<open>A client that repeats its call at given instants.\<close>

fun repeat_calls :: "(instant \<Rightarrow> 'q \<Rightarrow> 's \<Rightarrow> ('e + 'r) \<times> 's) \<Rightarrow> instant list \<Rightarrow> 'q \<Rightarrow> 's \<Rightarrow> ('e + 'r) list \<times> 's" where
  "repeat_calls call [] q s = ([], s)"
| "repeat_calls call (now # nows) q s =
     (case call now q s of (x, s1) \<Rightarrow> (case repeat_calls call nows q s1 of (xs, s2) \<Rightarrow> (x # xs, s2)))"

locale repeatable =
  fixes call :: "instant \<Rightarrow> 'q \<Rightarrow> 's \<Rightarrow> ('e + 'r) \<times> 's"
    and recorded :: "'q \<Rightarrow> 'r \<Rightarrow> instant \<Rightarrow> 's \<Rightarrow> bool"
    and core :: "'s \<Rightarrow> 'c"
    and wf :: "'s \<Rightarrow> bool"
    and valid :: "instant \<Rightarrow> 'q \<Rightarrow> bool"
    and window :: int
  assumes first: "wf s \<Longrightarrow> valid now q \<Longrightarrow> \<forall>r0 until. \<not> recorded q r0 until s \<Longrightarrow> call now q s = (Inr r, s') \<Longrightarrow>
      wf s' \<and> recorded q r (now + window) s'"
    and replays: "wf s \<Longrightarrow> valid now q \<Longrightarrow> recorded q r until s \<Longrightarrow> now < until \<Longrightarrow>
      \<exists>s'. call now q s = (Inr r, s') \<and> core s' = core s \<and> wf s' \<and> recorded q r until s'"
begin

text \<open>Any number of repetitions within the window gives the same answer and leaves the core alone.\<close>

lemma repeats_are_replays:
  assumes "wf s" and "recorded q r until s" and "\<forall>now \<in> set nows. now < until \<and> valid now q"
  shows "\<exists>s'. repeat_calls call nows q s = (replicate (length nows) (Inr r), s') \<and> core s' = core s \<and> wf s' \<and> recorded q r until s'"
  using assms
proof (induction nows arbitrary: s)
  case Nil
  then show ?case by simp
next
  case (Cons now nows)
  obtain s1 where s1: "call now q s = (Inr r, s1)" "core s1 = core s" "wf s1" "recorded q r until s1"
    using replays [OF Cons.prems(1) _ Cons.prems(2), of now] Cons.prems(3) by auto
  obtain s2 where "repeat_calls call nows q s1 = (replicate (length nows) (Inr r), s2)" "core s2 = core s1" "wf s2" "recorded q r until s2"
    using Cons.IH [OF s1(3,4)] Cons.prems(3) by auto
  with s1 show ?case by simp
qed

lemma first_then_replays:
  assumes "wf s" and "valid now q" and "\<forall>r0 until. \<not> recorded q r0 until s" and "call now q s = (Inr r, s')"
    and "\<forall>t \<in> set nows. t < now + window \<and> valid t q"
  shows "\<exists>s''. repeat_calls call nows q s' = (replicate (length nows) (Inr r), s'') \<and> core s'' = core s'"
  using repeats_are_replays [OF _ _ assms(5), of s' r] first [OF assms(1-4)] by blast

end

section \<open>What a record remembers\<close>

definition idem_wf :: "backend \<Rightarrow> bool" where
  "idem_wf b \<longleftrightarrow> distinct (map id_id (b_idempotency b)) \<and> sr_record ` set (b_replays b) \<subseteq> id_id ` set (b_idempotency b)"

definition row_in_scope :: "idem_scope \<Rightarrow> idem_row \<Rightarrow> bool" where
  "row_in_scope sc r \<longleftrightarrow> id_principal_type r = is_principal_type sc \<and> id_principal_id r = is_principal_id sc
     \<and> id_operation r = is_operation sc \<and> id_key r = is_key sc"

lemma find_record_eq: "find_record b sc = find (row_in_scope sc) (b_idempotency b)"
  by (simp add: find_record_def repo_idempotency_def row_in_scope_def [abs_def])

definition recorded_secret :: "crypto \<Rightarrow> idem_scope \<Rightarrow> string \<Rightarrow> api_response \<Rightarrow> instant \<Rightarrow> backend \<Rightarrow> bool" where
  "recorded_secret cr sc fp r until b \<longleftrightarrow>
     (\<exists>row rep. find_record b sc = Some row \<and> id_fingerprint row = fp \<and> id_state row \<noteq> Idem_Pending
        \<and> repo_secret_replay b (id_id row) = Some rep \<and> sr_expires_at rep = until
        \<and> cr_decrypt cr (id_id row) (sr_ciphertext rep) = Some r)"

definition recorded_public :: "idem_scope \<Rightarrow> string \<Rightarrow> api_response \<Rightarrow> backend \<Rightarrow> bool" where
  "recorded_public sc fp r b \<longleftrightarrow>
     (\<exists>row st. find_record b sc = Some row \<and> id_fingerprint row = fp \<and> id_state row \<noteq> Idem_Pending
        \<and> id_body row = Some (Some r) \<and> id_status row = Some st)"

definition same_records :: "backend \<Rightarrow> backend \<Rightarrow> bool" where
  "same_records b b' \<longleftrightarrow> b_idempotency b' = b_idempotency b \<and> b_replays b' = b_replays b"

lemma begin_recorded_secret:
  assumes "recorded_secret cr sc fp r until b" and "be_now env < until"
  shows "\<exists>st. idem_begin env cr sc fp True b = (Inr (Recorded r st), b)"
  using assms by (auto simp: recorded_secret_def idem_begin_def Let_def)

lemma begin_recorded_public:
  assumes "recorded_public sc fp r b"
  shows "\<exists>st. idem_begin env cr sc fp False b = (Inr (Recorded r st), b)"
  using assms by (auto simp: recorded_public_def idem_begin_def Let_def)

lemma begin_new:
  assumes "idem_begin env cr sc fp secret b = (Inr (New_Record rid), b1)"
  shows "find_record b sc = None \<and> rid = be_fresh env ''idempotency'' \<and> rid \<notin> id_id ` set (b_idempotency b)
    \<and> b1 = b\<lparr>b_idempotency := b_idempotency b @ [new_idem_row env sc fp]\<rparr>"
  using assms
  by (auto simp: idem_begin_def Let_def split: option.splits if_splits)

lemma begin_recorded:
  assumes "idem_begin env cr sc fp secret b = (Inr (Recorded r st), b1)"
  shows "(\<exists>row. find_record b sc = Some row \<and> id_fingerprint row = fp
      \<and> (if secret then \<exists>rep. repo_secret_replay b (id_id row) = Some rep \<and> be_now env < sr_expires_at rep
              \<and> cr_decrypt cr (id_id row) (sr_ciphertext rep) = Some r
         else id_body row = Some (Some r)))
    \<and> (b1 = b \<or> (\<exists>rid. b1 = upd_record rid (\<lambda>r. r\<lparr>id_state := Idem_Failed, id_updated_at := be_now env\<rparr>) b))"
proof (intro conjI)
  show "b1 = b \<or> (\<exists>rid. b1 = upd_record rid (\<lambda>r. r\<lparr>id_state := Idem_Failed, id_updated_at := be_now env\<rparr>) b)"
    using assms by (simp add: idem_begin_def Let_def split: option.splits if_splits) blast+
qed (use assms in \<open>auto simp: idem_begin_def Let_def split: option.splits if_splits\<close>)

lemma begin_tables:
  assumes "idem_begin env cr sc fp secret b = (x, b1)"
  shows "b_credentials b1 = b_credentials b \<and> b_rotations b1 = b_rotations b \<and> b_agents b1 = b_agents b
    \<and> b_tokens b1 = b_tokens b \<and> b_devices b1 = b_devices b \<and> b_replays b1 = b_replays b \<and> b_manifests b1 = b_manifests b
    \<and> b_presences b1 = b_presences b \<and> b_audit b1 = b_audit b"
  using assms by (auto simp: idem_begin_def Let_def upd_record_def split: option.splits if_splits)

lemma upd_record_tables [simp]:
  "b_credentials (upd_record rid f b) = b_credentials b" "b_rotations (upd_record rid f b) = b_rotations b"
  "b_agents (upd_record rid f b) = b_agents b" "b_tokens (upd_record rid f b) = b_tokens b"
  "b_devices (upd_record rid f b) = b_devices b" "b_replays (upd_record rid f b) = b_replays b"
  "b_manifests (upd_record rid f b) = b_manifests b" "b_presences (upd_record rid f b) = b_presences b"
  by (simp_all add: upd_record_def)

lemma complete_tables [simp]:
  "b_credentials (complete_secret env cr rid body st b) = b_credentials b"
  "b_rotations (complete_secret env cr rid body st b) = b_rotations b"
  "b_agents (complete_secret env cr rid body st b) = b_agents b" "b_tokens (complete_secret env cr rid body st b) = b_tokens b"
  "b_devices (complete_secret env cr rid body st b) = b_devices b"
  "b_manifests (complete_secret env cr rid body st b) = b_manifests b"
  "b_presences (complete_secret env cr rid body st b) = b_presences b"
  "b_credentials (complete_public env rid body st b) = b_credentials b"
  "b_rotations (complete_public env rid body st b) = b_rotations b"
  "b_agents (complete_public env rid body st b) = b_agents b" "b_tokens (complete_public env rid body st b) = b_tokens b"
  "b_devices (complete_public env rid body st b) = b_devices b" "b_replays (complete_public env rid body st b) = b_replays b"
  "b_manifests (complete_public env rid body st b) = b_manifests b"
  "b_presences (complete_public env rid body st b) = b_presences b"
  by (simp_all add: complete_secret_def complete_public_def)

lemma completed_row:
  assumes "rid \<notin> id_id ` set recs" and "id_id row = rid" and "row_in_scope sc row" and "find (row_in_scope sc) recs = None"
    and "\<And>r. row_in_scope sc (f r) = row_in_scope sc r"
  shows "find (row_in_scope sc) (upd_where (\<lambda>r. id_id r = rid) f (recs @ [row])) = Some (f row)"
proof -
  have "upd_where (\<lambda>r. id_id r = rid) f recs = recs" using assms(1) by (intro upd_where_none) auto
  then show ?thesis using assms by (simp add: find_append)
qed

lemma complete_secret_records:
  assumes "idem_begin env cr sc fp secret b = (Inr (New_Record rid), b1)" and "idem_wf b" and "same_records b1 b2"
    and law: "\<And>n i x. cr_decrypt cr i (cr_encrypt cr n i x) = Some x"
  shows "recorded_secret cr sc fp body (be_now env + secret_window) (complete_secret env cr rid body st b2)
    \<and> idem_wf (complete_secret env cr rid body st b2)"
proof -
  note new = begin_new [OF assms(1)]
  let ?f = "\<lambda>r. r\<lparr>id_state := Idem_Completed, id_body := Some None, id_status := Some st,
        id_updated_at := be_now env, id_expires_at := be_now env + terminal_retention\<rparr>"
  have recs: "b_idempotency b2 = b_idempotency b @ [new_idem_row env sc fp]" "b_replays b2 = b_replays b"
    using assms(3) new by (simp_all add: same_records_def)
  have "find (row_in_scope sc) (b_idempotency (complete_secret env cr rid body st b2)) = Some (?f (new_idem_row env sc fp))"
    (is "find _ ?recs = _")
  proof -
    have "?recs = upd_where (\<lambda>r. id_id r = rid) ?f (b_idempotency b @ [new_idem_row env sc fp])"
      by (simp add: complete_secret_def upd_record_def recs(1))
    also have "find (row_in_scope sc) \<dots> = Some (?f (new_idem_row env sc fp))"
    proof (rule completed_row)
      show "rid \<notin> id_id ` set (b_idempotency b)" using new by blast
      show "id_id (new_idem_row env sc fp) = rid" "row_in_scope sc (new_idem_row env sc fp)"
        using new by (simp_all add: new_idem_row_def row_in_scope_def)
      show "find (row_in_scope sc) (b_idempotency b) = None" using new by (simp add: find_record_eq)
    qed (simp add: row_in_scope_def)
    finally show ?thesis .
  qed
  moreover have "rid \<notin> sr_record ` set (b_replays b)" using assms(2) new by (auto simp: idem_wf_def)
  then have "find (\<lambda>r. sr_record r = rid) (b_replays b) = None" by (simp add: find_key_None)
  ultimately show ?thesis
    using assms(2) new recs law
    by (auto simp: recorded_secret_def find_record_eq repo_secret_replay_def complete_secret_def upd_record_def
        find_append new_idem_row_def idem_wf_def image_iff)
qed

lemma complete_public_records:
  assumes "idem_begin env cr sc fp secret b = (Inr (New_Record rid), b1)" and "idem_wf b" and "same_records b1 b2"
  shows "recorded_public sc fp body (complete_public env rid body st b2) \<and> idem_wf (complete_public env rid body st b2)"
proof -
  note new = begin_new [OF assms(1)]
  let ?f = "\<lambda>r. r\<lparr>id_state := Idem_Completed, id_body := Some (Some body), id_status := Some st,
        id_updated_at := be_now env, id_expires_at := be_now env + terminal_retention\<rparr>"
  have recs: "b_idempotency b2 = b_idempotency b @ [new_idem_row env sc fp]" "b_replays b2 = b_replays b"
    using assms(3) new by (simp_all add: same_records_def)
  have "find (row_in_scope sc) (b_idempotency (complete_public env rid body st b2)) = Some (?f (new_idem_row env sc fp))"
    (is "find _ ?recs = _")
  proof -
    have "?recs = upd_where (\<lambda>r. id_id r = rid) ?f (b_idempotency b @ [new_idem_row env sc fp])"
      by (simp add: complete_public_def upd_record_def recs(1))
    also have "find (row_in_scope sc) \<dots> = Some (?f (new_idem_row env sc fp))"
    proof (rule completed_row)
      show "rid \<notin> id_id ` set (b_idempotency b)" using new by blast
      show "id_id (new_idem_row env sc fp) = rid" "row_in_scope sc (new_idem_row env sc fp)"
        using new by (simp_all add: new_idem_row_def row_in_scope_def)
      show "find (row_in_scope sc) (b_idempotency b) = None" using new by (simp add: find_record_eq)
    qed (simp add: row_in_scope_def)
    finally show ?thesis .
  qed
  then show ?thesis
    using assms(2) new recs
    by (auto simp: recorded_public_def find_record_eq complete_public_def upd_record_def new_idem_row_def idem_wf_def image_iff)
qed

lemma recorded_records_only:
  "b_idempotency b' = b_idempotency b \<Longrightarrow> b_replays b' = b_replays b \<Longrightarrow>
   recorded_secret cr sc fp r until b' = recorded_secret cr sc fp r until b"
  "b_idempotency b' = b_idempotency b \<Longrightarrow> recorded_public sc fp r b' = recorded_public sc fp r b"
  "b_idempotency b' = b_idempotency b \<Longrightarrow> b_replays b' = b_replays b \<Longrightarrow> idem_wf b' = idem_wf b"
  by (simp_all add: recorded_secret_def recorded_public_def find_record_eq repo_secret_replay_def idem_wf_def)

end
