(* ===== verification/Backend_Credentials.thy ===== *)
theory Backend_Credentials
  imports Backend_Idempotency
begin

text \<open>
  \<open>services/agent_credentials.py\<close> and \<open>services/enrollment.py\<close>: rotation of credentials, revocation,
  enrolment tokens and the registration of an agent.  A write is checked against the unique indexes
  of \<open>domain/models.py\<close> when the session flushes it; a violated index is the exception
  \<open>Db_Integrity_Error\<close>.  An exception before the commit leaves the database as it was.
\<close>

section \<open>Unique indexes\<close>

definition with_state :: "cred_state \<Rightarrow> credential_row list \<Rightarrow> credential_row list" where
  "with_state st rows = filter (\<lambda>c. ac_state c = st) rows"

definition credentials_ok :: "credential_row list \<Rightarrow> bool" where
  "credentials_ok rows \<longleftrightarrow> distinct (map ac_id rows) \<and> distinct (map (\<lambda>c. (ac_agent c, ac_version c)) rows)
     \<and> distinct (map ac_agent (with_state Cred_Active rows)) \<and> distinct (map ac_agent (with_state Cred_Pending rows))"

definition rotations_ok :: "rotation_row list \<Rightarrow> bool" where
  "rotations_ok rows \<longleftrightarrow> distinct (map ro_id rows) \<and> distinct (map ro_pending rows)
     \<and> distinct (map ro_agent (filter (\<lambda>r. ro_state r = Ro_Pending) rows))"

definition agents_ok :: "agent_row list \<Rightarrow> bool" where
  "agents_ok rows \<longleftrightarrow> distinct (map ag_id rows)
     \<and> distinct (map ag_installation (filter (\<lambda>a. ag_installation a \<noteq> None) rows))"

definition flush_credentials :: "credential_row list \<Rightarrow> backend \<Rightarrow> backend option" where
  "flush_credentials rows b = (if credentials_ok rows then Some (b\<lparr>b_credentials := rows\<rparr>) else None)"

definition flush_rotations :: "rotation_row list \<Rightarrow> backend \<Rightarrow> backend option" where
  "flush_rotations rows b = (if rotations_ok rows then Some (b\<lparr>b_rotations := rows\<rparr>) else None)"

definition flush_agents :: "agent_row list \<Rightarrow> backend \<Rightarrow> backend option" where
  "flush_agents rows b = (if agents_ok rows then Some (b\<lparr>b_agents := rows\<rparr>) else None)"

definition upd_credential :: "uuid \<Rightarrow> (credential_row \<Rightarrow> credential_row) \<Rightarrow> credential_row list \<Rightarrow> credential_row list" where
  "upd_credential cid f rows = upd_where (\<lambda>c. ac_id c = cid) f rows"

definition upd_rotation :: "uuid \<Rightarrow> (rotation_row \<Rightarrow> rotation_row) \<Rightarrow> rotation_row list \<Rightarrow> rotation_row list" where
  "upd_rotation rid f rows = upd_where (\<lambda>r. ro_id r = rid) f rows"

text \<open>\<open>int(highest or 0) + 1\<close> over the versions of the agent's credentials.\<close>

definition next_version :: "uuid \<Rightarrow> backend \<Rightarrow> int" where
  "next_version agent_id b = foldr max (map ac_version (filter (\<lambda>c. ac_agent c = agent_id) (b_credentials b))) 0 + 1"

section \<open>Rotation\<close>

definition audit_agent :: "be_env \<Rightarrow> uuid \<Rightarrow> string \<Rightarrow> string \<Rightarrow> uuid \<Rightarrow> (string \<times> json) list \<Rightarrow> backend \<Rightarrow> backend" where
  "audit_agent env agent_id action resource_type resource_id metadata b =
     write_audit (be_now env) ''agent'' None (Some agent_id) action resource_type (Some resource_id) ''success'' metadata b"

definition audit_user :: "be_env \<Rightarrow> uuid \<Rightarrow> string \<Rightarrow> string \<Rightarrow> uuid \<Rightarrow> (string \<times> json) list \<Rightarrow> backend \<Rightarrow> backend" where
  "audit_user env actor action resource_type resource_id metadata b =
     write_audit (be_now env) ''user'' (Some actor) None action resource_type (Some resource_id) ''success'' metadata b"

definition expire_pending :: "be_env \<Rightarrow> uuid \<Rightarrow> backend \<Rightarrow> backend" where
  "expire_pending env agent_id b =
     (case repo_pending_rotation b agent_id of
        None \<Rightarrow> b
      | Some r \<Rightarrow>
          if be_now env < ro_expires_at r then b
          else b\<lparr>b_rotations := upd_rotation (ro_id r) (\<lambda>r. r\<lparr>ro_state := Ro_Expired\<rparr>) (b_rotations b),
                 b_credentials := upd_where (\<lambda>c. ac_id c = ro_pending r \<and> ac_state c = Cred_Pending)
                   (\<lambda>c. c\<lparr>ac_state := Cred_Expired, ac_revoked_at := Some (be_now env), ac_reason := Some ''rotation_expired''\<rparr>)
                   (b_credentials b)\<rparr>)"

definition rotate_scope :: "uuid \<Rightarrow> uuid \<Rightarrow> idem_scope" where
  "rotate_scope agent_id key = \<lparr>is_principal_type = ''agent'', is_principal_id = agent_id,
     is_operation = ''agent.credential.rotate'', is_key = key\<rparr>"

definition rotate_fingerprint :: "be_env \<Rightarrow> string" where
  "rotate_fingerprint env = be_sha env (canonical_json (JObj [(''schema_version'', JStr ''1.0.0'')]))"

text \<open>The new rows of a rotation, from the database after the expiry of an old one.\<close>

definition new_pending_credential :: "be_env \<Rightarrow> crypto \<Rightarrow> uuid \<Rightarrow> string \<Rightarrow> backend \<Rightarrow> credential_row" where
  "new_pending_credential env cr agent_id secret b =
     \<lparr>ac_id = be_fresh env ''credential'', ac_agent = agent_id, ac_version = next_version agent_id b,
      ac_digest = cr_credential_hmac cr secret, ac_state = Cred_Pending, ac_issued_at = be_now env,
      ac_activated_at = None, ac_expires_at = be_now env + minutes 15, ac_revoked_at = None, ac_revoked_by = None,
      ac_reason = None\<rparr>"

definition new_rotation :: "be_env \<Rightarrow> uuid \<Rightarrow> uuid \<Rightarrow> rotation_row" where
  "new_rotation env agent_id active_id =
     \<lparr>ro_id = be_fresh env ''rotation'', ro_agent = agent_id, ro_previous = active_id,
      ro_pending = be_fresh env ''credential'', ro_state = Ro_Pending, ro_created_at = be_now env,
      ro_expires_at = be_now env + minutes 15, ro_activated_at = None\<rparr>"

definition issue_rotation ::
  "be_env \<Rightarrow> crypto \<Rightarrow> uuid \<Rightarrow> uuid \<Rightarrow> string \<Rightarrow> backend \<Rightarrow> api_response be_outcome" where
  "issue_rotation env cr agent_id active_id secret b =
     (let c = new_pending_credential env cr agent_id secret b; r = new_rotation env agent_id active_id
      in case flush_credentials (b_credentials b @ [c]) b of
           None \<Rightarrow> (Inl Db_Integrity_Error, b)
         | Some b1 \<Rightarrow>
             (case flush_rotations (b_rotations b1 @ [r]) b1 of
                None \<Rightarrow> (Inl Db_Integrity_Error, b)
              | Some b2 \<Rightarrow>
                  (Inr (Rotation_Created (ro_id r) (ro_expires_at r)
                     \<lparr>ic_id = ac_id c, ic_version = ac_version c, ic_value = new_secret ''wto_ac_1'' (ac_id c) secret,
                      ic_issued_at = ac_issued_at c, ic_expires_at = ac_expires_at c\<rparr>), b2)))"

definition create_rotation ::
  "be_env \<Rightarrow> crypto \<Rightarrow> uuid \<Rightarrow> uuid \<Rightarrow> uuid \<Rightarrow> string \<Rightarrow> backend \<Rightarrow> api_response be_outcome" where
  "create_rotation env cr agent_id active_id key secret b =
     (case idem_begin env cr (rotate_scope agent_id key) (rotate_fingerprint env) True b of
        (Inl Secret_Replay_Expired_Error, b1) \<Rightarrow> (Inl Secret_Replay_Expired_Error, expire_pending env agent_id b1)
      | (Inl e, _) \<Rightarrow> (Inl e, b)
      | (Inr (Recorded body _), b1) \<Rightarrow>
          (case body of
             Rotation_Created rid expires issued \<Rightarrow>
               (Inr body, audit_agent env agent_id ''idempotency.replay'' ''agent_credential_rotation'' rid
                  [(''operation_id'', JStr ''agent.credential.rotate''), (''agent_id'', JStr agent_id),
                   (''rotation_id'', JStr rid)] b1)
           | _ \<Rightarrow> (Inl Be_Value_Error, b))
      | (Inr (New_Record rec), b1) \<Rightarrow>
          if \<not> agent_usable b1 agent_id then (Inl Agent_Authentication_Error, b)
          else
            (let b2 = expire_pending env agent_id b1
             in if repo_pending_rotation b2 agent_id \<noteq> None then (Inl Conflict_Error, b)
                else if (case repo_credential b2 active_id of None \<Rightarrow> True | Some c \<Rightarrow> ac_state c \<noteq> Cred_Active)
                then (Inl Agent_Authentication_Error, b)
                else
                  (case issue_rotation env cr agent_id active_id secret b2 of
                     (Inl e, _) \<Rightarrow> (Inl e, b)
                   | (Inr body, b3) \<Rightarrow>
                       (Inr body,
                        audit_agent env agent_id ''agent_credential.rotation_create'' ''agent_credential_rotation''
                          (be_fresh env ''rotation'')
                          [(''agent_id'', JStr agent_id), (''credential_id'', JStr (be_fresh env ''credential'')),
                           (''credential_version'', JInt (next_version agent_id b2)),
                           (''rotation_id'', JStr (be_fresh env ''rotation''))]
                          (complete_secret env cr rec body 201 b3)))))"

definition activate_scope :: "uuid \<Rightarrow> uuid \<Rightarrow> uuid \<Rightarrow> idem_scope" where
  "activate_scope agent_id rotation_id key = \<lparr>is_principal_type = ''agent'', is_principal_id = agent_id,
     is_operation = ''agent.credential.activate:'' @ rotation_id, is_key = key\<rparr>"

definition activate_fingerprint :: "be_env \<Rightarrow> uuid \<Rightarrow> string" where
  "activate_fingerprint env rotation_id =
     be_sha env (canonical_json (JObj [(''schema_version'', JStr ''1.0.0''), (''rotation_id'', JStr rotation_id)]))"

text \<open>The previous credential is flushed as revoked before the pending one becomes active.\<close>

definition switch_credentials :: "be_env \<Rightarrow> rotation_row \<Rightarrow> backend \<Rightarrow> api_response be_outcome" where
  "switch_credentials env r b =
     (let now = be_now env;
          rows1 = upd_credential (ro_previous r)
                    (\<lambda>c. c\<lparr>ac_state := Cred_Revoked, ac_revoked_at := Some now, ac_reason := Some ''credential_rotated''\<rparr>)
                    (b_credentials b);
          rows2 = upd_credential (ro_pending r)
                    (\<lambda>c. c\<lparr>ac_state := Cred_Active, ac_activated_at := Some now,
                            ac_expires_at := now + days (be_credential_days env)\<rparr>) rows1
      in case (find (\<lambda>c. ac_id c = ro_pending r) (b_credentials b), find (\<lambda>c. ac_id c = ro_previous r) (b_credentials b)) of
           (Some pending, Some previous) \<Rightarrow>
             if ac_state pending \<noteq> Cred_Pending then (Inl Conflict_Error, b)
             else (case flush_credentials rows1 b of
                     None \<Rightarrow> (Inl Db_Integrity_Error, b)
                   | Some b1 \<Rightarrow>
                       (case flush_credentials rows2 b1 of
                          None \<Rightarrow> (Inl Db_Integrity_Error, b)
                        | Some b2 \<Rightarrow>
                            (Inr (Rotation_Activated (ro_id r) (ro_pending r) (ac_version pending) now),
                             b2\<lparr>b_rotations := upd_rotation (ro_id r)
                                  (\<lambda>r. r\<lparr>ro_state := Ro_Activated, ro_activated_at := Some now\<rparr>) (b_rotations b2)\<rparr>)))
         | _ \<Rightarrow> (Inl Conflict_Error, b))"

definition activate_rotation ::
  "be_env \<Rightarrow> crypto \<Rightarrow> uuid \<Rightarrow> uuid \<Rightarrow> uuid \<Rightarrow> uuid \<Rightarrow> backend \<Rightarrow> api_response be_outcome" where
  "activate_rotation env cr agent_id supplied_id rotation_id key b =
     (case idem_begin env cr (activate_scope agent_id rotation_id key) (activate_fingerprint env rotation_id) False b of
        (Inl e, _) \<Rightarrow> (Inl e, b)
      | (Inr (Recorded body _), b1) \<Rightarrow>
          (case body of
             Rotation_Activated rid cid v t \<Rightarrow>
               (Inr body, audit_agent env agent_id ''idempotency.replay'' ''agent_credential_rotation'' rid
                  [(''operation_id'', JStr ''agent.credential.activate''), (''agent_id'', JStr agent_id),
                   (''rotation_id'', JStr rid)] b1)
           | _ \<Rightarrow> (Inl Be_Value_Error, b))
      | (Inr (New_Record rec), b1) \<Rightarrow>
          (case repo_rotation b1 rotation_id of
             None \<Rightarrow> (Inl Agent_Authentication_Error, b)
           | Some r \<Rightarrow>
               if \<not> agent_usable b1 agent_id \<or> ro_agent r \<noteq> agent_id \<or> ro_pending r \<noteq> supplied_id
               then (Inl Agent_Authentication_Error, b)
               else if ro_state r \<noteq> Ro_Pending \<or> ro_expires_at r \<le> be_now env then (Inl Conflict_Error, b)
               else
                 (case switch_credentials env r b1 of
                    (Inl e, _) \<Rightarrow> (Inl e, b)
                  | (Inr body, b2) \<Rightarrow>
                      (Inr body,
                       audit_agent env agent_id ''agent_credential.rotation_activate'' ''agent_credential_rotation'' (ro_id r)
                         [(''agent_id'', JStr agent_id), (''credential_id'', JStr (ro_pending r)),
                          (''credential_version'',
                             (case body of Rotation_Activated _ _ v _ \<Rightarrow> JInt v | _ \<Rightarrow> JNull)),
                          (''rotation_id'', JStr (ro_id r))]
                         (complete_public env rec body 200 b2)))))"

section \<open>Metadata and revocation\<close>

definition credentials_of :: "uuid \<Rightarrow> backend \<Rightarrow> be_error + credential_row list" where
  "credentials_of agent_id b =
     (if repo_agent b agent_id = None then Inl Resource_Not_Found_Error
      else Inr (sort_key ac_version (filter (\<lambda>c. ac_agent c = agent_id) (b_credentials b))))"

definition revoke_credential :: "be_env \<Rightarrow> uuid \<Rightarrow> uuid \<Rightarrow> uuid \<Rightarrow> backend \<Rightarrow> unit be_outcome" where
  "revoke_credential env agent_id credential_id actor b =
     (case repo_credential b credential_id of
        None \<Rightarrow> (Inl Resource_Not_Found_Error, b)
      | Some c \<Rightarrow>
          if ac_agent c \<noteq> agent_id then (Inl Resource_Not_Found_Error, b)
          else (Inr (),
                audit_user env actor ''agent_credential.revoke'' ''agent_credential'' credential_id
                  [(''agent_id'', JStr agent_id), (''credential_id'', JStr credential_id)]
                  (b\<lparr>b_credentials := upd_credential credential_id
                       (\<lambda>c. c\<lparr>ac_state := Cred_Revoked, ac_revoked_at := Some (be_now env), ac_revoked_by := Some actor,
                               ac_reason := Some ''administrator_revocation''\<rparr>) (b_credentials b)\<rparr>)))"

definition revoke_agent :: "be_env \<Rightarrow> uuid \<Rightarrow> uuid \<Rightarrow> backend \<Rightarrow> unit be_outcome" where
  "revoke_agent env agent_id actor b =
     (case repo_agent b agent_id of
        None \<Rightarrow> (Inl Resource_Not_Found_Error, b)
      | Some _ \<Rightarrow>
          (Inr (),
           audit_user env actor ''agent.revoke'' ''agent'' agent_id [(''agent_id'', JStr agent_id)]
             (b\<lparr>b_agents := upd_where (\<lambda>a. ag_id a = agent_id)
                  (\<lambda>a. a\<lparr>ag_is_active := False, ag_disabled_at := Some (be_now env), ag_revoked_at := Some (be_now env),
                          ag_revoked_by := Some actor, ag_revocation_reason := Some ''administrator_revocation''\<rparr>)
                  (b_agents b),
                b_credentials := upd_where (\<lambda>c. ac_agent c = agent_id \<and> ac_state c \<in> {Cred_Active, Cred_Pending})
                  (\<lambda>c. c\<lparr>ac_state := Cred_Revoked, ac_revoked_at := Some (be_now env), ac_revoked_by := Some actor,
                          ac_reason := Some ''agent_revoked''\<rparr>) (b_credentials b),
                b_rotations := upd_where (\<lambda>r. ro_agent r = agent_id \<and> ro_state r = Ro_Pending)
                  (\<lambda>r. r\<lparr>ro_state := Ro_Revoked\<rparr>) (b_rotations b)\<rparr>)))"

section \<open>Enrolment tokens\<close>

record token_request =
  tq_scope :: string
  tq_expires_in_minutes :: int
  tq_allowed_platforms :: "string list"
  tq_bound_agent :: "uuid option"

record token_response =
  tp_id :: uuid
  tp_value :: string
  tp_scope :: string
  tp_expires_at :: instant

definition tokens_ok :: "token_row list \<Rightarrow> bool" where
  "tokens_ok rows \<longleftrightarrow> distinct (map et_id rows) \<and> distinct (map et_digest rows)
     \<and> (\<forall>t \<in> set rows. et_created_at t < et_expires_at t)"

definition create_token :: "be_env \<Rightarrow> crypto \<Rightarrow> token_request \<Rightarrow> uuid \<Rightarrow> string \<Rightarrow> backend \<Rightarrow> token_response be_outcome" where
  "create_token env cr q actor secret b =
     (if tq_scope q = ''agent.recover'' \<and> tq_bound_agent q = None then (Inl Conflict_Error, b)
      else if tq_scope q = ''agent.enroll'' \<and> tq_bound_agent q \<noteq> None then (Inl Conflict_Error, b)
      else if (case tq_bound_agent q of None \<Rightarrow> False | Some a \<Rightarrow> repo_agent b a = None) then (Inl Conflict_Error, b)
      else
        (let now = be_now env; tid = be_fresh env ''token'';
             t = \<lparr>et_id = tid, et_digest = cr_token_hmac cr secret, et_scope = tq_scope q, et_max_uses = 1,
                  et_uses_consumed = 0, et_allowed_platforms = tq_allowed_platforms q, et_bound_agent = tq_bound_agent q,
                  et_created_by = actor, et_created_at = now, et_expires_at = now + minutes (tq_expires_in_minutes q),
                  et_consumed_at = None, et_revoked_at = None, et_revoked_by = None, et_revocation_reason = None\<rparr>
         in if \<not> tokens_ok (b_tokens b @ [t]) then (Inl Db_Integrity_Error, b)
            else (Inr \<lparr>tp_id = tid, tp_value = new_secret ''wto_enr_1'' tid secret, tp_scope = tq_scope q,
                       tp_expires_at = et_expires_at t\<rparr>,
                  audit_user env actor ''enrollment_token.create'' ''enrollment_token'' tid
                    [(''enrollment_token_id'', JStr tid), (''scope'', JStr (tq_scope q))]
                    (b\<lparr>b_tokens := b_tokens b @ [t]\<rparr>))))"

definition revoke_token :: "be_env \<Rightarrow> uuid \<Rightarrow> uuid \<Rightarrow> backend \<Rightarrow> unit be_outcome" where
  "revoke_token env token_id actor b =
     (case repo_enrollment_token b token_id of
        None \<Rightarrow> (Inl Conflict_Error, b)
      | Some t \<Rightarrow>
          (Inr (),
           audit_user env actor ''enrollment_token.revoke'' ''enrollment_token'' token_id
             [(''enrollment_token_id'', JStr token_id)]
             (b\<lparr>b_tokens := upd_where (\<lambda>t. et_id t = token_id \<and> et_revoked_at t = None)
                  (\<lambda>t. t\<lparr>et_revoked_at := Some (be_now env), et_revoked_by := Some actor,
                          et_revocation_reason := Some ''administrator_revocation''\<rparr>) (b_tokens b)\<rparr>)))"

section \<open>Registration\<close>

record registration =
  rq_raw :: json
  rq_token :: string
  rq_key :: uuid
  rq_installation :: uuid
  rq_display_name :: string
  rq_platform :: string
  rq_reported_at :: instant

definition register_scope :: "uuid \<Rightarrow> registration \<Rightarrow> idem_scope" where
  "register_scope token_id q = \<lparr>is_principal_type = ''enrollment_token'', is_principal_id = token_id,
     is_operation = ''agent.register:'' @ rq_installation q, is_key = rq_key q\<rparr>"

text \<open>The fingerprint leaves out the token and the key of the request.\<close>

definition register_fingerprint :: "be_env \<Rightarrow> registration \<Rightarrow> string" where
  "register_fingerprint env q =
     be_sha env (canonical_json
       (case rq_raw q of
          JObj members \<Rightarrow> JObj (filter (\<lambda>kv. fst kv \<noteq> ''enrollment_token'' \<and> fst kv \<noteq> ''idempotency_key'') members)
        | j \<Rightarrow> j))"

definition token_usable :: "be_env \<Rightarrow> registration \<Rightarrow> token_row \<Rightarrow> bool" where
  "token_usable env q t \<longleftrightarrow> et_revoked_at t = None \<and> be_now env < et_expires_at t \<and> et_uses_consumed t < et_max_uses t
     \<and> (et_allowed_platforms t = [] \<or> rq_platform q \<in> set (et_allowed_platforms t))"

text \<open>The agent of a registration: the bound agent, taken over by the new installation, or a new one.\<close>

definition registered_agent :: "be_env \<Rightarrow> registration \<Rightarrow> token_row \<Rightarrow> backend \<Rightarrow> (uuid \<times> uuid) be_outcome" where
  "registered_agent env q t b =
     (if et_scope t = ''agent.recover''
      then
        (case et_bound_agent t of
           None \<Rightarrow> (Inl Enrollment_Failed_Error, b)
         | Some aid \<Rightarrow>
             (case repo_agent b aid of
                None \<Rightarrow> (Inl Enrollment_Failed_Error, b)
              | Some a \<Rightarrow>
                  (case ag_device a of
                     None \<Rightarrow> (Inl Enrollment_Failed_Error, b)
                   | Some device \<Rightarrow>
                       (case flush_agents (upd_where (\<lambda>a. ag_id a = aid)
                                (\<lambda>a. a\<lparr>ag_is_active := True, ag_disabled_at := None, ag_revoked_at := None,
                                        ag_revoked_by := None, ag_revocation_reason := None,
                                        ag_installation := Some (rq_installation q), ag_display_name := rq_display_name q\<rparr>)
                                (b_agents b)) b of
                          None \<Rightarrow> (Inl Db_Integrity_Error, b)
                        | Some b' \<Rightarrow> (Inr (device, aid), b')))))
      else if repo_agent_by_installation b (rq_installation q) \<noteq> None then (Inl Enrollment_Failed_Error, b)
      else
        (let device = be_fresh env ''device''; aid = be_fresh env ''agent'';
             a = \<lparr>ag_id = aid, ag_device = Some device, ag_display_name = rq_display_name q,
                  ag_installation = Some (rq_installation q), ag_is_active = True, ag_disabled_at = None,
                  ag_revoked_at = None, ag_revoked_by = None, ag_revocation_reason = None, ag_last_seen = None\<rparr>
         in if device \<in> set (b_devices b) then (Inl Db_Integrity_Error, b)
            else (case flush_agents (b_agents b @ [a]) (b\<lparr>b_devices := b_devices b @ [device]\<rparr>) of
                    None \<Rightarrow> (Inl Db_Integrity_Error, b)
                  | Some b' \<Rightarrow> (Inr (device, aid), b'))))"

definition issue_credential :: "be_env \<Rightarrow> crypto \<Rightarrow> uuid \<Rightarrow> string \<Rightarrow> backend \<Rightarrow> issued_credential be_outcome" where
  "issue_credential env cr aid secret b =
     (let now = be_now env; cid = be_fresh env ''credential'';
          rows1 = (case repo_active_credential b aid of
                     None \<Rightarrow> b_credentials b
                   | Some c \<Rightarrow> upd_credential (ac_id c)
                       (\<lambda>c. c\<lparr>ac_state := Cred_Revoked, ac_revoked_at := Some now, ac_reason := Some ''agent_recovery''\<rparr>)
                       (b_credentials b));
          c = \<lparr>ac_id = cid, ac_agent = aid, ac_version = next_version aid b, ac_digest = cr_credential_hmac cr secret,
               ac_state = Cred_Active, ac_issued_at = now, ac_activated_at = Some now,
               ac_expires_at = now + days (be_credential_days env), ac_revoked_at = None, ac_revoked_by = None, ac_reason = None\<rparr>
      in case flush_credentials (rows1 @ [c]) b of
           None \<Rightarrow> (Inl Db_Integrity_Error, b)
         | Some b' \<Rightarrow>
             (Inr \<lparr>ic_id = cid, ic_version = ac_version c, ic_value = new_secret ''wto_ac_1'' cid secret,
                   ic_issued_at = now, ic_expires_at = ac_expires_at c\<rparr>, b'))"

definition consume_token :: "be_env \<Rightarrow> uuid \<Rightarrow> backend \<Rightarrow> backend" where
  "consume_token env tid b =
     b\<lparr>b_tokens := upd_where (\<lambda>t. et_id t = tid)
        (\<lambda>t. t\<lparr>et_uses_consumed := et_uses_consumed t + 1, et_consumed_at := Some (be_now env)\<rparr>) (b_tokens b)\<rparr>"

definition register_new ::
  "be_env \<Rightarrow> crypto \<Rightarrow> registration \<Rightarrow> string \<Rightarrow> token_row \<Rightarrow> uuid \<Rightarrow> backend \<Rightarrow> api_response be_outcome" where
  "register_new env cr q secret t rec b =
     (if \<not> token_usable env q t then (Inl Enrollment_Failed_Error, b)
      else
        (case registered_agent env q t b of
           (Inl e, _) \<Rightarrow> (Inl e, b)
         | (Inr (device, aid), b1) \<Rightarrow>
             (case issue_credential env cr aid secret b1 of
                (Inl e, _) \<Rightarrow> (Inl e, b)
              | (Inr issued, b2) \<Rightarrow>
                  (let body = Registered device aid (be_now env) issued
                   in (Inr body,
                       audit_agent env aid (if et_scope t = ''agent.enroll'' then ''agent.enroll'' else ''agent.recover'')
                         ''agent'' aid
                         [(''agent_id'', JStr aid), (''credential_id'', JStr (ic_id issued)),
                          (''credential_version'', JInt (ic_version issued)), (''installation_id'', JStr (rq_installation q))]
                         (complete_secret env cr rec body 201 (consume_token env (et_id t) b2)))))))"

definition register :: "be_env \<Rightarrow> crypto \<Rightarrow> registration \<Rightarrow> string \<Rightarrow> backend \<Rightarrow> api_response be_outcome" where
  "register env cr q secret b =
     (if \<not> be_contract_ok env ''agent-registration-request.schema.json'' (rq_raw q) then (Inl Contract_Error, b)
      else if clock_skewed env (rq_reported_at q) then (Inl Request_Clock_Skew_Error, b)
      else
        (case parse_machine_secret (rq_token q) ''wto_enr_1'' of
           None \<Rightarrow> (Inl Enrollment_Failed_Error, b)
         | Some (locator, token_secret) \<Rightarrow>
             (case repo_enrollment_token b locator of
                None \<Rightarrow> (Inl Enrollment_Failed_Error, b)
              | Some t \<Rightarrow>
                  (case secret_digest (cr_token_hmac cr) token_secret of
                     None \<Rightarrow> (Inl Be_Value_Error, b)
                   | Some dg \<Rightarrow>
                       if dg \<noteq> et_digest t then (Inl Enrollment_Failed_Error, b)
                       else
                         (case idem_begin env cr (register_scope (et_id t) q) (register_fingerprint env q) True b of
                            (Inl e, _) \<Rightarrow> (Inl e, b)
                          | (Inr (Recorded body _), b1) \<Rightarrow>
                              (case body of
                                 Registered device aid at issued \<Rightarrow>
                                   (Inr body, audit_agent env aid ''idempotency.replay'' ''agent'' aid
                                      [(''operation_id'', JStr (''agent.register:'' @ rq_installation q)),
                                       (''agent_id'', JStr aid)] b1)
                               | _ \<Rightarrow> (Inl Be_Value_Error, b))
                          | (Inr (New_Record rec), b1) \<Rightarrow>
                              (case register_new env cr q secret t rec b1 of
                                 (Inl e, _) \<Rightarrow> (Inl e, b) | (Inr body, b2) \<Rightarrow> (Inr body, b2)))))))"

end
