(* ===== verification/Credential_Invariant.thy ===== *)
theory Credential_Invariant
  imports Backend_Credentials
begin

text \<open>
  The invariant of the backend's credential tables and that every service operation keeps it.
\<close>

section \<open>The invariant\<close>

definition pending_linked :: "backend \<Rightarrow> bool" where
  "pending_linked b \<longleftrightarrow>
     (\<forall>c \<in> set (b_credentials b). ac_state c = Cred_Pending \<longrightarrow>
        (\<exists>r \<in> set (b_rotations b). ro_state r = Ro_Pending \<and> ro_pending r = ac_id c \<and> ro_agent r = ac_agent c))"

definition rotation_refs :: "backend \<Rightarrow> bool" where
  "rotation_refs b \<longleftrightarrow>
     (\<forall>r \<in> set (b_rotations b).
        (\<exists>c \<in> set (b_credentials b). ac_id c = ro_pending r \<and> ac_agent c = ro_agent r)
        \<and> (\<exists>c \<in> set (b_credentials b). ac_id c = ro_previous r \<and> ac_agent c = ro_agent r))"

definition cred_inv :: "backend \<Rightarrow> bool" where
  "cred_inv b \<longleftrightarrow> credentials_ok (b_credentials b) \<and> rotations_ok (b_rotations b) \<and> agents_ok (b_agents b)
     \<and> pending_linked b \<and> rotation_refs b \<and> idem_wf b"

named_theorems cred_defs

lemmas [cred_defs] = cred_inv_def pending_linked_def rotation_refs_def

section \<open>Rows that leave the live states\<close>

lemma with_state_retired:
  assumes "\<And>c. P c \<Longrightarrow> ac_state (f c) \<noteq> st" and "\<And>c. ac_agent (f c) = ac_agent c"
    and "distinct (map ac_agent (with_state st rows))"
  shows "distinct (map ac_agent (with_state st (upd_where P f rows)))"
  using assms(3)
proof (induction rows)
  case Nil
  then show ?case by simp
next
  case (Cons c rows)
  have sub: "ac_agent ` set (with_state st (upd_where P f rows)) \<subseteq> ac_agent ` set (with_state st rows)"
    using assms(1,2) by (auto simp: with_state_def set_upd_where split: if_splits)
  from Cons show ?case
    using sub assms(1) [of c] by (auto simp: with_state_def split: if_splits)
qed

lemma credentials_ok_retire:
  assumes "credentials_ok rows"
    and "\<And>c. ac_id (f c) = ac_id c" "\<And>c. ac_agent (f c) = ac_agent c" "\<And>c. ac_version (f c) = ac_version c"
    and "\<And>c. ac_state (f c) \<notin> {Cred_Active, Cred_Pending}"
  shows "credentials_ok (upd_where P f rows)"
  using assms with_state_retired [of P f Cred_Active rows] with_state_retired [of P f Cred_Pending rows]
  by (simp add: credentials_ok_def)

lemma rotations_ok_retire:
  assumes "rotations_ok rows" and "\<And>r. ro_id (f r) = ro_id r" "\<And>r. ro_pending (f r) = ro_pending r" "\<And>r. ro_agent (f r) = ro_agent r"
    and "\<And>r. ro_state (f r) \<noteq> Ro_Pending"
  shows "rotations_ok (upd_where P f rows)"
proof -
  have "distinct (map ro_agent (filter (\<lambda>r. ro_state r = Ro_Pending) (upd_where P f rows)))"
    if "distinct (map ro_agent (filter (\<lambda>r. ro_state r = Ro_Pending) rows))"
    using that
  proof (induction rows)
    case Nil
    then show ?case by simp
  next
    case (Cons r rows)
    have "ro_agent ` set (filter (\<lambda>r. ro_state r = Ro_Pending) (upd_where P f rows))
        \<subseteq> ro_agent ` set (filter (\<lambda>r. ro_state r = Ro_Pending) rows)"
      using assms(4,5) by (auto simp: set_upd_where split: if_splits)
    with Cons show ?case using assms(5) [of r] by (auto split: if_splits)
  qed
  with assms show ?thesis by (simp add: rotations_ok_def)
qed

lemma agents_ok_update:
  assumes "agents_ok rows" and "\<And>a. ag_id (f a) = ag_id a" "\<And>a. ag_installation (f a) = ag_installation a"
  shows "agents_ok (upd_where P f rows)"
proof -
  have "map ag_installation (filter (\<lambda>a. ag_installation a \<noteq> None) (upd_where P f rows))
      = map ag_installation (filter (\<lambda>a. ag_installation a \<noteq> None) rows)"
    using assms(3) by (induction rows) auto
  with assms show ?thesis by (simp add: agents_ok_def)
qed

text \<open>The references of rotations only look at the identifiers and owners of credentials.\<close>

lemma rotation_refs_mono:
  assumes "rotation_refs b"
    and "(\<lambda>c. (ac_id c, ac_agent c)) ` set (b_credentials b) \<subseteq> (\<lambda>c. (ac_id c, ac_agent c)) ` set (b_credentials b')"
    and "(\<lambda>r. (ro_pending r, ro_previous r, ro_agent r)) ` set (b_rotations b')
       \<subseteq> (\<lambda>r. (ro_pending r, ro_previous r, ro_agent r)) ` set (b_rotations b)"
  shows "rotation_refs b'"
  unfolding rotation_refs_def
proof (intro ballI)
  fix r'
  assume "r' \<in> set (b_rotations b')"
  then have "(ro_pending r', ro_previous r', ro_agent r') \<in> (\<lambda>r. (ro_pending r, ro_previous r, ro_agent r)) ` set (b_rotations b')"
    by (rule imageI)
  with assms(3) have "(ro_pending r', ro_previous r', ro_agent r') \<in> (\<lambda>r. (ro_pending r, ro_previous r, ro_agent r)) ` set (b_rotations b)"
    by (rule subsetD)
  then obtain r where r: "r \<in> set (b_rotations b)" "ro_pending r = ro_pending r'" "ro_previous r = ro_previous r'" "ro_agent r = ro_agent r'"
    by auto
  have cred: "\<exists>c \<in> set (b_credentials b'). ac_id c = i \<and> ac_agent c = a"
    if "\<exists>c \<in> set (b_credentials b). ac_id c = i \<and> ac_agent c = a" for i a
  proof -
    from that have "(i, a) \<in> (\<lambda>c. (ac_id c, ac_agent c)) ` set (b_credentials b)" by auto
    with assms(2) have "(i, a) \<in> (\<lambda>c. (ac_id c, ac_agent c)) ` set (b_credentials b')" by (rule subsetD)
    then show ?thesis by auto
  qed
  have "\<exists>c \<in> set (b_credentials b). ac_id c = ro_pending r' \<and> ac_agent c = ro_agent r'"
    "\<exists>c \<in> set (b_credentials b). ac_id c = ro_previous r' \<and> ac_agent c = ro_agent r'"
    using assms(1) r unfolding rotation_refs_def by metis+
  then show "(\<exists>c\<in>set (b_credentials b'). ac_id c = ro_pending r' \<and> ac_agent c = ro_agent r')
     \<and> (\<exists>c\<in>set (b_credentials b'). ac_id c = ro_previous r' \<and> ac_agent c = ro_agent r')"
    using cred by blast
qed

lemma image_upd_where:
  "(\<And>r. k (f r) = k r) \<Longrightarrow> k ` set (upd_where P f rows) = k ` set rows"
  by (rule image_key_upd_where)

section \<open>Preservation\<close>

text \<open>An operation on other tables.\<close>

lemma cred_inv_cong:
  assumes "b_credentials b' = b_credentials b" "b_rotations b' = b_rotations b" "b_agents b' = b_agents b" "idem_wf b' = idem_wf b"
  shows "cred_inv b' = cred_inv b"
  using assms by (simp add: cred_defs)

lemma cred_inv_audit [simp]:
  "cred_inv (audit_agent env a act rt ri md b) = cred_inv b" "cred_inv (audit_user env a act rt ri md b) = cred_inv b"
  "cred_inv (write_audit n at ai ag ac rt rj oc md b) = cred_inv b"
  by (rule cred_inv_cong; simp add: audit_agent_def audit_user_def idem_wf_def)+

text \<open>Retirement of credentials and of the rotations that belong to them.\<close>

lemma cred_inv_retire:
  assumes inv: "cred_inv b"
    and f: "\<And>c. ac_id (f c) = ac_id c" "\<And>c. ac_agent (f c) = ac_agent c" "\<And>c. ac_version (f c) = ac_version c"
      "\<And>c. ac_state (f c) \<notin> {Cred_Active, Cred_Pending}"
    and g: "\<And>r. ro_id (g r) = ro_id r" "\<And>r. ro_pending (g r) = ro_pending r" "\<And>r. ro_agent (g r) = ro_agent r"
      "\<And>r. ro_previous (g r) = ro_previous r" "\<And>r. ro_state (g r) \<noteq> Ro_Pending"
    and link: "\<And>c r. c \<in> set (b_credentials b) \<Longrightarrow> ac_state c = Cred_Pending \<Longrightarrow> r \<in> set (b_rotations b) \<Longrightarrow> Q r \<Longrightarrow>
      ro_state r = Ro_Pending \<Longrightarrow> ro_pending r = ac_id c \<Longrightarrow> ro_agent r = ac_agent c \<Longrightarrow> P c"
    and b': "b_credentials b' = upd_where P f (b_credentials b)" "b_rotations b' = upd_where Q g (b_rotations b)"
      "agents_ok (b_agents b')" "idem_wf b'"
  shows "cred_inv b'"
proof -
  have "pending_linked b'"
    unfolding pending_linked_def
  proof (intro ballI impI)
    fix c'
    assume c': "c' \<in> set (b_credentials b')" "ac_state c' = Cred_Pending"
    then obtain c where c: "c \<in> set (b_credentials b)" "c' = (if P c then f c else c)" by (auto simp: b'(1) set_upd_where)
    with c'(2) f(4) [of c] have np: "\<not> P c" "c' = c" by (auto split: if_splits)
    obtain r where r: "r \<in> set (b_rotations b)" "ro_state r = Ro_Pending" "ro_pending r = ac_id c" "ro_agent r = ac_agent c"
      using inv c(1) c'(2) np by (auto simp: cred_defs)
    have "\<not> Q r" using link [OF c(1) _ r(1)] r np c'(2) by auto
    with r have "r \<in> set (b_rotations b')" by (auto simp: b'(2) set_upd_where intro!: image_eqI [of _ _ r])
    with r np show "\<exists>r\<in>set (b_rotations b'). ro_state r = Ro_Pending \<and> ro_pending r = ac_id c' \<and> ro_agent r = ac_agent c'"
      by blast
  qed
  moreover have "rotation_refs b'"
    by (rule rotation_refs_mono [of b]) (use inv f g in \<open>auto simp: cred_defs b' image_upd_where [of "\<lambda>c. (ac_id c, ac_agent c)"]
          image_upd_where [of "\<lambda>r. (ro_pending r, ro_previous r, ro_agent r)"]\<close>)
  ultimately show ?thesis
    using inv f g b'(3,4) credentials_ok_retire [of "b_credentials b" f P] rotations_ok_retire [of "b_rotations b" g Q]
    by (simp add: cred_inv_def b'(1,2))
qed

lemma upd_where_False: "upd_where (\<lambda>r. False) f rows = rows"
  by (simp add: upd_where_def)

lemma cred_inv_revoke_credential:
  assumes "cred_inv b" and "revoke_credential env a c u b = (r, b')"
  shows "cred_inv b'"
proof -
  have "cred_inv (b\<lparr>b_credentials := upd_credential c (\<lambda>c. c\<lparr>ac_state := Cred_Revoked, ac_revoked_at := Some (be_now env),
      ac_revoked_by := Some u, ac_reason := Some ''administrator_revocation''\<rparr>) (b_credentials b)\<rparr>)"
    by (rule cred_inv_retire [OF assms(1), where Q = "\<lambda>r. False" and g = "\<lambda>r. r\<lparr>ro_state := Ro_Revoked\<rparr>"])
      (use assms(1) in \<open>auto simp: upd_credential_def upd_where_False cred_inv_def idem_wf_def\<close>)
  with assms show ?thesis by (auto simp: revoke_credential_def split: option.splits if_splits)
qed

lemma cred_inv_revoke_agent:
  assumes "cred_inv b" and "revoke_agent env a u b = (r, b')"
  shows "cred_inv b'"
proof -
  let ?b = "b\<lparr>b_agents := upd_where (\<lambda>x. ag_id x = a)
                  (\<lambda>x. x\<lparr>ag_is_active := False, ag_disabled_at := Some (be_now env), ag_revoked_at := Some (be_now env),
                          ag_revoked_by := Some u, ag_revocation_reason := Some ''administrator_revocation''\<rparr>)
                  (b_agents b),
                b_credentials := upd_where (\<lambda>c. ac_agent c = a \<and> ac_state c \<in> {Cred_Active, Cred_Pending})
                  (\<lambda>c. c\<lparr>ac_state := Cred_Revoked, ac_revoked_at := Some (be_now env), ac_revoked_by := Some u,
                          ac_reason := Some ''agent_revoked''\<rparr>) (b_credentials b),
                b_rotations := upd_where (\<lambda>r. ro_agent r = a \<and> ro_state r = Ro_Pending)
                  (\<lambda>r. r\<lparr>ro_state := Ro_Revoked\<rparr>) (b_rotations b)\<rparr>"
  have "agents_ok (b_agents ?b)" using assms(1) by (simp add: cred_inv_def agents_ok_update)
  then have "cred_inv ?b"
    by (intro cred_inv_retire [OF assms(1), where P = "\<lambda>c. ac_agent c = a \<and> ac_state c \<in> {Cred_Active, Cred_Pending}"
          and Q = "\<lambda>r. ro_agent r = a \<and> ro_state r = Ro_Pending"])
      (use assms(1) in \<open>auto simp: cred_inv_def idem_wf_def\<close>)
  with assms show ?thesis by (auto simp: revoke_agent_def split: option.splits)
qed

lemma repo_pending_rotationD:
  "repo_pending_rotation b a = Some r \<Longrightarrow> r \<in> set (b_rotations b) \<and> ro_agent r = a \<and> ro_state r = Ro_Pending"
  unfolding repo_pending_rotation_def by (drule find_SomeD) simp

lemma idem_wf_cong: "b_idempotency b' = b_idempotency b \<Longrightarrow> b_replays b' = b_replays b \<Longrightarrow> idem_wf b' = idem_wf b"
  by (simp add: idem_wf_def)

lemma cred_inv_expire_pending:
  assumes inv: "cred_inv b"
  shows "cred_inv (expire_pending env a b)"
proof (cases "repo_pending_rotation b a")
  case None
  with inv show ?thesis by (simp add: expire_pending_def)
next
  case (Some r)
  have r: "r \<in> set (b_rotations b)" using repo_pending_rotationD [OF Some] by blast
  have uniq: "x = r" if "x \<in> set (b_rotations b)" "ro_id x = ro_id r" for x
    using distinct_key_inj [of ro_id "b_rotations b" x r] inv r that by (simp add: cred_inv_def rotations_ok_def)
  show ?thesis
  proof (cases "be_now env < ro_expires_at r")
    case True
    with Some inv show ?thesis by (simp add: expire_pending_def)
  next
    case False
    have "cred_inv (b\<lparr>b_rotations := upd_rotation (ro_id r) (\<lambda>r. r\<lparr>ro_state := Ro_Expired\<rparr>) (b_rotations b),
                 b_credentials := upd_where (\<lambda>c. ac_id c = ro_pending r \<and> ac_state c = Cred_Pending)
                   (\<lambda>c. c\<lparr>ac_state := Cred_Expired, ac_revoked_at := Some (be_now env), ac_reason := Some ''rotation_expired''\<rparr>)
                   (b_credentials b)\<rparr>)"
      by (rule cred_inv_retire [OF inv, where P = "\<lambda>c. ac_id c = ro_pending r \<and> ac_state c = Cred_Pending"
            and Q = "\<lambda>x. ro_id x = ro_id r" and g = "\<lambda>r. r\<lparr>ro_state := Ro_Expired\<rparr>"])
        (use inv in \<open>auto simp: upd_rotation_def cred_inv_def idem_wf_def dest: uniq\<close>)
    with Some False show ?thesis by (simp add: expire_pending_def)
  qed
qed

lemma expire_pending_tables [simp]:
  "b_agents (expire_pending env a b) = b_agents b" "b_tokens (expire_pending env a b) = b_tokens b"
  "b_idempotency (expire_pending env a b) = b_idempotency b" "b_replays (expire_pending env a b) = b_replays b"
  "b_devices (expire_pending env a b) = b_devices b" "b_manifests (expire_pending env a b) = b_manifests b"
  "b_presences (expire_pending env a b) = b_presences b"
  by (simp_all add: expire_pending_def split: option.split)

lemma flush_SomeD:
  "flush_credentials rows b = Some b' \<Longrightarrow> credentials_ok rows \<and> b' = b\<lparr>b_credentials := rows\<rparr>"
  "flush_rotations rrows b = Some b' \<Longrightarrow> rotations_ok rrows \<and> b' = b\<lparr>b_rotations := rrows\<rparr>"
  "flush_agents arows b = Some b' \<Longrightarrow> agents_ok arows \<and> b' = b\<lparr>b_agents := arows\<rparr>"
  by (auto simp: flush_credentials_def flush_rotations_def flush_agents_def split: if_splits)

lemma cred_inv_begin:
  assumes "cred_inv b" and "idem_begin env cr sc fp secret b = (x, b1)"
  shows "cred_inv b1"
proof -
  have "idem_wf b1"
  proof (cases "find_record b sc")
    case None
    with assms show ?thesis
      by (auto simp: idem_begin_def cred_inv_def idem_wf_def new_idem_row_def image_subset_iff split: if_splits)
  next
    case (Some r)
    then have "b1 = b \<or> b1 = upd_record (id_id r) (\<lambda>r. r\<lparr>id_state := Idem_Failed, id_updated_at := be_now env\<rparr>) b"
      using assms(2) by (auto simp: idem_begin_def Let_def split: option.splits if_splits)
    with assms(1) show ?thesis by (auto simp: cred_inv_def idem_wf_def upd_record_def image_subset_iff)
  qed
  with assms begin_tables [OF assms(2)] show ?thesis
    by (simp add: cred_inv_def pending_linked_def rotation_refs_def)
qed

lemma idem_wf_completed:
  assumes "idem_begin env cr sc fp secret b = (Inr (New_Record rid), b1)" and "idem_wf b" and "same_records b1 b2"
  shows "idem_wf (complete_secret env cr rid body st b2)" "idem_wf (complete_public env rid body st b2)"
  using begin_new [OF assms(1)] assms(2,3)
  by (auto simp: same_records_def idem_wf_def complete_secret_def complete_public_def upd_record_def new_idem_row_def)

lemma cred_inv_completed:
  assumes "cred_inv b2" and "idem_wf (complete_secret env cr rid body st b2)" "idem_wf (complete_public env rid body st b2)"
  shows "cred_inv (complete_secret env cr rid body st b2)" "cred_inv (complete_public env rid body st b2)"
  using assms by (simp_all add: cred_inv_def pending_linked_def rotation_refs_def)

lemma cred_inv_issue_rotation:
  assumes inv: "cred_inv b" and res: "issue_rotation env cr a active secret b = (Inr body, b')"
    and active: "\<exists>c \<in> set (b_credentials b). ac_id c = active \<and> ac_agent c = a"
  shows "cred_inv b' \<and> same_records b b'"
proof -
  define c where "c = new_pending_credential env cr a secret b"
  define r where "r = new_rotation env a active"
  from res have ok: "credentials_ok (b_credentials b @ [c])" "rotations_ok (b_rotations b @ [r])"
    and b': "b' = b\<lparr>b_credentials := b_credentials b @ [c], b_rotations := b_rotations b @ [r]\<rparr>"
    by (auto simp: issue_rotation_def Let_def flush_credentials_def flush_rotations_def c_def r_def split: if_splits)
  have c: "ac_id c = ro_pending r" "ac_agent c = a" "ac_state c = Cred_Pending"
    and r: "ro_agent r = a" "ro_previous r = active" "ro_state r = Ro_Pending"
    by (simp_all add: c_def r_def new_pending_credential_def new_rotation_def)
  have "pending_linked b'" using inv c r by (auto simp: b' cred_defs)
  moreover have "rotation_refs b'" using inv c r active by (fastforce simp: b' cred_defs)
  ultimately show ?thesis
    using inv ok by (simp add: cred_inv_def b' same_records_def idem_wf_def)
qed

lemma repo_credentialD: "repo_credential b i = Some c \<Longrightarrow> c \<in> set (b_credentials b) \<and> ac_id c = i"
  unfolding repo_credential_def by (drule find_SomeD) simp

lemma expire_pending_credential:
  assumes "c \<in> set (b_credentials b)"
  shows "\<exists>c' \<in> set (b_credentials (expire_pending env a b)). ac_id c' = ac_id c \<and> ac_agent c' = ac_agent c"
proof (cases "repo_pending_rotation b a")
  case None
  with assms show ?thesis by (auto simp: expire_pending_def)
next
  case (Some r)
  let ?P = "\<lambda>c. ac_id c = ro_pending r \<and> ac_state c = Cred_Pending"
  let ?f = "\<lambda>c. c\<lparr>ac_state := Cred_Expired, ac_revoked_at := Some (be_now env), ac_reason := Some ''rotation_expired''\<rparr>"
  have "(if ?P c then ?f c else c) \<in> set (upd_where ?P ?f (b_credentials b))" by (rule upd_where_mem [OF assms])
  then have expired: "\<exists>c' \<in> set (upd_where ?P ?f (b_credentials b)). ac_id c' = ac_id c \<and> ac_agent c' = ac_agent c"
    by (rule rev_bexI) simp
  show ?thesis
  proof (cases "be_now env < ro_expires_at r")
    case True
    with Some assms show ?thesis by (auto simp: expire_pending_def)
  next
    case False
    with Some expired show ?thesis by (simp add: expire_pending_def)
  qed
qed

lemma cred_inv_create_rotation:
  assumes inv: "cred_inv b" and res: "create_rotation env cr a active key secret b = (r, b')"
    and owner: "\<forall>c. repo_credential b active = Some c \<longrightarrow> ac_agent c = a"
  shows "cred_inv b'"
proof (cases "idem_begin env cr (rotate_scope a key) (rotate_fingerprint env) True b")
  case (Pair x b1)
  have inv1: "cred_inv b1" by (rule cred_inv_begin [OF inv Pair])
  show ?thesis
  proof (cases x)
    case (Inl e)
    with res Pair inv cred_inv_expire_pending [OF inv1] show ?thesis
      by (cases e) (auto simp: create_rotation_def)
  next
    case (Inr start)
    show ?thesis
    proof (cases start)
      case (Recorded body st)
      with res Pair Inr inv inv1 show ?thesis
        by (cases body) (auto simp: create_rotation_def)
    next
      case (New_Record rec)
      let ?b2 = "expire_pending env a b1"
      have inv2: "cred_inv ?b2" by (rule cred_inv_expire_pending [OF inv1])
      show ?thesis
      proof (cases "\<exists>body b3. issue_rotation env cr a active secret ?b2 = (Inr body, b3) \<and>
          b' \<noteq> b")
        case False
        with res Pair Inr New_Record inv show ?thesis
          by (auto simp: create_rotation_def Let_def split: if_splits option.splits sum.splits prod.splits)
      next
        case True
        then obtain body b3 where iss: "issue_rotation env cr a active secret ?b2 = (Inr body, b3)" "b' \<noteq> b" by blast
        have opened: "idem_begin env cr (rotate_scope a key) (rotate_fingerprint env) True b = (Inr (New_Record rec), b1)"
          using Pair Inr New_Record by simp
        from res opened iss obtain c where c: "repo_credential ?b2 active = Some c"
          and fin: "cred_inv b' = cred_inv (complete_secret env cr rec body 201 b3)"
          by (auto simp: create_rotation_def Let_def split: if_splits option.splits)
        have same1: "b_credentials b1 = b_credentials b" using begin_tables [OF opened] by blast
        have "ac_id c = active" using repo_credentialD [OF c] by blast
        moreover have "ac_agent c = a"
        proof -
          have "\<exists>c0 \<in> set (b_credentials b1). ac_id c0 = ac_id c \<and> ac_agent c0 = ac_agent c"
            using repo_credentialD [OF c] by (auto simp: expire_pending_def set_upd_where split: option.splits if_splits)
          then obtain c0 where c0: "c0 \<in> set (b_credentials b)" "ac_id c0 = active" "ac_agent c0 = ac_agent c"
            using \<open>ac_id c = active\<close> same1 by auto
          have "repo_credential b active = Some c0"
            unfolding repo_credential_def
            using find_key_iff [of ac_id "b_credentials b" active c0] inv c0 by (simp add: cred_inv_def credentials_ok_def)
          with owner c0 show ?thesis by auto
        qed
        ultimately have "\<exists>c \<in> set (b_credentials ?b2). ac_id c = active \<and> ac_agent c = a"
          using repo_credentialD [OF c] by blast
        from cred_inv_issue_rotation [OF inv2 iss(1) this] have b3: "cred_inv b3" "same_records ?b2 b3" by blast+
        have "same_records b1 b3" using b3(2) by (simp add: same_records_def)
        moreover have "idem_wf b" using inv by (simp add: cred_inv_def)
        ultimately have "cred_inv (complete_secret env cr rec body 201 b3)"
          using cred_inv_completed(1) [OF b3(1)] idem_wf_completed [OF opened] by blast
        with fin show ?thesis by simp
      qed
    qed
  qed
qed

lemma pending_linked_switch:
  assumes inv: "cred_inv b" and r: "r \<in> set (b_rotations b)"
    and creds: "\<And>c'. c' \<in> set (b_credentials b') \<Longrightarrow> ac_state c' = Cred_Pending \<Longrightarrow> c' \<in> set (b_credentials b) \<and> ac_id c' \<noteq> ro_pending r"
    and rots: "b_rotations b' = upd_rotation (ro_id r) g (b_rotations b)"
  shows "pending_linked b'"
  unfolding pending_linked_def
proof (intro ballI impI)
  fix c'
  assume "c' \<in> set (b_credentials b')" "ac_state c' = Cred_Pending"
  then have c': "c' \<in> set (b_credentials b)" "ac_state c' = Cred_Pending" "ac_id c' \<noteq> ro_pending r" using creds by blast+
  then obtain x where x: "x \<in> set (b_rotations b)" "ro_state x = Ro_Pending" "ro_pending x = ac_id c'" "ro_agent x = ac_agent c'"
    using inv by (auto simp: cred_defs)
  then have "ro_id x \<noteq> ro_id r"
    using distinct_key_inj [of ro_id "b_rotations b" x r] inv r c'(3) by (auto simp: cred_inv_def rotations_ok_def)
  then have "x \<in> set (b_rotations b')"
    using upd_where_mem [OF x(1), of "\<lambda>y. ro_id y = ro_id r" g] by (simp add: rots upd_rotation_def)
  with x show "\<exists>r\<in>set (b_rotations b'). ro_state r = Ro_Pending \<and> ro_pending r = ac_id c' \<and> ro_agent r = ac_agent c'" by blast
qed

lemma cred_inv_switch:
  assumes inv: "cred_inv b" and r: "r \<in> set (b_rotations b)" and res: "switch_credentials env r b = (Inr body, b')"
  shows "cred_inv b' \<and> same_records b b'"
proof -
  define f1 where "f1 = (\<lambda>c :: credential_row. c\<lparr>ac_state := Cred_Revoked, ac_revoked_at := Some (be_now env), ac_reason := Some ''credential_rotated''\<rparr>)"
  define f2 where "f2 = (\<lambda>c :: credential_row. c\<lparr>ac_state := Cred_Active, ac_activated_at := Some (be_now env),
                            ac_expires_at := be_now env + days (be_credential_days env)\<rparr>)"
  define g where "g = (\<lambda>r :: rotation_row. r\<lparr>ro_state := Ro_Activated, ro_activated_at := Some (be_now env)\<rparr>)"
  define rows where "rows = upd_credential (ro_pending r) f2 (upd_credential (ro_previous r) f1 (b_credentials b))"
  have b': "b' = b\<lparr>b_credentials := rows, b_rotations := upd_rotation (ro_id r) g (b_rotations b)\<rparr>" and ok: "credentials_ok rows"
    using res by (auto simp: switch_credentials_def Let_def flush_credentials_def rows_def f1_def f2_def g_def
        split: option.splits if_splits)
  have fs: "\<And>c. ac_id (f1 c) = ac_id c" "\<And>c. ac_agent (f1 c) = ac_agent c" "\<And>c. ac_id (f2 c) = ac_id c" "\<And>c. ac_agent (f2 c) = ac_agent c"
    "\<And>c. ac_state (f1 c) = Cred_Revoked" "\<And>c. ac_state (f2 c) = Cred_Active" by (simp_all add: f1_def f2_def)
  have "pending_linked b'"
  proof (rule pending_linked_switch [OF inv r])
    show "b_rotations b' = upd_rotation (ro_id r) g (b_rotations b)" by (simp add: b')
    fix c'
    assume "c' \<in> set (b_credentials b')" "ac_state c' = Cred_Pending"
    then show "c' \<in> set (b_credentials b) \<and> ac_id c' \<noteq> ro_pending r"
      using fs by (auto simp: b' rows_def upd_credential_def set_upd_where split: if_splits)
  qed
  moreover have "rotation_refs b'"
  proof (rule rotation_refs_mono [of b])
    show "rotation_refs b" using inv by (simp add: cred_inv_def)
    show "(\<lambda>c. (ac_id c, ac_agent c)) ` set (b_credentials b) \<subseteq> (\<lambda>c. (ac_id c, ac_agent c)) ` set (b_credentials b')"
      using fs by (simp add: b' rows_def upd_credential_def image_upd_where [of "\<lambda>c. (ac_id c, ac_agent c)"])
    show "(\<lambda>r. (ro_pending r, ro_previous r, ro_agent r)) ` set (b_rotations b')
        \<subseteq> (\<lambda>r. (ro_pending r, ro_previous r, ro_agent r)) ` set (b_rotations b)"
      by (simp add: b' upd_rotation_def g_def image_upd_where [of "\<lambda>r. (ro_pending r, ro_previous r, ro_agent r)"])
  qed
  moreover have "rotations_ok (b_rotations b')"
    using inv rotations_ok_retire [of "b_rotations b" g "\<lambda>y. ro_id y = ro_id r"]
    by (simp add: b' upd_rotation_def cred_inv_def g_def)
  ultimately show ?thesis using inv ok by (simp add: cred_inv_def b' same_records_def idem_wf_def)
qed

lemma repo_rotationD: "repo_rotation b i = Some r \<Longrightarrow> r \<in> set (b_rotations b) \<and> ro_id r = i"
  unfolding repo_rotation_def by (drule find_SomeD) simp

lemma cred_inv_activate_rotation:
  assumes inv: "cred_inv b" and res: "activate_rotation env cr a supplied rid key b = (r, b')"
  shows "cred_inv b'"
proof (cases "idem_begin env cr (activate_scope a rid key) (activate_fingerprint env rid) False b")
  case (Pair x b1)
  have inv1: "cred_inv b1" by (rule cred_inv_begin [OF inv Pair])
  show ?thesis
  proof (cases x)
    case (Inl e)
    with res Pair inv show ?thesis by (auto simp: activate_rotation_def)
  next
    case (Inr start)
    show ?thesis
    proof (cases start)
      case (Recorded body st)
      with res Pair Inr inv inv1 show ?thesis by (cases body) (auto simp: activate_rotation_def)
    next
      case (New_Record rec)
      have opened: "idem_begin env cr (activate_scope a rid key) (activate_fingerprint env rid) False b = (Inr (New_Record rec), b1)"
        using Pair Inr New_Record by simp
      show ?thesis
      proof (cases "b' = b")
        case True
        with inv show ?thesis by simp
      next
        case False
        with res opened obtain rot body b2 where rot: "repo_rotation b1 rid = Some rot"
          and sw: "switch_credentials env rot b1 = (Inr body, b2)"
          and fin: "cred_inv b' = cred_inv (complete_public env rec body 200 b2)"
          by (auto simp: activate_rotation_def split: if_splits option.splits sum.splits prod.splits)
        have b2: "cred_inv b2" "same_records b1 b2"
          using cred_inv_switch [OF inv1 _ sw] repo_rotationD [OF rot] by blast+
        moreover have "idem_wf b" using inv by (simp add: cred_inv_def)
        ultimately have "cred_inv (complete_public env rec body 200 b2)"
          using cred_inv_completed(2) [OF b2(1)] idem_wf_completed [OF opened] by blast
        with fin show ?thesis by simp
      qed
    qed
  qed
qed

text \<open>Registration.\<close>

lemma registered_agent_tables:
  assumes "registered_agent env q t b = (Inr (d, a), b')"
  shows "b_credentials b' = b_credentials b \<and> b_rotations b' = b_rotations b \<and> b_idempotency b' = b_idempotency b
    \<and> b_replays b' = b_replays b \<and> b_tokens b' = b_tokens b \<and> agents_ok (b_agents b')"
  using assms
  by (auto simp: registered_agent_def Let_def flush_agents_def split: option.splits if_splits)

lemma issue_credential_rows:
  assumes "issue_credential env cr a secret b = (Inr issued, b')"
  obtains rows c where "b' = b\<lparr>b_credentials := rows @ [c]\<rparr>" "credentials_ok (rows @ [c])" "ac_state c = Cred_Active"
    "ac_agent c = a" "ac_id c = ic_id issued"
    "rows = b_credentials b \<or> (\<exists>cid f. rows = upd_credential cid f (b_credentials b) \<and> (\<forall>c. ac_id (f c) = ac_id c
       \<and> ac_agent (f c) = ac_agent c \<and> ac_state (f c) = Cred_Revoked))"
proof -
  define rows where "rows = (case repo_active_credential b a of
                     None \<Rightarrow> b_credentials b
                   | Some c \<Rightarrow> upd_credential (ac_id c)
                       (\<lambda>c. c\<lparr>ac_state := Cred_Revoked, ac_revoked_at := Some (be_now env), ac_reason := Some ''agent_recovery''\<rparr>)
                       (b_credentials b))"
  define c where "c = \<lparr>ac_id = be_fresh env ''credential'', ac_agent = a, ac_version = next_version a b,
               ac_digest = cr_credential_hmac cr secret, ac_state = Cred_Active, ac_issued_at = be_now env,
               ac_activated_at = Some (be_now env), ac_expires_at = be_now env + days (be_credential_days env),
               ac_revoked_at = None, ac_revoked_by = None, ac_reason = None\<rparr>"
  have issued: "b' = b\<lparr>b_credentials := rows @ [c]\<rparr>" "credentials_ok (rows @ [c])" "ac_id c = ic_id issued"
    using assms by (auto simp: issue_credential_def Let_def flush_credentials_def rows_def c_def split: if_splits)
  have kept: "rows = b_credentials b \<or> (\<exists>cid f. rows = upd_credential cid f (b_credentials b) \<and> (\<forall>c. ac_id (f c) = ac_id c
       \<and> ac_agent (f c) = ac_agent c \<and> ac_state (f c) = Cred_Revoked))"
  proof (cases "repo_active_credential b a")
    case None
    then show ?thesis by (simp add: rows_def)
  next
    case (Some c)
    define f where "f = (\<lambda>c :: credential_row. c\<lparr>ac_state := Cred_Revoked, ac_revoked_at := Some (be_now env),
        ac_reason := Some ''agent_recovery''\<rparr>)"
    have "rows = upd_credential (ac_id c) f (b_credentials b)" using Some by (simp add: rows_def f_def)
    moreover have "\<forall>c. ac_id (f c) = ac_id c \<and> ac_agent (f c) = ac_agent c \<and> ac_state (f c) = Cred_Revoked"
      by (simp add: f_def)
    ultimately show ?thesis by blast
  qed
  show ?thesis by (rule that [OF issued(1,2) _ _ issued(3) kept]) (simp_all add: c_def)
qed

lemma cred_inv_issue_credential:
  assumes inv: "cred_inv b" and res: "issue_credential env cr a secret b = (Inr issued, b')"
  shows "cred_inv b' \<and> same_records b b'"
proof -
  obtain rows c where b': "b' = b\<lparr>b_credentials := rows @ [c]\<rparr>" and ok: "credentials_ok (rows @ [c])" and c: "ac_state c = Cred_Active"
    and rows: "rows = b_credentials b \<or> (\<exists>cid f. rows = upd_credential cid f (b_credentials b) \<and> (\<forall>c. ac_id (f c) = ac_id c
       \<and> ac_agent (f c) = ac_agent c \<and> ac_state (f c) = Cred_Revoked))"
    by (rule issue_credential_rows [OF res])
  have old: "x \<in> set (b_credentials b)" if "x \<in> set rows" "ac_state x = Cred_Pending" for x
    using rows that by (auto simp: upd_credential_def set_upd_where split: if_splits)
  have "pending_linked b'"
    unfolding pending_linked_def
  proof (intro ballI impI)
    fix x
    assume "x \<in> set (b_credentials b')" "ac_state x = Cred_Pending"
    then have "x \<in> set (b_credentials b)" "ac_state x = Cred_Pending" using old c by (auto simp: b')
    then show "\<exists>r\<in>set (b_rotations b'). ro_state r = Ro_Pending \<and> ro_pending r = ac_id x \<and> ro_agent r = ac_agent x"
      using inv by (auto simp: b' cred_defs)
  qed
  moreover have keys: "(\<lambda>c. (ac_id c, ac_agent c)) ` set rows = (\<lambda>c. (ac_id c, ac_agent c)) ` set (b_credentials b)"
    using rows by (elim disjE exE conjE) (simp_all add: upd_credential_def image_upd_where [of "\<lambda>c. (ac_id c, ac_agent c)"])
  have "rotation_refs b'"
    by (rule rotation_refs_mono [of b]) (use inv keys in \<open>auto simp: b' cred_inv_def\<close>)
  ultimately show ?thesis using inv ok by (simp add: cred_inv_def b' same_records_def idem_wf_def)
qed

lemma register_new_result:
  assumes "register_new env cr q secret t rec b = (Inr body, b')"
  obtains d a b1 issued b2 where "token_usable env q t" "registered_agent env q t b = (Inr (d, a), b1)"
    "issue_credential env cr a secret b1 = (Inr issued, b2)" "body = Registered d a (be_now env) issued"
    "\<exists>act md. b' = audit_agent env a act ''agent'' a md (complete_secret env cr rec body 201 (consume_token env (et_id t) b2))"
proof -
  from assms have usable: "token_usable env q t" by (auto simp: register_new_def split: if_splits)
  with assms obtain d a b1 where ra: "registered_agent env q t b = (Inr (d, a), b1)"
    by (auto simp: register_new_def split: sum.splits prod.splits)
  with assms usable obtain issued b2 where ic: "issue_credential env cr a secret b1 = (Inr issued, b2)"
    by (auto simp: register_new_def split: sum.splits prod.splits)
  with assms usable ra have "body = Registered d a (be_now env) issued"
    "\<exists>act md. b' = audit_agent env a act ''agent'' a md (complete_secret env cr rec body 201 (consume_token env (et_id t) b2))"
    by (auto simp: register_new_def Let_def)
  with that usable ra ic show ?thesis by blast
qed

lemma consume_token_tables [simp]:
  "b_credentials (consume_token env t b) = b_credentials b" "b_rotations (consume_token env t b) = b_rotations b"
  "b_agents (consume_token env t b) = b_agents b" "b_idempotency (consume_token env t b) = b_idempotency b"
  "b_replays (consume_token env t b) = b_replays b"
  by (simp_all add: consume_token_def)

lemma cred_inv_register:
  assumes inv: "cred_inv b" and res: "register env cr q secret b = (r, b')"
  shows "cred_inv b'"
proof (cases "b' = b")
  case True
  with inv show ?thesis by simp
next
  case False
  with res obtain l s t where parsed: "parse_machine_secret (rq_token q) ''wto_enr_1'' = Some (l, s)" "repo_enrollment_token b l = Some t"
    by (auto simp: register_def split: if_splits option.splits)
  obtain x b1 where opened: "idem_begin env cr (register_scope (et_id t) q) (register_fingerprint env q) True b = (x, b1)"
    by (cases "idem_begin env cr (register_scope (et_id t) q) (register_fingerprint env q) True b")
  have inv1: "cred_inv b1" by (rule cred_inv_begin [OF inv opened])
  show ?thesis
  proof (cases x)
    case (Inl e)
    with res parsed opened False show ?thesis by (auto simp: register_def split: option.splits if_splits)
  next
    case (Inr start)
    show ?thesis
    proof (cases start)
      case (Recorded body st)
      with res parsed opened False Inr inv1 show ?thesis
        by (cases body) (auto simp: register_def split: option.splits if_splits)
    next
      case (New_Record rec)
      with res parsed opened False Inr obtain body where new: "register_new env cr q secret t rec b1 = (Inr body, b')"
        by (auto simp: register_def split: option.splits if_splits sum.splits prod.splits)
      obtain d a b2 issued b3 where ra: "registered_agent env q t b1 = (Inr (d, a), b2)"
        and ic: "issue_credential env cr a secret b2 = (Inr issued, b3)"
        and fin: "\<exists>act md. b' = audit_agent env a act ''agent'' a md (complete_secret env cr rec body 201 (consume_token env (et_id t) b3))"
        by (rule register_new_result [OF new])
      have inv2: "cred_inv b2"
        using registered_agent_tables [OF ra] inv1 by (simp add: cred_defs idem_wf_def)
      have b3: "cred_inv b3" "same_records b2 b3" using cred_inv_issue_credential [OF inv2 ic] by blast+
      let ?b4 = "consume_token env (et_id t) b3"
      have "cred_inv ?b4" using b3(1) by (subst cred_inv_cong) (simp_all add: idem_wf_def)
      moreover have "same_records b1 ?b4"
        using b3(2) registered_agent_tables [OF ra] by (simp add: same_records_def)
      moreover have "idem_wf b" using inv by (simp add: cred_inv_def)
      moreover have "idem_begin env cr (register_scope (et_id t) q) (register_fingerprint env q) True b = (Inr (New_Record rec), b1)"
        using opened Inr New_Record by simp
      ultimately have "cred_inv (complete_secret env cr rec body 201 ?b4)"
        by (intro cred_inv_completed(1) idem_wf_completed)
      with fin show ?thesis by auto
    qed
  qed
qed

text \<open>The protocol operations do not touch the credentials.\<close>

lemma cred_inv_publish_manifest:
  assumes "cred_inv b" and "publish_manifest env a d b = (r, b')"
  shows "cred_inv b'"
proof -
  have "b_credentials b' = b_credentials b \<and> b_rotations b' = b_rotations b \<and> b_agents b' = b_agents b
      \<and> b_idempotency b' = b_idempotency b \<and> b_replays b' = b_replays b"
    using assms(2) by (auto simp: publish_manifest_def Let_def audit_incompatibility_def add_manifest_def
        split: if_splits option.splits json.splits)
  then have "cred_inv b' = cred_inv b" by (intro cred_inv_cong idem_wf_cong) blast+
  with assms show ?thesis by simp
qed

lemma cred_inv_tokens:
  assumes "cred_inv b"
  shows "create_token env cr q u secret b = (r1, b') \<Longrightarrow> cred_inv b'" "revoke_token env t u b = (r2, b') \<Longrightarrow> cred_inv b'"
proof -
  have toks: "cred_inv (b\<lparr>b_tokens := ts\<rparr>)" for ts using assms by (simp add: cred_defs idem_wf_def)
  show "create_token env cr q u secret b = (r1, b') \<Longrightarrow> cred_inv b'"
    using assms toks by (auto simp: create_token_def Let_def split: if_splits)
  show "revoke_token env t u b = (r2, b') \<Longrightarrow> cred_inv b'"
    using assms toks by (auto simp: revoke_token_def split: option.splits)
qed

end
