(* ===== verification/Backend_Reach.thy ===== *)
theory Backend_Reach
  imports Credential_Invariant
begin

text \<open>
  The agent endpoints (\<open>api/routers/agent_protocol.py\<close>) as the composition of authentication and
  service, the operations of administrators, the states they reach from an empty database and what
  holds in all of them.
\<close>

section \<open>Endpoints\<close>

type_synonym server = "backend \<times> replay_guard"

definition with_principal ::
  "auth_env \<Rightarrow> accepted_state \<Rightarrow> auth_headers \<Rightarrow> (uuid \<Rightarrow> uuid \<Rightarrow> backend \<Rightarrow> 'a be_outcome) \<Rightarrow> server \<Rightarrow> (be_error + 'a) \<times> server" where
  "with_principal env accepted h service w =
     (case authenticate env accepted h w of
        (Inl e, w1) \<Rightarrow> (Inl e, w1)
      | (Inr (agent, credential), (b1, g1)) \<Rightarrow>
          (case service (ag_id agent) (ac_id credential) b1 of (r, b2) \<Rightarrow> (r, (b2, g1))))"

definition require_idempotency_header :: "uuid \<Rightarrow> uuid \<Rightarrow> (backend \<Rightarrow> 'a be_outcome) \<Rightarrow> backend \<Rightarrow> 'a be_outcome" where
  "require_idempotency_header header body service b =
     (if header \<noteq> body then (Inl Idempotency_Conflict_Error, b) else service b)"

definition rotation_endpoint ::
  "auth_env \<Rightarrow> crypto \<Rightarrow> auth_headers \<Rightarrow> uuid \<Rightarrow> uuid \<Rightarrow> string \<Rightarrow> server \<Rightarrow> (be_error + api_response) \<times> server" where
  "rotation_endpoint env cr h header_key key secret =
     with_principal env Accept_Active h (\<lambda>a c. require_idempotency_header header_key key
       (create_rotation (ae_backend env) cr a c key secret))"

definition activation_endpoint ::
  "auth_env \<Rightarrow> crypto \<Rightarrow> auth_headers \<Rightarrow> uuid \<Rightarrow> uuid \<Rightarrow> uuid \<Rightarrow> server \<Rightarrow> (be_error + api_response) \<times> server" where
  "activation_endpoint env cr h header_key key rotation_id =
     with_principal env Accept_Pending_Or_Activated h (\<lambda>a c. require_idempotency_header header_key key
       (activate_rotation (ae_backend env) cr a c rotation_id key))"

definition manifest_endpoint :: "auth_env \<Rightarrow> auth_headers \<Rightarrow> json \<Rightarrow> server \<Rightarrow> (be_error + manifest_response) \<times> server" where
  "manifest_endpoint env h document = with_principal env Accept_Active h (\<lambda>a c. publish_manifest (ae_backend env) a document)"

definition heartbeats_endpoint :: "auth_env \<Rightarrow> auth_headers \<Rightarrow> presence_request \<Rightarrow> server \<Rightarrow> (be_error + presence_response) \<times> server" where
  "heartbeats_endpoint env h q = with_principal env Accept_Active h (\<lambda>a c. heartbeat (ae_backend env) a q)"

definition presence_endpoint :: "auth_env \<Rightarrow> auth_headers \<Rightarrow> presence_request \<Rightarrow> server \<Rightarrow> (be_error + presence_response) \<times> server" where
  "presence_endpoint env h q = with_principal env Accept_Active h (\<lambda>a c. mobile_presence (ae_backend env) a q)"

section \<open>Steps\<close>

text \<open>One request or one administrative operation; \<open>allowed\<close> restricts the registrations.\<close>

inductive be_step :: "crypto \<Rightarrow> (registration \<Rightarrow> backend \<Rightarrow> bool) \<Rightarrow> server \<Rightarrow> server \<Rightarrow> bool" for cr allowed where
  Rotate: "rotation_endpoint env cr h hk key secret w = (r, w') \<Longrightarrow> be_step cr allowed w w'"
| Activate: "activation_endpoint env cr h hk key rid w = (r, w') \<Longrightarrow> be_step cr allowed w w'"
| Manifest: "manifest_endpoint env h doc w = (r, w') \<Longrightarrow> be_step cr allowed w w'"
| Heartbeat: "heartbeats_endpoint env h q w = (r, w') \<Longrightarrow> be_step cr allowed w w'"
| Presence: "presence_endpoint env h q w = (r, w') \<Longrightarrow> be_step cr allowed w w'"
| Register: "allowed q b \<Longrightarrow> register env cr q secret b = (r, b') \<Longrightarrow> be_step cr allowed (b, g) (b', g)"
| Create_Token: "create_token env cr tq u secret b = (r, b') \<Longrightarrow> be_step cr allowed (b, g) (b', g)"
| Revoke_Token: "revoke_token env t u b = (r, b') \<Longrightarrow> be_step cr allowed (b, g) (b', g)"
| Revoke_Credential: "revoke_credential env a c u b = (r, b') \<Longrightarrow> be_step cr allowed (b, g) (b', g)"
| Revoke_Agent: "revoke_agent env a u b = (r, b') \<Longrightarrow> be_step cr allowed (b, g) (b', g)"

inductive be_steps :: "crypto \<Rightarrow> (registration \<Rightarrow> backend \<Rightarrow> bool) \<Rightarrow> server \<Rightarrow> server \<Rightarrow> bool" for cr allowed where
  Stay: "be_steps cr allowed w w"
| Step: "be_steps cr allowed w w' \<Longrightarrow> be_step cr allowed w' w'' \<Longrightarrow> be_steps cr allowed w w''"

definition be_reachable :: "crypto \<Rightarrow> server \<Rightarrow> bool" where
  "be_reachable cr w \<longleftrightarrow> be_steps cr (\<lambda>q b. True) (empty_backend, empty_guard) w"

text \<open>
  An invariant of the database is kept by a step if authentication, the services of an authenticated
  agent and the other operations keep it.
\<close>

lemma authenticate_backend:
  assumes "authenticate env accepted h (b, g) = (r, (b', g'))"
  shows "b' = b \<or> (\<exists>n at ai ag ac rt ri oc md. b' = write_audit n at ai ag ac rt ri oc md b)"
proof (cases "check_headers env h")
  case (Inl e)
  with assms show ?thesis by (auto simp: authenticate_def)
next
  case (Inr x)
  obtain l s n where x: "x = ((l, s), n)" by (cases x) auto
  show ?thesis
  proof (cases "repo_credential b l")
    case None
    with assms Inr x show ?thesis by (auto simp: authenticate_def)
  next
    case (Some c)
    obtain y g2 where res: "reserve (ae_guard env) (be_now (ae_backend env)) (ac_id c) n g = (y, g2)"
      by (cases "reserve (ae_guard env) (be_now (ae_backend env)) (ac_id c) n g")
    show ?thesis
    proof (cases "repo_agent b (ac_agent c)")
      case None
      with assms Inr x Some show ?thesis by (auto simp: authenticate_def split: option.splits if_splits)
    next
      case agent: (Some agent)
      have "b' = b \<or> b' = write_audit (be_now (ae_backend env)) ''agent'' None (Some (ag_id agent))
          ''agent_auth.rejected'' ''agent'' (Some (ag_id agent)) ''denied''
          [(''agent_id'', JStr (ag_id agent)), (''reason_code'', JStr ''agent_revoked'')] b"
        using assms Inr x Some agent res by (cases y) (auto simp: authenticate_def split: option.splits if_splits)
      then show ?thesis by blast
    qed
  qed
qed

lemma with_principal_cases:
  assumes "with_principal env accepted h service (b, g) = (r, (b', g'))"
  shows "b' = b \<or> (\<exists>n at ai ag ac rt ri oc md. b' = write_audit n at ai ag ac rt ri oc md b)
    \<or> (\<exists>agent c. repo_credential b (ac_id c) = Some c \<and> repo_agent b (ac_agent c) = Some agent \<and> ag_id agent = ac_agent c
         \<and> ag_is_active agent \<and> ag_revoked_at agent = None \<and> credential_allowed accepted (be_now (ae_backend env)) c
         \<and> service (ag_id agent) (ac_id c) b = (r, b'))"
proof (cases "authenticate env accepted h (b, g)")
  case (fields x b1 g1)
  show ?thesis
  proof (cases x)
    case (Inl e)
    with assms fields have "b' = b1" by (simp add: with_principal_def)
    with authenticate_backend [OF fields] show ?thesis by blast
  next
    case (Inr p)
    obtain agent c where p: "p = (agent, c)" by (cases p)
    have auth: "repo_credential b (ac_id c) = Some c" "repo_agent b (ac_agent c) = Some agent" "ag_is_active agent"
      "ag_revoked_at agent = None" "credential_allowed accepted (be_now (ae_backend env)) c" "b1 = b"
      by (rule authenticate_success [OF fields [unfolded Inr p]]; assumption)+
    have "ag_id agent = ac_agent c" using auth(2) unfolding repo_agent_def by (drule_tac find_SomeD) simp
    moreover have "service (ag_id agent) (ac_id c) b = (r, b')"
      using assms fields Inr p auth(6) by (auto simp: with_principal_def split: prod.splits)
    ultimately show ?thesis using auth by blast
  qed
qed

lemma require_header_cases:
  "require_idempotency_header k k' service b = (r, b') \<Longrightarrow> b' = b \<or> service b = (r, b')"
  by (auto simp: require_idempotency_header_def split: if_splits)

lemma be_step_invariant:
  assumes step: "be_step cr allowed (b, g) (b', g')" and P: "P b"
    and audit: "\<And>n at ai ag ac rt ri oc md. P (write_audit n at ai ag ac rt ri oc md b)"
    and rotate: "\<And>env a c x key secret r b2. repo_credential b c = Some x \<Longrightarrow> ac_agent x = a \<Longrightarrow>
      create_rotation env cr a c key secret b = (r, b2) \<Longrightarrow> P b2"
    and activate: "\<And>env a c x rid key r b2. repo_credential b c = Some x \<Longrightarrow> ac_agent x = a \<Longrightarrow>
      activate_rotation env cr a c rid key b = (r, b2) \<Longrightarrow> P b2"
    and manifest: "\<And>env a doc r b2. publish_manifest env a doc b = (r, b2) \<Longrightarrow> P b2"
    and presence: "\<And>env a kind q ttl poll r b2. presence env a kind q ttl poll b = (r, b2) \<Longrightarrow> P b2"
    and register: "\<And>env q secret r b2. allowed q b \<Longrightarrow> register env cr q secret b = (r, b2) \<Longrightarrow> P b2"
    and token: "\<And>env tq u secret r b2. create_token env cr tq u secret b = (r, b2) \<Longrightarrow> P b2"
      "\<And>env t u r b2. revoke_token env t u b = (r, b2) \<Longrightarrow> P b2"
    and revoke: "\<And>env a c u r b2. revoke_credential env a c u b = (r, b2) \<Longrightarrow> P b2"
      "\<And>env a u r b2. revoke_agent env a u b = (r, b2) \<Longrightarrow> P b2"
  shows "P b'"
  using step
proof cases
  case (Rotate env h hk key secret r)
  from with_principal_cases [OF Rotate [unfolded rotation_endpoint_def]] show ?thesis
    using P audit by (elim disjE exE conjE) (auto dest!: require_header_cases intro: rotate)
next
  case (Activate env h hk key rid r)
  from with_principal_cases [OF Activate [unfolded activation_endpoint_def]] show ?thesis
    using P audit by (elim disjE exE conjE) (auto dest!: require_header_cases intro: activate)
next
  case (Manifest env h doc r)
  from with_principal_cases [OF Manifest [unfolded manifest_endpoint_def]] show ?thesis
    using P audit manifest by blast
next
  case (Heartbeat env h q r)
  from with_principal_cases [OF Heartbeat [unfolded heartbeats_endpoint_def]] show ?thesis
    using P audit by (elim disjE exE conjE) (auto simp: heartbeat_def intro: presence split: if_splits)
next
  case (Presence env h q r)
  from with_principal_cases [OF Presence [unfolded presence_endpoint_def]] show ?thesis
    using P audit by (elim disjE exE conjE) (auto simp: mobile_presence_def intro: presence split: if_splits)
next
  case (Register q env secret r)
  then show ?thesis by (intro register)
next
  case (Create_Token env tq u secret r)
  then show ?thesis by (intro token(1))
next
  case (Revoke_Token env t u r)
  then show ?thesis by (intro token(2))
next
  case (Revoke_Credential env a c u r)
  then show ?thesis by (intro revoke(1))
next
  case (Revoke_Agent env a u r)
  then show ?thesis by (intro revoke(2))
qed

lemma cred_inv_presence:
  assumes "cred_inv b" and "presence env a kind q ttl poll b = (r, b')"
  shows "cred_inv b'"
proof -
  have "b' = b \<or> (\<exists>row. b' = touch_agent a (be_now env) (put_presence row b))"
    using assms(2) by (auto simp: presence_def Let_def split: if_splits option.splits)
  moreover have "cred_inv (touch_agent a (be_now env) (put_presence row b))" for row
    using assms(1) by (simp add: cred_defs touch_agent_def put_presence_def idem_wf_def agents_ok_update)
  ultimately show ?thesis using assms(1) by auto
qed

lemma cred_inv_step:
  assumes "be_step cr allowed (b, g) (b', g')" and "cred_inv b"
  shows "cred_inv b'"
  using assms(1)
proof (rule be_step_invariant)
  fix env a c x key secret r b2
  assume "repo_credential b c = Some x" "ac_agent x = a" "create_rotation env cr a c key secret b = (r, b2)"
  then show "cred_inv b2" using cred_inv_create_rotation [OF assms(2)] by auto
qed (rule assms(2) | simp only: cred_inv_audit assms(2) | erule cred_inv_activate_rotation [OF assms(2)]
    | erule cred_inv_publish_manifest [OF assms(2)] | erule cred_inv_presence [OF assms(2)] | erule cred_inv_register [OF assms(2)]
    | erule cred_inv_tokens [OF assms(2)] | erule cred_inv_revoke_credential [OF assms(2)] | erule cred_inv_revoke_agent [OF assms(2)])+

lemma cred_inv_steps: "be_steps cr allowed w w' \<Longrightarrow> cred_inv (fst w) \<Longrightarrow> cred_inv (fst w')"
proof (induction rule: be_steps.induct)
  case (Stay w)
  then show ?case .
next
  case (Step w w' w'')
  then show ?case using cred_inv_step by (metis surjective_pairing)
qed

lemma cred_inv_empty: "cred_inv empty_backend"
  by (simp add: cred_defs empty_backend_def credentials_ok_def rotations_ok_def agents_ok_def idem_wf_def with_state_def)

lemma reachable_inv: "be_reachable cr (b, g) \<Longrightarrow> cred_inv b"
  using cred_inv_steps [of cr "\<lambda>q b. True" "(empty_backend, empty_guard)" "(b, g)"] cred_inv_empty
  by (simp add: be_reachable_def)

end
