(* ===== verification/Backend_Repeat.thy ===== *)
theory Backend_Repeat
  imports Backend_Reach
begin

text \<open>
  The operations of the agent interface that create or use a credential (\<open>create_rotation\<close>,
  \<open>activate_rotation\<close>, \<open>register\<close>) meet the contract of a repeatable operation: an agent that lost the
  answer and asks again gets the same one, and no second credential is made.
\<close>

section \<open>Records that are still pending\<close>

text \<open>A record that was never completed has neither a public nor a secret answer.\<close>

definition records_wf :: "backend \<Rightarrow> bool" where
  "records_wf b \<longleftrightarrow> idem_wf b \<and>
     (\<forall>row \<in> set (b_idempotency b). id_state row = Idem_Pending \<longrightarrow>
        id_body row = None \<and> id_id row \<notin> sr_record ` set (b_replays b))"

definition cipher_ok :: "crypto \<Rightarrow> bool" where
  "cipher_ok cr \<longleftrightarrow> (\<forall>n i x. cr_decrypt cr i (cr_encrypt cr n i x) = Some x)"

lemma records_wf_cong:
  "b_idempotency b' = b_idempotency b \<Longrightarrow> b_replays b' = b_replays b \<Longrightarrow> records_wf b' = records_wf b"
  by (simp add: records_wf_def idem_wf_def)

lemma find_recordD: "find_record b sc = Some row \<Longrightarrow> row \<in> set (b_idempotency b)"
  by (auto simp: find_record_eq dest: find_SomeD)

lemma begin_recorded_was_secret:
  assumes "records_wf b" and "idem_begin env cr sc fp True b = (Inr (Recorded r st), b1)"
  shows "\<exists>until. recorded_secret cr sc fp r until b"
proof -
  obtain row rep where row: "find_record b sc = Some row" "id_fingerprint row = fp" "repo_secret_replay b (id_id row) = Some rep"
    "cr_decrypt cr (id_id row) (sr_ciphertext rep) = Some r"
    using begin_recorded [OF assms(2)] by auto
  have "id_id row \<in> sr_record ` set (b_replays b)"
    using find_SomeD [OF row(3) [unfolded repo_secret_replay_def]] by (metis image_eqI)
  with assms(1) find_recordD [OF row(1)] have "id_state row \<noteq> Idem_Pending" by (auto simp: records_wf_def)
  with row show ?thesis by (auto simp: recorded_secret_def)
qed

lemma begin_recorded_was_public:
  assumes "records_wf b" and "idem_begin env cr sc fp False b = (Inr (Recorded r st), b1)"
  shows "recorded_public sc fp r b"
proof -
  obtain row where row: "find_record b sc = Some row" "id_fingerprint row = fp" "id_body row = Some (Some r)"
    using begin_recorded [OF assms(2)] by auto
  with assms(1) find_recordD [OF row(1)] have "id_state row \<noteq> Idem_Pending" by (auto simp: records_wf_def)
  moreover have "\<exists>st. id_status row = Some st"
    using assms(2) row by (cases "id_status row") (auto simp: idem_begin_def Let_def split: if_splits)
  ultimately show ?thesis using row by (auto simp: recorded_public_def)
qed

lemma records_wf_completed:
  assumes "idem_begin env cr sc fp secret b = (Inr (New_Record rid), b1)" and "records_wf b" and "same_records b1 b2"
  shows "records_wf (complete_secret env cr rid body st b2)" "records_wf (complete_public env rid body st b2)"
proof -
  note new = begin_new [OF assms(1)]
  have ids: "rid \<notin> id_id ` set (b_idempotency b)" "rid = be_fresh env ''idempotency''" using new by blast+
  have recs: "b_idempotency b2 = b_idempotency b @ [new_idem_row env sc fp]" "b_replays b2 = b_replays b"
    using assms(3) new by (simp_all add: same_records_def)
  have wf: "idem_wf b" using assms(2) by (simp add: records_wf_def)
  have pending: "id_body row = None \<and> id_id row \<notin> sr_record ` set (b_replays b)"
    if "row \<in> set (b_idempotency b)" "id_state row = Idem_Pending" for row
    using assms(2) that by (auto simp: records_wf_def)
  have none: "upd_where (\<lambda>r. id_id r = rid) f (b_idempotency b) = b_idempotency b" for f
    using ids(1) by (intro upd_where_none) auto
  have other: "id_id row \<noteq> rid" if "row \<in> set (b_idempotency b)" for row using ids(1) that by auto
  let ?row = "new_idem_row env sc fp"
  have row: "id_id ?row = rid" using ids(2) by (simp add: new_idem_row_def)
  let ?s = "\<lambda>r. r\<lparr>id_state := Idem_Completed, id_body := Some None, id_status := Some st,
        id_updated_at := be_now env, id_expires_at := be_now env + terminal_retention\<rparr>"
  have "b_idempotency (complete_secret env cr rid body st b2) = b_idempotency b @ [?s ?row]"
    by (simp add: complete_secret_def upd_record_def recs none row)
  moreover have "sr_record ` set (b_replays (complete_secret env cr rid body st b2)) = insert rid (sr_record ` set (b_replays b))"
    by (auto simp: complete_secret_def recs)
  ultimately show "records_wf (complete_secret env cr rid body st b2)"
    using wf pending ids(1) other row by (auto simp: records_wf_def idem_wf_def)
  let ?p = "\<lambda>r. r\<lparr>id_state := Idem_Completed, id_body := Some (Some body), id_status := Some st,
        id_updated_at := be_now env, id_expires_at := be_now env + terminal_retention\<rparr>"
  have "b_idempotency (complete_public env rid body st b2) = b_idempotency b @ [?p ?row]"
    by (simp add: complete_public_def upd_record_def recs none row)
  moreover have "b_replays (complete_public env rid body st b2) = b_replays b" by (simp add: recs)
  ultimately show "records_wf (complete_public env rid body st b2)"
    using wf pending ids(1) other row by (auto simp: records_wf_def idem_wf_def)
qed

section \<open>Rotation\<close>

definition at_time :: "be_env \<Rightarrow> (instant \<Rightarrow> string \<Rightarrow> uuid) \<Rightarrow> instant \<Rightarrow> be_env" where
  "at_time env fresh now = env\<lparr>be_now := now, be_fresh := fresh now\<rparr>"

record rotation_call_args =
  rc_agent :: uuid
  rc_active :: uuid
  rc_key :: uuid
  rc_secret :: "instant \<Rightarrow> string"

text \<open>The secret and the fresh identifiers differ from call to call.\<close>

definition rotation_call ::
  "be_env \<Rightarrow> (instant \<Rightarrow> string \<Rightarrow> uuid) \<Rightarrow> crypto \<Rightarrow> instant \<Rightarrow> rotation_call_args \<Rightarrow> backend \<Rightarrow> api_response be_outcome" where
  "rotation_call env fresh cr now q =
     create_rotation (at_time env fresh now) cr (rc_agent q) (rc_active q) (rc_key q) (rc_secret q now)"

definition rotation_recorded :: "be_env \<Rightarrow> crypto \<Rightarrow> rotation_call_args \<Rightarrow> api_response \<Rightarrow> instant \<Rightarrow> backend \<Rightarrow> bool" where
  "rotation_recorded env cr q r until b \<longleftrightarrow>
     recorded_secret cr (rotate_scope (rc_agent q) (rc_key q)) (rotate_fingerprint env) r until b
     \<and> (\<exists>rid e i. r = Rotation_Created rid e i)"

definition without_audit :: "backend \<Rightarrow> backend" where
  "without_audit b = b\<lparr>b_audit := []\<rparr>"

lemma fingerprint_at_time [simp]:
  "rotate_fingerprint (at_time env fresh now) = rotate_fingerprint env"
  "activate_fingerprint (at_time env fresh now) rid = activate_fingerprint env rid"
  "register_fingerprint (at_time env fresh now) rq = register_fingerprint env rq"
  "be_now (at_time env fresh now) = now"
  "be_sha (at_time env fresh now) = be_sha env"
  "be_contract_ok (at_time env fresh now) = be_contract_ok env"
  by (simp_all add: rotate_fingerprint_def activate_fingerprint_def register_fingerprint_def at_time_def)

lemma audit_agent_records [simp]:
  "b_idempotency (audit_agent env a act rt ri md b) = b_idempotency b"
  "b_replays (audit_agent env a act rt ri md b) = b_replays b"
  "without_audit (audit_agent env a act rt ri md b) = without_audit b"
  by (simp_all add: audit_agent_def without_audit_def)

lemma issue_rotation_records:
  "issue_rotation env cr a active secret b = (Inr body, b') \<Longrightarrow>
   same_records b b' \<and> (\<exists>rid e i. body = Rotation_Created rid e i)"
  by (auto simp: issue_rotation_def Let_def flush_credentials_def flush_rotations_def same_records_def split: if_splits)

lemma expire_pending_records: "same_records b (expire_pending env a b)"
  by (auto simp: expire_pending_def same_records_def split: option.splits)

lemma same_records_trans: "same_records a b \<Longrightarrow> same_records b c \<Longrightarrow> same_records a c"
  by (simp add: same_records_def)

lemma create_rotation_new:
  assumes "create_rotation env cr a active key secret b = (Inr body, b')"
  shows "(\<exists>st b1. idem_begin env cr (rotate_scope a key) (rotate_fingerprint env) True b = (Inr (Recorded body st), b1)
        \<and> (\<exists>rid e i. body = Rotation_Created rid e i))
    \<or> (\<exists>rec b1 b3 act rt ri md. idem_begin env cr (rotate_scope a key) (rotate_fingerprint env) True b = (Inr (New_Record rec), b1)
        \<and> same_records b1 b3 \<and> (\<exists>rid e i. body = Rotation_Created rid e i)
        \<and> b' = audit_agent env a act rt ri md (complete_secret env cr rec body 201 b3))"
proof (cases "idem_begin env cr (rotate_scope a key) (rotate_fingerprint env) True b")
  case (Pair x b1)
  show ?thesis
  proof (cases x)
    case (Inl e)
    with assms Pair show ?thesis by (cases e) (auto simp: create_rotation_def)
  next
    case (Inr start)
    show ?thesis
    proof (cases start)
      case (Recorded r st)
      with assms Pair Inr show ?thesis by (cases r) (auto simp: create_rotation_def)
    next
      case (New_Record rec)
      with assms Pair Inr obtain b3 act rt ri md where
        iss: "issue_rotation env cr a active secret (expire_pending env a b1) = (Inr body, b3)"
        and b': "b' = audit_agent env a act rt ri md (complete_secret env cr rec body 201 b3)"
        by (auto simp: create_rotation_def Let_def split: if_splits option.splits sum.splits prod.splits)
      have "same_records b1 b3" "\<exists>rid e i. body = Rotation_Created rid e i"
        using issue_rotation_records [OF iss] expire_pending_records same_records_trans by blast+
      with Pair Inr New_Record b' show ?thesis by blast
    qed
  qed
qed

interpretation rotation: repeatable "rotation_call env fresh cr" "rotation_recorded env cr" without_audit records_wf
    "\<lambda>now q. cipher_ok cr" secret_window
  for env fresh cr
proof
  fix s now q r s'
  assume wf: "records_wf s" and ok: "cipher_ok cr" and no: "\<forall>r0 until. \<not> rotation_recorded env cr q r0 until s"
    and res: "rotation_call env fresh cr now q s = (Inr r, s')"
  from create_rotation_new [OF res [unfolded rotation_call_def]]
  show "records_wf s' \<and> rotation_recorded env cr q r (now + secret_window) s'"
  proof (elim disjE exE conjE)
    fix st b1 rid e i
    assume "idem_begin (at_time env fresh now) cr (rotate_scope (rc_agent q) (rc_key q)) (rotate_fingerprint (at_time env fresh now)) True s
      = (Inr (Recorded r st), b1)" "r = Rotation_Created rid e i"
    then have "\<exists>until. rotation_recorded env cr q r until s"
      using begin_recorded_was_secret [OF wf] unfolding rotation_recorded_def by (metis fingerprint_at_time(1))
    with no show ?thesis by blast
  next
    fix rec b1 b3 act rt ri md rid e i
    assume opened: "idem_begin (at_time env fresh now) cr (rotate_scope (rc_agent q) (rc_key q)) (rotate_fingerprint (at_time env fresh now)) True s
      = (Inr (New_Record rec), b1)" and same: "same_records b1 b3" and shape: "r = Rotation_Created rid e i"
      and s': "s' = audit_agent (at_time env fresh now) (rc_agent q) act rt ri md (complete_secret (at_time env fresh now) cr rec r 201 b3)"
    have "idem_wf s" using wf by (simp add: records_wf_def)
    from complete_secret_records [OF opened this same, of r 201] ok records_wf_completed [OF opened wf same]
    show ?thesis unfolding s' rotation_recorded_def
      by (simp add: cipher_ok_def shape records_wf_cong [OF audit_agent_records(1,2)] recorded_records_only(1) [OF audit_agent_records(1,2)])
  qed
next
  fix s now q r until
  assume wf: "records_wf s" and rec: "rotation_recorded env cr q r until s" and "now < until"
  then obtain st rid e i where "idem_begin (at_time env fresh now) cr (rotate_scope (rc_agent q) (rc_key q)) (rotate_fingerprint env) True s
      = (Inr (Recorded r st), s)" "r = Rotation_Created rid e i"
    using begin_recorded_secret [of cr "rotate_scope (rc_agent q) (rc_key q)" "rotate_fingerprint env" r until s "at_time env fresh now"]
    unfolding rotation_recorded_def fingerprint_at_time by blast
  then show "\<exists>s'. rotation_call env fresh cr now q s = (Inr r, s') \<and> without_audit s' = without_audit s \<and> records_wf s'
      \<and> rotation_recorded env cr q r until s'"
    using wf rec unfolding rotation_recorded_def
    by (simp add: rotation_call_def create_rotation_def records_wf_cong [OF audit_agent_records(1,2)]
        recorded_records_only(1) [OF audit_agent_records(1,2)])
qed

section \<open>Registration\<close>

definition register_call ::
  "be_env \<Rightarrow> (instant \<Rightarrow> string \<Rightarrow> uuid) \<Rightarrow> crypto \<Rightarrow> (instant \<Rightarrow> string) \<Rightarrow> instant \<Rightarrow> registration \<Rightarrow> backend \<Rightarrow> api_response be_outcome" where
  "register_call env fresh cr secrets now q = register (at_time env fresh now) cr q (secrets now)"

text \<open>The token that a registration names, if its secret is the right one.\<close>

definition presented_token :: "crypto \<Rightarrow> registration \<Rightarrow> backend \<Rightarrow> token_row option" where
  "presented_token cr q b =
     (case parse_machine_secret (rq_token q) ''wto_enr_1'' of
        None \<Rightarrow> None
      | Some (locator, secret) \<Rightarrow>
          (case repo_enrollment_token b locator of
             None \<Rightarrow> None
           | Some t \<Rightarrow> if secret_digest (cr_token_hmac cr) secret = Some (et_digest t) then Some t else None))"

definition registration_recorded :: "be_env \<Rightarrow> crypto \<Rightarrow> registration \<Rightarrow> api_response \<Rightarrow> instant \<Rightarrow> backend \<Rightarrow> bool" where
  "registration_recorded env cr q r until b \<longleftrightarrow>
     (\<exists>t. presented_token cr q b = Some t
        \<and> recorded_secret cr (register_scope (et_id t) q) (register_fingerprint env q) r until b)
     \<and> (\<exists>d a at i. r = Registered d a at i)"

definition registration_valid :: "be_env \<Rightarrow> crypto \<Rightarrow> instant \<Rightarrow> registration \<Rightarrow> bool" where
  "registration_valid env cr now q \<longleftrightarrow> cipher_ok cr
     \<and> be_contract_ok env ''agent-registration-request.schema.json'' (rq_raw q)
     \<and> \<not> clock_skewed (env\<lparr>be_now := now\<rparr>) (rq_reported_at q)"

lemma clock_skewed_at_time [simp]: "clock_skewed (at_time env fresh now) t = clock_skewed (env\<lparr>be_now := now\<rparr>) t"
  by (simp add: clock_skewed_def at_time_def)

lemma register_presented:
  assumes "presented_token cr q b = Some t"
    and "be_contract_ok env ''agent-registration-request.schema.json'' (rq_raw q)" and "\<not> clock_skewed env (rq_reported_at q)"
  shows "register env cr q secret b =
    (case idem_begin env cr (register_scope (et_id t) q) (register_fingerprint env q) True b of
       (Inl e, _) \<Rightarrow> (Inl e, b)
     | (Inr (Recorded body _), b1) \<Rightarrow>
         (case body of
            Registered device aid at issued \<Rightarrow>
              (Inr body, audit_agent env aid ''idempotency.replay'' ''agent'' aid
                 [(''operation_id'', JStr (''agent.register:'' @ rq_installation q)), (''agent_id'', JStr aid)] b1)
          | _ \<Rightarrow> (Inl Be_Value_Error, b))
     | (Inr (New_Record rec), b1) \<Rightarrow>
         (case register_new env cr q secret t rec b1 of (Inl e, _) \<Rightarrow> (Inl e, b) | (Inr body, b2) \<Rightarrow> (Inr body, b2)))"
proof -
  from assms(1) obtain l s where "parse_machine_secret (rq_token q) ''wto_enr_1'' = Some (l, s)" "repo_enrollment_token b l = Some t"
    "secret_digest (cr_token_hmac cr) s = Some (et_digest t)"
    by (auto simp: presented_token_def split: option.splits if_splits)
  with assms(2,3) show ?thesis unfolding register_def by simp
qed

lemma register_InrD:
  assumes "register env cr q secret b = (Inr body, b')"
  shows "(\<exists>t. presented_token cr q b = Some t) \<and> be_contract_ok env ''agent-registration-request.schema.json'' (rq_raw q)
    \<and> \<not> clock_skewed env (rq_reported_at q)"
  using assms by (auto simp: register_def presented_token_def split: if_splits option.splits)

lemma register_success:
  assumes res: "register env cr q secret b = (Inr body, b')"
  obtains (Replay) t st b1 d a at i where "presented_token cr q b = Some t"
    "idem_begin env cr (register_scope (et_id t) q) (register_fingerprint env q) True b = (Inr (Recorded body st), b1)"
    "body = Registered d a at i" "same_records b1 b'" "b_tokens b' = b_tokens b" "b_agents b' = b_agents b"
  | (New) t rec b1 where "presented_token cr q b = Some t"
    "idem_begin env cr (register_scope (et_id t) q) (register_fingerprint env q) True b = (Inr (New_Record rec), b1)"
    "register_new env cr q secret t rec b1 = (Inr body, b')"
proof -
  from register_InrD [OF res] obtain t where t: "presented_token cr q b = Some t"
    and ok: "be_contract_ok env ''agent-registration-request.schema.json'' (rq_raw q)" "\<not> clock_skewed env (rq_reported_at q)" by blast
  note eq = register_presented [OF t ok, of secret]
  obtain x b1 where opened: "idem_begin env cr (register_scope (et_id t) q) (register_fingerprint env q) True b = (x, b1)"
    by (cases "idem_begin env cr (register_scope (et_id t) q) (register_fingerprint env q) True b")
  show thesis
  proof (cases x)
    case (Inl e)
    with res opened eq show ?thesis by simp
  next
    case (Inr start)
    show ?thesis
    proof (cases start)
      case (Recorded r st)
      show ?thesis
      proof (cases r)
        case (Registered d a at i)
        have "b_tokens b1 = b_tokens b" "b_agents b1 = b_agents b" using begin_tables [OF opened] by blast+
        with res opened eq Inr Recorded Registered show ?thesis
          by (intro Replay [OF t, of st b1 d a at i]) (auto simp: same_records_def audit_agent_def)
      qed (use res opened eq Inr Recorded in auto)
    next
      case (New_Record rec)
      with res opened eq Inr show ?thesis
        by (intro New [OF t, of rec b1]) (auto split: sum.splits prod.splits)
    qed
  qed
qed

lemma same_records_refl [simp]: "same_records b b" by (simp add: same_records_def)

lemma consume_token_records: "same_records b (consume_token env tid b)"
  by (simp add: same_records_def consume_token_def)

lemma registered_agent_records: "registered_agent env q t b = (Inr x, b') \<Longrightarrow> same_records b b' \<and> b_tokens b' = b_tokens b"
  by (auto simp: registered_agent_def Let_def flush_agents_def same_records_def split: if_splits option.splits)

lemma issue_credential_records: "issue_credential env cr a secret b = (Inr x, b') \<Longrightarrow> same_records b b' \<and> b_tokens b' = b_tokens b"
  by (auto simp: issue_credential_def Let_def flush_credentials_def same_records_def split: if_splits)

lemma register_new_records:
  assumes "register_new env cr q secret t rec b1 = (Inr body, b')"
  obtains b2 a act md where "same_records b1 b2" and "b_tokens b2 = b_tokens b1"
    and "b' = audit_agent env a act ''agent'' a md (complete_secret env cr rec body 201 (consume_token env (et_id t) b2))"
proof (rule register_new_result [OF assms])
  fix d a b2 issued b3
  assume "registered_agent env q t b1 = (Inr (d, a), b2)" "issue_credential env cr a secret b2 = (Inr issued, b3)"
    and "\<exists>act md. b' = audit_agent env a act ''agent'' a md (complete_secret env cr rec body 201 (consume_token env (et_id t) b3))"
  moreover from this(1,2) have "same_records b1 b3" "b_tokens b3 = b_tokens b1"
    using registered_agent_records issue_credential_records same_records_trans by fastforce+
  ultimately show thesis using that by blast
qed

lemma presented_token_cong:
  "b_tokens b' = b_tokens b \<Longrightarrow> presented_token cr q b' = presented_token cr q b"
  by (simp add: presented_token_def repo_enrollment_token_def split: option.split)

lemma presented_token_consumed:
  assumes "presented_token cr q b = Some t" and "b_tokens b' = b_tokens (consume_token env tid b)"
  shows "\<exists>t'. presented_token cr q b' = Some t' \<and> et_id t' = et_id t"
proof -
  define f where "f = (\<lambda>t :: token_row. t\<lparr>et_uses_consumed := et_uses_consumed t + 1, et_consumed_at := Some (be_now env)\<rparr>)"
  have keeps: "\<And>t. et_id (f t) = et_id t" "\<And>t. et_digest (f t) = et_digest t" by (simp_all add: f_def)
  have tokens: "b_tokens b' = upd_where (\<lambda>t. et_id t = tid) f (b_tokens b)"
    using assms(2) by (simp add: consume_token_def f_def)
  obtain l s where l: "parse_machine_secret (rq_token q) ''wto_enr_1'' = Some (l, s)" "repo_enrollment_token b l = Some t"
    "secret_digest (cr_token_hmac cr) s = Some (et_digest t)"
    using assms(1) by (auto simp: presented_token_def split: option.splits if_splits)
  have "repo_enrollment_token b' l = Some (if et_id t = tid then f t else t)"
    using l(2) by (simp add: repo_enrollment_token_def tokens find_key_upd_where [of et_id f, OF keeps(1)])
  with l show ?thesis by (simp add: presented_token_def keeps)
qed

interpretation registration: repeatable "register_call env fresh cr secrets" "registration_recorded env cr" without_audit records_wf
    "registration_valid env cr" secret_window
  for env fresh cr secrets
proof
  fix s now q r s'
  assume wf: "records_wf s" and ok: "registration_valid env cr now q" and no: "\<forall>r0 until. \<not> registration_recorded env cr q r0 until s"
    and res: "register_call env fresh cr secrets now q s = (Inr r, s')"
  let ?env = "at_time env fresh now"
  from res [unfolded register_call_def] show "records_wf s' \<and> registration_recorded env cr q r (now + secret_window) s'"
  proof (cases rule: register_success)
    case (Replay t st b1 d a at i)
    then have "\<exists>until. registration_recorded env cr q r until s"
      using begin_recorded_was_secret [OF wf Replay(2)] by (auto simp: registration_recorded_def)
    with no show ?thesis by blast
  next
    case (New t rec b1)
    obtain b2 a act md where b2: "same_records b1 b2" "b_tokens b2 = b_tokens b1"
      and s': "s' = audit_agent ?env a act ''agent'' a md (complete_secret ?env cr rec r 201 (consume_token ?env (et_id t) b2))"
      by (rule register_new_records [OF New(3)])
    have same: "same_records b1 (consume_token ?env (et_id t) b2)"
      by (rule same_records_trans [OF b2(1) consume_token_records])
    have "idem_wf s" using wf by (simp add: records_wf_def)
    from complete_secret_records [OF New(2) this same, of r 201] ok records_wf_completed(1) [OF New(2) wf same]
    have rec: "records_wf s'" "recorded_secret cr (register_scope (et_id t) q) (register_fingerprint env q) r (now + secret_window) s'"
      unfolding s' by (simp_all add: registration_valid_def cipher_ok_def records_wf_cong [OF audit_agent_records(1,2)]
          recorded_records_only(1) [OF audit_agent_records(1,2)])
    have "b_tokens b1 = b_tokens s" using begin_tables [OF New(2)] by blast
    with b2(2) have "b_tokens s' = b_tokens (consume_token ?env (et_id t) s)" by (simp add: s' audit_agent_def consume_token_def)
    then obtain t' where "presented_token cr q s' = Some t'" "et_id t' = et_id t"
      using presented_token_consumed [OF New(1)] by blast
    moreover have "\<exists>d a at i. r = Registered d a at i" by (rule register_new_result [OF New(3)]) blast
    ultimately show ?thesis using rec by (auto simp: registration_recorded_def)
  qed
next
  fix s now q r until
  assume wf: "records_wf s" and ok: "registration_valid env cr now q" and rec: "registration_recorded env cr q r until s" and "now < until"
  then obtain t d a at i where t: "presented_token cr q s = Some t" and r: "r = Registered d a at i"
    and sec: "recorded_secret cr (register_scope (et_id t) q) (register_fingerprint env q) r until s"
    by (auto simp: registration_recorded_def)
  obtain st where "idem_begin (at_time env fresh now) cr (register_scope (et_id t) q) (register_fingerprint env q) True s
      = (Inr (Recorded r st), s)"
    using begin_recorded_secret [OF sec, of "at_time env fresh now"] \<open>now < until\<close> by auto
  with register_presented [OF t, of "at_time env fresh now"] ok r
  have "register_call env fresh cr secrets now q s = (Inr r, audit_agent (at_time env fresh now) a ''idempotency.replay'' ''agent'' a
      [(''operation_id'', JStr (''agent.register:'' @ rq_installation q)), (''agent_id'', JStr a)] s)"
    by (simp add: register_call_def registration_valid_def)
  moreover have "registration_recorded env cr q r until (audit_agent env' a act rt ri md s)" for env' a act rt ri md
  proof -
    have "presented_token cr q (audit_agent env' a act rt ri md s) = presented_token cr q s"
      by (rule presented_token_cong) (simp add: audit_agent_def)
    with rec show ?thesis
      by (simp add: registration_recorded_def recorded_records_only(1) [OF audit_agent_records(1,2)])
  qed
  ultimately show "\<exists>s'. register_call env fresh cr secrets now q s = (Inr r, s') \<and> without_audit s' = without_audit s \<and> records_wf s'
      \<and> registration_recorded env cr q r until s'"
    using wf by (simp add: records_wf_cong [OF audit_agent_records(1,2)])
qed

section \<open>Activation\<close>

definition activation_call ::
  "be_env \<Rightarrow> (instant \<Rightarrow> string \<Rightarrow> uuid) \<Rightarrow> crypto \<Rightarrow> instant \<Rightarrow> uuid \<times> uuid \<times> uuid \<times> uuid \<Rightarrow> backend \<Rightarrow> api_response be_outcome" where
  "activation_call env fresh cr now q =
     (case q of (a, supplied, rid, key) \<Rightarrow> activate_rotation (at_time env fresh now) cr a supplied rid key)"

text \<open>The answer holds no secret: the record itself keeps it, with no window of its own.\<close>

definition activation_recorded :: "be_env \<Rightarrow> uuid \<times> uuid \<times> uuid \<times> uuid \<Rightarrow> api_response \<Rightarrow> instant \<Rightarrow> backend \<Rightarrow> bool" where
  "activation_recorded env q r until b \<longleftrightarrow>
     (case q of (a, supplied, rid, key) \<Rightarrow> recorded_public (activate_scope a rid key) (activate_fingerprint env rid) r b)
     \<and> (\<exists>rid c v t. r = Rotation_Activated rid c v t)"

lemma switch_credentials_records:
  "switch_credentials env rot b = (Inr body, b') \<Longrightarrow> same_records b b' \<and> (\<exists>rid c v t. body = Rotation_Activated rid c v t)"
  by (auto simp: switch_credentials_def Let_def flush_credentials_def same_records_def split: option.splits if_splits)

lemma activate_rotation_success:
  assumes res: "activate_rotation env cr a supplied rid key b = (Inr body, b')"
  obtains (Replay) st b1 where
    "idem_begin env cr (activate_scope a rid key) (activate_fingerprint env rid) False b = (Inr (Recorded body st), b1)"
    "\<exists>rid c v t. body = Rotation_Activated rid c v t" "same_records b1 b'"
  | (New) rec b1 b2 rt ri act md where
    "idem_begin env cr (activate_scope a rid key) (activate_fingerprint env rid) False b = (Inr (New_Record rec), b1)"
    "\<exists>rid c v t. body = Rotation_Activated rid c v t" "same_records b1 b2"
    "b' = audit_agent env a act rt ri md (complete_public env rec body 200 b2)"
proof -
  obtain x b1 where opened: "idem_begin env cr (activate_scope a rid key) (activate_fingerprint env rid) False b = (x, b1)"
    by (cases "idem_begin env cr (activate_scope a rid key) (activate_fingerprint env rid) False b")
  show thesis
  proof (cases x)
    case (Inl e)
    with res opened show ?thesis by (simp add: activate_rotation_def)
  next
    case (Inr start)
    show ?thesis
    proof (cases start)
      case (Recorded r st)
      show ?thesis
      proof (cases r)
        case (Rotation_Activated i c v t)
        with res opened Inr Recorded show ?thesis
          by (intro Replay [of st b1]) (auto simp: activate_rotation_def same_records_def)
      qed (use res opened Inr Recorded in \<open>auto simp: activate_rotation_def\<close>)
    next
      case (New_Record rec)
      with res opened Inr obtain rot b2 act rt ri md where sw: "switch_credentials env rot b1 = (Inr body, b2)"
        and b': "b' = audit_agent env a act rt ri md (complete_public env rec body 200 b2)"
        by (auto simp: activate_rotation_def split: if_splits option.splits sum.splits prod.splits)
      from switch_credentials_records [OF sw] opened Inr New_Record b' show ?thesis by (intro New) auto
    qed
  qed
qed

interpretation activation: repeatable "activation_call env fresh cr" "activation_recorded env" without_audit records_wf
    "\<lambda>now q. True" terminal_retention
  for env fresh cr
proof
  fix s now q r s'
  assume wf: "records_wf s" and no: "\<forall>r0 until. \<not> activation_recorded env q r0 until s"
    and res: "activation_call env fresh cr now q s = (Inr r, s')"
  obtain a supplied rid key where q: "q = (a, supplied, rid, key)" by (cases q)
  from res [unfolded activation_call_def q prod.case]
  show "records_wf s' \<and> activation_recorded env q r (now + terminal_retention) s'"
  proof (cases rule: activate_rotation_success)
    case (Replay st b1)
    then have "activation_recorded env q r 0 s"
      using begin_recorded_was_public [OF wf Replay(1)] by (simp add: activation_recorded_def q)
    with no show ?thesis by blast
  next
    case (New rec b1 b2 rt ri act md)
    have "idem_wf s" using wf by (simp add: records_wf_def)
    from complete_public_records [OF New(1) this New(3), of r 200] records_wf_completed(2) [OF New(1) wf New(3)] New(2)
    show ?thesis unfolding New(4) activation_recorded_def
      by (simp add: q records_wf_cong [OF audit_agent_records(1,2)] recorded_records_only(2) [OF audit_agent_records(1)])
  qed
next
  fix s now q r until
  assume wf: "records_wf s" and rec: "activation_recorded env q r until s"
  obtain a supplied rid key where q: "q = (a, supplied, rid, key)" by (cases q)
  obtain i c v t where r: "r = Rotation_Activated i c v t" using rec by (auto simp: activation_recorded_def)
  obtain st where "idem_begin (at_time env fresh now) cr (activate_scope a rid key) (activate_fingerprint env rid) False s
      = (Inr (Recorded r st), s)"
    using rec begin_recorded_public unfolding activation_recorded_def q prod.case by blast
  then show "\<exists>s'. activation_call env fresh cr now q s = (Inr r, s') \<and> without_audit s' = without_audit s \<and> records_wf s'
      \<and> activation_recorded env q r until s'"
    using wf rec r unfolding activation_recorded_def
    by (simp add: q activation_call_def activate_rotation_def records_wf_cong [OF audit_agent_records(1,2)]
        recorded_records_only(2) [OF audit_agent_records(1)])
qed

section \<open>In every reachable state\<close>

lemma records_wf_begin:
  assumes "records_wf b" and "idem_begin env cr sc fp secret b = (x, b1)" and "\<forall>rec. x \<noteq> Inr (New_Record rec)"
  shows "records_wf b1"
proof -
  define f where "f = (\<lambda>r :: idem_row. r\<lparr>id_state := Idem_Failed, id_updated_at := be_now env\<rparr>)"
  have "b1 = b \<or> (\<exists>rid. b1 = upd_record rid f b)"
    using assms(2,3) by (simp add: idem_begin_def Let_def f_def split: option.splits if_splits) metis+
  moreover have "records_wf (upd_record rid f b)" for rid
  proof -
    have "id_id (f r) = id_id r" "id_state (f r) \<noteq> Idem_Pending" for r by (simp_all add: f_def)
    then have "idem_wf (upd_record rid f b)" using assms(1) by (simp add: records_wf_def idem_wf_def upd_record_def)
    moreover have "row \<in> set (b_idempotency b)" if "row \<in> set (b_idempotency (upd_record rid f b))" "id_state row = Idem_Pending" for row
      using that \<open>\<And>r. id_state (f r) \<noteq> Idem_Pending\<close> by (auto simp: upd_record_def set_upd_where split: if_splits)
    ultimately show ?thesis using assms(1) by (simp add: records_wf_def)
  qed
  ultimately show ?thesis using assms(1) by blast
qed

lemma records_wf_same: "same_records b b' \<Longrightarrow> records_wf b \<Longrightarrow> records_wf b'"
  by (simp add: same_records_def records_wf_def idem_wf_def)

lemma records_wf_audit: "records_wf b \<Longrightarrow> records_wf (audit_agent env a act rt ri md b)"
  by (simp add: records_wf_cong [OF audit_agent_records(1,2)])

lemma records_wf_create_rotation:
  assumes wf: "records_wf b" and res: "create_rotation env cr a active key secret b = (r, b')"
  shows "records_wf b'"
proof (cases r)
  case (Inl e)
  obtain x b1 where opened: "idem_begin env cr (rotate_scope a key) (rotate_fingerprint env) True b = (x, b1)"
    by (cases "idem_begin env cr (rotate_scope a key) (rotate_fingerprint env) True b")
  have "b' = b \<or> (x = Inl Secret_Replay_Expired_Error \<and> b' = expire_pending env a b1)"
  proof (cases x)
    case (Inl e')
    with res opened show ?thesis by (cases e') (auto simp: create_rotation_def)
  next
    case (Inr start)
    with res opened \<open>r = Inl e\<close> show ?thesis
      by (cases start) (auto simp: create_rotation_def Let_def split: api_response.splits option.splits if_splits sum.splits prod.splits)
  qed
  then show ?thesis
    using wf records_wf_begin [OF wf opened] records_wf_same [OF expire_pending_records] by auto
next
  case (Inr body)
  from create_rotation_new [OF res [unfolded Inr]] show ?thesis
  proof (elim disjE exE conjE)
    fix st b1 rid e i
    assume opened: "idem_begin env cr (rotate_scope a key) (rotate_fingerprint env) True b = (Inr (Recorded body st), b1)"
      and "body = Rotation_Created rid e i"
    with res have "\<exists>act rt ri md. b' = audit_agent env a act rt ri md b1" by (auto simp: create_rotation_def)
    with records_wf_begin [OF wf opened] show ?thesis using records_wf_audit by auto
  qed (use records_wf_completed(1) [OF _ wf] records_wf_audit in blast)
qed

lemma records_wf_activate_rotation:
  assumes wf: "records_wf b" and res: "activate_rotation env cr a c rid key b = (r, b')"
  shows "records_wf b'"
proof (cases r)
  case (Inl e)
  obtain x b1 where opened: "idem_begin env cr (activate_scope a rid key) (activate_fingerprint env rid) False b = (x, b1)"
    by (cases "idem_begin env cr (activate_scope a rid key) (activate_fingerprint env rid) False b")
  have "b' = b"
  proof (cases x)
    case (Inr start)
    with res opened Inl show ?thesis
      by (cases start) (auto simp: activate_rotation_def split: api_response.splits option.splits if_splits sum.splits prod.splits)
  qed (use res opened in \<open>auto simp: activate_rotation_def\<close>)
  with wf show ?thesis by simp
next
  case (Inr body)
  from res [unfolded Inr] show ?thesis
  proof (cases rule: activate_rotation_success)
    case (Replay st b1)
    with records_wf_begin [OF wf Replay(1)] records_wf_same show ?thesis by blast
  next
    case (New rec b1 b2 rt ri act md)
    then show ?thesis using records_wf_completed(2) [OF New(1) wf New(3)] records_wf_audit by blast
  qed
qed

lemma register_error_keeps: "register env cr q secret b = (Inl e, b') \<Longrightarrow> b' = b"
  unfolding register_def
  by (simp split: if_splits option.splits prod.splits sum.splits idem_start.splits api_response.splits)

lemma records_wf_register:
  assumes wf: "records_wf b" and res: "register env cr q secret b = (r, b')"
  shows "records_wf b'"
proof (cases r)
  case (Inl e)
  with register_error_keeps res wf show ?thesis by metis
next
  case (Inr body)
  from res [unfolded Inr] show ?thesis
  proof (cases rule: register_success)
    case (Replay t st b1 d a at i)
    with records_wf_begin [OF wf Replay(2)] records_wf_same show ?thesis by blast
  next
    case (New t rec b1)
    show ?thesis
    proof (rule register_new_records [OF New(3)])
      fix b2 a act md
      assume "same_records b1 b2"
        and b': "b' = audit_agent env a act ''agent'' a md (complete_secret env cr rec body 201 (consume_token env (et_id t) b2))"
      then have "same_records b1 (consume_token env (et_id t) b2)" using same_records_trans consume_token_records by blast
      then show ?thesis unfolding b' by (intro records_wf_audit records_wf_completed(1) [OF New(2) wf])
    qed
  qed
qed

lemma records_wf_step:
  assumes "be_step cr allowed (b, g) (b', g')" and wf: "records_wf b"
  shows "records_wf b'"
  using assms
proof (rule be_step_invariant)
  show "records_wf (write_audit n at ai ag ac rt ri oc md b)" for n at ai ag ac rt ri oc md
    using wf by (simp add: records_wf_def idem_wf_def)
  show "publish_manifest env a doc b = (r, b2) \<Longrightarrow> records_wf b2" for env a doc r b2
    by (rule records_wf_same [OF _ wf])
      (auto simp: same_records_def publish_manifest_def Let_def audit_incompatibility_def add_manifest_def
        split: if_splits option.splits json.splits)
  show "presence env a kind q ttl poll b = (r, b2) \<Longrightarrow> records_wf b2" for env a kind q ttl poll r b2
    by (rule records_wf_same [OF _ wf])
      (auto simp: same_records_def presence_def Let_def touch_agent_def put_presence_def split: if_splits option.splits)
  show "create_token env cr tq u secret b = (r, b2) \<Longrightarrow> records_wf b2" for env tq u secret r b2
    by (rule records_wf_same [OF _ wf]) (auto simp: same_records_def create_token_def Let_def audit_user_def split: if_splits)
  show "revoke_token env t u b = (r, b2) \<Longrightarrow> records_wf b2" for env t u r b2
    by (rule records_wf_same [OF _ wf]) (auto simp: same_records_def revoke_token_def audit_user_def split: option.splits)
  show "revoke_credential env a c u b = (r, b2) \<Longrightarrow> records_wf b2" for env a c u r b2
    by (rule records_wf_same [OF _ wf]) (auto simp: same_records_def revoke_credential_def audit_user_def split: option.splits if_splits)
  show "revoke_agent env a u b = (r, b2) \<Longrightarrow> records_wf b2" for env a u r b2
    by (rule records_wf_same [OF _ wf]) (auto simp: same_records_def revoke_agent_def audit_user_def split: option.splits)
qed (erule records_wf_create_rotation [OF wf] records_wf_activate_rotation [OF wf] records_wf_register [OF wf])+

lemma records_wf_steps: "be_steps cr allowed w w' \<Longrightarrow> records_wf (fst w) \<Longrightarrow> records_wf (fst w')"
  by (induction rule: be_steps.induct) (use records_wf_step in \<open>metis prod.collapse\<close>)+

lemma reachable_records: "be_reachable cr (b, g) \<Longrightarrow> records_wf b"
  unfolding be_reachable_def by (drule records_wf_steps) (simp_all add: records_wf_def idem_wf_def empty_backend_def)

end
