(* ===== verification/Backend_Demo.thy ===== *)
theory Backend_Demo
  imports Backend_Repeat Json_Loads
begin

text \<open>
  A concrete run of the credential services: an administrator creates a token, an agent registers with
  it and asks for a rotation.  The cipher of the run writes the response as JSON.
\<close>

fun response_json :: "api_response \<Rightarrow> json" where
  "response_json (Rotation_Created rid e i) =
     JArr [JInt 0, JStr rid, JInt e, JStr (ic_id i), JInt (ic_version i), JStr (ic_value i), JInt (ic_issued_at i), JInt (ic_expires_at i)]"
| "response_json (Rotation_Activated rid c v t) = JArr [JInt 1, JStr rid, JStr c, JInt v, JInt t]"
| "response_json (Registered d a t i) =
     JArr [JInt 2, JStr d, JStr a, JInt t, JStr (ic_id i), JInt (ic_version i), JStr (ic_value i), JInt (ic_issued_at i), JInt (ic_expires_at i)]"

fun json_strings :: "json list \<Rightarrow> string list" where
  "json_strings [] = []"
| "json_strings (v # vs) = (case v of JStr s \<Rightarrow> s # json_strings vs | _ \<Rightarrow> json_strings vs)"

fun json_ints :: "json list \<Rightarrow> int list" where
  "json_ints [] = []"
| "json_ints (v # vs) = (case v of JInt i \<Rightarrow> i # json_ints vs | _ \<Rightarrow> json_ints vs)"

definition json_response :: "json \<Rightarrow> api_response option" where
  "json_response j =
     (case j of
        JArr vs \<Rightarrow>
          (let s = json_strings vs; n = json_ints vs
           in if n ! 0 = 0
              then Some (Rotation_Created (s ! 0) (n ! 1)
                \<lparr>ic_id = s ! 1, ic_version = n ! 2, ic_value = s ! 2, ic_issued_at = n ! 3, ic_expires_at = n ! 4\<rparr>)
              else if n ! 0 = 1 then Some (Rotation_Activated (s ! 0) (s ! 1) (n ! 1) (n ! 2))
              else Some (Registered (s ! 0) (s ! 1) (n ! 1)
                \<lparr>ic_id = s ! 2, ic_version = n ! 2, ic_value = s ! 3, ic_issued_at = n ! 3, ic_expires_at = n ! 4\<rparr>))
      | _ \<Rightarrow> None)"

text \<open>The run is evaluated for any cipher.\<close>

definition run_crypto :: "(string \<Rightarrow> uuid \<Rightarrow> api_response \<Rightarrow> string) \<Rightarrow> (uuid \<Rightarrow> string \<Rightarrow> api_response option) \<Rightarrow> crypto" where
  "run_crypto enc dec = \<lparr>cr_encrypt = enc, cr_decrypt = dec, cr_credential_hmac = (\<lambda>s. s), cr_token_hmac = (\<lambda>s. s)\<rparr>"

definition demo_crypto :: crypto where
  "demo_crypto = run_crypto (\<lambda>n i x. canonical_json (response_json x))
     (\<lambda>i s. case loads id s of None \<Rightarrow> None | Some j \<Rightarrow> json_response j)"

lemma demo_cipher_ok: "cipher_ok demo_crypto"
  unfolding cipher_ok_def
proof (intro allI)
  fix n i x
  have "json_plain (response_json x)" "normal_json (response_json x) = response_json x" "json_response (response_json x) = Some x"
    by (cases x; simp add: json_response_def)+
  then show "cr_decrypt demo_crypto i (cr_encrypt demo_crypto n i x) = Some x"
    by (simp add: demo_crypto_def run_crypto_def loads_canonical_json_plain)
qed

definition demo_fresh :: "instant \<Rightarrow> string \<Rightarrow> uuid" where
  "demo_fresh now kind =
     ''00000000-0000-4000-8000-00000000000'' @
       (if kind = ''token'' then ''1'' else if kind = ''agent'' then ''2'' else if kind = ''device'' then ''3''
        else if kind = ''credential'' then (if now < seconds 2000 then ''4'' else ''5'') else if kind = ''rotation'' then ''6''
        else if now < seconds 2000 then ''7'' else ''8'')"

definition demo_env_at :: "instant \<Rightarrow> be_env" where
  "demo_env_at now = at_time demo_be_env demo_fresh now"

definition demo_token_request :: token_request where
  "demo_token_request = \<lparr>tq_scope = ''agent.enroll'', tq_expires_in_minutes = 60, tq_allowed_platforms = [], tq_bound_agent = None\<rparr>"

definition demo_registration :: registration where
  "demo_registration = \<lparr>rq_raw = JObj [(''installation_id'', JStr ''i1'')],
     rq_token = new_secret ''wto_enr_1'' (demo_fresh 0 ''token'') demo_secret, rq_key = ''k1'', rq_installation = ''i1'',
     rq_display_name = ''agent one'', rq_platform = ''linux'', rq_reported_at = seconds 1000\<rparr>"

definition demo_with_token :: "crypto \<Rightarrow> backend" where
  "demo_with_token cr = snd (create_token (demo_env_at (seconds 900)) cr demo_token_request ''admin'' demo_secret empty_backend)"

definition demo_registered :: "crypto \<Rightarrow> backend" where
  "demo_registered cr = snd (register (demo_env_at (seconds 1000)) cr demo_registration demo_secret (demo_with_token cr))"

definition demo_rotation :: rotation_call_args where
  "demo_rotation = \<lparr>rc_agent = demo_fresh 0 ''agent'', rc_active = demo_fresh 0 ''credential'', rc_key = ''k2'', rc_secret = (\<lambda>_. demo_secret)\<rparr>"

lemma demo_with_token_reachable: "be_reachable cr (demo_with_token cr, empty_guard)"
  unfolding be_reachable_def demo_with_token_def
  by (intro be_steps.Step [OF be_steps.Stay] be_step.Create_Token) (rule surjective_pairing)

lemma demo_registered_reachable: "be_reachable cr (demo_registered cr, empty_guard)"
  unfolding be_reachable_def demo_registered_def
  by (intro be_steps.Step [OF demo_with_token_reachable [unfolded be_reachable_def]] be_step.Register)
    (rule TrueI surjective_pairing)+

lemma demo_register_succeeds:
  "case register (demo_env_at (seconds 1000)) (run_crypto enc dec) demo_registration demo_secret (demo_with_token (run_crypto enc dec)) of
     (Inr _, _) \<Rightarrow> True | _ \<Rightarrow> False"
  by code_simp

lemma demo_register_ok:
  "\<exists>r b'. register (demo_env_at (seconds 1000)) demo_crypto demo_registration demo_secret (demo_with_token demo_crypto) = (Inr r, b')"
  using demo_register_succeeds [folded demo_crypto_def, of "\<lambda>n i x. canonical_json (response_json x)"
      "\<lambda>i s. case loads id s of None \<Rightarrow> None | Some j \<Rightarrow> json_response j"]
  unfolding demo_crypto_def [symmetric] by (auto split: prod.splits sum.splits)

lemma demo_registration_new:
  "b_idempotency (demo_with_token (run_crypto enc dec)) = []"
  by code_simp

definition rotation_ready :: "crypto \<Rightarrow> backend \<Rightarrow> bool" where
  "rotation_ready cr b \<longleftrightarrow> b_credentials b \<noteq> [] \<and>
     (case rotation_call demo_be_env demo_fresh cr (seconds 2100) demo_rotation b of (Inr _, _) \<Rightarrow> True | _ \<Rightarrow> False)
     \<and> find_record b (rotate_scope (rc_agent demo_rotation) (rc_key demo_rotation)) = None
     \<and> be_fresh (demo_env_at (seconds 2100)) ''credential'' \<notin> ac_id ` set (b_credentials b)
     \<and> be_fresh (demo_env_at (seconds 2100)) ''rotation'' \<notin> ro_id ` set (b_rotations b)
     \<and> be_fresh (demo_env_at (seconds 2100)) ''idempotency'' \<notin> id_id ` set (b_idempotency b)"

lemma demo_ready: "rotation_ready (run_crypto enc dec) (demo_registered (run_crypto enc dec))"
  by code_simp

end
