(* ===== verification/Backend_Properties.thy ===== *)
theory Backend_Properties
  imports Backend_Demo
begin

text \<open>
  What the credential services guarantee in every reachable state of the backend.
\<close>

section \<open>Live credentials\<close>

lemma credentials_ok_live:
  assumes "credentials_ok rows" "c \<in> set rows" "c' \<in> set rows" "ac_agent c = ac_agent c'" "ac_state c = ac_state c'"
    "ac_state c \<in> {Cred_Active, Cred_Pending}"
  shows "c = c'"
proof -
  have "distinct (map ac_agent (with_state (ac_state c) rows))" using assms(1,6) by (auto simp: credentials_ok_def)
  moreover have "c \<in> set (with_state (ac_state c) rows)" "c' \<in> set (with_state (ac_state c) rows)"
    using assms(2,3,5) by (simp_all add: with_state_def)
  ultimately show ?thesis using assms(4) by (rule distinct_key_inj)
qed

lemma credentials_ok_version:
  assumes "credentials_ok rows" "c \<in> set rows" "c' \<in> set rows" "ac_agent c = ac_agent c'" "ac_version c = ac_version c'"
  shows "c = c'"
  using assms distinct_key_inj [of "\<lambda>c. (ac_agent c, ac_version c)" rows c c'] by (simp add: credentials_ok_def)

text \<open>C21: in every state that requests and administrators can reach, an agent has at most one active and at
  most one pending credential, no two credentials of an agent have the same version, and a pending
  credential belongs to a pending rotation of the same agent.\<close>

theorem one_live_credential_per_agent:
  assumes "be_reachable cr (b, g)"
  shows "(\<forall>c \<in> set (b_credentials b). \<forall>c' \<in> set (b_credentials b). ac_agent c = ac_agent c' \<longrightarrow>
       (ac_state c = ac_state c' \<and> ac_state c \<in> {Cred_Active, Cred_Pending} \<or> ac_version c = ac_version c') \<longrightarrow> c = c')
    \<and> (\<forall>c \<in> set (b_credentials b). ac_state c = Cred_Pending \<longrightarrow>
         (\<exists>r \<in> set (b_rotations b). ro_state r = Ro_Pending \<and> ro_pending r = ac_id c \<and> ro_agent r = ac_agent c))"
proof -
  have inv: "cred_inv b" by (rule reachable_inv [OF assms])
  then have ok: "credentials_ok (b_credentials b)" by (simp add: cred_inv_def)
  show ?thesis
  proof (intro conjI ballI impI)
    fix c c'
    assume "c \<in> set (b_credentials b)" "c' \<in> set (b_credentials b)" "ac_agent c = ac_agent c'"
      and "ac_state c = ac_state c' \<and> ac_state c \<in> {Cred_Active, Cred_Pending} \<or> ac_version c = ac_version c'"
    then show "c = c'" using credentials_ok_live [OF ok] credentials_ok_version [OF ok] by blast
  qed (use inv in \<open>auto simp: cred_defs\<close>)
qed

theorem one_live_credential_per_agent_witness:
  "\<exists>b. be_reachable demo_crypto (b, empty_guard) \<and> b_credentials b \<noteq> [] \<and>
    (\<forall>c \<in> set (b_credentials b). \<forall>c' \<in> set (b_credentials b). ac_agent c = ac_agent c' \<longrightarrow>
       (ac_state c = ac_state c' \<and> ac_state c \<in> {Cred_Active, Cred_Pending} \<or> ac_version c = ac_version c') \<longrightarrow> c = c')"
proof (intro exI conjI)
  show "be_reachable demo_crypto (demo_registered demo_crypto, empty_guard)" by (rule demo_registered_reachable)
  show "b_credentials (demo_registered demo_crypto) \<noteq> []"
    using demo_ready by (auto simp: rotation_ready_def demo_crypto_def)
qed (use one_live_credential_per_agent [OF demo_registered_reachable [of demo_crypto]] in blast)

section \<open>The indexes are never violated\<close>

lemma foldr_max_ge: "(v :: int) \<in> set vs \<Longrightarrow> v \<le> foldr max vs 0"
  by (induction vs) auto

lemma next_version_gt: "c \<in> set (b_credentials b) \<Longrightarrow> ac_agent c = a \<Longrightarrow> ac_version c < next_version a b"
  using foldr_max_ge [of "ac_version c" "map ac_version (filter (\<lambda>c. ac_agent c = a) (b_credentials b))"]
  by (auto simp: next_version_def)

lemma no_pending_credential:
  assumes "cred_inv b" and "repo_pending_rotation b a = None" and "c \<in> set (b_credentials b)" and "ac_agent c = a"
  shows "ac_state c \<noteq> Cred_Pending"
  using assms by (auto simp: cred_defs repo_pending_rotation_def find_None_iff)

lemma issue_rotation_succeeds:
  assumes inv: "cred_inv b" and none: "repo_pending_rotation b a = None"
    and fresh: "be_fresh env ''credential'' \<notin> ac_id ` set (b_credentials b)" "be_fresh env ''rotation'' \<notin> ro_id ` set (b_rotations b)"
  shows "\<exists>body b'. issue_rotation env cr a active secret b = (Inr body, b')"
proof -
  let ?c = "new_pending_credential env cr a secret b" and ?r = "new_rotation env a active"
  have c: "ac_id ?c = be_fresh env ''credential''" "ac_agent ?c = a" "ac_state ?c = Cred_Pending" "ac_version ?c = next_version a b"
    and r: "ro_id ?r = be_fresh env ''rotation''" "ro_pending ?r = be_fresh env ''credential''" "ro_agent ?r = a" "ro_state ?r = Ro_Pending"
    by (simp_all add: new_pending_credential_def new_rotation_def)
  have "(a, next_version a b) \<notin> (\<lambda>c. (ac_agent c, ac_version c)) ` set (b_credentials b)"
    using next_version_gt [of _ b a] by fastforce
  moreover have "a \<notin> ac_agent ` set (with_state Cred_Pending (b_credentials b))"
    using no_pending_credential [OF inv none] by (auto simp: with_state_def)
  ultimately have creds: "credentials_ok (b_credentials b @ [?c])"
    using inv fresh(1) c by (auto simp: cred_inv_def credentials_ok_def with_state_def)
  have "ro_pending ` set (b_rotations b) \<subseteq> ac_id ` set (b_credentials b)"
  proof
    fix i
    assume "i \<in> ro_pending ` set (b_rotations b)"
    then obtain x where "x \<in> set (b_rotations b)" "i = ro_pending x" by blast
    then obtain c where "c \<in> set (b_credentials b)" "ac_id c = i" using inv unfolding cred_defs by blast
    then show "i \<in> ac_id ` set (b_credentials b)" by blast
  qed
  moreover have "a \<notin> ro_agent ` set (filter (\<lambda>r. ro_state r = Ro_Pending) (b_rotations b))"
    using none by (auto simp: repo_pending_rotation_def find_None_iff)
  ultimately have rots: "rotations_ok (b_rotations b @ [?r])"
    using inv fresh r by (auto simp: cred_inv_def rotations_ok_def)
  show ?thesis using creds rots by (simp add: issue_rotation_def Let_def flush_credentials_def flush_rotations_def)
qed

lemma expire_pending_ids:
  "ac_id ` set (b_credentials (expire_pending env a b)) = ac_id ` set (b_credentials b)"
  "ro_id ` set (b_rotations (expire_pending env a b)) = ro_id ` set (b_rotations b)"
  by (simp_all add: expire_pending_def upd_rotation_def split: option.split)

text \<open>The rotation service keeps the unique indexes by itself: in every reachable state, with fresh
  identifiers, a request for a rotation is answered with the new credential or refused with a reason,
  and never ends in a violated index.\<close>

theorem rotation_respects_indexes:
  assumes "be_reachable cr (b, g)"
    and "be_fresh env ''credential'' \<notin> ac_id ` set (b_credentials b)" and "be_fresh env ''rotation'' \<notin> ro_id ` set (b_rotations b)"
    and "be_fresh env ''idempotency'' \<notin> id_id ` set (b_idempotency b)"
  shows "fst (create_rotation env cr a active key secret b) \<noteq> Inl Db_Integrity_Error"
proof (cases "idem_begin env cr (rotate_scope a key) (rotate_fingerprint env) True b")
  case (Pair x b1)
  have inv: "cred_inv b" by (rule reachable_inv [OF assms(1)])
  show ?thesis
  proof (cases x)
    case (Inl e)
    have "e \<noteq> Db_Integrity_Error"
      using Pair Inl assms(4) by (auto simp: idem_begin_def Let_def split: option.splits if_splits)
    with Pair Inl show ?thesis by (cases e) (simp_all add: create_rotation_def)
  next
    case (Inr start)
    show ?thesis
    proof (cases start)
      case (Recorded body st)
      with Pair Inr show ?thesis by (cases body) (simp_all add: create_rotation_def)
    next
      case (New_Record rec)
      let ?b2 = "expire_pending env a b1"
      have tabs: "b_credentials b1 = b_credentials b" "b_rotations b1 = b_rotations b" using begin_tables [OF Pair] by blast+
      have "cred_inv ?b2" by (rule cred_inv_expire_pending [OF cred_inv_begin [OF inv Pair]])
      then have "\<exists>body b'. issue_rotation env cr a active secret ?b2 = (Inr body, b')" if "repo_pending_rotation ?b2 a = None"
        using issue_rotation_succeeds [of ?b2 a env cr active secret] that assms(2,3) by (simp add: expire_pending_ids tabs)
      then have "repo_pending_rotation ?b2 a = None \<Longrightarrow> fst (issue_rotation env cr a active secret ?b2) \<noteq> Inl Db_Integrity_Error"
        by (metis fst_conv sum.distinct(1))
      with Pair Inr New_Record show ?thesis
        by (auto simp: create_rotation_def Let_def split: option.split prod.split sum.split)
    qed
  qed
qed

theorem rotation_respects_indexes_witness:
  "fst (create_rotation (demo_env_at (seconds 2100)) demo_crypto (rc_agent demo_rotation) (rc_active demo_rotation) ''k2'' demo_secret
     (demo_registered demo_crypto)) \<noteq> Inl Db_Integrity_Error"
  using demo_ready
  by (intro rotation_respects_indexes [OF demo_registered_reachable]) (auto simp: rotation_ready_def demo_crypto_def)

section \<open>Repeated requests\<close>

text \<open>C19: an agent that asks for a rotation and loses the answer can ask again with the same key for fifteen
  minutes, as often as it likes: in every reachable state the repeated requests give the first answer,
  with the same new credential, and change nothing but the audit log.\<close>

theorem rotation_is_repeatable:
  assumes "be_reachable cr (b, g)" and "cipher_ok cr"
    and "find_record b (rotate_scope (rc_agent q) (rc_key q)) = None"
    and "rotation_call env fresh cr now q b = (Inr r, b')"
    and "\<forall>t \<in> set nows. t < now + minutes 15"
  shows "\<exists>b''. repeat_calls (rotation_call env fresh cr) nows q b' = (replicate (length nows) (Inr r), b'')
    \<and> without_audit b'' = without_audit b'"
proof (rule rotation.first_then_replays [OF reachable_records [OF assms(1)] assms(2) _ assms(4)])
  show "\<forall>r0 until. \<not> rotation_recorded env cr q r0 until b" using assms(3) by (simp add: rotation_recorded_def recorded_secret_def)
  show "\<forall>t \<in> set nows. t < now + secret_window \<and> cipher_ok cr" using assms(2,5) by (simp add: secret_window_def)
qed

theorem rotation_is_repeatable_witness:
  "\<exists>r b' b''. rotation_call demo_be_env demo_fresh demo_crypto (seconds 2100) demo_rotation (demo_registered demo_crypto) = (Inr r, b')
    \<and> repeat_calls (rotation_call demo_be_env demo_fresh demo_crypto) [seconds 2200, seconds 2999] demo_rotation b' = ([Inr r, Inr r], b'')
    \<and> without_audit b'' = without_audit b'"
proof -
  have ready: "rotation_ready demo_crypto (demo_registered demo_crypto)" unfolding demo_crypto_def by (rule demo_ready)
  then obtain r b' where first:
    "rotation_call demo_be_env demo_fresh demo_crypto (seconds 2100) demo_rotation (demo_registered demo_crypto) = (Inr r, b')"
    by (auto simp: rotation_ready_def split: prod.splits sum.splits)
  have "\<forall>t \<in> set [seconds 2200, seconds 2999]. t < seconds 2100 + minutes 15" by (simp add: seconds_def minutes_def)
  from rotation_is_repeatable [OF demo_registered_reachable demo_cipher_ok _ first this] ready first
  show ?thesis by (auto simp: rotation_ready_def numeral_2_eq_2)
qed

text \<open>What a repeated registration is answered at a time: the clock is checked before the record.\<close>

definition registration_answer :: "be_env \<Rightarrow> registration \<Rightarrow> api_response \<Rightarrow> instant \<Rightarrow> be_error + api_response" where
  "registration_answer env q r t =
     (if seconds (be_clock_skew_seconds env) < \<bar>t - rq_reported_at q\<bar> then Inl Request_Clock_Skew_Error else Inr r)"

lemma skewed_registration:
  assumes "be_contract_ok env ''agent-registration-request.schema.json'' (rq_raw q)"
    and "clock_skewed (env\<lparr>be_now := t\<rparr>) (rq_reported_at q)"
  shows "register_call env fresh cr secrets t q b = (Inl Request_Clock_Skew_Error, b)"
  using assms by (simp add: register_call_def register_def)

lemma repeated_registrations:
  assumes "records_wf b" and "registration_recorded env cr q r until b" and "cipher_ok cr"
    and "be_contract_ok env ''agent-registration-request.schema.json'' (rq_raw q)" and "\<forall>t \<in> set nows. t < until"
  shows "\<exists>b'. repeat_calls (register_call env fresh cr secrets) nows q b = (map (registration_answer env q r) nows, b')
    \<and> without_audit b' = without_audit b"
  using assms
proof (induction nows arbitrary: b)
  case Nil
  then show ?case by simp
next
  case (Cons t nows)
  have "\<exists>b1. register_call env fresh cr secrets t q b = (registration_answer env q r t, b1) \<and> without_audit b1 = without_audit b
      \<and> records_wf b1 \<and> registration_recorded env cr q r until b1"
  proof (cases "clock_skewed (env\<lparr>be_now := t\<rparr>) (rq_reported_at q)")
    case True
    then show ?thesis
      using skewed_registration [OF Cons.prems(4) True] Cons.prems(1,2)
      by (simp add: registration_answer_def clock_skewed_def)
  next
    case False
    then have "registration_valid env cr t q" using Cons.prems(3,4) by (simp add: registration_valid_def)
    from registration.replays [OF Cons.prems(1) this Cons.prems(2)] Cons.prems(5) False show ?thesis
      by (simp add: registration_answer_def clock_skewed_def)
  qed
  then obtain b1 where b1: "register_call env fresh cr secrets t q b = (registration_answer env q r t, b1)"
    "without_audit b1 = without_audit b" "records_wf b1" "registration_recorded env cr q r until b1" by blast
  from Cons.IH [OF b1(3,4) Cons.prems(3,4)] Cons.prems(5) b1(1,2) show ?case by auto
qed

text \<open>C20: the same holds for a registration, as far as its own clock check allows.  Once a registration has
  succeeded, every repetition of the same request in the next fifteen minutes is answered as follows: while
  the time of the request is within the allowed clock skew, with the first answer (the same agent and
  credential, although the token is used up by the first one); later, and the skew is five minutes at
  most, with the refusal of a skewed clock.  No repetition changes anything but the audit log.\<close>

theorem registration_is_repeatable:
  assumes "be_reachable cr (b, g)" and "\<forall>t. presented_token cr q b = Some t \<longrightarrow> find_record b (register_scope (et_id t) q) = None"
    and "register_call env fresh cr secrets now q b = (Inr r, b')" and "cipher_ok cr"
    and "\<forall>t \<in> set nows. t < now + minutes 15"
  shows "\<exists>b''. repeat_calls (register_call env fresh cr secrets) nows q b'
      = (map (\<lambda>t. if seconds (be_clock_skew_seconds env) < \<bar>t - rq_reported_at q\<bar>
                  then Inl Request_Clock_Skew_Error else Inr r) nows, b'')
    \<and> without_audit b'' = without_audit b'"
proof -
  have ok: "be_contract_ok env ''agent-registration-request.schema.json'' (rq_raw q)"
    and valid: "registration_valid env cr now q"
    using register_InrD [OF assms(3) [unfolded register_call_def]] assms(4)
    by (auto simp: registration_valid_def at_time_def clock_skewed_def)
  have "\<forall>r0 until. \<not> registration_recorded env cr q r0 until b"
    using assms(2) by (auto simp: registration_recorded_def recorded_secret_def)
  from registration.first [OF reachable_records [OF assms(1)] valid this assms(3)]
  have "records_wf b'" "registration_recorded env cr q r (now + secret_window) b'" by blast+
  from repeated_registrations [OF this assms(4) ok] assms(5)
  show ?thesis by (simp add: registration_answer_def [abs_def] secret_window_def)
qed

text \<open>The demonstration server allows a skew of 300 seconds; the request was made at second 1000.\<close>

theorem registration_is_repeatable_witness:
  "\<exists>r b' b''. register_call demo_be_env demo_fresh demo_crypto (\<lambda>_. demo_secret) (seconds 1000) demo_registration (demo_with_token demo_crypto) = (Inr r, b')
    \<and> repeat_calls (register_call demo_be_env demo_fresh demo_crypto (\<lambda>_. demo_secret)) [seconds 1100, seconds 1500] demo_registration b'
        = ([Inr r, Inl Request_Clock_Skew_Error], b'')
    \<and> without_audit b'' = without_audit b'"
proof -
  obtain r b' where first: "register_call demo_be_env demo_fresh demo_crypto (\<lambda>_. demo_secret) (seconds 1000) demo_registration
      (demo_with_token demo_crypto) = (Inr r, b')"
    using demo_register_ok by (auto simp: register_call_def demo_env_at_def)
  have none: "\<forall>t. presented_token demo_crypto demo_registration (demo_with_token demo_crypto) = Some t \<longrightarrow>
      find_record (demo_with_token demo_crypto) (register_scope (et_id t) demo_registration) = None"
    using demo_registration_new by (simp add: demo_crypto_def find_record_eq)
  have "\<forall>t \<in> set [seconds 1100, seconds 1500]. t < seconds 1000 + minutes 15" by (simp add: seconds_def minutes_def)
  from registration_is_repeatable [OF demo_with_token_reachable none first demo_cipher_ok this] first
  show ?thesis by (auto simp: demo_be_env_def demo_registration_def seconds_def)
qed

section \<open>A revoked agent is locked out\<close>

definition locked_out :: "uuid \<Rightarrow> backend \<Rightarrow> bool" where
  "locked_out a b \<longleftrightarrow> (\<exists>row. repo_agent b a = Some row \<and> \<not> ag_is_active row)"

text \<open>The registrations that recover an agent: those with a recovery token bound to it.\<close>

definition recovers :: "uuid \<Rightarrow> registration \<Rightarrow> backend \<Rightarrow> bool" where
  "recovers a q b \<longleftrightarrow>
     (case parse_machine_secret (rq_token q) ''wto_enr_1'' of
        None \<Rightarrow> False
      | Some (l, s) \<Rightarrow>
          (case repo_enrollment_token b l of
             None \<Rightarrow> False | Some t \<Rightarrow> et_scope t = ''agent.recover'' \<and> et_bound_agent t = Some a))"

lemma locked_out_cong: "b_agents b' = b_agents b \<Longrightarrow> locked_out a b' = locked_out a b"
  by (simp add: locked_out_def repo_agent_def)

lemma locked_out_update:
  assumes "locked_out a b" and "b_agents b' = upd_where P f (b_agents b)" and "\<And>x. ag_id (f x) = ag_id x"
    and "\<And>x. ag_id x = a \<Longrightarrow> P x \<Longrightarrow> ag_is_active (f x) \<longrightarrow> ag_is_active x"
  shows "locked_out a b'"
proof -
  obtain row where row: "find (\<lambda>r. ag_id r = a) (b_agents b) = Some row" "\<not> ag_is_active row"
    using assms(1) by (auto simp: locked_out_def repo_agent_def)
  then have "ag_id row = a" using find_SomeD [OF row(1)] by simp
  with row assms(4) [of row] show ?thesis
    by (auto simp: locked_out_def repo_agent_def assms(2) find_key_upd_where [of ag_id f, OF assms(3)])
qed

lemma locked_out_append:
  "locked_out a b \<Longrightarrow> b_agents b' = b_agents b @ rows \<Longrightarrow> locked_out a b'"
  by (auto simp: locked_out_def repo_agent_def find_append)

lemma locked_out_registered_agent:
  assumes lock: "locked_out a b" and res: "registered_agent env q t b = (Inr (d, x), b')"
    and other: "\<not> (et_scope t = ''agent.recover'' \<and> et_bound_agent t = Some a)"
  shows "locked_out a b'"
proof (cases "et_scope t = ''agent.recover''")
  case True
  with res obtain aid where aid: "et_bound_agent t = Some aid"
    and upd: "b_agents b' = upd_where (\<lambda>a. ag_id a = aid)
                                (\<lambda>a. a\<lparr>ag_is_active := True, ag_disabled_at := None, ag_revoked_at := None,
                                        ag_revoked_by := None, ag_revocation_reason := None,
                                        ag_installation := Some (rq_installation q), ag_display_name := rq_display_name q\<rparr>)
                                (b_agents b)"
    by (auto simp: registered_agent_def flush_agents_def split: option.splits if_splits)
  with other True have "aid \<noteq> a" by simp
  then show ?thesis by (intro locked_out_update [OF lock upd]) auto
next
  case False
  with res obtain rows where "b_agents b' = b_agents b @ rows"
    by (auto simp: registered_agent_def Let_def flush_agents_def split: if_splits)
  then show ?thesis by (rule locked_out_append [OF lock])
qed

lemma register_agents:
  assumes "register env cr q secret b = (r, b')"
  shows "b_agents b' = b_agents b \<or>
    (\<exists>l s t d x b1 b2. parse_machine_secret (rq_token q) ''wto_enr_1'' = Some (l, s) \<and> repo_enrollment_token b l = Some t
       \<and> b_agents b1 = b_agents b \<and> registered_agent env q t b1 = (Inr (d, x), b2) \<and> b_agents b' = b_agents b2)"
proof (cases r)
  case (Inl e)
  with assms register_error_keeps show ?thesis by blast
next
  case (Inr body)
  from assms [unfolded Inr] show ?thesis
  proof (cases rule: register_success)
    case (Replay t st b1 d a at i)
    then show ?thesis by blast
  next
    case (New t rec b1)
    have tab: "b_agents b1 = b_agents b" using begin_tables [OF New(2)] by blast
    obtain l s where parsed: "parse_machine_secret (rq_token q) ''wto_enr_1'' = Some (l, s)" "repo_enrollment_token b l = Some t"
      using New(1) by (auto simp: presented_token_def split: option.splits if_splits)
    obtain d a b2 issued b3 where ra: "registered_agent env q t b1 = (Inr (d, a), b2)"
      and ic: "issue_credential env cr a secret b2 = (Inr issued, b3)"
      and fin: "\<exists>act md. b' = audit_agent env a act ''agent'' a md (complete_secret env cr rec body 201 (consume_token env (et_id t) b3))"
      by (rule register_new_result [OF New(3)])
    have "b_agents b3 = b_agents b2"
      using ic by (auto simp: issue_credential_def Let_def flush_credentials_def split: if_splits)
    with fin have "b_agents b' = b_agents b2" by (auto simp: audit_agent_def)
    with parsed tab ra show ?thesis by blast
  qed
qed

lemma create_rotation_agents:
  "create_rotation env cr a c key secret b = (r, b') \<Longrightarrow> b_agents b' = b_agents b"
proof (cases "idem_begin env cr (rotate_scope a key) (rotate_fingerprint env) True b")
  case (Pair x b1)
  assume res: "create_rotation env cr a c key secret b = (r, b')"
  have tab: "b_agents b1 = b_agents b" using begin_tables [OF Pair] by blast
  show ?thesis
  proof (cases x)
    case (Inl e)
    with res Pair tab show ?thesis by (cases e) (auto simp: create_rotation_def)
  next
    case (Inr start)
    then show ?thesis
      using res Pair tab
      by (cases start)
        (auto simp: create_rotation_def audit_agent_def Let_def issue_rotation_def flush_credentials_def flush_rotations_def
          split: api_response.splits option.splits if_splits)
  qed
qed

lemma activate_rotation_agents:
  "activate_rotation env cr a c rid key b = (r, b') \<Longrightarrow> b_agents b' = b_agents b"
proof (cases "idem_begin env cr (activate_scope a rid key) (activate_fingerprint env rid) False b")
  case (Pair x b1)
  assume res: "activate_rotation env cr a c rid key b = (r, b')"
  have tab: "b_agents b1 = b_agents b" using begin_tables [OF Pair] by blast
  have sw: "switch_credentials env rot b1 = (y, b2) \<Longrightarrow> b_agents b2 = b_agents b1" for rot y b2
    by (auto simp: switch_credentials_def Let_def flush_credentials_def split: option.splits if_splits)
  show ?thesis
  proof (cases x)
    case (Inl e)
    with res Pair show ?thesis by (auto simp: activate_rotation_def)
  next
    case (Inr start)
    then show ?thesis
      using res Pair tab
      by (cases start)
        (auto simp: activate_rotation_def audit_agent_def dest: sw split: api_response.splits option.splits if_splits sum.splits prod.splits)
  qed
qed

lemma locked_out_step:
  assumes "be_step cr (\<lambda>q b. \<not> recovers a q b) (b, g) (b', g')" and lock: "locked_out a b"
  shows "locked_out a b'"
  using assms(1)
proof (rule be_step_invariant)
  fix env q secret r b2
  assume "\<not> recovers a q b" and "register env cr q secret b = (r, b2)"
  from register_agents [OF this(2)] show "locked_out a b2"
  proof (elim disjE exE conjE)
    fix l s t d x b1 b3
    assume p: "parse_machine_secret (rq_token q) ''wto_enr_1'' = Some (l, s)" "repo_enrollment_token b l = Some t"
      and t: "b_agents b1 = b_agents b" "registered_agent env q t b1 = (Inr (d, x), b3)" "b_agents b2 = b_agents b3"
    have "\<not> (et_scope t = ''agent.recover'' \<and> et_bound_agent t = Some a)"
      using \<open>\<not> recovers a q b\<close> p by (simp add: recovers_def)
    moreover have "locked_out a b1" using lock locked_out_cong [OF t(1)] by simp
    ultimately have "locked_out a b3" using locked_out_registered_agent [OF _ t(2)] by blast
    then show ?thesis using locked_out_cong [OF t(3)] by simp
  qed (use lock locked_out_cong [of b2 b a] in simp)
next
  fix env a' kind q ttl poll r b2
  assume "presence env a' kind q ttl poll b = (r, b2)"
  then have "b2 = b \<or> b_agents b2 = upd_where (\<lambda>r. ag_id r = a') (\<lambda>r. r\<lparr>ag_last_seen := Some (be_now env)\<rparr>) (b_agents b)"
    by (auto simp: presence_def Let_def touch_agent_def split: if_splits option.splits)
  then show "locked_out a b2"
  proof (elim disjE)
    assume "b2 = b"
    with lock show ?thesis by simp
  qed (erule locked_out_update [OF lock]; simp)
next
  fix env a' u r b2
  assume "revoke_agent env a' u b = (r, b2)"
  then have "b2 = b \<or> b_agents b2 = upd_where (\<lambda>x. ag_id x = a')
                  (\<lambda>x. x\<lparr>ag_is_active := False, ag_disabled_at := Some (be_now env), ag_revoked_at := Some (be_now env),
                          ag_revoked_by := Some u, ag_revocation_reason := Some ''administrator_revocation''\<rparr>) (b_agents b)"
    by (auto simp: revoke_agent_def audit_user_def split: option.splits)
  then show "locked_out a b2"
  proof (elim disjE)
    assume "b2 = b"
    with lock show ?thesis by simp
  qed (erule locked_out_update [OF lock]; simp)
next
  fix env a' c x key secret r b2
  assume "create_rotation env cr a' c key secret b = (r, b2)"
  then show "locked_out a b2" using lock locked_out_cong [OF create_rotation_agents] by blast
next
  fix env a' c x rid key r b2
  assume "activate_rotation env cr a' c rid key b = (r, b2)"
  then show "locked_out a b2" using lock locked_out_cong [OF activate_rotation_agents] by blast
next
  fix env a' doc r b2
  assume "publish_manifest env a' doc b = (r, b2)"
  then have "b_agents b2 = b_agents b"
    by (auto simp: publish_manifest_def Let_def audit_incompatibility_def add_manifest_def split: if_splits option.splits json.splits)
  then show "locked_out a b2" using lock locked_out_cong [of b2 b a] by simp
next
  fix env tq u secret r b2
  assume "create_token env cr tq u secret b = (r, b2)"
  then have "b_agents b2 = b_agents b" by (auto simp: create_token_def Let_def audit_user_def split: if_splits)
  then show "locked_out a b2" using lock locked_out_cong [of b2 b a] by simp
next
  fix env t u r b2
  assume "revoke_token env t u b = (r, b2)"
  then have "b_agents b2 = b_agents b" by (auto simp: revoke_token_def audit_user_def split: option.splits)
  then show "locked_out a b2" using lock locked_out_cong [of b2 b a] by simp
next
  fix env a' c u r b2
  assume "revoke_credential env a' c u b = (r, b2)"
  then have "b_agents b2 = b_agents b" by (auto simp: revoke_credential_def audit_user_def split: option.splits if_splits)
  then show "locked_out a b2" using lock locked_out_cong [of b2 b a] by simp
next
  show "locked_out a (write_audit n at ai ag ac rt ri oc md b)" for n at ai ag ac rt ri oc md
    using lock by (simp add: locked_out_def repo_agent_def)
qed (rule lock)

lemma locked_out_steps:
  "be_steps cr (\<lambda>q b. \<not> recovers a q b) w w' \<Longrightarrow> locked_out a (fst w) \<Longrightarrow> locked_out a (fst w')"
proof (induction rule: be_steps.induct)
  case (Stay w)
  then show ?case .
next
  case (Step w w' w'')
  then show ?case using locked_out_step by (metis surjective_pairing)
qed

lemma revoke_agent_locks:
  assumes "revoke_agent env a u b = (Inr (), b1)"
  shows "locked_out a b1"
proof -
  define f where "f = (\<lambda>x :: agent_row. x\<lparr>ag_is_active := False, ag_disabled_at := Some (be_now env), ag_revoked_at := Some (be_now env),
                          ag_revoked_by := Some u, ag_revocation_reason := Some ''administrator_revocation''\<rparr>)"
  have id: "\<And>x. ag_id (f x) = ag_id x" and off: "\<And>x. \<not> ag_is_active (f x)" by (simp_all add: f_def)
  from assms obtain row where row: "repo_agent b a = Some row" and upd: "b_agents b1 = upd_where (\<lambda>x. ag_id x = a) f (b_agents b)"
    by (auto simp: revoke_agent_def audit_user_def f_def split: option.splits)
  then have "ag_id row = a" by (auto simp: repo_agent_def dest: find_SomeD)
  with row show ?thesis by (simp add: locked_out_def repo_agent_def upd find_key_upd_where [of ag_id f, OF id] off)
qed

text \<open>C22: after the revocation of an agent no request is authenticated as that agent, with none of its
  credentials and whatever requests, rotations, registrations and administrative operations follow,
  until somebody registers with a recovery token that is bound to it.\<close>

theorem revoked_agent_is_locked_out:
  assumes "revoke_agent env a u b = (Inr (), b1)" and "be_steps cr (\<lambda>q b. \<not> recovers a q b) (b1, g1) (b2, g2)"
    and "authenticate env' accepted h (b2, g2) = (Inr (agent, c), w)"
  shows "ag_id agent \<noteq> a"
proof
  assume "ag_id agent = a"
  have "locked_out a b1" by (rule revoke_agent_locks [OF assms(1)])
  with locked_out_steps [OF assms(2)] have lock: "locked_out a b2" by simp
  obtain b3 g3 where w: "w = (b3, g3)" by (cases w)
  have "repo_agent b2 (ac_agent c) = Some agent" "ag_is_active agent"
    by (rule authenticate_success [OF assms(3) [unfolded w]]; assumption)+
  moreover from this(1) have "ag_id agent = ac_agent c" unfolding repo_agent_def by (drule_tac find_SomeD) simp
  ultimately show False using lock \<open>ag_id agent = a\<close> by (auto simp: locked_out_def)
qed

definition demo_two_agents :: backend where
  "demo_two_agents = demo_enrolled\<lparr>b_agents := [demo_agent_row, demo_agent_row\<lparr>ag_id := ''a2''\<rparr>]\<rparr>"

theorem revoked_agent_is_locked_out_witness:
  "\<exists>b1 agent c w. revoke_agent demo_be_env ''a2'' ''admin'' demo_two_agents = (Inr (), b1)
    \<and> authenticate (demo_auth_env (seconds 1000)) Accept_Active demo_headers (b1, empty_guard) = (Inr (agent, c), w)
    \<and> ag_id agent \<noteq> ''a2''"
proof -
  have "case authenticate (demo_auth_env (seconds 1000)) Accept_Active demo_headers
      (snd (revoke_agent demo_be_env ''a2'' ''admin'' demo_two_agents), empty_guard) of (Inr _, _) \<Rightarrow> True | _ \<Rightarrow> False"
    by code_simp
  moreover have "fst (revoke_agent demo_be_env ''a2'' ''admin'' demo_two_agents) = Inr ()" by code_simp
  ultimately obtain b1 agent c w where rev: "revoke_agent demo_be_env ''a2'' ''admin'' demo_two_agents = (Inr (), b1)"
    and auth: "authenticate (demo_auth_env (seconds 1000)) Accept_Active demo_headers (b1, empty_guard) = (Inr (agent, c), w)"
    by (cases "revoke_agent demo_be_env ''a2'' ''admin'' demo_two_agents") (auto split: prod.splits sum.splits)
  from revoked_agent_is_locked_out [OF rev be_steps.Stay [of demo_crypto] auth] rev auth show ?thesis by blast
qed

end
