(* ===== verification/Backend_Accounts.thy ===== *)
theory Backend_Accounts
  imports Agent_Auth
begin

text \<open>
  The tables of human users, roles, sessions and refresh tokens (\<open>domain/models.py\<close>), the identity
  repository, passwords (\<open>security/passwords.py\<close>), tokens (\<open>security/tokens.py\<close>) and the login
  limiter (\<open>security/rate_limit.py\<close>).  Argon2, SHA-256 and the signature of access tokens are
  arguments; texts of users are sequences of characters below 256.
\<close>

section \<open>Tables\<close>

record user_row =
  us_id :: uuid
  us_username :: string
  us_email :: "string option"
  us_password_hash :: string
  us_is_active :: bool
  us_must_change_password :: bool
  us_auth_version :: int
  us_disabled_at :: "instant option"
  us_last_login_at :: "instant option"

record role_row =
  rl_id :: uuid
  rl_key :: string
  rl_display_name :: string
  rl_description :: string

record permission_row =
  pe_id :: uuid
  pe_key :: string
  pe_description :: string

record user_role_row =
  ur_user :: uuid
  ur_role :: uuid
  ur_assigned_by :: "uuid option"

record role_permission_row =
  rp_role :: uuid
  rp_permission :: uuid

record session_row =
  ss_id :: uuid
  ss_user :: uuid
  ss_auth_version :: int
  ss_issued_at :: instant
  ss_absolute_expires_at :: instant
  ss_inactivity_expires_at :: instant
  ss_last_used_at :: "instant option"
  ss_revoked_at :: "instant option"
  ss_revocation_reason :: "string option"
  ss_client_metadata :: "(string \<times> string) list"

record refresh_row =
  rt_id :: uuid
  rt_session :: uuid
  rt_digest :: string
  rt_parent :: "uuid option"
  rt_replacement :: "uuid option"
  rt_issued_at :: instant
  rt_expires_at :: instant
  rt_consumed_at :: "instant option"
  rt_revoked_at :: "instant option"
  rt_revocation_reason :: "string option"

record accounts =
  c_users :: "user_row list"
  c_roles :: "role_row list"
  c_permissions :: "permission_row list"
  c_user_roles :: "user_role_row list"
  c_role_permissions :: "role_permission_row list"
  c_capabilities :: "(string \<times> string) list"
  c_sessions :: "session_row list"
  c_refresh :: "refresh_row list"
  c_account_audit :: "audit_row list"

type_synonym 'a account_outcome = "(be_error + 'a) \<times> accounts"

definition empty_accounts :: accounts where
  "empty_accounts = \<lparr>c_users = [], c_roles = [], c_permissions = [], c_user_roles = [], c_role_permissions = [],
     c_capabilities = [], c_sessions = [], c_refresh = [], c_account_audit = []\<rparr>"

section \<open>Constraints\<close>

text \<open>The check \<open>username ~ '^[a-z0-9][a-z0-9._-]{2,63}$'\<close>.\<close>

definition is_lower_or_digit :: "char \<Rightarrow> bool" where
  "is_lower_or_digit ch \<longleftrightarrow> ch \<in> set ''abcdefghijklmnopqrstuvwxyz0123456789''"

definition username_format :: "string \<Rightarrow> bool" where
  "username_format s \<longleftrightarrow> 3 \<le> length s \<and> length s \<le> 64 \<and> is_lower_or_digit (hd s)
     \<and> (\<forall>ch \<in> set (tl s). is_lower_or_digit ch \<or> ch \<in> set ''._-'')"

definition emails_of :: "user_row list \<Rightarrow> string list" where
  "emails_of rows = List.map_filter us_email rows"

definition users_ok :: "user_row list \<Rightarrow> bool" where
  "users_ok rows \<longleftrightarrow> distinct (map us_id rows) \<and> distinct (map us_username rows) \<and> distinct (emails_of rows)
     \<and> (\<forall>u \<in> set rows. username_format (us_username u) \<and> length (us_password_hash u) \<le> 512)"

definition user_roles_ok :: "user_role_row list \<Rightarrow> bool" where
  "user_roles_ok rows \<longleftrightarrow> distinct (map (\<lambda>r. (ur_user r, ur_role r)) rows)"

definition sessions_ok :: "session_row list \<Rightarrow> bool" where
  "sessions_ok rows \<longleftrightarrow> distinct (map ss_id rows)
     \<and> (\<forall>s \<in> set rows. ss_issued_at s < ss_absolute_expires_at s \<and> ss_inactivity_expires_at s \<le> ss_absolute_expires_at s)"

definition refresh_ok :: "refresh_row list \<Rightarrow> bool" where
  "refresh_ok rows \<longleftrightarrow> distinct (map rt_id rows) \<and> distinct (map rt_digest rows)
     \<and> (\<forall>t \<in> set rows. rt_issued_at t < rt_expires_at t)"

section \<open>The repository\<close>

definition user_by_username :: "accounts \<Rightarrow> string \<Rightarrow> user_row option" where
  "user_by_username a name = find (\<lambda>u. us_username u = name) (c_users a)"

definition user_by_id :: "accounts \<Rightarrow> uuid \<Rightarrow> user_row option" where
  "user_by_id a i = find (\<lambda>u. us_id u = i) (c_users a)"

definition role_by_key :: "accounts \<Rightarrow> string \<Rightarrow> role_row option" where
  "role_by_key a key = find (\<lambda>r. rl_key r = key) (c_roles a)"

definition session_by_id :: "accounts \<Rightarrow> uuid \<Rightarrow> session_row option" where
  "session_by_id a i = find (\<lambda>s. ss_id s = i) (c_sessions a)"

definition refresh_by_digest :: "accounts \<Rightarrow> string \<Rightarrow> refresh_row option" where
  "refresh_by_digest a dg = find (\<lambda>t. rt_digest t = dg) (c_refresh a)"

text \<open>\<open>user.roles\<close> and \<open>permission_keys(user)\<close>.\<close>

definition roles_of :: "accounts \<Rightarrow> uuid \<Rightarrow> role_row list" where
  "roles_of a i = filter (\<lambda>r. \<exists>x \<in> set (c_user_roles a). ur_user x = i \<and> ur_role x = rl_id r) (c_roles a)"

definition permission_keys :: "accounts \<Rightarrow> uuid \<Rightarrow> string set" where
  "permission_keys a i = set (map pe_key (filter (\<lambda>p. \<exists>r \<in> set (roles_of a i). \<exists>x \<in> set (c_role_permissions a).
     rp_role x = rl_id r \<and> rp_permission x = pe_id p) (c_permissions a)))"

definition account_audit ::
  "instant \<Rightarrow> string \<Rightarrow> uuid option \<Rightarrow> string \<Rightarrow> string \<Rightarrow> uuid option \<Rightarrow> string \<Rightarrow> (string \<times> json) list \<Rightarrow> accounts \<Rightarrow> accounts" where
  "account_audit now actor_type actor_id action resource_type resource_id outcome metadata a =
     a\<lparr>c_account_audit := c_account_audit a @ [\<lparr>au_actor_type = actor_type, au_actor_id = actor_id, au_actor_agent = None,
         au_action = action, au_resource_type = resource_type, au_resource_id = resource_id,
         au_outcome = outcome, au_occurred_at = now, au_metadata = sanitize_metadata metadata\<rparr>]\<rparr>"

lemma account_audit_tables [simp]:
  "c_users (account_audit n t i act rt ri out m a) = c_users a" "c_roles (account_audit n t i act rt ri out m a) = c_roles a"
  "c_permissions (account_audit n t i act rt ri out m a) = c_permissions a"
  "c_user_roles (account_audit n t i act rt ri out m a) = c_user_roles a"
  "c_role_permissions (account_audit n t i act rt ri out m a) = c_role_permissions a"
  "c_capabilities (account_audit n t i act rt ri out m a) = c_capabilities a"
  "c_sessions (account_audit n t i act rt ri out m a) = c_sessions a"
  "c_refresh (account_audit n t i act rt ri out m a) = c_refresh a"
  by (simp_all add: account_audit_def)

section \<open>Texts\<close>

definition lower_char :: "char \<Rightarrow> char" where
  "lower_char ch =
     (let n = of_char ch :: nat
      in if (65 \<le> n \<and> n \<le> 90) \<or> (192 \<le> n \<and> n \<le> 222 \<and> n \<noteq> 215) then char_of (n + 32) else ch)"

definition lower :: "string \<Rightarrow> string" where
  "lower s = map lower_char s"

definition is_blank :: "char \<Rightarrow> bool" where
  "is_blank ch \<longleftrightarrow> (let n = of_char ch :: nat in (9 \<le> n \<and> n \<le> 13) \<or> (28 \<le> n \<and> n \<le> 32) \<or> n = 133 \<or> n = 160)"

definition strip :: "string \<Rightarrow> string" where
  "strip s = rev (dropWhile is_blank (rev (dropWhile is_blank s)))"

definition normalized_username :: "string \<Rightarrow> string" where
  "normalized_username s = lower (strip s)"

definition utf8_length :: "string \<Rightarrow> nat" where
  "utf8_length s = sum_list (map (\<lambda>ch. if (of_char ch :: nat) < 128 then 1 else 2) s)"

section \<open>Passwords\<close>

record account_env =
  ce_now :: instant
  ce_fresh :: "string \<Rightarrow> uuid"
  ce_argon_hash :: "string \<Rightarrow> string"
  ce_argon_verify :: "string \<Rightarrow> string \<Rightarrow> bool"
  ce_needs_rehash :: "string \<Rightarrow> bool"
  ce_sha256 :: "string \<Rightarrow> string"
  ce_token_urlsafe :: string
  ce_jwt_encode :: "(string \<times> string) list \<Rightarrow> json \<Rightarrow> string"
  ce_jwt_header :: "string \<Rightarrow> (string \<times> string) list option"
  ce_jwt_decode :: "string \<Rightarrow> json option"
  ce_parse_uuid :: "string \<Rightarrow> uuid option"
  ce_issuer :: string
  ce_audience :: string
  ce_access_minutes :: int
  ce_absolute_days :: int
  ce_inactivity_days :: int

definition valid_password :: "string \<Rightarrow> bool" where
  "valid_password pw \<longleftrightarrow> 12 \<le> length pw \<and> utf8_length pw \<le> 1024"

definition hash_password :: "account_env \<Rightarrow> string \<Rightarrow> be_error + string" where
  "hash_password env pw = (if valid_password pw then Inr (ce_argon_hash env pw) else Inl Be_Value_Error)"

definition verify_password :: "account_env \<Rightarrow> string \<Rightarrow> string \<Rightarrow> bool \<times> string option" where
  "verify_password env pw encoded =
     (if ce_argon_verify env pw encoded
      then (True, if ce_needs_rehash env encoded then Some (ce_argon_hash env pw) else None)
      else (False, None))"

section \<open>Tokens\<close>

record access_claims =
  cl_user :: uuid
  cl_session :: uuid
  cl_auth_version :: int
  cl_jti :: uuid

definition issue_access :: "account_env \<Rightarrow> uuid \<Rightarrow> uuid \<Rightarrow> int \<Rightarrow> string" where
  "issue_access env user_id session_id auth_version =
     (let now = ce_now env div 1000000
      in ce_jwt_encode env [(''alg'', ''HS256''), (''typ'', ''at+jwt'')]
        (JObj [(''iss'', JStr (ce_issuer env)), (''aud'', JStr (ce_audience env)), (''sub'', JStr user_id),
               (''iat'', JInt now), (''nbf'', JInt now), (''exp'', JInt (now + 60 * ce_access_minutes env)),
               (''jti'', JStr (ce_fresh env ''jti'')), (''token_type'', JStr ''access''),
               (''sid'', JStr session_id), (''auth_version'', JInt auth_version)]))"

text \<open>
  \<open>decode_access\<close>: the library checks the signature, the issuer, the audience, the times and that the
  claims are present; a Boolean is an \<open>int\<close> in Python.  \<open>InvalidAccessTokenError\<close> is what its only
  caller makes of it, an invalid session.
\<close>

definition uuid_claim :: "account_env \<Rightarrow> json \<Rightarrow> be_error + uuid" where
  "uuid_claim env v =
     (case v of
        JStr s \<Rightarrow> (case ce_parse_uuid env s of Some u \<Rightarrow> Inr u | None \<Rightarrow> Inl Invalid_Session_Error)
      | _ \<Rightarrow> Inl Be_Value_Error)"

definition int_claim :: "json \<Rightarrow> int option" where
  "int_claim v = (case v of JInt i \<Rightarrow> Some i | JBool b \<Rightarrow> Some (if b then 1 else 0) | _ \<Rightarrow> None)"

definition decode_access :: "account_env \<Rightarrow> string \<Rightarrow> be_error + access_claims" where
  "decode_access env token =
     (case ce_jwt_header env token of
        None \<Rightarrow> Inl Invalid_Session_Error
      | Some header \<Rightarrow>
          if map_of header ''alg'' \<noteq> Some ''HS256'' \<or> map_of header ''typ'' \<noteq> Some ''at+jwt'' then Inl Invalid_Session_Error
          else
            (case ce_jwt_decode env token of
               None \<Rightarrow> Inl Invalid_Session_Error
             | Some payload \<Rightarrow>
                 if json_get payload ''token_type'' \<noteq> Some (JStr ''access'') then Inl Invalid_Session_Error
                 else
                   (case (json_get payload ''sub'', json_get payload ''sid'', json_get payload ''jti'',
                          Option.bind (json_get payload ''auth_version'') int_claim) of
                      (Some sub, Some sid, Some jti, Some v) \<Rightarrow>
                        (case uuid_claim env sub of
                           Inl e \<Rightarrow> Inl e
                         | Inr u \<Rightarrow>
                             (case uuid_claim env sid of
                                Inl e \<Rightarrow> Inl e
                              | Inr s \<Rightarrow>
                                  (case uuid_claim env jti of
                                     Inl e \<Rightarrow> Inl e
                                   | Inr j \<Rightarrow> Inr \<lparr>cl_user = u, cl_session = s, cl_auth_version = v, cl_jti = j\<rparr>)))
                    | _ \<Rightarrow> Inl Invalid_Session_Error)))"

section \<open>The login limiter\<close>

text \<open>Two counters with the expiry that the first request of a window sets.\<close>

type_synonym login_limits = "string \<Rightarrow> (int \<times> instant) option"

record limiter_env =
  li_available :: bool
  li_ip_limit :: int
  li_identifier_limit :: int
  li_window :: int

definition increment :: "limiter_env \<Rightarrow> instant \<Rightarrow> string \<Rightarrow> login_limits \<Rightarrow> int \<times> login_limits" where
  "increment le now key m =
     (case m key of
        Some (n, expiry) \<Rightarrow>
          if now < expiry then (n + 1, m(key := Some (n + 1, expiry)))
          else (1, m(key := Some (1, now + seconds (li_window le))))
      | None \<Rightarrow> (1, m(key := Some (1, now + seconds (li_window le)))))"

definition check_limits :: "limiter_env \<Rightarrow> instant \<Rightarrow> string \<Rightarrow> string \<Rightarrow> login_limits \<Rightarrow> (be_error + bool) \<times> login_limits" where
  "check_limits le now ip_fingerprint identifier_fingerprint m =
     (if \<not> li_available le then (Inl Dependency_Unavailable_Error, m)
      else
        (case increment le now (''wto:login:ip:'' @ ip_fingerprint) m of
           (ip_count, m1) \<Rightarrow>
             (case increment le now (''wto:login:id:'' @ identifier_fingerprint) m1 of
                (identifier_count, m2) \<Rightarrow>
                  (Inr (ip_count \<le> li_ip_limit le \<and> identifier_count \<le> li_identifier_limit le), m2))))"

end
