(* ===== verification/Backend_Auth.thy ===== *)
theory Backend_Auth
  imports Backend_Accounts
begin

text \<open>
  \<open>services/auth.py\<close>: login, the rotation of refresh tokens, access, logout and the change of a
  password, with the principal of a request (\<open>api/dependencies.py\<close>) and the login endpoint
  (\<open>api/routers/auth.py\<close>).  An exception before the commit leaves the tables as they were.
\<close>

section \<open>Sessions\<close>

definition new_session :: "account_env \<Rightarrow> user_row \<Rightarrow> (string \<times> string) list \<Rightarrow> session_row" where
  "new_session env u client_metadata =
     (let now = ce_now env; absolute = now + days (ce_absolute_days env)
      in \<lparr>ss_id = ce_fresh env ''session'', ss_user = us_id u, ss_auth_version = us_auth_version u, ss_issued_at = now,
          ss_absolute_expires_at = absolute,
          ss_inactivity_expires_at = min absolute (now + days (ce_inactivity_days env)),
          ss_last_used_at = Some now, ss_revoked_at = None, ss_revocation_reason = None,
          ss_client_metadata = client_metadata\<rparr>)"

definition new_refresh :: "account_env \<Rightarrow> uuid \<Rightarrow> uuid option \<Rightarrow> instant \<Rightarrow> refresh_row" where
  "new_refresh env session_id parent expires =
     \<lparr>rt_id = ce_fresh env ''refresh'', rt_session = session_id, rt_digest = ce_sha256 env (ce_token_urlsafe env),
      rt_parent = parent, rt_replacement = None, rt_issued_at = ce_now env, rt_expires_at = expires,
      rt_consumed_at = None, rt_revoked_at = None, rt_revocation_reason = None\<rparr>"

text \<open>\<open>x or y\<close> on an optional value; an empty reason does not occur.\<close>

definition or_else :: "'a option \<Rightarrow> 'a \<Rightarrow> 'a option" where
  "or_else x y = (case x of None \<Rightarrow> Some y | Some v \<Rightarrow> Some v)"

definition revoke_family :: "uuid \<Rightarrow> instant \<Rightarrow> string \<Rightarrow> accounts \<Rightarrow> accounts" where
  "revoke_family sid now why a =
     a\<lparr>c_sessions := upd_where (\<lambda>s. ss_id s = sid)
          (\<lambda>s. s\<lparr>ss_revoked_at := or_else (ss_revoked_at s) now, ss_revocation_reason := or_else (ss_revocation_reason s) why\<rparr>)
          (c_sessions a),
        c_refresh := upd_where (\<lambda>t. rt_session t = sid \<and> rt_revoked_at t = None)
          (\<lambda>t. t\<lparr>rt_revoked_at := Some now, rt_revocation_reason := Some why\<rparr>) (c_refresh a)\<rparr>"

text \<open>The update of all live sessions of a user together with the version of the user.\<close>

definition revoke_user_sessions :: "uuid \<Rightarrow> instant \<Rightarrow> string \<Rightarrow> accounts \<Rightarrow> accounts" where
  "revoke_user_sessions uid now why a =
     a\<lparr>c_users := upd_where (\<lambda>u. us_id u = uid) (\<lambda>u. u\<lparr>us_auth_version := us_auth_version u + 1\<rparr>) (c_users a),
       c_sessions := upd_where (\<lambda>s. ss_user s = uid \<and> ss_revoked_at s = None)
          (\<lambda>s. s\<lparr>ss_revoked_at := Some now, ss_revocation_reason := Some why\<rparr>) (c_sessions a)\<rparr>"

section \<open>Login\<close>

record login_answer =
  la_access :: string
  la_refresh :: string
  la_user :: uuid

definition login_failure :: "account_env \<Rightarrow> string \<Rightarrow> string \<Rightarrow> accounts \<Rightarrow> accounts" where
  "login_failure env identifier_fingerprint ip_fingerprint =
     account_audit (ce_now env) ''anonymous'' None ''auth.login'' ''session'' None ''failure''
       [(''identifier_fingerprint'', JStr identifier_fingerprint), (''ip_fingerprint'', JStr ip_fingerprint)]"

definition open_session ::
  "account_env \<Rightarrow> user_row \<Rightarrow> string option \<Rightarrow> string \<Rightarrow> (string \<times> string) list \<Rightarrow> accounts \<Rightarrow> login_answer account_outcome" where
  "open_session env u replacement ip_fingerprint client_metadata a =
     (let s = new_session env u client_metadata;
          t = new_refresh env (ss_id s) None (ss_inactivity_expires_at s);
          users = upd_where (\<lambda>x. us_id x = us_id u)
            (\<lambda>x. x\<lparr>us_password_hash := (case replacement of None \<Rightarrow> us_password_hash x | Some h \<Rightarrow> h),
                    us_last_login_at := Some (ce_now env)\<rparr>) (c_users a)
      in if \<not> sessions_ok (c_sessions a @ [s]) \<or> \<not> refresh_ok (c_refresh a @ [t]) \<or> \<not> users_ok users
         then (Inl Db_Integrity_Error, a)
         else
           (Inr \<lparr>la_access = issue_access env (us_id u) (ss_id s) (us_auth_version u),
                 la_refresh = ce_token_urlsafe env, la_user = us_id u\<rparr>,
            account_audit (ce_now env) ''user'' (Some (us_id u)) ''auth.login'' ''session'' (Some (ss_id s)) ''success''
              [(''session_id'', JStr (ss_id s)), (''ip_fingerprint'', JStr ip_fingerprint)]
              (a\<lparr>c_users := users, c_sessions := c_sessions a @ [s], c_refresh := c_refresh a @ [t]\<rparr>)))"

definition login ::
  "account_env \<Rightarrow> string \<Rightarrow> string \<Rightarrow> string \<Rightarrow> string \<Rightarrow> (string \<times> string) list \<Rightarrow> accounts \<Rightarrow> login_answer account_outcome" where
  "login env username password identifier_fingerprint ip_fingerprint client_metadata a =
     (case user_by_username a (normalized_username username) of
        None \<Rightarrow> (Inl Invalid_Credentials_Error, login_failure env identifier_fingerprint ip_fingerprint a)
      | Some u \<Rightarrow>
          (case verify_password env password (us_password_hash u) of
             (verified, replacement) \<Rightarrow>
               if \<not> verified \<or> \<not> us_is_active u
               then (Inl Invalid_Credentials_Error, login_failure env identifier_fingerprint ip_fingerprint a)
               else open_session env u replacement ip_fingerprint client_metadata a))"

section \<open>Refresh\<close>

definition invalid_family :: "account_env \<Rightarrow> session_row \<Rightarrow> user_row \<Rightarrow> bool" where
  "invalid_family env s u \<longleftrightarrow> ss_revoked_at s \<noteq> None \<or> ss_absolute_expires_at s \<le> ce_now env
     \<or> ss_inactivity_expires_at s \<le> ce_now env \<or> \<not> us_is_active u \<or> ss_auth_version s \<noteq> us_auth_version u"

definition replace_refresh :: "account_env \<Rightarrow> refresh_row \<Rightarrow> session_row \<Rightarrow> user_row \<Rightarrow> accounts \<Rightarrow> login_answer account_outcome" where
  "replace_refresh env r s u a =
     (let now = ce_now env;
          expires = min (ss_absolute_expires_at s) (now + days (ce_inactivity_days env));
          t = new_refresh env (ss_id s) (Some (rt_id r)) expires;
          rows = upd_where (\<lambda>x. rt_id x = rt_id r)
                   (\<lambda>x. x\<lparr>rt_consumed_at := Some now, rt_replacement := Some (rt_id t)\<rparr>) (c_refresh a) @ [t];
          sessions = upd_where (\<lambda>x. ss_id x = ss_id s)
                       (\<lambda>x. x\<lparr>ss_last_used_at := Some now, ss_inactivity_expires_at := expires\<rparr>) (c_sessions a)
      in if \<not> refresh_ok rows \<or> \<not> sessions_ok sessions then (Inl Db_Integrity_Error, a)
         else
           (Inr \<lparr>la_access = issue_access env (us_id u) (ss_id s) (us_auth_version u),
                 la_refresh = ce_token_urlsafe env, la_user = us_id u\<rparr>,
            account_audit now ''user'' (Some (us_id u)) ''auth.refresh'' ''session'' (Some (ss_id s)) ''success''
              [(''session_id'', JStr (ss_id s))] (a\<lparr>c_refresh := rows, c_sessions := sessions\<rparr>)))"

text \<open>A refresh token always has its session and the session its user: the columns are foreign keys.\<close>

definition refresh :: "account_env \<Rightarrow> string \<Rightarrow> accounts \<Rightarrow> login_answer account_outcome" where
  "refresh env token a =
     (case refresh_by_digest a (ce_sha256 env token) of
        None \<Rightarrow> (Inl Invalid_Session_Error, a)
      | Some r \<Rightarrow>
          (case session_by_id a (rt_session r) of
             None \<Rightarrow> (Inl Be_Value_Error, a)
           | Some s \<Rightarrow>
               (case user_by_id a (ss_user s) of
                  None \<Rightarrow> (Inl Be_Value_Error, a)
                | Some u \<Rightarrow>
                    if rt_consumed_at r \<noteq> None
                    then (Inl Invalid_Session_Error,
                          account_audit (ce_now env) ''user'' (Some (us_id u)) ''auth.refresh_reuse'' ''session'' (Some (ss_id s))
                            ''denied'' [(''session_id'', JStr (ss_id s)), (''reason_code'', JStr ''refresh_reuse'')]
                            (revoke_family (ss_id s) (ce_now env) ''refresh_reuse'' a))
                    else if invalid_family env s u \<or> rt_revoked_at r \<noteq> None \<or> rt_expires_at r \<le> ce_now env
                    then (Inl Invalid_Session_Error, revoke_family (ss_id s) (ce_now env) ''session_invalid'' a)
                    else replace_refresh env r s u a)))"

section \<open>Access\<close>

definition authenticate_access :: "account_env \<Rightarrow> access_claims \<Rightarrow> accounts \<Rightarrow> be_error + user_row" where
  "authenticate_access env claims a =
     (case (user_by_id a (cl_user claims), session_by_id a (cl_session claims)) of
        (Some u, Some s) \<Rightarrow>
          if ss_user s \<noteq> cl_user claims \<or> \<not> us_is_active u \<or> ss_revoked_at s \<noteq> None
             \<or> ss_absolute_expires_at s \<le> ce_now env \<or> ss_inactivity_expires_at s \<le> ce_now env
             \<or> us_auth_version u \<noteq> cl_auth_version claims \<or> ss_auth_version s \<noteq> cl_auth_version claims
          then Inl Invalid_Session_Error
          else Inr u
      | _ \<Rightarrow> Inl Invalid_Session_Error)"

text \<open>The scheme and the credentials of the authorization header, if there is one.\<close>

definition current_principal :: "account_env \<Rightarrow> (string \<times> string) option \<Rightarrow> accounts \<Rightarrow> be_error + (user_row \<times> access_claims)" where
  "current_principal env authorization a =
     (case authorization of
        None \<Rightarrow> Inl Invalid_Session_Error
      | Some (scheme, token) \<Rightarrow>
          if lower scheme \<noteq> ''bearer'' then Inl Invalid_Session_Error
          else
            (case decode_access env token of
               Inl e \<Rightarrow> Inl e
             | Inr claims \<Rightarrow>
                 (case authenticate_access env claims a of Inl e \<Rightarrow> Inl e | Inr u \<Rightarrow> Inr (u, claims))))"

definition require_permissions ::
  "account_env \<Rightarrow> string list \<Rightarrow> (string \<times> string) option \<Rightarrow> accounts \<Rightarrow> be_error + (user_row \<times> access_claims)" where
  "require_permissions env required authorization a =
     (case current_principal env authorization a of
        Inl e \<Rightarrow> Inl e
      | Inr (u, claims) \<Rightarrow>
          if \<not> set required \<subseteq> permission_keys a (us_id u) then Inl Permission_Denied_Error else Inr (u, claims))"

text \<open>\<open>require_cookie_origin\<close>: the \<open>Origin\<close> header or else the first three parts of the \<open>Referer\<close>.\<close>

definition rstrip_slash :: "string \<Rightarrow> string" where
  "rstrip_slash s = rev (dropWhile (\<lambda>ch. ch = CHR ''/'') (rev s))"

fun join_slash :: "string list \<Rightarrow> string" where
  "join_slash [] = []"
| "join_slash [s] = s"
| "join_slash (s # t # ts) = s @ ''/'' @ join_slash (t # ts)"

definition require_cookie_origin :: "string \<Rightarrow> string option \<Rightarrow> string option \<Rightarrow> be_error + unit" where
  "require_cookie_origin allowed_origin origin referer =
     (let supplied = (case origin of
                        Some s \<Rightarrow> Some s
                      | None \<Rightarrow>
                          (case referer of
                             None \<Rightarrow> None
                           | Some r \<Rightarrow> if r = [] then None else Some (join_slash (take 3 (split_on CHR ''/'' r)))))
      in case supplied of
           None \<Rightarrow> Inl Permission_Denied_Error
         | Some s \<Rightarrow> if rstrip_slash s \<noteq> allowed_origin then Inl Permission_Denied_Error else Inr ())"

section \<open>Logout and password\<close>

definition logout :: "account_env \<Rightarrow> uuid \<Rightarrow> uuid \<Rightarrow> accounts \<Rightarrow> unit account_outcome" where
  "logout env user_id session_id a =
     (case session_by_id a session_id of
        None \<Rightarrow> (Inr (), a)
      | Some s \<Rightarrow>
          if ss_user s \<noteq> user_id then (Inr (), a)
          else (Inr (),
                account_audit (ce_now env) ''user'' (Some user_id) ''auth.logout'' ''session'' (Some session_id) ''success''
                  [(''session_id'', JStr session_id)] (revoke_family session_id (ce_now env) ''logout'' a)))"

definition logout_all :: "account_env \<Rightarrow> string \<Rightarrow> uuid \<Rightarrow> accounts \<Rightarrow> unit account_outcome" where
  "logout_all env action user_id a =
     (case user_by_id a user_id of
        None \<Rightarrow> (Inl Invalid_Session_Error, a)
      | Some u \<Rightarrow>
          (Inr (),
           account_audit (ce_now env) ''user'' (Some user_id) action ''user'' (Some user_id) ''success'' []
             (revoke_user_sessions user_id (ce_now env) action a)))"

definition change_password :: "account_env \<Rightarrow> string \<Rightarrow> string \<Rightarrow> uuid \<Rightarrow> accounts \<Rightarrow> unit account_outcome" where
  "change_password env current new user_id a =
     (case user_by_id a user_id of
        None \<Rightarrow> (Inl Invalid_Session_Error, a)
      | Some u \<Rightarrow>
          if \<not> fst (verify_password env current (us_password_hash u)) then (Inl Invalid_Credentials_Error, a)
          else
            (case hash_password env new of
               Inl e \<Rightarrow> (Inl e, a)
             | Inr h \<Rightarrow>
                 (let users = upd_where (\<lambda>x. us_id x = user_id)
                        (\<lambda>x. x\<lparr>us_password_hash := h, us_must_change_password := False\<rparr>) (c_users a)
                  in if \<not> users_ok users then (Inl Db_Integrity_Error, a)
                     else logout_all env ''auth.password_change'' user_id (a\<lparr>c_users := users\<rparr>))))"

section \<open>The login endpoint\<close>

record login_request =
  lq_username :: string
  lq_password :: string
  lq_client_ip :: string

text \<open>\<open>fingerprint\<close> is the HMAC of the limiter, \<open>subject\<close> that of the audit log.\<close>

definition login_endpoint ::
  "account_env \<Rightarrow> limiter_env \<Rightarrow> (string \<Rightarrow> string) \<Rightarrow> (string \<Rightarrow> string) \<Rightarrow> login_request \<Rightarrow> login_limits \<times> accounts \<Rightarrow>
   (be_error + login_answer) \<times> (login_limits \<times> accounts)" where
  "login_endpoint env le fingerprint subject q w =
     (let name = normalized_username (lq_username q)
      in case check_limits le (ce_now env) (fingerprint (lq_client_ip q)) (fingerprint name) (fst w) of
           (Inl e, m) \<Rightarrow> (Inl e, (m, snd w))
         | (Inr allowed, m) \<Rightarrow>
             if \<not> allowed then (Inl Rate_Limited_Error, (m, snd w))
             else (case login env name (lq_password q) (subject name) (subject (lq_client_ip q))
                          [(''ip_fingerprint'', subject (lq_client_ip q))] (snd w) of
                     (r, a') \<Rightarrow> (r, (m, a'))))"

end
