(* ===== verification/Backend_Admin.thy ===== *)
theory Backend_Admin
  imports Backend_Auth
begin

text \<open>
  The administration of users and roles (\<open>services/rbac.py\<close>), the first administrator
  (\<open>services/bootstrap.py\<close>) and the seeds of roles and permissions (\<open>services/seeds.py\<close>).  The
  advisory lock of the administrators serialises the operations that could remove the last one, as the
  sequence of operations does here.
\<close>

section \<open>Users and roles\<close>

definition user_audit :: "account_env \<Rightarrow> uuid \<Rightarrow> string \<Rightarrow> uuid \<Rightarrow> (string \<times> json) list \<Rightarrow> accounts \<Rightarrow> accounts" where
  "user_audit env actor action user_id = account_audit (ce_now env) ''user'' (Some actor) action ''user'' (Some user_id) ''success''"

definition new_user :: "account_env \<Rightarrow> string \<Rightarrow> string option \<Rightarrow> string \<Rightarrow> user_row" where
  "new_user env username email h =
     \<lparr>us_id = ce_fresh env ''user'', us_username = username, us_email = email, us_password_hash = h, us_is_active = True,
      us_must_change_password = True, us_auth_version = 1, us_disabled_at = None, us_last_login_at = None\<rparr>"

definition create_user ::
  "account_env \<Rightarrow> string \<Rightarrow> string option \<Rightarrow> string \<Rightarrow> uuid \<Rightarrow> accounts \<Rightarrow> user_row account_outcome" where
  "create_user env username email password actor a =
     (let name = normalized_username username
      in if user_by_username a name \<noteq> None then (Inl Conflict_Error, a)
         else
           (case hash_password env password of
              Inl e \<Rightarrow> (Inl e, a)
            | Inr h \<Rightarrow>
                (let u = new_user env name (case email of None \<Rightarrow> None | Some m \<Rightarrow> if m = [] then None else Some (lower m)) h
                 in if \<not> users_ok (c_users a @ [u]) then (Inl Db_Integrity_Error, a)
                    else (Inr u, user_audit env actor ''user.create'' (us_id u) [] (a\<lparr>c_users := c_users a @ [u]\<rparr>)))))"

definition is_administrator :: "accounts \<Rightarrow> uuid \<Rightarrow> bool" where
  "is_administrator a i \<longleftrightarrow> (\<exists>r \<in> set (roles_of a i). rl_key r = ''administrator'')"

text \<open>The rows of the join of users, assignments and roles; a row per assignment.\<close>

definition administrator_rows :: "accounts \<Rightarrow> user_role_row list" where
  "administrator_rows a =
     filter (\<lambda>x. (\<exists>u \<in> set (c_users a). us_id u = ur_user x \<and> us_is_active u)
               \<and> (\<exists>r \<in> set (c_roles a). rl_id r = ur_role x \<and> rl_key r = ''administrator'')) (c_user_roles a)"

definition active_administrator_count :: "accounts \<Rightarrow> nat" where
  "active_administrator_count a = length (administrator_rows a)"

definition disable_user :: "account_env \<Rightarrow> uuid \<Rightarrow> uuid \<Rightarrow> accounts \<Rightarrow> unit account_outcome" where
  "disable_user env actor user_id a =
     (case user_by_id a user_id of
        None \<Rightarrow> (Inl Resource_Not_Found_Error, a)
      | Some u \<Rightarrow>
          if is_administrator a user_id \<and> active_administrator_count a \<le> 1 then (Inl Last_Administrator_Error, a)
          else
            (Inr (),
             user_audit env actor ''user.disable'' user_id []
               (let b = revoke_user_sessions user_id (ce_now env) ''user_disabled'' a
                in b\<lparr>c_users := upd_where (\<lambda>x. us_id x = user_id)
                       (\<lambda>x. x\<lparr>us_is_active := False, us_disabled_at := Some (ce_now env)\<rparr>) (c_users b)\<rparr>)))"

definition revoke_sessions :: "account_env \<Rightarrow> uuid \<Rightarrow> uuid \<Rightarrow> accounts \<Rightarrow> unit account_outcome" where
  "revoke_sessions env actor user_id a =
     (case user_by_id a user_id of
        None \<Rightarrow> (Inl Resource_Not_Found_Error, a)
      | Some u \<Rightarrow>
          (Inr (),
           user_audit env actor ''session.revoke'' user_id [(''reason_code'', JStr ''administrator_revocation'')]
             (revoke_user_sessions user_id (ce_now env) ''administrator_revocation'' a)))"

definition has_assignment :: "accounts \<Rightarrow> uuid \<Rightarrow> uuid \<Rightarrow> bool" where
  "has_assignment a user_id role_id \<longleftrightarrow> (\<exists>x \<in> set (c_user_roles a). ur_user x = user_id \<and> ur_role x = role_id)"

definition assign_role :: "account_env \<Rightarrow> uuid \<Rightarrow> string \<Rightarrow> uuid \<Rightarrow> accounts \<Rightarrow> unit account_outcome" where
  "assign_role env user_id role_key actor a =
     (case (user_by_id a user_id, role_by_key a role_key) of
        (Some u, Some r) \<Rightarrow>
          if has_assignment a user_id (rl_id r) then (Inr (), a)
          else
            (Inr (),
             user_audit env actor ''user.role_assign'' user_id [(''role_key'', JStr (rl_key r))]
               (a\<lparr>c_user_roles := c_user_roles a @ [\<lparr>ur_user = user_id, ur_role = rl_id r, ur_assigned_by = Some actor\<rparr>]\<rparr>))
      | _ \<Rightarrow> (Inl Resource_Not_Found_Error, a))"

definition remove_role :: "account_env \<Rightarrow> uuid \<Rightarrow> string \<Rightarrow> uuid \<Rightarrow> accounts \<Rightarrow> unit account_outcome" where
  "remove_role env user_id role_key actor a =
     (case (user_by_id a user_id, role_by_key a role_key) of
        (Some u, Some r) \<Rightarrow>
          if role_key = ''administrator'' \<and> us_is_active u \<and> active_administrator_count a \<le> 1
          then (Inl Last_Administrator_Error, a)
          else
            (let b = a\<lparr>c_user_roles := filter (\<lambda>x. \<not> (ur_user x = user_id \<and> ur_role x = rl_id r)) (c_user_roles a)\<rparr>
             in (Inr (), if has_assignment a user_id (rl_id r)
                         then user_audit env actor ''user.role_remove'' user_id [(''role_key'', JStr (rl_key r))] b else b))
      | _ \<Rightarrow> (Inl Resource_Not_Found_Error, a))"

section \<open>The first administrator\<close>

definition bootstrap_administrator :: "account_env \<Rightarrow> string \<Rightarrow> string \<Rightarrow> accounts \<Rightarrow> (uuid \<times> bool) account_outcome" where
  "bootstrap_administrator env username password a =
     (let name = normalized_username username
      in case role_by_key a ''administrator'' of
           None \<Rightarrow> (Inl Conflict_Error, a)
         | Some r \<Rightarrow>
             (case user_by_username a name of
                Some u \<Rightarrow>
                  if us_is_active u \<and> has_assignment a (us_id u) (rl_id r)
                  then (Inr (us_id u, False),
                        account_audit (ce_now env) ''system'' None ''admin.bootstrap'' ''user'' (Some (us_id u)) ''success''
                          [(''already_exists'', JBool True)] a)
                  else (Inl Conflict_Error, a)
              | None \<Rightarrow>
                  if active_administrator_count a \<noteq> 0 then (Inl Conflict_Error, a)
                  else if lower password \<in> {''administrator'', ''password'', ''change-me'', name} then (Inl Be_Value_Error, a)
                  else
                    (case hash_password env password of
                       Inl e \<Rightarrow> (Inl e, a)
                     | Inr h \<Rightarrow>
                         (let u = new_user env name None h
                          in if \<not> users_ok (c_users a @ [u]) then (Inl Db_Integrity_Error, a)
                             else
                               (Inr (us_id u, True),
                                account_audit (ce_now env) ''system'' None ''admin.bootstrap'' ''user'' (Some (us_id u)) ''success''
                                  [(''already_exists'', JBool False)]
                                  (a\<lparr>c_users := c_users a @ [u],
                                     c_user_roles := c_user_roles a @
                                       [\<lparr>ur_user = us_id u, ur_role = rl_id r, ur_assigned_by = None\<rparr>]\<rparr>))))))"

section \<open>Seeds\<close>

definition PERMISSIONS :: "(string \<times> string) list" where
  "PERMISSIONS =
    [(''users.read'', ''Read human users.''),
     (''users.create'', ''Create human users.''),
     (''users.update'', ''Update or disable human users.''),
     (''users.roles_manage'', ''Assign or remove human roles.''),
     (''sessions.revoke'', ''Revoke user sessions.''),
     (''roles.read'', ''Read human roles.''),
     (''permissions.read'', ''Read explicit permissions.''),
     (''audit.read'', ''Read the bounded audit trail.''),
     (''admin.protected_read'', ''Use the protected administrative demonstration endpoint.''),
     (''enrollment_tokens.create'', ''Create bounded agent enrollment tokens.''),
     (''enrollment_tokens.read'', ''Read enrollment token metadata.''),
     (''enrollment_tokens.revoke'', ''Revoke agent enrollment tokens.''),
     (''agents.read'', ''Read agent identity and status.''),
     (''agents.revoke'', ''Revoke an agent and all of its credentials.''),
     (''agents.recover'', ''Issue recovery enrollment tokens for an agent.''),
     (''agent_credentials.read'', ''Read non-secret agent credential metadata.''),
     (''agent_credentials.revoke'', ''Revoke an individual agent credential.''),
     (''capability_manifests.read'', ''Read validated capability manifests.''),
     (''agent_protocol.read'', ''Inspect agent protocol compatibility.'')]"

definition ROLES :: "(string \<times> string \<times> string) list" where
  "ROLES =
    [(''administrator'', ''Administrator'', ''Full explicit human administration permissions.''),
     (''test_manager'', ''Test Manager'', ''Read users, RBAC, and audit information.''),
     (''operator'', ''Operator'', ''Read RBAC reference information.''),
     (''viewer'', ''Viewer'', ''Read RBAC reference information.'')]"

definition ROLE_PERMISSIONS :: "(string \<times> string list) list" where
  "ROLE_PERMISSIONS =
    [(''administrator'', map fst PERMISSIONS),
     (''test_manager'', [''users.read'', ''roles.read'', ''permissions.read'', ''audit.read'',
        ''enrollment_tokens.create'', ''enrollment_tokens.read'', ''enrollment_tokens.revoke'',
        ''agents.read'', ''agents.recover'', ''agent_credentials.read'',
        ''capability_manifests.read'', ''agent_protocol.read'']),
     (''operator'', [''roles.read'', ''permissions.read'', ''agents.read'', ''agent_credentials.read'',
        ''capability_manifests.read'', ''agent_protocol.read'']),
     (''viewer'', [''roles.read'', ''permissions.read'', ''agents.read'', ''capability_manifests.read'',
        ''agent_protocol.read''])]"

definition CAPABILITY_IDS :: "string list" where
  "CAPABILITY_IDS =
    [''wifi.connection.read'', ''wifi.scan'', ''wifi.rssi.read'', ''network.icmp.ping'',
     ''network.tcp.probe'', ''network.http.probe'', ''traffic.tcp.throughput'',
     ''traffic.udp.throughput'', ''traffic.http.download'', ''traffic.http.upload'',
     ''traffic.latency_under_load'', ''capture.ip'', ''capture.ieee80211.monitor'',
     ''traffic.pcap.replay'', ''execution.background.continuous'']"

text \<open>The seeds count what they create and update; \<open>uid\<close> is the name-based identifier.\<close>

type_synonym seeding = "accounts \<times> int \<times> int"

definition seed_permission :: "(string \<Rightarrow> uuid) \<Rightarrow> string \<times> string \<Rightarrow> seeding \<Rightarrow> seeding" where
  "seed_permission uid kd w =
     (case (kd, w) of
        ((key, description), (a, created, updated)) \<Rightarrow>
          (case find (\<lambda>p. pe_key p = key) (c_permissions a) of
             None \<Rightarrow> (a\<lparr>c_permissions := c_permissions a @
                        [\<lparr>pe_id = uid (''permission:'' @ key), pe_key = key, pe_description = description\<rparr>]\<rparr>, created + 1, updated)
           | Some p \<Rightarrow>
               if pe_description p \<noteq> description
               then (a\<lparr>c_permissions := upd_where (\<lambda>p. pe_key p = key) (\<lambda>p. p\<lparr>pe_description := description\<rparr>) (c_permissions a)\<rparr>,
                     created, updated + 1)
               else w))"

definition seed_role :: "(string \<Rightarrow> uuid) \<Rightarrow> string \<times> string \<times> string \<Rightarrow> seeding \<Rightarrow> seeding" where
  "seed_role uid knd w =
     (case (knd, w) of
        ((key, name, description), (a, created, updated)) \<Rightarrow>
          (case role_by_key a key of
             None \<Rightarrow> (a\<lparr>c_roles := c_roles a @
                        [\<lparr>rl_id = uid (''role:'' @ key), rl_key = key, rl_display_name = name, rl_description = description\<rparr>]\<rparr>,
                      created + 1, updated)
           | Some r \<Rightarrow>
               if rl_display_name r \<noteq> name \<or> rl_description r \<noteq> description
               then (a\<lparr>c_roles := upd_where (\<lambda>r. rl_key r = key)
                          (\<lambda>r. r\<lparr>rl_display_name := name, rl_description := description\<rparr>) (c_roles a)\<rparr>, created, updated + 1)
               else w))"

definition seed_role_permission :: "string \<times> string \<Rightarrow> seeding \<Rightarrow> seeding" where
  "seed_role_permission rp w =
     (case (rp, w) of
        ((role_key, permission_key), (a, created, updated)) \<Rightarrow>
          (case (role_by_key a role_key, find (\<lambda>p. pe_key p = permission_key) (c_permissions a)) of
             (Some r, Some p) \<Rightarrow>
               if (\<exists>x \<in> set (c_role_permissions a). rp_role x = rl_id r \<and> rp_permission x = pe_id p) then w
               else (a\<lparr>c_role_permissions := c_role_permissions a @ [\<lparr>rp_role = rl_id r, rp_permission = pe_id p\<rparr>]\<rparr>,
                     created + 1, updated)
           | _ \<Rightarrow> w))"

definition seed_capability :: "string \<Rightarrow> seeding \<Rightarrow> seeding" where
  "seed_capability key w =
     (case w of
        (a, created, updated) \<Rightarrow>
          if (key, ''1.0.0'') \<in> set (c_capabilities a) then w
          else (a\<lparr>c_capabilities := c_capabilities a @ [(key, ''1.0.0'')]\<rparr>, created + 1, updated))"

definition role_permission_pairs :: "(string \<times> string) list" where
  "role_permission_pairs = concat (map (\<lambda>(r, ps). map (Pair r) ps) ROLE_PERMISSIONS)"

definition seeded :: "(string \<Rightarrow> uuid) \<Rightarrow> seeding \<Rightarrow> seeding" where
  "seeded uid w =
     fold seed_capability CAPABILITY_IDS
       (fold seed_role_permission role_permission_pairs
         (fold (seed_role uid) ROLES (fold (seed_permission uid) PERMISSIONS w)))"

definition seed_rbac :: "account_env \<Rightarrow> (string \<Rightarrow> uuid) \<Rightarrow> accounts \<Rightarrow> (int \<times> int) account_outcome" where
  "seed_rbac env uid a =
     (case seeded uid (a, 0, 0) of
        (b, created, updated) \<Rightarrow>
          if \<not> distinct (map pe_id (c_permissions b)) \<or> \<not> distinct (map rl_id (c_roles b)) then (Inl Db_Integrity_Error, a)
          else
            (Inr (created, updated),
             account_audit (ce_now env) ''system'' None ''rbac.seed'' ''rbac'' None ''success''
               [(''created_count'', JInt created), (''updated_count'', JInt updated)] b))"

end
