(* ===== verification/Accounts_Reach.thy ===== *)
theory Accounts_Reach
  imports Backend_Admin
begin

text \<open>
  The endpoints of users and administrators (\<open>api/routers/auth.py\<close>, \<open>api/routers/admin.py\<close>) and the
  states of the account tables they reach.  What no operation takes back is an order on the tables:
  users, sessions and refresh tokens stay, and a revocation or a consumption is for ever.
\<close>

section \<open>Endpoints\<close>

text \<open>The cookie origin of a request, its refresh cookie and its authorization header.\<close>

record web_request =
  wr_origin :: "string option"
  wr_referer :: "string option"
  wr_refresh_cookie :: "string option"
  wr_authorization :: "(string \<times> string) option"

definition refresh_endpoint :: "account_env \<Rightarrow> string \<Rightarrow> web_request \<Rightarrow> accounts \<Rightarrow> login_answer account_outcome" where
  "refresh_endpoint env allowed q a =
     (case require_cookie_origin allowed (wr_origin q) (wr_referer q) of
        Inl e \<Rightarrow> (Inl e, a)
      | Inr _ \<Rightarrow> (case wr_refresh_cookie q of None \<Rightarrow> (Inl Invalid_Session_Error, a) | Some t \<Rightarrow> refresh env t a))"

definition with_current_principal ::
  "account_env \<Rightarrow> string \<Rightarrow> web_request \<Rightarrow> (uuid \<Rightarrow> uuid \<Rightarrow> accounts \<Rightarrow> unit account_outcome) \<Rightarrow> accounts \<Rightarrow> unit account_outcome" where
  "with_current_principal env allowed q service a =
     (case current_principal env (wr_authorization q) a of
        Inl e \<Rightarrow> (Inl e, a)
      | Inr (u, claims) \<Rightarrow>
          (case require_cookie_origin allowed (wr_origin q) (wr_referer q) of
             Inl e \<Rightarrow> (Inl e, a)
           | Inr _ \<Rightarrow> service (us_id u) (cl_session claims) a))"

definition logout_endpoint :: "account_env \<Rightarrow> string \<Rightarrow> web_request \<Rightarrow> accounts \<Rightarrow> unit account_outcome" where
  "logout_endpoint env allowed q = with_current_principal env allowed q (\<lambda>u s. logout env u s)"

definition logout_all_endpoint :: "account_env \<Rightarrow> string \<Rightarrow> web_request \<Rightarrow> accounts \<Rightarrow> unit account_outcome" where
  "logout_all_endpoint env allowed q = with_current_principal env allowed q (\<lambda>u s. logout_all env ''auth.logout_all'' u)"

definition change_password_endpoint ::
  "account_env \<Rightarrow> string \<Rightarrow> string \<Rightarrow> string \<Rightarrow> web_request \<Rightarrow> accounts \<Rightarrow> unit account_outcome" where
  "change_password_endpoint env allowed current new q =
     with_current_principal env allowed q (\<lambda>u s. change_password env current new u)"

definition with_permission ::
  "account_env \<Rightarrow> string \<Rightarrow> (string \<times> string) option \<Rightarrow> (uuid \<Rightarrow> accounts \<Rightarrow> 'a account_outcome) \<Rightarrow> accounts \<Rightarrow> 'a account_outcome" where
  "with_permission env required authorization service a =
     (case require_permissions env [required] authorization a of
        Inl e \<Rightarrow> (Inl e, a) | Inr (actor, _) \<Rightarrow> service (us_id actor) a)"

definition create_user_endpoint ::
  "account_env \<Rightarrow> string \<Rightarrow> string option \<Rightarrow> string \<Rightarrow> (string \<times> string) option \<Rightarrow> accounts \<Rightarrow> user_row account_outcome" where
  "create_user_endpoint env username email password authorization =
     with_permission env ''users.create'' authorization (create_user env username email password)"

definition update_user_endpoint ::
  "account_env \<Rightarrow> uuid \<Rightarrow> bool \<Rightarrow> (string \<times> string) option \<Rightarrow> accounts \<Rightarrow> unit account_outcome" where
  "update_user_endpoint env user_id is_active authorization =
     with_permission env ''users.update'' authorization
       (\<lambda>actor a. if is_active then (Inl Conflict_Error, a) else disable_user env actor user_id a)"

definition assign_role_endpoint ::
  "account_env \<Rightarrow> uuid \<Rightarrow> string \<Rightarrow> (string \<times> string) option \<Rightarrow> accounts \<Rightarrow> unit account_outcome" where
  "assign_role_endpoint env user_id role_key authorization =
     with_permission env ''users.roles_manage'' authorization (assign_role env user_id role_key)"

definition remove_role_endpoint ::
  "account_env \<Rightarrow> uuid \<Rightarrow> string \<Rightarrow> (string \<times> string) option \<Rightarrow> accounts \<Rightarrow> unit account_outcome" where
  "remove_role_endpoint env user_id role_key authorization =
     with_permission env ''users.roles_manage'' authorization (remove_role env user_id role_key)"

definition revoke_sessions_endpoint ::
  "account_env \<Rightarrow> uuid \<Rightarrow> (string \<times> string) option \<Rightarrow> accounts \<Rightarrow> unit account_outcome" where
  "revoke_sessions_endpoint env user_id authorization =
     with_permission env ''sessions.revoke'' authorization (\<lambda>actor. revoke_sessions env actor user_id)"

section \<open>Steps\<close>

inductive acc_step :: "accounts \<Rightarrow> accounts \<Rightarrow> bool" where
  Login: "login env name pw idf ipf md a = (r, a') \<Longrightarrow> acc_step a a'"
| Refresh: "refresh_endpoint env allowed q a = (r, a') \<Longrightarrow> acc_step a a'"
| Logout: "logout_endpoint env allowed q a = (r, a') \<Longrightarrow> acc_step a a'"
| Logout_All: "logout_all_endpoint env allowed q a = (r, a') \<Longrightarrow> acc_step a a'"
| Change_Password: "change_password_endpoint env allowed current new q a = (r, a') \<Longrightarrow> acc_step a a'"
| Create_User: "create_user_endpoint env name email pw auth a = (r, a') \<Longrightarrow> acc_step a a'"
| Update_User: "update_user_endpoint env u act auth a = (r, a') \<Longrightarrow> acc_step a a'"
| Assign_Role: "assign_role_endpoint env u k auth a = (r, a') \<Longrightarrow> acc_step a a'"
| Remove_Role: "remove_role_endpoint env u k auth a = (r, a') \<Longrightarrow> acc_step a a'"
| Revoke_Sessions: "revoke_sessions_endpoint env u auth a = (r, a') \<Longrightarrow> acc_step a a'"
| Bootstrap: "bootstrap_administrator env name pw a = (r, a') \<Longrightarrow> acc_step a a'"
| Seed: "seed_rbac env uid a = (r, a') \<Longrightarrow> acc_step a a'"

definition acc_reachable :: "accounts \<Rightarrow> bool" where
  "acc_reachable a \<longleftrightarrow> acc_step\<^sup>*\<^sup>* empty_accounts a"

text \<open>A step is one operation of a service or nothing.\<close>

lemma with_current_principal_cases:
  "with_current_principal env allowed q service a = (r, a') \<Longrightarrow> a' = a \<or> (\<exists>u s. service u s a = (r, a'))"
  by (auto simp: with_current_principal_def split: sum.splits prod.splits)

lemma with_permission_cases:
  "with_permission env required auth service a = (r, a') \<Longrightarrow> a' = a \<or> (\<exists>u. service u a = (r, a'))"
  by (auto simp: with_permission_def split: sum.splits prod.splits)

lemma acc_step_cases:
  assumes "acc_step a a'"
  obtains (Same) "a' = a"
  | (Login) env name pw idf ipf md r where "login env name pw idf ipf md a = (r, a')"
  | (Refresh) env t r where "refresh env t a = (r, a')"
  | (Logout) env u s r where "logout env u s a = (r, a')"
  | (Logout_All) env act u r where "logout_all env act u a = (r, a')"
  | (Change_Password) env current new u r where "change_password env current new u a = (r, a')"
  | (Create_User) env name email pw actor r where "create_user env name email pw actor a = (r, a')"
  | (Disable_User) env actor u r where "disable_user env actor u a = (r, a')"
  | (Assign_Role) env u k actor r where "assign_role env u k actor a = (r, a')"
  | (Remove_Role) env u k actor r where "remove_role env u k actor a = (r, a')"
  | (Revoke_Sessions) env actor u r where "revoke_sessions env actor u a = (r, a')"
  | (Bootstrap) env name pw r where "bootstrap_administrator env name pw a = (r, a')"
  | (Seed) env uid r where "seed_rbac env uid a = (r, a')"
  using assms
proof cases
  case (Refresh env allowed q r)
  then show ?thesis using Same Refresh that(3)
    by (auto simp: refresh_endpoint_def split: sum.splits option.splits)
next
  case (Logout env allowed q r)
  then show ?thesis using with_current_principal_cases Same that(4) unfolding logout_endpoint_def by blast
next
  case (Logout_All env allowed q r)
  then show ?thesis using with_current_principal_cases Same that(5) unfolding logout_all_endpoint_def by blast
next
  case (Change_Password env allowed current new q r)
  then show ?thesis using with_current_principal_cases Same that(6) unfolding change_password_endpoint_def by blast
next
  case (Create_User env name email pw auth r)
  then show ?thesis using with_permission_cases Same that(7) unfolding create_user_endpoint_def by blast
next
  case (Update_User env u act auth r)
  from with_permission_cases [OF this [unfolded update_user_endpoint_def]] show ?thesis
    using Same that(8) by (auto split: if_splits)
next
  case (Assign_Role env u k auth r)
  then show ?thesis using with_permission_cases Same that(9) unfolding assign_role_endpoint_def by blast
next
  case (Remove_Role env u k auth r)
  then show ?thesis using with_permission_cases Same that(10) unfolding remove_role_endpoint_def by blast
next
  case (Revoke_Sessions env u auth r)
  then show ?thesis using with_permission_cases Same that(11) unfolding revoke_sessions_endpoint_def by blast
qed (use that in blast)+

end
