(* ===== verification/Accounts_Order.thy ===== *)
theory Accounts_Order
  imports Accounts_Reach
begin

text \<open>
  What every operation keeps: users, sessions and refresh tokens do not disappear, a revoked session
  stays revoked and a consumed refresh token stays consumed.
\<close>

section \<open>Tables that are kept\<close>

definition kept :: "('r \<Rightarrow> 'k) \<Rightarrow> ('r \<Rightarrow> 'r \<Rightarrow> bool) \<Rightarrow> 'r list \<Rightarrow> 'r list \<Rightarrow> bool" where
  "kept key R rows rows' \<longleftrightarrow>
     (\<forall>k r. find (\<lambda>x. key x = k) rows = Some r \<longrightarrow> (\<exists>r'. find (\<lambda>x. key x = k) rows' = Some r' \<and> R r r'))"

lemma kept_refl: "(\<And>r. R r r) \<Longrightarrow> kept key R rows rows"
  by (simp add: kept_def)

lemma kept_trans: "kept key R a b \<Longrightarrow> kept key R b c \<Longrightarrow> (\<And>x y z. R x y \<Longrightarrow> R y z \<Longrightarrow> R x z) \<Longrightarrow> kept key R a c"
proof (unfold kept_def, intro allI impI)
  fix k r
  assume ab: "\<forall>k r. find (\<lambda>x. key x = k) a = Some r \<longrightarrow> (\<exists>r'. find (\<lambda>x. key x = k) b = Some r' \<and> R r r')"
    and bc: "\<forall>k r. find (\<lambda>x. key x = k) b = Some r \<longrightarrow> (\<exists>r'. find (\<lambda>x. key x = k) c = Some r' \<and> R r r')"
    and trans: "\<And>x y z. R x y \<Longrightarrow> R y z \<Longrightarrow> R x z" and r: "find (\<lambda>x. key x = k) a = Some r"
  from ab r obtain r1 where r1: "find (\<lambda>x. key x = k) b = Some r1" "R r r1" by blast
  with bc obtain r2 where "find (\<lambda>x. key x = k) c = Some r2" "R r1 r2" by blast
  with r1(2) trans show "\<exists>r'. find (\<lambda>x. key x = k) c = Some r' \<and> R r r'" by blast
qed

lemma kept_append: "kept key R rows rows' \<Longrightarrow> kept key R rows (rows' @ extra)"
  unfolding kept_def by (fastforce simp: find_append)

lemma kept_upd_where:
  assumes "\<And>r. key (f r) = key r" and "\<And>r. P r \<Longrightarrow> R r (f r)" and "\<And>r. R r r"
  shows "kept key R rows (upd_where P f rows)"
  using assms(2,3) by (auto simp: kept_def find_key_upd_where [of key f, OF assms(1)])

section \<open>The order of the account tables\<close>

definition session_le :: "session_row \<Rightarrow> session_row \<Rightarrow> bool" where
  "session_le s s' \<longleftrightarrow> ss_user s' = ss_user s \<and> (ss_revoked_at s \<noteq> None \<longrightarrow> ss_revoked_at s' \<noteq> None)"

definition refresh_le :: "refresh_row \<Rightarrow> refresh_row \<Rightarrow> bool" where
  "refresh_le t t' \<longleftrightarrow> rt_session t' = rt_session t \<and> (rt_consumed_at t \<noteq> None \<longrightarrow> rt_consumed_at t' \<noteq> None)"

definition acc_le :: "accounts \<Rightarrow> accounts \<Rightarrow> bool" where
  "acc_le a a' \<longleftrightarrow> kept us_id (\<lambda>u u'. True) (c_users a) (c_users a') \<and> kept ss_id session_le (c_sessions a) (c_sessions a')
     \<and> kept rt_digest refresh_le (c_refresh a) (c_refresh a')"

lemma acc_le_refl [simp]: "acc_le a a"
  by (auto simp: acc_le_def session_le_def refresh_le_def intro!: kept_refl)

lemma acc_le_trans: "acc_le a b \<Longrightarrow> acc_le b c \<Longrightarrow> acc_le a c"
  unfolding acc_le_def
  by (elim conjE, intro conjI; erule (1) kept_trans) (auto simp: session_le_def refresh_le_def)

lemma acc_leI:
  assumes "kept us_id (\<lambda>u u'. True) (c_users a) (c_users a')" and "kept ss_id session_le (c_sessions a) (c_sessions a')"
    and "kept rt_digest refresh_le (c_refresh a) (c_refresh a')"
  shows "acc_le a a'"
  using assms by (simp add: acc_le_def)

lemma users_kept: "kept us_id (\<lambda>u u'. True) rows rows"
  by (rule kept_refl) simp

lemma sessions_kept: "kept ss_id session_le rows rows"
  by (rule kept_refl) (simp add: session_le_def)

lemma tokens_kept: "kept rt_digest refresh_le rows rows"
  by (rule kept_refl) (simp add: refresh_le_def)

lemmas tables_kept = users_kept sessions_kept tokens_kept kept_append [OF users_kept] kept_append [OF sessions_kept]
  kept_append [OF tokens_kept]

lemma acc_le_audit [simp]:
  "acc_le a (account_audit n t i act rt ri out m b) = acc_le a b" "acc_le (account_audit n t i act rt ri out m b) a = acc_le b a"
  by (simp_all add: acc_le_def)

lemma acc_le_revoke_family: "acc_le a (revoke_family sid now why a)"
  by (intro acc_leI)
    (auto simp: revoke_family_def or_else_def session_le_def refresh_le_def tables_kept intro!: kept_upd_where split: option.splits)

lemma acc_le_revoke_user_sessions: "acc_le a (revoke_user_sessions uid now why a)"
  by (intro acc_leI) (auto simp: revoke_user_sessions_def session_le_def tables_kept intro!: kept_upd_where)

lemma acc_le_replace_refresh: "replace_refresh env r s u a = (x, a') \<Longrightarrow> acc_le a a'"
  by (auto simp: replace_refresh_def Let_def session_le_def refresh_le_def tables_kept
      intro!: acc_leI kept_append kept_upd_where split: if_splits)

lemma acc_le_login: "login env name pw idf ipf md a = (x, a') \<Longrightarrow> acc_le a a'"
  by (auto simp: login_def login_failure_def open_session_def Let_def tables_kept
      intro!: acc_leI kept_upd_where split: if_splits option.splits prod.splits)

lemma acc_le_refresh: "refresh env token a = (x, a') \<Longrightarrow> acc_le a a'"
  by (auto simp: refresh_def acc_le_revoke_family intro: acc_le_replace_refresh split: option.splits if_splits)

lemma acc_le_logout: "logout env u s a = (x, a') \<Longrightarrow> acc_le a a'"
  by (auto simp: logout_def acc_le_revoke_family split: option.splits if_splits)

lemma acc_le_logout_all: "logout_all env act u a = (x, a') \<Longrightarrow> acc_le a a'"
  by (auto simp: logout_all_def acc_le_revoke_user_sessions split: option.splits)

lemma acc_le_users: "kept us_id (\<lambda>u u'. True) (c_users a) users \<Longrightarrow> acc_le a (a\<lparr>c_users := users\<rparr>)"
  by (intro acc_leI) (simp_all add: tables_kept)

lemma change_password_result:
  assumes "change_password env current new u a = (x, a')"
  shows "a' = a \<or> (\<exists>h. logout_all env ''auth.password_change'' u
    (a\<lparr>c_users := upd_where (\<lambda>x. us_id x = u) (\<lambda>x. x\<lparr>us_password_hash := h, us_must_change_password := False\<rparr>) (c_users a)\<rparr>) = (x, a'))"
  using assms by (auto simp: change_password_def Let_def split: option.splits sum.splits if_splits)

lemma acc_le_change_password:
  assumes "change_password env current new u a = (x, a')"
  shows "acc_le a a'"
  using change_password_result [OF assms]
proof (elim disjE exE)
  fix h
  let ?users = "upd_where (\<lambda>x. us_id x = u) (\<lambda>x. x\<lparr>us_password_hash := h, us_must_change_password := False\<rparr>) (c_users a)"
  assume "logout_all env ''auth.password_change'' u (a\<lparr>c_users := ?users\<rparr>) = (x, a')"
  then have "acc_le (a\<lparr>c_users := ?users\<rparr>) a'" by (rule acc_le_logout_all)
  moreover have "acc_le a (a\<lparr>c_users := ?users\<rparr>)" by (intro acc_le_users kept_upd_where) simp_all
  ultimately show ?thesis by (rule acc_le_trans [rotated])
qed simp

lemma disable_user_result:
  assumes "disable_user env actor u a = (x, a')"
  shows "a' = a \<or> (\<not> (is_administrator a u \<and> active_administrator_count a \<le> 1) \<and>
    (\<exists>b :: accounts. b = revoke_user_sessions u (ce_now env) ''user_disabled'' a \<and>
      a' = user_audit env actor ''user.disable'' u []
        (b\<lparr>c_users := upd_where (\<lambda>x. us_id x = u) (\<lambda>x. x\<lparr>us_is_active := False, us_disabled_at := Some (ce_now env)\<rparr>) (c_users b)\<rparr>)))"
  using assms by (simp add: disable_user_def Let_def split: option.splits if_splits)

lemma acc_le_disable_user:
  assumes "disable_user env actor u a = (x, a')"
  shows "acc_le a a'"
  using disable_user_result [OF assms]
proof (elim disjE exE conjE)
  fix b :: accounts
  let ?b = "b\<lparr>c_users := upd_where (\<lambda>x. us_id x = u) (\<lambda>x. x\<lparr>us_is_active := False, us_disabled_at := Some (ce_now env)\<rparr>) (c_users b)\<rparr>"
  assume b: "b = revoke_user_sessions u (ce_now env) ''user_disabled'' a" and a': "a' = user_audit env actor ''user.disable'' u [] ?b"
  have "acc_le a b" unfolding b by (rule acc_le_revoke_user_sessions)
  moreover have "acc_le b ?b" by (intro acc_le_users kept_upd_where) simp_all
  ultimately show ?thesis unfolding a' user_audit_def acc_le_audit by (rule acc_le_trans)
qed simp

lemma acc_le_admin:
  "create_user env name email pw actor a = (x, a') \<Longrightarrow> acc_le a a'"
  "assign_role env u k actor a = (y, a') \<Longrightarrow> acc_le a a'"
  "remove_role env u k actor a = (y, a') \<Longrightarrow> acc_le a a'"
  "bootstrap_administrator env name pw a = (z, a') \<Longrightarrow> acc_le a a'"
  by (auto simp: create_user_def assign_role_def remove_role_def bootstrap_administrator_def user_audit_def
      Let_def tables_kept intro!: acc_leI split: if_splits option.splits sum.splits)

lemma acc_le_revoke_sessions: "revoke_sessions env actor u a = (x, a') \<Longrightarrow> acc_le a a'"
  by (auto simp: revoke_sessions_def user_audit_def acc_le_revoke_user_sessions split: option.splits)

section \<open>Seeds touch no user, session or token\<close>

definition same_people :: "accounts \<Rightarrow> accounts \<Rightarrow> bool" where
  "same_people a a' \<longleftrightarrow> c_users a' = c_users a \<and> c_sessions a' = c_sessions a \<and> c_refresh a' = c_refresh a
     \<and> c_user_roles a' = c_user_roles a"

lemma fold_invariant: "P w \<Longrightarrow> (\<And>x w. x \<in> set xs \<Longrightarrow> P w \<Longrightarrow> P (f x w)) \<Longrightarrow> P (fold f xs w)"
  by (induction xs arbitrary: w) auto

lemma seeded_people: "same_people (fst w) (fst (seeded uid w))"
proof -
  have "same_people (fst w) (fst (seed_permission uid x v))" if "same_people (fst w) (fst v)" for x v
    using that by (auto simp: seed_permission_def same_people_def split: prod.splits option.splits)
  moreover have "same_people (fst w) (fst (seed_role uid x v))" if "same_people (fst w) (fst v)" for x v
    using that by (auto simp: seed_role_def same_people_def split: prod.splits option.splits)
  moreover have "same_people (fst w) (fst (seed_role_permission x v))" if "same_people (fst w) (fst v)" for x v
    using that by (auto simp: seed_role_permission_def same_people_def split: prod.splits option.splits)
  moreover have "same_people (fst w) (fst (seed_capability x v))" if "same_people (fst w) (fst v)" for x v
    using that by (auto simp: seed_capability_def same_people_def split: prod.splits)
  ultimately show ?thesis unfolding seeded_def
    by (intro fold_invariant [where P = "\<lambda>v. same_people (fst w) (fst v)"]) (simp_all add: same_people_def)
qed

lemma seed_rbac_result:
  assumes "seed_rbac env uid a = (r, a')"
  shows "a' = a \<or> (\<exists>b cr up n. seeded uid (a, 0, 0) = (b, cr, up) \<and> distinct (map pe_id (c_permissions b)) \<and> distinct (map rl_id (c_roles b))
     \<and> r = Inr (cr, up)
     \<and> a' = account_audit n ''system'' None ''rbac.seed'' ''rbac'' None ''success''
         [(''created_count'', JInt cr), (''updated_count'', JInt up)] b)"
  using assms by (auto simp: seed_rbac_def split: prod.splits if_splits)

lemma acc_le_seed:
  assumes "seed_rbac env uid a = (r, a')"
  shows "acc_le a a'"
  using seed_rbac_result [OF assms] seeded_people [of "(a, 0, 0)" uid]
  by (auto simp: same_people_def tables_kept intro!: acc_leI)

lemma acc_le_step: "acc_step a a' \<Longrightarrow> acc_le a a'"
  by (erule acc_step_cases)
    (simp_all add: acc_le_login acc_le_refresh acc_le_logout acc_le_logout_all acc_le_change_password acc_le_disable_user
      acc_le_admin acc_le_revoke_sessions acc_le_seed)

lemma acc_le_steps: "acc_step\<^sup>*\<^sup>* a a' \<Longrightarrow> acc_le a a'"
  by (induction rule: rtranclp_induct) (simp, blast intro: acc_le_trans acc_le_step)

end
