(* ===== verification/Accounts_Demo.thy ===== *)
theory Accounts_Demo
  imports Accounts_Reach
begin

text \<open>A concrete run of the account services: the seeds, the first administrator, a login and a refresh.\<close>

definition demo_account_env :: "string \<Rightarrow> instant \<Rightarrow> account_env" where
  "demo_account_env n now = \<lparr>ce_now = now, ce_fresh = (\<lambda>kind. kind @ n), ce_argon_hash = (\<lambda>pw. ''h:'' @ pw),
     ce_argon_verify = (\<lambda>pw h. h = ''h:'' @ pw), ce_needs_rehash = (\<lambda>h. False), ce_sha256 = (\<lambda>s. s),
     ce_token_urlsafe = ''secret'' @ n, ce_jwt_encode = (\<lambda>header payload. ''jwt''),
     ce_jwt_header = (\<lambda>t. None), ce_jwt_decode = (\<lambda>t. None), ce_parse_uuid = Some,
     ce_issuer = ''iss'', ce_audience = ''aud'', ce_access_minutes = 15, ce_absolute_days = 30, ce_inactivity_days = 7\<rparr>"

definition demo_seeded :: accounts where
  "demo_seeded = snd (seed_rbac (demo_account_env ''0'' 0) (\<lambda>s. s) empty_accounts)"

definition demo_bootstrapped :: accounts where
  "demo_bootstrapped = snd (bootstrap_administrator (demo_account_env ''1'' 10) ''Admin '' ''correct horse battery'' demo_seeded)"

definition demo_one_user :: accounts where
  "demo_one_user = empty_accounts\<lparr>c_users := [\<lparr>us_id = ''u1'', us_username = ''alice'', us_email = None,
     us_password_hash = ''h:wonderland-1865'', us_is_active = True, us_must_change_password = False,
     us_auth_version = 1, us_disabled_at = None, us_last_login_at = None\<rparr>]\<rparr>"

definition demo_logged_in :: accounts where
  "demo_logged_in = snd (login (demo_account_env ''2'' 20) ''alice'' ''wonderland-1865'' ''f'' ''i'' [] demo_one_user)"

lemma demo_bootstrapped_reachable: "acc_reachable demo_bootstrapped"
proof -
  have "acc_step empty_accounts demo_seeded"
    unfolding demo_seeded_def by (rule acc_step.Seed) (rule surjective_pairing)
  moreover have "acc_step demo_seeded demo_bootstrapped"
    unfolding demo_bootstrapped_def by (rule acc_step.Bootstrap) (rule surjective_pairing)
  ultimately show ?thesis unfolding acc_reachable_def by (meson rtranclp.rtrancl_into_rtrancl rtranclp.rtrancl_refl)
qed

definition seeds_bootstrap :: "(int \<times> int) account_outcome \<Rightarrow> bool" where
  "seeds_bootstrap x \<longleftrightarrow> \<not> isl (fst x) \<and>
     active_administrator_count (snd (bootstrap_administrator (demo_account_env ''1'' 10) ''Admin '' ''correct horse battery'' (snd x))) = 1"

lemma demo_bootstraps: "seeds_bootstrap (seed_rbac (demo_account_env ''0'' 0) (\<lambda>s. s) empty_accounts)"
  by code_simp

lemma demo_seed_succeeds: "\<not> isl (fst (seed_rbac (demo_account_env ''0'' 0) (\<lambda>s. s) empty_accounts))"
  using demo_bootstraps by (simp add: seeds_bootstrap_def)

lemma demo_bootstrapped_count: "active_administrator_count demo_bootstrapped = 1"
  using demo_bootstraps by (simp add: seeds_bootstrap_def demo_bootstrapped_def demo_seeded_def)

lemma demo_refresh_succeeds: "\<not> isl (fst (refresh (demo_account_env ''3'' 30) ''secret2'' demo_logged_in))"
  by code_simp

lemma demo_password_changes:
  "\<not> isl (fst (change_password (demo_account_env ''4'' 40) ''wonderland-1865'' ''looking-glass-1871'' ''u1'' demo_logged_in))"
  by code_simp

lemma demo_session: "case session_by_id demo_logged_in ''session2'' of None \<Rightarrow> False | Some s \<Rightarrow> ss_user s = ''u1''"
  by code_simp

end
