(* ===== verification/Accounts_Properties.thy ===== *)
theory Accounts_Properties
  imports Accounts_Order Accounts_Demo
begin

text \<open>
  What the account services guarantee: refresh tokens are used once, the operations that end the
  sessions of a user end them for good, and the last active administrator stays.
\<close>

section \<open>Revoked sessions\<close>

definition session_dead :: "uuid \<Rightarrow> accounts \<Rightarrow> bool" where
  "session_dead sid a \<longleftrightarrow> (\<exists>s. session_by_id a sid = Some s \<and> ss_revoked_at s \<noteq> None)"

lemma session_dead_le: "session_dead sid a \<Longrightarrow> acc_le a a' \<Longrightarrow> session_dead sid a'"
  unfolding session_dead_def acc_le_def kept_def session_by_id_def session_le_def by metis

lemma dead_session_access:
  "session_dead (cl_session claims) a \<Longrightarrow> authenticate_access env claims a = Inl Invalid_Session_Error"
  by (auto simp: session_dead_def authenticate_access_def split: option.split)

lemma dead_session_refresh:
  assumes "session_dead (rt_session t) a" and "refresh_by_digest a (ce_sha256 env token) = Some t"
  shows "\<exists>e. fst (refresh env token a) = Inl e"
  using assms by (auto simp: session_dead_def refresh_def invalid_family_def split: option.split)

lemma token_kept:
  assumes "refresh_by_digest a dg = Some t" and "acc_le a a'"
  obtains t' where "refresh_by_digest a' dg = Some t'" "refresh_le t t'"
  using assms unfolding acc_le_def kept_def refresh_by_digest_def by metis

text \<open>The contract of an operation that ends all sessions of a user.\<close>

locale session_ender =
  fixes operation :: "accounts \<Rightarrow> (be_error + unit) \<times> accounts" and user :: uuid
  assumes order: "operation a = (Inr (), a') \<Longrightarrow> acc_le a a'"
    and ends: "operation a = (Inr (), a') \<Longrightarrow> s \<in> set (c_sessions a') \<Longrightarrow> ss_user s = user \<Longrightarrow> ss_revoked_at s \<noteq> None"
begin

lemma dead_for_good:
  assumes op: "operation a = (Inr (), a1)" and steps: "acc_step\<^sup>*\<^sup>* a1 a2"
    and s: "session_by_id a sid = Some s" "ss_user s = user"
  shows "session_dead sid a2"
proof -
  obtain s1 where s1: "session_by_id a1 sid = Some s1" "session_le s s1"
    using order [OF op] s(1) unfolding acc_le_def kept_def session_by_id_def by metis
  then have "s1 \<in> set (c_sessions a1)" by (auto simp: session_by_id_def dest: find_SomeD)
  with ends [OF op this] s1 s(2) have "session_dead sid a1" by (simp add: session_dead_def session_le_def)
  then show ?thesis by (rule session_dead_le [OF _ acc_le_steps [OF steps]])
qed

lemma ended_for_good:
  assumes op: "operation a = (Inr (), a1)" and steps: "acc_step\<^sup>*\<^sup>* a1 a2"
    and s: "session_by_id a sid = Some s" "ss_user s = user"
  shows "(\<forall>claims. cl_session claims = sid \<longrightarrow> authenticate_access env claims a2 = Inl Invalid_Session_Error)
    \<and> (\<forall>token t. refresh_by_digest a (ce_sha256 env token) = Some t \<longrightarrow> rt_session t = sid \<longrightarrow>
         (\<exists>e. fst (refresh env token a2) = Inl e))"
proof (intro conjI allI impI)
  have dead: "session_dead sid a2" by (rule dead_for_good [OF assms])
  then show "authenticate_access env claims a2 = Inl Invalid_Session_Error" if "cl_session claims = sid" for claims
    using dead_session_access that by blast
  fix token t
  assume t: "refresh_by_digest a (ce_sha256 env token) = Some t" "rt_session t = sid"
  have "acc_le a a2" using order [OF op] acc_le_steps [OF steps] acc_le_trans by blast
  then obtain t' where "refresh_by_digest a2 (ce_sha256 env token) = Some t'" "refresh_le t t'" by (rule token_kept [OF t(1)])
  moreover from this(2) have "session_dead (rt_session t') a2" using dead t(2) by (simp add: refresh_le_def)
  ultimately show "\<exists>e. fst (refresh env token a2) = Inl e" by (intro dead_session_refresh)
qed

end

lemma revoke_user_sessions_ends:
  assumes "s \<in> set (c_sessions (revoke_user_sessions u now why a))" and "ss_user s = u"
  shows "ss_revoked_at s \<noteq> None"
proof -
  define f where "f = (\<lambda>x :: session_row. if ss_user x = u \<and> ss_revoked_at x = None
      then x\<lparr>ss_revoked_at := Some now, ss_revocation_reason := Some why\<rparr> else x)"
  have "c_sessions (revoke_user_sessions u now why a) = map f (c_sessions a)"
    by (simp add: revoke_user_sessions_def upd_where_def f_def)
  with assms(1) obtain x where "s = f x" by auto
  with assms(2) show ?thesis by (simp add: f_def split: if_splits)
qed

lemma logout_all_ends:
  assumes "logout_all env act u a = (Inr (), a')"
  shows "\<exists>b. c_sessions a' = c_sessions (revoke_user_sessions u (ce_now env) act b)"
  using assms by (auto simp: logout_all_def split: option.splits)

interpretation logout_all: session_ender "logout_all env act u" u for env act u
proof
  show "logout_all env act u a = (Inr (), a') \<Longrightarrow> acc_le a a'" for a a' by (rule acc_le_logout_all)
next
  fix a a' s
  assume "logout_all env act u a = (Inr (), a')" "s \<in> set (c_sessions a')" "ss_user s = u"
  then show "ss_revoked_at s \<noteq> None" using logout_all_ends revoke_user_sessions_ends by metis
qed

interpretation change_password: session_ender "change_password env current new u" u for env current new u
proof
  show "change_password env current new u a = (Inr (), a') \<Longrightarrow> acc_le a a'" for a a' by (rule acc_le_change_password)
next
  fix a a' s
  assume op: "change_password env current new u a = (Inr (), a')" and s: "s \<in> set (c_sessions a')" "ss_user s = u"
  from op obtain b where "logout_all env ''auth.password_change'' u b = (Inr (), a')"
    by (auto simp: change_password_def Let_def split: option.splits sum.splits if_splits)
  then show "ss_revoked_at s \<noteq> None" using s by (rule logout_all.ends)
qed

interpretation disable_user: session_ender "disable_user env actor u" u for env actor u
proof
  show "disable_user env actor u a = (Inr (), a') \<Longrightarrow> acc_le a a'" for a a' by (rule acc_le_disable_user)
next
  fix a a' s
  assume "disable_user env actor u a = (Inr (), a')" and s: "s \<in> set (c_sessions a')" "ss_user s = u"
  then have "c_sessions a' = c_sessions (revoke_user_sessions u (ce_now env) ''user_disabled'' a)"
    by (auto simp: disable_user_def Let_def user_audit_def split: option.splits if_splits)
  with s show "ss_revoked_at s \<noteq> None" using revoke_user_sessions_ends by metis
qed

interpretation revoke_sessions: session_ender "revoke_sessions env actor u" u for env actor u
proof
  show "revoke_sessions env actor u a = (Inr (), a') \<Longrightarrow> acc_le a a'" for a a' by (rule acc_le_revoke_sessions)
next
  fix a a' s
  assume "revoke_sessions env actor u a = (Inr (), a')" and s: "s \<in> set (c_sessions a')" "ss_user s = u"
  then have "c_sessions a' = c_sessions (revoke_user_sessions u (ce_now env) ''administrator_revocation'' a)"
    by (auto simp: revoke_sessions_def user_audit_def split: option.splits)
  with s show "ss_revoked_at s \<noteq> None" using revoke_user_sessions_ends by metis
qed

text \<open>C27: a change of the password, a logout from everywhere, the disabling of the user and a revocation by an
  administrator end every session the user had: whatever happens afterwards, no access token of such a
  session is accepted and none of its refresh tokens gives a new one.\<close>

theorem ended_sessions_stay_ended:
  assumes "change_password env current new u a = (Inr (), a1) \<or> logout_all env act u a = (Inr (), a1)
      \<or> disable_user env actor u a = (Inr (), a1) \<or> revoke_sessions env actor u a = (Inr (), a1)"
    and "acc_step\<^sup>*\<^sup>* a1 a2" and "session_by_id a sid = Some s" "ss_user s = u"
  shows "(\<forall>claims. cl_session claims = sid \<longrightarrow> authenticate_access env' claims a2 = Inl Invalid_Session_Error)
    \<and> (\<forall>token t. refresh_by_digest a (ce_sha256 env' token) = Some t \<longrightarrow> rt_session t = sid \<longrightarrow>
         (\<exists>e. fst (refresh env' token a2) = Inl e))"
  using assms(1)
proof (elim disjE)
  assume "change_password env current new u a = (Inr (), a1)"
  then show ?thesis using assms(2-4) by (rule change_password.ended_for_good)
next
  assume "logout_all env act u a = (Inr (), a1)"
  then show ?thesis using assms(2-4) by (rule logout_all.ended_for_good)
next
  assume "disable_user env actor u a = (Inr (), a1)"
  then show ?thesis using assms(2-4) by (rule disable_user.ended_for_good)
next
  assume "revoke_sessions env actor u a = (Inr (), a1)"
  then show ?thesis using assms(2-4) by (rule revoke_sessions.ended_for_good)
qed

lemma ended_sessions_stay_ended_witness:
  "\<exists>s a1. session_by_id demo_logged_in ''session2'' = Some s \<and> ss_user s = ''u1''
    \<and> change_password (demo_account_env ''4'' 40) ''wonderland-1865'' ''looking-glass-1871'' ''u1'' demo_logged_in = (Inr (), a1)
    \<and> (\<exists>e. fst (refresh (demo_account_env ''5'' 50) ''secret2'' a1) = Inl e)"
proof -
  obtain s where s: "session_by_id demo_logged_in ''session2'' = Some s" "ss_user s = ''u1''"
    using demo_session by (auto split: option.splits)
  obtain a1 where a1: "change_password (demo_account_env ''4'' 40) ''wonderland-1865'' ''looking-glass-1871'' ''u1'' demo_logged_in = (Inr (), a1)"
    using demo_password_changes
    by (cases "change_password (demo_account_env ''4'' 40) ''wonderland-1865'' ''looking-glass-1871'' ''u1'' demo_logged_in";
        cases "fst (change_password (demo_account_env ''4'' 40) ''wonderland-1865'' ''looking-glass-1871'' ''u1'' demo_logged_in)") auto
  have "case refresh_by_digest demo_logged_in (ce_sha256 (demo_account_env ''5'' 50) ''secret2'') of None \<Rightarrow> False | Some t \<Rightarrow> rt_session t = ''session2''"
    by code_simp
  then obtain t where "refresh_by_digest demo_logged_in (ce_sha256 (demo_account_env ''5'' 50) ''secret2'') = Some t" "rt_session t = ''session2''"
    by (auto split: option.splits)
  with ended_sessions_stay_ended [OF disjI1 [OF a1] rtranclp.rtrancl_refl s] s a1 show ?thesis by blast
qed

section \<open>Refresh tokens\<close>

lemma refresh_success:
  assumes "refresh env token a = (Inr x, a')"
  obtains r s u where "refresh_by_digest a (ce_sha256 env token) = Some r" "session_by_id a (rt_session r) = Some s"
    "user_by_id a (ss_user s) = Some u" "rt_consumed_at r = None" "rt_revoked_at r = None" "\<not> invalid_family env s u"
    "replace_refresh env r s u a = (Inr x, a')"
  using assms by (auto simp: refresh_def split: option.splits if_splits)

lemma replaced_is_consumed:
  assumes rep: "replace_refresh env r s u a = (Inr x, a')" and r: "refresh_by_digest a dg = Some r"
  shows "\<exists>r'. refresh_by_digest a' dg = Some r' \<and> rt_session r' = rt_session r \<and> rt_consumed_at r' \<noteq> None"
proof -
  define f where "f = (\<lambda>x :: refresh_row. x\<lparr>rt_consumed_at := Some (ce_now env), rt_replacement := Some (ce_fresh env ''refresh'')\<rparr>)"
  have keeps: "\<And>x. rt_digest (f x) = rt_digest x" by (simp add: f_def)
  from rep obtain t where rows: "c_refresh a' = upd_where (\<lambda>x. rt_id x = rt_id r) f (c_refresh a) @ [t]"
    by (auto simp: replace_refresh_def Let_def f_def new_refresh_def split: if_splits)
  have "find (\<lambda>x. rt_digest x = dg) (c_refresh a') = Some (f r)"
    using r by (simp add: rows find_append refresh_by_digest_def find_key_upd_where [of rt_digest f, OF keeps])
  then show ?thesis by (simp add: refresh_by_digest_def f_def)
qed

lemma consumed_token_ends_session:
  assumes "refresh_by_digest a (ce_sha256 env token) = Some r" and "rt_consumed_at r \<noteq> None"
    and "session_by_id a (rt_session r) = Some s" and "user_by_id a (ss_user s) = Some u"
  shows "\<exists>a'. refresh env token a = (Inl Invalid_Session_Error, a') \<and> session_dead (rt_session r) a'"
proof -
  define f where "f = (\<lambda>s :: session_row. s\<lparr>ss_revoked_at := or_else (ss_revoked_at s) (ce_now env),
    ss_revocation_reason := or_else (ss_revocation_reason s) ''refresh_reuse''\<rparr>)"
  have keeps: "\<And>s. ss_id (f s) = ss_id s" by (simp add: f_def)
  have "ss_id s = rt_session r" using assms(3) by (auto simp: session_by_id_def dest: find_SomeD)
  moreover have "find (\<lambda>x. ss_id x = rt_session r) (upd_where (\<lambda>x. ss_id x = rt_session r) f (c_sessions a)) = Some (f s)"
    using assms(3) calculation by (simp add: session_by_id_def find_key_upd_where [of ss_id f, OF keeps])
  ultimately show ?thesis
    using assms by (auto simp: refresh_def session_dead_def session_by_id_def revoke_family_def f_def or_else_def split: option.splits)
qed

text \<open>C26: a refresh token gives new tokens at most once: after its success, whatever happens in between, its
  next use is refused, and the session it belongs to is ended for good, for the thief as for the owner.\<close>

theorem refresh_token_is_single_use:
  assumes "refresh env token a = (Inr x, a1)" and "acc_step\<^sup>*\<^sup>* a1 a2" and "ce_sha256 env' = ce_sha256 env"
  shows "\<exists>r a3. refresh_by_digest a (ce_sha256 env token) = Some r \<and> refresh env' token a2 = (Inl Invalid_Session_Error, a3)
    \<and> (\<forall>a4 env'' claims. acc_step\<^sup>*\<^sup>* a3 a4 \<longrightarrow> cl_session claims = rt_session r \<longrightarrow>
         authenticate_access env'' claims a4 = Inl Invalid_Session_Error)"
proof (rule refresh_success [OF assms(1)])
  fix r s u
  assume r: "refresh_by_digest a (ce_sha256 env token) = Some r" and s: "session_by_id a (rt_session r) = Some s"
    and u: "user_by_id a (ss_user s) = Some u" and rep: "replace_refresh env r s u a = (Inr x, a1)"
  obtain r1 where r1: "refresh_by_digest a1 (ce_sha256 env token) = Some r1" "rt_session r1 = rt_session r" "rt_consumed_at r1 \<noteq> None"
    using replaced_is_consumed [OF rep r] by blast
  have le: "acc_le a1 a2" by (rule acc_le_steps [OF assms(2)])
  then obtain r2 where r2: "refresh_by_digest a2 (ce_sha256 env token) = Some r2" "refresh_le r1 r2" by (rule token_kept [OF r1(1)])
  have le2: "acc_le a a2" using acc_le_replace_refresh [OF rep] le by (rule acc_le_trans)
  obtain s2 where s2: "session_by_id a2 (rt_session r) = Some s2" "ss_user s2 = ss_user s"
    using le2 s unfolding acc_le_def kept_def session_by_id_def session_le_def by metis
  obtain u2 where u2: "user_by_id a2 (ss_user s) = Some u2"
    using le2 u unfolding acc_le_def kept_def user_by_id_def by metis
  have same: "rt_session r2 = rt_session r" "rt_consumed_at r2 \<noteq> None" using r1 r2(2) by (simp_all add: refresh_le_def)
  from consumed_token_ends_session [of a2 env' token r2 s2 u2] r2(1) same s2 u2 assms(3)
  obtain a3 where a3: "refresh env' token a2 = (Inl Invalid_Session_Error, a3)" "session_dead (rt_session r) a3" by auto
  have "authenticate_access env'' claims a4 = Inl Invalid_Session_Error"
    if "acc_step\<^sup>*\<^sup>* a3 a4" "cl_session claims = rt_session r" for a4 env'' claims
    using session_dead_le [OF a3(2) acc_le_steps [OF that(1)]] dead_session_access that(2) by metis
  with r a3(1) show ?thesis by blast
qed

lemma refresh_token_is_single_use_witness:
  "\<exists>x a1 a3. refresh (demo_account_env ''3'' 30) ''secret2'' demo_logged_in = (Inr x, a1)
    \<and> refresh (demo_account_env ''5'' 50) ''secret2'' a1 = (Inl Invalid_Session_Error, a3)"
proof -
  obtain x a1 where first: "refresh (demo_account_env ''3'' 30) ''secret2'' demo_logged_in = (Inr x, a1)"
    using demo_refresh_succeeds
    by (cases "refresh (demo_account_env ''3'' 30) ''secret2'' demo_logged_in";
        cases "fst (refresh (demo_account_env ''3'' 30) ''secret2'' demo_logged_in)") auto
  have "ce_sha256 (demo_account_env ''5'' 50) = ce_sha256 (demo_account_env ''3'' 30)" by (simp add: demo_account_env_def)
  from refresh_token_is_single_use [OF first rtranclp.rtrancl_refl this] first show ?thesis by blast
qed

end
