(* ===== verification/Accounts_Admin.thy ===== *)
theory Accounts_Admin
  imports Accounts_Properties
begin

text \<open>
  The administrators: in every reachable state the keys of the tables are unique, and once there is an
  active administrator no operation leaves the system without one.
\<close>

section \<open>Unique keys\<close>

definition keys_ok :: "accounts \<Rightarrow> bool" where
  "keys_ok a \<longleftrightarrow> distinct (map us_id (c_users a)) \<and> distinct (map rl_id (c_roles a)) \<and> distinct (map rl_key (c_roles a))
     \<and> user_roles_ok (c_user_roles a) \<and> set (map ur_user (c_user_roles a)) \<subseteq> set (map us_id (c_users a))"

lemma keys_ok_cong:
  assumes "map us_id (c_users a') = map us_id (c_users a)" and "c_roles a' = c_roles a" and "c_user_roles a' = c_user_roles a"
  shows "keys_ok a' = keys_ok a"
  by (simp only: keys_ok_def assms)

lemma keys_ok_audit [simp]: "keys_ok (account_audit n t i act rt ri out m a) = keys_ok a"
  by (rule keys_ok_cong) simp_all

lemma user_roles_ok_append:
  "user_roles_ok rows \<Longrightarrow> (ur_user x, ur_role x) \<notin> (\<lambda>r. (ur_user r, ur_role r)) ` set rows \<Longrightarrow> user_roles_ok (rows @ [x])"
  by (auto simp: user_roles_ok_def)

lemma roles_seeded:
  assumes "distinct (map rl_key (c_roles (fst w)))"
  shows "distinct (map rl_key (c_roles (fst (seeded uid w))))
    \<and> (\<forall>r \<in> set (c_roles (fst w)). \<exists>r' \<in> set (c_roles (fst (seeded uid w))). rl_id r' = rl_id r \<and> rl_key r' = rl_key r)"
proof -
  define P where "P v \<longleftrightarrow> distinct (map rl_key (c_roles (fst v)))
      \<and> (\<forall>r \<in> set (c_roles (fst w)). \<exists>r' \<in> set (c_roles (fst v)). rl_id r' = rl_id r \<and> rl_key r' = rl_key r)" for v :: seeding
  have start: "P w" using assms by (auto simp: P_def)
  have perm: "P (seed_permission uid x v)" if "P v" for x v
    using that by (auto simp: P_def seed_permission_def split: prod.splits option.splits)
  have rp: "P (seed_role_permission x v)" if "P v" for x v
    using that by (auto simp: P_def seed_role_permission_def split: prod.splits option.splits)
  have cap: "P (seed_capability x v)" if "P v" for x v
    using that by (auto simp: P_def seed_capability_def split: prod.splits)
  have role: "P (seed_role uid x v)" if v: "P v" for x v
  proof -
    obtain key name desc b cr up where x: "x = (key, name, desc)" and b: "v = (b, cr, up)" by (cases x, cases v) auto
    show ?thesis
    proof (cases "role_by_key b key")
      case None
      then have "key \<notin> rl_key ` set (c_roles b)" by (simp add: role_by_key_def find_key_None)
      with None v show ?thesis by (auto simp: P_def seed_role_def x b)
    next
      case (Some r)
      define f where "f = (\<lambda>r :: role_row. r\<lparr>rl_display_name := name, rl_description := desc\<rparr>)"
      have keeps: "\<And>r. rl_key (f r) = rl_key r" "\<And>r. rl_id (f r) = rl_id r" by (simp_all add: f_def)
      have "\<exists>r' \<in> set (upd_where (\<lambda>r. rl_key r = key) f (c_roles b)). rl_id r' = rl_id r0 \<and> rl_key r' = rl_key r0"
        if "r0 \<in> set (c_roles (fst w))" for r0
      proof -
        from v that obtain r1 where "r1 \<in> set (c_roles b)" "rl_id r1 = rl_id r0" "rl_key r1 = rl_key r0" by (auto simp: P_def b)
        then show ?thesis
          using upd_where_mem [of r1 "c_roles b" "\<lambda>r. rl_key r = key" f] by (intro bexI) (auto simp: keeps)
      qed
      with v Some show ?thesis by (auto simp: P_def seed_role_def x b f_def [symmetric] keeps)
    qed
  qed
  have "P (seeded uid w)"
    unfolding seeded_def by (intro fold_invariant [where P = P] start perm role rp cap)
  then show ?thesis by (simp add: P_def)
qed

text \<open>The operations on sessions leave roles, identities and the activity of users alone.\<close>

definition people_kept :: "accounts \<Rightarrow> accounts \<Rightarrow> bool" where
  "people_kept a a' \<longleftrightarrow> c_roles a' = c_roles a \<and> c_user_roles a' = c_user_roles a
     \<and> map us_id (c_users a') = map us_id (c_users a) \<and> map us_is_active (c_users a') = map us_is_active (c_users a)"

lemma people_kept_refl [simp]: "people_kept a a"
  by (simp add: people_kept_def)

lemma people_kept_trans: "people_kept a b \<Longrightarrow> people_kept b c \<Longrightarrow> people_kept a c"
  by (simp add: people_kept_def)

lemma people_kept_audit [simp]: "people_kept a (account_audit n t i act rt ri out m b) = people_kept a b"
  by (simp add: people_kept_def)

lemma people_kept_users:
  assumes "\<And>x. us_id (f x) = us_id x" and "\<And>x. us_is_active (f x) = us_is_active x"
  shows "people_kept a (a\<lparr>c_users := upd_where P f (c_users a)\<rparr>)"
  using map_key_upd_where [of us_id f, OF assms(1)] map_key_upd_where [of us_is_active f, OF assms(2)]
  by (simp add: people_kept_def)

lemma people_kept_family [simp]: "people_kept a (revoke_family sid now why a)"
  by (simp add: people_kept_def revoke_family_def)

lemma people_kept_user_sessions [simp]: "people_kept a (revoke_user_sessions u now why a)"
  by (simp add: people_kept_def revoke_user_sessions_def)

lemma people_kept_logout_all: "logout_all env act u a = (r, a') \<Longrightarrow> people_kept a a'"
  by (auto simp: logout_all_def split: option.splits)

lemma people_kept_session_operations:
  "login env name pw idf ipf md a = (r, a') \<Longrightarrow> people_kept a a'"
  "replace_refresh env t s x a = (r, a') \<Longrightarrow> people_kept a a'"
  by (auto simp: login_def login_failure_def open_session_def replace_refresh_def Let_def people_kept_def
      split: option.splits if_splits prod.splits)

lemma people_kept_other:
  "refresh env token a = (r, a') \<Longrightarrow> people_kept a a'"
  "logout env u sid a = (q, a') \<Longrightarrow> people_kept a a'"
  "revoke_sessions env actor u a = (q, a') \<Longrightarrow> people_kept a a'"
  by (auto simp: refresh_def logout_def revoke_sessions_def user_audit_def intro: people_kept_session_operations(2)
      split: option.splits if_splits)

lemma people_kept_change_password:
  assumes "change_password env current new u a = (r, a')"
  shows "people_kept a a'"
  using change_password_result [OF assms]
proof (elim disjE exE)
  fix h
  let ?b = "a\<lparr>c_users := upd_where (\<lambda>x. us_id x = u)
    (\<lambda>x. x\<lparr>us_password_hash := h, us_must_change_password := False\<rparr>) (c_users a)\<rparr>"
  assume "logout_all env ''auth.password_change'' u ?b = (r, a')"
  then have "people_kept ?b a'" by (rule people_kept_logout_all)
  moreover have "people_kept a ?b" by (rule people_kept_users) simp_all
  ultimately show ?thesis using people_kept_trans by blast
qed simp

lemmas people_kept_operations = people_kept_session_operations(1) people_kept_other people_kept_logout_all people_kept_change_password

lemma keys_ok_people: "people_kept a a' \<Longrightarrow> keys_ok a \<Longrightarrow> keys_ok a'"
  using keys_ok_cong [of a' a] by (simp add: people_kept_def)

lemma create_user_result:
  assumes "create_user env name email pw actor a = (r, a')"
  shows "a' = a \<or> (\<exists>u i. users_ok (c_users a @ [u]) \<and> a' = user_audit env actor ''user.create'' i [] (a\<lparr>c_users := c_users a @ [u]\<rparr>))"
  using assms by (simp add: create_user_def Let_def split: if_splits sum.splits) blast+

lemma bootstrap_result:
  assumes "bootstrap_administrator env name pw a = (r, a')"
  shows "a' = a \<or> (\<exists>i md. a' = account_audit (ce_now env) ''system'' None ''admin.bootstrap'' ''user'' i ''success'' md a)
    \<or> (\<exists>u rl i md. users_ok (c_users a @ [u]) \<and> rl \<in> set (c_roles a) \<and> rl_key rl = ''administrator'' \<and> us_is_active u \<and>
        a' = account_audit (ce_now env) ''system'' None ''admin.bootstrap'' ''user'' i ''success'' md
          (a\<lparr>c_users := c_users a @ [u],
             c_user_roles := c_user_roles a @ [\<lparr>ur_user = us_id u, ur_role = rl_id rl, ur_assigned_by = None\<rparr>]\<rparr>))"
proof (cases "a' = a")
  case False
  with assms obtain rl where rl: "role_by_key a ''administrator'' = Some rl"
    by (auto simp: bootstrap_administrator_def Let_def split: option.splits)
  then have "rl \<in> set (c_roles a) \<and> rl_key rl = ''administrator''" using find_SomeD by (fastforce simp: role_by_key_def)
  moreover have "us_is_active (new_user env n e h)" for n e h by (simp add: new_user_def)
  ultimately show ?thesis using assms rl
    by (simp add: bootstrap_administrator_def Let_def split: option.splits if_splits sum.splits) blast+
qed simp

lemma keys_ok_new_user:
  assumes "keys_ok a" and "users_ok (c_users a @ [u])"
  shows "keys_ok (a\<lparr>c_users := c_users a @ [u]\<rparr>)"
    "keys_ok (a\<lparr>c_users := c_users a @ [u], c_user_roles := c_user_roles a @ [\<lparr>ur_user = us_id u, ur_role = i, ur_assigned_by = x\<rparr>]\<rparr>)"
proof -
  have new: "us_id u \<notin> set (map us_id (c_users a))" and dist: "distinct (map us_id (c_users a @ [u]))"
    using assms(2) by (simp_all add: users_ok_def)
  have sub: "set (map ur_user (c_user_roles a)) \<subseteq> set (map us_id (c_users a @ [u]))" using assms(1) by (auto simp: keys_ok_def)
  have "(us_id u, i) \<notin> (\<lambda>r. (ur_user r, ur_role r)) ` set (c_user_roles a)"
  proof
    assume "(us_id u, i) \<in> (\<lambda>r. (ur_user r, ur_role r)) ` set (c_user_roles a)"
    then have "us_id u \<in> set (map ur_user (c_user_roles a))" by force
    with new assms(1) show False by (auto simp: keys_ok_def)
  qed
  then show "keys_ok (a\<lparr>c_users := c_users a @ [u], c_user_roles := c_user_roles a @ [\<lparr>ur_user = us_id u, ur_role = i, ur_assigned_by = x\<rparr>]\<rparr>)"
    using assms(1) dist sub unfolding keys_ok_def by (simp add: user_roles_ok_append)
  show "keys_ok (a\<lparr>c_users := c_users a @ [u]\<rparr>)" using assms(1) dist sub unfolding keys_ok_def by simp
qed

lemma assign_role_result:
  assumes "assign_role env u k actor a = (r, a')"
  shows "a' = a \<or> (\<exists>(rl :: role_row) md. \<not> has_assignment a u (rl_id rl) \<and> u \<in> set (map us_id (c_users a)) \<and>
    a' = user_audit env actor ''user.role_assign'' u md
      (a\<lparr>c_user_roles := c_user_roles a @ [\<lparr>ur_user = u, ur_role = rl_id rl, ur_assigned_by = Some actor\<rparr>]\<rparr>))"
proof -
  have "u \<in> set (map us_id (c_users a))" if "user_by_id a u = Some x" for x
    using find_SomeD [OF that [unfolded user_by_id_def]] by auto
  then show ?thesis using assms by (auto simp: assign_role_def split: option.splits if_splits)
qed

lemma keys_ok_assign:
  assumes "keys_ok a" and "\<not> has_assignment a u i" and "u \<in> set (map us_id (c_users a))"
  shows "keys_ok (a\<lparr>c_user_roles := c_user_roles a @ [\<lparr>ur_user = u, ur_role = i, ur_assigned_by = x\<rparr>]\<rparr>)"
proof -
  have "(u, i) \<notin> (\<lambda>r. (ur_user r, ur_role r)) ` set (c_user_roles a)" using assms(2) by (auto simp: has_assignment_def)
  with assms(1,3) show ?thesis unfolding keys_ok_def by (simp add: user_roles_ok_append)
qed

lemma remove_role_result:
  assumes "remove_role env u k actor a = (r, a')"
  obtains (Same) "a' = a"
  | (Removed) x rl where "user_by_id a u = Some x" "role_by_key a k = Some rl"
    "\<not> (k = ''administrator'' \<and> us_is_active x \<and> active_administrator_count a \<le> 1)"
    "c_user_roles a' = filter (\<lambda>y. \<not> (ur_user y = u \<and> ur_role y = rl_id rl)) (c_user_roles a)"
    "c_users a' = c_users a" "c_roles a' = c_roles a"
  using assms by (simp add: remove_role_def Let_def user_audit_def split: option.splits if_splits) (fastforce+)?

lemma keys_ok_step:
  assumes "acc_step a a'" and ok: "keys_ok a"
  shows "keys_ok a'"
  using assms(1)
proof (cases rule: acc_step_cases)
  case (Create_User env name email pw actor r)
  from create_user_result [OF this] show ?thesis
    using ok keys_ok_new_user(1) by (auto simp: user_audit_def)
next
  case (Assign_Role env u k actor r)
  from assign_role_result [OF this] show ?thesis
  proof (elim disjE exE conjE)
    fix rl :: role_row and md
    assume "\<not> has_assignment a u (rl_id rl)" "u \<in> set (map us_id (c_users a))"
      and a': "a' = user_audit env actor ''user.role_assign'' u md
        (a\<lparr>c_user_roles := c_user_roles a @ [\<lparr>ur_user = u, ur_role = rl_id rl, ur_assigned_by = Some actor\<rparr>]\<rparr>)"
    then show ?thesis using keys_ok_assign [OF ok, of u "rl_id rl" "Some actor"] unfolding a' user_audit_def keys_ok_audit by blast
  qed (simp add: ok)
next
  case (Remove_Role env u k actor r)
  from this show ?thesis
  proof (cases rule: remove_role_result)
    case (Removed x rl)
    then show ?thesis using ok by (auto simp: keys_ok_def user_roles_ok_def distinct_map_filter)
  qed (simp add: ok)
next
  case (Bootstrap env name pw r)
  from bootstrap_result [OF this] show ?thesis
    using ok keys_ok_new_user(2) by (elim disjE exE conjE) simp_all
next
  case (Seed env uid r)
  from seed_rbac_result [OF Seed] show ?thesis
  proof (elim disjE exE conjE)
    fix b cr up n
    assume b: "seeded uid (a, 0, 0) = (b, cr, up)" "distinct (map rl_id (c_roles b))"
      and a': "a' = account_audit n ''system'' None ''rbac.seed'' ''rbac'' None ''success''
         [(''created_count'', JInt cr), (''updated_count'', JInt up)] b"
    have "distinct (map rl_key (c_roles b))" using roles_seeded [of "(a, 0, 0)" uid] ok b(1) by (simp add: keys_ok_def)
    with b(2) ok seeded_people [of "(a, 0, 0)" uid] show ?thesis by (simp add: a' keys_ok_def b(1) same_people_def)
  qed (simp add: ok)
next
  case (Disable_User env actor u r)
  from disable_user_result [OF this] show ?thesis
  proof (elim disjE exE conjE)
    fix b :: accounts
    assume b: "b = revoke_user_sessions u (ce_now env) ''user_disabled'' a"
      and a': "a' = user_audit env actor ''user.disable'' u []
        (b\<lparr>c_users := upd_where (\<lambda>x. us_id x = u) (\<lambda>x. x\<lparr>us_is_active := False, us_disabled_at := Some (ce_now env)\<rparr>) (c_users b)\<rparr>)"
    have "keys_ok a' = keys_ok a" unfolding a' b user_audit_def keys_ok_audit
      by (rule keys_ok_cong) (simp_all add: revoke_user_sessions_def)
    with ok show ?thesis by simp
  qed (simp add: ok)
qed (simp add: ok | (erule people_kept_operations [THEN keys_ok_people], rule ok))+

lemma keys_ok_steps: "acc_step\<^sup>*\<^sup>* a a' \<Longrightarrow> keys_ok a \<Longrightarrow> keys_ok a'"
  by (induction rule: rtranclp_induct) (blast intro: keys_ok_step)+

lemma reachable_keys: "acc_reachable a \<Longrightarrow> keys_ok a"
  unfolding acc_reachable_def
  by (erule keys_ok_steps) (simp add: keys_ok_def empty_accounts_def user_roles_ok_def)

section \<open>The last administrator\<close>

definition active_user :: "accounts \<Rightarrow> uuid \<Rightarrow> bool" where
  "active_user a i \<longleftrightarrow> (\<exists>u \<in> set (c_users a). us_id u = i \<and> us_is_active u)"

definition administrator_role :: "accounts \<Rightarrow> uuid \<Rightarrow> bool" where
  "administrator_role a i \<longleftrightarrow> (\<exists>r \<in> set (c_roles a). rl_id r = i \<and> rl_key r = ''administrator'')"

lemma administrator_rows_iff:
  "x \<in> set (administrator_rows a) \<longleftrightarrow> x \<in> set (c_user_roles a) \<and> active_user a (ur_user x) \<and> administrator_role a (ur_role x)"
  by (auto simp: administrator_rows_def active_user_def administrator_role_def)

lemma administrator_rows_keep:
  assumes "x \<in> set (administrator_rows a)" and "x \<in> set (c_user_roles a')"
    and "active_user a (ur_user x) \<Longrightarrow> active_user a' (ur_user x)"
    and "administrator_role a (ur_role x) \<Longrightarrow> administrator_role a' (ur_role x)"
  shows "administrator_rows a' \<noteq> []"
proof -
  have "x \<in> set (administrator_rows a')" using assms by (simp add: administrator_rows_iff)
  then show ?thesis by auto
qed

lemma active_user_zip: "active_user a i \<longleftrightarrow> (i, True) \<in> set (zip (map us_id (c_users a)) (map us_is_active (c_users a)))"
proof -
  have "(\<exists>u \<in> set us. us_id u = i \<and> us_is_active u) \<longleftrightarrow> (i, True) \<in> set (zip (map us_id us) (map us_is_active us))" for us :: "user_row list"
    by (induction us) auto
  then show ?thesis by (simp add: active_user_def)
qed

lemma administrators_people: "people_kept a a' \<Longrightarrow> administrator_rows a \<noteq> [] \<Longrightarrow> administrator_rows a' \<noteq> []"
proof -
  assume people: "people_kept a a'" and "administrator_rows a \<noteq> []"
  then obtain x where x: "x \<in> set (administrator_rows a)" by (cases "administrator_rows a") auto
  then have "x \<in> set (c_user_roles a')" using people by (simp add: administrator_rows_iff people_kept_def)
  with x show ?thesis
    using people by (elim administrator_rows_keep) (simp_all add: people_kept_def active_user_zip administrator_role_def)
qed

lemma administrator_role_unique:
  assumes "keys_ok a" and "administrator_role a i" and "administrator_role a j"
  shows "i = j"
proof -
  obtain r r' where r: "r \<in> set (c_roles a)" "rl_id r = i" "rl_key r = ''administrator''"
    and r': "r' \<in> set (c_roles a)" "rl_id r' = j" "rl_key r' = ''administrator''"
    using assms(2,3) by (auto simp: administrator_role_def)
  have "r = r'" by (rule distinct_key_inj [of rl_key "c_roles a"]) (use assms(1) r r' in \<open>simp_all add: keys_ok_def\<close>)
  with r r' show ?thesis by simp
qed

text \<open>Two administrators: one of them is not the user in question.\<close>

lemma other_administrator:
  assumes ok: "keys_ok a" and "1 < active_administrator_count a"
  shows "\<exists>x \<in> set (administrator_rows a). ur_user x \<noteq> u"
proof (rule ccontr)
  assume "\<not> ?thesis"
  then have all: "\<forall>x \<in> set (administrator_rows a). ur_user x = u" by blast
  have dist: "distinct (map (\<lambda>r. (ur_user r, ur_role r)) (c_user_roles a))" using ok by (simp add: keys_ok_def user_roles_ok_def)
  have same: "x = y" if "x \<in> set (administrator_rows a)" "y \<in> set (administrator_rows a)" for x y
  proof (rule distinct_key_inj [OF dist])
    show "x \<in> set (c_user_roles a)" "y \<in> set (c_user_roles a)" using that by (simp_all add: administrator_rows_iff)
    have "ur_role x = ur_role y"
      using administrator_role_unique [OF ok] that by (simp add: administrator_rows_iff)
    then show "(ur_user x, ur_role x) = (ur_user y, ur_role y)" using all that by simp
  qed
  have "distinct (administrator_rows a)" using dist by (simp add: administrator_rows_def distinct_map)
  moreover obtain x y rest where "administrator_rows a = x # y # rest"
    using assms(2) by (cases "administrator_rows a"; cases "tl (administrator_rows a)") (auto simp: active_administrator_count_def)
  ultimately show False using same [of x y] by auto
qed

lemma administrators_disable:
  assumes ok: "keys_ok a" and some: "administrator_rows a \<noteq> []" and res: "disable_user env actor u a = (r, a')"
  shows "administrator_rows a' \<noteq> []"
  using disable_user_result [OF res]
proof (elim disjE exE conjE)
  fix b :: accounts
  assume guard: "\<not> (is_administrator a u \<and> active_administrator_count a \<le> 1)"
    and b: "b = revoke_user_sessions u (ce_now env) ''user_disabled'' a"
    and a': "a' = user_audit env actor ''user.disable'' u []
      (b\<lparr>c_users := upd_where (\<lambda>x. us_id x = u) (\<lambda>x. x\<lparr>us_is_active := False, us_disabled_at := Some (ce_now env)\<rparr>) (c_users b)\<rparr>)"
  have "\<exists>x \<in> set (administrator_rows a). ur_user x \<noteq> u"
  proof (cases "is_administrator a u")
    case True
    with guard show ?thesis using other_administrator [OF ok] by simp
  next
    case False
    obtain x where x: "x \<in> set (administrator_rows a)" using some by (cases "administrator_rows a") auto
    moreover have "ur_user x \<noteq> u"
    proof
      assume "ur_user x = u"
      moreover from x obtain r where "r \<in> set (c_roles a)" "rl_id r = ur_role x" "rl_key r = ''administrator''"
        by (auto simp: administrator_rows_iff administrator_role_def)
      ultimately have "is_administrator a u" using x unfolding is_administrator_def roles_of_def
        by (auto simp: administrator_rows_iff intro!: bexI [of _ r] bexI [of _ x])
      with False show False by simp
    qed
    ultimately show ?thesis by blast
  qed
  then obtain x where x: "x \<in> set (administrator_rows a)" "ur_user x \<noteq> u" by blast
  show ?thesis
  proof (rule administrator_rows_keep [OF x(1)])
    show "x \<in> set (c_user_roles a')" using x(1) by (simp add: a' b user_audit_def revoke_user_sessions_def administrator_rows_iff)
    show "administrator_role a' (ur_role x)" if "administrator_role a (ur_role x)"
      using that by (simp add: a' b user_audit_def revoke_user_sessions_def administrator_role_def)
    assume "active_user a (ur_user x)"
    then obtain w where w: "w \<in> set (c_users a)" "us_id w = ur_user x" "us_is_active w" by (auto simp: active_user_def)
    let ?f = "\<lambda>u :: user_row. u\<lparr>us_auth_version := us_auth_version u + 1\<rparr>"
    from upd_where_mem [OF w(1), of "\<lambda>y. us_id y = u" ?f] w(2) x(2) have "w \<in> set (c_users b)"
      by (simp add: b revoke_user_sessions_def)
    from upd_where_mem [OF this, of "\<lambda>y. us_id y = u" "\<lambda>y. y\<lparr>us_is_active := False, us_disabled_at := Some (ce_now env)\<rparr>"] w(2) x(2)
    have "w \<in> set (c_users a')" by (simp add: a' user_audit_def)
    with w show "active_user a' (ur_user x)" by (auto simp: active_user_def)
  qed
qed (use some in simp)

lemma administrators_remove:
  assumes ok: "keys_ok a" and some: "administrator_rows a \<noteq> []" and res: "remove_role env u k actor a = (r, a')"
  shows "administrator_rows a' \<noteq> []"
  using res
proof (cases rule: remove_role_result)
  case (Removed x rl)
  have x: "us_id x = u" "x \<in> set (c_users a)" using find_SomeD [OF Removed(1) [unfolded user_by_id_def]] by auto
  have rl: "rl_key rl = k" "rl \<in> set (c_roles a)" using find_SomeD [OF Removed(2) [unfolded role_by_key_def]] by auto
  have "\<exists>y \<in> set (administrator_rows a). \<not> (ur_user y = u \<and> ur_role y = rl_id rl)"
  proof (cases "k = ''administrator'' \<and> us_is_active x")
    case True
    with Removed(3) have "1 < active_administrator_count a" by simp
    then show ?thesis using other_administrator [OF ok] by blast
  next
    case False
    obtain y where y: "y \<in> set (administrator_rows a)" using some by (cases "administrator_rows a") auto
    have "\<not> (ur_user y = u \<and> ur_role y = rl_id rl)"
    proof
      assume eq: "ur_user y = u \<and> ur_role y = rl_id rl"
      from y eq obtain w where w: "w \<in> set (c_users a)" "us_id w = u" "us_is_active w" by (auto simp: administrator_rows_iff active_user_def)
      have "w = x" by (rule distinct_key_inj [of us_id "c_users a"]) (use ok w x in \<open>simp_all add: keys_ok_def\<close>)
      from y eq obtain r where r: "r \<in> set (c_roles a)" "rl_id r = rl_id rl" "rl_key r = ''administrator''"
        by (auto simp: administrator_rows_iff administrator_role_def)
      have "r = rl" by (rule distinct_key_inj [of rl_id "c_roles a"]) (use ok r rl in \<open>simp_all add: keys_ok_def\<close>)
      with r \<open>w = x\<close> w(3) rl(1) False show False by simp
    qed
    with y show ?thesis by blast
  qed
  then obtain y where y: "y \<in> set (administrator_rows a)" "\<not> (ur_user y = u \<and> ur_role y = rl_id rl)" by blast
  then have "y \<in> set (c_user_roles a')" by (simp add: Removed(4) administrator_rows_iff)
  with y(1) show ?thesis
    by (rule administrator_rows_keep) (simp_all add: active_user_def administrator_role_def Removed)
qed (use some in simp)

lemma administrators_more:
  assumes some: "administrator_rows a \<noteq> []" and sub: "set (c_users a) \<subseteq> set (c_users a')" "set (c_user_roles a) \<subseteq> set (c_user_roles a')"
    and roles: "\<forall>r \<in> set (c_roles a). \<exists>r' \<in> set (c_roles a'). rl_id r' = rl_id r \<and> rl_key r' = rl_key r"
  shows "administrator_rows a' \<noteq> []"
proof -
  obtain x where x: "x \<in> set (administrator_rows a)" using some by (cases "administrator_rows a") auto
  moreover have "x \<in> set (c_user_roles a')" using x sub(2) by (auto simp: administrator_rows_iff)
  moreover have "active_user a' (ur_user x)" if "active_user a (ur_user x)" using that sub(1) by (auto simp: active_user_def)
  moreover have "administrator_role a' (ur_role x)" if "administrator_role a (ur_role x)"
    using that roles by (fastforce simp: administrator_role_def)
  ultimately show ?thesis by (rule administrator_rows_keep)
qed

lemma administrators_step:
  assumes "acc_step a a'" and ok: "keys_ok a" and some: "administrator_rows a \<noteq> []"
  shows "administrator_rows a' \<noteq> []"
  using assms(1)
proof (cases rule: acc_step_cases)
  case (Create_User env name email pw actor r)
  from create_user_result [OF this] show ?thesis
    by (elim disjE exE conjE) (use some in simp, intro administrators_more [OF some], auto simp: user_audit_def)
next
  case (Assign_Role env u k actor r)
  from assign_role_result [OF this] show ?thesis
    by (elim disjE exE conjE) (use some in simp, intro administrators_more [OF some], auto simp: user_audit_def)
next
  case (Bootstrap env name pw r)
  from bootstrap_result [OF this] show ?thesis
    by (elim disjE exE conjE) (use some in simp, (intro administrators_more [OF some]; fastforce)+)
next
  case (Seed env uid r)
  from seed_rbac_result [OF this] show ?thesis
  proof (elim disjE exE conjE)
    fix b cr up n
    assume b: "seeded uid (a, 0, 0) = (b, cr, up)"
      and a': "a' = account_audit n ''system'' None ''rbac.seed'' ''rbac'' None ''success''
         [(''created_count'', JInt cr), (''updated_count'', JInt up)] b"
    show ?thesis
      by (rule administrators_more [OF some])
        (use roles_seeded [of "(a, 0, 0)" uid] ok b seeded_people [of "(a, 0, 0)" uid] in
          \<open>simp_all add: a' keys_ok_def same_people_def\<close>)
  qed (use some in simp)
qed (simp add: some | (erule administrators_disable [OF ok some] administrators_remove [OF ok some])
    | (erule people_kept_operations [THEN administrators_people], rule some))+

lemma administrators_steps:
  "acc_step\<^sup>*\<^sup>* a a' \<Longrightarrow> keys_ok a \<Longrightarrow> administrator_rows a \<noteq> [] \<Longrightarrow> administrator_rows a' \<noteq> []"
proof (induction rule: rtranclp_induct)
  case (step b c)
  show ?case
    by (rule administrators_step [OF step.hyps(2) keys_ok_steps [OF step.hyps(1) step.prems(1)] step.IH [OF step.prems]])
qed

text \<open>C28: once the system has an active administrator it keeps one: whatever users and administrators do,
  also to themselves, no sequence of operations disables the last one or takes the role away from him.\<close>

theorem an_administrator_remains:
  assumes "acc_reachable a" and "active_administrator_count a \<noteq> 0" and "acc_step\<^sup>*\<^sup>* a a'"
  shows "\<exists>u \<in> set (c_users a'). us_is_active u \<and> is_administrator a' (us_id u)"
proof -
  have "administrator_rows a' \<noteq> []"
    using administrators_steps [OF assms(3) reachable_keys [OF assms(1)]] assms(2) by (simp add: active_administrator_count_def)
  then obtain x where "x \<in> set (administrator_rows a')" by (cases "administrator_rows a'") auto
  then show ?thesis
    by (fastforce simp: administrator_rows_iff active_user_def administrator_role_def is_administrator_def roles_of_def)
qed

lemma an_administrator_remains_witness:
  "\<exists>u \<in> set (c_users demo_bootstrapped). us_is_active u \<and> is_administrator demo_bootstrapped (us_id u)"
  using an_administrator_remains [OF demo_bootstrapped_reachable _ rtranclp.rtrancl_refl] demo_bootstrapped_count by simp

end
