(* ===== verification/Accounts_Seeds.thy ===== *)
theory Accounts_Seeds
  imports Accounts_Admin
begin

text \<open>
  The seeds of roles and permissions can be applied again at every start: a second run finds everything
  in place.
\<close>

section \<open>Folds that settle\<close>

lemma fold_settles:
  assumes "\<And>x w. x \<in> set xs \<Longrightarrow> Q x (f x w)" and "\<And>x y w. x \<in> set xs \<Longrightarrow> y \<in> set xs \<Longrightarrow> x \<noteq> y \<Longrightarrow> Q x w \<Longrightarrow> Q x (f y w)"
  shows "\<forall>x \<in> set xs. Q x (fold f xs w)"
proof -
  have keep: "Q x (fold f ys v)" if "set ys \<subseteq> set xs" "x \<in> set xs" "Q x v" for x ys v
    using that by (induction ys arbitrary: v) (simp, metis assms fold_simps(2) insert_subset list.set(2))
  have "\<forall>x \<in> set ys. Q x (fold f ys v)" if "set ys \<subseteq> set xs" for ys v
    using that by (induction ys arbitrary: v) (auto simp: assms(1) intro: keep)
  then show ?thesis by blast
qed

lemma fold_settled: "\<forall>x \<in> set xs. Q x w \<Longrightarrow> (\<And>x. x \<in> set xs \<Longrightarrow> Q x w \<Longrightarrow> f x w = w) \<Longrightarrow> fold f xs w = w"
  by (induction xs) auto

section \<open>Settled seeds\<close>

definition permission_settled :: "string \<times> string \<Rightarrow> accounts \<Rightarrow> bool" where
  "permission_settled kd a \<longleftrightarrow>
     (\<exists>p. find (\<lambda>p. pe_key p = fst kd) (c_permissions a) = Some p \<and> pe_description p = snd kd)"

definition role_settled :: "string \<times> string \<times> string \<Rightarrow> accounts \<Rightarrow> bool" where
  "role_settled knd a \<longleftrightarrow>
     (\<exists>r. role_by_key a (fst knd) = Some r \<and> rl_display_name r = fst (snd knd) \<and> rl_description r = snd (snd knd))"

definition role_permission_settled :: "string \<times> string \<Rightarrow> accounts \<Rightarrow> bool" where
  "role_permission_settled rp a \<longleftrightarrow>
     (\<forall>r p. role_by_key a (fst rp) = Some r \<longrightarrow> find (\<lambda>p. pe_key p = snd rp) (c_permissions a) = Some p \<longrightarrow>
        (\<exists>x \<in> set (c_role_permissions a). rp_role x = rl_id r \<and> rp_permission x = pe_id p))"

definition capability_settled :: "string \<Rightarrow> accounts \<Rightarrow> bool" where
  "capability_settled key a \<longleftrightarrow> (key, ''1.0.0'') \<in> set (c_capabilities a)"

lemmas settled_defs = permission_settled_def role_settled_def role_permission_settled_def capability_settled_def role_by_key_def

lemma permission_settles: "permission_settled kd (fst (seed_permission uid kd w))"
proof -
  obtain key d a cr up where kd: "kd = (key, d)" "w = (a, cr, up)" by (cases kd, cases w) auto
  define f where "f = (\<lambda>p :: permission_row. p\<lparr>pe_description := d\<rparr>)"
  have keeps: "\<And>p. pe_key (f p) = pe_key p" by (simp add: f_def)
  show ?thesis
    using find_key_upd_where [of pe_key f key "\<lambda>p. pe_key p = key" "c_permissions a", OF keeps]
    by (cases "find (\<lambda>p. pe_key p = key) (c_permissions a)")
      (auto simp: kd seed_permission_def permission_settled_def find_append f_def dest: find_SomeD)
qed

lemma permission_settled_other:
  assumes "fst kd \<noteq> fst kd'" and "permission_settled kd (fst w)"
  shows "permission_settled kd (fst (seed_permission uid kd' w))"
proof -
  obtain key d a cr up where kd: "kd' = (key, d)" "w = (a, cr, up)" by (cases kd', cases w) auto
  define f where "f = (\<lambda>p :: permission_row. p\<lparr>pe_description := d\<rparr>)"
  have keeps: "\<And>p. pe_key (f p) = pe_key p" by (simp add: f_def)
  obtain p where p: "find (\<lambda>p. pe_key p = fst kd) (c_permissions a) = Some p" "pe_description p = snd kd"
    using assms(2) by (auto simp: permission_settled_def kd)
  then have "pe_key p \<noteq> key" using assms(1) find_SomeD [OF p(1)] by (simp add: kd)
  with p find_key_upd_where [of pe_key f "fst kd" "\<lambda>p. pe_key p = key" "c_permissions a", OF keeps] show ?thesis
    by (auto simp: kd seed_permission_def permission_settled_def find_append f_def split: option.split)
qed

lemma role_settles: "role_settled knd (fst (seed_role uid knd w))"
proof -
  obtain key n d a cr up where kd: "knd = (key, n, d)" "w = (a, cr, up)" by (cases knd, cases w) auto
  define f where "f = (\<lambda>r :: role_row. r\<lparr>rl_display_name := n, rl_description := d\<rparr>)"
  have keeps: "\<And>r. rl_key (f r) = rl_key r" by (simp add: f_def)
  show ?thesis
    using find_key_upd_where [of rl_key f key "\<lambda>p. rl_key p = key" "c_roles a", OF keeps]
    by (cases "find (\<lambda>p. rl_key p = key) (c_roles a)")
      (auto simp: kd seed_role_def role_settled_def role_by_key_def find_append f_def dest: find_SomeD)
qed

lemma role_settled_other:
  assumes "fst kd \<noteq> fst kd'" and "role_settled kd (fst w)"
  shows "role_settled kd (fst (seed_role uid kd' w))"
proof -
  obtain key n d a cr up where kd: "kd' = (key, n, d)" "w = (a, cr, up)" by (cases kd', cases w) auto
  define f where "f = (\<lambda>r :: role_row. r\<lparr>rl_display_name := n, rl_description := d\<rparr>)"
  have keeps: "\<And>r. rl_key (f r) = rl_key r" by (simp add: f_def)
  obtain r where r: "find (\<lambda>p. rl_key p = fst kd) (c_roles a) = Some r" "rl_display_name r = fst (snd kd)" "rl_description r = snd (snd kd)"
    using assms(2) by (auto simp: role_settled_def role_by_key_def kd)
  then have "rl_key r \<noteq> key" using assms(1) find_SomeD [OF r(1)] by (simp add: kd)
  with r find_key_upd_where [of rl_key f "fst kd" "\<lambda>p. rl_key p = key" "c_roles a", OF keeps] show ?thesis
    by (auto simp: kd seed_role_def role_settled_def role_by_key_def find_append f_def split: option.split)
qed

lemma distinct_seed_keys: "distinct (map fst PERMISSIONS) \<and> distinct (map fst ROLES)"
  by code_simp

lemma settled_later:
  "permission_settled kd (fst w) \<Longrightarrow> permission_settled kd (fst (seed_role uid knd w))"
  "permission_settled kd (fst w) \<Longrightarrow> permission_settled kd (fst (seed_role_permission rp w))"
  "permission_settled kd (fst w) \<Longrightarrow> permission_settled kd (fst (seed_capability c w))"
  "role_settled knd' (fst w) \<Longrightarrow> role_settled knd' (fst (seed_role_permission rp w))"
  "role_settled knd' (fst w) \<Longrightarrow> role_settled knd' (fst (seed_capability c w))"
  "role_permission_settled rp' (fst w) \<Longrightarrow> role_permission_settled rp' (fst (seed_role_permission rp w))"
  "role_permission_settled rp' (fst w) \<Longrightarrow> role_permission_settled rp' (fst (seed_capability c w))"
  "capability_settled c' (fst w) \<Longrightarrow> capability_settled c' (fst (seed_capability c w))"
  by (auto simp: settled_defs seed_role_def seed_role_permission_def seed_capability_def split: prod.splits option.splits)

lemma settles_later:
  "role_permission_settled rp (fst (seed_role_permission rp w))"
  "capability_settled c (fst (seed_capability c w))"
  by (auto simp: settled_defs seed_role_permission_def seed_capability_def split: prod.splits option.splits)

lemma seed_settled:
  "permission_settled kd (fst w) \<Longrightarrow> seed_permission uid kd w = w"
  "role_settled knd (fst w) \<Longrightarrow> seed_role uid knd w = w"
  "role_permission_settled rp (fst w) \<Longrightarrow> seed_role_permission rp w = w"
  "capability_settled c (fst w) \<Longrightarrow> seed_capability c w = w"
  by (auto simp: settled_defs seed_permission_def seed_role_def seed_role_permission_def seed_capability_def
      split: prod.splits option.splits)

definition all_settled :: "accounts \<Rightarrow> bool" where
  "all_settled a \<longleftrightarrow> (\<forall>x \<in> set PERMISSIONS. permission_settled x a) \<and> (\<forall>x \<in> set ROLES. role_settled x a)
     \<and> (\<forall>x \<in> set role_permission_pairs. role_permission_settled x a) \<and> (\<forall>x \<in> set CAPABILITY_IDS. capability_settled x a)"

lemma fst_inj: "distinct (map fst xs) \<Longrightarrow> x \<in> set xs \<Longrightarrow> y \<in> set xs \<Longrightarrow> x \<noteq> y \<Longrightarrow> fst x \<noteq> fst y"
  by (meson distinct_key_inj)

lemma seeded_settled: "all_settled (fst (seeded uid w))"
proof -
  let ?w1 = "fold (seed_permission uid) PERMISSIONS w"
  let ?w2 = "fold (seed_role uid) ROLES ?w1"
  let ?w3 = "fold seed_role_permission role_permission_pairs ?w2"
  let ?w4 = "fold seed_capability CAPABILITY_IDS ?w3"
  have p1: "\<forall>x \<in> set PERMISSIONS. permission_settled x (fst ?w1)"
  proof (rule fold_settles)
    show "permission_settled x (fst (seed_permission uid x v))" for x v by (rule permission_settles)
    fix x y and v :: seeding
    assume "x \<in> set PERMISSIONS" "y \<in> set PERMISSIONS" "x \<noteq> y" and "permission_settled x (fst v)"
    then show "permission_settled x (fst (seed_permission uid y v))"
      using fst_inj distinct_seed_keys by (intro permission_settled_other) blast+
  qed
  have r2: "\<forall>x \<in> set ROLES. role_settled x (fst ?w2)"
  proof (rule fold_settles)
    show "role_settled x (fst (seed_role uid x v))" for x v by (rule role_settles)
    fix x y and v :: seeding
    assume "x \<in> set ROLES" "y \<in> set ROLES" "x \<noteq> y" and "role_settled x (fst v)"
    then show "role_settled x (fst (seed_role uid y v))"
      using fst_inj distinct_seed_keys by (intro role_settled_other) blast+
  qed
  have rp3: "\<forall>x \<in> set role_permission_pairs. role_permission_settled x (fst ?w3)"
    by (rule fold_settles) (auto intro: settles_later settled_later)
  have c4: "\<forall>x \<in> set CAPABILITY_IDS. capability_settled x (fst ?w4)"
    by (rule fold_settles) (auto intro: settles_later settled_later)
  have p2: "permission_settled x (fst ?w2)" if "x \<in> set PERMISSIONS" for x
    by (rule fold_invariant [where P = "\<lambda>v. permission_settled x (fst v)"]) (use p1 that in \<open>auto intro: settled_later\<close>)
  have p3: "permission_settled x (fst ?w3)" if "x \<in> set PERMISSIONS" for x
    by (rule fold_invariant [where P = "\<lambda>v. permission_settled x (fst v)"]) (use p2 that in \<open>auto intro: settled_later\<close>)
  have p4: "permission_settled x (fst ?w4)" if "x \<in> set PERMISSIONS" for x
    by (rule fold_invariant [where P = "\<lambda>v. permission_settled x (fst v)"]) (use p3 that in \<open>auto intro: settled_later\<close>)
  have r3: "role_settled x (fst ?w3)" if "x \<in> set ROLES" for x
    by (rule fold_invariant [where P = "\<lambda>v. role_settled x (fst v)"]) (use r2 that in \<open>auto intro: settled_later\<close>)
  have r4: "role_settled x (fst ?w4)" if "x \<in> set ROLES" for x
    by (rule fold_invariant [where P = "\<lambda>v. role_settled x (fst v)"]) (use r3 that in \<open>auto intro: settled_later\<close>)
  have rp4: "role_permission_settled x (fst ?w4)" if "x \<in> set role_permission_pairs" for x
    by (rule fold_invariant [where P = "\<lambda>v. role_permission_settled x (fst v)"]) (use rp3 that in \<open>auto intro: settled_later\<close>)
  show ?thesis using p4 r4 rp4 c4 by (simp add: all_settled_def seeded_def)
qed

lemma seeded_again:
  assumes "all_settled (fst w)"
  shows "seeded uid w = w"
proof -
  have "fold (seed_permission uid) PERMISSIONS w = w" "fold (seed_role uid) ROLES w = w"
    "fold seed_role_permission role_permission_pairs w = w" "fold seed_capability CAPABILITY_IDS w = w"
    using assms by (auto simp: all_settled_def intro!: fold_settled seed_settled)
  then show ?thesis by (simp add: seeded_def)
qed

text \<open>C29: the seeds can be applied again and again: after a run, a second one creates and updates nothing and
  leaves every table as it is, up to the entry in the audit log.\<close>

theorem seeding_is_idempotent:
  assumes "seed_rbac env uid a = (Inr counts, a')"
  shows "\<exists>a''. seed_rbac env' uid a' = (Inr (0, 0), a'') \<and> a''\<lparr>c_account_audit := []\<rparr> = a'\<lparr>c_account_audit := []\<rparr>"
proof -
  obtain b cr up where b: "seeded uid (a, 0, 0) = (b, cr, up)" by (cases "seeded uid (a, 0, 0)")
  with assms have dist: "distinct (map pe_id (c_permissions b))" "distinct (map rl_id (c_roles b))"
    and a': "a' = account_audit (ce_now env) ''system'' None ''rbac.seed'' ''rbac'' None ''success''
        [(''created_count'', JInt cr), (''updated_count'', JInt up)] b"
    by (auto simp: seed_rbac_def split: if_splits)
  have "all_settled b" using seeded_settled [of uid "(a, 0, 0)"] by (simp add: b)
  then have "all_settled a'" by (simp add: a' all_settled_def settled_defs)
  then have "seeded uid (a', 0, 0) = (a', 0, 0)" by (simp add: seeded_again)
  with dist show ?thesis by (simp add: seed_rbac_def a' account_audit_def)
qed

lemma seeding_is_idempotent_witness:
  "\<exists>counts a''. fst (seed_rbac (demo_account_env ''0'' 0) (\<lambda>s. s) empty_accounts) = Inr counts
    \<and> seed_rbac (demo_account_env ''1'' 1) (\<lambda>s. s) demo_seeded = (Inr (0, 0), a'')"
proof -
  obtain counts where "seed_rbac (demo_account_env ''0'' 0) (\<lambda>s. s) empty_accounts = (Inr counts, demo_seeded)"
    using demo_seed_succeeds unfolding demo_seeded_def
    by (cases "seed_rbac (demo_account_env ''0'' 0) (\<lambda>s. s) empty_accounts";
        cases "fst (seed_rbac (demo_account_env ''0'' 0) (\<lambda>s. s) empty_accounts)") auto
  from seeding_is_idempotent [OF this] this show ?thesis by fastforce
qed

end
