(* ===== verification/Capture_Json.thy ===== *)
theory Capture_Json
  imports Json_Loads Json_Members Path_Names Ascii_Text
begin

text \<open>
  What the capture files of the Linux agent use of Python: the rendering of \<open>Ascii_Text\<close> is one line of
  printable characters of a bounded size, \<open>str\<close> of a loaded value and \<open>bytes.splitlines\<close>.
\<close>

section \<open>The rendering is one line\<close>

definition printable :: "string \<Rightarrow> bool" where
  "printable s \<longleftrightarrow> (\<forall>c \<in> set s. 32 \<le> (of_char c :: nat) \<and> (of_char c :: nat) < 127)"

lemma printable_simps [simp]:
  "printable []" "printable (c # s) \<longleftrightarrow> 32 \<le> (of_char c :: nat) \<and> (of_char c :: nat) < 127 \<and> printable s"
  "printable (s @ t) \<longleftrightarrow> printable s \<and> printable t"
  by (auto simp: printable_def)

lemma printable_join: "\<forall>x \<in> set xs. printable x \<Longrightarrow> printable sep \<Longrightarrow> printable (join_text sep xs)"
  by (induction sep xs rule: join_text.induct) auto

lemma printable_hex: "n < 16 \<Longrightarrow> printable [hex_digit n]"
  by (simp add: hex_digit_def)

lemma printable_escape: "(of_char c :: nat) < 127 \<Longrightarrow> printable (escape_char c)"
  using printable_hex [of "of_char c div 16"] printable_hex [of "of_char c mod 16"]
  by (auto simp: escape_char_def)

lemma printable_string: "ascii_text s \<Longrightarrow> printable (string_text s)"
  by (induction s) (auto simp: string_text_def ascii_text_def printable_escape)

lemma printable_digits: "printable (digits_text n)"
proof (induction n rule: digits_text.induct)
  case (1 n)
  have "n mod 10 < 10" by simp
  then have "n mod 10 < 79" by linarith
  with 1 show ?case by (subst digits_text.simps) simp
qed

lemma printable_int: "printable (int_text i)"
  by (simp add: int_text_def printable_digits)

lemma printable_canonical: "json_ascii j \<Longrightarrow> json_plain j \<Longrightarrow> printable (canonical_json j)"
proof (induction j)
  case (JArr vs)
  then show ?case by (auto intro!: printable_join)
next
  case (JObj kvs)
  let ?members = "sort_key fst (map (map_prod id canonical_json) kvs)"
  have member: "printable (string_text k @ '':'' @ v)"
    if "(k, v) \<in> set (sort_key fst (map (map_prod id canonical_json) kvs))" for k v
  proof -
    from that obtain j where j: "(k, j) \<in> set kvs" "v = canonical_json j" by (auto simp: map_prod_def)
    have "ascii_text k" "json_ascii j" "json_plain j" using JObj.prems j(1) by auto
    moreover have "j \<in> Basic_BNFs.snds (k, j)" by (simp add: snds.simps)
    ultimately show ?thesis using JObj.IH [OF j(1)] j(2) by (simp add: printable_string)
  qed
  have "printable x" if "x \<in> set (map (\<lambda>(k, v). string_text k @ '':'' @ v) ?members)" for x
  proof -
    from that obtain kv where "kv \<in> set ?members" "x = (case kv of (k, v) \<Rightarrow> string_text k @ '':'' @ v)"
      unfolding set_map by (rule imageE)
    then show ?thesis using member [of "fst kv" "snd kv"] by (simp only: prod.collapse case_prod_beta)
  qed
  then have "printable (join_text '','' (map (\<lambda>(k, v). string_text k @ '':'' @ v) ?members))"
    by (intro printable_join) simp_all
  then show ?case unfolding canonical_json.simps object_text_def by simp
qed (auto simp: printable_int printable_string)

section \<open>The size of a rendering\<close>

fun json_bound :: "json \<Rightarrow> nat" where
  "json_bound JNull = 4"
| "json_bound (JBool b) = 5"
| "json_bound (JInt i) = nat \<bar>i\<bar> + 2"
| "json_bound (JFloat t) = length t"
| "json_bound (JStr s) = 6 * length s + 2"
| "json_bound (JArr vs) = sum_list (map (\<lambda>v. json_bound v + 1) vs) + 2"
| "json_bound (JObj kvs) = sum_list (map (\<lambda>kv. 6 * length (fst kv) + json_bound (snd kv) + 4) kvs) + 2"

lemma length_escape: "length (escape_char c) \<le> 6"
  by (simp add: escape_char_def)

lemma length_string_text: "length (string_text s) \<le> 6 * length s + 2"
proof -
  have "length (concat (map escape_char s)) \<le> 6 * length s"
  proof (induction s)
    case (Cons c s)
    then show ?case using length_escape [of c] by simp
  qed simp
  then show ?thesis by (simp add: string_text_def)
qed

lemma length_digits: "length (digits_text n) \<le> n + 1"
proof (induction n rule: digits_text.induct)
  case (1 n)
  show ?case
  proof (cases "n < 10")
    case True
    then show ?thesis by (simp add: digits_text.simps)
  next
    case False
    then show ?thesis using 1 by (subst digits_text.simps) simp
  qed
qed

lemma length_join: "length (join_text [c] xs) \<le> sum_list (map (\<lambda>x. length x + 1) xs)"
  by (induction "[c]" xs rule: join_text.induct) auto

lemma sum_list_insort_members: "sum_list (map (f :: _ \<Rightarrow> nat) (insort_key g x xs)) = f x + sum_list (map f xs)"
  by (induction xs) auto

lemma sum_list_sorted_members: "sum_list (map (f :: _ \<Rightarrow> nat) (sort_key g xs)) = sum_list (map f xs)"
  by (induction xs) (simp_all add: sum_list_insort_members)

lemma length_canonical: "length (canonical_json j) \<le> json_bound j"
proof (induction j)
  case (JInt i)
  then show ?case using length_digits [of "nat \<bar>i\<bar>"] length_digits [of "nat (- i)"] length_digits [of "nat i"]
    by (auto simp: int_text_def)
next
  case (JStr s)
  then show ?case using length_string_text by simp
next
  case (JArr vs)
  have "sum_list (map (\<lambda>x. length x + 1) (map canonical_json vs)) \<le> sum_list (map (\<lambda>v. json_bound v + 1) vs)"
    unfolding map_map by (rule sum_list_mono) (use JArr in simp)
  then show ?case using length_join [of "CHR '',''" "map canonical_json vs"] by simp
next
  case (JObj kvs)
  have member: "length (member_text kv) + 1 \<le> 6 * length (fst kv) + json_bound (snd kv) + 4" if "kv \<in> set kvs" for kv
  proof -
    have "snd kv \<in> Basic_BNFs.snds kv" by (cases kv) (simp add: snds.simps)
    from JObj [OF that this] show ?thesis using length_string_text [of "fst kv"] by (simp add: member_text_def)
  qed
  have "sum_list (map (\<lambda>x. length x + 1) (map member_text (sort_key fst kvs)))
      = sum_list (map (\<lambda>kv. length (member_text kv) + 1) kvs)"
    unfolding map_map comp_def by (rule sum_list_sorted_members)
  also have "\<dots> \<le> sum_list (map (\<lambda>kv. 6 * length (fst kv) + json_bound (snd kv) + 4) kvs)"
    by (rule sum_list_mono) (rule member)
  finally show ?case
    using length_join [of "CHR '',''" "map member_text (sort_key fst kvs)"] unfolding canonical_object by simp
qed simp_all

section \<open>Lines\<close>

function byte_lines :: "string \<Rightarrow> string \<Rightarrow> string list" where
  "byte_lines acc [] = (if acc = [] then [] else [rev acc])"
| "byte_lines acc (c # s) =
     (if c = CHR 0x0A then rev acc # byte_lines [] s
      else if c = CHR 0x0D then rev acc # byte_lines [] (if s \<noteq> [] \<and> hd s = CHR 0x0A then tl s else s)
      else byte_lines (c # acc) s)"
  by pat_completeness auto
termination by (relation "measure (\<lambda>(acc, s). length s)") auto

definition splitlines :: "string \<Rightarrow> string list" where
  "splitlines s = byte_lines [] s"

lemma byte_lines_line:
  "printable l \<Longrightarrow> byte_lines acc (l @ CHR 0x0A # s) = (rev acc @ l) # byte_lines [] s"
  by (induction l arbitrary: acc) auto

lemma splitlines_line: "printable l \<Longrightarrow> splitlines (l @ CHR 0x0A # s) = l # splitlines s"
  by (simp add: splitlines_def byte_lines_line)

lemma splitlines_lines: "\<forall>l \<in> set ls. printable l \<Longrightarrow> splitlines (concat (map (\<lambda>l. l @ [CHR 0x0A]) ls)) = ls"
proof (induction ls)
  case Nil
  show ?case by (simp add: splitlines_def)
next
  case (Cons l ls)
  then show ?case by (simp add: splitlines_line)
qed

section \<open>Text of a loaded value\<close>

text \<open>\<open>str\<close> of a value; what follows the opening bracket of a list or a dict is an argument, and no code
  relies on it.\<close>

fun py_text :: "(json \<Rightarrow> string) \<Rightarrow> json \<Rightarrow> string" where
  "py_text repr (JStr s) = s"
| "py_text repr (JInt i) = int_text i"
| "py_text repr (JBool b) = (if b then ''True'' else ''False'')"
| "py_text repr JNull = ''None''"
| "py_text repr (JFloat t) = t"
| "py_text repr (JArr vs) = CHR ''['' # repr (JArr vs)"
| "py_text repr (JObj kvs) = CHR ''{'' # repr (JObj kvs)"

text \<open>\<open>value == 1\<close>, which also holds for \<open>True\<close> and \<open>1.0\<close>.\<close>

definition equals_one :: "json \<Rightarrow> bool" where
  "equals_one j \<longleftrightarrow> j = JInt 1 \<or> j = JBool True \<or> j = JFloat ''1.0''"

end
