(* ===== verification/Capture_Marker.thy ===== *)
theory Capture_Marker
  imports Capture_Json
begin

text \<open>
  The marker of a capture (\<open>CaptureMarker\<close> and the reading of markers in
  \<open>platforms/linux/capture_recovery.py\<close>): an append-only file of JSON lines that records how far a
  capture came, each line with the digest of the line before.  After a crash the file is all that is
  left, and the reader accepts it only as a whole: complete lines, an unbroken chain, one authority
  and allowed transitions.  The identity of the file (inode, owner, mode) is checked by the code
  through descriptors; whether a check succeeds is an argument.
\<close>

section \<open>States, authority and snapshots\<close>

datatype marker_state =
    Planned | Reserved | Capture_Complete | Rollback_Pending | Interface_Restored | Intent_Durable
  | Artifact_Committed | Binding_Published | Retired

fun marker_text :: "marker_state \<Rightarrow> string" where
  "marker_text Planned = ''RESERVATION_PLANNED''"
| "marker_text Reserved = ''RESERVED''"
| "marker_text Capture_Complete = ''CAPTURE_COMPLETE''"
| "marker_text Rollback_Pending = ''ROLLBACK_VERIFICATION_PENDING''"
| "marker_text Interface_Restored = ''INTERFACE_RESTORED''"
| "marker_text Intent_Durable = ''STAGING_INTENT_DURABLE''"
| "marker_text Artifact_Committed = ''LOCAL_ARTIFACT_COMMITTED''"
| "marker_text Binding_Published = ''BINDING_PUBLISHED''"
| "marker_text Retired = ''RETIRED''"

definition marker_of_text :: "string \<Rightarrow> marker_state option" where
  "marker_of_text t = find (\<lambda>s. marker_text s = t)
     [Planned, Reserved, Capture_Complete, Rollback_Pending, Interface_Restored, Intent_Durable,
      Artifact_Committed, Binding_Published, Retired]"

fun SUCCESSOR :: "marker_state \<Rightarrow> marker_state option" where
  "SUCCESSOR Planned = Some Reserved"
| "SUCCESSOR Reserved = Some Capture_Complete"
| "SUCCESSOR Capture_Complete = Some Rollback_Pending"
| "SUCCESSOR Rollback_Pending = Some Interface_Restored"
| "SUCCESSOR Interface_Restored = Some Intent_Durable"
| "SUCCESSOR Intent_Durable = Some Artifact_Committed"
| "SUCCESSOR Artifact_Committed = Some Binding_Published"
| "SUCCESSOR Binding_Published = Some Retired"
| "SUCCESSOR Retired = None"

fun DETAIL_FIELDS :: "marker_state \<Rightarrow> string list" where
  "DETAIL_FIELDS Planned = [''request'', ''source_name'', ''capture_format'', ''artifact_root'',
     ''artifact_root_dev'', ''artifact_root_ino'']"
| "DETAIL_FIELDS Reserved = [''directory_dev'', ''directory_ino'', ''st_dev'', ''st_ino'', ''st_uid'',
     ''file_type'', ''mode'', ''st_nlink'']"
| "DETAIL_FIELDS Capture_Complete = [''size_bytes'', ''sha256'', ''st_mtime_ns'', ''st_ctime_ns'', ''started_at'']"
| "DETAIL_FIELDS Rollback_Pending = [''rollback'']"
| "DETAIL_FIELDS Interface_Restored = [''rollback'', ''metadata'']"
| "DETAIL_FIELDS Intent_Durable = [''intent_name'', ''source_st_dev'', ''source_st_ino'', ''source_sha256'']"
| "DETAIL_FIELDS Artifact_Committed = [''artifact_path'', ''artifact_relative_path'', ''manifest'',
     ''metadata'', ''rollback'']"
| "DETAIL_FIELDS Binding_Published = [''binding_name'']"
| "DETAIL_FIELDS Retired = [''reason'', ''source_quarantine_name'', ''marker_quarantine_name'']"

definition MAXIMUM_MARKER_BYTES :: nat where
  "MAXIMUM_MARKER_BYTES = 4 * 1024 * 1024"

datatype recovery_error =
    Capture_Recovery string
  | Capture_In_Progress
  | Idempotency_Conflict string
  | Manual_Recovery string
  | Bad_Value string
  | Entry_Mismatch
  | Missing_File

text \<open>The canonical text of a UUID (\<open>str(UUID(v)) == v\<close>).\<close>

definition canonical_uuid :: "string \<Rightarrow> bool" where
  "canonical_uuid s \<longleftrightarrow> length s = 36
     \<and> list_all (\<lambda>i. if i \<in> {8, 13, 18, 23} then s ! i = CHR ''-'' else lower_hex (s ! i)) [0..<36]"

record fingerprint =
  fp_version :: string
  fp_sha256 :: string

record authority =
  au_task :: string
  au_execution :: string
  au_key :: string
  au_fingerprint :: fingerprint
  au_token :: string

definition capture_fingerprint :: "string \<Rightarrow> string \<Rightarrow> recovery_error + fingerprint" where
  "capture_fingerprint version sha =
     (if version = [] \<or> \<not> hex_text 64 sha then Inl (Bad_Value ''capture fingerprint is invalid'')
      else Inr \<lparr>fp_version = version, fp_sha256 = sha\<rparr>)"

definition capture_authority ::
  "string \<Rightarrow> string \<Rightarrow> string \<Rightarrow> fingerprint \<Rightarrow> string \<Rightarrow> recovery_error + authority" where
  "capture_authority task execution key fp token =
     (if \<not> (canonical_uuid task \<and> canonical_uuid execution \<and> canonical_uuid key)
      then Inl (Bad_Value ''capture authority UUID is not canonical'')
      else if \<not> hex_text 32 token then Inl (Bad_Value ''capture operation token is invalid'')
      else Inr \<lparr>au_task = task, au_execution = execution, au_key = key, au_fingerprint = fp, au_token = token\<rparr>)"

text \<open>The details of a state are a dict; it is kept in its normal form (members in the order of their
  names), since that is all that \<open>==\<close> and the rendering see.\<close>

record marker_snapshot =
  ms_authority :: authority
  ms_state :: marker_state
  ms_sequence :: int
  ms_digest :: string
  ms_details :: "marker_state \<Rightarrow> json option"

definition assert_authority :: "authority \<Rightarrow> authority \<Rightarrow> bool \<Rightarrow> recovery_error + unit" where
  "assert_authority observed expected compare_token =
     (if au_task observed \<noteq> au_task expected
      then Inl (Idempotency_Conflict ''capture idempotency conflict: task_id'')
      else if au_execution observed \<noteq> au_execution expected
      then Inl (Idempotency_Conflict ''capture idempotency conflict: execution_id'')
      else if au_key observed \<noteq> au_key expected
      then Inl (Idempotency_Conflict ''capture idempotency conflict: idempotency_key'')
      else if au_fingerprint observed \<noteq> au_fingerprint expected
      then Inl (Idempotency_Conflict ''capture idempotency conflict: fingerprint'')
      else if compare_token \<and> au_token observed \<noteq> au_token expected
      then Inl (Manual_Recovery ''capture operation token is inconsistent'')
      else Inr ())"

section \<open>Writing\<close>

datatype open_check = Marker_Same | Marker_Closed | Marker_Inode | Marker_Entry | Marker_Name

fun validate_open_identity :: "open_check \<Rightarrow> recovery_error + unit" where
  "validate_open_identity Marker_Same = Inr ()"
| "validate_open_identity Marker_Closed = Inl (Capture_Recovery ''capture marker is closed'')"
| "validate_open_identity Marker_Inode = Inl (Manual_Recovery ''capture marker inode changed'')"
| "validate_open_identity Marker_Entry = Inl Entry_Mismatch"
| "validate_open_identity Marker_Name = Inl (Manual_Recovery ''capture marker name changed'')"

text \<open>What one operation meets outside: the digest and the clock, the result of the identity check before
  and after the append, and the name under which a retirement left the file (\<open>None\<close> when it is not
  durable).\<close>

record marker_env =
  me_sha :: "string \<Rightarrow> string"
  me_now :: string
  me_open :: open_check
  me_confirmed :: bool
  me_quarantine :: "string option"

record marker_file =
  mf_name :: string
  mf_text :: string

definition event_json ::
  "int \<Rightarrow> marker_state \<Rightarrow> string option \<Rightarrow> string \<Rightarrow> authority \<Rightarrow> (string \<times> json) list \<Rightarrow> json" where
  "event_json sequence state previous now au details = JObj
     [(''version'', JInt 1),
      (''sequence'', JInt sequence),
      (''state'', JStr (marker_text state)),
      (''previous_digest'', case previous of None \<Rightarrow> JNull | Some d \<Rightarrow> JStr d),
      (''recorded_at'', JStr now),
      (''task_id'', JStr (au_task au)),
      (''execution_id'', JStr (au_execution au)),
      (''idempotency_key'', JStr (au_key au)),
      (''fingerprint_version'', JStr (fp_version (au_fingerprint au))),
      (''fingerprint_sha256'', JStr (fp_sha256 (au_fingerprint au))),
      (''operation_token'', JStr (au_token au)),
      (''details'', JObj details)]"

definition append_event ::
  "marker_env \<Rightarrow> marker_snapshot \<Rightarrow> marker_state \<Rightarrow> (string \<times> json) list \<Rightarrow> marker_file
    \<Rightarrow> (recovery_error + marker_snapshot) \<times> marker_file" where
  "append_event env snap state details f =
     (if fst ` set details \<noteq> set (DETAIL_FIELDS state)
      then (Inl (Bad_Value ''capture marker details are invalid''), f)
      else case validate_open_identity (me_open env) of
        Inl e \<Rightarrow> (Inl e, f)
      | Inr _ \<Rightarrow> (let line = ascii_json (event_json (ms_sequence snap + 1) state (Some (ms_digest snap)) (me_now env)
                           (ms_authority snap) details);
                f' = f\<lparr>mf_text := mf_text f @ line @ [CHR 0x0A]\<rparr>
            in if length (mf_text f) + length line + 1 > MAXIMUM_MARKER_BYTES
               then (Inl (Capture_Recovery ''capture marker exceeds its size limit''), f)
               else if \<not> me_confirmed env then (Inl Entry_Mismatch, f')
               else (Inr \<lparr>ms_authority = ms_authority snap, ms_state = state,
                          ms_sequence = ms_sequence snap + 1, ms_digest = me_sha env line,
                          ms_details = (ms_details snap)(state \<mapsto> normal_json (JObj details))\<rparr>, f')))"

definition advance_marker ::
  "marker_env \<Rightarrow> marker_snapshot \<Rightarrow> marker_state \<Rightarrow> (string \<times> json) list \<Rightarrow> marker_file
    \<Rightarrow> (recovery_error + marker_snapshot) \<times> marker_file" where
  "advance_marker env snap state details f =
     (if SUCCESSOR (ms_state snap) \<noteq> Some state
      then (Inl (Capture_Recovery ''capture marker transition is invalid''), f)
      else append_event env snap state details f)"

definition note_intent_durable ::
  "marker_env \<Rightarrow> marker_snapshot \<Rightarrow> (string \<times> json) list \<Rightarrow> marker_file
    \<Rightarrow> (recovery_error + marker_snapshot) \<times> marker_file" where
  "note_intent_durable env snap details f =
     (if ms_state snap = Intent_Durable
      then if ms_details snap Intent_Durable \<noteq> Some (normal_json (JObj details))
           then (Inl (Manual_Recovery ''artifact intent authority differs from the capture marker''), f)
           else (Inr snap, f)
      else advance_marker env snap Intent_Durable details f)"

definition note_rollback_verification ::
  "marker_env \<Rightarrow> marker_snapshot \<Rightarrow> json \<Rightarrow> marker_file \<Rightarrow> (recovery_error + marker_snapshot) \<times> marker_file" where
  "note_rollback_verification env snap rollback f =
     (if ms_state snap = Capture_Complete
      then advance_marker env snap Rollback_Pending [(''rollback'', rollback)] f
      else if ms_state snap = Reserved
      then append_event env snap Rollback_Pending [(''rollback'', rollback)] f
      else if ms_state snap \<noteq> Rollback_Pending
      then (Inl (Capture_Recovery ''capture marker is not awaiting rollback verification''), f)
      else append_event env snap Rollback_Pending [(''rollback'', rollback)] f)"

definition RETIRED_PREFIX :: string where
  "RETIRED_PREFIX = ''.capture-marker-retired-''"

definition retired_name :: "string \<Rightarrow> bool" where
  "retired_name name \<longleftrightarrow> take (length RETIRED_PREFIX) name = RETIRED_PREFIX
     \<and> hex_text 64 (drop (length RETIRED_PREFIX) name)"

definition optional_name :: "string option \<Rightarrow> json" where
  "optional_name v = (case v of None \<Rightarrow> JNull | Some s \<Rightarrow> JStr s)"

definition logical_retire ::
  "marker_env \<Rightarrow> marker_snapshot \<Rightarrow> string \<Rightarrow> string option \<Rightarrow> marker_file
    \<Rightarrow> (recovery_error + marker_snapshot) \<times> marker_file" where
  "logical_retire env snap reason source f =
     (case validate_open_identity (me_open env) of
        Inl e \<Rightarrow> (Inl e, f)
      | Inr _ \<Rightarrow>
     (case me_quarantine env of
        None \<Rightarrow> (Inl (Manual_Recovery ''capture marker retirement was not durable''), f)
      | Some name \<Rightarrow>
          if \<not> retired_name name
          then (Inl (Manual_Recovery ''capture marker retired name is invalid''), f\<lparr>mf_name := name\<rparr>)
          else (let details = [(''reason'', JStr reason), (''source_quarantine_name'', optional_name source),
                               (''marker_quarantine_name'', JStr name)];
                    f' = f\<lparr>mf_name := name\<rparr>
                in if SUCCESSOR (ms_state snap) = Some Retired
                   then advance_marker env snap Retired details f'
                   else append_event env snap Retired details f')))"

definition retire ::
  "marker_env \<Rightarrow> marker_snapshot \<Rightarrow> string \<Rightarrow> string option \<Rightarrow> marker_file
    \<Rightarrow> (recovery_error + marker_snapshot) \<times> marker_file" where
  "retire env snap reason source f =
     (if ms_state snap \<noteq> Binding_Published
      then (Inl (Capture_Recovery ''successful capture marker cannot retire before binding''), f)
      else logical_retire env snap reason source f)"

definition retire_aborted ::
  "marker_env \<Rightarrow> marker_snapshot \<Rightarrow> string \<Rightarrow> string option \<Rightarrow> marker_file
    \<Rightarrow> (recovery_error + marker_snapshot) \<times> marker_file" where
  "retire_aborted env snap reason source f =
     (if ms_state snap = Retired then (Inr snap, f) else logical_retire env snap reason source f)"

section \<open>Reading\<close>

record python =
  py_norm :: "string \<Rightarrow> string"
  py_repr :: "json \<Rightarrow> string"
  py_sha :: "string \<Rightarrow> string"

definition EVENT_FIELDS :: "string list" where
  "EVENT_FIELDS = [''version'', ''sequence'', ''state'', ''previous_digest'', ''recorded_at'', ''task_id'',
     ''execution_id'', ''idempotency_key'', ''fingerprint_version'', ''fingerprint_sha256'',
     ''operation_token'', ''details'']"

definition event_authority :: "python \<Rightarrow> json \<Rightarrow> recovery_error + authority" where
  "event_authority py payload =
     (case capture_fingerprint (py_text (py_repr py) (field payload ''fingerprint_version''))
             (py_text (py_repr py) (field payload ''fingerprint_sha256'')) of
        Inl e \<Rightarrow> Inl e
      | Inr fp \<Rightarrow>
          capture_authority (py_text (py_repr py) (field payload ''task_id''))
            (py_text (py_repr py) (field payload ''execution_id''))
            (py_text (py_repr py) (field payload ''idempotency_key'')) fp
            (py_text (py_repr py) (field payload ''operation_token'')))"

definition allowed_successor :: "marker_state \<Rightarrow> marker_state \<Rightarrow> bool" where
  "allowed_successor before state \<longleftrightarrow>
     SUCCESSOR before = Some state \<or> state = Retired
     \<or> (before = Rollback_Pending \<and> state = Rollback_Pending)
     \<or> (before = Reserved \<and> state = Rollback_Pending)"

definition object_with :: "json \<Rightarrow> string list \<Rightarrow> bool" where
  "object_with j names = (case j of JObj kvs \<Rightarrow> fst ` set kvs = set names | _ \<Rightarrow> False)"

definition read_event ::
  "python \<Rightarrow> marker_snapshot option \<Rightarrow> string \<Rightarrow> recovery_error + marker_snapshot" where
  "read_event py before line =
     (case (if utf8_points line = None then None else loads (py_norm py) line) of
        None \<Rightarrow> Inl (Manual_Recovery ''capture marker JSON is corrupt'')
      | Some payload \<Rightarrow>
          if \<not> object_with payload EVENT_FIELDS
          then Inl (Manual_Recovery ''capture marker fields are invalid'')
          else (case (marker_of_text (py_text (py_repr py) (field payload ''state'')), event_authority py payload) of
              (Some state, Inr current) \<Rightarrow>
                let sequence = (case before of None \<Rightarrow> -1 | Some s \<Rightarrow> ms_sequence s);
                    previous = (case before of None \<Rightarrow> JNull | Some s \<Rightarrow> JStr (ms_digest s))
                in if \<not> equals_one (field payload ''version'')
                      \<or> field payload ''sequence'' \<noteq> JInt (sequence + 1)
                      \<or> \<not> object_with (field payload ''details'') (DETAIL_FIELDS state)
                      \<or> field payload ''previous_digest'' \<noteq> previous
                   then Inl (Manual_Recovery ''capture marker event chain is invalid'')
                   else (let next_snapshot = (\<lambda>au details.
                               \<lparr>ms_authority = au, ms_state = state, ms_sequence = sequence + 1,
                                ms_digest = py_sha py line,
                                ms_details = details(state \<mapsto> normal_json (field payload ''details''))\<rparr>)
                         in case before of
                              None \<Rightarrow>
                                if state \<noteq> Planned
                                then Inl (Manual_Recovery ''capture marker lacks planned state'')
                                else Inr (next_snapshot current Map.empty)
                            | Some s \<Rightarrow>
                                (case assert_authority current (ms_authority s) True of
                                   Inl e \<Rightarrow> Inl e
                                 | Inr _ \<Rightarrow>
                                     if \<not> allowed_successor (ms_state s) state
                                     then Inl (Manual_Recovery ''capture marker transition is invalid'')
                                     else Inr (next_snapshot (ms_authority s) (ms_details s))))
            | _ \<Rightarrow> Inl (Manual_Recovery ''capture marker authority is invalid'')))"

fun read_events :: "python \<Rightarrow> marker_snapshot option \<Rightarrow> string list \<Rightarrow> recovery_error + marker_snapshot" where
  "read_events py before [] =
     (case before of None \<Rightarrow> Inl (Manual_Recovery ''capture marker is empty'') | Some s \<Rightarrow> Inr s)"
| "read_events py before (line # lines) =
     (case read_event py before line of
        Inl e \<Rightarrow> Inl e
      | Inr s \<Rightarrow> read_events py (Some s) lines)"

definition read_marker :: "python \<Rightarrow> bool \<Rightarrow> string \<Rightarrow> recovery_error + marker_snapshot" where
  "read_marker py unchanged text =
     (if text = [] \<or> length text > MAXIMUM_MARKER_BYTES
      then Inl (Manual_Recovery ''capture marker size is invalid'')
      else if last text \<noteq> CHR 0x0A then Inl (Manual_Recovery ''capture marker has an incomplete event'')
      else if \<not> unchanged then Inl (Manual_Recovery ''capture marker changed during inspection'')
      else read_events py None (splitlines text))"

section \<open>Beginning\<close>

definition marker_name :: "string \<Rightarrow> string" where
  "marker_name key = key @ ''.jsonl''"

definition source_name :: "string \<Rightarrow> string \<Rightarrow> string \<Rightarrow> recovery_error + string" where
  "source_name execution format token =
     (if format \<notin> {''pcap'', ''pcapng''} then Inl (Bad_Value ''capture source format is invalid'')
      else if \<not> hex_text 32 token then Inl (Bad_Value ''capture source operation token is invalid'')
      else Inr (''capture-'' @ execution @ ''-'' @ token @ ''.'' @ format))"

text \<open>\<open>begin_marker\<close> creates the file \<open><key>.jsonl\<close> in the directory of the markers exclusively and writes the
  first event, or, when a file of that name is there, opens it and compares its authority, up to the
  token of the attempt.  A lock held by another process is met after the file is there, so a new file
  may stay empty.  The directory is the list of its files.\<close>

record begin_env =
  be_python :: python
  be_available :: bool
  be_busy :: bool
  be_unchanged :: bool
  be_confirmed :: bool
  be_now :: string
  be_token :: string
  be_root :: string
  be_root_dev :: int
  be_root_ino :: int

definition open_marker :: "begin_env \<Rightarrow> marker_file \<Rightarrow> recovery_error + marker_snapshot" where
  "open_marker env f =
     (if be_busy env then Inl Capture_In_Progress
      else read_marker (be_python env) (be_unchanged env) (mf_text f))"

definition planned_details :: "begin_env \<Rightarrow> json \<Rightarrow> string \<Rightarrow> string \<Rightarrow> (string \<times> json) list" where
  "planned_details env request source format =
     [(''request'', request), (''source_name'', JStr source), (''capture_format'', JStr format),
      (''artifact_root'', JStr (be_root env)), (''artifact_root_dev'', JInt (be_root_dev env)),
      (''artifact_root_ino'', JInt (be_root_ino env))]"

definition begin_marker ::
  "begin_env \<Rightarrow> string \<Rightarrow> string \<Rightarrow> string \<Rightarrow> fingerprint \<Rightarrow> json \<Rightarrow> string \<Rightarrow> marker_file list
    \<Rightarrow> (recovery_error + marker_snapshot \<times> bool) \<times> marker_file list" where
  "begin_marker env task execution key fp request format dir =
     (if \<not> be_available env
      then (Inl (Capture_Recovery ''capture marker store is unavailable in reuse-only mode''), dir)
      else case capture_authority task execution key fp (be_token env) of
        Inl e \<Rightarrow> (Inl e, dir)
      | Inr au \<Rightarrow>
          (case source_name execution format (be_token env) of
             Inl e \<Rightarrow> (Inl e, dir)
           | Inr source \<Rightarrow>
               (case find (\<lambda>f. mf_name f = marker_name key) dir of
                  Some f \<Rightarrow>
                    (case open_marker env f of
                       Inl e \<Rightarrow> (Inl e, dir)
                     | Inr snap \<Rightarrow>
                         (case assert_authority (ms_authority snap) au False of
                            Inl e \<Rightarrow> (Inl e, dir)
                          | Inr _ \<Rightarrow> (Inr (snap, False), dir)))
                | None \<Rightarrow>
                    if be_busy env then (Inl Capture_In_Progress, dir @ [\<lparr>mf_name = marker_name key, mf_text = []\<rparr>])
                    else
                    let details = planned_details env request source format;
                        line = ascii_json (event_json 0 Planned None (be_now env) au details);
                        f = \<lparr>mf_name = marker_name key, mf_text = line @ [CHR 0x0A]\<rparr>
                    in if \<not> be_confirmed env then (Inl Entry_Mismatch, dir @ [f])
                       else (Inr (\<lparr>ms_authority = au, ms_state = Planned, ms_sequence = 0,
                                   ms_digest = py_sha (be_python env) line,
                                   ms_details = Map.empty(Planned \<mapsto> normal_json (JObj details))\<rparr>, True),
                             dir @ [f]))))"

end
