(* ===== verification/Capture_Log.thy ===== *)
theory Capture_Log
  imports Capture_Marker
begin

text \<open>
  The marker as a log: what one written event is read as, what appending a line does to the lines of
  the file, and the invariant that the file of a marker reads as its snapshot.
\<close>

section \<open>What the writer relies on\<close>

definition authority_ok :: "authority \<Rightarrow> bool" where
  "authority_ok au \<longleftrightarrow> canonical_uuid (au_task au) \<and> canonical_uuid (au_execution au) \<and> canonical_uuid (au_key au)
     \<and> fp_version (au_fingerprint au) \<noteq> [] \<and> ascii_text (fp_version (au_fingerprint au))
     \<and> hex_text 64 (fp_sha256 (au_fingerprint au)) \<and> hex_text 32 (au_token au)"

definition details_ok :: "(string \<times> json) list \<Rightarrow> bool" where
  "details_ok details \<longleftrightarrow> json_ascii (JObj details) \<and> json_plain (JObj details)"

lemma capture_authority_iff:
  "capture_authority t e k fp tok = Inr au \<longleftrightarrow>
     canonical_uuid t \<and> canonical_uuid e \<and> canonical_uuid k \<and> hex_text 32 tok
     \<and> au = \<lparr>au_task = t, au_execution = e, au_key = k, au_fingerprint = fp, au_token = tok\<rparr>"
  by (auto simp: capture_authority_def)

lemma lower_hex_ascii: "lower_hex c \<Longrightarrow> (of_char c :: nat) < 127"
  by (auto simp: lower_hex_def)

lemma hex_text_ascii: "hex_text n s \<Longrightarrow> ascii_text s"
  by (auto simp: hex_text_def ascii_text_def list_all_iff intro: lower_hex_ascii)

lemma uuid_ascii:
  assumes "canonical_uuid s"
  shows "ascii_text s"
  unfolding ascii_text_def
proof
  fix c assume "c \<in> set s"
  then obtain i where i: "i < 36" "c = s ! i" using assms by (auto simp: in_set_conv_nth canonical_uuid_def)
  then have "if i \<in> {8, 13, 18, 23} then s ! i = CHR ''-'' else lower_hex (s ! i)"
    using assms unfolding canonical_uuid_def list_all_iff by (metis atLeastLessThan_iff set_upt zero_le)
  then show "(of_char c :: nat) < 127" using i lower_hex_ascii by (auto split: if_splits)
qed

lemma ascii_text_simps [simp]:
  "ascii_text []" "ascii_text (c # s) \<longleftrightarrow> (of_char c :: nat) < 127 \<and> ascii_text s"
  by (auto simp: ascii_text_def)

lemma marker_text_ascii: "ascii_text (marker_text s)"
  by (cases s) simp_all

lemma marker_of_text_text [simp]: "marker_of_text (marker_text s) = Some s"
  by (cases s) (simp_all add: marker_of_text_def)

lemma normal_idem: "json_plain j \<Longrightarrow> normal_json (normal_json j) = normal_json j"
  using loads_canonical_json_plain [of j id] loads_canonical_json_plain [OF json_plain_normal, of j id]
  by (simp add: canonical_normal)

section \<open>One event\<close>

lemma event_fields: "fst ` set [(''version'', a1), (''sequence'', a2), (''state'', a3), (''previous_digest'', a4),
    (''recorded_at'', a5), (''task_id'', a6), (''execution_id'', a7), (''idempotency_key'', a8),
    (''fingerprint_version'', a9), (''fingerprint_sha256'', a10), (''operation_token'', a11), (''details'', a12)]
   = set EVENT_FIELDS"
  by (simp add: EVENT_FIELDS_def)

lemma event_plain: "details_ok details \<Longrightarrow> json_plain (event_json n s previous now au details)"
  by (simp add: event_json_def details_ok_def split: option.split)

lemma event_ascii:
  "details_ok details \<Longrightarrow> authority_ok au \<Longrightarrow> ascii_text now \<Longrightarrow> (\<forall>d. previous = Some d \<longrightarrow> ascii_text d)
   \<Longrightarrow> json_ascii (event_json n s previous now au details)"
  using marker_text_ascii [of s] hex_text_ascii uuid_ascii
  by (auto simp: event_json_def details_ok_def authority_ok_def split: option.split)

lemma object_with_normal: "object_with (normal_json (JObj kvs)) names \<longleftrightarrow> fst ` set kvs = set names"
  by (simp add: object_with_def image_comp comp_def)

lemma field_event:
  assumes "details_ok details"
  shows "field (normal_json (event_json n s previous now au details)) k
    = (case map_of (case event_json n s previous now au details of JObj kvs \<Rightarrow> kvs | _ \<Rightarrow> []) k of
         None \<Rightarrow> JNull | Some v \<Rightarrow> normal_json v)"
proof -
  have "distinct (map fst (case event_json n s previous now au details of JObj kvs \<Rightarrow> kvs | _ \<Rightarrow> []))"
    by (simp add: event_json_def)
  from json_get_normal [OF this, of k] show ?thesis
    by (simp add: field_def event_json_def del: normal_json.simps)
qed

lemma written_event_is_read:
  assumes details: "details_ok details" "fst ` set details = set (DETAIL_FIELDS s)"
    and au: "authority_ok au" and now: "ascii_text now"
    and previous: "\<forall>d. previous = Some d \<longrightarrow> ascii_text d"
  shows "read_event py before (ascii_json (event_json n s previous now au details)) =
    (case before of
       None \<Rightarrow> if n \<noteq> 0 \<or> previous \<noteq> None then Inl (Manual_Recovery ''capture marker event chain is invalid'')
               else if s \<noteq> Planned then Inl (Manual_Recovery ''capture marker lacks planned state'')
               else Inr \<lparr>ms_authority = au, ms_state = s, ms_sequence = 0,
                         ms_digest = py_sha py (ascii_json (event_json n s previous now au details)),
                         ms_details = Map.empty(s \<mapsto> normal_json (JObj details))\<rparr>
     | Some b \<Rightarrow>
         if n \<noteq> ms_sequence b + 1 \<or> previous \<noteq> Some (ms_digest b)
         then Inl (Manual_Recovery ''capture marker event chain is invalid'')
         else (case assert_authority au (ms_authority b) True of
             Inl e \<Rightarrow> Inl e
           | Inr _ \<Rightarrow>
               if \<not> allowed_successor (ms_state b) s
               then Inl (Manual_Recovery ''capture marker transition is invalid'')
               else Inr \<lparr>ms_authority = ms_authority b, ms_state = s, ms_sequence = n,
                         ms_digest = py_sha py (ascii_json (event_json n s previous now au details)),
                         ms_details = (ms_details b)(s \<mapsto> normal_json (JObj details))\<rparr>))"
proof -
  let ?e = "event_json n s previous now au details"
  define p where "p = normal_json ?e"
  define line where "line = ascii_json ?e"
  have ascii: "json_ascii ?e" using assms by (intro event_ascii)
  have plain: "json_plain ?e" using details(1) by (rule event_plain)
  have line: "ascii_json ?e = canonical_json ?e" by (rule ascii_canonical [OF ascii])
  have "printable (ascii_json ?e)" unfolding line by (rule printable_canonical [OF ascii plain])
  then have "\<forall>c \<in> set (ascii_json ?e). (of_char c :: nat) < 128" by (auto simp: printable_def)
  then have points: "utf8_points line \<noteq> None" unfolding line_def using utf8_points_ascii by fastforce
  have loaded: "loads (py_norm py) line = Some p"
    unfolding line_def p_def line by (rule loads_canonical_json_plain [OF plain])
  have shape: "object_with p EVENT_FIELDS"
    unfolding p_def event_json_def object_with_normal by (rule event_fields)
  have f: "field p k = (case map_of (case ?e of JObj kvs \<Rightarrow> kvs | _ \<Rightarrow> []) k of
      None \<Rightarrow> JNull | Some v \<Rightarrow> normal_json v)" for k
    unfolding p_def by (rule field_event [OF details(1)])
  have fields: "field p ''state'' = JStr (marker_text s)" "field p ''version'' = JInt 1" "field p ''sequence'' = JInt n"
    "field p ''details'' = normal_json (JObj details)"
    "field p ''previous_digest'' = (case previous of None \<Rightarrow> JNull | Some d \<Rightarrow> JStr d)"
    "field p ''task_id'' = JStr (au_task au)" "field p ''execution_id'' = JStr (au_execution au)"
    "field p ''idempotency_key'' = JStr (au_key au)" "field p ''operation_token'' = JStr (au_token au)"
    "field p ''fingerprint_version'' = JStr (fp_version (au_fingerprint au))"
    "field p ''fingerprint_sha256'' = JStr (fp_sha256 (au_fingerprint au))"
    unfolding f by (simp_all add: event_json_def del: normal_json.simps(7) split: option.split)
  have authority: "event_authority py p = Inr au"
    using au by (simp add: event_authority_def fields capture_fingerprint_def authority_ok_def capture_authority_iff)
  have detail: "object_with (normal_json (JObj details)) (DETAIL_FIELDS s)"
    unfolding object_with_normal by (rule details(2))
  have idem: "normal_json (normal_json (JObj details)) = normal_json (JObj details)"
    using details(1) by (intro normal_idem) (simp add: details_ok_def)
  have version: "equals_one (JInt 1)" by (simp add: equals_one_def)
  show ?thesis
    unfolding read_event_def line_def [symmetric] loaded if_not_P [OF points] option.case fields authority
      py_text.simps marker_of_text_text prod.case sum.case
    by (cases before; cases previous)
      (auto simp add: shape detail version idem Let_def simp del: normal_json.simps split: sum.split)
qed

section \<open>Lines of a file that grows\<close>

definition LF :: char where
  "LF = CHR 0x0A"

lemma byte_lines_append:
  "(s = [] \<longrightarrow> acc = []) \<Longrightarrow> (s \<noteq> [] \<longrightarrow> last s = LF) \<Longrightarrow>
     byte_lines acc (s @ t) = byte_lines acc s @ byte_lines [] t"
proof (induction acc s rule: byte_lines.induct)
  case (1 acc)
  then show ?case by simp
next
  case (2 acc c s)
  then show ?case by (cases s) (auto simp: LF_def split: if_splits)
qed

lemma splitlines_append:
  assumes "t \<noteq> []" "last t = LF" "printable l"
  shows "splitlines (t @ l @ [LF]) = splitlines t @ [l]"
proof -
  have "splitlines (l @ [LF]) = [l]" using splitlines_line [OF assms(3), of "[]"] by (simp add: LF_def splitlines_def)
  then show ?thesis using byte_lines_append [of t "[]" "l @ [LF]"] assms by (simp add: splitlines_def)
qed

lemma read_events_append:
  assumes "read_events py before ls = Inr s"
  shows "ls \<noteq> [] \<or> before = Some s" and "read_events py before (ls @ [l]) = read_event py (Some s) l"
proof -
  show "ls \<noteq> [] \<or> before = Some s" using assms by (cases ls) (auto split: option.splits)
  show "read_events py before (ls @ [l]) = read_event py (Some s) l"
    using assms by (induction py before ls rule: read_events.induct) (auto split: option.splits sum.splits)
qed

section \<open>The file reads as the snapshot\<close>

definition sha_ok :: "(string \<Rightarrow> string) \<Rightarrow> bool" where
  "sha_ok sha \<longleftrightarrow> (\<forall>x. hex_text 64 (sha x))"

definition next_line :: "marker_env \<Rightarrow> marker_snapshot \<Rightarrow> marker_state \<Rightarrow> (string \<times> json) list \<Rightarrow> string" where
  "next_line env snap s details =
     ascii_json (event_json (ms_sequence snap + 1) s (Some (ms_digest snap)) (me_now env) (ms_authority snap) details)"

definition next_snapshot ::
  "marker_env \<Rightarrow> marker_snapshot \<Rightarrow> marker_state \<Rightarrow> (string \<times> json) list \<Rightarrow> marker_snapshot" where
  "next_snapshot env snap s details =
     \<lparr>ms_authority = ms_authority snap, ms_state = s, ms_sequence = ms_sequence snap + 1,
      ms_digest = me_sha env (next_line env snap s details),
      ms_details = (ms_details snap)(s \<mapsto> normal_json (JObj details))\<rparr>"

definition marker_reads :: "python \<Rightarrow> marker_snapshot \<Rightarrow> string \<Rightarrow> bool" where
  "marker_reads py snap t \<longleftrightarrow> read_marker py True t = Inr snap \<and> authority_ok (ms_authority snap)
     \<and> ascii_text (ms_digest snap)"

lemma read_marker_iff:
  "read_marker py True t = Inr snap \<longleftrightarrow>
     t \<noteq> [] \<and> length t \<le> MAXIMUM_MARKER_BYTES \<and> last t = LF \<and> read_events py None (splitlines t) = Inr snap"
  by (auto simp: read_marker_def LF_def split: if_splits)

lemma event_line_printable:
  assumes "authority_ok au" "ascii_text now" "details_ok details" "\<forall>d. previous = Some d \<longrightarrow> ascii_text d"
  shows "printable (ascii_json (event_json n s previous now au details))"
proof -
  have "json_ascii (event_json n s previous now au details)" using assms by (intro event_ascii)
  then show ?thesis
    using event_plain [OF assms(3)] by (simp add: ascii_canonical printable_canonical)
qed

lemma assert_authority_same [simp]: "assert_authority au au b = Inr ()"
  by (simp add: assert_authority_def)

lemma marker_reads_next:
  assumes reads: "marker_reads py snap t" and sha: "sha_ok (py_sha py)" "me_sha env = py_sha py"
    and now: "ascii_text (me_now env)" and details: "details_ok details" "fst ` set details = set (DETAIL_FIELDS s)"
    and allowed: "allowed_successor (ms_state snap) s"
    and size: "length t + length (next_line env snap s details) + 1 \<le> MAXIMUM_MARKER_BYTES"
  shows "marker_reads py (next_snapshot env snap s details) (t @ next_line env snap s details @ [LF])"
proof -
  let ?l = "next_line env snap s details"
  have t: "t \<noteq> []" "last t = LF" "read_events py None (splitlines t) = Inr snap"
    and au: "authority_ok (ms_authority snap)" and digest: "ascii_text (ms_digest snap)"
    using reads by (auto simp: marker_reads_def read_marker_iff)
  have previous: "\<forall>d. Some (ms_digest snap) = Some d \<longrightarrow> ascii_text d" using digest by simp
  have "printable ?l"
    unfolding next_line_def by (rule event_line_printable [OF au now details(1) previous])
  then have "splitlines (t @ ?l @ [LF]) = splitlines t @ [?l]" using t by (intro splitlines_append)
  moreover have "read_event py (Some snap) ?l = Inr (next_snapshot env snap s details)"
    using allowed sha(2)
    unfolding next_line_def written_event_is_read [OF details au now previous] next_snapshot_def by simp
  ultimately have "read_marker py True (t @ ?l @ [LF]) = Inr (next_snapshot env snap s details)"
    using t(1) size by (simp add: read_marker_iff read_events_append(2) [OF t(3)])
  then show ?thesis
    using au sha by (auto simp: marker_reads_def next_snapshot_def sha_ok_def intro: hex_text_ascii)
qed

lemma torn_line_is_incomplete:
  assumes "marker_reads py snap t" "printable l" "length t + length l \<le> MAXIMUM_MARKER_BYTES" "k \<le> length l"
  shows "read_marker py True (t @ take k l) =
    (if k = 0 then Inr snap else Inl (Manual_Recovery ''capture marker has an incomplete event''))"
proof (cases "k = 0")
  case True
  then show ?thesis using assms(1) by (simp add: marker_reads_def)
next
  case False
  then have "take k l \<noteq> []" using assms(4) by auto
  then have "last (take k l) \<in> set l" by (meson in_set_takeD last_in_set)
  then have "last (take k l) \<noteq> CHR 0x0A" using assms(2) by (auto simp: printable_def)
  then show ?thesis using False \<open>take k l \<noteq> []\<close> assms(3,4) by (simp add: read_marker_def)
qed

end
