(* ===== verification/Capture_Runs.thy ===== *)
theory Capture_Runs
  imports Capture_Log
begin

text \<open>
  The operations of an open marker together: what each of them does to the text of the file, and the
  markers that beginning, operating and reopening can lead to, whose file reads as their snapshot.
\<close>

section \<open>The operations of an open marker\<close>

datatype marker_op =
    Op_Advance marker_state "(string \<times> json) list"
  | Op_Intent "(string \<times> json) list"
  | Op_Rollback json
  | Op_Retire string "string option"
  | Op_Abort string "string option"

fun marker_step ::
  "marker_env \<Rightarrow> marker_op \<Rightarrow> marker_snapshot \<Rightarrow> marker_file \<Rightarrow> (recovery_error + marker_snapshot) \<times> marker_file" where
  "marker_step env (Op_Advance s details) snap f = advance_marker env snap s details f"
| "marker_step env (Op_Intent details) snap f = note_intent_durable env snap details f"
| "marker_step env (Op_Rollback rollback) snap f = note_rollback_verification env snap rollback f"
| "marker_step env (Op_Retire why source) snap f = retire env snap why source f"
| "marker_step env (Op_Abort why source) snap f = retire_aborted env snap why source f"

fun op_ok :: "marker_op \<Rightarrow> bool" where
  "op_ok (Op_Advance s details) \<longleftrightarrow> details_ok details"
| "op_ok (Op_Intent details) \<longleftrightarrow> details_ok details"
| "op_ok (Op_Rollback rollback) \<longleftrightarrow> json_ascii rollback \<and> json_plain rollback"
| "op_ok (Op_Retire why source) \<longleftrightarrow> ascii_text why \<and> (case source of None \<Rightarrow> True | Some s \<Rightarrow> ascii_text s)"
| "op_ok (Op_Abort why source) \<longleftrightarrow> ascii_text why \<and> (case source of None \<Rightarrow> True | Some s \<Rightarrow> ascii_text s)"

text \<open>An operation that changes the text of the file writes one allowed line; it then succeeds, or the
  check after the write fails.\<close>

definition writes ::
  "marker_env \<Rightarrow> marker_snapshot \<Rightarrow> string \<Rightarrow> recovery_error + marker_snapshot \<Rightarrow> string \<Rightarrow> bool" where
  "writes env snap t r t' \<longleftrightarrow>
     (\<exists>s details. allowed_successor (ms_state snap) s \<and> details_ok details \<and> fst ` set details = set (DETAIL_FIELDS s)
        \<and> length t + length (next_line env snap s details) + 1 \<le> MAXIMUM_MARKER_BYTES
        \<and> t' = t @ next_line env snap s details @ [LF]
        \<and> (r = Inr (next_snapshot env snap s details) \<or> r = Inl Entry_Mismatch))"

definition stays :: "marker_snapshot \<Rightarrow> string \<Rightarrow> recovery_error + marker_snapshot \<Rightarrow> string \<Rightarrow> bool" where
  "stays snap t r t' \<longleftrightarrow> t' = t \<and> (\<forall>s. r = Inr s \<longrightarrow> s = snap)"

lemma append_event_effect:
  assumes "append_event env snap s details f = (r, f')" "details_ok details" "allowed_successor (ms_state snap) s"
  shows "stays snap (mf_text f) r (mf_text f') \<or> writes env snap (mf_text f) r (mf_text f')"
proof (cases "stays snap (mf_text f) r (mf_text f')")
  case False
  then have "fst ` set details = set (DETAIL_FIELDS s)"
    and "length (mf_text f) + length (next_line env snap s details) + 1 \<le> MAXIMUM_MARKER_BYTES"
    and "mf_text f' = mf_text f @ next_line env snap s details @ [LF]"
    and "r = Inr (next_snapshot env snap s details) \<or> r = Inl Entry_Mismatch"
    using assms(1)
    by (auto simp: append_event_def stays_def next_line_def next_snapshot_def LF_def Let_def
        split: if_splits sum.splits)
  then show ?thesis unfolding writes_def using assms(2,3) by blast
qed simp

lemma advance_marker_effect:
  assumes "advance_marker env snap s details f = (r, f')" "details_ok details"
  shows "stays snap (mf_text f) r (mf_text f') \<or> writes env snap (mf_text f) r (mf_text f')"
proof (cases "SUCCESSOR (ms_state snap) = Some s")
  case True
  then show ?thesis
    using assms by (intro append_event_effect) (auto simp: advance_marker_def allowed_successor_def)
next
  case False
  then show ?thesis using assms by (auto simp: advance_marker_def stays_def)
qed

lemma retired_name_ascii: "retired_name name \<Longrightarrow> ascii_text name"
  unfolding retired_name_def
  by (rule ssubst [OF append_take_drop_id [of "length RETIRED_PREFIX" name, symmetric]])
    (auto dest!: hex_text_ascii simp: ascii_text_def RETIRED_PREFIX_def simp del: append_take_drop_id)

lemma logical_retire_effect:
  assumes "logical_retire env snap why source f = (r, f')" "op_ok (Op_Abort why source)"
  shows "stays snap (mf_text f) r (mf_text f') \<or> writes env snap (mf_text f) r (mf_text f')"
proof (cases "\<exists>name. validate_open_identity (me_open env) = Inr () \<and> me_quarantine env = Some name \<and> retired_name name")
  case False
  then show ?thesis
    using assms(1) by (auto simp: logical_retire_def stays_def split: sum.splits option.splits if_splits)
next
  case True
  then obtain name where name: "validate_open_identity (me_open env) = Inr ()" "me_quarantine env = Some name"
    "retired_name name" by blast
  let ?d = "[(''reason'', JStr why), (''source_quarantine_name'', optional_name source),
     (''marker_quarantine_name'', JStr name)]"
  have ok: "details_ok ?d"
    using assms(2) retired_name_ascii [OF name(3)] by (auto simp: details_ok_def optional_name_def split: option.splits)
  have "stays snap (mf_text (f\<lparr>mf_name := name\<rparr>)) r (mf_text f') \<or> writes env snap (mf_text (f\<lparr>mf_name := name\<rparr>)) r (mf_text f')"
  proof (cases "SUCCESSOR (ms_state snap) = Some Retired")
    case True
    then have "advance_marker env snap Retired ?d (f\<lparr>mf_name := name\<rparr>) = (r, f')"
      using assms(1) name by (simp add: logical_retire_def)
    then show ?thesis using ok by (rule advance_marker_effect)
  next
    case False
    then have "append_event env snap Retired ?d (f\<lparr>mf_name := name\<rparr>) = (r, f')"
      using assms(1) name by (simp add: logical_retire_def)
    then show ?thesis using ok by (rule append_event_effect) (simp add: allowed_successor_def)
  qed
  then show ?thesis by simp
qed

lemma marker_step_effect:
  assumes "marker_step env op snap f = (r, f')" "op_ok op"
  shows "stays snap (mf_text f) r (mf_text f') \<or> writes env snap (mf_text f) r (mf_text f')"
proof (cases op)
  case (Op_Advance s details)
  then show ?thesis using assms advance_marker_effect by auto
next
  case (Op_Intent details)
  then show ?thesis
    using assms advance_marker_effect
    by (cases "ms_state snap = Intent_Durable") (auto simp: note_intent_durable_def stays_def split: if_splits)
next
  case (Op_Rollback rollback)
  then have "details_ok [(''rollback'', rollback)]" using assms(2) by (simp add: details_ok_def)
  then show ?thesis
    using assms(1) Op_Rollback advance_marker_effect append_event_effect
    by (auto simp: note_rollback_verification_def stays_def allowed_successor_def split: if_splits)
next
  case (Op_Retire why source)
  then show ?thesis
    using assms logical_retire_effect by (auto simp: retire_def stays_def split: if_splits)
next
  case (Op_Abort why source)
  then show ?thesis
    using assms logical_retire_effect by (auto simp: retire_aborted_def stays_def split: if_splits)
qed

text \<open>Only a retirement takes the file off its name.\<close>

lemma append_event_name: "append_event env snap s details f = (r, f') \<Longrightarrow> mf_name f' = mf_name f"
  by (auto simp: append_event_def Let_def split: if_splits sum.splits)

lemma marker_step_name:
  assumes "marker_step env op snap f = (r, f')" and "\<forall>why source. op \<noteq> Op_Retire why source \<and> op \<noteq> Op_Abort why source"
  shows "mf_name f' = mf_name f"
  using assms
  by (cases op) (auto simp: advance_marker_def note_intent_durable_def note_rollback_verification_def
      dest: append_event_name split: if_splits)

section \<open>Markers in use\<close>

definition begin_ok :: "begin_env \<Rightarrow> fingerprint \<Rightarrow> json \<Rightarrow> bool" where
  "begin_ok env fp request \<longleftrightarrow> ascii_text (be_now env) \<and> ascii_text (be_root env) \<and> ascii_text (fp_version fp)
     \<and> fp_version fp \<noteq> [] \<and> hex_text 64 (fp_sha256 fp) \<and> json_ascii request \<and> json_plain request"

text \<open>A marker is begun, used by operations that succeed, and reopened from the file as another process
  finds it, also after an operation that failed.\<close>

inductive marker_run :: "python \<Rightarrow> marker_snapshot \<Rightarrow> marker_file \<Rightarrow> bool" for py where
  begun: "begin_ok env fp request \<Longrightarrow> be_python env = py \<Longrightarrow>
     begin_marker env task execution key fp request format dir = (Inr (snap, True), dir @ [f]) \<Longrightarrow>
     length (mf_text f) \<le> MAXIMUM_MARKER_BYTES \<Longrightarrow> marker_run py snap f"
| operated: "marker_run py snap f \<Longrightarrow> me_sha env = py_sha py \<Longrightarrow> ascii_text (me_now env) \<Longrightarrow> op_ok op \<Longrightarrow>
     marker_step env op snap f = (Inr snap', f') \<Longrightarrow> marker_run py snap' f'"
| failed: "marker_run py snap f \<Longrightarrow> me_sha env = py_sha py \<Longrightarrow> ascii_text (me_now env) \<Longrightarrow> op_ok op \<Longrightarrow>
     marker_step env op snap f = (Inl e, f') \<Longrightarrow> read_marker py True (mf_text f') = Inr snap' \<Longrightarrow>
     marker_run py snap' f'"

lemma begin_reads:
  assumes begin_marker: "begin_marker env task execution key fp request format dir = (Inr (snap, True), dir @ [f])"
    and ok: "begin_ok env fp request" and sha: "sha_ok (py_sha (be_python env))"
    and size: "length (mf_text f) \<le> MAXIMUM_MARKER_BYTES"
  shows "marker_reads (be_python env) snap (mf_text f)"
proof -
  obtain au source where au: "capture_authority task execution key fp (be_token env) = Inr au"
    and source: "source_name execution format (be_token env) = Inr source"
    using begin_marker by (auto simp: begin_marker_def split: if_splits sum.splits)
  define details where "details = planned_details env request source format"
  define line where "line = ascii_json (event_json 0 Planned None (be_now env) au details)"
  have snap: "snap = \<lparr>ms_authority = au, ms_state = Planned, ms_sequence = 0,
      ms_digest = py_sha (be_python env) line, ms_details = Map.empty(Planned \<mapsto> normal_json (JObj details))\<rparr>"
    and f: "mf_text f = line @ [LF]"
    using begin_marker
    by (auto simp: begin_marker_def au source details_def line_def LF_def Let_def simp del: normal_json.simps
        split: if_splits option.splits sum.splits)
  have authority: "authority_ok au" and execution: "canonical_uuid execution"
    using au ok by (auto simp: capture_authority_iff authority_ok_def begin_ok_def)
  have "format \<in> {''pcap'', ''pcapng''}" "hex_text 32 (be_token env)"
    and "source = ''capture-'' @ execution @ ''-'' @ be_token env @ ''.'' @ format"
    using source by (auto simp: source_name_def split: if_splits)
  then have "ascii_text source" "ascii_text format"
    using uuid_ascii [OF execution] hex_text_ascii [of 32 "be_token env"] by (auto simp: ascii_text_def)
  then have details: "details_ok details"
    using ok by (simp add: details_def planned_details_def details_ok_def begin_ok_def)
  have names: "fst ` set details = set (DETAIL_FIELDS Planned)"
    by (simp add: details_def planned_details_def)
  have now: "ascii_text (be_now env)" using ok by (simp add: begin_ok_def)
  have none: "\<forall>d. None = Some d \<longrightarrow> ascii_text d" by simp
  have "printable line" unfolding line_def by (rule event_line_printable [OF authority now details none])
  then have "splitlines (line @ [LF]) = [line]"
    using splitlines_line [of line "[]"] by (simp add: LF_def splitlines_def)
  moreover have "read_event (be_python env) None line = Inr snap"
    unfolding line_def written_event_is_read [OF details names authority now none]
    by (simp add: snap line_def del: normal_json.simps)
  ultimately have "read_marker (be_python env) True (mf_text f) = Inr snap"
    using size by (simp add: read_marker_iff f)
  then show ?thesis
    using authority sha by (auto simp: marker_reads_def snap sha_ok_def intro: hex_text_ascii)
qed

lemma writes_reads:
  assumes "writes env snap t r t'" "marker_reads py snap t" "sha_ok (py_sha py)" "me_sha env = py_sha py"
    "ascii_text (me_now env)"
  shows "\<exists>snap'. marker_reads py snap' t' \<and> (r = Inr snap' \<or> r = Inl Entry_Mismatch)
    \<and> ms_authority snap' = ms_authority snap \<and> ms_sequence snap' = ms_sequence snap + 1
    \<and> allowed_successor (ms_state snap) (ms_state snap')"
proof -
  from assms(1) obtain s details where w: "allowed_successor (ms_state snap) s" "details_ok details"
    "fst ` set details = set (DETAIL_FIELDS s)"
    "length t + length (next_line env snap s details) + 1 \<le> MAXIMUM_MARKER_BYTES"
    "t' = t @ next_line env snap s details @ [LF]"
    "r = Inr (next_snapshot env snap s details) \<or> r = Inl Entry_Mismatch"
    unfolding writes_def by blast
  from marker_reads_next [OF assms(2-5) w(2,3,1,4)]
  have "marker_reads py (next_snapshot env snap s details) t'" by (simp add: w(5))
  then show ?thesis using w(1,6) by (intro exI [of _ "next_snapshot env snap s details"]) (simp add: next_snapshot_def)
qed

lemma marker_run_reads:
  assumes "marker_run py snap f" "sha_ok (py_sha py)"
  shows "marker_reads py snap (mf_text f)"
  using assms
proof (induction rule: marker_run.induct)
  case (begun env fp request task execution key format dir snap f)
  then show ?case using begin_reads by blast
next
  case (operated snap f env op snap' f')
  then have reads: "marker_reads py snap (mf_text f)" by blast
  from marker_step_effect [OF operated.hyps(5,4)] show ?case
  proof
    assume "stays snap (mf_text f) (Inr snap') (mf_text f')"
    then show ?thesis using reads by (simp add: stays_def)
  next
    assume "writes env snap (mf_text f) (Inr snap') (mf_text f')"
    from writes_reads [OF this reads operated.prems operated.hyps(2,3)] show ?thesis by auto
  qed
next
  case (failed snap f env op e f' snap')
  then have reads: "marker_reads py snap (mf_text f)" by blast
  from marker_step_effect [OF failed.hyps(5,4)] show ?case
  proof
    assume "stays snap (mf_text f) (Inl e) (mf_text f')"
    then show ?thesis using reads failed.hyps(6) by (simp add: stays_def marker_reads_def)
  next
    assume "writes env snap (mf_text f) (Inl e) (mf_text f')"
    from writes_reads [OF this reads failed.prems failed.hyps(2,3)] show ?thesis
      using failed.hyps(6) by (auto simp: marker_reads_def)
  qed
qed

end
