(* ===== verification/Capture_Demo.thy ===== *)
theory Capture_Demo
  imports Capture_Runs
begin

text \<open>
  A marker begun and reserved on concrete values, for the instances of the properties.
\<close>

section \<open>A marker in the making\<close>

definition demo_python :: python where
  "demo_python = \<lparr>py_norm = id, py_repr = (\<lambda>_. []), py_sha = (\<lambda>x. if length x mod 2 = 0 then replicate 64 CHR ''a'' else replicate 64 CHR ''b'')\<rparr>"

definition demo_begin :: begin_env where
  "demo_begin = \<lparr>be_python = demo_python, be_available = True, be_busy = False, be_unchanged = True,
     be_confirmed = True, be_now = ''2026-01-01T00:00:00Z'', be_token = replicate 32 CHR ''0'',
     be_root = ''/var/lib/wto/artifacts'', be_root_dev = 8, be_root_ino = 77\<rparr>"

definition demo_uuid :: "char \<Rightarrow> string" where
  "demo_uuid c = replicate 8 c @ ''-'' @ replicate 4 c @ ''-'' @ replicate 4 c @ ''-'' @ replicate 4 c @ ''-'' @ replicate 12 c"

definition demo_print :: fingerprint where
  "demo_print = \<lparr>fp_version = ''1'', fp_sha256 = replicate 64 CHR ''c''\<rparr>"

definition demo_started :: "(recovery_error + marker_snapshot \<times> bool) \<times> marker_file list" where
  "demo_started = begin_marker demo_begin (demo_uuid CHR ''1'') (demo_uuid CHR ''2'') (demo_uuid CHR ''3'') demo_print
     (JObj [(''channel'', JInt 36)]) ''pcapng'' []"

definition demo_snapshot :: marker_snapshot where
  "demo_snapshot = (case fst demo_started of Inr (snap, _) \<Rightarrow> snap)"

definition demo_marker :: marker_file where
  "demo_marker = hd (snd demo_started)"

definition demo_op_env :: marker_env where
  "demo_op_env = \<lparr>me_sha = py_sha demo_python, me_now = ''2026-01-01T00:00:01Z'', me_open = Marker_Same,
     me_confirmed = True, me_quarantine = None\<rparr>"

definition demo_reserve :: marker_op where
  "demo_reserve = Op_Advance Reserved
     [(''directory_dev'', JInt 8), (''directory_ino'', JInt 5), (''st_dev'', JInt 8), (''st_ino'', JInt 6),
      (''st_uid'', JInt 990), (''file_type'', JInt 32768), (''mode'', JInt 384), (''st_nlink'', JInt 1)]"

definition demo_reserved :: "(recovery_error + marker_snapshot) \<times> marker_file" where
  "demo_reserved = marker_step demo_op_env demo_reserve demo_snapshot demo_marker"

lemma demo_sha: "sha_ok (py_sha demo_python)"
  by (simp add: sha_ok_def demo_python_def hex_text_def lower_hex_def list_all_iff)

definition demo_authority :: authority where
  "demo_authority = \<lparr>au_task = demo_uuid CHR ''1'', au_execution = demo_uuid CHR ''2'', au_key = demo_uuid CHR ''3'',
     au_fingerprint = demo_print, au_token = replicate 32 CHR ''0''\<rparr>"

definition demo_details :: "(string \<times> json) list" where
  "demo_details = planned_details demo_begin (JObj [(''channel'', JInt 36)])
     (''capture-'' @ demo_uuid CHR ''2'' @ ''-'' @ replicate 32 CHR ''0'' @ ''.pcapng'') ''pcapng''"

definition demo_line :: string where
  "demo_line = ascii_json (event_json 0 Planned None (be_now demo_begin) demo_authority demo_details)"

lemma demo_uuid_ok: "lower_hex c \<Longrightarrow> canonical_uuid (demo_uuid c)"
  by (simp add: canonical_uuid_def demo_uuid_def eval_nat_numeral)

lemma demo_hex: "lower_hex c \<Longrightarrow> hex_text n (replicate n c)"
  by (simp add: hex_text_def list_all_iff)

lemma demo_authority_ok: "authority_ok demo_authority"
  by (simp add: authority_ok_def demo_authority_def demo_print_def demo_uuid_ok demo_hex lower_hex_def)

lemma demo_begin_ok: "begin_ok demo_begin demo_print (JObj [(''channel'', JInt 36)])"
  by (simp add: begin_ok_def demo_begin_def demo_print_def demo_hex lower_hex_def)

lemma demo_starts:
  "demo_started = (Inr (demo_snapshot, True), [demo_marker])"
  "mf_text demo_marker = demo_line @ [LF]"
  "demo_snapshot = \<lparr>ms_authority = demo_authority, ms_state = Planned, ms_sequence = 0,
     ms_digest = py_sha demo_python demo_line, ms_details = Map.empty(Planned \<mapsto> normal_json (JObj demo_details))\<rparr>"
proof -
  have "capture_authority (demo_uuid CHR ''1'') (demo_uuid CHR ''2'') (demo_uuid CHR ''3'') demo_print
      (be_token demo_begin) = Inr demo_authority"
    by (simp add: capture_authority_iff demo_authority_def demo_begin_def demo_uuid_ok demo_hex lower_hex_def)
  moreover have "source_name (demo_uuid CHR ''2'') ''pcapng'' (be_token demo_begin)
      = Inr (''capture-'' @ demo_uuid CHR ''2'' @ ''-'' @ replicate 32 CHR ''0'' @ ''.pcapng'')"
    by (simp add: source_name_def demo_begin_def demo_hex lower_hex_def)
  moreover have "be_available demo_begin" "\<not> be_busy demo_begin" "be_confirmed demo_begin"
    "be_python demo_begin = demo_python"
    by (simp_all add: demo_begin_def)
  ultimately have "demo_started = (Inr (\<lparr>ms_authority = demo_authority, ms_state = Planned, ms_sequence = 0,
      ms_digest = py_sha demo_python demo_line, ms_details = Map.empty(Planned \<mapsto> normal_json (JObj demo_details))\<rparr>, True),
      [\<lparr>mf_name = marker_name (demo_uuid CHR ''3''), mf_text = demo_line @ [LF]\<rparr>])"
    unfolding demo_started_def begin_marker_def
    by (simp add: Let_def demo_line_def demo_details_def LF_def del: normal_json.simps)
  note start = this
  show "demo_started = (Inr (demo_snapshot, True), [demo_marker])"
    unfolding demo_snapshot_def demo_marker_def start by (simp only: fst_conv snd_conv sum.case prod.case list.sel)
  show "mf_text demo_marker = demo_line @ [LF]" unfolding demo_marker_def start by simp
  show "demo_snapshot = \<lparr>ms_authority = demo_authority, ms_state = Planned, ms_sequence = 0,
     ms_digest = py_sha demo_python demo_line, ms_details = Map.empty(Planned \<mapsto> normal_json (JObj demo_details))\<rparr>"
    unfolding demo_snapshot_def start by (simp only: fst_conv sum.case prod.case)
qed

lemma demo_marker_name: "mf_name demo_marker = marker_name (demo_uuid CHR ''3'')"
  using demo_starts(1) unfolding demo_started_def begin_marker_def
  by (auto simp: Let_def simp del: normal_json.simps split: if_splits sum.splits) (metis marker_file.select_convs(1))

lemma demo_details_ok: "details_ok demo_details"
  by (simp add: details_ok_def demo_details_def planned_details_def demo_begin_def demo_uuid_def ascii_text_def)

lemma demo_size: "length (mf_text demo_marker) \<le> 10000"
proof -
  let ?e = "event_json 0 Planned None (be_now demo_begin) demo_authority demo_details"
  have "json_ascii ?e"
    using demo_details_ok demo_authority_ok by (intro event_ascii) (simp_all add: demo_begin_def)
  then have "length demo_line \<le> json_bound ?e" by (simp add: demo_line_def ascii_canonical length_canonical)
  also have "\<dots> \<le> 9999"
    by (simp add: event_json_def demo_details_def planned_details_def demo_begin_def demo_authority_def demo_print_def
        demo_uuid_def)
  finally show ?thesis by (simp add: demo_starts(2))
qed

lemma demo_begun: "marker_run demo_python demo_snapshot demo_marker"
proof (rule begun [where dir = "[]"])
  show "begin_ok demo_begin demo_print (JObj [(''channel'', JInt 36)])" by (rule demo_begin_ok)
  show "be_python demo_begin = demo_python" by (simp add: demo_begin_def)
  show "begin_marker demo_begin (demo_uuid CHR ''1'') (demo_uuid CHR ''2'') (demo_uuid CHR ''3'') demo_print
     (JObj [(''channel'', JInt 36)]) ''pcapng'' [] = (Inr (demo_snapshot, True), [] @ [demo_marker])"
    using demo_starts(1) unfolding demo_started_def by simp
  show "length (mf_text demo_marker) \<le> MAXIMUM_MARKER_BYTES" using demo_size by (simp add: MAXIMUM_MARKER_BYTES_def)
qed

lemma demo_reserving:
  "demo_reserved = (Inr (next_snapshot demo_op_env demo_snapshot Reserved
      [(''directory_dev'', JInt 8), (''directory_ino'', JInt 5), (''st_dev'', JInt 8), (''st_ino'', JInt 6),
       (''st_uid'', JInt 990), (''file_type'', JInt 32768), (''mode'', JInt 384), (''st_nlink'', JInt 1)]),
     snd demo_reserved)" (is "_ = (Inr (next_snapshot _ _ _ ?d), _)")
  and demo_written: "length (mf_text demo_marker) + 1 < length (mf_text (snd demo_reserved))"
proof -
  let ?e = "event_json 1 Reserved (Some (ms_digest demo_snapshot)) (me_now demo_op_env) demo_authority ?d"
  have d: "details_ok ?d" by (simp add: details_ok_def)
  have "\<forall>d. Some (ms_digest demo_snapshot) = Some d \<longrightarrow> ascii_text d"
    using demo_sha hex_text_ascii by (auto simp: demo_starts(3) sha_ok_def)
  then have "json_ascii ?e" by (intro event_ascii [OF d demo_authority_ok]) (simp_all add: demo_op_env_def)
  then have "length (ascii_json ?e) \<le> json_bound ?e" by (simp add: ascii_canonical length_canonical)
  also have "\<dots> \<le> 100000"
    by (simp add: event_json_def demo_op_env_def demo_authority_def demo_print_def demo_uuid_def demo_starts(3)
        demo_python_def)
  finally have size: "length (next_line demo_op_env demo_snapshot Reserved ?d) \<le> 100000"
    by (simp add: next_line_def demo_starts(3))
  have written: "demo_reserved = (Inr (next_snapshot demo_op_env demo_snapshot Reserved ?d),
      demo_marker\<lparr>mf_text := mf_text demo_marker @ next_line demo_op_env demo_snapshot Reserved ?d @ [LF]\<rparr>)"
    using size demo_size
    by (simp add: demo_reserved_def demo_reserve_def advance_marker_def append_event_def demo_op_env_def
        next_line_def next_snapshot_def LF_def Let_def MAXIMUM_MARKER_BYTES_def demo_starts(3)
        del: normal_json.simps)
  show "demo_reserved = (Inr (next_snapshot demo_op_env demo_snapshot Reserved ?d), snd demo_reserved)"
    unfolding written by (simp only: snd_conv)
  have "next_line demo_op_env demo_snapshot Reserved ?d \<noteq> []"
    by (simp add: next_line_def event_json_def ascii_object_def)
  then show "length (mf_text demo_marker) + 1 < length (mf_text (snd demo_reserved))" unfolding written by simp
qed

lemma demo_run: "marker_run demo_python (case fst demo_reserved of Inr s \<Rightarrow> s) (snd demo_reserved)"
proof (rule operated [OF demo_begun])
  show "marker_step demo_op_env demo_reserve demo_snapshot demo_marker
      = (Inr (case fst demo_reserved of Inr s \<Rightarrow> s), snd demo_reserved)"
    unfolding demo_reserved_def [symmetric] by (subst (1 2) demo_reserving) simp
qed (simp_all add: demo_op_env_def demo_reserve_def details_ok_def)

end
