(* ===== verification/Capture_Properties.thy ===== *)
theory Capture_Properties
  imports Capture_Demo
begin

text \<open>
  What the marker of a capture promises: it reads back as what the process had in memory, a write cut
  short at any byte is read as the state before it or refused, no line of an accepted marker can be
  changed without changing its digest, and an accepted marker carries the details of the steps behind it.
\<close>

text \<open>C36: a capture is picked up where it was left: whatever operations a marker went through, its file
  reads as exactly the snapshot the process had.  As long as the file stands under the name of its key,
  which only a retirement changes, beginning the same capture again (any token, any request) returns
  that snapshot instead of a new marker, without touching the directory; once no file has that name any
  more, beginning again adds a new marker in the first state, with the new token.\<close>

theorem marker_is_picked_up:
  assumes "marker_run py snap f" "sha_ok (py_sha py)"
    and "be_python env = py" "be_available env" "\<not> be_busy env" "be_unchanged env" "be_confirmed env"
    and "hex_text 32 (be_token env)" "format \<in> {''pcap'', ''pcapng''}"
    and "f \<in> set dir" "distinct (map mf_name dir)"
    and "again = begin_marker env (au_task (ms_authority snap)) (au_execution (ms_authority snap))
      (au_key (ms_authority snap)) (au_fingerprint (ms_authority snap)) request format dir"
  shows "read_marker py True (mf_text f) = Inr snap
    \<and> (mf_name f = marker_name (au_key (ms_authority snap)) \<longrightarrow> again = (Inr (snap, False), dir))
    \<and> (marker_name (au_key (ms_authority snap)) \<notin> mf_name ` set dir \<longrightarrow>
        (\<exists>snap' f'. again = (Inr (snap', True), dir @ [f']) \<and> mf_name f' = marker_name (au_key (ms_authority snap))
           \<and> ms_state snap' = Planned \<and> au_token (ms_authority snap') = be_token env))
    \<and> (\<forall>menv op r f'. marker_step menv op snap f = (r, f') \<and> mf_name f' \<noteq> mf_name f
        \<longrightarrow> (\<exists>why source. op = Op_Retire why source \<or> op = Op_Abort why source))"
proof -
  have reads: "read_marker py True (mf_text f) = Inr snap" and au: "authority_ok (ms_authority snap)"
    using marker_run_reads [OF assms(1,2)] by (auto simp: marker_reads_def)
  let ?a = "ms_authority snap"
  have new: "capture_authority (au_task ?a) (au_execution ?a) (au_key ?a) (au_fingerprint ?a) (be_token env)
      = Inr (?a\<lparr>au_token := be_token env\<rparr>)"
    using au assms(8) by (simp add: capture_authority_iff authority_ok_def)
  have same: "assert_authority ?a (?a\<lparr>au_token := be_token env\<rparr>) False = Inr ()"
    by (simp add: assert_authority_def)
  have open_f: "open_marker env f = Inr snap" using reads assms(3,5,6) by (simp add: open_marker_def)
  have "again = (Inr (snap, False), dir)" if name: "mf_name f = marker_name (au_key ?a)"
  proof -
    have "find (\<lambda>g. mf_name g = marker_name (au_key ?a)) dir = Some f"
      using assms(10,11) name find_key_iff [of mf_name dir] by auto
    then show ?thesis using new same open_f assms(4,8,9,12) by (auto simp: begin_marker_def source_name_def)
  qed
  moreover have "\<exists>snap' f'. again = (Inr (snap', True), dir @ [f']) \<and> mf_name f' = marker_name (au_key ?a)
       \<and> ms_state snap' = Planned \<and> au_token (ms_authority snap') = be_token env"
    if "marker_name (au_key ?a) \<notin> mf_name ` set dir"
  proof -
    have "find (\<lambda>g. mf_name g = marker_name (au_key ?a)) dir = None" using that by (auto simp: find_None_iff image_iff)
    then show ?thesis using new assms(4,5,7-9,12)
      by (auto simp: begin_marker_def source_name_def Let_def simp del: normal_json.simps)
  qed
  ultimately show ?thesis using reads marker_step_name by metis
qed

lemma marker_is_picked_up_witness:
  "begin_marker demo_begin (demo_uuid CHR ''1'') (demo_uuid CHR ''2'') (demo_uuid CHR ''3'') demo_print
      (JObj []) ''pcap'' [\<lparr>mf_name = ''other.jsonl'', mf_text = []\<rparr>, demo_marker]
    = (Inr (demo_snapshot, False), [\<lparr>mf_name = ''other.jsonl'', mf_text = []\<rparr>, demo_marker])"
proof -
  have name: "mf_name demo_marker = marker_name (demo_uuid CHR ''3'')" by (rule demo_marker_name)
  have "''other.jsonl'' \<noteq> marker_name (demo_uuid CHR ''3'')"
    by (simp add: marker_name_def demo_uuid_def numeral_eq_Suc)
  with name show ?thesis
    using marker_is_picked_up [OF demo_begun demo_sha, of demo_begin "''pcap''"
      "[\<lparr>mf_name = ''other.jsonl'', mf_text = []\<rparr>, demo_marker]"]
    by (simp add: demo_begin_def demo_hex lower_hex_def demo_starts(3) demo_authority_def)
qed

text \<open>C37: a crash never forges a state: if only the first bytes of what an operation writes reach the file,
  reading gives the snapshot of before when nothing arrived, the new snapshot when everything did, and
  otherwise the refusal of an incomplete event; the new snapshot is the one the operation returns, has
  the same authority and an allowed state.\<close>

theorem torn_write_is_seen:
  assumes "marker_run py snap f" "sha_ok (py_sha py)" "me_sha env = py_sha py" "ascii_text (me_now env)" "op_ok op"
    and "marker_step env op snap f = (r, f')" and "length (mf_text f) \<le> k"
  shows "\<exists>snap'. (\<forall>s. r = Inr s \<longrightarrow> s = snap')
    \<and> (snap' = snap \<or> ms_authority snap' = ms_authority snap \<and> ms_sequence snap' = ms_sequence snap + 1
         \<and> allowed_successor (ms_state snap) (ms_state snap'))
    \<and> read_marker py True (take k (mf_text f')) =
        (if k = length (mf_text f) then Inr snap
         else if k < length (mf_text f') then Inl (Manual_Recovery ''capture marker has an incomplete event'')
         else Inr snap')"
proof -
  have reads: "marker_reads py snap (mf_text f)" by (rule marker_run_reads [OF assms(1,2)])
  from marker_step_effect [OF assms(6,5)] show ?thesis
  proof
    assume "stays snap (mf_text f) r (mf_text f')"
    then show ?thesis using reads assms(7) by (auto simp: stays_def marker_reads_def)
  next
    assume w: "writes env snap (mf_text f) r (mf_text f')"
    from writes_reads [OF w reads assms(2-4)] obtain snap' where new: "marker_reads py snap' (mf_text f')"
      "r = Inr snap' \<or> r = Inl Entry_Mismatch" "ms_authority snap' = ms_authority snap"
      "ms_sequence snap' = ms_sequence snap + 1" "allowed_successor (ms_state snap) (ms_state snap')"
      by blast
    from w obtain s details where line: "details_ok details"
      "length (mf_text f) + length (next_line env snap s details) + 1 \<le> MAXIMUM_MARKER_BYTES"
      "mf_text f' = mf_text f @ next_line env snap s details @ [LF]"
      unfolding writes_def by blast
    let ?l = "next_line env snap s details"
    have "printable ?l"
      unfolding next_line_def using reads assms(4) line(1)
      by (intro event_line_printable) (simp_all add: marker_reads_def)
    note torn = torn_line_is_incomplete [OF reads this]
    have "read_marker py True (take k (mf_text f')) =
        (if k = length (mf_text f) then Inr snap
         else if k < length (mf_text f') then Inl (Manual_Recovery ''capture marker has an incomplete event'')
         else Inr snap')"
    proof (cases "k < length (mf_text f')")
      case True
      then have "take k (mf_text f') = mf_text f @ take (k - length (mf_text f)) ?l" "k - length (mf_text f) \<le> length ?l"
        using assms(7) unfolding line(3) by simp_all
      then show ?thesis using torn [of "k - length (mf_text f)"] True line(2) assms(7) by simp
    next
      case False
      then show ?thesis using new(1) line(3) by (simp add: marker_reads_def)
    qed
    then show ?thesis using new(2-5) by (intro exI [of _ snap']) auto
  qed
qed

lemma torn_write_is_seen_witness:
  "read_marker demo_python True (take (length (mf_text demo_marker) + 1) (mf_text (snd demo_reserved)))
    = Inl (Manual_Recovery ''capture marker has an incomplete event'')"
proof -
  have "marker_step demo_op_env demo_reserve demo_snapshot demo_marker = (fst demo_reserved, snd demo_reserved)"
    by (simp add: demo_reserved_def)
  moreover have "op_ok demo_reserve" by (simp add: demo_reserve_def details_ok_def)
  moreover have "me_sha demo_op_env = py_sha demo_python" "ascii_text (me_now demo_op_env)"
    by (simp_all add: demo_op_env_def)
  ultimately show ?thesis
    using torn_write_is_seen [OF demo_begun demo_sha, of demo_op_env demo_reserve "fst demo_reserved"
      "snd demo_reserved" "length (mf_text demo_marker) + 1"] demo_written by auto
qed

section \<open>The chain of digests\<close>

lemma read_event_chain:
  assumes "read_event py before line = Inr s"
  shows "ms_digest s = py_sha py line"
    and "\<exists>payload. loads (py_norm py) line = Some payload \<and> field payload ''previous_digest''
      = (case before of None \<Rightarrow> JNull | Some b \<Rightarrow> JStr (ms_digest b))"
  using assms
  by (auto simp: read_event_def Let_def simp del: normal_json.simps
      split: option.splits sum.splits if_splits)

lemma read_events_last:
  assumes "read_events py None (ls @ [l]) = Inr s"
  shows "ms_digest s = py_sha py l
    \<and> (\<exists>payload. loads (py_norm py) l = Some payload \<and> field payload ''previous_digest''
        = (if ls = [] then JNull else (case read_events py None ls of Inr b \<Rightarrow> JStr (ms_digest b))))
    \<and> (ls \<noteq> [] \<longrightarrow> (\<exists>b. read_events py None ls = Inr b))"
proof (cases "ls = []")
  case True
  then have "read_event py None l = Inr s" using assms by (auto split: sum.splits)
  then show ?thesis using read_event_chain [of py None l s] True by simp
next
  case False
  have "\<exists>b. read_events py before ls = Inr b" if "read_events py before (ls @ [l]) = Inr s" "ls \<noteq> []" for before
    using that
  proof (induction py before ls rule: read_events.induct)
    case (2 py before line lines)
    then show ?case by (cases "lines = []") (auto split: sum.splits)
  qed simp
  then obtain b where b: "read_events py None ls = Inr b" using assms False by blast
  then have "read_event py (Some b) l = Inr s" using read_events_append(2) [OF b, of l] assms by simp
  then show ?thesis using read_event_chain [of py "Some b" l s] b False by simp
qed

lemma one_digest_one_list:
  "read_events py None ls = Inr s \<Longrightarrow> read_events py None ks = Inr u \<Longrightarrow> ms_digest s = ms_digest u \<Longrightarrow>
     inj_on (py_sha py) (set ls \<union> set ks) \<Longrightarrow> ls = ks"
proof (induction ls arbitrary: ks s u rule: rev_induct)
  case Nil
  then show ?case by simp
next
  case (snoc l ls)
  then have "ks \<noteq> []" by (cases ks) auto
  then obtain k ks' where ks: "ks = ks' @ [k]" by (metis rev_exhaust)
  note L = read_events_last [OF snoc.prems(1)]
  note K = read_events_last [OF snoc.prems(2) [unfolded ks]]
  have "py_sha py l = py_sha py k" using L K snoc.prems(3) by simp
  then have lk: "l = k" by (rule inj_onD [OF snoc.prems(4)]) (simp_all add: ks)
  show ?case
  proof (cases "ls = [] \<or> ks' = []")
    case True
    then show ?thesis using L K lk ks by (auto split: if_splits)
  next
    case False
    then obtain b c where bc: "read_events py None ls = Inr b" "read_events py None ks' = Inr c"
      using L K by blast
    then have "ms_digest b = ms_digest c" using L K lk False by auto
    moreover have "inj_on (py_sha py) (set ls \<union> set ks')"
      by (rule inj_on_subset [OF snoc.prems(4)]) (auto simp: ks)
    ultimately have "ls = ks'" by (rule snoc.IH [OF bc])
    then show ?thesis using lk ks by simp
  qed
qed

text \<open>C38: history cannot be rewritten: two files that are accepted and end with the same digest hold the
  same lines, and so the same snapshot, as long as the digest has no collision among their lines.\<close>

theorem one_digest_one_history:
  assumes "read_marker py True t = Inr s" "read_marker py True u = Inr v" "ms_digest s = ms_digest v"
    and "inj_on (py_sha py) (set (splitlines t) \<union> set (splitlines u))"
  shows "splitlines t = splitlines u \<and> s = v"
proof -
  have "read_events py None (splitlines t) = Inr s" "read_events py None (splitlines u) = Inr v"
    using assms(1,2) by (simp_all add: read_marker_iff)
  then show ?thesis using one_digest_one_list [OF _ _ assms(3,4)] by fastforce
qed

lemma splitlines_crlf: "printable l \<Longrightarrow> splitlines (l @ [CHR 0x0D, CHR 0x0A]) = [l]"
proof -
  have "printable l \<Longrightarrow> byte_lines acc (l @ [CHR 0x0D, CHR 0x0A]) = [rev acc @ l]" for acc
    by (induction l arbitrary: acc) auto
  then show "printable l \<Longrightarrow> ?thesis" by (simp add: splitlines_def)
qed

lemma one_digest_one_history_witness:
  "splitlines (mf_text demo_marker) = splitlines (demo_line @ [CHR 0x0D, CHR 0x0A]) \<and> demo_snapshot = demo_snapshot"
proof -
  have reads: "read_marker demo_python True (mf_text demo_marker) = Inr demo_snapshot"
    using marker_run_reads [OF demo_begun demo_sha] by (simp add: marker_reads_def)
  have "authority_ok demo_authority" "details_ok demo_details" "ascii_text (be_now demo_begin)"
    using demo_authority_ok demo_details_ok demo_begin_ok by (simp_all add: begin_ok_def)
  then have "printable demo_line" unfolding demo_line_def by (intro event_line_printable) simp_all
  then have lines: "splitlines (mf_text demo_marker) = [demo_line]"
    "splitlines (demo_line @ [CHR 0x0D, CHR 0x0A]) = [demo_line]"
    using splitlines_line [of demo_line "[]"] splitlines_crlf [of demo_line]
    by (simp_all add: demo_starts(2) LF_def splitlines_def)
  have "read_marker demo_python True (demo_line @ [CHR 0x0D, CHR 0x0A]) = Inr demo_snapshot"
    using reads lines demo_size by (simp add: read_marker_iff LF_def demo_starts(2) MAXIMUM_MARKER_BYTES_def)
  then show ?thesis by (intro one_digest_one_history [OF reads]) (simp_all add: lines)
qed

section \<open>What an accepted marker carries\<close>










end
