(* ===== verification/Capture_Binding.thy ===== *)
theory Capture_Binding
  imports Capture_Log
begin

text \<open>
  The bindings of captures (\<open>CaptureRecoveryStore\<close> in \<open>platforms/linux/capture_recovery.py\<close>): the file that
  ties an idempotency key to its committed artifact, written once under its final name and read back
  with every field checked.  What the descriptors say of files and directories is an argument.
  Documents are compared in their normal form; the numbers in them are integers.
\<close>

section \<open>The artifact root and the artifact\<close>

record artifact_root =
  ar_path :: string
  ar_dev :: int
  ar_ino :: int
  ar_unchanged :: bool

definition validate_root_authority :: "artifact_root \<Rightarrow> string \<Rightarrow> int \<Rightarrow> int \<Rightarrow> recovery_error + unit" where
  "validate_root_authority root path device inode =
     (if path \<noteq> ar_path root \<or> device \<noteq> ar_dev root \<or> inode \<noteq> ar_ino root
      then Inl (Manual_Recovery ''capture artifact root changed'')
      else if \<not> ar_unchanged root then Inl (Manual_Recovery ''capture artifact root identity changed'')
      else Inr ())"

record artifact_stat =
  as_regular :: bool
  as_dev :: int
  as_ino :: int
  as_uid :: int
  as_mode :: int
  as_nlink :: int
  as_size :: int
  as_mtime :: int
  as_ctime :: int

record artifact_view =
  av_outbox :: bool
  av_before :: artifact_stat
  av_service_uid :: int
  av_named :: "int \<times> int"
  av_content :: string
  av_after :: artifact_stat

definition stat_identity :: "artifact_stat \<Rightarrow> int \<times> int \<times> int \<times> int \<times> int" where
  "stat_identity st = (as_dev st, as_ino st, as_uid st, as_mode st, as_nlink st)"

definition artifact_reference_ok :: "string \<Rightarrow> bool" where
  "artifact_reference_ok relative \<longleftrightarrow>
     (relative = [] \<or> hd relative \<noteq> CHR ''/'') \<and> length (path_parts relative) = 2
     \<and> path_parts relative ! 0 = ''outbox'' \<and> take 9 (path_parts relative ! 1) = ''artifact-''"

text \<open>\<open>view\<close> is what opening the name in the outbox shows, \<open>None\<close> when it is not there.\<close>

definition inspect_artifact ::
  "(string \<Rightarrow> string) \<Rightarrow> artifact_view option \<Rightarrow> string \<Rightarrow> int \<Rightarrow> string
    \<Rightarrow> (int \<times> int \<times> int \<times> int \<times> int) option \<Rightarrow> recovery_error + artifact_stat" where
  "inspect_artifact sha view relative expected sha256 identity =
     (if \<not> artifact_reference_ok relative \<or> expected \<le> 0 \<or> \<not> hex_text 64 sha256
      then Inl (Manual_Recovery ''capture binding artifact reference is invalid'')
      else case view of
        None \<Rightarrow> Inl Missing_File
      | Some v \<Rightarrow>
          let before = av_before v; after = av_after v in
          if \<not> av_outbox v then Inl (Manual_Recovery ''capture artifact outbox identity changed'')
          else if \<not> as_regular before \<or> as_uid before \<noteq> av_service_uid v \<or> as_mode before \<noteq> 256
               \<or> as_nlink before \<noteq> 1 \<or> as_size before \<noteq> expected
          then Inl (Manual_Recovery ''capture binding artifact identity is unsafe'')
          else if identity \<noteq> None \<and> identity \<noteq> Some (stat_identity before)
          then Inl (Manual_Recovery ''capture binding artifact inode changed'')
          else if av_named v \<noteq> (as_dev before, as_ino before)
          then Inl (Manual_Recovery ''capture binding artifact name changed'')
          else if stat_identity after \<noteq> stat_identity before \<or> as_size after \<noteq> expected
               \<or> (as_mtime before, as_ctime before) \<noteq> (as_mtime after, as_ctime after)
               \<or> int (length (av_content v)) \<noteq> expected \<or> sha (av_content v) \<noteq> sha256
          then Inl (Manual_Recovery ''capture binding artifact content changed'')
          else Inr after)"

section \<open>The binding and its file\<close>

record capture_binding =
  cb_authority :: authority
  cb_root :: string
  cb_root_dev :: int
  cb_root_ino :: int
  cb_path :: string
  cb_relative :: string
  cb_dev :: int
  cb_ino :: int
  cb_uid :: int
  cb_mode :: int
  cb_nlink :: int
  cb_manifest :: json
  cb_metadata :: json
  cb_rollback :: json
  cb_status :: string
  cb_reason :: "string option"
  cb_name :: string

definition MAXIMUM_BINDING_BYTES :: nat where
  "MAXIMUM_BINDING_BYTES = 2 * 1024 * 1024"

definition BINDING_FIELDS :: "string list" where
  "BINDING_FIELDS = [''version'', ''state'', ''published_at'', ''task_id'', ''execution_id'', ''idempotency_key'',
     ''fingerprint_version'', ''fingerprint_sha256'', ''operation_token'', ''artifact_root'', ''artifact_root_dev'',
     ''artifact_root_ino'', ''artifact_path'', ''artifact_relative_path'', ''artifact_st_dev'', ''artifact_st_ino'',
     ''artifact_st_uid'', ''artifact_mode'', ''artifact_st_nlink'', ''manifest'', ''metadata'', ''rollback'',
     ''status'', ''reason'', ''size_bytes'', ''sha256'']"

fun is_object :: "json \<Rightarrow> bool" where
  "is_object (JObj kvs) \<longleftrightarrow> True"
| "is_object _ \<longleftrightarrow> False"

fun is_integer :: "json \<Rightarrow> bool" where
  "is_integer (JInt i) \<longleftrightarrow> True"
| "is_integer _ \<longleftrightarrow> False"

fun text_or_null :: "json \<Rightarrow> bool" where
  "text_or_null JNull \<longleftrightarrow> True"
| "text_or_null (JStr s) \<longleftrightarrow> True"
| "text_or_null _ \<longleftrightarrow> False"

fun optional_text :: "json \<Rightarrow> string option" where
  "optional_text (JStr s) = Some s"
| "optional_text _ = None"

definition INTEGER_FIELDS :: "string list" where
  "INTEGER_FIELDS = [''artifact_root_dev'', ''artifact_root_ino'', ''artifact_st_dev'', ''artifact_st_ino'',
     ''artifact_st_uid'', ''artifact_mode'', ''artifact_st_nlink'']"

definition payload_consistent :: "python \<Rightarrow> json \<Rightarrow> authority \<Rightarrow> bool" where
  "payload_consistent py payload au \<longleftrightarrow>
     (let manifest = field payload ''manifest''; metadata = field payload ''metadata'' in
       equals_one (field payload ''version'') \<and> field payload ''state'' = JStr (marker_text Binding_Published)
       \<and> is_object manifest \<and> is_object metadata \<and> is_object (field payload ''rollback'')
       \<and> list_all (\<lambda>k. is_integer (field payload k)) INTEGER_FIELDS
       \<and> normal_json (field payload ''size_bytes'') = normal_json (field manifest ''size_bytes'')
       \<and> normal_json (field payload ''sha256'') = normal_json (field manifest ''sha256'')
       \<and> py_text (py_repr py) (field manifest ''artifact_id'') = au_key au
       \<and> py_text (py_repr py) (field manifest ''execution_id'') = au_execution au
       \<and> field metadata ''fingerprint_version'' = JStr (fp_version (au_fingerprint au))
       \<and> field metadata ''fingerprint_sha256'' = JStr (fp_sha256 (au_fingerprint au)))"

definition binding_from_payload :: "python \<Rightarrow> string \<Rightarrow> json \<Rightarrow> recovery_error + capture_binding" where
  "binding_from_payload py name payload =
     (if \<not> object_with payload BINDING_FIELDS
      then Inl (Manual_Recovery ''capture binding is legacy or lacks a fingerprint'')
      else case event_authority py payload of
        Inl _ \<Rightarrow> Inl (Manual_Recovery ''capture binding authority is invalid'')
      | Inr au \<Rightarrow>
          if \<not> payload_consistent py payload au
          then Inl (Manual_Recovery ''capture binding payload is inconsistent'')
          else if py_text (py_repr py) (field payload ''status'') \<notin> {''completed'', ''failed'', ''cancelled''}
               \<or> \<not> text_or_null (field payload ''reason'')
          then Inl (Manual_Recovery ''capture binding result is invalid'')
          else Inr \<lparr>cb_authority = au,
                    cb_root = py_text (py_repr py) (field payload ''artifact_root''),
                    cb_root_dev = integer_of (field payload ''artifact_root_dev''),
                    cb_root_ino = integer_of (field payload ''artifact_root_ino''),
                    cb_path = py_text (py_repr py) (field payload ''artifact_path''),
                    cb_relative = py_text (py_repr py) (field payload ''artifact_relative_path''),
                    cb_dev = integer_of (field payload ''artifact_st_dev''),
                    cb_ino = integer_of (field payload ''artifact_st_ino''),
                    cb_uid = integer_of (field payload ''artifact_st_uid''),
                    cb_mode = integer_of (field payload ''artifact_mode''),
                    cb_nlink = integer_of (field payload ''artifact_st_nlink''),
                    cb_manifest = normal_json (field payload ''manifest''),
                    cb_metadata = normal_json (field payload ''metadata''),
                    cb_rollback = normal_json (field payload ''rollback''),
                    cb_status = py_text (py_repr py) (field payload ''status''),
                    cb_reason = optional_text (field payload ''reason''),
                    cb_name = name\<rparr>)"

definition binding_name :: "string \<Rightarrow> string" where
  "binding_name key = key @ ''.json''"

record binding_env =
  bi_python :: python
  bi_reuse_only :: bool
  bi_root :: artifact_root
  bi_now :: string
  bi_unchanged :: bool
  bi_retired :: bool

definition read_binding_file ::
  "binding_env \<Rightarrow> string \<Rightarrow> string \<Rightarrow> string \<Rightarrow> fingerprint \<Rightarrow> fingerprint list \<Rightarrow> string \<Rightarrow> recovery_error + capture_binding" where
  "read_binding_file env task execution key fp alternates text =
     (if text = [] \<or> length text > MAXIMUM_BINDING_BYTES
      then Inl (Manual_Recovery ''capture binding size is invalid'')
      else if \<not> bi_unchanged env then Inl (Manual_Recovery ''capture binding identity changed'')
      else case (if utf8_points text = None then None else loads (py_norm (bi_python env)) text) of
        None \<Rightarrow> Inl (Manual_Recovery ''capture binding JSON is corrupt'')
      | Some payload \<Rightarrow>
          (case binding_from_payload (bi_python env) (binding_name key) payload of
             Inl e \<Rightarrow> Inl e
           | Inr b \<Rightarrow>
               if au_fingerprint (cb_authority b) \<notin> set (fp # alternates)
               then Inl (Idempotency_Conflict ''capture idempotency conflict: fingerprint'')
               else (case assert_authority (cb_authority b)
                            \<lparr>au_task = task, au_execution = execution, au_key = key,
                             au_fingerprint = au_fingerprint (cb_authority b), au_token = au_token (cb_authority b)\<rparr> True of
                       Inl e \<Rightarrow> Inl e
                     | Inr _ \<Rightarrow>
                         (case validate_root_authority (bi_root env) (cb_root b) (cb_root_dev b) (cb_root_ino b) of
                            Inl e \<Rightarrow> Inl e
                          | Inr _ \<Rightarrow> Inr b))))"

definition read_binding ::
  "binding_env \<Rightarrow> string \<Rightarrow> string \<Rightarrow> string \<Rightarrow> fingerprint \<Rightarrow> fingerprint list \<Rightarrow> string option
    \<Rightarrow> recovery_error + capture_binding option" where
  "read_binding env task execution key fp alternates file =
     (case file of
        None \<Rightarrow> Inr None
      | Some text \<Rightarrow> map_sum id Some (read_binding_file env task execution key fp alternates text))"

section \<open>Publishing\<close>

definition binding_payload ::
  "binding_env \<Rightarrow> authority \<Rightarrow> string \<Rightarrow> string \<Rightarrow> artifact_stat \<Rightarrow> json \<Rightarrow> json \<Rightarrow> json \<Rightarrow> string \<Rightarrow> string option \<Rightarrow> json"
  where
  "binding_payload env au path relative st manifest metadata rollback status why = JObj
     [(''version'', JInt 1),
      (''state'', JStr (marker_text Binding_Published)),
      (''published_at'', JStr (bi_now env)),
      (''task_id'', JStr (au_task au)),
      (''execution_id'', JStr (au_execution au)),
      (''idempotency_key'', JStr (au_key au)),
      (''fingerprint_version'', JStr (fp_version (au_fingerprint au))),
      (''fingerprint_sha256'', JStr (fp_sha256 (au_fingerprint au))),
      (''operation_token'', JStr (au_token au)),
      (''artifact_root'', JStr (ar_path (bi_root env))),
      (''artifact_root_dev'', JInt (ar_dev (bi_root env))),
      (''artifact_root_ino'', JInt (ar_ino (bi_root env))),
      (''artifact_path'', JStr path),
      (''artifact_relative_path'', JStr relative),
      (''artifact_st_dev'', JInt (as_dev st)),
      (''artifact_st_ino'', JInt (as_ino st)),
      (''artifact_st_uid'', JInt (as_uid st)),
      (''artifact_mode'', JInt (as_mode st)),
      (''artifact_st_nlink'', JInt (as_nlink st)),
      (''manifest'', manifest),
      (''metadata'', metadata),
      (''rollback'', rollback),
      (''status'', JStr status),
      (''reason'', optional_name why),
      (''size_bytes'', field manifest ''size_bytes''),
      (''sha256'', field manifest ''sha256'')]"

definition artifact_full_path :: "artifact_root \<Rightarrow> string \<Rightarrow> string" where
  "artifact_full_path root relative = ar_path root @ concat (map (\<lambda>p. CHR ''/'' # p) (path_parts relative))"

text \<open>\<open>file\<close> is the published binding of the key, if there is one; the new one takes its name only when the
  name is free, otherwise the published one must say the same.\<close>

definition publish_binding ::
  "binding_env \<Rightarrow> artifact_view option \<Rightarrow> authority \<Rightarrow> string \<Rightarrow> string \<Rightarrow> json \<Rightarrow> json \<Rightarrow> json \<Rightarrow> string \<Rightarrow> string option
    \<Rightarrow> string option \<Rightarrow> (recovery_error + capture_binding) \<times> string option" where
  "publish_binding env view au path relative manifest metadata rollback status why file =
     (if bi_reuse_only env
      then (Inl (Capture_Recovery ''capture binding publication is unavailable in reuse-only mode''), file)
      else if \<not> is_integer (field manifest ''size_bytes'')
      then (Inl (Manual_Recovery ''capture manifest size is invalid''), file)
      else case inspect_artifact (py_sha (bi_python env)) view relative (integer_of (field manifest ''size_bytes''))
                  (case json_get manifest ''sha256'' of None \<Rightarrow> [] | Some v \<Rightarrow> py_text (py_repr (bi_python env)) v) None of
        Inl e \<Rightarrow> (Inl e, file)
      | Inr st \<Rightarrow>
          if path \<noteq> artifact_full_path (bi_root env) relative
          then (Inl (Manual_Recovery ''capture binding artifact path is inconsistent''), file)
          else
            let payload = binding_payload env au path relative st manifest metadata rollback status why;
                encoded = ascii_json payload
            in (case binding_from_payload (bi_python env) (binding_name (au_key au)) payload of
                  Inl e \<Rightarrow> (Inl e, file)
                | Inr b \<Rightarrow>
                    if length encoded > MAXIMUM_BINDING_BYTES
                    then (Inl (Capture_Recovery ''capture binding exceeds its size limit''), file)
                    else (case file of
                        None \<Rightarrow> (Inr b, Some encoded)
                      | Some text \<Rightarrow>
                          (case read_binding_file env (au_task au) (au_execution au) (au_key au) (au_fingerprint au) [] text of
                             Inl e \<Rightarrow> (Inl e, file)
                           | Inr existing \<Rightarrow>
                               if existing \<noteq> b
                               then (Inl (Manual_Recovery ''capture binding publication conflict''), file)
                               else if \<not> bi_retired env
                               then (Inl (Manual_Recovery ''duplicate capture binding temporary was not retired''), file)
                               else (Inr existing, file)))))"

text \<open>What a later use of a binding checks again, against the artifact as it is then.\<close>

definition validate_binding_artifact ::
  "binding_env \<Rightarrow> artifact_view option \<Rightarrow> capture_binding \<Rightarrow> recovery_error + string" where
  "validate_binding_artifact env view b =
     (case validate_root_authority (bi_root env) (cb_root b) (cb_root_dev b) (cb_root_ino b) of
        Inl e \<Rightarrow> Inl e
      | Inr _ \<Rightarrow>
          if cb_path b \<noteq> artifact_full_path (bi_root env) (cb_relative b)
          then Inl (Manual_Recovery ''capture binding artifact path changed'')
          else if \<not> is_integer (field (cb_manifest b) ''size_bytes'')
          then Inl (Manual_Recovery ''capture binding size is invalid'')
          else (case inspect_artifact (py_sha (bi_python env)) view (cb_relative b)
                       (integer_of (field (cb_manifest b) ''size_bytes''))
                       (py_text (py_repr (bi_python env)) (field (cb_manifest b) ''sha256''))
                       (Some (cb_dev b, cb_ino b, cb_uid b, cb_mode b, cb_nlink b)) of
                  Inl Missing_File \<Rightarrow> Inl (Manual_Recovery ''capture binding artifact is missing'')
                | Inl e \<Rightarrow> Inl e
                | Inr _ \<Rightarrow> Inr (cb_path b)))"

definition validate_marker_root :: "binding_env \<Rightarrow> marker_snapshot \<Rightarrow> recovery_error + unit" where
  "validate_marker_root env snap =
     (case ms_details snap Planned of
        None \<Rightarrow> Inl (Bad_Value ''RESERVATION_PLANNED'')
      | Some planned \<Rightarrow>
          (case source_name (au_execution (ms_authority snap))
                  (py_text (py_repr (bi_python env)) (field planned ''capture_format'')) (au_token (ms_authority snap)) of
             Inl e \<Rightarrow> Inl (Manual_Recovery ''capture marker source authority is invalid'')
           | Inr source \<Rightarrow>
               if field planned ''source_name'' \<noteq> JStr source
               then Inl (Manual_Recovery ''capture marker source authority changed'')
               else if \<not> is_integer (field planned ''artifact_root_dev'')
               then Inl (Manual_Recovery ''capture artifact root device is invalid'')
               else if \<not> is_integer (field planned ''artifact_root_ino'')
               then Inl (Manual_Recovery ''capture artifact root inode is invalid'')
               else validate_root_authority (bi_root env) (py_text (py_repr (bi_python env)) (field planned ''artifact_root''))
                      (integer_of (field planned ''artifact_root_dev'')) (integer_of (field planned ''artifact_root_ino''))))"

end
