(* ===== verification/Capture_Bound.thy ===== *)
theory Capture_Bound
  imports Capture_Binding Capture_Demo
begin

text \<open>
  The binding of a capture as a contract: what was published under a key is what every later reader of
  that key gets, for the task, execution and fingerprint it was published for and for nobody else.
\<close>

section \<open>Documents and their normal form\<close>

lemma field_normal:
  assumes "json_plain j"
  shows "field (normal_json j) k = normal_json (field j k)"
proof (cases j)
  case (JObj kvs)
  then show ?thesis
    using assms json_get_normal [of kvs k] by (simp add: field_def del: normal_json.simps(7) split: option.split)
qed (simp_all add: field_def)

lemma field_plain: "json_plain j \<Longrightarrow> json_plain (field j k)"
  by (cases j) (auto simp: field_def dest: map_of_SomeD split: option.split)

lemma normal_kinds [simp]:
  "is_object (normal_json j) = is_object j" "is_integer (normal_json j) = is_integer j"
  "integer_of (normal_json j) = integer_of j" "text_or_null (normal_json j) = text_or_null j"
  "optional_text (normal_json j) = optional_text j" "normal_json j = JStr s \<longleftrightarrow> j = JStr s"
  "equals_one (normal_json j) = equals_one j"
  by (cases j; simp add: equals_one_def)+

lemma text_of_normal:
  assumes "canonical_uuid u"
  shows "py_text repr (normal_json j) = u \<longleftrightarrow> py_text repr j = u"
proof -
  have "u \<noteq> CHR ''['' # x \<and> u \<noteq> CHR ''{'' # x" for x
  proof -
    have "length u = 36" "lower_hex (u ! 0)"
      using assms unfolding canonical_uuid_def list_all_iff by (auto dest: bspec [of _ _ 0])
    then show ?thesis by (cases u) (auto simp: lower_hex_def)
  qed
  then show ?thesis by (cases j) auto
qed

lemma py_text_str: "py_text repr (normal_json (JStr s)) = s"
  by simp

definition binding_inputs_ok ::
  "binding_env \<Rightarrow> authority \<Rightarrow> string \<Rightarrow> string \<Rightarrow> json \<Rightarrow> json \<Rightarrow> json \<Rightarrow> string \<Rightarrow> string option \<Rightarrow> bool" where
  "binding_inputs_ok env au path relative manifest metadata rollback status why \<longleftrightarrow>
     ascii_text (bi_now env) \<and> ascii_text (ar_path (bi_root env)) \<and> ascii_text path \<and> ascii_text relative
     \<and> ascii_text status \<and> (case why of None \<Rightarrow> True | Some w \<Rightarrow> ascii_text w) \<and> authority_ok au
     \<and> json_ascii manifest \<and> json_ascii metadata \<and> json_ascii rollback
     \<and> json_plain manifest \<and> json_plain metadata \<and> json_plain rollback"

lemma field_ascii: "json_ascii j \<Longrightarrow> json_ascii (field j k)"
  by (cases j) (force simp: field_def dest: map_of_SomeD split: option.split)+

lemma payload_plain:
  "binding_inputs_ok env au path relative manifest metadata rollback status why \<Longrightarrow>
     json_plain (binding_payload env au path relative st manifest metadata rollback status why)"
  by (simp add: binding_payload_def binding_inputs_ok_def field_plain optional_name_def split: option.split)

lemma payload_ascii:
  "binding_inputs_ok env au path relative manifest metadata rollback status why \<Longrightarrow>
     json_ascii (binding_payload env au path relative st manifest metadata rollback status why)"
  using hex_text_ascii uuid_ascii marker_text_ascii [of Binding_Published]
  by (auto simp: binding_payload_def binding_inputs_ok_def field_ascii optional_name_def authority_ok_def
      split: option.splits)

lemma payload_texts:
  "field (binding_payload env au path relative st manifest metadata rollback status why) ''task_id'' = JStr (au_task au)"
  "field (binding_payload env au path relative st manifest metadata rollback status why) ''execution_id'' = JStr (au_execution au)"
  "field (binding_payload env au path relative st manifest metadata rollback status why) ''idempotency_key'' = JStr (au_key au)"
  "field (binding_payload env au path relative st manifest metadata rollback status why) ''fingerprint_version''
     = JStr (fp_version (au_fingerprint au))"
  "field (binding_payload env au path relative st manifest metadata rollback status why) ''fingerprint_sha256''
     = JStr (fp_sha256 (au_fingerprint au))"
  "field (binding_payload env au path relative st manifest metadata rollback status why) ''operation_token'' = JStr (au_token au)"
  "field (binding_payload env au path relative st manifest metadata rollback status why) ''artifact_root'' = JStr (ar_path (bi_root env))"
  "field (binding_payload env au path relative st manifest metadata rollback status why) ''artifact_path'' = JStr path"
  "field (binding_payload env au path relative st manifest metadata rollback status why) ''artifact_relative_path'' = JStr relative"
  "field (binding_payload env au path relative st manifest metadata rollback status why) ''status'' = JStr status"
  "field (binding_payload env au path relative st manifest metadata rollback status why) ''manifest'' = manifest"
  "field (binding_payload env au path relative st manifest metadata rollback status why) ''metadata'' = metadata"
  "field (binding_payload env au path relative st manifest metadata rollback status why) ''rollback'' = rollback"
  "field (binding_payload env au path relative st manifest metadata rollback status why) ''size_bytes'' = field manifest ''size_bytes''"
  "field (binding_payload env au path relative st manifest metadata rollback status why) ''sha256'' = field manifest ''sha256''"
  "field (binding_payload env au path relative st manifest metadata rollback status why) ''artifact_root_dev'' = JInt (ar_dev (bi_root env))"
  "field (binding_payload env au path relative st manifest metadata rollback status why) ''artifact_root_ino'' = JInt (ar_ino (bi_root env))"
  by (simp_all add: field_def binding_payload_def)

lemma payload_authority:
  assumes "authority_ok au"
  shows "event_authority py (binding_payload env au path relative st manifest metadata rollback status why) = Inr au"
  using assms
  by (simp add: event_authority_def payload_texts capture_fingerprint_def authority_ok_def capture_authority_iff)

lemma payload_reads:
  assumes "binding_inputs_ok env au path relative manifest metadata rollback status why"
  shows "binding_from_payload py name
      (normal_json (binding_payload env au path relative st manifest metadata rollback status why))
    = binding_from_payload py name (binding_payload env au path relative st manifest metadata rollback status why)"
proof -
  define P where "P = binding_payload env au path relative st manifest metadata rollback status why"
  have plain: "json_plain P" unfolding P_def by (rule payload_plain [OF assms])
  note F = field_normal [OF plain]
  note T = payload_texts [of env au path relative st manifest metadata rollback status why, folded P_def]
  have ok: "authority_ok au" and uuids: "canonical_uuid (au_key au)" "canonical_uuid (au_execution au)"
    and subs: "json_plain manifest" "json_plain metadata" "json_plain rollback"
    using assms by (simp_all add: binding_inputs_ok_def authority_ok_def)
  have authority: "event_authority py P = Inr au" unfolding P_def by (rule payload_authority [OF ok])
  have "event_authority py (normal_json P) = event_authority py P"
    unfolding event_authority_def F T py_text_str py_text.simps(1) by (rule refl)
  moreover have "object_with (normal_json P) BINDING_FIELDS = object_with P BINDING_FIELDS"
    unfolding P_def binding_payload_def object_with_normal by (simp add: object_with_def)
  moreover have "payload_consistent py (normal_json P) au = payload_consistent py P au"
    using subs
    by (simp add: payload_consistent_def F T field_normal text_of_normal [OF uuids(1)] text_of_normal [OF uuids(2)]
        normal_idem field_plain Let_def list_all_iff)
  ultimately have "binding_from_payload py name (normal_json P) = binding_from_payload py name P"
    using subs by (simp add: binding_from_payload_def authority F T normal_idem)
  then show ?thesis unfolding P_def .
qed

section \<open>Publishing and reading\<close>

lemma published_first:
  assumes "publish_binding env view au path relative manifest metadata rollback status why None = (Inr b, Some text)"
  obtains st where
    "inspect_artifact (py_sha (bi_python env)) view relative (integer_of (field manifest ''size_bytes''))
       (case json_get manifest ''sha256'' of None \<Rightarrow> [] | Some v \<Rightarrow> py_text (py_repr (bi_python env)) v) None = Inr st"
    "\<not> bi_reuse_only env" "is_integer (field manifest ''size_bytes'')" "path = artifact_full_path (bi_root env) relative"
    "text = ascii_json (binding_payload env au path relative st manifest metadata rollback status why)"
    "length text \<le> MAXIMUM_BINDING_BYTES"
    "binding_from_payload (bi_python env) (binding_name (au_key au))
       (binding_payload env au path relative st manifest metadata rollback status why) = Inr b"
  using assms that unfolding publish_binding_def
  by (auto simp: Let_def split: if_splits sum.splits)

lemma binding_from_payload_fields:
  assumes "binding_from_payload py name payload = Inr b" "event_authority py payload = Inr au"
  shows "cb_authority b = au" "cb_root b = py_text (py_repr py) (field payload ''artifact_root'')"
    "cb_root_dev b = integer_of (field payload ''artifact_root_dev'')"
    "cb_root_ino b = integer_of (field payload ''artifact_root_ino'')"
  using assms by (auto simp: binding_from_payload_def split: if_splits)

lemma read_published:
  assumes ok: "binding_inputs_ok env au path relative manifest metadata rollback status why"
    and enc: "text = ascii_json (binding_payload env au path relative st manifest metadata rollback status why)"
    and size: "length text \<le> MAXIMUM_BINDING_BYTES"
    and b: "binding_from_payload (bi_python env) (binding_name (au_key au))
       (binding_payload env au path relative st manifest metadata rollback status why) = Inr b"
    and env': "bi_python env' = bi_python env" "bi_root env' = bi_root env" "ar_unchanged (bi_root env)" "bi_unchanged env'"
  shows "read_binding_file env' task execution (au_key au) fp alternates text =
    (if au_fingerprint au \<notin> set (fp # alternates) then Inl (Idempotency_Conflict ''capture idempotency conflict: fingerprint'')
     else if au_task au \<noteq> task then Inl (Idempotency_Conflict ''capture idempotency conflict: task_id'')
     else if au_execution au \<noteq> execution then Inl (Idempotency_Conflict ''capture idempotency conflict: execution_id'')
     else Inr b)"
    and "cb_authority b = au"
proof -
  let ?P = "binding_payload env au path relative st manifest metadata rollback status why"
  have au: "authority_ok au" using ok by (simp add: binding_inputs_ok_def)
  note fields = binding_from_payload_fields [OF b payload_authority [OF au]]
  show "cb_authority b = au" by (rule fields(1))
  have line: "text = canonical_json ?P" unfolding enc by (rule ascii_canonical [OF payload_ascii [OF ok]])
  have "printable text"
    unfolding line by (rule printable_canonical [OF payload_ascii [OF ok] payload_plain [OF ok]])
  then have "\<forall>c \<in> set text. (of_char c :: nat) < 128" by (auto simp: printable_def)
  then have points: "utf8_points text \<noteq> None" using utf8_points_ascii by fastforce
  have loaded: "loads (py_norm (bi_python env)) text = Some (normal_json ?P)"
    unfolding line by (rule loads_canonical_json_plain [OF payload_plain [OF ok]])
  have nonempty: "text \<noteq> []" unfolding enc by (simp add: binding_payload_def ascii_object_def)
  have root: "validate_root_authority (bi_root env) (cb_root b) (cb_root_dev b) (cb_root_ino b) = Inr ()"
    using env'(3) by (simp add: validate_root_authority_def fields payload_texts)
  show "read_binding_file env' task execution (au_key au) fp alternates text =
    (if au_fingerprint au \<notin> set (fp # alternates) then Inl (Idempotency_Conflict ''capture idempotency conflict: fingerprint'')
     else if au_task au \<noteq> task then Inl (Idempotency_Conflict ''capture idempotency conflict: task_id'')
     else if au_execution au \<noteq> execution then Inl (Idempotency_Conflict ''capture idempotency conflict: execution_id'')
     else Inr b)"
    unfolding read_binding_file_def if_not_P [OF points]
    using nonempty size env'(4)
    by (simp add: env'(1,2) loaded payload_reads [OF ok] b root fields(1) assert_authority_def)
qed

text \<open>C40: a published binding is the answer for its key: every reader that asks for the task, execution and
  fingerprint it was published for gets exactly the binding that was published, every other task,
  execution or fingerprint is refused as a conflict, and a later publication under the key, whatever it
  says, leaves the file as it is and returns, if anything, the binding that is there.\<close>

theorem published_binding_is_the_answer:
  assumes "publish_binding env view au path relative manifest metadata rollback status why None = (Inr b, Some encoded)"
    and "binding_inputs_ok env au path relative manifest metadata rollback status why"
    and "bi_python env' = bi_python env" "bi_root env' = bi_root env" "ar_unchanged (bi_root env)" "bi_unchanged env'"
  shows "read_binding env' (au_task au) (au_execution au) (au_key au) (au_fingerprint au) alternates (Some encoded) = Inr (Some b)
    \<and> cb_authority b = au
    \<and> (\<forall>task execution fp. (task, execution, fp) \<noteq> (au_task au, au_execution au, au_fingerprint au) \<longrightarrow>
         (\<exists>m. read_binding env' task execution (au_key au) fp [] (Some encoded) = Inl (Idempotency_Conflict m)))
    \<and> (\<forall>view' au' path' relative' manifest' metadata' rollback' status' why' r file'.
         au_key au' = au_key au \<longrightarrow>
         publish_binding env' view' au' path' relative' manifest' metadata' rollback' status' why' (Some encoded) = (r, file') \<longrightarrow>
         file' = Some encoded \<and> (\<forall>b'. r = Inr b' \<longrightarrow> b' = b))"
proof -
  from published_first [OF assms(1)] obtain st where
    enc: "encoded = ascii_json (binding_payload env au path relative st manifest metadata rollback status why)"
    and size: "length encoded \<le> MAXIMUM_BINDING_BYTES"
    and b: "binding_from_payload (bi_python env) (binding_name (au_key au))
       (binding_payload env au path relative st manifest metadata rollback status why) = Inr b"
    by metis
  note reads = read_published [OF assms(2) enc size b assms(3-6)]
  have "file' = Some encoded \<and> (\<forall>b'. r = Inr b' \<longrightarrow> b' = b)"
    if key: "au_key au' = au_key au"
      and again: "publish_binding env' view' au' path' relative' manifest' metadata' rollback' status' why' (Some encoded)
        = (r, file')"
    for view' au' path' relative' manifest' metadata' rollback' status' why' r file'
  proof -
    have existing: "b' = b"
      if "read_binding_file env' (au_task au') (au_execution au') (au_key au') (au_fingerprint au') [] encoded = Inr b'" for b'
      using that unfolding key reads(1) by (auto split: if_splits)
    show ?thesis
      using again unfolding publish_binding_def Let_def
      by (auto split: if_splits sum.splits dest: existing)
  qed
  then show ?thesis using reads by (auto simp: read_binding_def)
qed

definition demo_binding_env :: binding_env where
  "demo_binding_env = \<lparr>bi_python = demo_python, bi_reuse_only = False,
     bi_root = \<lparr>ar_path = ''/var/lib/wto/artifacts'', ar_dev = 8, ar_ino = 77, ar_unchanged = True\<rparr>,
     bi_now = ''2026-01-01T00:05:00Z'', bi_unchanged = True, bi_retired = True\<rparr>"

definition demo_stat :: artifact_stat where
  "demo_stat = \<lparr>as_regular = True, as_dev = 8, as_ino = 90, as_uid = 990, as_mode = 256, as_nlink = 1, as_size = 3,
     as_mtime = 5, as_ctime = 5\<rparr>"

definition demo_view :: artifact_view where
  "demo_view = \<lparr>av_outbox = True, av_before = demo_stat, av_service_uid = 990, av_named = (8, 90), av_content = ''abc'',
     av_after = demo_stat\<rparr>"

definition demo_manifest :: json where
  "demo_manifest = JObj [(''artifact_id'', JStr (demo_uuid CHR ''3'')), (''execution_id'', JStr (demo_uuid CHR ''2'')),
     (''size_bytes'', JInt 3), (''sha256'', JStr (replicate 64 CHR ''b''))]"

definition demo_metadata :: json where
  "demo_metadata = JObj [(''fingerprint_version'', JStr ''1''), (''fingerprint_sha256'', JStr (replicate 64 CHR ''c''))]"

definition demo_published :: "(recovery_error + capture_binding) \<times> string option" where
  "demo_published = publish_binding demo_binding_env (Some demo_view) demo_authority
     ''/var/lib/wto/artifacts/outbox/artifact-1'' ''outbox/artifact-1'' demo_manifest demo_metadata (JObj []) ''completed''
     None None"

lemma demo_inputs:
  "binding_inputs_ok demo_binding_env demo_authority ''/var/lib/wto/artifacts/outbox/artifact-1'' ''outbox/artifact-1''
     demo_manifest demo_metadata (JObj []) ''completed'' None"
  by (simp add: binding_inputs_ok_def demo_binding_env_def demo_authority_ok demo_manifest_def demo_metadata_def
      uuid_ascii [OF demo_uuid_ok] lower_hex_def) (simp add: ascii_text_def)

lemma demo_published_some: "\<exists>b encoded. demo_published = (Inr b, Some encoded)"
proof -
  let ?P = "binding_payload demo_binding_env demo_authority ''/var/lib/wto/artifacts/outbox/artifact-1'' ''outbox/artifact-1''
     demo_stat demo_manifest demo_metadata (JObj []) ''completed'' None"
  have "artifact_reference_ok ''outbox/artifact-1''"
    by (simp add: artifact_reference_ok_def path_parts_def eval_nat_numeral)
  moreover have "hex_text 64 (replicate 64 CHR ''b'')" by (simp add: demo_hex lower_hex_def)
  ultimately have inspected: "inspect_artifact (py_sha demo_python) (Some demo_view) ''outbox/artifact-1'' 3
      (replicate 64 CHR ''b'') None = Inr demo_stat"
    by (simp add: inspect_artifact_def demo_view_def demo_stat_def demo_python_def stat_identity_def Let_def)
  have authority: "event_authority demo_python ?P = Inr demo_authority" by (rule payload_authority [OF demo_authority_ok])
  have "payload_consistent demo_python ?P demo_authority"
    by (simp add: payload_consistent_def payload_texts INTEGER_FIELDS_def Let_def)
      (simp add: field_def binding_payload_def demo_manifest_def demo_metadata_def demo_authority_def demo_print_def
        equals_one_def)
  moreover have "object_with ?P BINDING_FIELDS" by (simp add: object_with_def binding_payload_def BINDING_FIELDS_def)
  moreover have "text_or_null (field ?P ''reason'')" by (simp add: field_def binding_payload_def optional_name_def)
  ultimately have "\<exists>b. binding_from_payload demo_python (binding_name (au_key demo_authority)) ?P = Inr b"
    by (simp add: binding_from_payload_def authority payload_texts)
  then obtain b where b: "binding_from_payload demo_python (binding_name (au_key demo_authority)) ?P = Inr b" by blast
  have "length (ascii_json ?P) \<le> json_bound ?P"
    by (simp add: ascii_canonical [OF payload_ascii [OF demo_inputs]] length_canonical)
  also have "\<dots> \<le> 20000"
    by (simp add: binding_payload_def demo_binding_env_def demo_stat_def demo_manifest_def demo_metadata_def
        demo_authority_def demo_print_def demo_uuid_def optional_name_def field_def)
  finally have "length (ascii_json ?P) \<le> MAXIMUM_BINDING_BYTES" by (simp add: MAXIMUM_BINDING_BYTES_def)
  moreover have "artifact_full_path (bi_root demo_binding_env) ''outbox/artifact-1'' = ''/var/lib/wto/artifacts/outbox/artifact-1''"
    by (simp add: artifact_full_path_def path_parts_def demo_binding_env_def)
  moreover have "field demo_manifest ''size_bytes'' = JInt 3"
    "json_get demo_manifest ''sha256'' = Some (JStr (replicate 64 CHR ''b''))"
    by (simp_all add: field_def demo_manifest_def)
  moreover have "bi_python demo_binding_env = demo_python" "\<not> bi_reuse_only demo_binding_env"
    by (simp_all add: demo_binding_env_def)
  ultimately show ?thesis
    by (simp add: demo_published_def publish_binding_def inspected b Let_def del: ascii_json.simps)
qed

lemma published_binding_is_the_answer_witness:
  "\<exists>b encoded. demo_published = (Inr b, Some encoded) \<and>
     read_binding demo_binding_env (demo_uuid CHR ''1'') (demo_uuid CHR ''2'') (demo_uuid CHR ''3'') demo_print []
       (Some encoded) = Inr (Some b)"
proof -
  obtain b encoded where p: "demo_published = (Inr b, Some encoded)" using demo_published_some by blast
  have "ar_unchanged (bi_root demo_binding_env)" "bi_unchanged demo_binding_env"
    by (simp_all add: demo_binding_env_def)
  from published_binding_is_the_answer [OF p [unfolded demo_published_def] demo_inputs refl refl this, of "[]",
      THEN conjunct1]
  have "read_binding demo_binding_env (demo_uuid CHR ''1'') (demo_uuid CHR ''2'') (demo_uuid CHR ''3'') demo_print []
       (Some encoded) = Inr (Some b)" by (simp add: demo_authority_def)
  then show ?thesis using p by blast
qed

end
