(* ===== verification/Upload_Retention.thy ===== *)
theory Upload_Retention
  imports Upload_Store "HOL-Library.Product_Lexorder"
begin

text \<open>
  The retention query on the confirmed uploads (\<open>confirmed_artifacts_for_pruning\<close>) and what it selects,
  stated without positions: a confirmed upload is removed when it is too
  old, when enough newer ones are kept, or when it and the newer ones exceed the bytes to keep.
\<close>

section \<open>The query\<close>

definition confirmed_stamp :: "upload_row \<Rightarrow> stamp" where
  "confirmed_stamp r = (case ob_confirmed_at r of Some t \<Rightarrow> t | None \<Rightarrow> ob_next_attempt_at r)"

text \<open>The window functions of the query: rows from the newest to the oldest, each with its position and with
  the bytes of the rows up to it.\<close>

definition newest_first :: "upload_row list \<Rightarrow> upload_row list" where
  "newest_first rows = rev (sort_key (\<lambda>r. (confirmed_stamp r, ob_id r)) rows)"

fun ranked :: "nat \<Rightarrow> int \<Rightarrow> upload_row list \<Rightarrow> (upload_row \<times> nat \<times> int) list" where
  "ranked n b [] = []"
| "ranked n b (r # rs) = (r, n + 1, b + up_size_bytes r) # ranked (n + 1) (b + up_size_bytes r) rs"

definition prunable :: "store \<Rightarrow> upload_row list" where
  "prunable db = filter (\<lambda>r. ob_state r = Confirmed \<and> \<not> is_artifact_prune_quarantine_path (up_relative_path r)) (t_uploads db)"

definition over_retention :: "stamp option \<Rightarrow> int option \<Rightarrow> int option \<Rightarrow> upload_row \<times> nat \<times> int \<Rightarrow> bool" where
  "over_retention before count bytes entry =
     (case entry of (r, position, kept) \<Rightarrow>
        (case before of None \<Rightarrow> False | Some t \<Rightarrow> confirmed_stamp r < t)
        \<or> (case count of None \<Rightarrow> False | Some n \<Rightarrow> int position > n)
        \<or> (case bytes of None \<Rightarrow> False | Some n \<Rightarrow> kept > n))"

definition confirmed_artifacts_for_pruning ::
  "stamp option \<Rightarrow> int option \<Rightarrow> int option \<Rightarrow> int \<Rightarrow> store \<Rightarrow> py_error + upload_row list" where
  "confirmed_artifacts_for_pruning before count bytes limit db =
     (if limit \<le> 0 \<or> limit > 10000
      then Inl (Value_Error ''artifact pruning query limit must be between 1 and 10000'')
      else if (case count of None \<Rightarrow> False | Some n \<Rightarrow> n < 0)
      then Inl (Value_Error ''artifact retain count cannot be negative'')
      else if (case bytes of None \<Rightarrow> False | Some n \<Rightarrow> n < 0)
      then Inl (Value_Error ''artifact retain bytes cannot be negative'')
      else Inr (limit_rows limit (sort_key (\<lambda>r. (confirmed_stamp r, ob_id r))
             (map fst (filter (over_retention before count bytes) (ranked 0 0 (newest_first (prunable db))))))))"

section \<open>Rows from the newest to the oldest\<close>

definition retention_key :: "upload_row \<Rightarrow> stamp \<times> uuid" where
  "retention_key r = (confirmed_stamp r, ob_id r)"

definition descending :: "upload_row list \<Rightarrow> bool" where
  "descending xs \<longleftrightarrow> sorted_wrt (\<lambda>q r. retention_key r < retention_key q) xs"

lemma ranked_iff:
  "(r, p, k) \<in> set (ranked n b xs) \<longleftrightarrow>
     (\<exists>ys zs. xs = ys @ r # zs \<and> p = n + length ys + 1 \<and> k = b + sum_list (map up_size_bytes (ys @ [r])))"
proof (induction xs arbitrary: n b)
  case (Cons x xs)
  have "(r, p, k) \<in> set (ranked n b (x # xs)) \<longleftrightarrow> (r = x \<and> p = n + 1 \<and> k = b + up_size_bytes x)
      \<or> (\<exists>ys zs. xs = ys @ r # zs \<and> p = n + length (x # ys) + 1 \<and> k = b + sum_list (map up_size_bytes ((x # ys) @ [r])))"
    using Cons.IH [of "n + 1" "b + up_size_bytes x"] by (simp add: algebra_simps)
  also have "\<dots> \<longleftrightarrow> (\<exists>ys zs. x # xs = ys @ r # zs \<and> p = n + length ys + 1 \<and> k = b + sum_list (map up_size_bytes (ys @ [r])))"
    (is "?l \<longleftrightarrow> ?r")
  proof
    assume ?l
    then show ?r
    proof
      assume "r = x \<and> p = n + 1 \<and> k = b + up_size_bytes x"
      then show ?r by (intro exI [of _ "[]"] exI [of _ xs]) simp
    next
      assume "\<exists>ys zs. xs = ys @ r # zs \<and> p = n + length (x # ys) + 1 \<and> k = b + sum_list (map up_size_bytes ((x # ys) @ [r]))"
      then show ?r by (metis append_Cons)
    qed
  next
    assume ?r
    then obtain ys zs where *: "x # xs = ys @ r # zs" "p = n + length ys + 1" "k = b + sum_list (map up_size_bytes (ys @ [r]))"
      by blast
    then show ?l by (cases ys) auto
  qed
  finally show ?case .
qed simp

lemma descending_distinct: "descending xs \<Longrightarrow> distinct xs"
  unfolding descending_def by (induction xs) auto

lemma descending_split:
  assumes "descending (ys @ r # zs)"
  shows "{q \<in> set (ys @ r # zs). retention_key r < retention_key q} = set ys"
    "{q \<in> set (ys @ r # zs). retention_key r \<le> retention_key q} = set (ys @ [r])" "distinct (ys @ [r])"
proof -
  have up: "retention_key r < retention_key q" if "q \<in> set ys" for q
    using assms that by (auto simp: descending_def sorted_wrt_append)
  have down: "retention_key q < retention_key r" if "q \<in> set zs" for q
    using assms that by (auto simp: descending_def sorted_wrt_append)
  show "{q \<in> set (ys @ r # zs). retention_key r < retention_key q} = set ys"
    using up down by (auto dest: less_asym)
  show "{q \<in> set (ys @ r # zs). retention_key r \<le> retention_key q} = set (ys @ [r])"
    using up by (auto simp: less_imp_le dest: down leD)
  have "descending (ys @ [r])" using assms by (auto simp: descending_def sorted_wrt_append)
  then show "distinct (ys @ [r])" by (rule descending_distinct)
qed

text \<open>What the row is removed for.\<close>

definition outdated :: "stamp option \<Rightarrow> int option \<Rightarrow> int option \<Rightarrow> upload_row set \<Rightarrow> upload_row \<Rightarrow> bool" where
  "outdated before count bytes kept r \<longleftrightarrow>
     (case before of None \<Rightarrow> False | Some t \<Rightarrow> confirmed_stamp r < t)
     \<or> (case count of None \<Rightarrow> False | Some n \<Rightarrow> n \<le> int (card {q \<in> kept. retention_key r < retention_key q}))
     \<or> (case bytes of None \<Rightarrow> False | Some n \<Rightarrow> n < (\<Sum>q | q \<in> kept \<and> retention_key r \<le> retention_key q. up_size_bytes q))"

lemma over_retention_iff:
  assumes "descending xs"
  shows "r \<in> set (map fst (filter (over_retention before count bytes) (ranked 0 0 xs)))
    \<longleftrightarrow> r \<in> set xs \<and> outdated before count bytes (set xs) r"
proof -
  have entry: "over_retention before count bytes (r, length ys + 1, sum_list (map up_size_bytes (ys @ [r])))
      \<longleftrightarrow> outdated before count bytes (set xs) r" if "xs = ys @ r # zs" for ys zs
  proof -
    note split = descending_split [OF assms [unfolded that]]
    have "card {q \<in> set xs. retention_key r < retention_key q} = length ys"
      using split(1,3) unfolding that by (simp add: distinct_card)
    moreover have "(\<Sum>q | q \<in> set xs \<and> retention_key r \<le> retention_key q. up_size_bytes q)
        = sum_list (map up_size_bytes (ys @ [r]))"
      using split(2) sum_list_distinct_conv_sum_set [OF split(3), of up_size_bytes] unfolding that by simp
    ultimately show ?thesis
      by (auto simp: over_retention_def outdated_def split: option.split)
  qed
  have "r \<in> set (map fst (filter (over_retention before count bytes) (ranked 0 0 xs)))
    \<longleftrightarrow> (\<exists>p k. (r, p, k) \<in> set (ranked 0 0 xs) \<and> over_retention before count bytes (r, p, k))"
    by force
  also have "\<dots> \<longleftrightarrow> (\<exists>ys zs. xs = ys @ r # zs \<and>
      over_retention before count bytes (r, length ys + 1, sum_list (map up_size_bytes (ys @ [r]))))"
    unfolding ranked_iff by auto
  also have "\<dots> \<longleftrightarrow> (\<exists>ys zs. xs = ys @ r # zs) \<and> outdated before count bytes (set xs) r"
    using entry by blast
  also have "\<dots> \<longleftrightarrow> r \<in> set xs \<and> outdated before count bytes (set xs) r"
    by (simp add: in_set_conv_decomp)
  finally show ?thesis .
qed

lemma sorted_by_key:
  assumes "distinct (map ob_id rows)"
  shows "sorted_wrt (\<lambda>q r. retention_key q < retention_key r) (sort_key (\<lambda>r. (confirmed_stamp r, ob_id r)) rows)"
proof -
  let ?s = "sort_key (\<lambda>r. (confirmed_stamp r, ob_id r)) rows"
  have eq: "(\<lambda>r. (confirmed_stamp r, ob_id r)) = retention_key" by (simp add: retention_key_def fun_eq_iff)
  have "distinct (map ob_id ?s)"
    using assms by (simp add: distinct_map)
  then have "distinct (map retention_key ?s)"
    by (auto simp: distinct_map inj_on_def retention_key_def)
  moreover have "sorted (map retention_key ?s)" using sorted_sort_key [of retention_key rows] unfolding eq .
  ultimately have "sorted_wrt (<) (map retention_key ?s)" using strict_sorted_iff by blast
  then show ?thesis by (simp add: sorted_wrt_map)
qed

lemma newest_descending: "distinct (map ob_id rows) \<Longrightarrow> descending (newest_first rows)"
  using sorted_by_key by (simp add: descending_def newest_first_def sorted_wrt_rev)

lemma ranked_rows: "map fst (ranked n b xs) = xs"
  by (induction xs arbitrary: n b) auto

lemma selected_distinct:
  assumes "distinct (map ob_id xs)"
  shows "distinct (map ob_id (map fst (filter P (ranked n b xs))))"
proof -
  have "distinct (map (ob_id \<circ> fst) (ranked n b xs))" using assms ranked_rows [of n b xs] by (metis map_map)
  then show ?thesis by (simp add: distinct_map_filter comp_def)
qed

text \<open>The retention of uploads selects, oldest first and up to the limit of one pass, exactly the confirmed uploads not
  yet in quarantine that are older than the date to keep, or have at least as many newer confirmed ones as
  there are to keep, or take more bytes together with the newer ones than there are to keep.\<close>

theorem retention_selects_the_oldest:
  assumes "distinct (map ob_id (t_uploads db))"
    and "confirmed_artifacts_for_pruning before count bytes limit db = Inr rows"
  shows "\<exists>eligible. rows = take (nat limit) eligible
    \<and> sorted_wrt (\<lambda>q r. retention_key q < retention_key r) eligible
    \<and> set eligible = {r \<in> set (prunable db). outdated before count bytes (set (prunable db)) r}"
proof -
  let ?xs = "newest_first (prunable db)"
  let ?selected = "map fst (filter (over_retention before count bytes) (ranked 0 0 ?xs))"
  let ?eligible = "sort_key (\<lambda>r. (confirmed_stamp r, ob_id r)) ?selected"
  have ids: "distinct (map ob_id (prunable db))" using assms(1) by (simp add: prunable_def distinct_map_filter)
  have xs: "set ?xs = set (prunable db)" by (simp add: newest_first_def)
  have "distinct (map ob_id ?xs)"
    using ids by (metis (no_types, lifting) xs distinct_map distinct_rev distinct_sort newest_first_def)
  then have "sorted_wrt (\<lambda>q r. retention_key q < retention_key r) ?eligible"
    by (intro sorted_by_key selected_distinct)
  moreover have "set ?eligible = {r \<in> set (prunable db). outdated before count bytes (set (prunable db)) r}"
    using over_retention_iff [OF newest_descending [OF ids]] unfolding xs set_sort by blast
  moreover have "rows = take (nat limit) ?eligible"
    using assms(2) by (auto simp: confirmed_artifacts_for_pruning_def limit_rows_def split: if_splits)
  ultimately show ?thesis by blast
qed

definition demo_confirmed :: "string \<Rightarrow> int \<Rightarrow> upload_row" where
  "demo_confirmed t n = \<lparr>ob_id = t, ob_task_id = ''t'', ob_payload = [], ob_payload_hash = [], ob_state = Confirmed,
     ob_attempts = 1, ob_next_attempt_at = t, ob_confirmed_at = Some t, ob_last_error = None, up_artifact_id = t,
     up_relative_path = ''outbox/artifact-'' @ t, up_media_type = ''m'', up_size_bytes = n, up_sha256 = []\<rparr>"

definition demo_uploads :: store where
  "demo_uploads = empty_store\<lparr>t_uploads := [demo_confirmed ''3'' 5, demo_confirmed ''1'' 7, demo_confirmed ''2'' 9]\<rparr>"

lemma demo_pruned:
  "confirmed_artifacts_for_pruning None (Some 1) None 10 demo_uploads = Inr [demo_confirmed ''1'' 7, demo_confirmed ''2'' 9]"
  by code_simp

theorem retention_selects_the_oldest_witness:
  "confirmed_artifacts_for_pruning None (Some 1) None 10 demo_uploads = Inr [demo_confirmed ''1'' 7, demo_confirmed ''2'' 9]
   \<and> (\<exists>eligible. [demo_confirmed ''1'' 7, demo_confirmed ''2'' 9] = take 10 eligible
    \<and> set eligible = {r \<in> set (prunable demo_uploads). outdated None (Some 1) None (set (prunable demo_uploads)) r})"
proof -
  have ids: "distinct (map ob_id (t_uploads demo_uploads))" by (simp add: demo_uploads_def demo_confirmed_def empty_store_def)
  show ?thesis using retention_selects_the_oldest [OF ids demo_pruned] demo_pruned by auto
qed

end
