(* ===== verification/Artifact_Spool.thy ===== *)
theory Artifact_Spool
  imports Upload_Store Capture_Binding
begin

text \<open>
  The artifact spool of the agent (\<open>SQLiteArtifactStager\<close> in \<open>application/artifacts.py\<close>): a file is copied
  into the outbox under a temporary name, an intent makes the copy durable, a rename publishes it, a row
  queues it for upload and the intent is retired; after an interruption the intents say what to finish.
  A directory is the list of its entries.  Every change of a directory or of the database is one durable
  step, and a crash stops the process before some step, wherever it is: \<open>sp_crash\<close> counts the steps that
  are left.  Owner, type and links of a file are what the system reports.
\<close>

section \<open>Errors, files and the spool\<close>

datatype spool_error =
    Spool_Crash
  | Recon_Cancelled
  | Recon_Limit
  | Spool_Timeout
  | Staging_Cancelled
  | Reconciliation_Error "string list"
  | Spool_Fail string string

record spool_file =
  sf_bytes :: string
  sf_mode :: nat
  sf_regular :: bool
  sf_owned :: bool
  sf_links :: nat

type_synonym directory = "(string \<times> spool_file) list"

record control =
  rc_entries :: nat
  rc_bytes :: nat
  rc_checks :: nat
  rc_max_entries :: nat
  rc_max_bytes :: nat

text \<open>A staging as its callers see it (\<open>_StagingTransaction\<close>): a request to cancel before the commit began
  aborts it, a later one is refused.\<close>

datatype staging_state = Tx_Copying | Tx_Ready | Tx_Committing | Tx_Committed | Tx_Aborted

record staging_tx =
  tx_state :: staging_state
  tx_stop :: bool

record spool =
  sp_outbox :: directory
  sp_intents :: directory
  sp_db :: store
  sp_issues :: "string list"
  sp_fresh :: nat
  sp_crash :: "nat option"
  sp_control :: control
  sp_tx :: staging_tx
  sp_ops :: nat

text \<open>The environment: the digest, the contract of manifests, the tokens of \<open>secrets\<close>, the identifiers and the
  clock of rows, whether a quarantine is durable, and at which check a reconciliation is stopped.\<close>

datatype quarantine_outcome = Quarantined | Left_In_Place | Moved_Not_Durable

record spool_env =
  sv_python :: python
  sv_valid :: "json \<Rightarrow> bool"
  sv_token :: "nat \<Rightarrow> string"
  sv_upload_id :: "nat \<Rightarrow> uuid"
  sv_now :: stamp
  sv_quarantine :: "nat \<Rightarrow> quarantine_outcome"
  sv_stop :: "nat \<Rightarrow> spool_error option"

type_synonym 'a spool_op = "spool \<Rightarrow> (spool_error + 'a) \<times> spool"

definition andthen :: "'a spool_op \<Rightarrow> ('a \<Rightarrow> 'b spool_op) \<Rightarrow> 'b spool_op" where
  "andthen m f s = (case m s of (Inl e, s') \<Rightarrow> (Inl e, s') | (Inr a, s') \<Rightarrow> f a s')"

definition give :: "'a \<Rightarrow> 'a spool_op" where
  "give a s = (Inr a, s)"

definition fail_with :: "spool_error \<Rightarrow> 'a spool_op" where
  "fail_with e s = (Inl e, s)"

definition require :: "bool \<Rightarrow> spool_error \<Rightarrow> unit spool_op" where
  "require b e s = (if b then Inr () else Inl e, s)"

definition durably :: "(spool \<Rightarrow> spool) \<Rightarrow> unit spool_op" where
  "durably f s =
     (case sp_crash s of
        None \<Rightarrow> (Inr (), f s)
      | Some 0 \<Rightarrow> (Inl Spool_Crash, s)
      | Some (Suc n) \<Rightarrow> (Inr (), f (s\<lparr>sp_crash := Some n\<rparr>)))"

definition fresh_token :: "spool_env \<Rightarrow> string spool_op" where
  "fresh_token env s = (Inr (sv_token env (sp_fresh s)), s\<lparr>sp_fresh := sp_fresh s + 1\<rparr>)"

section \<open>Limits of a reconciliation\<close>

definition control_check :: "spool_env \<Rightarrow> unit spool_op" where
  "control_check env s =
     (let c = sp_control s; s' = s\<lparr>sp_control := c\<lparr>rc_checks := rc_checks c + 1\<rparr>\<rparr>
      in case sv_stop env (rc_checks c) of None \<Rightarrow> (Inr (), s') | Some e \<Rightarrow> (Inl e, s'))"

definition inspect_entry :: "spool_env \<Rightarrow> unit spool_op" where
  "inspect_entry env = andthen (control_check env) (\<lambda>_ s.
     let c = sp_control s; s' = s\<lparr>sp_control := c\<lparr>rc_entries := rc_entries c + 1\<rparr>\<rparr>
     in if rc_entries c + 1 > rc_max_entries c then (Inl Recon_Limit, s') else (Inr (), s'))"

definition inspect_bytes :: "spool_env \<Rightarrow> nat \<Rightarrow> unit spool_op" where
  "inspect_bytes env n = andthen (control_check env) (\<lambda>_ s.
     let c = sp_control s; s' = s\<lparr>sp_control := c\<lparr>rc_bytes := rc_bytes c + n\<rparr>\<rparr>
     in if rc_bytes c + n > rc_max_bytes c then (Inl Recon_Limit, s') else (Inr (), s'))"

definition CHUNK :: nat where
  "CHUNK = 1048576"

text \<open>Hashing a file under control: a check before every read, the last of which finds nothing.\<close>

function charge_bytes :: "spool_env \<Rightarrow> nat \<Rightarrow> unit spool_op" where
  "charge_bytes env n =
     (if n = 0 then control_check env
      else andthen (control_check env) (\<lambda>_. andthen (inspect_bytes env (min n CHUNK)) (\<lambda>_. charge_bytes env (n - CHUNK))))"
  by pat_completeness auto
termination by (relation "measure snd") (auto simp: CHUNK_def)

declare charge_bytes.simps [simp del]

section \<open>Names\<close>

definition has_prefix :: "string \<Rightarrow> string \<Rightarrow> bool" where
  "has_prefix name p \<longleftrightarrow> take (length p) name = p"

definition has_suffix :: "string \<Rightarrow> string \<Rightarrow> bool" where
  "has_suffix name p \<longleftrightarrow> length p \<le> length name \<and> drop (length name - length p) name = p"

definition lookup :: "directory \<Rightarrow> string \<Rightarrow> spool_file option" where
  "lookup d name = map_of d name"

definition rename_entry :: "string \<Rightarrow> string \<Rightarrow> directory \<Rightarrow> directory" where
  "rename_entry a b d = map (\<lambda>(n, f). if n = a then (b, f) else (n, f)) d"

definition record_issue :: "string \<Rightarrow> unit spool_op" where
  "record_issue i s = (Inr (), if i \<in> set (sp_issues s) then s else s\<lparr>sp_issues := sp_issues s @ [i]\<rparr>)"

definition record_quarantine :: "string \<Rightarrow> string \<Rightarrow> unit spool_op" where
  "record_quarantine name place = record_issue (place @ '':physical_delete_pending:'' @ name)"

text \<open>\<open>logical_quarantine\<close>: the name leaves its place for a fresh one with the prefix; its bytes stay.\<close>

datatype place = Outbox | Intents

definition update_directory :: "place \<Rightarrow> (directory \<Rightarrow> directory) \<Rightarrow> spool \<Rightarrow> spool" where
  "update_directory p f s =
     (case p of Outbox \<Rightarrow> s\<lparr>sp_outbox := f (sp_outbox s)\<rparr> | Intents \<Rightarrow> s\<lparr>sp_intents := f (sp_intents s)\<rparr>)"

definition entries_of :: "place \<Rightarrow> spool \<Rightarrow> directory" where
  "entries_of p s = (case p of Outbox \<Rightarrow> sp_outbox s | Intents \<Rightarrow> sp_intents s)"

definition move_entry :: "place \<Rightarrow> string \<Rightarrow> string \<Rightarrow> 'a \<Rightarrow> 'a spool_op" where
  "move_entry p a b result = andthen (durably (update_directory p (rename_entry a b))) (\<lambda>_. give result)"

definition logical_quarantine :: "spool_env \<Rightarrow> place \<Rightarrow> string \<Rightarrow> string \<Rightarrow> string option spool_op" where
  "logical_quarantine env p name prefix = andthen (fresh_token env) (\<lambda>token s.
     if lookup (entries_of p s) name = None \<or> lookup (entries_of p s) (prefix @ token) \<noteq> None then (Inr None, s)
     else case sv_quarantine env (sp_fresh s) of
       Left_In_Place \<Rightarrow> (Inr None, s)
     | Moved_Not_Durable \<Rightarrow> move_entry p name (prefix @ token) None s
     | Quarantined \<Rightarrow> move_entry p name (prefix @ token) (Some (prefix @ token)) s)"

definition quarantine_or_fail :: "spool_env \<Rightarrow> place \<Rightarrow> string \<Rightarrow> string \<Rightarrow> string \<Rightarrow> string \<Rightarrow> unit spool_op" where
  "quarantine_or_fail env p name prefix message context = andthen (logical_quarantine env p name prefix) (\<lambda>outcome.
     case outcome of
       None \<Rightarrow> fail_with (Spool_Fail ''RuntimeError'' message)
     | Some q \<Rightarrow> record_quarantine q context)"

section \<open>Validation of files\<close>

definition validate_private_file :: "spool_file \<Rightarrow> nat \<Rightarrow> spool_error + unit" where
  "validate_private_file f mode =
     (if \<not> sf_regular f then Inl (Spool_Fail ''PermissionError'' ''artifact object is not a regular file'')
      else if \<not> sf_owned f then Inl (Spool_Fail ''PermissionError'' ''artifact object owner does not match service account'')
      else if sf_links f \<noteq> 1 then Inl (Spool_Fail ''PermissionError'' ''artifact object must have one hard link'')
      else if sf_mode f \<noteq> mode then Inl (Spool_Fail ''PermissionError'' ''artifact object mode is invalid'')
      else Inr ())"

definition from_sum :: "spool_error + 'a \<Rightarrow> 'a spool_op" where
  "from_sum r s = (r, s)"

definition open_entry :: "place \<Rightarrow> string \<Rightarrow> spool_file spool_op" where
  "open_entry p name s =
     (case lookup (entries_of p s) name of
        None \<Rightarrow> (Inl (Spool_Fail ''FileNotFoundError'' name), s)
      | Some f \<Rightarrow> (Inr f, s))"

definition validate_named_artifact ::
  "spool_env \<Rightarrow> bool \<Rightarrow> string \<Rightarrow> int \<Rightarrow> string \<Rightarrow> unit spool_op" where
  "validate_named_artifact env controlled name expected sha256 = andthen (open_entry Outbox name) (\<lambda>f.
     andthen (from_sum (validate_private_file f 256)) (\<lambda>_.
     andthen (require (int (length (sf_bytes f)) = expected) (Spool_Fail ''RuntimeError'' ''queued artifact size changed'')) (\<lambda>_.
     andthen (if controlled then charge_bytes env (length (sf_bytes f)) else give ()) (\<lambda>_.
       require (py_sha (sv_python env) (sf_bytes f) = sha256)
         (Spool_Fail ''RuntimeError'' ''queued artifact integrity changed'')))))"

definition validate_owned_regular :: "string \<Rightarrow> unit spool_op" where
  "validate_owned_regular name = andthen (open_entry Outbox name) (\<lambda>f.
     andthen (require (sf_regular f) (Spool_Fail ''PermissionError'' ''untracked artifact is not a regular file'')) (\<lambda>_.
       require (sf_owned f \<and> sf_links f = 1) (Spool_Fail ''PermissionError'' ''untracked artifact ownership is invalid'')))"

section \<open>Intents\<close>

record artifact_intent =
  in_name :: string
  in_temporary :: string
  in_final :: string
  in_task :: string
  in_manifest :: json
  in_authority :: "json option"

definition in_artifact :: "artifact_intent \<Rightarrow> string" where
  "in_artifact i = text_member (in_manifest i) ''artifact_id''"

definition in_path :: "artifact_intent \<Rightarrow> string" where
  "in_path i = ''outbox/'' @ in_final i"

definition MAXIMUM_INTENT_BYTES :: nat where
  "MAXIMUM_INTENT_BYTES = 1048576"

definition AUTHORITY_FIELDS :: "string list" where
  "AUTHORITY_FIELDS = [''task_id'', ''execution_id'', ''idempotency_key'', ''fingerprint_version'',
     ''fingerprint_sha256'', ''operation_token'']"

definition INTENT_FIELDS :: "string list" where
  "INTENT_FIELDS = [''version'', ''recorded_at'', ''task_id'', ''artifact_id'', ''execution_id'', ''temporary_name'',
     ''final_name'', ''size_bytes'', ''sha256'', ''media_type'', ''manifest'']"

fun json_text :: "json \<Rightarrow> string option" where
  "json_text (JStr s) = Some s"
| "json_text _ = None"

definition authority_ids_ok :: "json \<Rightarrow> string \<Rightarrow> json \<Rightarrow> bool" where
  "authority_ids_ok authority task manifest \<longleftrightarrow>
     list_all (\<lambda>(k, expected). case (json_text (field authority k), expected) of
          (Some observed, Some e) \<Rightarrow> observed = e \<and> canonical_uuid observed | _ \<Rightarrow> False)
       [(''task_id'', Some task), (''execution_id'', json_text (field manifest ''execution_id'')),
        (''idempotency_key'', json_text (field manifest ''idempotency_key''))]"

definition validate_capture_intent_authority :: "json \<Rightarrow> string \<Rightarrow> json \<Rightarrow> spool_error + unit" where
  "validate_capture_intent_authority authority task manifest =
     (if \<not> authority_ids_ok authority task manifest
      then Inl (Spool_Fail ''ValueError'' ''artifact intent capture authority is inconsistent'')
      else if field manifest ''artifact_id'' \<noteq> field authority ''idempotency_key''
      then Inl (Spool_Fail ''ValueError'' ''artifact intent capture artifact id is inconsistent'')
      else case (json_text (field authority ''fingerprint_version''), json_text (field authority ''fingerprint_sha256''),
                 json_text (field authority ''operation_token'')) of
        (Some v, Some h, Some t) \<Rightarrow>
          if v \<noteq> [] \<and> hex_text 64 h \<and> hex_text 32 t then Inr ()
          else Inl (Spool_Fail ''ValueError'' ''artifact intent capture fingerprint authority is invalid'')
      | _ \<Rightarrow> Inl (Spool_Fail ''ValueError'' ''artifact intent capture fingerprint authority is invalid''))"

definition intent_json :: "spool_env \<Rightarrow> string \<Rightarrow> string \<Rightarrow> string \<Rightarrow> json \<Rightarrow> json option \<Rightarrow> json" where
  "intent_json env task temporary final manifest authority = JObj
     ([(''version'', JInt (if authority = None then 1 else 2)),
       (''recorded_at'', JStr (sv_now env)),
       (''task_id'', JStr task),
       (''artifact_id'', field manifest ''artifact_id''),
       (''execution_id'', field manifest ''execution_id''),
       (''temporary_name'', JStr temporary),
       (''final_name'', JStr final),
       (''size_bytes'', field manifest ''size_bytes''),
       (''sha256'', field manifest ''sha256''),
       (''media_type'', field manifest ''media_type''),
       (''manifest'', manifest)]
      @ (case authority of None \<Rightarrow> [] | Some a \<Rightarrow> [(''capture_authority'', a)]))"

definition private_file :: "string \<Rightarrow> nat \<Rightarrow> spool_file" where
  "private_file bytes mode = \<lparr>sf_bytes = bytes, sf_mode = mode, sf_regular = True, sf_owned = True, sf_links = 1\<rparr>"

definition create_entry :: "place \<Rightarrow> string \<Rightarrow> unit spool_op" where
  "create_entry p name s =
     (if lookup (entries_of p s) name \<noteq> None then (Inl (Spool_Fail ''FileExistsError'' name), s)
      else durably (update_directory p (\<lambda>d. d @ [(name, private_file [] 384)])) s)"

definition change_entry :: "place \<Rightarrow> string \<Rightarrow> (spool_file \<Rightarrow> spool_file) \<Rightarrow> unit spool_op" where
  "change_entry p name f = durably (update_directory p (map (\<lambda>(n, x). (n, if n = name then f x else x))))"

text \<open>\<open>_write_intent\<close>; \<open>synced\<close> is whether the intent and its directory reach the disk.\<close>

definition write_intent ::
  "spool_env \<Rightarrow> bool \<Rightarrow> string \<Rightarrow> string \<Rightarrow> string \<Rightarrow> json \<Rightarrow> json option \<Rightarrow> artifact_intent spool_op" where
  "write_intent env synced task temporary final manifest authority = andthen (fresh_token env) (\<lambda>token.
     let name = ''intent-'' @ token @ ''.json'';
         encoded = ascii_json (intent_json env task temporary final manifest authority) in
     andthen (case authority of
         None \<Rightarrow> give ()
       | Some a \<Rightarrow>
           if \<not> object_with a AUTHORITY_FIELDS
           then fail_with (Spool_Fail ''ValueError'' ''capture artifact intent authority is invalid'')
           else from_sum (validate_capture_intent_authority a task manifest)) (\<lambda>_.
     andthen (require (length encoded \<le> MAXIMUM_INTENT_BYTES) (Spool_Fail ''RuntimeError'' ''artifact intent is too large'')) (\<lambda>_.
     andthen (create_entry Intents name) (\<lambda>_.
     andthen (change_entry Intents name (\<lambda>f. f\<lparr>sf_bytes := encoded\<rparr>)) (\<lambda>_.
       if synced
       then give \<lparr>in_name = name, in_temporary = temporary, in_final = final, in_task = task,
                  in_manifest = manifest, in_authority = authority\<rparr>
       else andthen (logical_quarantine env Intents name ''.artifact-intent-quarantine-'') (\<lambda>q.
            andthen (case q of None \<Rightarrow> give () | Some n \<Rightarrow> record_quarantine n ''artifact_intent'') (\<lambda>_.
              fail_with (Spool_Fail ''OSError'' ''fsync''))))))))"

definition intent_members_ok :: "json \<Rightarrow> bool" where
  "intent_members_ok payload \<longleftrightarrow>
     (case (json_text (field payload ''temporary_name''), json_text (field payload ''final_name''),
            json_text (field payload ''task_id'')) of
        (Some temporary, Some final, Some task) \<Rightarrow>
          has_prefix temporary ''.staging-'' \<and> CHR ''/'' \<notin> set temporary
          \<and> has_prefix final ''artifact-'' \<and> CHR ''/'' \<notin> set final \<and> is_object (field payload ''manifest'')
      | _ \<Rightarrow> False)"

definition equals_two :: "json \<Rightarrow> bool" where
  "equals_two j \<longleftrightarrow> j = JInt 2 \<or> j = JFloat ''2.0''"

definition parse_intent :: "spool_env \<Rightarrow> string \<Rightarrow> string \<Rightarrow> spool_error + artifact_intent" where
  "parse_intent env name bytes =
     (case (if utf8_points bytes = None then None else loads (py_norm (sv_python env)) bytes) of
        None \<Rightarrow> Inl (Spool_Fail ''JSONDecodeError'' name)
      | Some payload \<Rightarrow>
          let version2 = equals_two (field payload ''version''); authority = field payload ''capture_authority'';
              manifest = field payload ''manifest'' in
          if \<not> (is_object payload \<and> (equals_one (field payload ''version'') \<or> version2))
          then Inl (Spool_Fail ''ValueError'' ''artifact intent payload is invalid'')
          else if version2 \<and> \<not> object_with authority AUTHORITY_FIELDS
          then Inl (Spool_Fail ''ValueError'' ''artifact intent capture authority is invalid'')
          else if \<not> object_with payload (if version2 then INTENT_FIELDS @ [''capture_authority''] else INTENT_FIELDS)
          then Inl (Spool_Fail ''ValueError'' ''artifact intent payload is invalid'')
          else if \<not> intent_members_ok payload
          then Inl (Spool_Fail ''ValueError'' ''artifact intent fields are invalid'')
          else if \<not> sv_valid env manifest
          then Inl (Spool_Fail ''ContractValidationError'' ''artifact-manifest.schema.json'')
          else if \<not> list_all (\<lambda>k. field payload k = field manifest k)
                 [''artifact_id'', ''execution_id'', ''size_bytes'', ''sha256'', ''media_type'']
          then Inl (Spool_Fail ''ValueError'' ''artifact intent manifest is inconsistent'')
          else (case (if version2
                      then validate_capture_intent_authority authority (text_member payload ''task_id'') manifest
                      else Inr ()) of
              Inl e \<Rightarrow> Inl e
            | Inr _ \<Rightarrow> Inr \<lparr>in_name = name, in_temporary = text_member payload ''temporary_name'',
                             in_final = text_member payload ''final_name'', in_task = text_member payload ''task_id'',
                             in_manifest = manifest, in_authority = (if version2 then Some authority else None)\<rparr>))"

definition read_intent :: "spool_env \<Rightarrow> string \<Rightarrow> artifact_intent spool_op" where
  "read_intent env name =
     (if \<not> has_prefix name ''intent-'' \<or> \<not> has_suffix name ''.json'' \<or> CHR ''/'' \<in> set name
      then fail_with (Spool_Fail ''ValueError'' ''artifact intent name is invalid'')
      else andthen (open_entry Intents name) (\<lambda>f.
        andthen (from_sum (validate_private_file f 384)) (\<lambda>_.
        andthen (require (sf_bytes f \<noteq> [] \<and> length (sf_bytes f) \<le> MAXIMUM_INTENT_BYTES)
           (Spool_Fail ''RuntimeError'' ''artifact intent size is invalid'')) (\<lambda>_.
        andthen (inspect_bytes env (length (sf_bytes f))) (\<lambda>_.
          from_sum (parse_intent env name (sf_bytes f)))))))"

section \<open>Finishing an intent\<close>

definition entry_exists :: "string \<Rightarrow> bool spool_op" where
  "entry_exists name s = (Inr (lookup (sp_outbox s) name \<noteq> None), s)"

definition in_size :: "artifact_intent \<Rightarrow> int" where
  "in_size i = integer_of (field (in_manifest i) ''size_bytes'')"

definition in_sha256 :: "artifact_intent \<Rightarrow> string" where
  "in_sha256 i = text_member (in_manifest i) ''sha256''"

definition store_error :: "py_error \<Rightarrow> spool_error" where
  "store_error e =
     (case e of
        Value_Error m \<Rightarrow> Spool_Fail ''ValueError'' m
      | Runtime_Error m \<Rightarrow> Spool_Fail ''RuntimeError'' m
      | Integrity_Error \<Rightarrow> Spool_Fail ''IntegrityError'' []
      | _ \<Rightarrow> Spool_Fail ''Exception'' [])"

text \<open>The call of \<open>ensure_artifact_queued\<close> for an intent, one transaction of the database.\<close>

definition queue_intent :: "spool_env \<Rightarrow> artifact_intent \<Rightarrow> unit spool_op" where
  "queue_intent env i s =
     (case ensure_artifact_queued (py_sha (sv_python env)) (sv_now env) (sv_upload_id env (sp_fresh s)) (in_task i) (in_path i)
             (text_member (in_manifest i) ''media_type'') (in_manifest i) (sp_db s) of
        (Inl e, _) \<Rightarrow> (Inl (store_error e), s)
      | (Inr False, _) \<Rightarrow> (Inr (), s)
      | (Inr True, db') \<Rightarrow> durably (\<lambda>s. s\<lparr>sp_db := db', sp_fresh := sp_fresh s + 1\<rparr>) s)"

definition publish_without_overwrite :: "string \<Rightarrow> string \<Rightarrow> unit spool_op" where
  "publish_without_overwrite temporary final s =
     (if lookup (sp_outbox s) final \<noteq> None then (Inl (Spool_Fail ''FileExistsError'' final), s)
      else if lookup (sp_outbox s) temporary = None then (Inl (Spool_Fail ''FileNotFoundError'' temporary), s)
      else durably (update_directory Outbox (rename_entry temporary final)) s)"

definition retire_intent :: "spool_env \<Rightarrow> artifact_intent \<Rightarrow> unit spool_op" where
  "retire_intent env i =
     quarantine_or_fail env Intents (in_name i) ''.artifact-intent-quarantine-''
       ''artifact intent quarantine was not durable'' ''artifact_intent''"

definition retire_temporary :: "spool_env \<Rightarrow> artifact_intent \<Rightarrow> unit spool_op" where
  "retire_temporary env i =
     quarantine_or_fail env Outbox (in_temporary i) ''.artifact-reconcile-quarantine-''
       ''artifact temporary quarantine was not durable'' ''artifact_temporary''"

definition reconcile_intent :: "spool_env \<Rightarrow> artifact_intent \<Rightarrow> unit spool_op" where
  "reconcile_intent env i = andthen (entry_exists (in_final i)) (\<lambda>published.
     if published
     then andthen (validate_named_artifact env True (in_final i) (in_size i) (in_sha256 i)) (\<lambda>_.
          andthen (control_check env) (\<lambda>_.
          andthen (queue_intent env i) (\<lambda>_.
          andthen (entry_exists (in_temporary i)) (\<lambda>leftover.
          andthen (if leftover
                   then andthen (validate_owned_regular (in_temporary i)) (\<lambda>_.
                        andthen (control_check env) (\<lambda>_. retire_temporary env i))
                   else give ()) (\<lambda>_.
          andthen (control_check env) (\<lambda>_. retire_intent env i))))))
     else andthen (entry_exists (in_temporary i)) (\<lambda>staged.
       if staged
       then andthen (validate_named_artifact env True (in_temporary i) (in_size i) (in_sha256 i)) (\<lambda>_.
            andthen (control_check env) (\<lambda>_.
            if in_authority i = None
            then andthen (retire_temporary env i) (\<lambda>_. andthen (control_check env) (\<lambda>_. retire_intent env i))
            else andthen (publish_without_overwrite (in_temporary i) (in_final i)) (\<lambda>_.
                 andthen (validate_named_artifact env True (in_final i) (in_size i) (in_sha256 i)) (\<lambda>_.
                 andthen (control_check env) (\<lambda>_.
                 andthen (queue_intent env i) (\<lambda>_.
                 andthen (control_check env) (\<lambda>_. retire_intent env i)))))))
       else if in_authority i \<noteq> None
       then fail_with (Spool_Fail ''RuntimeError'' ''capture artifact intent has neither staged nor published bytes'')
       else andthen (control_check env) (\<lambda>_. retire_intent env i)))"

section \<open>Reconciliation\<close>

text \<open>What an entry raised is an issue of the reconciliation, unless the reconciliation itself is stopped.\<close>

fun stops :: "spool_error \<Rightarrow> bool" where
  "stops Recon_Cancelled \<longleftrightarrow> True"
| "stops Recon_Limit \<longleftrightarrow> True"
| "stops Spool_Timeout \<longleftrightarrow> True"
| "stops Spool_Crash \<longleftrightarrow> True"
| "stops _ \<longleftrightarrow> False"

fun issue_name :: "spool_error \<Rightarrow> string" where
  "issue_name (Spool_Fail cls m) = cls"
| "issue_name (Reconciliation_Error issues) = ''ArtifactReconciliationError''"
| "issue_name Staging_Cancelled = ''_StagingCancelled''"
| "issue_name e = []"

definition noting :: "string \<Rightarrow> unit spool_op \<Rightarrow> string list \<Rightarrow> string list spool_op" where
  "noting name m issues s =
     (case m s of
        (Inr _, s') \<Rightarrow> (Inr issues, s')
      | (Inl e, s') \<Rightarrow> if stops e then (Inl e, s') else (Inr (issues @ [name @ '':'' @ issue_name e]), s'))"

definition INTENT_QUARANTINE :: string where
  "INTENT_QUARANTINE = ''.artifact-intent-quarantine-''"

fun reconcile_entries ::
  "spool_env \<Rightarrow> (artifact_intent \<Rightarrow> bool) \<Rightarrow> string list \<Rightarrow> string list \<Rightarrow> string list spool_op" where
  "reconcile_entries env relevant [] issues = give issues"
| "reconcile_entries env relevant (name # names) issues = andthen (inspect_entry env) (\<lambda>_.
     if has_prefix name INTENT_QUARANTINE
     then andthen (record_quarantine name ''artifact_intent'') (\<lambda>_. reconcile_entries env relevant names issues)
     else andthen (noting name (andthen (read_intent env name) (\<lambda>i.
             if relevant i then reconcile_intent env i else give ())) issues) (\<lambda>issues'.
          reconcile_entries env relevant names issues'))"

definition row_artifact :: "spool_env \<Rightarrow> upload_row \<Rightarrow> string list \<Rightarrow> string list spool_op" where
  "row_artifact env row issues s =
     (let relative = up_relative_path row; name = path_parts relative ! 1 in
      if \<not> is_safe_outbox_relative relative then (Inr (issues @ [relative @ '':unsafe_sqlite_path'']), s)
      else if lookup (sp_outbox s) name = None then (Inr (issues @ [relative @ '':sqlite_artifact_missing'']), s)
      else noting name (validate_named_artifact env True name (up_size_bytes row) (up_sha256 row)) issues s)"

definition raise_issues :: "string list \<Rightarrow> unit spool_op" where
  "raise_issues issues = (if issues = [] then give () else fail_with (Reconciliation_Error (sort issues)))"

definition relevant_to :: "string option \<Rightarrow> string option \<Rightarrow> artifact_intent \<Rightarrow> bool" where
  "relevant_to artifact execution i \<longleftrightarrow>
     Some (in_artifact i) = artifact \<or> field (in_manifest i) ''execution_id'' = optional_name execution"

definition reconcile_relevant_sync :: "spool_env \<Rightarrow> string option \<Rightarrow> string option \<Rightarrow> unit spool_op" where
  "reconcile_relevant_sync env artifact execution s =
     andthen (reconcile_entries env (relevant_to artifact execution) (map fst (sp_intents s)) []) (\<lambda>issues.
     andthen (case artifact of
         None \<Rightarrow> give issues
       | Some a \<Rightarrow> andthen (inspect_entry env) (\<lambda>_ s.
           case artifact_upload a (sp_db s) of None \<Rightarrow> (Inr issues, s) | Some row \<Rightarrow> row_artifact env row issues s)) (\<lambda>issues'.
       raise_issues issues')) s"

text \<open>The start-up: all intents, then the rows that still have to be uploaded.  The journal of the pruning,
  which comes first, is not modelled.\<close>

fun audit_rows :: "spool_env \<Rightarrow> upload_row list \<Rightarrow> string list \<Rightarrow> string list spool_op" where
  "audit_rows env [] issues = give issues"
| "audit_rows env (row # rows) issues = andthen (inspect_entry env) (\<lambda>_.
     andthen (row_artifact env row issues) (\<lambda>issues'. audit_rows env rows issues'))"

definition reconcile_startup_sync :: "spool_env \<Rightarrow> unit spool_op" where
  "reconcile_startup_sync env s =
     andthen (reconcile_entries env (\<lambda>_. True) (map fst (sp_intents s)) []) (\<lambda>issues s.
       let remaining = max 1 (int (rc_max_entries (sp_control s)) - int (rc_entries (sp_control s)));
           active = [Pending, In_Flight, Upload_Failed] in
       andthen (control_check env) (\<lambda>_ s.
         if int (row_count (\<lambda>r. ob_state r \<in> set active) (t_uploads (sp_db s))) > remaining then (Inl Recon_Limit, s)
         else andthen (control_check env) (\<lambda>_ s.
           (case artifact_uploads active (min 10000 remaining) (sp_db s) of
              Inl e \<Rightarrow> (Inl (store_error e), s)
            | Inr rows \<Rightarrow> andthen (audit_rows env rows issues) raise_issues s)) s) s) s"

end
