(* ===== verification/Artifact_Stage.thy ===== *)
theory Artifact_Stage
  imports Artifact_Spool
begin

text \<open>
  Staging an artifact (\<open>stage\<close>, \<open>stage_from_descriptor\<close>, \<open>find_existing\<close>): the transaction that a cancellation
  races with, the copy, the commit and the cleanup after a failure.  The thread of the copy and the
  caller meet in the transaction only, so what the caller does is what it finds there before each of its
  operations.
\<close>

section \<open>The transaction\<close>

definition new_tx :: staging_tx where
  "new_tx = \<lparr>tx_state = Tx_Copying, tx_stop = False\<rparr>"

definition aborted_tx :: "staging_tx \<Rightarrow> staging_tx" where
  "aborted_tx tx = tx\<lparr>tx_state := Tx_Aborted, tx_stop := True\<rparr>"

definition request_cancel :: "staging_tx \<Rightarrow> bool \<times> staging_tx" where
  "request_cancel tx =
     (if tx_state tx \<in> {Tx_Copying, Tx_Ready} then (False, aborted_tx tx)
      else (tx_state tx \<in> {Tx_Committing, Tx_Committed}, tx))"

text \<open>Before an operation: whether the caller requested to cancel, whether the token of the task is cancelled
  and whether the deadline is over.\<close>

record signal =
  sg_request :: bool
  sg_cancelled :: bool
  sg_expired :: bool

definition tx_check :: "signal \<Rightarrow> staging_tx \<Rightarrow> (spool_error + unit) \<times> staging_tx" where
  "tx_check sg tx =
     (if tx_state tx = Tx_Aborted \<or> sg_cancelled sg \<or> tx_stop tx then (Inl Staging_Cancelled, snd (request_cancel tx))
      else if sg_expired sg then (Inl Spool_Timeout, snd (request_cancel tx))
      else (Inr (), tx))"

definition tx_move :: "staging_state \<Rightarrow> staging_state \<Rightarrow> signal \<Rightarrow> staging_tx \<Rightarrow> (spool_error + unit) \<times> staging_tx" where
  "tx_move from next_state sg tx =
     (if tx_state tx \<noteq> from \<or> sg_cancelled sg \<or> tx_stop tx then (Inl Staging_Cancelled, aborted_tx tx)
      else if sg_expired sg then (Inl Spool_Timeout, aborted_tx tx)
      else (Inr (), tx\<lparr>tx_state := next_state\<rparr>))"

definition tx_ready :: "signal \<Rightarrow> staging_tx \<Rightarrow> (spool_error + unit) \<times> staging_tx" where
  "tx_ready = tx_move Tx_Copying Tx_Ready"

definition tx_begin_commit :: "signal \<Rightarrow> staging_tx \<Rightarrow> (spool_error + unit) \<times> staging_tx" where
  "tx_begin_commit = tx_move Tx_Ready Tx_Committing"

definition tx_committed :: "signal \<Rightarrow> staging_tx \<Rightarrow> (spool_error + unit) \<times> staging_tx" where
  "tx_committed sg tx =
     (if tx_state tx \<noteq> Tx_Committing
      then (Inl (Spool_Fail ''RuntimeError'' ''artifact staging commit state is invalid''), tx)
      else (Inr (), tx\<lparr>tx_state := Tx_Committed\<rparr>))"

definition transact ::
  "(nat \<Rightarrow> signal) \<Rightarrow> (signal \<Rightarrow> staging_tx \<Rightarrow> (spool_error + unit) \<times> staging_tx) \<Rightarrow> unit spool_op" where
  "transact signals f s =
     (let sg = signals (sp_ops s); tx = (if sg_request sg then snd (request_cancel (sp_tx s)) else sp_tx s)
      in case f sg tx of (r, tx') \<Rightarrow> (r, s\<lparr>sp_tx := tx', sp_ops := sp_ops s + 1\<rparr>))"

section \<open>The request\<close>

record stage_source =
  so_error :: "spool_error option"
  so_regular :: bool
  so_links :: nat
  so_size :: int
  so_owned :: bool
  so_private :: bool
  so_expected :: bool
  so_chunks :: "string list"
  so_stable :: bool

record stage_request =
  rq_manifest :: "(string \<times> json) list"
  rq_task :: string
  rq_maximum :: int
  rq_source :: stage_source
  rq_authority :: "json option"
  rq_synced :: bool
  rq_callback :: "spool_error option"
  rq_signals :: "nat \<Rightarrow> signal"

definition validate_source :: "stage_source \<Rightarrow> int \<Rightarrow> spool_error + unit" where
  "validate_source so maximum =
     (if \<not> so_regular so then Inl (Spool_Fail ''RuntimeError'' ''artifact source is not a regular file'')
      else if so_links so \<noteq> 1 then Inl (Spool_Fail ''PermissionError'' ''artifact source must have exactly one hard link'')
      else if so_size so \<le> 0 \<or> so_size so > maximum
      then Inl (Spool_Fail ''RuntimeError'' ''artifact size limit was violated'')
      else if \<not> so_owned so
      then Inl (Spool_Fail ''PermissionError'' ''artifact source owner does not match the service account'')
      else if \<not> so_private so
      then Inl (Spool_Fail ''PermissionError'' ''artifact source has group/world permissions'')
      else Inr ())"

text \<open>\<open>{**manifest, k: v}\<close>.\<close>

definition set_member :: "string \<Rightarrow> json \<Rightarrow> (string \<times> json) list \<Rightarrow> (string \<times> json) list" where
  "set_member k v kvs =
     (if k \<in> fst ` set kvs then map (\<lambda>(n, x). (n, if n = k then v else x)) kvs else kvs @ [(k, v)])"

definition final_manifest :: "spool_env \<Rightarrow> stage_request \<Rightarrow> string \<Rightarrow> json" where
  "final_manifest env rq bytes =
     JObj (set_member ''sha256'' (JStr (py_sha (sv_python env) bytes))
       (set_member ''size_bytes'' (JInt (int (length bytes))) (rq_manifest rq)))"

section \<open>Copy, commit and cleanup\<close>

fun copy_chunks :: "stage_request \<Rightarrow> string \<Rightarrow> nat \<Rightarrow> string list \<Rightarrow> nat spool_op" where
  "copy_chunks rq name copied [] = andthen (transact (rq_signals rq) tx_check) (\<lambda>_. give copied)"
| "copy_chunks rq name copied (c # cs) = andthen (transact (rq_signals rq) tx_check) (\<lambda>_.
     andthen (require (int (copied + length c) \<le> rq_maximum rq)
       (Spool_Fail ''RuntimeError'' ''artifact size limit was violated during staging'')) (\<lambda>_.
     andthen (change_entry Outbox name (\<lambda>f. f\<lparr>sf_bytes := sf_bytes f @ c\<rparr>)) (\<lambda>_.
       copy_chunks rq name (copied + length c) cs)))"

definition guarded :: "'a spool_op \<Rightarrow> unit spool_op \<Rightarrow> 'a spool_op" where
  "guarded m cleanup s =
     (case m s of
        (Inr a, s') \<Rightarrow> (Inr a, s')
      | (Inl e, s') \<Rightarrow>
          if e = Spool_Crash then (Inl e, s')
          else (case cleanup s' of (r, s'') \<Rightarrow> (if r = Inl Spool_Crash then (Inl Spool_Crash, s'') else (Inl e, s''))))"

definition clean_up :: "spool_env \<Rightarrow> place \<Rightarrow> string \<Rightarrow> unit spool_op" where
  "clean_up env p name = andthen (logical_quarantine env p name ''.artifact-cleanup-quarantine-'') (\<lambda>q.
     case q of None \<Rightarrow> give () | Some n \<Rightarrow> record_quarantine n ''artifact_cleanup'')"

definition raises :: "spool_error option \<Rightarrow> unit spool_op" where
  "raises e = (case e of None \<Rightarrow> give () | Some e \<Rightarrow> fail_with e)"

definition suffix_of :: "json \<Rightarrow> string" where
  "suffix_of manifest = (if field manifest ''artifact_type'' = JStr ''pcapng'' then ''.pcapng'' else ''.pcap'')"

text \<open>From the temporary file to the durable intent.\<close>

definition stage_copy :: "spool_env \<Rightarrow> stage_request \<Rightarrow> string \<Rightarrow> string \<Rightarrow> artifact_intent spool_op" where
  "stage_copy env rq temporary final = andthen (copy_chunks rq temporary 0 (so_chunks (rq_source rq))) (\<lambda>copied.
     let bytes = concat (so_chunks (rq_source rq)); manifest = final_manifest env rq bytes in
     andthen (require (copied > 0) (Spool_Fail ''RuntimeError'' ''empty artifacts cannot be staged'')) (\<lambda>_.
     andthen (require (so_stable (rq_source rq)) (Spool_Fail ''RuntimeError'' ''artifact source changed during staging'')) (\<lambda>_.
     andthen (require (int copied = so_size (rq_source rq))
       (Spool_Fail ''RuntimeError'' ''artifact source size changed during staging'')) (\<lambda>_.
     andthen (require (sv_valid env manifest) (Spool_Fail ''ContractValidationError'' ''artifact-manifest.schema.json'')) (\<lambda>_.
     andthen (change_entry Outbox temporary (\<lambda>f. f\<lparr>sf_mode := 256\<rparr>)) (\<lambda>_.
       write_intent env (rq_synced rq) (rq_task rq) temporary final manifest (rq_authority rq)))))))"

definition stage_publish :: "spool_env \<Rightarrow> stage_request \<Rightarrow> artifact_intent \<Rightarrow> unit spool_op" where
  "stage_publish env rq i = andthen (raises (rq_callback rq)) (\<lambda>_.
     andthen (transact (rq_signals rq) tx_ready) (\<lambda>_.
     andthen (transact (rq_signals rq) tx_begin_commit) (\<lambda>_.
       publish_without_overwrite (in_temporary i) (in_final i))))"

definition stage_commit :: "spool_env \<Rightarrow> stage_request \<Rightarrow> artifact_intent \<Rightarrow> (string \<times> json) spool_op" where
  "stage_commit env rq i = andthen (validate_named_artifact env False (in_final i) (in_size i) (in_sha256 i)) (\<lambda>_.
     andthen (queue_intent env i) (\<lambda>_.
     andthen (retire_intent env i) (\<lambda>_.
     andthen (transact (rq_signals rq) tx_committed) (\<lambda>_.
       give (in_path i, in_manifest i)))))"

definition stage_sync :: "spool_env \<Rightarrow> stage_request \<Rightarrow> (string \<times> json) spool_op" where
  "stage_sync env rq = andthen (raises (so_error (rq_source rq))) (\<lambda>_.
     andthen (from_sum (validate_source (rq_source rq) (rq_maximum rq))) (\<lambda>_.
     andthen (require (so_expected (rq_source rq))
       (Spool_Fail ''RuntimeError'' ''artifact source descriptor identity changed'')) (\<lambda>_.
     andthen (fresh_token env) (\<lambda>token1. andthen (fresh_token env) (\<lambda>token2.
     let temporary = ''.staging-'' @ token1; final = ''artifact-'' @ token2 @ suffix_of (JObj (rq_manifest rq)) in
     andthen (create_entry Outbox temporary) (\<lambda>_.
     andthen (guarded (stage_copy env rq temporary final) (clean_up env Outbox temporary)) (\<lambda>i.
     andthen (guarded (stage_publish env rq i)
       (andthen (clean_up env Outbox temporary) (\<lambda>_. clean_up env Intents (in_name i)))) (\<lambda>_.
       stage_commit env rq i))))))))"

section \<open>Before staging\<close>

definition stable_identity_fields :: "string list" where
  "stable_identity_fields = [''schema_version'', ''artifact_id'', ''execution_id'', ''artifact_type'', ''media_type'',
     ''idempotency_key'']"

text \<open>What is stored for the artifact, when it was staged before; the payload of the row is read back.\<close>

definition existing_staged :: "spool_env \<Rightarrow> (string \<times> json) list \<Rightarrow> string \<Rightarrow> (string \<times> json) option spool_op" where
  "existing_staged env supplied task s =
     (case json_text (field (JObj supplied) ''artifact_id'') of
        None \<Rightarrow> (Inr None, s)
      | Some artifact \<Rightarrow>
          (case artifact_upload artifact (sp_db s) of
             None \<Rightarrow> (Inr None, s)
           | Some row \<Rightarrow>
               if ob_task_id row \<noteq> task
               then (Inl (Spool_Fail ''RuntimeError'' ''artifact idempotency conflict: task_id''), s)
               else (case loads (py_norm (sv_python env)) (ob_payload row) of
                   None \<Rightarrow> (Inl (Spool_Fail ''JSONDecodeError'' []), s)
                 | Some payload \<Rightarrow>
                     if \<not> is_object payload
                     then (Inl (Spool_Fail ''RuntimeError'' ''artifact idempotency conflict: persisted_manifest''), s)
                     else if \<not> list_all (\<lambda>k. field payload k = normal_json (field (JObj supplied) k)) stable_identity_fields
                     then (Inl (Spool_Fail ''RuntimeError'' ''artifact idempotency conflict''), s)
                     else if \<not> is_safe_outbox_relative (up_relative_path row)
                     then (Inl (Spool_Fail ''ValueError'' ''queued artifact path is unsafe''), s)
                     else andthen (validate_named_artifact env True (path_parts (up_relative_path row) ! 1)
                            (up_size_bytes row) (up_sha256 row)) (\<lambda>_.
                          andthen (require (field payload ''size_bytes'' = JInt (up_size_bytes row)
                              \<and> field payload ''sha256'' = JStr (up_sha256 row))
                            (Spool_Fail ''RuntimeError'' ''queued artifact manifest is inconsistent'')) (\<lambda>_.
                          andthen (require (sv_valid env payload)
                            (Spool_Fail ''ContractValidationError'' ''artifact-manifest.schema.json'')) (\<lambda>_.
                            give (Some (up_relative_path row, payload))))) s)))"

definition new_control :: "control \<Rightarrow> control" where
  "new_control c = c\<lparr>rc_entries := 0, rc_bytes := 0\<rparr>"

definition reconcile_and_find_existing ::
  "spool_env \<Rightarrow> (string \<times> json) list \<Rightarrow> string \<Rightarrow> (string \<times> json) option spool_op" where
  "reconcile_and_find_existing env supplied task s =
     andthen (reconcile_relevant_sync env (json_text (field (JObj supplied) ''artifact_id''))
         (json_text (field (JObj supplied) ''execution_id''))) (\<lambda>_.
     andthen (control_check env) (\<lambda>_. existing_staged env supplied task))
       (s\<lparr>sp_control := new_control (sp_control s)\<rparr>)"

text \<open>One call of \<open>stage\<close> by the only user of the lock: what is there already is the answer.\<close>

definition stage_exclusive :: "spool_env \<Rightarrow> stage_request \<Rightarrow> (string \<times> json) spool_op" where
  "stage_exclusive env rq = andthen (reconcile_and_find_existing env (rq_manifest rq) (rq_task rq)) (\<lambda>existing.
     case existing of
       Some found \<Rightarrow> give found
     | None \<Rightarrow> (\<lambda>s. stage_sync env rq (s\<lparr>sp_tx := new_tx, sp_ops := 0\<rparr>)))"

end
