(* ===== verification/Artifact_Safety.thy ===== *)
theory Artifact_Safety
  imports Artifact_Stage
begin

text \<open>
  What a program of the spool leaves behind when it returns, fails or stops before any of its durable
  steps: triples with one condition for the result and one for every other end, and the invariant that
  every queued artifact is on disk with its size and digest.
\<close>

section \<open>Triples\<close>

definition triple :: "(spool \<Rightarrow> bool) \<Rightarrow> 'a spool_op \<Rightarrow> ('a \<Rightarrow> spool \<Rightarrow> bool) \<Rightarrow> (spool \<Rightarrow> bool) \<Rightarrow> bool" where
  "triple P m Q E \<longleftrightarrow>
     (\<forall>s e s'. P s \<longrightarrow> m s = (Inl e, s') \<longrightarrow> E s') \<and> (\<forall>s a s'. P s \<longrightarrow> m s = (Inr a, s') \<longrightarrow> Q a s')"

lemma tripleI:
  "(\<And>s e s'. P s \<Longrightarrow> m s = (Inl e, s') \<Longrightarrow> E s') \<Longrightarrow> (\<And>s a s'. P s \<Longrightarrow> m s = (Inr a, s') \<Longrightarrow> Q a s') \<Longrightarrow> triple P m Q E"
  by (simp add: triple_def)

lemma triple_InlD: "triple P m Q E \<Longrightarrow> P s \<Longrightarrow> m s = (Inl e, s') \<Longrightarrow> E s'"
  by (simp add: triple_def)

lemma triple_InrD: "triple P m Q E \<Longrightarrow> P s \<Longrightarrow> m s = (Inr a, s') \<Longrightarrow> Q a s'"
  by (simp add: triple_def)

lemma triple_end: "triple P m (\<lambda>_. Q) Q \<Longrightarrow> P s \<Longrightarrow> m s = (r, s') \<Longrightarrow> Q s'"
  by (cases r) (auto simp: triple_def)

lemma andthen_Inr: "andthen m f s = (Inr b, t) \<longleftrightarrow> (\<exists>a s'. m s = (Inr a, s') \<and> f a s' = (Inr b, t))"
  by (auto simp: andthen_def split: prod.splits sum.splits)

lemma andthen_Inl:
  "andthen m f s = (Inl e, t) \<longleftrightarrow> m s = (Inl e, t) \<or> (\<exists>a s'. m s = (Inr a, s') \<and> f a s' = (Inl e, t))"
  by (auto simp: andthen_def split: prod.splits sum.splits)

lemma triple_andthen:
  assumes m: "triple P m Q E" and f: "\<And>a. triple (Q a) (f a) R E"
  shows "triple P (andthen m f) R E"
proof (rule tripleI)
  fix s e s' assume "P s" "andthen m f s = (Inl e, s')"
  then show "E s'" using triple_InlD [OF m] triple_InrD [OF m] triple_InlD [OF f] unfolding andthen_Inl by blast
next
  fix s b s' assume "P s" "andthen m f s = (Inr b, s')"
  then show "R b s'" using triple_InrD [OF m] triple_InrD [OF f] unfolding andthen_Inr by blast
qed

lemma triple_pre: "triple P m Q E \<Longrightarrow> (\<And>s. P' s \<Longrightarrow> P s) \<Longrightarrow> triple P' m Q E"
  unfolding triple_def by blast

lemma triple_post: "triple P m Q E \<Longrightarrow> (\<And>a s. Q a s \<Longrightarrow> Q' a s) \<Longrightarrow> triple P m Q' E"
  unfolding triple_def by blast

lemma triple_if: "(b \<Longrightarrow> triple P m Q E) \<Longrightarrow> (\<not> b \<Longrightarrow> triple P n Q E) \<Longrightarrow> triple P (if b then m else n) Q E"
  by simp

lemma triple_branch:
  assumes "triple (\<lambda>s. P s \<and> c s) m Q E" "triple (\<lambda>s. P s \<and> \<not> c s) n Q E"
  shows "triple P (\<lambda>s. if c s then m s else n s) Q E"
  using assms unfolding triple_def by (auto split: if_splits)

lemma triple_choose:
  assumes "\<And>x. triple (\<lambda>s. P s \<and> v s = x) (f x) Q E"
  shows "triple P (\<lambda>s. f (v s) s) Q E"
  using assms unfolding triple_def by blast

lemma triple_returns:
  "(\<And>s. P s \<Longrightarrow> Q a s) \<Longrightarrow> triple P (\<lambda>s. (Inr a, s)) Q E"
  "(\<And>s. P s \<Longrightarrow> E s) \<Longrightarrow> triple P (\<lambda>s. (Inl e, s)) Q E"
  by (simp_all add: triple_def)

lemma triple_give: "(\<And>s. P s \<Longrightarrow> Q a s) \<Longrightarrow> triple P (give a) Q E"
  by (simp add: triple_def give_def)

lemma triple_fail: "(\<And>s. P s \<Longrightarrow> E s) \<Longrightarrow> triple P (fail_with e) Q E"
  by (simp add: triple_def fail_with_def)

text \<open>What a spool holds: its directories and its database.  Quiet programs leave that as it is.\<close>

definition held :: "spool \<Rightarrow> directory \<times> directory \<times> store" where
  "held s = (sp_outbox s, sp_intents s, sp_db s)"

definition still :: "'a spool_op \<Rightarrow> bool" where
  "still m \<longleftrightarrow> (\<forall>s. held (snd (m s)) = held s)"

named_theorems still_rules

lemma still_andthen [still_rules]: "still m \<Longrightarrow> (\<And>a. still (f a)) \<Longrightarrow> still (andthen m f)"
  unfolding still_def andthen_def by (auto split: prod.splits sum.splits) (metis snd_conv)+

lemma still_basic [still_rules]:
  "still (give a)" "still (fail_with e)" "still (require b e)" "still (from_sum r)" "still (fresh_token env)"
  "still (record_issue i)" "still (open_entry p n)" "still (entry_exists n)" "still (control_check env)"
  "still (transact signals f)"
  by (simp_all add: still_def give_def fail_with_def require_def from_sum_def fresh_token_def record_issue_def
      open_entry_def entry_exists_def control_check_def transact_def held_def Let_def
      split: option.split prod.split)

lemma still_inspect [still_rules]: "still (inspect_entry env)" "still (inspect_bytes env n)"
  unfolding inspect_entry_def inspect_bytes_def
  by (intro still_andthen still_basic; simp add: still_def held_def Let_def)+

lemma still_charge [still_rules]: "still (charge_bytes env n)"
proof (induction env n rule: charge_bytes.induct)
  case (1 env n)
  then show ?case by (subst charge_bytes.simps) (auto intro!: still_rules)
qed

lemma still_validate [still_rules]:
  "still (validate_named_artifact env c n k h)" "still (validate_owned_regular n)" "still (record_quarantine n p)"
  unfolding validate_named_artifact_def validate_owned_regular_def record_quarantine_def
  by (auto intro!: still_rules)

lemma still_read [still_rules]: "still (read_intent env n)" "still (raise_issues is)" "still (raises e)"
  unfolding read_intent_def raise_issues_def raises_def by (auto intro!: still_rules split: option.split)

lemma still_held: "still m \<Longrightarrow> m s = (r, s') \<Longrightarrow> held s' = held s"
  unfolding still_def by (metis snd_conv)

lemma triple_still:
  assumes "still m" "\<And>s s'. held s' = held s \<Longrightarrow> P s \<Longrightarrow> P s'"
  shows "triple P m (\<lambda>_. P) P"
  using still_held [OF assms(1)] assms(2) by (intro tripleI) blast+

lemma triple_durably:
  assumes "\<And>s. P s \<Longrightarrow> Q () (f s)" "\<And>s. P s \<Longrightarrow> E s" "\<And>s c. P s \<Longrightarrow> P (s\<lparr>sp_crash := c\<rparr>)"
  shows "triple P (durably f) Q E"
  using assms by (intro tripleI) (auto simp: durably_def split: option.splits nat.splits)

section \<open>Directories\<close>

lemma lookup_rename:
  assumes "lookup d n = Some f" "n \<noteq> a" "lookup d b = None"
  shows "lookup (rename_entry a b d) n = Some f"
  using assms by (induction d) (auto simp: lookup_def rename_entry_def split: if_splits)

lemma lookup_renamed:
  assumes "lookup d a = Some f" "lookup d b = None"
  shows "lookup (rename_entry a b d) b = Some f"
  using assms by (induction d) (auto simp: lookup_def rename_entry_def split: if_splits)

lemma lookup_changed:
  "lookup (map (\<lambda>(n, x). (n, if n = a then g x else x)) d) n = (if n = a then map_option g (lookup d n) else lookup d n)"
  by (induction d) (auto simp: lookup_def)

lemma lookup_created: "lookup (d @ [(a, x)]) n = (case lookup d n of Some f \<Rightarrow> Some f | None \<Rightarrow> if n = a then Some x else None)"
  by (auto simp: lookup_def map_add_def split: option.splits)

lemma update_directory_simps [simp]:
  "sp_outbox (update_directory Outbox f s) = f (sp_outbox s)" "sp_outbox (update_directory Intents f s) = sp_outbox s"
  "sp_intents (update_directory Intents f s) = f (sp_intents s)" "sp_intents (update_directory Outbox f s) = sp_intents s"
  "sp_db (update_directory p f s) = sp_db s" "sp_crash (update_directory p f s) = sp_crash s"
  "sp_ops (update_directory p f s) = sp_ops s"
  by (cases p; simp add: update_directory_def)+

section \<open>Queued artifacts are on disk\<close>

definition good_file :: "(string \<Rightarrow> string) \<Rightarrow> int \<Rightarrow> string \<Rightarrow> spool_file \<Rightarrow> bool" where
  "good_file sha n h f \<longleftrightarrow> sf_regular f \<and> sf_owned f \<and> sf_links f = 1 \<and> sf_mode f = 256
     \<and> int (length (sf_bytes f)) = n \<and> sha (sf_bytes f) = h"

definition stored :: "(string \<Rightarrow> string) \<Rightarrow> directory \<Rightarrow> string \<Rightarrow> int \<Rightarrow> string \<Rightarrow> bool" where
  "stored sha d name n h \<longleftrightarrow> (\<exists>f. lookup d name = Some f \<and> good_file sha n h f)"

definition rows_on_disk :: "(string \<Rightarrow> string) \<Rightarrow> spool \<Rightarrow> bool" where
  "rows_on_disk sha s \<longleftrightarrow>
     (\<forall>r \<in> set (t_uploads (sp_db s)). \<exists>name. up_relative_path r = ''outbox/'' @ name \<and> \<not> has_prefix name ''.staging-''
        \<and> stored sha (sp_outbox s) name (up_size_bytes r) (up_sha256 r))"

lemma rows_on_disk_held: "held s' = held s \<Longrightarrow> rows_on_disk sha s \<Longrightarrow> rows_on_disk sha s'"
  by (simp add: held_def rows_on_disk_def)

lemma rows_on_disk_crash [simp]: "rows_on_disk sha (s\<lparr>sp_crash := c\<rparr>) = rows_on_disk sha s"
  by (simp add: rows_on_disk_def)

lemma rows_on_disk_keep:
  assumes "rows_on_disk sha s" "sp_db s' = sp_db s"
    "\<And>n f. \<not> has_prefix n ''.staging-'' \<Longrightarrow> lookup (sp_outbox s) n = Some f \<Longrightarrow> lookup (sp_outbox s') n = Some f"
  shows "rows_on_disk sha s'"
  using assms unfolding rows_on_disk_def stored_def by metis

lemma validate_private_iff:
  "validate_private_file f 256 = Inr () \<longleftrightarrow> sf_regular f \<and> sf_owned f \<and> sf_links f = 1 \<and> sf_mode f = 256"
  by (simp add: validate_private_file_def)

lemma basic_Inr:
  "give a s = (Inr b, t) \<longleftrightarrow> a = b \<and> t = s" "require c e s = (Inr u, t) \<longleftrightarrow> c \<and> t = s"
  "from_sum r s = (Inr x, t) \<longleftrightarrow> r = Inr x \<and> t = s" "fail_with e s = (Inr y, t) \<longleftrightarrow> False"
  "open_entry p n s = (Inr f, t) \<longleftrightarrow> lookup (entries_of p s) n = Some f \<and> t = s"
  "entry_exists n s = (Inr v, t) \<longleftrightarrow> v = (lookup (sp_outbox s) n \<noteq> None) \<and> t = s"
  by (auto simp: give_def require_def from_sum_def fail_with_def open_entry_def entry_exists_def split: option.splits)

lemma validated_is_stored:
  assumes "validate_named_artifact env c name n h s = (Inr u, t)"
  shows "stored (py_sha (sv_python env)) (sp_outbox s) name n h"
  using assms
  by (auto simp: validate_named_artifact_def andthen_Inr basic_Inr stored_def good_file_def entries_of_def
      validate_private_file_def split: if_splits)

lemma triple_validated:
  assumes "\<And>s s'. held s' = held s \<Longrightarrow> P s \<Longrightarrow> P s'"
  shows "triple P (validate_named_artifact env c name n h)
    (\<lambda>_ s. P s \<and> stored (py_sha (sv_python env)) (sp_outbox s) name n h) P"
proof (rule tripleI)
  have q: "still (validate_named_artifact env c name n h)" by (rule still_rules)
  fix s e s' assume "P s" "validate_named_artifact env c name n h s = (Inl e, s')"
  then show "P s'" using still_held [OF q] assms by blast
next
  have q: "still (validate_named_artifact env c name n h)" by (rule still_rules)
  fix s u s' assume P: "P s" and m: "validate_named_artifact env c name n h s = (Inr u, s')"
  have held: "held s' = held s" by (rule still_held [OF q m])
  then have "sp_outbox s' = sp_outbox s" by (simp add: held_def)
  then show "P s' \<and> stored (py_sha (sv_python env)) (sp_outbox s') name n h"
    using assms [OF held P] validated_is_stored [OF m] by simp
qed

section \<open>Properties that the programs of the spool keep\<close>

definition intent_names_ok :: "artifact_intent \<Rightarrow> bool" where
  "intent_names_ok i \<longleftrightarrow> has_prefix (in_temporary i) ''.staging-'' \<and> has_prefix (in_final i) ''artifact-''
     \<and> CHR ''/'' \<notin> set (in_final i)"

lemma parsed_names_ok:
  assumes "parse_intent env name bytes = Inr i"
  shows "intent_names_ok i"
proof -
  obtain payload where "intent_members_ok payload" "in_temporary i = text_member payload ''temporary_name''"
    "in_final i = text_member payload ''final_name''"
    using assms by (auto simp: parse_intent_def Let_def split: option.splits if_splits sum.splits)
  moreover have "json_text (field payload k) = Some t \<Longrightarrow> text_member payload k = t" for k t
    by (auto simp: field_def text_member_def split: option.splits json.splits elim!: json_text.elims)
  ultimately show ?thesis
    by (auto simp: intent_members_ok_def intent_names_ok_def split: option.splits)
qed

lemma has_prefix_append:
  assumes "has_prefix n p"
  shows "has_prefix (n @ x) p"
proof -
  have "length (take (length p) n) = length p" using assms by (simp add: has_prefix_def)
  then have "length p \<le> length n" by simp
  then show ?thesis using assms by (simp add: has_prefix_def)
qed

text \<open>What a staging does before it publishes: temporary files come, grow and leave, intents come and go.\<close>

locale staging_property =
  fixes P :: "spool \<Rightarrow> bool"
  assumes held: "held s' = held s \<Longrightarrow> P s \<Longrightarrow> P s'"
    and moved: "P s \<Longrightarrow> has_prefix a ''.staging-'' \<Longrightarrow> lookup (sp_outbox s) b = None \<Longrightarrow> has_prefix b ''.artifact-''
      \<Longrightarrow> P (update_directory Outbox (rename_entry a b) s)"
    and intents: "P s \<Longrightarrow> P (update_directory Intents f s)"
    and created: "P s \<Longrightarrow> has_prefix a ''.staging-'' \<Longrightarrow> lookup (sp_outbox s) a = None
      \<Longrightarrow> P (update_directory Outbox (\<lambda>d. d @ [(a, x)]) s)"
    and changed: "P s \<Longrightarrow> has_prefix a ''.staging-''
      \<Longrightarrow> P (update_directory Outbox (map (\<lambda>(n, x). (n, if n = a then g x else x))) s)"
begin

lemma crash: "P s \<Longrightarrow> P (s\<lparr>sp_crash := c\<rparr>)"
  by (rule held [of _ s]) (simp_all add: held_def)

lemma still_keeps: "still m \<Longrightarrow> triple P m (\<lambda>_. P) P"
  by (rule triple_still [OF _ held])

lemmas basic_keeps = still_basic [THEN still_keeps] still_inspect [THEN still_keeps] still_charge [THEN still_keeps]
  still_validate [THEN still_keeps] still_read [THEN still_keeps]

lemma quarantine_keeps:
  assumes "p = Outbox \<Longrightarrow> has_prefix name ''.staging-'' \<and> has_prefix prefix ''.artifact-''"
  shows "triple P (logical_quarantine env p name prefix) (\<lambda>_. P) P"
  unfolding logical_quarantine_def
proof (rule triple_andthen [OF still_keeps])
  show "still (fresh_token env)" by (rule still_rules)
  fix token
  have target: "has_prefix (prefix @ token) ''.artifact-''" if "p = Outbox"
    using assms [OF that] has_prefix_append by blast
  have move: "triple (\<lambda>s. P s \<and> lookup (entries_of p s) b = None) (move_entry p name b r) (\<lambda>_. P) P"
    if "p = Outbox \<Longrightarrow> has_prefix b ''.artifact-''" for b and r :: "string option"
    unfolding move_entry_def
  proof (rule triple_andthen)
    show "triple (\<lambda>s. P s \<and> lookup (entries_of p s) b = None) (durably (update_directory p (rename_entry name b))) (\<lambda>_. P) P"
      by (rule triple_durably)
        (use that assms moved intents crash in \<open>auto simp: entries_of_def update_directory_def split: place.splits\<close>)
    show "triple P (give r) (\<lambda>_. P) P" for u by (rule triple_give)
  qed
  have chosen: "triple (\<lambda>s. P s \<and> lookup (entries_of p s) (prefix @ token) = None)
      (\<lambda>s. case sv_quarantine env (sp_fresh s) of
         Left_In_Place \<Rightarrow> (Inr None, s)
       | Moved_Not_Durable \<Rightarrow> move_entry p name (prefix @ token) None s
       | Quarantined \<Rightarrow> move_entry p name (prefix @ token) (Some (prefix @ token)) s) (\<lambda>_. P) P"
  proof (rule triple_choose [where v = "\<lambda>s. sv_quarantine env (sp_fresh s)"])
    fix o' show "triple (\<lambda>s. (P s \<and> lookup (entries_of p s) (prefix @ token) = None) \<and> sv_quarantine env (sp_fresh s) = o')
      (\<lambda>s. case o' of
         Left_In_Place \<Rightarrow> (Inr None, s)
       | Moved_Not_Durable \<Rightarrow> move_entry p name (prefix @ token) None s
       | Quarantined \<Rightarrow> move_entry p name (prefix @ token) (Some (prefix @ token)) s) (\<lambda>_. P) P"
      by (cases o') (auto intro: triple_pre [OF move [OF target]] triple_returns)
  qed
  show "triple P (\<lambda>s. if lookup (entries_of p s) name = None \<or> lookup (entries_of p s) (prefix @ token) \<noteq> None then (Inr None, s)
     else case sv_quarantine env (sp_fresh s) of
       Left_In_Place \<Rightarrow> (Inr None, s)
     | Moved_Not_Durable \<Rightarrow> move_entry p name (prefix @ token) None s
     | Quarantined \<Rightarrow> move_entry p name (prefix @ token) (Some (prefix @ token)) s) (\<lambda>_. P) P"
    by (rule triple_branch) (auto intro: triple_pre [OF chosen] triple_returns)
qed

lemma quarantine_or_fail_keeps:
  assumes "p = Outbox \<Longrightarrow> has_prefix name ''.staging-'' \<and> has_prefix prefix ''.artifact-''"
  shows "triple P (quarantine_or_fail env p name prefix message context) (\<lambda>_. P) P"
  unfolding quarantine_or_fail_def
  by (rule triple_andthen [OF quarantine_keeps [OF assms]])
    (auto intro!: basic_keeps split: option.split)

lemma change_keeps:
  assumes "p = Outbox \<Longrightarrow> has_prefix name ''.staging-''"
  shows "triple P (change_entry p name g) (\<lambda>_. P) P"
  unfolding change_entry_def
  by (rule triple_durably) (use assms changed intents crash in \<open>auto simp: update_directory_def split: place.splits\<close>)

lemma create_keeps:
  assumes "p = Outbox \<Longrightarrow> has_prefix name ''.staging-''"
  shows "triple P (create_entry p name) (\<lambda>_. P) P"
proof -
  have made: "triple (\<lambda>s. P s \<and> lookup (entries_of p s) name = None)
      (durably (update_directory p (\<lambda>d. d @ [(name, private_file [] 384)]))) (\<lambda>_. P) P"
    by (rule triple_durably)
      (use assms created intents crash in \<open>auto simp: entries_of_def update_directory_def split: place.splits\<close>)
  show ?thesis
    unfolding create_entry_def by (rule triple_branch) (auto intro: triple_pre [OF made] triple_returns)
qed

lemma write_intent_keeps: "triple P (write_intent env synced task temporary final manifest authority) (\<lambda>_. P) P"
  unfolding write_intent_def Let_def
  by (auto intro!: triple_andthen [where Q = "\<lambda>_. P"] basic_keeps create_keeps change_keeps quarantine_keeps
      split: option.split)

lemma copy_keeps: "has_prefix name ''.staging-'' \<Longrightarrow> triple P (copy_chunks rq name n cs) (\<lambda>_. P) P"
  by (induction cs arbitrary: n) (auto intro!: triple_andthen [where Q = "\<lambda>_. P"] basic_keeps change_keeps)

lemma stage_copy_keeps: "has_prefix temporary ''.staging-'' \<Longrightarrow> triple P (stage_copy env rq temporary final) (\<lambda>_. P) P"
  unfolding stage_copy_def Let_def
  by (auto intro!: triple_andthen [where Q = "\<lambda>_. P"] basic_keeps change_keeps copy_keeps write_intent_keeps)

lemma clean_up_keeps: "(p = Outbox \<Longrightarrow> has_prefix name ''.staging-'') \<Longrightarrow> triple P (clean_up env p name) (\<lambda>_. P) P"
  unfolding clean_up_def
  by (rule triple_andthen [where Q = "\<lambda>_. P"])
    (auto intro!: quarantine_keeps basic_keeps simp: has_prefix_def split: option.split)

lemma retire_keeps:
  "triple P (retire_intent env i) (\<lambda>_. P) P"
  "has_prefix (in_temporary i) ''.staging-'' \<Longrightarrow> triple P (retire_temporary env i) (\<lambda>_. P) P"
  unfolding retire_intent_def retire_temporary_def
  by (auto intro!: quarantine_or_fail_keeps simp: has_prefix_def)

lemma guarded_keeps:
  assumes "triple P m Q P'" "triple P' c (\<lambda>_. P') P'"
  shows "triple P (guarded m c) Q P'"
proof (rule tripleI)
  fix s e s' assume s: "P s" "guarded m c s = (Inl e, s')"
  obtain r t where m: "m s = (r, t)" by fastforce
  then obtain e' where r: "r = Inl e'" using s(2) by (cases r) (auto simp: guarded_def)
  then have "P' t" using triple_InlD [OF assms(1) s(1)] m by blast
  then show "P' s'" using s(2) m r triple_end [OF assms(2)]
    by (auto simp: guarded_def split: if_splits prod.splits)
next
  fix s a s' assume s: "P s" "guarded m c s = (Inr a, s')"
  then have "m s = (Inr a, s')" by (auto simp: guarded_def split: prod.splits sum.splits if_splits)
  then show "Q a s'" using triple_InrD [OF assms(1) s(1)] by blast
qed

end

lemma queue_intent_effect:
  assumes "queue_intent env i s = (r, s')"
  obtains "held s' = held s"
  | u db' where "ensure_artifact_queued (py_sha (sv_python env)) (sv_now env) u (in_task i) (in_path i)
      (text_member (in_manifest i) ''media_type'') (in_manifest i) (sp_db s) = (Inr True, db')"
    "held s' = held (s\<lparr>sp_db := db'\<rparr>)"
  using assms
  by (auto simp: queue_intent_def durably_def held_def split: prod.splits sum.splits bool.splits option.splits nat.splits)

lemma read_intent_names: "read_intent env n s = (Inr i, t) \<Longrightarrow> intent_names_ok i"
  by (auto simp: read_intent_def andthen_Inr basic_Inr dest: parsed_names_ok split: if_splits)

lemma written_intent:
  assumes "write_intent env synced task temporary final manifest authority s = (Inr i, t)"
  shows "in_temporary i = temporary" "in_final i = final" "in_manifest i = manifest" "in_authority i = authority"
    "in_task i = task"
  using assms by (auto simp: write_intent_def Let_def andthen_Inr basic_Inr split: if_splits)

lemma copied_intent:
  assumes "stage_copy env rq temporary final s = (Inr i, t)"
  shows "in_temporary i = temporary" "in_final i = final" "in_authority i = rq_authority rq" "in_task i = rq_task rq"
    "in_manifest i = final_manifest env rq (concat (so_chunks (rq_source rq)))"
  using assms written_intent by (auto simp: stage_copy_def Let_def andthen_Inr basic_Inr)

definition hex_tokens :: "spool_env \<Rightarrow> bool" where
  "hex_tokens env \<longleftrightarrow> (\<forall>n. list_all lower_hex (sv_token env n))"

lemma staged_names_ok:
  assumes "hex_tokens env"
  shows "has_prefix (''.staging-'' @ sv_token env a) ''.staging-''"
    "CHR ''/'' \<notin> set (''artifact-'' @ sv_token env b @ suffix_of m)" "has_prefix (''artifact-'' @ x) ''artifact-''"
proof -
  have "\<not> lower_hex CHR ''/''" by (simp add: lower_hex_def)
  then have "CHR ''/'' \<notin> set (sv_token env b)"
    using assms unfolding hex_tokens_def list_all_iff by blast
  then show "CHR ''/'' \<notin> set (''artifact-'' @ sv_token env b @ suffix_of m)" by (auto simp: suffix_of_def)
qed (simp_all add: has_prefix_def)

lemma fresh_token_Inr: "fresh_token env s = (Inr t, s') \<longleftrightarrow> t = sv_token env (sp_fresh s) \<and> s' = s\<lparr>sp_fresh := sp_fresh s + 1\<rparr>"
  by (auto simp: fresh_token_def)

lemma triple_noting: "triple P m (\<lambda>_. P) P \<Longrightarrow> triple P (noting name m issues) (\<lambda>_. P) P"
  by (rule tripleI) (auto simp: noting_def dest: triple_InlD triple_InrD split: prod.splits sum.splits if_splits)

text \<open>What a commit does: a temporary file takes its final name, and a row is queued for a file that was seen
  on disk.\<close>

locale commit_property = staging_property +
  fixes sha :: "string \<Rightarrow> string"
  assumes published: "P s \<Longrightarrow> has_prefix a ''.staging-'' \<Longrightarrow> has_prefix b ''artifact-'' \<Longrightarrow> lookup (sp_outbox s) b = None
      \<Longrightarrow> P (update_directory Outbox (rename_entry a b) s)"
    and queued: "P s \<Longrightarrow> stored sha (sp_outbox s) (in_final i) (in_size i) (in_sha256 i) \<Longrightarrow> intent_names_ok i
      \<Longrightarrow> ensure_artifact_queued sha now u (in_task i) (in_path i) m (in_manifest i) (sp_db s) = (Inr True, db')
      \<Longrightarrow> P (s\<lparr>sp_db := db'\<rparr>)"
begin

lemma still_stored:
  assumes "still m"
  shows "triple (\<lambda>s. P s \<and> stored sha (sp_outbox s) n k h) m (\<lambda>_ s. P s \<and> stored sha (sp_outbox s) n k h) P"
proof -
  have "triple (\<lambda>s. P s \<and> stored sha (sp_outbox s) n k h) m (\<lambda>_ s. P s \<and> stored sha (sp_outbox s) n k h)
      (\<lambda>s. P s \<and> stored sha (sp_outbox s) n k h)"
    by (rule triple_still [OF assms]) (auto intro: held simp: held_def)
  then show ?thesis unfolding triple_def by blast
qed

lemma queue_keeps:
  assumes names: "intent_names_ok i" and env: "py_sha (sv_python env) = sha"
  shows "triple (\<lambda>s. P s \<and> stored sha (sp_outbox s) (in_final i) (in_size i) (in_sha256 i)) (queue_intent env i) (\<lambda>_. P) P"
proof -
  have keeps: "P s'"
    if s: "P s \<and> stored sha (sp_outbox s) (in_final i) (in_size i) (in_sha256 i)" "queue_intent env i s = (r, s')" for s r s'
  proof (cases rule: queue_intent_effect [OF s(2)])
    case 1
    then show ?thesis using held s(1) by blast
  next
    case (2 u db')
    have "P (s\<lparr>sp_db := db'\<rparr>)" using queued [OF _ _ names] s(1) 2(1) unfolding env by blast
    then show ?thesis by (rule held [OF 2(2)])
  qed
  show ?thesis by (rule tripleI) (use keeps in blast)+
qed

lemma publish_keeps:
  assumes "has_prefix a ''.staging-''" "has_prefix b ''artifact-''"
  shows "triple P (publish_without_overwrite a b) (\<lambda>_. P) P"
proof -
  have move: "triple (\<lambda>s. P s \<and> lookup (sp_outbox s) b = None) (durably (update_directory Outbox (rename_entry a b))) (\<lambda>_. P) P"
    by (rule triple_durably) (use assms published crash in auto)
  show ?thesis
    unfolding publish_without_overwrite_def
    by (intro triple_branch triple_returns) (auto intro: triple_pre [OF move])
qed

lemma validated_keeps:
  assumes "py_sha (sv_python env) = sha"
  shows "triple P (validate_named_artifact env c n k h) (\<lambda>_ s. P s \<and> stored sha (sp_outbox s) n k h) P"
  using triple_validated [of P env c n k h] held unfolding assms by blast

lemma commit_keeps:
  assumes names: "intent_names_ok i" and env: "py_sha (sv_python env) = sha" and f: "\<And>u. triple P (f u) R P"
  shows "triple P (andthen (validate_named_artifact env True (in_final i) (in_size i) (in_sha256 i)) (\<lambda>_.
      andthen (control_check env) (\<lambda>_. andthen (queue_intent env i) f))) R P"
  by (intro triple_andthen [OF validated_keeps [OF env]] triple_andthen [OF still_stored]
      triple_andthen [OF queue_keeps [OF names env]] f still_basic)

lemma reconcile_intent_keeps:
  assumes names: "intent_names_ok i" and env: "py_sha (sv_python env) = sha"
  shows "triple P (reconcile_intent env i) (\<lambda>_. P) P"
proof -
  have t: "has_prefix (in_temporary i) ''.staging-''" and f: "has_prefix (in_final i) ''artifact-''"
    using names by (simp_all add: intent_names_ok_def)
  note basic = basic_keeps retire_keeps(1) retire_keeps(2) [OF t] publish_keeps [OF t f]
  have done': "triple P (andthen (control_check env) (\<lambda>_. retire_intent env i)) (\<lambda>_. P) P"
    by (intro triple_andthen [where Q = "\<lambda>_. P"] basic)
  have leftover: "triple P (andthen (entry_exists (in_temporary i)) (\<lambda>leftover.
      andthen (if leftover
               then andthen (validate_owned_regular (in_temporary i)) (\<lambda>_.
                    andthen (control_check env) (\<lambda>_. retire_temporary env i))
               else give ()) (\<lambda>_.
      andthen (control_check env) (\<lambda>_. retire_intent env i)))) (\<lambda>_. P) P"
    by (intro triple_andthen [where Q = "\<lambda>_. P"] triple_if basic)
  have discard: "triple P (andthen (retire_temporary env i) (\<lambda>_. andthen (control_check env) (\<lambda>_. retire_intent env i)))
      (\<lambda>_. P) P"
    by (intro triple_andthen [where Q = "\<lambda>_. P"] basic)
  have finish: "triple P (andthen (publish_without_overwrite (in_temporary i) (in_final i)) (\<lambda>_.
      andthen (validate_named_artifact env True (in_final i) (in_size i) (in_sha256 i)) (\<lambda>_.
      andthen (control_check env) (\<lambda>_.
      andthen (queue_intent env i) (\<lambda>_.
      andthen (control_check env) (\<lambda>_. retire_intent env i)))))) (\<lambda>_. P) P"
    by (rule triple_andthen [OF publish_keeps [OF t f]], rule commit_keeps [OF names env], rule done')
  show ?thesis
    unfolding reconcile_intent_def
    apply (rule triple_andthen [where Q = "\<lambda>_. P"], rule basic_keeps)
    apply (rule triple_if, rule commit_keeps [OF names env], rule leftover)
    apply (rule triple_andthen [where Q = "\<lambda>_. P"], rule basic_keeps)
    apply (rule triple_if)
     apply (rule triple_andthen [where Q = "\<lambda>_. P"], rule basic_keeps)
     apply (rule triple_andthen [where Q = "\<lambda>_. P"], rule basic_keeps)
     apply (rule triple_if, rule discard, rule finish)
    apply (rule triple_if, rule basic_keeps, rule done')
    done
qed

lemma read_keeps: "triple P (read_intent env n) (\<lambda>i s. P s \<and> intent_names_ok i) P"
  using still_read(1) [THEN still_keeps, of env n] read_intent_names unfolding triple_def by blast

lemma entries_keep:
  assumes env: "py_sha (sv_python env) = sha"
  shows "triple P (reconcile_entries env relevant names issues) (\<lambda>_. P) P"
proof (induction names arbitrary: issues)
  case (Cons name names)
  have one: "triple P (andthen (read_intent env name) (\<lambda>i. if relevant i then reconcile_intent env i else give ())) (\<lambda>_. P) P"
  proof (rule triple_andthen [OF read_keeps])
    fix i
    show "triple (\<lambda>s. P s \<and> intent_names_ok i) (if relevant i then reconcile_intent env i else give ()) (\<lambda>_. P) P"
    proof (cases "intent_names_ok i")
      case True
      show ?thesis
        by (rule triple_if) (rule triple_pre [OF reconcile_intent_keeps [OF True env]], simp, rule triple_give, simp)
    next
      case False
      then show ?thesis by (intro tripleI) simp_all
    qed
  qed
  show ?case
    by (auto intro!: triple_andthen [where Q = "\<lambda>_. P"] triple_noting [OF one] Cons.IH basic_keeps)
qed (auto intro: triple_give)

lemma row_keeps: "triple P (row_artifact env row issues) (\<lambda>_. P) P"
proof -
  have one: "triple P (noting n (validate_named_artifact env c m k h) is) (\<lambda>_. P) P" for n c m k h "is"
    by (rule triple_noting) (rule basic_keeps)
  show ?thesis
    unfolding row_artifact_def Let_def by (intro triple_branch triple_returns) (auto intro: triple_pre [OF one])
qed

lemma relevant_keeps:
  assumes env: "py_sha (sv_python env) = sha"
  shows "triple P (reconcile_relevant_sync env artifact execution) (\<lambda>_. P) P"
proof -
  have row: "triple P (\<lambda>s. case artifact_upload a (sp_db s) of None \<Rightarrow> (Inr is, s) | Some row \<Rightarrow> row_artifact env row is s) (\<lambda>_. P) P"
    for a "is"
  proof (rule triple_choose [where v = "\<lambda>s. artifact_upload a (sp_db s)"])
    fix x show "triple (\<lambda>s. P s \<and> artifact_upload a (sp_db s) = x)
      (\<lambda>s. case x of None \<Rightarrow> (Inr is, s) | Some row \<Rightarrow> row_artifact env row is s) (\<lambda>_. P) P"
      by (cases x) (auto intro: triple_returns triple_pre [OF row_keeps])
  qed
  have all: "triple P (andthen (reconcile_entries env r names []) (\<lambda>issues.
     andthen (case artifact of
         None \<Rightarrow> give issues
       | Some a \<Rightarrow> andthen (inspect_entry env) (\<lambda>_ s.
           case artifact_upload a (sp_db s) of None \<Rightarrow> (Inr issues, s) | Some row \<Rightarrow> row_artifact env row issues s)) (\<lambda>issues'.
       raise_issues issues'))) (\<lambda>_. P) P" for r names
    by (auto intro!: triple_andthen [where Q = "\<lambda>_. P"] entries_keep [OF env] basic_keeps row split: option.split)
  show ?thesis
    unfolding reconcile_relevant_sync_def
    by (rule triple_choose [where v = "\<lambda>s. map fst (sp_intents s)"]) (rule triple_pre [OF all], simp)
qed

lemma audit_keeps: "triple P (audit_rows env rows issues) (\<lambda>_. P) P"
  by (induction rows arbitrary: issues)
    (auto intro!: triple_andthen [where Q = "\<lambda>_. P"] basic_keeps row_keeps triple_give)

lemma stage_publish_keeps:
  "intent_names_ok i \<Longrightarrow> triple P (stage_publish env rq i) (\<lambda>_. P) P"
  unfolding stage_publish_def intent_names_ok_def
  by (auto intro!: triple_andthen [where Q = "\<lambda>_. P"] basic_keeps publish_keeps)

lemma stage_commit_keeps:
  assumes "intent_names_ok i" "py_sha (sv_python env) = sha"
  shows "triple P (stage_commit env rq i) (\<lambda>_. P) P"
  unfolding stage_commit_def
  by (rule triple_andthen [OF validated_keeps [OF assms(2)]], rule triple_andthen [OF queue_keeps [OF assms]])
    (auto intro!: triple_andthen [where Q = "\<lambda>_. P"] basic_keeps retire_keeps)

end

end
