(* ===== verification/Artifact_Runs.thy ===== *)
theory Artifact_Runs
  imports Artifact_Safety
begin

text \<open>
  Runs of the spool: stagings, start-ups and restarts after a crash, in any order.  Every queued artifact is
  on disk after each of them, and a staging that did not commit leaves no artifact and no row.
\<close>

section \<open>A whole staging\<close>

lemma triple_ghost: "(\<And>x. c x \<Longrightarrow> triple P (f x) Q E) \<Longrightarrow> triple (\<lambda>s. P s \<and> c x) (f x) Q E"
  unfolding triple_def by blast

context commit_property
begin

lemma token_keeps: "triple P (fresh_token env) (\<lambda>t s. P s \<and> (\<exists>n. t = sv_token env n)) P"
proof -
  have "triple P (fresh_token env) (\<lambda>_. P) P" by (rule still_keeps) (rule still_rules)
  then show ?thesis by (auto simp: triple_def fresh_token_def)
qed

lemma staged_intent_keeps:
  assumes t: "has_prefix temporary ''.staging-''" and f: "has_prefix final ''artifact-''" "CHR ''/'' \<notin> set final"
  shows "triple P (guarded (stage_copy env rq temporary final) (clean_up env Outbox temporary))
    (\<lambda>i s. P s \<and> intent_names_ok i) P"
proof (rule guarded_keeps)
  show "triple P (stage_copy env rq temporary final) (\<lambda>i s. P s \<and> intent_names_ok i) P"
  proof (rule tripleI)
    fix s e s' assume "P s" "stage_copy env rq temporary final s = (Inl e, s')"
    then show "P s'" by (rule triple_InlD [OF stage_copy_keeps [OF t]])
  next
    fix s i s' assume s: "P s" "stage_copy env rq temporary final s = (Inr i, s')"
    then show "P s' \<and> intent_names_ok i"
      using triple_InrD [OF stage_copy_keeps [OF t] s] copied_intent(1,2) [OF s(2)] t f
      by (simp add: intent_names_ok_def)
  qed
  show "triple P (clean_up env Outbox temporary) (\<lambda>_. P) P" by (rule clean_up_keeps) (use t in simp)
qed

lemma published_keeps:
  assumes "intent_names_ok i" "has_prefix temporary ''.staging-''"
  shows "triple P (guarded (stage_publish env rq i) (andthen (clean_up env Outbox temporary) (\<lambda>_. clean_up env Intents n)))
    (\<lambda>_. P) P"
  by (rule guarded_keeps [OF stage_publish_keeps [OF assms(1)]])
    (intro triple_andthen [where Q = "\<lambda>_. P"] clean_up_keeps; use assms in simp)

lemma named_stage_keeps:
  assumes env: "py_sha (sv_python env) = sha" and t: "has_prefix temporary ''.staging-''"
    and f: "has_prefix final ''artifact-''" "CHR ''/'' \<notin> set final"
  shows "triple P (andthen (create_entry Outbox temporary) (\<lambda>_.
     andthen (guarded (stage_copy env rq temporary final) (clean_up env Outbox temporary)) (\<lambda>i.
     andthen (guarded (stage_publish env rq i)
       (andthen (clean_up env Outbox temporary) (\<lambda>_. clean_up env Intents (in_name i)))) (\<lambda>_.
       stage_commit env rq i)))) (\<lambda>_. P) P"
proof (rule triple_andthen [OF create_keeps], use t in simp, rule triple_andthen [OF staged_intent_keeps [OF t f]])
  fix i
  show "triple (\<lambda>s. P s \<and> intent_names_ok i) (andthen (guarded (stage_publish env rq i)
       (andthen (clean_up env Outbox temporary) (\<lambda>_. clean_up env Intents (in_name i)))) (\<lambda>_.
       stage_commit env rq i)) (\<lambda>_. P) P"
  proof (rule triple_ghost [where f = "\<lambda>i. andthen (guarded (stage_publish env rq i)
       (andthen (clean_up env Outbox temporary) (\<lambda>_. clean_up env Intents (in_name i)))) (\<lambda>_. stage_commit env rq i)"])
    fix i assume "intent_names_ok i"
    then show "triple P (andthen (guarded (stage_publish env rq i)
       (andthen (clean_up env Outbox temporary) (\<lambda>_. clean_up env Intents (in_name i)))) (\<lambda>_.
       stage_commit env rq i)) (\<lambda>_. P) P"
      by (intro triple_andthen [OF published_keeps] stage_commit_keeps [OF _ env] t)
  qed
qed

lemma stage_sync_keeps:
  assumes env: "py_sha (sv_python env) = sha" and tokens: "hex_tokens env"
  shows "triple P (stage_sync env rq) (\<lambda>_. P) P"
proof -
  have named: "triple (\<lambda>s. (P s \<and> (\<exists>n. a = sv_token env n)) \<and> (\<exists>n. b = sv_token env n))
     (let temporary = ''.staging-'' @ a; final = ''artifact-'' @ b @ suffix_of (JObj (rq_manifest rq)) in
     andthen (create_entry Outbox temporary) (\<lambda>_.
     andthen (guarded (stage_copy env rq temporary final) (clean_up env Outbox temporary)) (\<lambda>i.
     andthen (guarded (stage_publish env rq i)
       (andthen (clean_up env Outbox temporary) (\<lambda>_. clean_up env Intents (in_name i)))) (\<lambda>_.
       stage_commit env rq i)))) (\<lambda>_. P) P" for a b
  proof (cases "(\<exists>n. a = sv_token env n) \<and> (\<exists>n. b = sv_token env n)")
    case True
    then obtain m n where ab: "a = sv_token env m" "b = sv_token env n" by blast
    show ?thesis
      unfolding Let_def ab
      by (rule triple_pre [OF named_stage_keeps [OF env]]) (use staged_names_ok [OF tokens] in auto)
  next
    case False
    then show ?thesis unfolding triple_def by blast
  qed
  have second: "triple (\<lambda>s. P s \<and> (\<exists>n. a = sv_token env n)) (fresh_token env)
      (\<lambda>b s. (P s \<and> (\<exists>n. a = sv_token env n)) \<and> (\<exists>n. b = sv_token env n)) P" for a
    using token_keeps [of env] unfolding triple_def by blast
  show ?thesis
    unfolding stage_sync_def
    by (rule triple_andthen [where Q = "\<lambda>_. P"], rule basic_keeps,
        rule triple_andthen [where Q = "\<lambda>_. P"], rule basic_keeps,
        rule triple_andthen [where Q = "\<lambda>_. P"], rule basic_keeps,
        rule triple_andthen [OF token_keeps], rule triple_andthen [OF second], rule named)
qed

lemma held_first:
  assumes m: "triple P m (\<lambda>_. P) P" and g: "\<And>s. held (g s) = held s"
  shows "triple P (\<lambda>s. m (g s)) (\<lambda>_. P) P"
  by (rule tripleI) (erule triple_InlD [OF m held [OF g]] triple_InrD [OF m held [OF g]], assumption)+

lemma existing_keeps: "triple P (existing_staged env supplied task) (\<lambda>_. P) P"
proof (rule still_keeps)
  have validated: "held (snd (andthen (validate_named_artifact env True n k h) (\<lambda>_. andthen (require c e) (\<lambda>_.
      andthen (require c' e') (\<lambda>_. give (Some x)))) s)) = held s"
    for n k h c e c' e' and x :: "string \<times> json" and s
  proof -
    have "still (andthen (validate_named_artifact env True n k h) (\<lambda>_. andthen (require c e) (\<lambda>_.
      andthen (require c' e') (\<lambda>_. give (Some x)))))" by (intro still_rules)
    then show ?thesis unfolding still_def by blast
  qed
  show "still (existing_staged env supplied task)"
    unfolding still_def existing_staged_def by (simp add: validated split: option.split)
qed

lemma find_existing_keeps:
  assumes "py_sha (sv_python env) = sha"
  shows "triple P (reconcile_and_find_existing env supplied task) (\<lambda>_. P) P"
  unfolding reconcile_and_find_existing_def
  by (rule held_first, rule triple_andthen [OF relevant_keeps [OF assms]],
      rule triple_andthen [where Q = "\<lambda>_. P"], rule basic_keeps, rule existing_keeps, simp add: held_def)

lemma stage_exclusive_keeps:
  assumes "py_sha (sv_python env) = sha" "hex_tokens env"
  shows "triple P (stage_exclusive env rq) (\<lambda>_. P) P"
  unfolding stage_exclusive_def
proof (rule triple_andthen [OF find_existing_keeps [OF assms(1)]])
  fix existing
  have "triple P (\<lambda>s. stage_sync env rq (s\<lparr>sp_tx := new_tx, sp_ops := 0\<rparr>)) (\<lambda>_. P) P"
    by (rule held_first [OF stage_sync_keeps [OF assms]]) (simp add: held_def)
  then show "triple P (case existing of Some found \<Rightarrow> give found
      | None \<Rightarrow> (\<lambda>s. stage_sync env rq (s\<lparr>sp_tx := new_tx, sp_ops := 0\<rparr>))) (\<lambda>_. P) P"
    by (cases existing) (auto intro: triple_give)
qed

lemma startup_keeps:
  assumes env: "py_sha (sv_python env) = sha"
  shows "triple P (reconcile_startup_sync env) (\<lambda>_. P) P"
proof -
  have audit: "triple P (andthen (audit_rows env rows issues) raise_issues) (\<lambda>_. P) P" for rows issues
    by (rule triple_andthen [where Q = "\<lambda>_. P"], rule audit_keeps, rule basic_keeps)
  have listed: "triple P (\<lambda>s. case x of Inl e \<Rightarrow> (Inl (store_error e), s)
      | Inr rows \<Rightarrow> andthen (audit_rows env rows issues) raise_issues s) (\<lambda>_. P) P" for x issues
    by (cases x) (auto intro: triple_returns audit)
  have counted: "triple P (andthen (control_check env) (\<lambda>_ s. case f s of Inl e \<Rightarrow> (Inl (store_error e), s)
      | Inr rows \<Rightarrow> andthen (audit_rows env rows issues) raise_issues s)) (\<lambda>_. P) P" for f issues
  proof (rule triple_andthen [where Q = "\<lambda>_. P"], rule basic_keeps, rule triple_choose [where v = f])
    fix u x show "triple (\<lambda>s. P s \<and> f s = x) (\<lambda>s. case x of Inl e \<Rightarrow> (Inl (store_error e), s)
      | Inr rows \<Rightarrow> andthen (audit_rows env rows issues) raise_issues s) (\<lambda>_. P) P"
      by (rule triple_pre [OF listed]) simp
  qed
  have limited: "triple P (andthen (control_check env) (\<lambda>_ s. if c s then (Inl Recon_Limit, s)
      else andthen (control_check env) (\<lambda>_ s. case f s of Inl e \<Rightarrow> (Inl (store_error e), s)
      | Inr rows \<Rightarrow> andthen (audit_rows env rows issues) raise_issues s) s)) (\<lambda>_. P) P" for c f issues
  proof (rule triple_andthen [where Q = "\<lambda>_. P"], rule basic_keeps, rule triple_branch)
    fix u
    show "triple (\<lambda>s. P s \<and> c s) (\<lambda>s. (Inl Recon_Limit, s)) (\<lambda>_. P) P" by (rule triple_returns) simp
    show "triple (\<lambda>s. P s \<and> \<not> c s) (andthen (control_check env) (\<lambda>_ s. case f s of Inl e \<Rightarrow> (Inl (store_error e), s)
      | Inr rows \<Rightarrow> andthen (audit_rows env rows issues) raise_issues s)) (\<lambda>_. P) P"
      by (rule triple_pre [OF counted]) simp
  qed
  have started: "triple P (\<lambda>s. let remaining = g s in andthen (control_check env) (\<lambda>_ s.
      if c remaining s then (Inl Recon_Limit, s)
      else andthen (control_check env) (\<lambda>_ s. case f remaining s of Inl e \<Rightarrow> (Inl (store_error e), s)
        | Inr rows \<Rightarrow> andthen (audit_rows env rows issues) raise_issues s) s) s) (\<lambda>_. P) P"
    for g :: "spool \<Rightarrow> int" and c f issues
    unfolding Let_def by (rule triple_choose [where v = g]) (rule triple_pre [OF limited], simp)
  have all: "triple P (\<lambda>s. andthen (reconcile_entries env r (names s) []) (\<lambda>issues s.
      let remaining = g s in andthen (control_check env) (\<lambda>_ s. if c remaining s then (Inl Recon_Limit, s)
      else andthen (control_check env) (\<lambda>_ s. case f remaining s of Inl e \<Rightarrow> (Inl (store_error e), s)
        | Inr rows \<Rightarrow> andthen (audit_rows env rows issues) raise_issues s) s) s) s) (\<lambda>_. P) P"
    for r names c f and g :: "spool \<Rightarrow> int"
    by (rule triple_choose [where v = names])
      (rule triple_pre [OF triple_andthen [OF entries_keep [OF env] started]], simp)
  show ?thesis
    using all [where names = "\<lambda>s. map fst (sp_intents s)" and r = "\<lambda>_. True"
      and g = "\<lambda>s. max 1 (int (rc_max_entries (sp_control s)) - int (rc_entries (sp_control s)))"
      and c = "\<lambda>remaining s. int (row_count (\<lambda>r. ob_state r \<in> set [Pending, In_Flight, Upload_Failed])
        (t_uploads (sp_db s))) > remaining"
      and f = "\<lambda>remaining s. artifact_uploads [Pending, In_Flight, Upload_Failed] (min 10000 remaining) (sp_db s)"]
    unfolding reconcile_startup_sync_def Let_def .
qed

end

section \<open>Queued artifacts are on disk\<close>

lemma path_split_plain: "CHR ''/'' \<notin> set s \<Longrightarrow> path_split acc s = [rev acc @ s]"
  by (induction s arbitrary: acc) auto

lemma outbox_parts:
  assumes "CHR ''/'' \<notin> set name" "name \<noteq> []" "name \<noteq> ''.''"
  shows "path_parts (''outbox/'' @ name) = [''outbox'', name]"
  using assms by (simp add: path_parts_def path_split_plain)

lemma path_parts_outbox:
  assumes "CHR ''/'' \<notin> set name" "name \<noteq> []" "name \<noteq> ''.''"
  shows "as_posix (''outbox/'' @ name) = ''outbox/'' @ name"
  using outbox_parts [OF assms] by (simp add: as_posix_def)

lemma intent_path:
  assumes "intent_names_ok i"
  shows "as_posix (in_path i) = in_path i"
  unfolding in_path_def
  by (rule path_parts_outbox) (use assms in \<open>auto simp: intent_names_ok_def has_prefix_def\<close>)

lemma artifact_not_staging: "has_prefix n ''artifact-'' \<Longrightarrow> \<not> has_prefix n ''.staging-''"
  by (cases n) (auto simp: has_prefix_def)

lemma ensured_row:
  assumes "ensure_artifact_queued sha now u task relative media payload db = (Inr True, db')"
  obtains row where "t_uploads db' = t_uploads db @ [row]" "up_relative_path row = as_posix relative"
    "up_size_bytes row = integer_of (field payload ''size_bytes'')" "up_sha256 row = text_member payload ''sha256''"
    "up_artifact_id row = text_member payload ''artifact_id''" "ob_task_id row = task"
  using assms by (auto simp: ensure_artifact_queued_def insert_upload_def split: if_splits option.splits)

interpretation on_disk: commit_property "rows_on_disk sha" sha for sha
proof unfold_locales
  fix s i now u m db'
  assume rows: "rows_on_disk sha s" and disk: "stored sha (sp_outbox s) (in_final i) (in_size i) (in_sha256 i)"
    and names: "intent_names_ok i"
    and queue: "ensure_artifact_queued sha now u (in_task i) (in_path i) m (in_manifest i) (sp_db s) = (Inr True, db')"
  from queue show "rows_on_disk sha (s\<lparr>sp_db := db'\<rparr>)"
  proof (rule ensured_row)
    fix row
    assume row: "t_uploads db' = t_uploads (sp_db s) @ [row]" "up_relative_path row = as_posix (in_path i)"
      "up_size_bytes row = integer_of (field (in_manifest i) ''size_bytes'')"
      "up_sha256 row = text_member (in_manifest i) ''sha256''"
    have "\<not> has_prefix (in_final i) ''.staging-''" using names artifact_not_staging by (simp add: intent_names_ok_def)
    moreover have "up_relative_path row = ''outbox/'' @ in_final i"
      using row(2) intent_path [OF names] by (simp add: in_path_def)
    ultimately show ?thesis
      using rows disk row(1,3,4) by (auto simp: rows_on_disk_def in_size_def in_sha256_def)
  qed
next
  fix s s' :: spool assume "held s' = held s" "rows_on_disk sha s"
  then show "rows_on_disk sha s'" by (rule rows_on_disk_held)
next
  fix s a b
  assume s: "rows_on_disk sha s" "has_prefix a ''.staging-''" "lookup (sp_outbox s) b = None"
  show "rows_on_disk sha (update_directory Outbox (rename_entry a b) s)"
    by (rule rows_on_disk_keep [OF s(1)]) (use s in \<open>auto intro: lookup_rename\<close>)
  then show "rows_on_disk sha (update_directory Outbox (rename_entry a b) s)" .
next
  fix s f assume "rows_on_disk sha s"
  then show "rows_on_disk sha (update_directory Intents f s)" by (rule rows_on_disk_keep) simp_all
next
  fix s a and x :: spool_file
  assume s: "rows_on_disk sha s" "has_prefix a ''.staging-''" "lookup (sp_outbox s) a = None"
  show "rows_on_disk sha (update_directory Outbox (\<lambda>d. d @ [(a, x)]) s)"
    by (rule rows_on_disk_keep [OF s(1)]) (simp_all add: lookup_created)
next
  fix s a and g :: "spool_file \<Rightarrow> spool_file"
  assume s: "rows_on_disk sha s" "has_prefix a ''.staging-''"
  show "rows_on_disk sha (update_directory Outbox (map (\<lambda>(n, x). (n, if n = a then g x else x))) s)"
    by (rule rows_on_disk_keep [OF s(1)]) (use s(2) in \<open>auto simp: lookup_changed\<close>)
qed

inductive spool_run :: "spool_env \<Rightarrow> spool \<Rightarrow> spool \<Rightarrow> bool" for env where
  start: "spool_run env s s"
| staging: "spool_run env s t \<Longrightarrow> stage_exclusive env rq t = (r, t') \<Longrightarrow> spool_run env s t'"
| startup: "spool_run env s t \<Longrightarrow> reconcile_startup_sync env t = (r, t') \<Longrightarrow> spool_run env s t'"
| restart: "spool_run env s t \<Longrightarrow> sp_outbox t' = sp_outbox t \<Longrightarrow> sp_intents t' = sp_intents t \<Longrightarrow> sp_db t' = sp_db t
    \<Longrightarrow> spool_run env s t'"

lemma spool_run_keeps:
  assumes "commit_property P sha" "py_sha (sv_python env) = sha" "hex_tokens env"
  shows "spool_run env s t \<Longrightarrow> P s \<Longrightarrow> P t"
proof (induction rule: spool_run.induct)
  case (staging s t rq r t')
  then show ?case using triple_end [OF commit_property.stage_exclusive_keeps [OF assms]] by blast
next
  case (startup s t r t')
  then show ?case using triple_end [OF commit_property.startup_keeps [OF assms(1,2)]] by blast
next
  case (restart s t t')
  then have "held t' = held t" by (simp add: held_def)
  with restart show ?case
    using staging_property.held [OF commit_property.axioms(1) [OF assms(1)]] by blast
qed

end
