(* ===== verification/Artifact_Cancel.thy ===== *)
theory Artifact_Cancel
  imports Artifact_Runs
begin

text \<open>
  Cancelling a staging.  A request or a cancelled token that is there at one of the operations before the
  commit makes the staging fail, and nothing is published or queued; the intent it leaves under the name
  of a cleanup makes every later reconciliation fail.
\<close>

section \<open>Before the commit\<close>

definition unpublished :: "directory \<Rightarrow> store \<Rightarrow> spool \<Rightarrow> bool" where
  "unpublished d db s \<longleftrightarrow> sp_db s = db \<and> (\<forall>n. has_prefix n ''artifact-'' \<longrightarrow> lookup (sp_outbox s) n = lookup d n)"

lemma not_both: "has_prefix n ''artifact-'' \<Longrightarrow> has_prefix n ''.artifact-'' \<Longrightarrow> False"
  by (cases n) (auto simp: has_prefix_def)

lemma lookup_rename_other: "n \<noteq> a \<Longrightarrow> n \<noteq> b \<Longrightarrow> lookup (rename_entry a b d) n = lookup d n"
  by (induction d) (auto simp: lookup_def rename_entry_def split: if_splits)

interpretation unpublished: staging_property "unpublished d db" for d db
proof unfold_locales
  fix s s' :: spool assume "held s' = held s" "unpublished d db s"
  then show "unpublished d db s'" by (simp add: held_def unpublished_def)
next
  fix s a b assume s: "unpublished d db s" "has_prefix a ''.staging-''" "has_prefix b ''.artifact-''"
  have "lookup (rename_entry a b (sp_outbox s)) n = lookup (sp_outbox s) n" if "has_prefix n ''artifact-''" for n
    by (rule lookup_rename_other) (use that s(2,3) not_both artifact_not_staging in blast)+
  then show "unpublished d db (update_directory Outbox (rename_entry a b) s)"
    using s(1) by (simp add: unpublished_def)
next
  fix s f assume "unpublished d db s"
  then show "unpublished d db (update_directory Intents f s)" by (simp add: unpublished_def)
next
  fix s a and x :: spool_file assume s: "unpublished d db s" "has_prefix a ''.staging-''"
  then have "has_prefix n ''artifact-'' \<Longrightarrow> n \<noteq> a" for n using artifact_not_staging by blast
  then show "unpublished d db (update_directory Outbox (\<lambda>d. d @ [(a, x)]) s)"
    using s(1) by (auto simp: unpublished_def lookup_created split: option.split)
next
  fix s a and g :: "spool_file \<Rightarrow> spool_file" assume s: "unpublished d db s" "has_prefix a ''.staging-''"
  then have "has_prefix n ''artifact-'' \<Longrightarrow> n \<noteq> a" for n using artifact_not_staging by blast
  then show "unpublished d db (update_directory Outbox (map (\<lambda>(n, x). (n, if n = a then g x else x))) s)"
    using s(1) by (simp add: unpublished_def lookup_changed)
qed

lemma publish_fails_unpublished:
  "triple (unpublished d db) (stage_publish env rq i) (\<lambda>_ _. True) (unpublished d db)"
  unfolding stage_publish_def
proof (rule triple_andthen [where Q = "\<lambda>_. unpublished d db"], rule unpublished.basic_keeps,
    rule triple_andthen [where Q = "\<lambda>_. unpublished d db"], rule unpublished.basic_keeps,
    rule triple_andthen [where Q = "\<lambda>_. unpublished d db"], rule unpublished.basic_keeps, rule tripleI)
  fix s e s' assume "unpublished d db s" "publish_without_overwrite (in_temporary i) (in_final i) s = (Inl e, s')"
  then show "unpublished d db s'"
    by (auto simp: publish_without_overwrite_def durably_def split: if_splits option.splits nat.splits)
qed simp

section \<open>The operations of the transaction\<close>

definition calm :: "stage_request \<Rightarrow> nat \<Rightarrow> bool" where
  "calm rq n \<longleftrightarrow> \<not> sg_request (rq_signals rq n) \<and> \<not> sg_cancelled (rq_signals rq n)"

definition at_op :: "staging_state \<Rightarrow> nat \<Rightarrow> spool \<Rightarrow> bool" where
  "at_op st n s \<longleftrightarrow> sp_tx s = \<lparr>tx_state = st, tx_stop = False\<rparr> \<and> sp_ops s = n"

lemma tx_ops:
  "at_op Tx_Copying n s \<Longrightarrow> transact (rq_signals rq) tx_check s = (Inr u, t) \<Longrightarrow> at_op Tx_Copying (n + 1) t \<and> calm rq n"
  "at_op Tx_Copying n s \<Longrightarrow> transact (rq_signals rq) tx_ready s = (Inr u, t) \<Longrightarrow> at_op Tx_Ready (n + 1) t \<and> calm rq n"
  "at_op Tx_Ready n s \<Longrightarrow> transact (rq_signals rq) tx_begin_commit s = (Inr u, t) \<Longrightarrow> at_op Tx_Committing (n + 1) t \<and> calm rq n"
  by (auto simp: at_op_def calm_def transact_def tx_check_def tx_ready_def tx_begin_commit_def tx_move_def
      request_cancel_def aborted_tx_def Let_def split: if_splits prod.splits)

text \<open>Everything else leaves the transaction alone.\<close>

definition aside :: "'a spool_op \<Rightarrow> bool" where
  "aside m \<longleftrightarrow> (\<forall>s. sp_tx (snd (m s)) = sp_tx s \<and> sp_ops (snd (m s)) = sp_ops s)"

named_theorems aside_rules

lemma aside_andthen [aside_rules]: "aside m \<Longrightarrow> (\<And>a. aside (f a)) \<Longrightarrow> aside (andthen m f)"
  unfolding aside_def andthen_def by (auto split: prod.splits sum.splits) (metis snd_conv)+

lemma aside_durably [aside_rules]: 
  "(\<And>s. sp_tx (f s) = sp_tx s \<and> sp_ops (f s) = sp_ops s) \<Longrightarrow> aside (durably f)"
  by (simp add: aside_def durably_def split: option.split nat.split)

lemma update_tx [simp]: "sp_tx (update_directory p f s) = sp_tx s"
  by (cases p) (simp_all add: update_directory_def)

lemma aside_basic [aside_rules]:
  "aside (give a)" "aside (fail_with e)" "aside (require b e)" "aside (from_sum r)" "aside (fresh_token env)"
  "aside (record_issue i)" "aside (record_quarantine n c)" "aside (raises x)" "aside (change_entry p n g)" "aside (create_entry p n)"
  by (simp_all add: aside_def give_def fail_with_def require_def from_sum_def fresh_token_def record_issue_def
      record_quarantine_def raises_def change_entry_def create_entry_def durably_def
      split: option.split nat.split)

lemma aside_quarantine [aside_rules]: "aside (logical_quarantine env p n q)"
proof -
  have "aside (move_entry p a b r)" for a b and r :: "string option"
    unfolding move_entry_def by (auto intro!: aside_rules)
  then show ?thesis
    unfolding logical_quarantine_def
    by (intro aside_andthen aside_basic) (auto simp: aside_def split: quarantine_outcome.split)
qed

lemma aside_write [aside_rules]: "aside (write_intent env synced task temporary final manifest authority)"
  unfolding write_intent_def Let_def by (auto intro!: aside_rules split: option.split)

lemma aside_at: "aside m \<Longrightarrow> at_op st n s \<Longrightarrow> m s = (r, t) \<Longrightarrow> at_op st n t"
  unfolding aside_def at_op_def by (metis snd_conv)

lemma copy_calm:
  "at_op Tx_Copying n s \<Longrightarrow> copy_chunks rq name k cs s = (Inr c, t)
   \<Longrightarrow> at_op Tx_Copying (n + length cs + 1) t \<and> (\<forall>j. n \<le> j \<and> j \<le> n + length cs \<longrightarrow> calm rq j)"
proof (induction cs arbitrary: n k s)
  case Nil
  then have "transact (rq_signals rq) tx_check s = (Inr (), t)" by (auto simp: andthen_Inr basic_Inr)
  then show ?case using tx_ops(1) [OF Nil.prems(1)] by (auto simp: le_antisym)
next
  case (Cons x cs)
  obtain s1 s2 where check: "transact (rq_signals rq) tx_check s = (Inr (), s1)"
    and written: "change_entry Outbox name (\<lambda>f. f\<lparr>sf_bytes := sf_bytes f @ x\<rparr>) s1 = (Inr (), s2)"
    and rest: "copy_chunks rq name (k + length x) cs s2 = (Inr c, t)"
    using Cons.prems(2) by (auto simp: andthen_Inr basic_Inr)
  have first: "at_op Tx_Copying (n + 1) s1" "calm rq n" using tx_ops(1) [OF Cons.prems(1) check] by blast+
  have "at_op Tx_Copying (n + 1) s2" by (rule aside_at [where m = "change_entry Outbox name (\<lambda>f. f\<lparr>sf_bytes := sf_bytes f @ x\<rparr>)", OF _ first(1) written]) (rule aside_rules)
  from Cons.IH [OF this rest] have later: "at_op Tx_Copying (n + length (x # cs) + 1) t"
    "\<And>j. n + 1 \<le> j \<and> j \<le> n + length (x # cs) \<Longrightarrow> calm rq j" by auto
  have "calm rq j" if "n \<le> j \<and> j \<le> n + length (x # cs)" for j
    by (cases "j = n") (use first(2) later(2) that in auto)
  then show ?case using later(1) by blast
qed

lemma stage_copy_calm:
  assumes "at_op Tx_Copying 0 s" "stage_copy env rq temporary final s = (Inr i, t)"
  shows "at_op Tx_Copying (length (so_chunks (rq_source rq)) + 1) t"
    "j \<le> length (so_chunks (rq_source rq)) \<Longrightarrow> calm rq j"
proof -
  let ?after = "\<lambda>copied. let bytes = concat (so_chunks (rq_source rq)); manifest = final_manifest env rq bytes in
     andthen (require (copied > 0) (Spool_Fail ''RuntimeError'' ''empty artifacts cannot be staged'')) (\<lambda>_.
     andthen (require (so_stable (rq_source rq)) (Spool_Fail ''RuntimeError'' ''artifact source changed during staging'')) (\<lambda>_.
     andthen (require (int copied = so_size (rq_source rq))
       (Spool_Fail ''RuntimeError'' ''artifact source size changed during staging'')) (\<lambda>_.
     andthen (require (sv_valid env manifest) (Spool_Fail ''ContractValidationError'' ''artifact-manifest.schema.json'')) (\<lambda>_.
     andthen (change_entry Outbox temporary (\<lambda>f. f\<lparr>sf_mode := 256\<rparr>)) (\<lambda>_.
       write_intent env (rq_synced rq) (rq_task rq) temporary final manifest (rq_authority rq))))))"
  obtain c u where copy: "copy_chunks rq temporary 0 (so_chunks (rq_source rq)) s = (Inr c, u)"
    and after: "?after c u = (Inr i, t)"
    using assms(2) unfolding stage_copy_def andthen_Inr by blast
  have u: "at_op Tx_Copying (length (so_chunks (rq_source rq)) + 1) u"
    "\<And>j. j \<le> length (so_chunks (rq_source rq)) \<Longrightarrow> calm rq j" using copy_calm [OF assms(1) copy] by auto
  have "aside (?after c)" unfolding Let_def by (intro aside_rules)
  then show "at_op Tx_Copying (length (so_chunks (rq_source rq)) + 1) t" by (rule aside_at [of "?after c", OF _ u(1) after])
  show "j \<le> length (so_chunks (rq_source rq)) \<Longrightarrow> calm rq j" by (rule u(2))
qed

lemma guarded_Inr: "guarded m c s = (Inr a, t) \<longleftrightarrow> m s = (Inr a, t)"
  by (auto simp: guarded_def split: prod.split sum.split)

lemma stage_publish_calm:
  assumes "at_op Tx_Copying n s" "stage_publish env rq i s = (Inr u, t)"
  shows "calm rq n \<and> calm rq (n + 1)"
proof -
  obtain s1 s2 s3 where steps: "raises (rq_callback rq) s = (Inr (), s1)"
    "transact (rq_signals rq) tx_ready s1 = (Inr (), s2)" "transact (rq_signals rq) tx_begin_commit s2 = (Inr (), s3)"
    using assms(2) by (auto simp: stage_publish_def andthen_Inr)
  have "at_op Tx_Copying n s1" by (rule aside_at [of "raises (rq_callback rq)", OF _ assms(1) steps(1)]) (rule aside_rules)
  then show ?thesis using tx_ops(2) [OF _ steps(2)] tx_ops(3) [OF _ steps(3)] by blast
qed

section \<open>A cancelled staging\<close>

lemma staged_prefix: "has_prefix (''.staging-'' @ x) ''.staging-''"
  by (simp add: has_prefix_def)

lemma named_stage_cancelled:
  assumes s: "unpublished d db s" "at_op Tx_Copying 0 s" and t: "has_prefix temporary ''.staging-''"
    and j: "j \<le> length (so_chunks (rq_source rq)) + 2" "\<not> calm rq j"
    and run: "andthen (create_entry Outbox temporary) (\<lambda>_.
     andthen (guarded (stage_copy env rq temporary final) (clean_up env Outbox temporary)) (\<lambda>i.
     andthen (guarded (stage_publish env rq i)
       (andthen (clean_up env Outbox temporary) (\<lambda>_. clean_up env Intents (in_name i)))) (\<lambda>_.
       stage_commit env rq i))) s = (r, s')"
  shows "(\<exists>e. r = Inl e) \<and> unpublished d db s'"
proof (cases "create_entry Outbox temporary s")
  case (Pair r1 s1)
  have u1: "unpublished d db s1"
    using triple_end [OF unpublished.create_keeps [OF _] s(1) Pair] t by blast
  have o1: "at_op Tx_Copying 0 s1" by (rule aside_at [of "create_entry Outbox temporary", OF _ s(2) Pair]) (rule aside_rules)
  show ?thesis
  proof (cases r1)
    case (Inl e)
    then show ?thesis using run Pair u1 by (auto simp: andthen_def)
  next
    case (Inr u)
    let ?copy = "guarded (stage_copy env rq temporary final) (clean_up env Outbox temporary)"
    obtain r2 s2 where copy: "?copy s1 = (r2, s2)" by fastforce
    have "triple (unpublished d db) ?copy (\<lambda>_. unpublished d db) (unpublished d db)"
      by (rule unpublished.guarded_keeps [OF unpublished.stage_copy_keeps [OF t] unpublished.clean_up_keeps]) (use t in simp)
    then have u2: "unpublished d db s2" by (rule triple_end [where m = ?copy]) (rule u1, rule copy)
    show ?thesis
    proof (cases r2)
      case (Inl e)
      then show ?thesis using run Pair Inr copy u2 by (auto simp: andthen_def)
    next
      case i: (Inr i)
      have "stage_copy env rq temporary final s1 = (Inr i, s2)" using copy i by (simp add: guarded_Inr)
      from stage_copy_calm [OF o1 this] have o2: "at_op Tx_Copying (length (so_chunks (rq_source rq)) + 1) s2"
        and calm: "\<And>k. k \<le> length (so_chunks (rq_source rq)) \<Longrightarrow> calm rq k" by blast+
      let ?clean = "andthen (clean_up env Outbox temporary) (\<lambda>_. clean_up env Intents (in_name i))"
      let ?publish = "guarded (stage_publish env rq i) ?clean"
      obtain r3 s3 where publish: "?publish s2 = (r3, s3)" by fastforce
      have clean: "triple (unpublished d db) ?clean (\<lambda>_. unpublished d db) (unpublished d db)"
        by (intro triple_andthen [where Q = "\<lambda>_. unpublished d db"] unpublished.clean_up_keeps) (use t in simp_all)
      have fails: "triple (unpublished d db) ?publish (\<lambda>_ _. True) (unpublished d db)"
        by (rule unpublished.guarded_keeps [OF publish_fails_unpublished clean])
      obtain e where e: "r3 = Inl e"
      proof (cases r3)
        case (Inr v)
        then have "stage_publish env rq i s2 = (Inr v, s3)" using publish by (simp add: guarded_Inr)
        from stage_publish_calm [OF o2 this]
        have "calm rq (length (so_chunks (rq_source rq)) + 1) \<and> calm rq (length (so_chunks (rq_source rq)) + 2)" by simp
        moreover have "j \<le> length (so_chunks (rq_source rq)) \<or> j = length (so_chunks (rq_source rq)) + 1
          \<or> j = length (so_chunks (rq_source rq)) + 2" using j(1) by linarith
        ultimately show ?thesis using calm j(2) by auto
      qed blast
      have "unpublished d db s3" using triple_InlD [OF fails u2] publish e by blast
      then show ?thesis using run Pair Inr copy i publish e by (auto simp: andthen_def)
    qed
  qed
qed

lemma before_names:
  assumes m: "still m" "aside m" and here: "unpublished d db t" "at_op Tx_Copying 0 t" and run: "andthen m g t = (r, s')"
    and rest: "\<And>a t'. unpublished d db t' \<Longrightarrow> at_op Tx_Copying 0 t' \<Longrightarrow> g a t' = (r, s')
      \<Longrightarrow> (\<exists>e. r = Inl e) \<and> unpublished d db s'"
  shows "(\<exists>e. r = Inl e) \<and> unpublished d db s'"
proof -
  obtain x t' where mt: "m t = (x, t')" by fastforce
  have "unpublished d db t'" using unpublished.held [OF still_held [OF m(1) mt] here(1)] .
  moreover have "at_op Tx_Copying 0 t'" by (rule aside_at [OF m(2) here(2) mt])
  ultimately show ?thesis using run mt rest by (cases x) (auto simp: andthen_def)
qed

lemma stage_sync_cancelled:
  assumes s: "unpublished d db s" "at_op Tx_Copying 0 s"
    and j: "j \<le> length (so_chunks (rq_source rq)) + 2" "\<not> calm rq j"
    and run: "stage_sync env rq s = (r, s')"
  shows "(\<exists>e. r = Inl e) \<and> unpublished d db s'"
proof (rule before_names [OF still_read(3) aside_basic(8) s run [unfolded stage_sync_def]],
    erule (1) before_names [OF still_basic(4) aside_basic(4)], assumption,
    erule (1) before_names [OF still_basic(3) aside_basic(3)], assumption,
    erule (1) before_names [OF still_basic(5) aside_basic(5)], assumption,
    erule (1) before_names [OF still_basic(5) aside_basic(5)], assumption)
  fix a b t
  assume "unpublished d db t" "at_op Tx_Copying 0 t"
    "(let temporary = ''.staging-'' @ a; final = ''artifact-'' @ b @ suffix_of (JObj (rq_manifest rq)) in
     andthen (create_entry Outbox temporary) (\<lambda>_.
     andthen (guarded (stage_copy env rq temporary final) (clean_up env Outbox temporary)) (\<lambda>i.
     andthen (guarded (stage_publish env rq i)
       (andthen (clean_up env Outbox temporary) (\<lambda>_. clean_up env Intents (in_name i)))) (\<lambda>_.
       stage_commit env rq i)))) t = (r, s')"
  then show "(\<exists>e. r = Inl e) \<and> unpublished d db s'"
    using named_stage_cancelled [OF _ _ staged_prefix j, of d db t] unfolding Let_def by blast
qed

end
