(* ===== verification/Artifact_Blocked.thy ===== *)
theory Artifact_Blocked
  imports Artifact_Cancel
begin

text \<open>
  How a reconciliation ends: what it finds wrong accumulates and is raised at the end, and only a stop or a
  crash ends it earlier.  An entry of the intents with a name that no reconciliation reads is always wrong.
\<close>

definition ends :: "'a spool_op \<Rightarrow> (spool_error \<Rightarrow> bool) \<Rightarrow> ('a \<Rightarrow> bool) \<Rightarrow> bool" where
  "ends m E Q \<longleftrightarrow> (\<forall>s. case fst (m s) of Inl e \<Rightarrow> E e | Inr a \<Rightarrow> Q a)"

lemma ends_andthen:
  assumes m: "ends m E Q" and f: "\<And>a. Q a \<Longrightarrow> ends (f a) E R"
  shows "ends (andthen m f) E R"
  unfolding ends_def
proof
  fix s
  obtain r t where mt: "m s = (r, t)" by fastforce
  have "case r of Inl e \<Rightarrow> E e | Inr a \<Rightarrow> Q a" using m mt unfolding ends_def by (metis fst_conv)
  then show "case fst (andthen m f s) of Inl e \<Rightarrow> E e | Inr a \<Rightarrow> R a"
    using mt f unfolding ends_def andthen_def by (cases r) auto
qed

lemma ends_weaken: "ends m E Q \<Longrightarrow> (\<And>a. Q a \<Longrightarrow> R a) \<Longrightarrow> ends m E R"
  unfolding ends_def by (auto split: sum.splits)

lemma ends_give: "Q a \<Longrightarrow> ends (give a) E Q"
  by (simp add: ends_def give_def)

lemma ends_choose: "(\<And>k. ends (f k) E Q) \<Longrightarrow> ends (\<lambda>s. f (g s) s) E Q"
  by (simp add: ends_def)

lemma ends_if: "ends m E Q \<Longrightarrow> ends n E Q \<Longrightarrow> ends (\<lambda>s. if c s then m s else n s) E Q"
  by (simp add: ends_def)

definition stops_only :: "spool_env \<Rightarrow> bool" where
  "stops_only env \<longleftrightarrow> (\<forall>n e. sv_stop env n = Some e \<longrightarrow> stops e)"

lemma ends_inspect:
  assumes "stops_only env"
  shows "ends (control_check env) stops (\<lambda>_. True)" "ends (inspect_entry env) stops (\<lambda>_. True)"
proof -
  show check: "ends (control_check env) stops (\<lambda>_. True)"
    using assms by (auto simp: ends_def control_check_def stops_only_def Let_def split: option.split)
  show "ends (inspect_entry env) stops (\<lambda>_. True)"
    unfolding inspect_entry_def by (rule ends_andthen [OF check]) (simp add: ends_def Let_def)
qed

lemma ends_noting: "ends (noting name m issues) stops (\<lambda>is. set issues \<subseteq> set is)"
  by (auto simp: ends_def noting_def split: prod.split sum.split)

lemma ends_record: "ends (record_quarantine n p) stops (\<lambda>_. True)"
  by (simp add: ends_def record_quarantine_def record_issue_def)

text \<open>The names that no reconciliation reads.\<close>

definition abandoned :: "string \<Rightarrow> bool" where
  "abandoned name \<longleftrightarrow> has_prefix name ''.artifact-cleanup-quarantine-''"

lemma has_prefixE: "has_prefix name p \<Longrightarrow> \<exists>x. name = p @ x"
  unfolding has_prefix_def by (metis append_take_drop_id)

lemma abandoned_names:
  assumes "abandoned name"
  shows "\<not> has_prefix name ''intent-''" "\<not> has_prefix name INTENT_QUARANTINE"
proof -
  obtain x where "name = ''.artifact-cleanup-quarantine-'' @ x" using assms has_prefixE unfolding abandoned_def by blast
  then show "\<not> has_prefix name ''intent-''" "\<not> has_prefix name INTENT_QUARANTINE"
    by (simp_all add: has_prefix_def INTENT_QUARANTINE_def)
qed

lemma abandoned_is_an_issue:
  assumes "abandoned name"
  shows "ends (noting name (andthen (read_intent env name) f) issues) stops (\<lambda>is. is \<noteq> [])"
proof -
  have "read_intent env name = fail_with (Spool_Fail ''ValueError'' ''artifact intent name is invalid'')"
    using abandoned_names(1) [OF assms] by (simp add: read_intent_def)
  then show ?thesis by (simp add: ends_def noting_def andthen_def fail_with_def)
qed

lemma ends_entries:
  assumes "stops_only env"
  shows "ends (reconcile_entries env relevant names issues) stops
    (\<lambda>is. set issues \<subseteq> set is \<and> ((\<exists>n \<in> set names. abandoned n) \<longrightarrow> is \<noteq> []))"
proof (induction names arbitrary: issues)
  case Nil
  then show ?case by (simp add: ends_give)
next
  case (Cons name names)
  show ?case
  proof (cases "has_prefix name INTENT_QUARANTINE")
    case True
    then have "\<not> abandoned name" using abandoned_names(2) by blast
    then show ?thesis
      using True by (simp, intro ends_andthen [OF ends_inspect(2) [OF assms]] ends_andthen [OF ends_record]
          ends_weaken [OF Cons.IH]) auto
  next
    case False
    have noted: "ends (noting name (andthen (read_intent env name) (\<lambda>i. if relevant i then reconcile_intent env i else give ())) issues)
        stops (\<lambda>is. set issues \<subseteq> set is \<and> (abandoned name \<longrightarrow> is \<noteq> []))"
      (is "ends ?m stops _")
    proof (cases "abandoned name")
      case True
      have "ends ?m stops (\<lambda>is. set issues \<subseteq> set is)" "ends ?m stops (\<lambda>is. is \<noteq> [])"
        by (rule ends_noting, rule abandoned_is_an_issue [OF True])
      then show ?thesis unfolding ends_def by (auto split: sum.splits)
    next
      case False
      then show ?thesis by (intro ends_weaken [OF ends_noting]) simp
    qed
    show ?thesis
      using False by (simp, intro ends_andthen [OF ends_inspect(2) [OF assms]] ends_andthen [OF noted]
          ends_weaken [OF Cons.IH]) auto
  qed
qed

lemma ends_row: "ends (row_artifact env row issues) stops (\<lambda>is. set issues \<subseteq> set is)"
proof -
  have "ends (noting n m issues) stops (\<lambda>is. set issues \<subseteq> set is)" for n m
    by (rule ends_noting)
  then show ?thesis unfolding row_artifact_def ends_def Let_def by (auto split: sum.splits)
qed

lemma ends_audit:
  assumes "stops_only env"
  shows "ends (audit_rows env rows issues) stops (\<lambda>is. set issues \<subseteq> set is)"
proof (induction rows arbitrary: issues)
  case (Cons row rows)
  show ?case
    by (simp, intro ends_andthen [OF ends_inspect(2) [OF assms]] ends_andthen [OF ends_row] ends_weaken [OF Cons.IH]) auto
qed (simp add: ends_give)

definition refused :: "spool_error \<Rightarrow> bool" where
  "refused e \<longleftrightarrow> stops e \<or> (\<exists>issues. issues \<noteq> [] \<and> e = Reconciliation_Error issues)"

lemma ends_raise: "is \<noteq> [] \<Longrightarrow> ends (raise_issues is) refused (\<lambda>_. False)"
proof -
  assume "is \<noteq> []"
  then have "sort is \<noteq> []" by (metis length_0_conv length_sort)
  with \<open>is \<noteq> []\<close> show ?thesis by (simp add: ends_def raise_issues_def fail_with_def refused_def)
qed

lemma ends_refused: "ends m stops Q \<Longrightarrow> ends m refused Q"
  unfolding ends_def refused_def by (auto split: sum.splits)

lemma relevant_refused:
  assumes env: "stops_only env" and n: "n \<in> fst ` set (sp_intents s)" "abandoned n"
    and run: "reconcile_relevant_sync env artifact execution s = (r, t)"
  shows "\<exists>e. r = Inl e \<and> refused e"
proof -
  have row: "ends (\<lambda>s. case artifact_upload a (sp_db s) of None \<Rightarrow> (Inr is, s) | Some row \<Rightarrow> row_artifact env row is s) refused (\<lambda>is. is \<noteq> [])"
    if "is \<noteq> []" for a "is"
    using ends_row [of env _ "is"] that unfolding ends_def refused_def by (force split: option.split sum.splits)
  have all: "ends (andthen (reconcile_entries env (relevant_to artifact execution) (map fst (sp_intents s)) []) (\<lambda>issues.
     andthen (case artifact of
         None \<Rightarrow> give issues
       | Some a \<Rightarrow> andthen (inspect_entry env) (\<lambda>_ s.
           case artifact_upload a (sp_db s) of None \<Rightarrow> (Inr issues, s) | Some row \<Rightarrow> row_artifact env row issues s)) (\<lambda>issues'.
       raise_issues issues'))) refused (\<lambda>_. False)"
  proof (rule ends_andthen [OF ends_refused [OF ends_entries [OF env]]])
    fix issues :: "string list"
    assume "set [] \<subseteq> set issues \<and> ((\<exists>n \<in> set (map fst (sp_intents s)). abandoned n) \<longrightarrow> issues \<noteq> [])"
    then have "issues \<noteq> []" using n by auto
    then show "ends (andthen (case artifact of
         None \<Rightarrow> give issues
       | Some a \<Rightarrow> andthen (inspect_entry env) (\<lambda>_ s.
           case artifact_upload a (sp_db s) of None \<Rightarrow> (Inr issues, s) | Some row \<Rightarrow> row_artifact env row issues s)) (\<lambda>issues'.
       raise_issues issues')) refused (\<lambda>_. False)"
      by (intro ends_andthen [where Q = "\<lambda>is. is \<noteq> []"] ends_raise)
        (cases artifact, simp_all add: ends_give, rule ends_andthen [OF ends_refused [OF ends_inspect(2) [OF env]]], rule row)
  qed
  have "case fst (reconcile_relevant_sync env artifact execution s) of Inl e \<Rightarrow> refused e | Inr a \<Rightarrow> False"
    using all unfolding reconcile_relevant_sync_def ends_def by (rule spec)
  then have "case fst (r, t) of Inl e \<Rightarrow> refused e | Inr a \<Rightarrow> False" unfolding run .
  then show ?thesis by (cases r) auto
qed

lemma startup_refused:
  assumes env: "stops_only env" and n: "n \<in> fst ` set (sp_intents s)" "abandoned n"
    and run: "reconcile_startup_sync env s = (r, t)"
  shows "\<exists>e. r = Inl e \<and> refused e"
proof -
  have audit: "ends (andthen (audit_rows env rows is) raise_issues) refused (\<lambda>_. False)" if "is \<noteq> []" for rows "is"
    by (rule ends_andthen [OF ends_refused [OF ends_audit [OF env]]]) (rule ends_raise, use that in auto)
  have listed: "\<exists>rows. artifact_uploads [Pending, In_Flight, Upload_Failed] (min 10000 (max 1 k)) db = Inr rows" for k db
    by (simp add: artifact_uploads_def)
  have limited: "ends (andthen (control_check env) (\<lambda>_ s. if c s then (Inl Recon_Limit, s)
      else andthen (control_check env) (\<lambda>_ s.
        case artifact_uploads [Pending, In_Flight, Upload_Failed] (min 10000 (max 1 k)) (sp_db s) of
          Inl e \<Rightarrow> (Inl (store_error e), s)
        | Inr rows \<Rightarrow> andthen (audit_rows env rows is) raise_issues s) s)) refused (\<lambda>_. False)"
    if "is \<noteq> []" for c k "is"
  proof (rule ends_andthen [OF ends_refused [OF ends_inspect(1) [OF env]]], rule ends_if)
    show "ends (\<lambda>s. (Inl Recon_Limit, s)) refused (\<lambda>_. False)" by (simp add: ends_def refused_def)
    show "ends (andthen (control_check env) (\<lambda>_ s.
        case artifact_uploads [Pending, In_Flight, Upload_Failed] (min 10000 (max 1 k)) (sp_db s) of
          Inl e \<Rightarrow> (Inl (store_error e), s)
        | Inr rows \<Rightarrow> andthen (audit_rows env rows is) raise_issues s)) refused (\<lambda>_. False)"
    proof (rule ends_andthen [OF ends_refused [OF ends_inspect(1) [OF env]]])
      show "ends (\<lambda>s. case artifact_uploads [Pending, In_Flight, Upload_Failed] (min 10000 (max 1 k)) (sp_db s) of
          Inl e \<Rightarrow> (Inl (store_error e), s)
        | Inr rows \<Rightarrow> andthen (audit_rows env rows is) raise_issues s) refused (\<lambda>_. False)"
        unfolding ends_def
      proof
        fix s :: spool
        obtain rows where "artifact_uploads [Pending, In_Flight, Upload_Failed] (min 10000 (max 1 k)) (sp_db s) = Inr rows"
          using listed by blast
        then show "case fst (case artifact_uploads [Pending, In_Flight, Upload_Failed] (min 10000 (max 1 k)) (sp_db s) of
            Inl e \<Rightarrow> (Inl (store_error e), s)
          | Inr rows \<Rightarrow> andthen (audit_rows env rows is) raise_issues s) of Inl e \<Rightarrow> refused e | Inr a \<Rightarrow> False"
          using audit [OF that, of rows] unfolding ends_def by (simp del: artifact_uploads_def)
      qed
    qed
  qed
  have all: "ends (andthen (reconcile_entries env (\<lambda>_. True) (map fst (sp_intents s)) []) (\<lambda>issues s.
       let remaining = max 1 (int (rc_max_entries (sp_control s)) - int (rc_entries (sp_control s)));
           active = [Pending, In_Flight, Upload_Failed] in
       andthen (control_check env) (\<lambda>_ s.
         if int (row_count (\<lambda>r. ob_state r \<in> set active) (t_uploads (sp_db s))) > remaining then (Inl Recon_Limit, s)
         else andthen (control_check env) (\<lambda>_ s.
           (case artifact_uploads active (min 10000 remaining) (sp_db s) of
              Inl e \<Rightarrow> (Inl (store_error e), s)
            | Inr rows \<Rightarrow> andthen (audit_rows env rows issues) raise_issues s)) s) s)) refused (\<lambda>_. False)"
  proof (rule ends_andthen [OF ends_refused [OF ends_entries [OF env]]])
    fix issues :: "string list"
    assume "set [] \<subseteq> set issues \<and> ((\<exists>n \<in> set (map fst (sp_intents s)). abandoned n) \<longrightarrow> issues \<noteq> [])"
    then have found: "issues \<noteq> []" using n by auto
    show "ends (\<lambda>s.
       let remaining = max 1 (int (rc_max_entries (sp_control s)) - int (rc_entries (sp_control s)));
           active = [Pending, In_Flight, Upload_Failed] in
       andthen (control_check env) (\<lambda>_ s.
         if int (row_count (\<lambda>r. ob_state r \<in> set active) (t_uploads (sp_db s))) > remaining then (Inl Recon_Limit, s)
         else andthen (control_check env) (\<lambda>_ s.
           (case artifact_uploads active (min 10000 remaining) (sp_db s) of
              Inl e \<Rightarrow> (Inl (store_error e), s)
            | Inr rows \<Rightarrow> andthen (audit_rows env rows issues) raise_issues s)) s) s) refused (\<lambda>_. False)"
      unfolding ends_def Let_def
      by (intro allI, rule limited [OF found, unfolded ends_def, THEN spec])
  qed
  have "case fst (reconcile_startup_sync env s) of Inl e \<Rightarrow> refused e | Inr a \<Rightarrow> False"
    using all unfolding reconcile_startup_sync_def ends_def by (rule spec)
  then have "case fst (r, t) of Inl e \<Rightarrow> refused e | Inr a \<Rightarrow> False" unfolding run .
  then show ?thesis by (cases r) auto
qed

lemma andthen_fails: "m s = (Inl e, t) \<Longrightarrow> andthen m f s = (Inl e, t)"
  by (simp add: andthen_def)

lemma staging_refused:
  assumes env: "stops_only env" and n: "n \<in> fst ` set (sp_intents s)" "abandoned n"
    and run: "stage_exclusive env rq s = (r, t)"
  shows "\<exists>e. r = Inl e \<and> refused e"
proof -
  let ?s = "s\<lparr>sp_control := new_control (sp_control s)\<rparr>"
  obtain r1 t1 where relevant: "reconcile_relevant_sync env (json_text (field (JObj (rq_manifest rq)) ''artifact_id''))
         (json_text (field (JObj (rq_manifest rq)) ''execution_id'')) ?s = (r1, t1)" by fastforce
  then obtain e where e: "r1 = Inl e" "refused e" using relevant_refused [OF env _ n(2) relevant] n(1) by auto
  have "reconcile_and_find_existing env (rq_manifest rq) (rq_task rq) s = (Inl e, t1)"
    unfolding reconcile_and_find_existing_def by (rule andthen_fails) (use relevant e(1) in simp)
  then have "stage_exclusive env rq s = (Inl e, t1)"
    unfolding stage_exclusive_def by (rule andthen_fails)
  then show ?thesis using run e(2) by simp
qed

end
