(* ===== verification/Artifact_Demo.thy ===== *)
theory Artifact_Demo
  imports Artifact_Blocked Capture_Demo
begin

text \<open>
  A staging on concrete values, for the instances of the properties.
\<close>

definition demo_spool_env :: spool_env where
  "demo_spool_env = \<lparr>sv_python = demo_python, sv_valid = (\<lambda>_. True), sv_token = (\<lambda>n. replicate (n + 1) CHR ''a''),
     sv_upload_id = (\<lambda>n. replicate (n + 1) CHR ''d''), sv_now = ''2026-01-01T00:00:00Z'',
     sv_quarantine = (\<lambda>_. Quarantined), sv_stop = (\<lambda>_. None)\<rparr>"

definition demo_supplied :: "(string \<times> json) list" where
  "demo_supplied = [(''artifact_id'', JStr ''k''), (''execution_id'', JStr ''e''), (''artifact_type'', JStr ''pcapng''),
     (''media_type'', JStr ''m''), (''size_bytes'', JInt 0), (''sha256'', JStr '''')]"

definition demo_calm :: signal where
  "demo_calm = \<lparr>sg_request = False, sg_cancelled = False, sg_expired = False\<rparr>"

definition demo_request :: "(nat \<Rightarrow> signal) \<Rightarrow> stage_request" where
  "demo_request signals = \<lparr>rq_manifest = demo_supplied, rq_task = ''t'', rq_maximum = 100,
     rq_source = \<lparr>so_error = None, so_regular = True, so_links = 1, so_size = 3, so_owned = True, so_private = True,
       so_expected = True, so_chunks = [''ab'', ''c''], so_stable = True\<rparr>,
     rq_authority = None, rq_synced = True, rq_callback = None, rq_signals = signals\<rparr>"

definition demo_control :: control where
  "demo_control = \<lparr>rc_entries = 0, rc_bytes = 0, rc_checks = 0, rc_max_entries = 100, rc_max_bytes = 100000\<rparr>"

definition demo_inbox_row :: inbox_task where
  "demo_inbox_row = \<lparr>it_task_id = ''t'', it_execution_id = ''e'', it_key = ''k'', it_task_type = ''c'',
     it_task_type_version = ''1'', it_payload = '''', it_payload_hash = '''', it_effect_hash = '''', it_canonical = None,
     it_state = Running, it_reason = None, it_received_at = '''', it_expires_at = '''', it_updated_at = ''''\<rparr>"

definition demo_spool :: spool where
  "demo_spool = \<lparr>sp_outbox = [], sp_intents = [], sp_db = empty_store\<lparr>t_inbox := [demo_inbox_row]\<rparr>, sp_issues = [], sp_fresh = 0,
     sp_crash = None, sp_control = demo_control, sp_tx = new_tx, sp_ops = 0\<rparr>"

definition demo_cancelled :: "nat \<Rightarrow> signal" where
  "demo_cancelled n = demo_calm\<lparr>sg_request := n = 3\<rparr>"

definition demo_final :: json where
  "demo_final = JObj [(''artifact_id'', JStr ''k''), (''execution_id'', JStr ''e''), (''artifact_type'', JStr ''pcapng''),
     (''media_type'', JStr ''m''), (''size_bytes'', JInt 3), (''sha256'', JStr (replicate 64 CHR ''b''))]"

definition demo_text :: string where
  "demo_text = ascii_json (intent_json demo_spool_env ''t'' ''.staging-a'' ''artifact-aa.pcapng'' demo_final None)"

lemma demo_final_manifest: "final_manifest demo_spool_env (demo_request signals) ''abc'' = demo_final"
  by (simp add: final_manifest_def set_member_def demo_request_def demo_supplied_def demo_spool_env_def demo_python_def
      demo_final_def)

lemma demo_text_size: "length demo_text \<le> 1048576"
proof -
  let ?e = "intent_json demo_spool_env ''t'' ''.staging-a'' ''artifact-aa.pcapng'' demo_final None"
  have "json_ascii ?e"
    by (simp add: intent_json_def demo_spool_env_def demo_final_def field_def ascii_text_def)
  then have "length demo_text \<le> json_bound ?e" by (simp add: demo_text_def ascii_canonical length_canonical)
  also have "\<dots> \<le> 1048576"
    by (simp add: intent_json_def demo_spool_env_def demo_final_def field_def)
  finally show ?thesis .
qed

section \<open>The steps of the staging\<close>

lemma demo_spool_facts:
  "sv_valid demo_spool_env x" "sv_token demo_spool_env n = replicate (n + 1) CHR ''a''"
  "sv_quarantine demo_spool_env n = Quarantined" "py_sha (sv_python demo_spool_env) = py_sha demo_python"
  "sv_upload_id demo_spool_env n = replicate (n + 1) CHR ''d''" "sv_now demo_spool_env = ''2026-01-01T00:00:00Z''"
  by (simp_all add: demo_spool_env_def)

definition demo_found :: spool where
  "demo_found = demo_spool\<lparr>sp_control := demo_control\<lparr>rc_entries := 1, rc_checks := 2\<rparr>\<rparr>"

definition demo_staged :: spool where
  "demo_staged = demo_found\<lparr>sp_fresh := 3, sp_ops := 3, sp_outbox := [(''.staging-a'', private_file ''abc'' 256)],
     sp_intents := [(''intent-aaa.json'', private_file demo_text 384)]\<rparr>"

definition demo_intent :: artifact_intent where
  "demo_intent = \<lparr>in_name = ''intent-aaa.json'', in_temporary = ''.staging-a'', in_final = ''artifact-aa.pcapng'',
     in_task = ''t'', in_manifest = demo_final, in_authority = None\<rparr>"

lemma demo_finds: "reconcile_and_find_existing demo_spool_env demo_supplied ''t'' demo_spool = (Inr None, demo_found)"
  by (simp add: reconcile_and_find_existing_def andthen_def reconcile_relevant_sync_def demo_spool_def give_def
      demo_supplied_def field_def inspect_entry_def control_check_def demo_spool_env_def Let_def demo_control_def
      new_control_def artifact_upload_def find_upload_def empty_store_def raise_issues_def existing_staged_def demo_found_def)

lemmas demo_steps = andthen_def give_def require_def durably_def transact_def tx_check_def change_entry_def
  update_directory_def private_file_def Let_def demo_spool_def demo_found_def new_tx_def

lemma demo_writes:
  "write_intent demo_spool_env True ''t'' ''.staging-a'' ''artifact-aa.pcapng'' demo_final None
     (demo_staged\<lparr>sp_fresh := 2, sp_intents := []\<rparr>) = (Inr demo_intent, demo_staged)"
  unfolding write_intent_def demo_text_def [symmetric] Let_def
  using demo_text_size
  by (simp add: demo_text_def [symmetric] demo_steps demo_staged_def demo_intent_def fresh_token_def demo_spool_facts
      create_entry_def entries_of_def lookup_def MAXIMUM_INTENT_BYTES_def numeral_3_eq_3)

lemma demo_copies:
  assumes "\<And>n. n < 3 \<Longrightarrow> signals n = demo_calm"
  shows "stage_copy demo_spool_env (demo_request signals) ''.staging-a'' ''artifact-aa.pcapng''
     (demo_found\<lparr>sp_fresh := 2, sp_outbox := [(''.staging-a'', private_file [] 384)]\<rparr>) = (Inr demo_intent, demo_staged)"
proof -
  have calm: "signals 0 = demo_calm" "signals (Suc 0) = demo_calm" "signals (Suc (Suc 0)) = demo_calm" by (simp_all add: assms)
  have "copy_chunks (demo_request signals) ''.staging-a'' 0 [''ab'', ''c'']
      (demo_found\<lparr>sp_fresh := 2, sp_outbox := [(''.staging-a'', private_file [] 384)]\<rparr>)
    = (Inr 3, demo_found\<lparr>sp_fresh := 2, sp_ops := 3, sp_outbox := [(''.staging-a'', private_file ''abc'' 384)]\<rparr>)"
    by (simp add: demo_steps demo_request_def calm demo_calm_def)
  then show ?thesis
    using demo_writes demo_final_manifest [of signals]
    by (simp add: stage_copy_def andthen_def demo_request_def require_def demo_spool_facts Let_def change_entry_def durably_def
        demo_found_def demo_spool_def update_directory_def private_file_def demo_staged_def)
qed

definition demo_abandoned :: spool where
  "demo_abandoned = demo_staged\<lparr>sp_fresh := 5, sp_ops := 4, sp_tx := aborted_tx new_tx,
     sp_outbox := [(''.artifact-cleanup-quarantine-aaaa'', private_file ''abc'' 256)],
     sp_intents := [(''.artifact-cleanup-quarantine-aaaaa'', private_file demo_text 384)],
     sp_issues := [''artifact_cleanup:physical_delete_pending:.artifact-cleanup-quarantine-aaaa'',
       ''artifact_cleanup:physical_delete_pending:.artifact-cleanup-quarantine-aaaaa'']\<rparr>"

lemma demo_cleans:
  "stage_publish demo_spool_env (demo_request demo_cancelled) demo_intent demo_staged
     = (Inl Staging_Cancelled, demo_staged\<lparr>sp_ops := 4, sp_tx := aborted_tx new_tx\<rparr>)"
  "andthen (clean_up demo_spool_env Outbox ''.staging-a'') (\<lambda>_. clean_up demo_spool_env Intents ''intent-aaa.json'')
     (demo_staged\<lparr>sp_ops := 4, sp_tx := aborted_tx new_tx\<rparr>) = (Inr (), demo_abandoned)"
  subgoal
    by (simp add: stage_publish_def andthen_def raises_def demo_request_def give_def transact_def demo_staged_def
        demo_found_def demo_spool_def demo_cancelled_def demo_calm_def request_cancel_def new_tx_def tx_ready_def
        tx_move_def aborted_tx_def)
  subgoal
    by (simp add: clean_up_def andthen_def give_def logical_quarantine_def fresh_token_def demo_staged_def demo_found_def
        demo_spool_def demo_spool_facts entries_of_def lookup_def move_entry_def durably_def update_directory_def rename_entry_def
        record_quarantine_def record_issue_def demo_abandoned_def eval_nat_numeral)
  done

lemma andthen_step: "m s = (Inr a, t) \<Longrightarrow> andthen m f s = f a t"
  by (simp add: andthen_def)

lemma demo_stages:
  "stage_exclusive demo_spool_env (demo_request signals) demo_spool
   = andthen (guarded (stage_copy demo_spool_env (demo_request signals) ''.staging-a'' ''artifact-aa.pcapng'')
       (clean_up demo_spool_env Outbox ''.staging-a'')) (\<lambda>i.
     andthen (guarded (stage_publish demo_spool_env (demo_request signals) i)
       (andthen (clean_up demo_spool_env Outbox ''.staging-a'') (\<lambda>_. clean_up demo_spool_env Intents (in_name i)))) (\<lambda>_.
       stage_commit demo_spool_env (demo_request signals) i))
     (demo_found\<lparr>sp_fresh := 2, sp_outbox := [(''.staging-a'', private_file [] 384)]\<rparr>)"
proof -
  have found: "reconcile_and_find_existing demo_spool_env (rq_manifest (demo_request signals)) (rq_task (demo_request signals))
      demo_spool = (Inr None, demo_found)"
    using demo_finds by (simp add: demo_request_def)
  have start: "demo_found\<lparr>sp_tx := new_tx, sp_ops := 0\<rparr> = demo_found" by (simp add: demo_found_def demo_spool_def)
  have suffix: "suffix_of (JObj (rq_manifest (demo_request signals))) = ''.pcapng''"
    by (simp add: suffix_of_def demo_request_def demo_supplied_def field_def)
  have ready: "raises (so_error (rq_source (demo_request signals))) s = (Inr (), s)"
    "from_sum (validate_source (rq_source (demo_request signals)) (rq_maximum (demo_request signals))) s = (Inr (), s)"
    "require (so_expected (rq_source (demo_request signals))) e s = (Inr (), s)" for s e
    by (simp_all add: raises_def give_def from_sum_def validate_source_def require_def demo_request_def)
  have tokens: "fresh_token demo_spool_env demo_found = (Inr ''a'', demo_found\<lparr>sp_fresh := 1\<rparr>)"
    "fresh_token demo_spool_env (demo_found\<lparr>sp_fresh := 1\<rparr>) = (Inr ''aa'', demo_found\<lparr>sp_fresh := 2\<rparr>)"
    by (simp_all add: fresh_token_def demo_spool_facts demo_found_def demo_spool_def)
  have create: "create_entry Outbox ''.staging-a'' (demo_found\<lparr>sp_fresh := 2\<rparr>)
      = (Inr (), demo_found\<lparr>sp_fresh := 2, sp_outbox := [(''.staging-a'', private_file [] 384)]\<rparr>)"
    by (simp add: create_entry_def entries_of_def lookup_def durably_def update_directory_def demo_found_def demo_spool_def)
  have exclusive: "stage_exclusive demo_spool_env (demo_request signals) demo_spool
      = stage_sync demo_spool_env (demo_request signals) demo_found"
    unfolding stage_exclusive_def by (subst andthen_step, rule found) (simp add: start)
  show ?thesis
    unfolding exclusive stage_sync_def Let_def suffix
    by (subst andthen_step, rule ready(1), subst andthen_step, rule ready(2), subst andthen_step, rule ready(3),
        subst andthen_step, rule tokens(1), subst andthen_step, rule tokens(2))
      (subst andthen_step, use create in simp, simp)
qed

lemma demo_after_copy:
  assumes "\<And>n. n < 3 \<Longrightarrow> signals n = demo_calm"
  shows "stage_exclusive demo_spool_env (demo_request signals) demo_spool
   = andthen (guarded (stage_publish demo_spool_env (demo_request signals) demo_intent)
       (andthen (clean_up demo_spool_env Outbox ''.staging-a'') (\<lambda>_. clean_up demo_spool_env Intents ''intent-aaa.json''))) (\<lambda>_.
       stage_commit demo_spool_env (demo_request signals) demo_intent) demo_staged"
proof -
  have copy: "guarded (stage_copy demo_spool_env (demo_request signals) ''.staging-a'' ''artifact-aa.pcapng'')
       (clean_up demo_spool_env Outbox ''.staging-a'')
     (demo_found\<lparr>sp_fresh := 2, sp_outbox := [(''.staging-a'', private_file [] 384)]\<rparr>) = (Inr demo_intent, demo_staged)"
    using demo_copies [OF assms] by (simp add: guarded_def)
  have name: "in_name demo_intent = ''intent-aaa.json''" by (simp add: demo_intent_def)
  show ?thesis unfolding demo_stages by (subst andthen_step, rule copy) (simp only: name)
qed

lemma demo_cancels:
  "stage_exclusive demo_spool_env (demo_request demo_cancelled) demo_spool = (Inl Staging_Cancelled, demo_abandoned)"
proof -
  have "guarded (stage_publish demo_spool_env (demo_request demo_cancelled) demo_intent)
       (andthen (clean_up demo_spool_env Outbox ''.staging-a'') (\<lambda>_. clean_up demo_spool_env Intents ''intent-aaa.json''))
       demo_staged = (Inl Staging_Cancelled, demo_abandoned)"
    using demo_cleans by (simp add: guarded_def)
  then show ?thesis
    by (intro trans [OF demo_after_copy andthen_fails]) (simp_all add: demo_cancelled_def demo_calm_def)
qed

definition demo_upload :: upload_row where
  "demo_upload = \<lparr>ob_id = replicate 4 CHR ''d'', ob_task_id = ''t'', ob_payload = canonical_json demo_final,
     ob_payload_hash = digest (py_sha demo_python) demo_final, ob_state = Pending, ob_attempts = 0,
     ob_next_attempt_at = ''2026-01-01T00:00:00Z'', ob_confirmed_at = None, ob_last_error = None,
     up_artifact_id = ''k'', up_relative_path = ''outbox/artifact-aa.pcapng'', up_media_type = ''m'', up_size_bytes = 3,
     up_sha256 = replicate 64 CHR ''b''\<rparr>"

definition demo_committed :: spool where
  "demo_committed = demo_staged\<lparr>sp_fresh := 5, sp_ops := 6, sp_tx := \<lparr>tx_state = Tx_Committed, tx_stop = False\<rparr>,
     sp_outbox := [(''artifact-aa.pcapng'', private_file ''abc'' 256)],
     sp_intents := [(''.artifact-intent-quarantine-aaaaa'', private_file demo_text 384)],
     sp_db := empty_store\<lparr>t_inbox := [demo_inbox_row], t_uploads := [demo_upload]\<rparr>,
     sp_issues := [''artifact_intent:physical_delete_pending:.artifact-intent-quarantine-aaaaa'']\<rparr>"

lemma demo_commits:
  "stage_exclusive demo_spool_env (demo_request (\<lambda>_. demo_calm)) demo_spool
   = (Inr (''outbox/artifact-aa.pcapng'', demo_final), demo_committed)"
proof -
  define s1 where "s1 = demo_staged\<lparr>sp_ops := 5, sp_tx := \<lparr>tx_state = Tx_Committing, tx_stop = False\<rparr>,
     sp_outbox := [(''artifact-aa.pcapng'', private_file ''abc'' 256)]\<rparr>"
  define s2 where "s2 = s1\<lparr>sp_fresh := 4, sp_db := empty_store\<lparr>t_inbox := [demo_inbox_row], t_uploads := [demo_upload]\<rparr>\<rparr>"
  let ?rq = "demo_request (\<lambda>_. demo_calm)"
  have publish: "guarded (stage_publish demo_spool_env ?rq demo_intent) c demo_staged = (Inr (), s1)" for c
    by (simp add: guarded_def stage_publish_def andthen_def raises_def demo_request_def give_def transact_def demo_staged_def
        demo_found_def demo_spool_def demo_calm_def new_tx_def tx_ready_def tx_begin_commit_def
        tx_move_def publish_without_overwrite_def lookup_def durably_def update_directory_def rename_entry_def
        demo_intent_def s1_def)
  have sha: "py_sha demo_python ''abc'' = replicate 64 CHR ''b''" by (simp add: demo_python_def)
  have manifest: "in_size demo_intent = 3" "in_sha256 demo_intent = replicate 64 CHR ''b''" "in_path demo_intent = ''outbox/artifact-aa.pcapng''"
    by (simp_all add: in_size_def in_sha256_def in_path_def demo_intent_def demo_final_def field_def text_member_def)
  have validate: "validate_named_artifact demo_spool_env False (in_final demo_intent) (in_size demo_intent) (in_sha256 demo_intent) s1
      = (Inr (), s1)"
    unfolding manifest
    by (simp add: validate_named_artifact_def andthen_def open_entry_def entries_of_def lookup_def from_sum_def
        validate_private_file_def require_def give_def demo_spool_facts sha s1_def demo_intent_def private_file_def)
  have hashes: "length (digest (py_sha demo_python) demo_final) = 64"
    using demo_sha by (simp add: digest_def sha_ok_def hex_text_def)
  have path: "as_posix ''outbox/artifact-aa.pcapng'' = ''outbox/artifact-aa.pcapng''"
    "path_parts ''outbox/artifact-aa.pcapng'' = [''outbox'', ''artifact-aa.pcapng'']"
    by (simp_all add: as_posix_def path_parts_def)
  have queue: "queue_intent demo_spool_env demo_intent s1 = (Inr (), s2)"
    unfolding queue_intent_def ensure_artifact_queued_def manifest
    using hashes
    by (simp add: path demo_spool_facts s1_def s2_def demo_staged_def demo_found_def demo_spool_def empty_store_def find_upload_def
        is_absolute_def insert_upload_def task_exists_def demo_inbox_row_def durably_def demo_upload_def demo_intent_def
        demo_final_def text_member_def field_def eval_nat_numeral)
  have retire: "retire_intent demo_spool_env demo_intent s2
      = (Inr (), demo_committed\<lparr>sp_ops := 5, sp_tx := \<lparr>tx_state = Tx_Committing, tx_stop = False\<rparr>\<rparr>)"
    by (simp add: retire_intent_def quarantine_or_fail_def andthen_def give_def logical_quarantine_def fresh_token_def
        s2_def s1_def demo_staged_def demo_found_def demo_spool_def demo_spool_facts entries_of_def lookup_def move_entry_def
        durably_def update_directory_def rename_entry_def record_quarantine_def record_issue_def demo_committed_def
        demo_intent_def eval_nat_numeral)
  have commit: "stage_commit demo_spool_env ?rq demo_intent s1 = (Inr (''outbox/artifact-aa.pcapng'', demo_final), demo_committed)"
    unfolding stage_commit_def
    by (subst andthen_step, rule validate, subst andthen_step, rule queue, subst andthen_step, rule retire)
      (simp add: andthen_def transact_def demo_request_def demo_calm_def tx_committed_def give_def manifest
        demo_committed_def demo_staged_def demo_found_def demo_spool_def demo_intent_def in_path_def)
  have run: "stage_exclusive demo_spool_env ?rq demo_spool
   = andthen (guarded (stage_publish demo_spool_env ?rq demo_intent)
       (andthen (clean_up demo_spool_env Outbox ''.staging-a'') (\<lambda>_. clean_up demo_spool_env Intents ''intent-aaa.json''))) (\<lambda>_.
       stage_commit demo_spool_env ?rq demo_intent) demo_staged"
    by (rule demo_after_copy) (rule refl)
  show ?thesis unfolding run by (subst andthen_step, rule publish) (rule commit)
qed

end
