(* ===== verification/Artifact_Recovery.thy ===== *)
theory Artifact_Recovery
  imports Artifact_Demo
begin

text \<open>
  Finishing an interrupted capture: its durable intent, with the bytes under the temporary or the final name,
  is enough to publish the artifact and to queue it, however often the recovery itself is interrupted.
\<close>

section \<open>Checks that pass\<close>

definition spent :: "nat \<Rightarrow> spool \<Rightarrow> spool \<Rightarrow> bool" where
  "spent n s t \<longleftrightarrow> held t = held s \<and> sp_crash t = sp_crash s \<and> sp_fresh t = sp_fresh s
     \<and> rc_max_bytes (sp_control t) = rc_max_bytes (sp_control s)
     \<and> rc_bytes (sp_control t) = rc_bytes (sp_control s) + n"

lemma spent_trans: "spent m s t \<Longrightarrow> spent n t u \<Longrightarrow> spent (m + n) s u"
  by (simp add: spent_def)

definition unstopped :: "spool_env \<Rightarrow> bool" where
  "unstopped env \<longleftrightarrow> (\<forall>n. sv_stop env n = None) \<and> (\<forall>n. sv_quarantine env n = Quarantined)"

lemma control_passes:
  assumes "unstopped env"
  shows "\<exists>t. control_check env s = (Inr (), t) \<and> spent 0 s t"
  using assms by (auto simp: unstopped_def control_check_def Let_def spent_def held_def)

lemma bytes_pass:
  assumes "unstopped env" "rc_bytes (sp_control s) + n \<le> rc_max_bytes (sp_control s)"
  shows "\<exists>t. inspect_bytes env n s = (Inr (), t) \<and> spent n s t"
  using assms by (auto simp: unstopped_def inspect_bytes_def andthen_def control_check_def Let_def spent_def held_def)

lemma charge_passes:
  "unstopped env \<Longrightarrow> rc_bytes (sp_control s) + n \<le> rc_max_bytes (sp_control s)
   \<Longrightarrow> \<exists>t. charge_bytes env n s = (Inr (), t) \<and> spent n s t"
proof (induction env n arbitrary: s rule: charge_bytes.induct)
  case (1 env n)
  show ?case
  proof (cases "n = 0")
    case True
    then show ?thesis using control_passes [OF 1(2)] by (simp add: charge_bytes.simps)
  next
    case False
    obtain t where t: "control_check env s = (Inr (), t)" "spent 0 s t" using control_passes [OF 1(2)] by blast
    have "rc_bytes (sp_control t) + min n CHUNK \<le> rc_max_bytes (sp_control t)" using t(2) 1(3) by (simp add: spent_def)
    then obtain u where u: "inspect_bytes env (min n CHUNK) t = (Inr (), u)" "spent (min n CHUNK) t u"
      using bytes_pass [OF 1(2)] by blast
    have "rc_bytes (sp_control u) + (n - CHUNK) \<le> rc_max_bytes (sp_control u)"
      using t(2) u(2) 1(3) by (auto simp: spent_def min_def)
    then obtain v where v: "charge_bytes env (n - CHUNK) u = (Inr (), v)" "spent (n - CHUNK) u v"
      using 1(1) [OF False 1(2)] by blast
    have "spent (0 + (min n CHUNK + (n - CHUNK))) s v" by (rule spent_trans [OF t(2) spent_trans [OF u(2) v(2)]])
    moreover have "0 + (min n CHUNK + (n - CHUNK)) = n" by simp
    ultimately show ?thesis
      using False t(1) u(1) v(1) by (subst charge_bytes.simps) (simp add: andthen_def)
  qed
qed

lemma validated_passes:
  assumes "unstopped env" "stored (py_sha (sv_python env)) (sp_outbox s) name n h"
    and "rc_bytes (sp_control s) + nat n \<le> rc_max_bytes (sp_control s)"
  shows "\<exists>t. validate_named_artifact env True name n h s = (Inr (), t) \<and> spent (nat n) s t"
proof -
  obtain f where f: "lookup (sp_outbox s) name = Some f" "good_file (py_sha (sv_python env)) n h f"
    using assms(2) by (auto simp: stored_def)
  then have size: "nat n = length (sf_bytes f)" by (auto simp: good_file_def)
  obtain t where "charge_bytes env (length (sf_bytes f)) s = (Inr (), t)" "spent (nat n) s t"
    using charge_passes [OF assms(1,3)] unfolding size by blast
  moreover have "validate_private_file f 256 = Inr ()" using f(2) by (simp add: validate_private_iff good_file_def)
  ultimately show ?thesis
    using f by (auto simp: validate_named_artifact_def andthen_def open_entry_def entries_of_def from_sum_def
        good_file_def require_def)
qed

section \<open>What can be finished\<close>

definition row_of_intent :: "artifact_intent \<Rightarrow> upload_row \<Rightarrow> bool" where
  "row_of_intent i row \<longleftrightarrow> ob_task_id row = in_task i \<and> up_relative_path row = in_path i
     \<and> up_media_type row = text_member (in_manifest i) ''media_type'' \<and> up_size_bytes row = in_size i
     \<and> up_sha256 row = in_sha256 i \<and> ob_payload row = canonical_json (in_manifest i)"

definition queueable :: "spool_env \<Rightarrow> artifact_intent \<Rightarrow> store \<Rightarrow> bool" where
  "queueable env i db \<longleftrightarrow>
     (case find_upload db (in_artifact i) of
        Some row \<Rightarrow> row_of_intent i row
      | None \<Rightarrow> task_exists db (in_task i) \<and> (\<forall>n. sv_upload_id env n \<notin> ob_id ` set (t_uploads db)))"

definition intent_ok :: "spool_env \<Rightarrow> artifact_intent \<Rightarrow> bool" where
  "intent_ok env i \<longleftrightarrow> intent_names_ok i \<and> \<not> contains_dots (in_path i) \<and> length (in_sha256 i) = 64
     \<and> length (digest (py_sha (sv_python env)) (in_manifest i)) = 64 \<and> in_authority i \<noteq> None"

definition on_disk_once :: "spool_env \<Rightarrow> artifact_intent \<Rightarrow> directory \<Rightarrow> bool" where
  "on_disk_once env i d \<longleftrightarrow>
     (stored (py_sha (sv_python env)) d (in_temporary i) (in_size i) (in_sha256 i) \<and> lookup d (in_final i) = None)
   \<or> (stored (py_sha (sv_python env)) d (in_final i) (in_size i) (in_sha256 i) \<and> lookup d (in_temporary i) = None)"

definition finishable :: "spool_env \<Rightarrow> artifact_intent \<Rightarrow> spool \<Rightarrow> bool" where
  "finishable env i s \<longleftrightarrow> on_disk_once env i (sp_outbox s) \<and> queueable env i (sp_db s)
     \<and> lookup (sp_intents s) (in_name i) \<noteq> None
     \<and> (\<forall>n. lookup (sp_intents s) (INTENT_QUARANTINE @ sv_token env n) = None)"

definition finished :: "spool_env \<Rightarrow> artifact_intent \<Rightarrow> spool \<Rightarrow> bool" where
  "finished env i s \<longleftrightarrow> stored (py_sha (sv_python env)) (sp_outbox s) (in_final i) (in_size i) (in_sha256 i)
     \<and> (\<exists>row. find_upload (sp_db s) (in_artifact i) = Some row \<and> row_of_intent i row)
     \<and> lookup (sp_intents s) (in_name i) = None"

lemma finishable_held: "held t = held s \<Longrightarrow> finishable env i s \<Longrightarrow> finishable env i t"
  by (simp add: held_def finishable_def)

lemma find_appended: "find P (xs @ [x]) = (case find P xs of Some y \<Rightarrow> Some y | None \<Rightarrow> if P x then Some x else None)"
  by (induction xs) auto

lemma queue_passes:
  assumes i: "intent_ok env i" and q: "queueable env i db" and size: "in_size i \<ge> 0"
  shows "(\<exists>row. find_upload db (in_artifact i) = Some row \<and> row_of_intent i row
        \<and> ensure_artifact_queued (py_sha (sv_python env)) (sv_now env) (sv_upload_id env n) (in_task i) (in_path i)
          (text_member (in_manifest i) ''media_type'') (in_manifest i) db = (Inr False, db))
    \<or> (\<exists>row db'. find_upload db' (in_artifact i) = Some row \<and> row_of_intent i row
        \<and> ensure_artifact_queued (py_sha (sv_python env)) (sv_now env) (sv_upload_id env n) (in_task i) (in_path i)
          (text_member (in_manifest i) ''media_type'') (in_manifest i) db = (Inr True, db'))"
proof -
  have names: "intent_names_ok i" using i by (simp add: intent_ok_def)
  have path: "as_posix (in_path i) = in_path i" by (rule intent_path [OF names])
  have final: "CHR ''/'' \<notin> set (in_final i)" "in_final i \<noteq> []" "in_final i \<noteq> ''.''" "in_final i \<noteq> ''..''"
    using names by (auto simp: intent_names_ok_def has_prefix_def)
  have parts: "path_parts (in_path i) = [''outbox'', in_final i]"
    unfolding in_path_def by (rule outbox_parts [OF final(1-3)])
  have ok: "\<not> (is_absolute (in_path i) \<or> path_parts (in_path i) = [] \<or> ''..'' \<in> set (path_parts (in_path i)))"
    using final(4) by (auto simp: parts) (simp add: is_absolute_def in_path_def)
  show ?thesis
  proof (cases "find_upload db (in_artifact i)")
    case (Some row)
    then have "row_of_intent i row" using q by (simp add: queueable_def)
    then show ?thesis
      using Some ok path by (auto simp: ensure_artifact_queued_def row_of_intent_def in_artifact_def in_size_def in_sha256_def)
  next
    case None
    let ?row = "\<lparr>ob_id = sv_upload_id env n, ob_task_id = in_task i, ob_payload = canonical_json (in_manifest i),
       ob_payload_hash = digest (py_sha (sv_python env)) (in_manifest i), ob_state = Pending, ob_attempts = 0,
       ob_next_attempt_at = sv_now env, ob_confirmed_at = None, ob_last_error = None,
       up_artifact_id = in_artifact i, up_relative_path = in_path i,
       up_media_type = text_member (in_manifest i) ''media_type'', up_size_bytes = in_size i, up_sha256 = in_sha256 i\<rparr>"
    have new: "in_artifact i \<notin> up_artifact_id ` set (t_uploads db)"
      using None by (auto simp: find_upload_def find_None_iff)
    have "insert_upload ?row db = Some (db\<lparr>t_uploads := t_uploads db @ [?row]\<rparr>)"
      using None q new i size ok by (simp add: insert_upload_def queueable_def intent_ok_def)
    moreover have "find_upload (db\<lparr>t_uploads := t_uploads db @ [?row]\<rparr>) (in_artifact i) = Some ?row"
      using None by (simp add: find_upload_def find_appended)
    moreover have "row_of_intent i ?row" by (simp add: row_of_intent_def)
    ultimately show ?thesis
      using None ok path
      by (intro disjI2 exI [of _ ?row] exI [of _ "db\<lparr>t_uploads := t_uploads db @ [?row]\<rparr>"])
        (simp add: ensure_artifact_queued_def in_artifact_def in_size_def in_sha256_def)
  qed
qed

section \<open>An uninterrupted recovery\<close>

definition row_there :: "artifact_intent \<Rightarrow> store \<Rightarrow> bool" where
  "row_there i db \<longleftrightarrow> (\<exists>row. find_upload db (in_artifact i) = Some row \<and> row_of_intent i row)"

definition published :: "spool_env \<Rightarrow> artifact_intent \<Rightarrow> spool \<Rightarrow> bool" where
  "published env i s \<longleftrightarrow> stored (py_sha (sv_python env)) (sp_outbox s) (in_final i) (in_size i) (in_sha256 i)
     \<and> lookup (sp_outbox s) (in_temporary i) = None \<and> queueable env i (sp_db s)
     \<and> lookup (sp_intents s) (in_name i) \<noteq> None
     \<and> (\<forall>n. lookup (sp_intents s) (INTENT_QUARANTINE @ sv_token env n) = None)"

lemma published_held: "held t = held s \<Longrightarrow> published env i s \<Longrightarrow> published env i t"
  by (simp add: held_def published_def)

lemma lookup_renamed_away: "a \<noteq> b \<Longrightarrow> lookup (rename_entry a b d) a = None"
  by (induction d) (auto simp: lookup_def rename_entry_def split: if_splits)

lemma retire_passes:
  assumes env: "unstopped env" and s: "published env i s" "row_there i (sp_db s)" "sp_crash s = None"
  shows "\<exists>t. retire_intent env i s = (Inr (), t) \<and> finished env i t"
proof -
  let ?q = "INTENT_QUARANTINE @ sv_token env (sp_fresh s)"
  have free: "lookup (sp_intents s) ?q = None" and there: "lookup (sp_intents s) (in_name i) \<noteq> None"
    using s(1) by (simp_all add: published_def)
  then have "in_name i \<noteq> ?q" by auto
  note away = lookup_renamed_away [OF this, of "sp_intents s"]
  obtain t where "logical_quarantine env Intents (in_name i) INTENT_QUARANTINE s = (Inr (Some ?q), t)"
    and t: "sp_outbox t = sp_outbox s" "sp_db t = sp_db s" "sp_intents t = rename_entry (in_name i) ?q (sp_intents s)"
    using free there env s(3)
    by (auto simp: logical_quarantine_def fresh_token_def andthen_def entries_of_def unstopped_def move_entry_def
        durably_def give_def)
  then have "retire_intent env i s = record_quarantine ?q ''artifact_intent'' t"
    by (simp add: retire_intent_def quarantine_or_fail_def andthen_def INTENT_QUARANTINE_def)
  then obtain u where "retire_intent env i s = (Inr (), u)" "held u = held t"
    by (simp add: record_quarantine_def record_issue_def held_def)
  then show ?thesis
    using s(1,2) t away by (auto simp: finished_def published_def row_there_def held_def)
qed

lemma queue_step:
  assumes env: "intent_ok env i" and s: "published env i s" "sp_crash s = None"
  shows "\<exists>t. queue_intent env i s = (Inr (), t) \<and> published env i t \<and> row_there i (sp_db t) \<and> sp_crash t = None"
proof -
  have size: "in_size i \<ge> 0" and q: "queueable env i (sp_db s)"
    using s(1) by (auto simp: published_def stored_def good_file_def)
  from queue_passes [OF env q size, of "sp_fresh s"] show ?thesis
  proof (elim disjE exE conjE)
    fix row
    assume "find_upload (sp_db s) (in_artifact i) = Some row" "row_of_intent i row"
      "ensure_artifact_queued (py_sha (sv_python env)) (sv_now env) (sv_upload_id env (sp_fresh s)) (in_task i) (in_path i)
        (text_member (in_manifest i) ''media_type'') (in_manifest i) (sp_db s) = (Inr False, sp_db s)"
    then show ?thesis using s by (auto simp: queue_intent_def row_there_def)
  next
    fix row db'
    assume row: "find_upload db' (in_artifact i) = Some row" "row_of_intent i row"
      "ensure_artifact_queued (py_sha (sv_python env)) (sv_now env) (sv_upload_id env (sp_fresh s)) (in_task i) (in_path i)
        (text_member (in_manifest i) ''media_type'') (in_manifest i) (sp_db s) = (Inr True, db')"
    then show ?thesis
      using s by (auto simp: queue_intent_def row_there_def durably_def published_def queueable_def)
  qed
qed

lemma publish_step:
  assumes i: "intent_ok env i" and s: "finishable env i s" "lookup (sp_outbox s) (in_final i) = None" "sp_crash s = None"
  shows "\<exists>t. publish_without_overwrite (in_temporary i) (in_final i) s = (Inr (), t) \<and> published env i t \<and> sp_crash t = None
    \<and> sp_control t = sp_control s"
proof -
  have temp: "stored (py_sha (sv_python env)) (sp_outbox s) (in_temporary i) (in_size i) (in_sha256 i)"
    using s(1,2) by (auto simp: finishable_def on_disk_once_def stored_def)
  then obtain f where f: "lookup (sp_outbox s) (in_temporary i) = Some f"
      "good_file (py_sha (sv_python env)) (in_size i) (in_sha256 i) f" by (auto simp: stored_def)
  have ne: "in_temporary i \<noteq> in_final i" using f(1) s(2) by auto
  show ?thesis
    using f s lookup_renamed [OF f(1) s(2)] lookup_renamed_away [OF ne, of "sp_outbox s"]
    by (auto simp: publish_without_overwrite_def durably_def published_def finishable_def stored_def update_directory_def)
qed

lemma commit_passes:
  assumes env: "unstopped env" "intent_ok env i" and s: "published env i s" "sp_crash s = None"
    and budget: "rc_bytes (sp_control s) + nat (in_size i) \<le> rc_max_bytes (sp_control s)"
    and k: "\<And>t. published env i t \<Longrightarrow> row_there i (sp_db t) \<Longrightarrow> sp_crash t = None \<Longrightarrow> \<exists>u. k t = (Inr (), u) \<and> finished env i u"
  shows "\<exists>u. andthen (validate_named_artifact env True (in_final i) (in_size i) (in_sha256 i)) (\<lambda>_.
      andthen (control_check env) (\<lambda>_. andthen (queue_intent env i) (\<lambda>_. k))) s = (Inr (), u) \<and> finished env i u"
proof -
  have "stored (py_sha (sv_python env)) (sp_outbox s) (in_final i) (in_size i) (in_sha256 i)" using s(1) by (simp add: published_def)
  then obtain t where t: "validate_named_artifact env True (in_final i) (in_size i) (in_sha256 i) s = (Inr (), t)"
      "spent (nat (in_size i)) s t" using validated_passes [OF env(1) _ budget] by blast
  obtain u where u: "control_check env t = (Inr (), u)" "spent 0 t u" using control_passes [OF env(1)] by blast
  have "held u = held s" "sp_crash u = None" using t(2) u(2) s(2) by (simp_all add: spent_def)
  then obtain v where v: "queue_intent env i u = (Inr (), v)" "published env i v" "row_there i (sp_db v)" "sp_crash v = None"
    using queue_step [OF env(2) published_held [OF _ s(1)]] by blast
  show ?thesis using t(1) u(1) v(1) k [OF v(2-4)] by (simp add: andthen_def)
qed

lemma recovery_finishes:
  assumes env: "unstopped env" "intent_ok env i" and s: "finishable env i s" "sp_crash s = None"
    and budget: "rc_bytes (sp_control s) + 2 * nat (in_size i) \<le> rc_max_bytes (sp_control s)"
  shows "\<exists>t. reconcile_intent env i s = (Inr (), t) \<and> finished env i t"
proof -
  have retire: "\<exists>u. andthen (control_check env) (\<lambda>_. retire_intent env i) t = (Inr (), u) \<and> finished env i u"
    if t: "published env i t" "row_there i (sp_db t)" "sp_crash t = None" for t
  proof -
    obtain u where u: "control_check env t = (Inr (), u)" "spent 0 t u" using control_passes [OF env(1)] by blast
    then have "held u = held t" "sp_crash u = None" using t(3) by (simp_all add: spent_def)
    moreover have "row_there i (sp_db u)" using calculation t(2) by (simp add: held_def)
    ultimately show ?thesis using u(1) retire_passes [OF env(1) published_held [OF _ t(1)]] by (simp add: andthen_def)
  qed
  show ?thesis
  proof (cases "lookup (sp_outbox s) (in_final i)")
    case (Some f)
    then have pub: "published env i s" using s(1) by (auto simp: finishable_def on_disk_once_def published_def)
    have left: "\<exists>u. andthen (entry_exists (in_temporary i)) (\<lambda>leftover. andthen (if leftover
          then andthen (validate_owned_regular (in_temporary i)) (\<lambda>_. andthen (control_check env) (\<lambda>_. retire_temporary env i))
          else give ()) (\<lambda>_. andthen (control_check env) (\<lambda>_. retire_intent env i))) t = (Inr (), u) \<and> finished env i u"
      if t: "published env i t" "row_there i (sp_db t)" "sp_crash t = None" for t
      using retire [OF t] t(1) by (simp add: andthen_def entry_exists_def give_def published_def)
    have "rc_bytes (sp_control s) + nat (in_size i) \<le> rc_max_bytes (sp_control s)" using budget by simp
    note budget' = this
    have eq: "reconcile_intent env i s = andthen (validate_named_artifact env True (in_final i) (in_size i) (in_sha256 i)) (\<lambda>_.
        andthen (control_check env) (\<lambda>_. andthen (queue_intent env i) (\<lambda>_.
        andthen (entry_exists (in_temporary i)) (\<lambda>leftover. andthen (if leftover
          then andthen (validate_owned_regular (in_temporary i)) (\<lambda>_. andthen (control_check env) (\<lambda>_. retire_temporary env i))
          else give ()) (\<lambda>_. andthen (control_check env) (\<lambda>_. retire_intent env i)))))) s"
      unfolding reconcile_intent_def
      by (subst andthen_step, subst entry_exists_def, rule refl) (simp only: Some option.distinct simp_thms if_True)
    show ?thesis unfolding eq by (rule commit_passes [OF env pub s(2) budget']) (rule left)
  next
    case None
    have temp: "stored (py_sha (sv_python env)) (sp_outbox s) (in_temporary i) (in_size i) (in_sha256 i)"
      using s(1) None by (auto simp: finishable_def on_disk_once_def stored_def)
    have "rc_bytes (sp_control s) + nat (in_size i) \<le> rc_max_bytes (sp_control s)" using budget by simp
    then obtain t where t: "validate_named_artifact env True (in_temporary i) (in_size i) (in_sha256 i) s = (Inr (), t)"
        "spent (nat (in_size i)) s t" using validated_passes [OF env(1) temp] by blast
    obtain u where u: "control_check env t = (Inr (), u)" "spent 0 t u" using control_passes [OF env(1)] by blast
    have held: "held u = held s" and crash: "sp_crash u = None" using t(2) u(2) s(2) by (simp_all add: spent_def)
    have final: "lookup (sp_outbox u) (in_final i) = None" using held None by (simp add: held_def)
    obtain v where v: "publish_without_overwrite (in_temporary i) (in_final i) u = (Inr (), v)" "published env i v"
        "sp_crash v = None" "sp_control v = sp_control u"
      using publish_step [OF env(2) finishable_held [OF held s(1)] final crash] by blast
    have "rc_bytes (sp_control v) + nat (in_size i) \<le> rc_max_bytes (sp_control v)"
      using budget t(2) u(2) v(4) by (simp add: spent_def)
    note done' = commit_passes [OF env v(2,3) this retire]
    have exists: "lookup (sp_outbox s) (in_temporary i) \<noteq> None" and authority: "in_authority i \<noteq> None"
      using temp env(2) by (auto simp: stored_def intent_ok_def)
    have "reconcile_intent env i s = andthen (validate_named_artifact env True (in_final i) (in_size i) (in_sha256 i)) (\<lambda>_.
        andthen (control_check env) (\<lambda>_. andthen (queue_intent env i) (\<lambda>_.
        andthen (control_check env) (\<lambda>_. retire_intent env i)))) v"
      unfolding reconcile_intent_def
      apply (subst andthen_step, subst entry_exists_def, rule refl)
      apply (simp only: None if_False simp_thms)
      apply (subst andthen_step, subst entry_exists_def, rule refl)
      apply (simp only: exists authority if_True if_False simp_thms)
      apply (subst andthen_step, rule t(1), subst andthen_step, rule u(1), subst andthen_step, rule v(1))
      apply (rule refl)
      done
    then show ?thesis using done' by simp
  qed
qed

section \<open>An interrupted recovery\<close>

lemma published_finishable: "published env i s \<Longrightarrow> finishable env i s"
  by (simp add: published_def finishable_def on_disk_once_def)

lemma finishable_published: "finishable env i s \<Longrightarrow> lookup (sp_outbox s) (in_final i) \<noteq> None \<Longrightarrow> published env i s"
  by (auto simp: finishable_def on_disk_once_def published_def)

lemma published_still: "still m \<Longrightarrow> triple (published env i) m (\<lambda>_. published env i) (finishable env i)"
  by (rule tripleI) (auto dest: still_held intro: published_held published_finishable)

lemma held_outbox: "held t = held s \<Longrightarrow> sp_outbox t = sp_outbox s"
  by (simp add: held_def)

lemma finishable_still:
  "still m \<Longrightarrow> triple (\<lambda>s. finishable env i s \<and> lookup (sp_outbox s) (in_final i) = None) m
     (\<lambda>_ s. finishable env i s \<and> lookup (sp_outbox s) (in_final i) = None) (finishable env i)"
  by (rule tripleI) (auto dest!: still_held intro: finishable_held dest: held_outbox)

lemma retire_stops:
  assumes env: "\<And>n. sv_quarantine env n = Quarantined"
  shows "triple (published env i) (retire_intent env i) (\<lambda>_ _. True) (finishable env i)"
proof (rule tripleI)
  fix s e t assume s: "published env i s" and run: "retire_intent env i s = (Inl e, t)"
  have "held t = held s"
    using run by (auto simp: retire_intent_def quarantine_or_fail_def andthen_Inl logical_quarantine_def fresh_token_def
        env move_entry_def durably_def give_def fail_with_def record_quarantine_def record_issue_def andthen_Inr held_def
        split: if_splits option.splits nat.splits)
  then show "finishable env i t" using published_held [OF _ s] published_finishable by blast
qed simp

lemma queued_once:
  assumes names: "intent_names_ok i"
    and run: "ensure_artifact_queued sha now u (in_task i) (in_path i) (text_member (in_manifest i) ''media_type'')
      (in_manifest i) db = (Inr True, db')"
  shows "\<exists>row. find_upload db' (in_artifact i) = Some row \<and> row_of_intent i row"
  using run
  by (auto simp: ensure_artifact_queued_def insert_upload_def find_upload_def find_appended row_of_intent_def in_artifact_def
      in_size_def in_sha256_def intent_path [OF names] split: if_splits option.splits)

lemma queue_stops:
  assumes names: "intent_names_ok i"
  shows "triple (published env i) (queue_intent env i) (\<lambda>_. published env i) (finishable env i)"
proof -
  have keeps: "published env i t" if s: "published env i s" "queue_intent env i s = (r, t)" for s r t
  proof (cases rule: queue_intent_effect [OF s(2)])
    case 1
    then show ?thesis by (rule published_held [OF _ s(1)])
  next
    case (2 u db')
    have "published env i (s\<lparr>sp_db := db'\<rparr>)"
      using s(1) queued_once [OF names 2(1)] by (auto simp: published_def queueable_def)
    then show ?thesis by (rule published_held [OF 2(2)])
  qed
  show ?thesis by (rule tripleI) (use keeps published_finishable in blast)+
qed

lemma publish_stops:
  "triple (\<lambda>s. finishable env i s \<and> lookup (sp_outbox s) (in_final i) = None)
     (publish_without_overwrite (in_temporary i) (in_final i)) (\<lambda>_. published env i) (finishable env i)"
proof (rule tripleI)
  fix s e t assume "finishable env i s \<and> lookup (sp_outbox s) (in_final i) = None"
    "publish_without_overwrite (in_temporary i) (in_final i) s = (Inl e, t)"
  then show "finishable env i t"
    by (auto simp: publish_without_overwrite_def durably_def split: if_splits option.splits nat.splits)
next
  fix s u t assume s: "finishable env i s \<and> lookup (sp_outbox s) (in_final i) = None"
    and run: "publish_without_overwrite (in_temporary i) (in_final i) s = (Inr u, t)"
  have temp: "stored (py_sha (sv_python env)) (sp_outbox s) (in_temporary i) (in_size i) (in_sha256 i)"
    using s by (auto simp: finishable_def on_disk_once_def stored_def)
  then obtain f where f: "lookup (sp_outbox s) (in_temporary i) = Some f"
      "good_file (py_sha (sv_python env)) (in_size i) (in_sha256 i) f" by (auto simp: stored_def)
  have ne: "in_temporary i \<noteq> in_final i" and final: "lookup (sp_outbox s) (in_final i) = None" using f(1) s by auto
  have "sp_outbox t = rename_entry (in_temporary i) (in_final i) (sp_outbox s)" "sp_db t = sp_db s" "sp_intents t = sp_intents s"
    using run by (auto simp: publish_without_overwrite_def durably_def split: if_splits option.splits nat.splits)
  then show "published env i t"
    using s f lookup_renamed [OF f(1) final] lookup_renamed_away [OF ne, of "sp_outbox s"]
    by (auto simp: published_def finishable_def stored_def)
qed

lemma recovery_stops:
  assumes env: "\<And>n. sv_quarantine env n = Quarantined" and i: "in_authority i \<noteq> None" "intent_names_ok i"
  shows "triple (finishable env i) (reconcile_intent env i) (\<lambda>_ _. True) (finishable env i)"
proof (rule tripleI)
  fix s e t assume s: "finishable env i s" and run: "reconcile_intent env i s = (Inl e, t)"
  have retire: "triple (published env i) (andthen (control_check env) (\<lambda>_. retire_intent env i)) (\<lambda>_ _. True) (finishable env i)"
    by (rule triple_andthen [OF published_still retire_stops [OF env]]) (rule still_rules)
  have commit: "triple (published env i) (andthen (validate_named_artifact env True (in_final i) (in_size i) (in_sha256 i)) (\<lambda>_.
      andthen (control_check env) (\<lambda>_. andthen (queue_intent env i) (\<lambda>_. k)))) (\<lambda>_ _. True) (finishable env i)"
    if "triple (published env i) k (\<lambda>_ _. True) (finishable env i)" for k :: "unit spool_op"
    by (rule triple_andthen [OF published_still], rule still_rules,
        rule triple_andthen [OF published_still], rule still_rules,
        rule triple_andthen [OF queue_stops [OF i(2)]], rule that)
  show "finishable env i t"
  proof (cases "lookup (sp_outbox s) (in_final i)")
    case (Some f)
    have left: "triple (published env i) (andthen (entry_exists (in_temporary i)) (\<lambda>leftover. andthen (if leftover
          then andthen (validate_owned_regular (in_temporary i)) (\<lambda>_. andthen (control_check env) (\<lambda>_. retire_temporary env i))
          else give ()) (\<lambda>_. andthen (control_check env) (\<lambda>_. retire_intent env i)))) (\<lambda>_ _. True) (finishable env i)"
    proof (rule triple_andthen [where Q = "\<lambda>leftover s. published env i s \<and> \<not> leftover"])
      show "triple (published env i) (entry_exists (in_temporary i)) (\<lambda>leftover s. published env i s \<and> \<not> leftover) (finishable env i)"
        by (rule tripleI) (auto simp: entry_exists_def published_def)
      fix leftover
      show "triple (\<lambda>s. published env i s \<and> \<not> leftover) (andthen (if leftover
          then andthen (validate_owned_regular (in_temporary i)) (\<lambda>_. andthen (control_check env) (\<lambda>_. retire_temporary env i))
          else give ()) (\<lambda>_. andthen (control_check env) (\<lambda>_. retire_intent env i))) (\<lambda>_ _. True) (finishable env i)"
      proof (cases leftover)
        case True
        then show ?thesis by (intro tripleI) simp_all
      next
        case False
        show ?thesis
          by (simp only: False if_False simp_thms, rule triple_andthen [OF published_still], rule still_rules, rule retire)
      qed
    qed
    have eq: "reconcile_intent env i s = andthen (validate_named_artifact env True (in_final i) (in_size i) (in_sha256 i)) (\<lambda>_.
        andthen (control_check env) (\<lambda>_. andthen (queue_intent env i) (\<lambda>_.
        andthen (entry_exists (in_temporary i)) (\<lambda>leftover. andthen (if leftover
          then andthen (validate_owned_regular (in_temporary i)) (\<lambda>_. andthen (control_check env) (\<lambda>_. retire_temporary env i))
          else give ()) (\<lambda>_. andthen (control_check env) (\<lambda>_. retire_intent env i)))))) s"
      unfolding reconcile_intent_def
      by (subst andthen_step, subst entry_exists_def, rule refl) (simp only: Some option.distinct simp_thms if_True)
    have "published env i s" by (rule finishable_published [OF s]) (simp add: Some)
    from triple_InlD [OF commit [OF left] this run [unfolded eq]] show ?thesis .
  next
    case None
    let ?unpublished = "\<lambda>s. finishable env i s \<and> lookup (sp_outbox s) (in_final i) = None"
    let ?rest = "andthen (validate_named_artifact env True (in_temporary i) (in_size i) (in_sha256 i)) (\<lambda>_.
        andthen (control_check env) (\<lambda>_. andthen (publish_without_overwrite (in_temporary i) (in_final i)) (\<lambda>_.
        andthen (validate_named_artifact env True (in_final i) (in_size i) (in_sha256 i)) (\<lambda>_.
        andthen (control_check env) (\<lambda>_. andthen (queue_intent env i) (\<lambda>_.
        andthen (control_check env) (\<lambda>_. retire_intent env i)))))))"
    have rest: "triple ?unpublished ?rest (\<lambda>_ _. True) (finishable env i)"
      by (rule triple_andthen [OF finishable_still], rule still_rules,
          rule triple_andthen [OF finishable_still], rule still_rules,
          rule triple_andthen [OF publish_stops], rule commit, rule retire)
    have temp: "lookup (sp_outbox s) (in_temporary i) \<noteq> None"
      using s None by (auto simp: finishable_def on_disk_once_def stored_def)
    have eq: "reconcile_intent env i s = ?rest s"
      unfolding reconcile_intent_def
      apply (subst andthen_step, subst entry_exists_def, rule refl)
      apply (simp only: None if_False simp_thms)
      apply (subst andthen_step, subst entry_exists_def, rule refl)
      apply (simp only: temp i(1) if_True if_False simp_thms)
      done
    show ?thesis by (rule triple_InlD [OF rest _ run [unfolded eq]]) (simp add: s None)
  qed
qed simp

text \<open>A recovery that a crash, a stop or a limit ends, again and again.\<close>

inductive interrupted :: "spool_env \<Rightarrow> artifact_intent \<Rightarrow> spool \<Rightarrow> spool \<Rightarrow> bool" for env i where
  before: "interrupted env i s s"
| again: "interrupted env i s t
    \<Longrightarrow> reconcile_intent (env\<lparr>sv_stop := stop\<rparr>) i (t\<lparr>sp_crash := crash, sp_control := c\<rparr>) = (Inl e, t') \<Longrightarrow> interrupted env i s t'"

lemma finishable_stop: "finishable (env\<lparr>sv_stop := stop\<rparr>) i s = finishable env i s"
  by (simp add: finishable_def on_disk_once_def queueable_def cong: option.case_cong)

lemma interrupted_finishable:
  assumes "unstopped env" "intent_ok env i"
  shows "interrupted env i s t \<Longrightarrow> finishable env i s \<Longrightarrow> finishable env i t"
proof (induction rule: interrupted.induct)
  case (again s t stop c crash e t')
  have "finishable env i (t\<lparr>sp_crash := crash, sp_control := c\<rparr>)"
    using again.IH [OF again.prems] by (simp add: finishable_def)
  moreover have "triple (finishable (env\<lparr>sv_stop := stop\<rparr>) i) (reconcile_intent (env\<lparr>sv_stop := stop\<rparr>) i) (\<lambda>_ _. True)
      (finishable (env\<lparr>sv_stop := stop\<rparr>) i)"
    by (rule recovery_stops) (use assms in \<open>auto simp: unstopped_def intent_ok_def\<close>)
  ultimately show ?case
    using triple_InlD again.hyps(2) unfolding finishable_stop by blast
qed

end
