(* ===== verification/Artifact_Properties.thy ===== *)
theory Artifact_Properties
  imports Artifact_Recovery
begin

text \<open>
  The properties of the artifact spool, each with an instance on a concrete staging.
\<close>

section \<open>Queued artifacts\<close>

lemma demo_tokens: "hex_tokens demo_spool_env"
  by (simp add: hex_tokens_def demo_spool_facts list_all_iff lower_hex_def)

text \<open>C10: Whatever stagings, start-ups and crashes happened, from a spool without uploads, every artifact queued for
  upload is in the outbox, read-only and private, with the size and the digest that its row promises to the
  server.  A crash may stop the process before any of its durable steps.  The random tokens in the names are
  hexadecimal, and nothing else writes to the spool meanwhile: the pruning of confirmed artifacts, which deletes
  files, is not one of the steps.\<close>

theorem queued_artifacts_are_on_disk:
  assumes "hex_tokens env" and "spool_run env s t" and "t_uploads (sp_db s) = []" and "row \<in> set (t_uploads (sp_db t))"
  shows "\<exists>name f. up_relative_path row = ''outbox/'' @ name \<and> lookup (sp_outbox t) name = Some f
    \<and> int (length (sf_bytes f)) = up_size_bytes row \<and> py_sha (sv_python env) (sf_bytes f) = up_sha256 row
    \<and> validate_private_file f 256 = Inr ()"
proof -
  let ?sha = "py_sha (sv_python env)"
  have "rows_on_disk ?sha s" using assms(3) by (simp add: rows_on_disk_def)
  then have "rows_on_disk ?sha t"
    using spool_run_keeps [OF on_disk.commit_property_axioms _ assms(1,2)] by blast
  then show ?thesis
    using assms(4) by (force simp: rows_on_disk_def stored_def good_file_def validate_private_iff)
qed

theorem queued_artifacts_are_on_disk_witness:
  "t_uploads (sp_db demo_committed) = [demo_upload]
   \<and> (\<exists>name f. up_relative_path demo_upload = ''outbox/'' @ name \<and> lookup (sp_outbox demo_committed) name = Some f
    \<and> int (length (sf_bytes f)) = up_size_bytes demo_upload
    \<and> py_sha (sv_python demo_spool_env) (sf_bytes f) = up_sha256 demo_upload
    \<and> validate_private_file f 256 = Inr ())"
proof -
  have "spool_run demo_spool_env demo_spool demo_committed"
    by (rule spool_run.staging [OF spool_run.start demo_commits])
  moreover have "t_uploads (sp_db demo_spool) = []" by (simp add: demo_spool_def empty_store_def)
  moreover have "t_uploads (sp_db demo_committed) = [demo_upload]" by (simp add: demo_committed_def empty_store_def)
  ultimately show ?thesis
    using queued_artifacts_are_on_disk [OF demo_tokens, of demo_spool demo_committed demo_upload] by simp
qed

section \<open>Cancellation\<close>

text \<open>A cancellation that is there at one of the operations of a staging up to the start of its commit wins: the
  staging fails, no row is queued, and no published artifact appears, changes or goes, even when the process
  crashes while it cleans up.\<close>

theorem cancelled_staging_leaves_nothing:
  assumes "n \<le> length (so_chunks (rq_source rq)) + 2"
    and "sg_request (rq_signals rq n) \<or> sg_cancelled (rq_signals rq n)"
    and "stage_sync env rq (s\<lparr>sp_tx := new_tx, sp_ops := 0\<rparr>) = (r, t)"
  shows "(\<exists>e. r = Inl e) \<and> sp_db t = sp_db s
    \<and> (\<forall>name. has_prefix name ''artifact-'' \<longrightarrow> lookup (sp_outbox t) name = lookup (sp_outbox s) name)"
proof -
  have "unpublished (sp_outbox s) (sp_db s) (s\<lparr>sp_tx := new_tx, sp_ops := 0\<rparr>)" by (simp add: unpublished_def)
  moreover have "at_op Tx_Copying 0 (s\<lparr>sp_tx := new_tx, sp_ops := 0\<rparr>)" by (simp add: at_op_def new_tx_def)
  moreover have "\<not> calm rq n" using assms(2) by (simp add: calm_def)
  ultimately have "(\<exists>e. r = Inl e) \<and> unpublished (sp_outbox s) (sp_db s) t"
    using stage_sync_cancelled assms(1,3) by blast
  then show ?thesis by (simp add: unpublished_def)
qed

theorem cancelled_staging_leaves_nothing_witness:
  "sg_request (rq_signals (demo_request demo_cancelled) 3)
   \<and> (\<exists>e. fst (stage_sync demo_spool_env (demo_request demo_cancelled) demo_found) = Inl e)
   \<and> sp_db (snd (stage_sync demo_spool_env (demo_request demo_cancelled) demo_found)) = sp_db demo_found"
proof -
  have here: "demo_found\<lparr>sp_tx := new_tx, sp_ops := 0\<rparr> = demo_found" by (simp add: demo_found_def demo_spool_def)
  have request: "sg_request (rq_signals (demo_request demo_cancelled) 3)"
    by (simp add: demo_request_def demo_cancelled_def)
  have late: "3 \<le> length (so_chunks (rq_source (demo_request demo_cancelled))) + 2" by (simp add: demo_request_def)
  obtain r t where run: "stage_sync demo_spool_env (demo_request demo_cancelled)
      (demo_found\<lparr>sp_tx := new_tx, sp_ops := 0\<rparr>) = (r, t)" by fastforce
  show ?thesis
    using cancelled_staging_leaves_nothing [OF late _ run] request run unfolding here by simp
qed

section \<open>What a cancellation leaves\<close>

text \<open>An intent that the cleanup of a failed staging renamed blocks the spool: no reconciliation recognises its name,
  so every later staging, of any artifact, and every start-up fails until someone removes the file.\<close>

theorem abandoned_intent_blocks_staging:
  assumes "name \<in> fst ` set (sp_intents s)" and "has_prefix name ''.artifact-cleanup-quarantine-''"
    and "\<forall>n e. sv_stop env n = Some e \<longrightarrow> stops e"
    and "stage_exclusive env rq s = (r, t) \<and> reconcile_startup_sync env s = (r', t')"
  shows "(\<exists>e. r = Inl e \<and> (stops e \<or> (\<exists>issues. issues \<noteq> [] \<and> e = Reconciliation_Error issues)))
    \<and> (\<exists>e. r' = Inl e \<and> (stops e \<or> (\<exists>issues. issues \<noteq> [] \<and> e = Reconciliation_Error issues)))"
proof -
  have "stops_only env" "abandoned name" using assms(2,3) by (simp_all add: stops_only_def abandoned_def)
  then show ?thesis
    using staging_refused [OF _ assms(1)] startup_refused [OF _ assms(1)] assms(4) unfolding refused_def by blast
qed

theorem abandoned_intent_blocks_staging_witness:
  "stage_exclusive demo_spool_env (demo_request demo_cancelled) demo_spool = (Inl Staging_Cancelled, demo_abandoned)
   \<and> (\<exists>e. fst (stage_exclusive demo_spool_env (demo_request (\<lambda>_. demo_calm)) demo_abandoned) = Inl e)
   \<and> (\<exists>e. fst (reconcile_startup_sync demo_spool_env demo_abandoned) = Inl e)"
proof -
  have "''.artifact-cleanup-quarantine-aaaaa'' \<in> fst ` set (sp_intents demo_abandoned)" by (simp add: demo_abandoned_def)
  moreover have "has_prefix ''.artifact-cleanup-quarantine-aaaaa'' ''.artifact-cleanup-quarantine-''" by (simp add: has_prefix_def)
  moreover have "\<forall>n e. sv_stop demo_spool_env n = Some e \<longrightarrow> stops e" by (simp add: demo_spool_env_def)
  moreover obtain r t where run: "stage_exclusive demo_spool_env (demo_request (\<lambda>_. demo_calm)) demo_abandoned = (r, t)" by fastforce
  moreover obtain r' t' where start: "reconcile_startup_sync demo_spool_env demo_abandoned = (r', t')" by fastforce
  ultimately have "(\<exists>e. r = Inl e) \<and> (\<exists>e. r' = Inl e)"
    using abandoned_intent_blocks_staging [where s = demo_abandoned and env = demo_spool_env] by blast
  then show ?thesis using demo_cancels run start by simp
qed

section \<open>Recovery\<close>

text \<open>C11: A capture with a valid and durable intent, its bytes under the temporary or the final name and a row that is
  queued for it or can be queued, survives crashes: however often its recovery is interrupted, by a crash at
  whatever step or by a cancellation or deadline, a later one that is left alone, has a budget of twice the size
  and can rename its intent away, publishes the bytes under the final name, has the row of the intent queued
  and retires the intent.\<close>

theorem interrupted_capture_is_finished:
  assumes "\<forall>n. sv_stop env n = None \<and> sv_quarantine env n = Quarantined" and "intent_ok env i"
    and "finishable env i s" and "interrupted env i s t"
    and "rc_bytes c = 0" and "2 * nat (in_size i) \<le> rc_max_bytes c"
  shows "\<exists>u. reconcile_intent env i (t\<lparr>sp_crash := None, sp_control := c\<rparr>) = (Inr (), u) \<and> finished env i u"
proof -
  have env: "unstopped env" using assms(1) by (simp add: unstopped_def)
  have "finishable env i (t\<lparr>sp_crash := None, sp_control := c\<rparr>)"
    using interrupted_finishable [OF env assms(2,4,3)] by (simp add: finishable_def)
  then show ?thesis using recovery_finishes [OF env assms(2)] assms(5,6) by simp
qed

definition demo_capture :: artifact_intent where
  "demo_capture = demo_intent\<lparr>in_authority := Some (JObj [])\<rparr>"

lemma demo_capture_fields:
  "in_size demo_capture = 3" "in_sha256 demo_capture = replicate 64 CHR ''b''" "in_path demo_capture = ''outbox/artifact-aa.pcapng''"
  "in_temporary demo_capture = ''.staging-a''" "in_final demo_capture = ''artifact-aa.pcapng''" "in_task demo_capture = ''t''"
  "in_name demo_capture = ''intent-aaa.json''" "in_artifact demo_capture = ''k''" "in_manifest demo_capture = demo_final"
  "in_authority demo_capture = Some (JObj [])"
  by (simp_all add: in_size_def in_sha256_def in_path_def in_artifact_def demo_capture_def demo_intent_def demo_final_def
      field_def text_member_def)

lemma demo_capture_stored:
  "stored (py_sha demo_python) [(''.staging-a'', private_file ''abc'' 256)] ''.staging-a'' 3 (replicate 64 CHR ''b'')"
  by (simp add: stored_def lookup_def good_file_def private_file_def demo_python_def)

lemma demo_capture_ok: "intent_ok demo_spool_env demo_capture" "finishable demo_spool_env demo_capture demo_staged"
proof -
  have "length (digest (py_sha demo_python) demo_final) = 64"
    using demo_sha by (simp add: digest_def sha_ok_def hex_text_def)
  then show "intent_ok demo_spool_env demo_capture"
    by (simp add: intent_ok_def intent_names_ok_def demo_capture_fields demo_spool_facts has_prefix_def)
  show "finishable demo_spool_env demo_capture demo_staged"
    using demo_capture_stored
    by (simp add: finishable_def on_disk_once_def demo_capture_fields demo_spool_facts demo_staged_def demo_found_def demo_spool_def
        lookup_def queueable_def find_upload_def empty_store_def task_exists_def demo_inbox_row_def INTENT_QUARANTINE_def)
qed

lemma demo_capture_crashes:
  "\<exists>t. reconcile_intent (demo_spool_env\<lparr>sv_stop := \<lambda>_. None\<rparr>) demo_capture (demo_staged\<lparr>sp_crash := Some 0, sp_control := demo_control\<rparr>)
     = (Inl Spool_Crash, t)"
proof -
  let ?s = "demo_staged\<lparr>sp_crash := Some 0, sp_control := demo_control\<rparr>"
  have env: "demo_spool_env\<lparr>sv_stop := \<lambda>_. None\<rparr> = demo_spool_env" by (simp add: demo_spool_env_def)
  have free: "unstopped demo_spool_env" by (simp add: unstopped_def demo_spool_env_def)
  have "stored (py_sha (sv_python demo_spool_env)) (sp_outbox ?s) ''.staging-a'' 3 (replicate 64 CHR ''b'')"
    using demo_capture_stored by (simp add: demo_spool_facts demo_staged_def)
  then obtain t where t: "validate_named_artifact demo_spool_env True ''.staging-a'' 3 (replicate 64 CHR ''b'') ?s = (Inr (), t)"
      "spent (nat 3) ?s t"
    using validated_passes [OF free] by (fastforce simp: demo_control_def)
  obtain u where u: "control_check demo_spool_env t = (Inr (), u)" "spent 0 t u" using control_passes [OF free] by blast
  have disk: "sp_outbox u = [(''.staging-a'', private_file ''abc'' 256)]" and crash: "sp_crash u = Some 0"
    using t(2) u(2) by (simp_all add: spent_def held_def demo_staged_def)
  have start: "sp_outbox ?s = [(''.staging-a'', private_file ''abc'' 256)]" by (simp add: demo_staged_def)
  have "publish_without_overwrite ''.staging-a'' ''artifact-aa.pcapng'' u = (Inl Spool_Crash, u)"
    by (simp add: publish_without_overwrite_def disk lookup_def durably_def crash)
  then show ?thesis
    unfolding env reconcile_intent_def demo_capture_fields
    using t(1) u(1) start by (simp add: andthen_def entry_exists_def lookup_def)
qed

theorem interrupted_capture_is_finished_witness:
  "\<exists>t u. reconcile_intent (demo_spool_env\<lparr>sv_stop := \<lambda>_. None\<rparr>) demo_capture (demo_staged\<lparr>sp_crash := Some 0, sp_control := demo_control\<rparr>)
      = (Inl Spool_Crash, t)
    \<and> reconcile_intent demo_spool_env demo_capture (t\<lparr>sp_crash := None, sp_control := demo_control\<rparr>) = (Inr (), u)
    \<and> finished demo_spool_env demo_capture u"
proof -
  obtain t where t: "reconcile_intent (demo_spool_env\<lparr>sv_stop := \<lambda>_. None\<rparr>) demo_capture
      (demo_staged\<lparr>sp_crash := Some 0, sp_control := demo_control\<rparr>) = (Inl Spool_Crash, t)"
    using demo_capture_crashes by blast
  have env: "\<forall>n. sv_stop demo_spool_env n = None \<and> sv_quarantine demo_spool_env n = Quarantined"
    by (simp add: demo_spool_env_def)
  show ?thesis
    using interrupted_capture_is_finished [OF env demo_capture_ok interrupted.again [OF interrupted.before t], of demo_control] t
    by (auto simp: demo_control_def demo_capture_fields)
qed

end
