(* ===== verification/Spec2Isabelle.thy ===== *)
theory Spec2Isabelle
  imports Task_Refinement Task_Typing Windows_Properties Channel_Geometry Agent_Runtime Session_Link
    Backend_Properties Accounts_Seeds Capture_Properties Capture_Bound
    Upload_Retention Artifact_Properties
begin

text \<open>
  A model of the WiFi Test Orchestrator, with the theorems that make it correct.  The program has a
  backend (\<open>backend/src/wto_backend\<close>) that knows agents, users and credentials, and a desktop agent
  (\<open>agents/desktop/src/wto_desktop_agent\<close>) that polls it, runs test tasks through plugins, reports
  their results and controls the local Wi-Fi adapter.  Both keep their state in a database and
  repeat every request until it is acknowledged, so most of what can go wrong is about repetition,
  interruption and order; that is what the theorems are about.

  \<^bold>\<open>Conventions.\<close>  A table is the list of its rows, a row a record with the columns of the schema; an
  insert or an update that violates a constraint of the schema is an error.  An operation takes the
  clock reading and the fresh identifiers it uses as arguments, and returns its exception or its
  result together with the committed database; what an exception rolls back is not in that database.
  Hashes, ciphers, signatures, JSON-schema validation, the operating system and the network are
  arguments, and what is used of them is a hypothesis of the theorem that uses it.  Code that awaits
  is cut at its awaits; what other tasks do in between is an argument constrained by a named
  hypothesis.  Strings are sequences of bytes (UTF-8).  The names follow the source.

  \<^bold>\<open>The agent's task engine.\<close>
  \<^item> \<open>Task_States\<close>: \<open>domain/states.py\<close>, the states of a task and the table of transitions.
  \<^item> \<open>Canonical_Json\<close>, \<open>Json_Loads\<close>: the canonical rendering of \<open>infrastructure/contracts.py\<close> and the
    loader of the standard library; loading what was rendered gives the document with sorted members.
    \<open>Json_Members\<close>: the members of a loaded document; \<open>Path_Names\<close>: parts of paths and hexadecimal
    tokens; \<open>Ascii_Text\<close>: characters, slices and \<open>json.dumps\<close> with its ASCII escapes.
  \<^item> \<open>Store_Schema\<close>: the tables of the SQLite schema of the agent that its operation uses.
  \<^item> \<open>Task_Store\<close>: the task operations of \<open>SQLiteStore\<close>; \<open>Upload_Store\<close>: its operations on the uploads of
    artifacts, \<open>Upload_Retention\<close>: which of them the retention removes.  \<open>Task_Invariant\<close> is their invariant,
    \<open>Task_Reach\<close> the database as a step relation over all operations in any order, \<open>Task_Demo\<close> a
    concrete run, \<open>Task_Properties\<close> what holds across redelivery, crashes and restarts,
    \<open>Task_Refinement\<close> the abstract ledger of keys that the store refines, \<open>Task_Typing\<close> that every
    stored row is the image of one envelope.
  \<^item> \<open>Cas_Machine\<close>: the contract of rows whose state moves by compare-and-set, interpreted on the inbox.
  \<^item> \<open>Task_Runner\<close>: \<open>application/task_runner.py\<close>, \<open>plugins/\<close>: a run as its three atomic sections.
  \<^item> \<open>Scheduler\<close>: \<open>application/scheduler.py\<close>: one polling cycle and the synchronisation of the outboxes.

  \<^bold>\<open>The agent's session with the backend.\<close>
  \<^item> \<open>Seq_Channel\<close>: the contract of a durable numbered channel, interpreted in \<open>Runtime_Store\<close> (the
    runtime part of \<open>SQLiteStore\<close>) on heartbeats and on manifests.
  \<^item> \<open>Agent_Session\<close>: \<open>application/capabilities.py\<close>, \<open>application/heartbeat.py\<close>.
  \<^item> \<open>Identity\<close>: \<open>application/identity.py\<close> and the secret store as a contract: a store whose every call may
    fail, interpreted on the in-memory store of \<open>platforms/common.py\<close> and on the unavailable store of the
    Linux platform: enrolment, rotation, revocation.
  \<^item> \<open>Agent_Runtime\<close>: \<open>application/runtime.py\<close>, \<open>infrastructure/backoff.py\<close>: the start, a cycle, the loop.
  \<^item> \<open>Http_Transport\<close>: the answers of the backend as the agent reads them.
  \<^item> \<open>Heartbeat_Order\<close>, \<open>Session_Link\<close>: the heartbeats of an agent over its whole life, and against the
    model of the backend over an unreliable network.

  \<^bold>\<open>Local Wi-Fi.\<close>
  \<^item> \<open>Windows_Operations\<close>: the journal of local operations in \<open>SQLiteStore\<close>, its invariant and steps.
  \<^item> \<open>Windows_Network\<close>: \<open>platforms/windows/network_controller.py\<close> over an arbitrary radio.  The wait for a
    profile terminates because every round consumes time of the deadline.
  \<^item> \<open>Windows_Properties\<close>: operations end, report what was observed, and are reconciled after a restart.
  \<^item> \<open>Channel_Geometry\<close>: the channel arithmetic of both platforms.

  \<^bold>\<open>Captures on Linux.\<close>  \<open>platforms/linux/capture_recovery.py\<close>: what survives a crash of a capture.
  \<^item> \<open>Capture_Json\<close>: the lines of a file; \<open>Capture_Marker\<close>: the marker, an
    append-only log with a chain of digests, its operations and its reader; \<open>Capture_Log\<close>: the file as a
    log; \<open>Capture_Runs\<close>: the markers in use; \<open>Capture_Demo\<close>: one of them; \<open>Capture_Properties\<close>: a marker
    is picked up where it was left, also after a write cut short.
  \<^item> \<open>Capture_Binding\<close>: the bindings of idempotency keys to artifacts; \<open>Capture_Bound\<close>: a published
    binding is the answer for its key.

  \<^bold>\<open>The artifact spool.\<close>  \<open>application/artifacts.py\<close>: how a file becomes a queued upload.
  \<^item> \<open>Artifact_Spool\<close>: the directories, the database and the intents, with every durable step explicit so
    that a crash can come before any of them, and the reconciliation of the intents; \<open>Artifact_Stage\<close>:
    the transaction a cancellation races with, the copy, the commit and the cleanup.
  \<^item> \<open>Artifact_Safety\<close>: triples with a condition for every end of a program, and the contract of what a
    commit keeps; \<open>Artifact_Runs\<close>: stagings, start-ups and restarts in any order; \<open>Artifact_Cancel\<close>,
    \<open>Artifact_Blocked\<close>: what a cancelled staging leaves and what it blocks; \<open>Artifact_Demo\<close>: a staging;
    \<open>Artifact_Recovery\<close>: an interrupted capture is finished; \<open>Artifact_Properties\<close>: the properties.

  \<^bold>\<open>The backend's agent interface.\<close>
  \<^item> \<open>Backend_Schema\<close>: \<open>domain/models.py\<close>, \<open>repositories/agents.py\<close>, \<open>audit.py\<close>.
  \<^item> \<open>Backend_Protocol\<close>: \<open>services/agent_protocol.py\<close>: manifests and presence.
  \<^item> \<open>Agent_Auth\<close>: machine secrets, the guard against replay, the authentication of a request.
  \<^item> \<open>Backend_Idempotency\<close>: \<open>services/idempotency.py\<close> and the contract of a repeatable operation.
  \<^item> \<open>Backend_Credentials\<close>: \<open>services/agent_credentials.py\<close>, \<open>services/enrollment.py\<close>.
    \<open>Credential_Invariant\<close> is their invariant, \<open>Backend_Reach\<close> the states that requests and
    administrators reach, \<open>Backend_Repeat\<close> the interpretations of the repeatable contract,
    \<open>Backend_Demo\<close> a run, \<open>Backend_Properties\<close> the properties.

  \<^bold>\<open>The backend's accounts.\<close>
  \<^item> \<open>Backend_Accounts\<close>: users, roles, sessions, refresh tokens, passwords, access tokens, the limiter.
  \<^item> \<open>Backend_Auth\<close>: \<open>services/auth.py\<close> and its endpoints; \<open>Backend_Admin\<close>: \<open>services/rbac.py\<close>,
    \<open>services/bootstrap.py\<close>, \<open>services/seeds.py\<close> and their endpoints.
  \<^item> \<open>Accounts_Reach\<close>: the reachable states; \<open>Accounts_Order\<close>: what no operation takes back;
    \<open>Accounts_Demo\<close>: a run; \<open>Accounts_Properties\<close>, \<open>Accounts_Admin\<close>, \<open>Accounts_Seeds\<close>: the properties.

  \<^bold>\<open>Bounds and fuel.\<close>  The only fuel is that of the JSON parser, twice the length of the text plus
  two: every call of the parser consumes a character or follows one that does, and the round trip is
  proved with it.  Python's integers are unbounded and so
  are they here; floats of the backoff are rationals, with the overflow of the power written out.

  \<^bold>\<open>Not modelled.\<close>  The files and processes of the Linux platform (secure directories, the secret store,
  the supervision of capture processes, cgroups, inventories by command output), the journal of
  the pruning of artifacts and the descriptors and inodes behind the names of the spool, the tables \<open>sync_state\<close>
  and \<open>schema_migrations\<close>, the Windows bindings and the service host, the configuration, command lines and logging, the
  web framework of the backend with its middleware, migrations and read-only views, and the frontend:
  they are input and output around the state that is modelled, or wrappers of foreign interfaces.
\<close>

end
